(* ===== verification/Prelude.thy ===== *)
theory Prelude
  imports Main "HOL-Library.Word" "HOL-Library.Monad_Syntax"
begin

text \<open>
  Shared vocabulary of the development: the machine integer types of the C code, byte
  order, the memory-copy operation on byte buffers and the block iteration used by the
  hash contexts, with the list and word lemmas the components share.
\<close>

unbundle bit_operations_syntax

subsection \<open>Machine types\<close>

type_synonym u8 = "8 word"
type_synonym u16 = "16 word"
type_synonym u32 = "32 word"
type_synonym u64 = "64 word"
type_synonym usize = "64 word"
type_synonym bytes = "8 word list"

text \<open>Rewrite rules for buffers (lengths, slices), collected for the component proofs.\<close>

named_theorems buffer_simps

subsection \<open>memcpy into a buffer\<close>

text \<open>
  \<open>overwrite off src buf\<close> is the buffer after \<open>memcpy (buf + off, src, length src)\<close>.
  It is used where the code has checked, or the caller proves, that the bytes fit; the length
  is then unchanged.
\<close>

definition overwrite :: "nat \<Rightarrow> 'a list \<Rightarrow> 'a list \<Rightarrow> 'a list" where
  "overwrite off src buf = take off buf @ src @ drop (off + length src) buf"

lemma length_overwrite [simp]:
  "off + length src \<le> length buf \<Longrightarrow> length (overwrite off src buf) = length buf"
  by (simp add: overwrite_def)

lemma overwrite_Nil [simp]: "overwrite off [] buf = buf"
  by (simp add: overwrite_def)

lemma take_overwrite_le [buffer_simps]:
  "n \<le> off \<Longrightarrow> off \<le> length buf \<Longrightarrow> take n (overwrite off src buf) = take n buf"
  by (simp add: overwrite_def min_def)

lemma take_overwrite_end [buffer_simps]:
  "off \<le> length buf \<Longrightarrow> take (off + length src) (overwrite off src buf) = take off buf @ src"
  by (simp add: overwrite_def)

lemma drop_overwrite_ge:
  assumes "off + length src \<le> n" and "off \<le> length buf"
  shows "drop n (overwrite off src buf) = drop n buf"
proof -
  from assms obtain k where n: "n = off + length src + k" using le_Suc_ex by blast
  show ?thesis using assms by (simp add: overwrite_def n add.commute add.left_commute)
qed

lemma overwrite_0_take [buffer_simps]: "take (length src) (overwrite 0 src buf) = src"
  by (simp add: overwrite_def)

lemma nth_overwrite:
  assumes "i < length buf" and "off + length src \<le> length buf"
  shows "overwrite off src buf ! i =
    (if off \<le> i \<and> i < off + length src then src ! (i - off) else buf ! i)"
  using assms by (auto simp: overwrite_def nth_append min_def)

lemma overwrite_split:
  assumes "off + length xs + length ys \<le> length buf"
  shows "overwrite off (xs @ ys) buf = overwrite (off + length xs) ys (overwrite off xs buf)"
  using assms by (simp add: overwrite_def add.assoc add.commute add.left_commute)

text \<open>The guarded copy: \<open>None\<close> when the C code would read or write outside the two buffers.\<close>

definition memcpy :: "'a list \<Rightarrow> nat \<Rightarrow> 'a list \<Rightarrow> nat \<Rightarrow> 'a list option" where
  "memcpy buf off src n =
     (if off + n \<le> length buf \<and> n \<le> length src then Some (overwrite off (take n src) buf) else None)"

lemma memcpy_ok:
  "off + n \<le> length buf \<Longrightarrow> n \<le> length src \<Longrightarrow> memcpy buf off src n = Some (overwrite off (take n src) buf)"
  by (simp add: memcpy_def)

lemma memcpy_SomeD:
  "memcpy buf off src n = Some b \<Longrightarrow>
     off + n \<le> length buf \<and> n \<le> length src \<and> b = overwrite off (take n src) buf"
  by (simp add: memcpy_def split: if_splits)

subsection \<open>Iterating over whole blocks\<close>

text \<open>
  \<open>absorb n f s xs\<close> runs \<open>f\<close> over the consecutive full blocks of length \<open>n\<close> of
  \<open>xs\<close> and ignores an incomplete last one. It is the reference meaning of every loop of the
  hash code that walks a message block by block.
\<close>

function absorb :: "nat \<Rightarrow> ('s \<Rightarrow> 'a list \<Rightarrow> 's) \<Rightarrow> 's \<Rightarrow> 'a list \<Rightarrow> 's" where
  "absorb n f s xs =
     (if n = 0 \<or> length xs < n then s else absorb n f (f s (take n xs)) (drop n xs))"
  by pat_completeness auto
termination
  by (relation "measure (\<lambda>(n, f, s, xs). length xs)") auto

declare absorb.simps [simp del]

definition leftover :: "nat \<Rightarrow> 'a list \<Rightarrow> 'a list" where
  "leftover n xs = drop (length xs div n * n) xs"

lemma absorb_short [simp]: "length xs < n \<Longrightarrow> absorb n f s xs = s"
  by (simp add: absorb.simps)

lemma absorb_step:
  "0 < n \<Longrightarrow> n \<le> length xs \<Longrightarrow> absorb n f s xs = absorb n f (f s (take n xs)) (drop n xs)"
  by (simp add: absorb.simps [of n f s xs])

lemma absorb_one: "0 < n \<Longrightarrow> length xs = n \<Longrightarrow> absorb n f s xs = f s xs"
  by (simp add: absorb_step)

lemma absorb_append:
  "0 < n \<Longrightarrow> length xs mod n = 0 \<Longrightarrow> absorb n f s (xs @ ys) = absorb n f (absorb n f s xs) ys"
proof (induction n f s xs rule: absorb.induct)
  case (1 n f s xs)
  show ?case
  proof (cases "length xs < n")
    case True
    with "1.prems" have "xs = []" by (cases xs) auto
    with "1.prems" show ?thesis by simp
  next
    case False
    then have le: "n \<le> length xs" by simp
    have "length (drop n xs) mod n = 0"
      using "1.prems" le by (simp add: mod_if [of "length xs"])
    then have IH: "absorb n f (f s (take n xs)) (drop n xs @ ys) =
        absorb n f (absorb n f (f s (take n xs)) (drop n xs)) ys"
      using "1.IH" "1.prems" False by simp
    have "absorb n f s (xs @ ys) = absorb n f (f s (take n xs)) (drop n xs @ ys)"
      using "1.prems"(1) le by (simp add: absorb_step)
    with IH show ?thesis using "1.prems"(1) le by (simp add: absorb_step [of n xs])
  qed
qed

lemma leftover_length: "0 < n \<Longrightarrow> length (leftover n xs) < n"
  by (simp add: leftover_def minus_div_mult_eq_mod)

lemma leftover_short [simp]: "length xs < n \<Longrightarrow> leftover n xs = xs"
  by (simp add: leftover_def)

lemma leftover_split: "xs = take (length xs div n * n) xs @ leftover n xs"
  by (simp add: leftover_def)

lemma absorb_take_full:
  assumes "0 < n"
  shows "absorb n f s xs = absorb n f s (take (length xs div n * n) xs)"
proof -
  let ?k = "length xs div n * n"
  have "length (take ?k xs) mod n = 0"
    by (simp add: min_absorb2)
  then have "absorb n f s (take ?k xs @ leftover n xs) =
      absorb n f (absorb n f s (take ?k xs)) (leftover n xs)"
    by (rule absorb_append [OF assms])
  then show ?thesis
    using leftover_length [OF assms, of xs] leftover_split [of xs n] by simp
qed

lemma absorb_leftover:
  assumes "0 < n"
  shows "absorb n f s (xs @ ys) = absorb n f (absorb n f s xs) (leftover n xs @ ys)"
proof -
  let ?k = "length xs div n * n"
  have "length (take ?k xs) mod n = 0"
    by (simp add: min_absorb2)
  then have "absorb n f s (take ?k xs @ (leftover n xs @ ys)) =
      absorb n f (absorb n f s (take ?k xs)) (leftover n xs @ ys)"
    by (rule absorb_append [OF assms])
  then show ?thesis
    using leftover_split [of xs n] absorb_take_full [OF assms, of f s xs]
    by (metis append.assoc)
qed

lemma leftover_append:
  assumes "0 < n"
  shows "leftover n (xs @ ys) = leftover n (leftover n xs @ ys)"
proof -
  let ?k = "length xs div n * n" and ?r = "leftover n xs"
  have xs: "xs = take ?k xs @ ?r" by (rule leftover_split)
  have k: "?k \<le> length xs" by simp
  have len: "length (xs @ ys) = ?k + length (?r @ ys)"
    unfolding leftover_def length_append length_drop using k by linarith
  have "length (xs @ ys) div n * n = ?k + length (?r @ ys) div n * n"
    unfolding len using assms by (simp only: div_mult_self3 add_mult_distrib)
  then have "leftover n (xs @ ys) = drop (length (?r @ ys) div n * n) (drop ?k (xs @ ys))"
    by (simp add: leftover_def drop_drop add.commute del: drop_append length_append)
  also have "drop ?k (xs @ ys) = ?r @ ys"
    using k by (simp add: leftover_def)
  finally show ?thesis by (simp add: leftover_def)
qed

lemma leftover_exact [simp]: "0 < n \<Longrightarrow> length xs = n \<Longrightarrow> leftover n xs = []"
  by (simp add: leftover_def)

subsection \<open>Words\<close>

lemma unat_of_nat_lt:
  "m < 2 ^ LENGTH('a) \<Longrightarrow> unat (of_nat m :: 'a::len word) = m"
  by (simp add: unat_of_nat take_bit_nat_eq_self)

lemma unat_add_lt:
  "unat (a :: 'a::len word) + unat b < 2 ^ LENGTH('a) \<Longrightarrow> unat (a + b) = unat a + unat b"
  by (simp add: unat_word_ariths)

lemma unat_sub_le: "b \<le> (a :: 'a::len word) \<Longrightarrow> unat (a - b) = unat a - unat b"
  by (rule unat_sub)

lemma unat_ucast_down:
  "unat (x :: 'a::len word) < 2 ^ LENGTH('b) \<Longrightarrow> unat (ucast x :: 'b::len word) = unat x"
  by (simp add: unsigned_ucast_eq take_bit_nat_eq_self)

lemma unat_ucast_up:
  assumes "LENGTH('a::len) \<le> LENGTH('b::len)"
  shows "unat (ucast (x :: 'a word) :: 'b word) = unat x"
proof (rule unat_ucast_down)
  have "unat x < 2 ^ LENGTH('a)" by (rule unsigned_less)
  also have "\<dots> \<le> 2 ^ LENGTH('b)" using assms by (simp add: power_increasing)
  finally show "unat x < 2 ^ LENGTH('b)" .
qed

lemma word_le_iff_unat: "(a :: 'a::len word) \<le> b \<longleftrightarrow> unat a \<le> unat b"
  by (rule word_le_nat_alt)

lemma word_less_iff_unat: "(a :: 'a::len word) < b \<longleftrightarrow> unat a < unat b"
  by (rule word_less_nat_alt)

lemma xor_eq_0_iff_word [simp]: "(a :: 'a::len word) XOR b = 0 \<longleftrightarrow> a = b"
  by (auto simp: bit_eq_iff bit_xor_iff)

lemma xor_right_cancel_word [simp]: "(a :: 'a::len word) XOR c = b XOR c \<longleftrightarrow> a = b"
  by (auto simp: bit_eq_iff bit_xor_iff)

end
