(* ===== verification/EList.thy ===== *)
theory EList
  imports Prelude
begin

text \<open>
  The intrusive doubly linked lists of \<open>dll_src/reliableudp/src/list.c\<close> and
  \<open>include/enet/list.h\<close>. Nodes live in a store that maps addresses to their two links; a
  list is the address of its sentinel. \<open>dlist\<close> says which sequence of nodes a sentinel
  heads, and the lemmas show that every operation of list.c computes the corresponding
  operation on that sequence and leaves all other lists alone. The peers of the other theories
  hold those sequences as HOL lists; the locale \<open>node_queue\<close> is the interface they rely on.
\<close>

subsection \<open>Nodes and the operations of list.c\<close>

type_synonym addr = nat

record ENetListNode =
  node_next :: addr
  node_previous :: addr

type_synonym node_store = "addr \<Rightarrow> ENetListNode"

definition set_next :: "node_store \<Rightarrow> addr \<Rightarrow> addr \<Rightarrow> node_store" where
  "set_next m a v = m(a := (m a)\<lparr>node_next := v\<rparr>)"

definition set_previous :: "node_store \<Rightarrow> addr \<Rightarrow> addr \<Rightarrow> node_store" where
  "set_previous m a v = m(a := (m a)\<lparr>node_previous := v\<rparr>)"

definition enet_list_begin :: "node_store \<Rightarrow> addr \<Rightarrow> addr" where
  "enet_list_begin m l = node_next (m l)"

definition enet_list_end :: "addr \<Rightarrow> addr" where
  "enet_list_end l = l"

definition enet_list_empty :: "node_store \<Rightarrow> addr \<Rightarrow> bool" where
  "enet_list_empty m l \<longleftrightarrow> enet_list_begin m l = enet_list_end l"

definition enet_list_next :: "node_store \<Rightarrow> addr \<Rightarrow> addr" where
  "enet_list_next m a = node_next (m a)"

definition enet_list_previous :: "node_store \<Rightarrow> addr \<Rightarrow> addr" where
  "enet_list_previous m a = node_previous (m a)"

definition enet_list_front :: "node_store \<Rightarrow> addr \<Rightarrow> addr" where
  "enet_list_front m l = node_next (m l)"

definition enet_list_back :: "node_store \<Rightarrow> addr \<Rightarrow> addr" where
  "enet_list_back m l = node_previous (m l)"

definition enet_list_clear :: "addr \<Rightarrow> node_store \<Rightarrow> node_store" where
  "enet_list_clear l m = set_previous (set_next m l l) l l"

definition enet_list_insert :: "addr \<Rightarrow> addr \<Rightarrow> node_store \<Rightarrow> addr \<times> node_store" where
  "enet_list_insert position result m =
     (let m1 = set_previous m result (node_previous (m position));
          m2 = set_next m1 result position;
          m3 = set_next m2 (node_previous (m2 result)) result;
          m4 = set_previous m3 position result
      in (result, m4))"

definition enet_list_remove :: "addr \<Rightarrow> node_store \<Rightarrow> addr \<times> node_store" where
  "enet_list_remove position m =
     (let m1 = set_next m (node_previous (m position)) (node_next (m position));
          m2 = set_previous m1 (node_next (m1 position)) (node_previous (m1 position))
      in (position, m2))"

text \<open>
  \<open>enet_list_size\<close> counts until the sentinel comes round again. On a store that is not a
  list it may run forever, which is the value \<open>None\<close>.
\<close>

partial_function (option) list_size_loop :: "node_store \<Rightarrow> addr \<Rightarrow> addr \<Rightarrow> nat \<Rightarrow> nat option" where
  "list_size_loop m l position n =
     (if position \<noteq> enet_list_end l
      then list_size_loop m l (enet_list_next m position) (Suc n)
      else Some n)"

definition enet_list_size :: "node_store \<Rightarrow> addr \<Rightarrow> nat option" where
  "enet_list_size m l = list_size_loop m l (enet_list_begin m l) 0"

subsection \<open>The sequence a list stands for\<close>

text \<open>\<open>chain m a xs b\<close>: following \<open>next\<close> from \<open>a\<close> visits \<open>xs\<close> and arrives at \<open>b\<close>,
  and every \<open>previous\<close> link goes back the same way.\<close>

fun chain :: "node_store \<Rightarrow> addr \<Rightarrow> addr list \<Rightarrow> addr \<Rightarrow> bool" where
  "chain m a [] b \<longleftrightarrow> node_next (m a) = b \<and> node_previous (m b) = a"
| "chain m a (x # xs) b \<longleftrightarrow> node_next (m a) = x \<and> node_previous (m x) = a \<and> chain m x xs b"

definition dlist :: "node_store \<Rightarrow> addr \<Rightarrow> addr list \<Rightarrow> bool" where
  "dlist m l xs \<longleftrightarrow> distinct (l # xs) \<and> chain m l xs l"

lemma chain_append:
  "chain m a (xs @ y # ys) b \<longleftrightarrow> chain m a xs y \<and> chain m y ys b"
  by (induction xs arbitrary: a) auto

lemma chain_cong:
  assumes "\<And>x. x \<in> set (a # xs) \<Longrightarrow> node_next (m' x) = node_next (m x)"
    and "\<And>x. x \<in> set (xs @ [b]) \<Longrightarrow> node_previous (m' x) = node_previous (m x)"
  shows "chain m' a xs b = chain m a xs b"
  using assms by (induction xs arbitrary: a) auto

lemma chain_first: "chain m a xs b \<Longrightarrow> node_next (m a) = hd (xs @ [b])"
  by (cases xs) auto

lemma chain_last: "chain m a xs b \<Longrightarrow> node_previous (m b) = last (a # xs)"
  by (induction xs arbitrary: a) auto

text \<open>What the links of a stored node are after the two kinds of write.\<close>

lemma set_next_simps [simp]:
  "node_next (set_next m a v b) = (if a = b then v else node_next (m b))"
  "node_previous (set_next m a v b) = node_previous (m b)"
  by (simp_all add: set_next_def)

lemma set_previous_simps [simp]:
  "node_previous (set_previous m a v b) = (if a = b then v else node_previous (m b))"
  "node_next (set_previous m a v b) = node_next (m b)"
  by (simp_all add: set_previous_def)

lemma remove_links:
  "node_next (snd (enet_list_remove p m) b) =
     (if node_previous (m p) = b then node_next (m p) else node_next (m b))"
  "node_previous (snd (enet_list_remove p m) b) =
     (if node_next (snd (enet_list_remove p m) p) = b then node_previous (m p)
      else node_previous (m b))"
  by (auto simp: enet_list_remove_def Let_def)

lemma insert_links:
  assumes "node_previous (m p) \<noteq> x" and "p \<noteq> x"
  shows "node_next (snd (enet_list_insert p x m) b) =
     (if node_previous (m p) = b then x else if b = x then p else node_next (m b))"
    and "node_previous (snd (enet_list_insert p x m) b) =
     (if p = b then x else if b = x then node_previous (m p) else node_previous (m b))"
  using assms by (auto simp: enet_list_insert_def Let_def)

lemma insert_result [simp]: "fst (enet_list_insert p x m) = x"
  by (simp add: enet_list_insert_def Let_def)

lemma remove_result [simp]: "fst (enet_list_remove p m) = p"
  by (simp add: enet_list_remove_def Let_def)

subsection \<open>Refinement of the operations\<close>

lemma dlist_clear: "dlist (enet_list_clear l m) l []"
  by (simp add: dlist_def enet_list_clear_def)

lemma dlist_begin: "dlist m l xs \<Longrightarrow> enet_list_begin m l = hd (xs @ [l])"
  by (simp add: dlist_def enet_list_begin_def chain_first)

lemma dlist_back: "dlist m l xs \<Longrightarrow> enet_list_back m l = last (l # xs)"
  unfolding dlist_def enet_list_back_def by (rule chain_last) simp

lemma dlist_empty: "dlist m l xs \<Longrightarrow> enet_list_empty m l \<longleftrightarrow> xs = []"
  using dlist_begin [of m l xs]
  by (cases xs) (auto simp: enet_list_empty_def enet_list_end_def dlist_def)

text \<open>The general case: inserting before the node at any position, the end included.\<close>

lemma dlist_insert_at:
  assumes d: "dlist m l (xs @ ys)" and x: "x \<notin> set (l # xs @ ys)"
    and p: "p = hd (ys @ [l])"
  shows "dlist (snd (enet_list_insert p x m)) l (xs @ x # ys)"
proof -
  let ?m = "snd (enet_list_insert p x m)" and ?q = "last (l # xs)"
  have c: "chain m l (xs @ ys) l" and dist: "distinct (l # xs @ ys)"
    using d by (auto simp: dlist_def)
  obtain zs where zs: "ys @ [l] = p # zs" using p by (cases ys) auto
  have left: "chain m l xs p" and right: "ys \<noteq> [] \<Longrightarrow> chain m p (tl ys) l"
    using c p by (cases ys; simp add: chain_append)+
  have q: "node_previous (m p) = ?q" using left by (rule chain_last)
  have px: "p \<noteq> x" and qx: "?q \<noteq> x"
    using x p by (cases ys; auto)+
  have qset: "?q \<in> set (l # xs)" by (rule last_in_set) simp
  have pset: "p \<in> set (ys @ [l])" unfolding p by (rule hd_in_set) simp
  have nn: "node_next (?m b) = (if ?q = b then x else if b = x then p else node_next (m b))"
    and pp: "node_previous (?m b) = (if p = b then x else if b = x then ?q else node_previous (m b))"
    for b
    using insert_links [of m p x b] px qx by (simp_all add: q)
  have l1: "chain ?m l xs x"
  proof (cases xs rule: rev_cases)
    case Nil
    then show ?thesis using qx px by (simp add: nn pp)
  next
    case (snoc us u)
    then have "chain m l us u" using left by (simp add: chain_append)
    moreover have "chain ?m l us u = chain m l us u"
    proof (rule chain_cong)
      fix b assume "b \<in> set (l # us)"
      then have "?q \<noteq> b" "b \<noteq> x" using dist x snoc by auto
      then show "node_next (?m b) = node_next (m b)" by (simp add: nn)
    next
      fix b assume "b \<in> set (us @ [u])"
      then have "p \<noteq> b" "b \<noteq> x" using dist x snoc pset by auto
      then show "node_previous (?m b) = node_previous (m b)" by (simp add: pp)
    qed
    ultimately have "chain ?m l us u" by simp
    then show ?thesis using qx px snoc by (simp add: chain_append nn pp)
  qed
  have r1: "chain ?m x ys l"
  proof (cases ys)
    case Nil
    then have "p = l" using p by simp
    then show ?thesis using qx px Nil nn [of x] pp [of l] by auto
  next
    case (Cons y ys')
    then have "chain m y ys' l" using right p by simp
    moreover have "chain ?m y ys' l = chain m y ys' l"
    proof (rule chain_cong)
      fix b assume "b \<in> set (y # ys')"
      then have "?q \<noteq> b" "b \<noteq> x" using dist x Cons qset by auto
      then show "node_next (?m b) = node_next (m b)" by (simp add: nn)
    next
      fix b assume "b \<in> set (ys' @ [l])"
      then have "p \<noteq> b" "b \<noteq> x" using dist x Cons p by auto
      then show "node_previous (?m b) = node_previous (m b)" by (simp add: pp)
    qed
    ultimately have "chain ?m y ys' l" by simp
    moreover have "p = y" using p Cons by simp
    ultimately show ?thesis using qx px Cons nn [of x] pp [of y] by auto
  qed
  show ?thesis
    using l1 r1 dist x by (auto simp: dlist_def chain_append)
qed

lemma dlist_remove_at:
  assumes d: "dlist m l (xs @ x # ys)"
  shows "dlist (snd (enet_list_remove x m)) l (xs @ ys)"
proof -
  let ?m = "snd (enet_list_remove x m)" and ?q = "last (l # xs)" and ?p = "hd (ys @ [l])"
  have left: "chain m l xs x" and right: "chain m x ys l" and dist: "distinct (l # xs @ x # ys)"
    using d by (auto simp: dlist_def chain_append)
  have q: "node_previous (m x) = ?q" using left by (rule chain_last)
  have p: "node_next (m x) = ?p" using right by (rule chain_first)
  have qset: "?q \<in> set (l # xs)" by (rule last_in_set) simp
  have pset: "?p \<in> set (ys @ [l])" by (rule hd_in_set) simp
  have qx: "?q \<noteq> x" using qset dist by auto
  have nn: "\<And>b. node_next (?m b) = (if ?q = b then ?p else node_next (m b))"
    and pp: "\<And>b. node_previous (?m b) = (if ?p = b then ?q else node_previous (m b))"
    using qx q p by (simp_all add: remove_links)
  have "chain ?m l (xs @ ys) l"
  proof (cases ys)
    case Nil
    show ?thesis
    proof (cases xs rule: rev_cases)
      case Nil
      with \<open>ys = []\<close> show ?thesis by (simp add: nn pp)
    next
      case (snoc us u)
      then have "chain m l us u" using left by (simp add: chain_append)
      then have "chain ?m l us u"
        using dist snoc \<open>ys = []\<close> by (subst chain_cong [where m = m]) (auto simp: nn pp)
      then show ?thesis using snoc \<open>ys = []\<close> by (simp add: chain_append nn pp)
    qed
  next
    case (Cons y ys')
    then have "chain m y ys' l" using right by simp
    then have r: "chain ?m y ys' l"
      using dist Cons qset by (subst chain_cong [where m = m]) (auto simp: nn pp)
    show ?thesis
    proof (cases xs rule: rev_cases)
      case Nil
      with r Cons show ?thesis by (simp add: nn pp)
    next
      case (snoc us u)
      then have "chain m l us u" using left by (simp add: chain_append)
      then have "chain ?m l us u"
        using dist snoc Cons by (subst chain_cong [where m = m]) (auto simp: nn pp)
      with r show ?thesis using snoc Cons by (simp add: chain_append nn pp)
    qed
  qed
  then show ?thesis using dist by (auto simp: dlist_def)
qed

text \<open>Other lists of the same store are untouched.\<close>

lemma dlist_insert_frame:
  assumes "dlist m k zs" and "dlist m l (xs @ ys)" and "p = hd (ys @ [l])"
    and "set (k # zs) \<inter> set (l # xs @ ys) = {}" and "x \<notin> set (k # zs)" and "x \<notin> set (l # xs @ ys)"
  shows "dlist (snd (enet_list_insert p x m)) k zs"
proof -
  have left: "chain m l xs p" using assms(2,3) by (cases ys; simp add: dlist_def chain_append)
  have q: "node_previous (m p) \<in> set (l # xs)"
    using chain_last [OF left] last_in_set [of "l # xs"] by simp
  have p: "p \<in> set (l # xs @ ys)" using assms(3) by (cases ys) auto
  have qx: "node_previous (m p) \<noteq> x" and px: "p \<noteq> x" using q p assms(6) by auto
  note links = insert_links [of m p x, OF qx px]
  have "chain (snd (enet_list_insert p x m)) k zs k = chain m k zs k"
    using q p assms(4,5) by (intro chain_cong) (auto simp: links)
  then show ?thesis using assms(1) by (simp add: dlist_def)
qed

lemma dlist_remove_frame:
  assumes "dlist m k zs" and "dlist m l (xs @ x # ys)"
    and "set (k # zs) \<inter> set (l # xs @ x # ys) = {}"
  shows "dlist (snd (enet_list_remove x m)) k zs"
proof -
  have left: "chain m l xs x" and right: "chain m x ys l" and dist: "distinct (l # xs @ x # ys)"
    using assms(2) by (auto simp: dlist_def chain_append)
  have q: "node_previous (m x) \<in> set (l # xs)"
    using chain_last [OF left] last_in_set [of "l # xs"] by simp
  have p: "node_next (m x) \<in> set (ys @ [l])"
    using chain_first [OF right] hd_in_set [of "ys @ [l]"] by simp
  have "node_previous (m x) \<noteq> x" using q dist by auto
  then have "chain (snd (enet_list_remove x m)) k zs k = chain m k zs k"
    using q p assms(3) by (intro chain_cong) (auto simp: remove_links)
  then show ?thesis using assms(1) by (simp add: dlist_def)
qed


subsection \<open>Traversal\<close>

lemma list_size_loop_chain:
  "chain m a xs l \<Longrightarrow> l \<notin> set xs \<Longrightarrow> list_size_loop m l (node_next (m a)) n = Some (n + length xs)"
proof (induction xs arbitrary: a n)
  case Nil
  then show ?case by (simp add: list_size_loop.simps enet_list_end_def)
next
  case (Cons x xs)
  then have "list_size_loop m l (node_next (m x)) (Suc n) = Some (Suc n + length xs)" by simp
  with Cons.prems show ?case
    by (simp add: list_size_loop.simps [of m l x] enet_list_end_def enet_list_next_def)
qed

text \<open>
  The loops of peer.c that empty a list (\<open>while (! enet_list_empty (l)) ... enet_list_remove
  (enet_list_begin (l))\<close>), as a loop that collects the removed nodes.
\<close>

partial_function (option) list_drain :: "node_store \<Rightarrow> addr \<Rightarrow> addr list \<Rightarrow> (addr list \<times> node_store) option" where
  "list_drain m l removed =
     (if enet_list_empty m l then Some (removed, m)
      else (let r = enet_list_remove (enet_list_begin m l) m
            in list_drain (snd r) l (removed @ [fst r])))"

subsection \<open>The queue interface\<close>

text \<open>
  What peer.c and protocol.c rely on: append at the end, take from the front, test for
  emptiness, each with its law over the sequence the queue holds.
\<close>

locale node_queue =
  fixes holds :: "'m \<Rightarrow> addr \<Rightarrow> addr list \<Rightarrow> bool"
    and push :: "addr \<Rightarrow> addr \<Rightarrow> 'm \<Rightarrow> 'm"
    and pop :: "addr \<Rightarrow> 'm \<Rightarrow> addr \<times> 'm"
    and is_empty :: "'m \<Rightarrow> addr \<Rightarrow> bool"
  assumes holds_push: "holds m l xs \<Longrightarrow> x \<notin> set (l # xs) \<Longrightarrow> holds (push l x m) l (xs @ [x])"
    and holds_pop: "holds m l (x # xs) \<Longrightarrow> fst (pop l m) = x \<and> holds (snd (pop l m)) l xs"
    and holds_empty: "holds m l xs \<Longrightarrow> is_empty m l \<longleftrightarrow> xs = []"
begin

lemma push_all:
  "holds m l ys \<Longrightarrow> distinct (l # ys @ xs) \<Longrightarrow> holds (foldl (\<lambda>m x. push l x m) m xs) l (ys @ xs)"
proof (induction xs arbitrary: m ys)
  case Nil
  then show ?case by simp
next
  case (Cons x xs)
  then have "holds (push l x m) l (ys @ [x])" by (intro holds_push) auto
  then have "holds (foldl (\<lambda>m x. push l x m) (push l x m) xs) l ((ys @ [x]) @ xs)"
    using Cons.prems by (intro Cons.IH) auto
  then show ?case by simp
qed

lemma pop_not_empty: "holds m l (x # xs) \<Longrightarrow> \<not> is_empty m l"
  by (simp add: holds_empty)

lemma push_then_pop:
  assumes "holds m l (y # ys)" and "x \<notin> set (l # y # ys)"
  shows "fst (pop l (push l x m)) = y" and "holds (snd (pop l (push l x m))) l (ys @ [x])"
  using holds_pop [of "push l x m" l y "ys @ [x]"] holds_push [OF assms] by simp_all

end

interpretation nodeq: node_queue dlist
  "\<lambda>l x m. snd (enet_list_insert (enet_list_end l) x m)"
  "\<lambda>l m. enet_list_remove (enet_list_begin m l) m"
  enet_list_empty
proof unfold_locales
  fix m l xs x
  assume "dlist m l xs" and "x \<notin> set (l # xs)"
  then show "dlist (snd (enet_list_insert (enet_list_end l) x m)) l (xs @ [x])"
    using dlist_insert_at [of m l xs "[]" x l] by (simp add: enet_list_end_def)
next
  fix m l x xs
  assume d: "dlist m l (x # xs)"
  then show "fst (enet_list_remove (enet_list_begin m l) m) = x \<and>
      dlist (snd (enet_list_remove (enet_list_begin m l) m)) l xs"
    using dlist_remove_at [of m l "[]" x xs] by (simp add: dlist_begin)
qed (rule dlist_empty)

lemma list_drain_dlist:
  "dlist m l xs \<Longrightarrow> \<exists>m'. list_drain m l rs = Some (rs @ xs, m') \<and> dlist m' l []"
proof (induction xs arbitrary: m rs)
  case Nil
  then show ?case by (simp add: list_drain.simps nodeq.holds_empty)
next
  case (Cons x xs)
  note pop = nodeq.holds_pop [OF Cons.prems]
  obtain m' where "list_drain (snd (enet_list_remove (enet_list_begin m l) m)) l (rs @ [x]) =
      Some ((rs @ [x]) @ xs, m') \<and> dlist m' l []"
    using Cons.IH pop by blast
  then show ?case
    using pop nodeq.pop_not_empty [OF Cons.prems]
    by (simp add: list_drain.simps [of m l rs] Let_def)
qed

subsection \<open>Properties\<close>

text \<open>
  C33. \<open>enet_list_insert\<close> before any position of a well-formed list (the end included) yields the
  well-formed list with the new node at that place, returns the node, and leaves every list
  whose nodes are other nodes exactly as it was.
\<close>

theorem enet_list_insert_refines:
  assumes "dlist m l (xs @ ys)" and "x \<notin> set (l # xs @ ys)" and "p = hd (ys @ [l])"
  shows "fst (enet_list_insert p x m) = x \<and> dlist (snd (enet_list_insert p x m)) l (xs @ x # ys) \<and>
    (\<forall>k zs. dlist m k zs \<and> set (k # zs) \<inter> set (l # x # xs @ ys) = {} \<longrightarrow>
       dlist (snd (enet_list_insert p x m)) k zs)"
  using dlist_insert_at [OF assms] dlist_insert_frame [OF _ assms(1,3)] assms(2) by auto

definition example_store :: node_store where
  "example_store = snd (enet_list_insert 10 2 (snd (enet_list_insert 10 1 (enet_list_clear 20
     (enet_list_clear 10 (\<lambda>_. \<lparr>node_next = 0, node_previous = 0\<rparr>))))))"

lemma example_store_lists: "dlist example_store 10 [1, 2]" "dlist example_store 20 []"
  by (simp_all add: dlist_def example_store_def enet_list_insert_def enet_list_clear_def Let_def)

theorem enet_list_insert_refines_witness:
  "dlist (snd (enet_list_insert 2 3 example_store)) 10 [1, 3, 2] \<and>
   dlist (snd (enet_list_insert 2 3 example_store)) 20 []"
  using enet_list_insert_refines [of example_store 10 "[1]" "[2]" 3 2] example_store_lists by simp

text \<open>
  Moving a node between lists (\<open>enet_list_insert (enet_list_end (b), enet_list_remove (x))\<close>, how
  protocol.c turns an outgoing command into a sent one) takes exactly that node out of the first
  list, keeps the order of the others, and appends it to the second.
\<close>

theorem enet_list_move:
  assumes "dlist m a (xs @ x # ys)" and "dlist m b zs"
    and "set (a # xs @ x # ys) \<inter> set (b # zs) = {}"
  shows "case enet_list_remove x m of (n, m1) \<Rightarrow>
    (case enet_list_insert (enet_list_end b) n m1 of (_, m2) \<Rightarrow>
       dlist m2 a (xs @ ys) \<and> dlist m2 b (zs @ [x]))"
proof -
  let ?m1 = "snd (enet_list_remove x m)"
  have a1: "dlist ?m1 a (xs @ ys)" by (rule dlist_remove_at [OF assms(1)])
  have b1: "dlist ?m1 b zs" using assms by (intro dlist_remove_frame [OF assms(2,1)]) auto
  have dist: "distinct (a # xs @ x # ys)" using assms(1) by (simp add: dlist_def)
  have "dlist (snd (enet_list_insert b x ?m1)) b (zs @ [x])"
    using nodeq.holds_push [OF b1, of x] assms(3) by (auto simp: enet_list_end_def)
  moreover have "dlist (snd (enet_list_insert b x ?m1)) a (xs @ ys)"
    using assms(3) dist b1 by (intro dlist_insert_frame [OF a1, of b zs "[]"]) auto
  ultimately show ?thesis
    by (simp add: case_prod_beta enet_list_end_def)
qed

theorem enet_list_move_witness:
  "case enet_list_remove 1 example_store of (n, m1) \<Rightarrow>
     (case enet_list_insert (enet_list_end 20) n m1 of (_, m2) \<Rightarrow>
        dlist m2 10 [2] \<and> dlist m2 20 [1])"
  using enet_list_move [of example_store 10 "[]" 1 "[2]" 20 "[]"] example_store_lists by simp

text \<open>
  On a well-formed list \<open>enet_list_size\<close> terminates with the number of nodes, and the loop that
  removes the first node until the list is empty terminates, removes every node once, in order,
  and leaves an empty list.
\<close>

theorem enet_list_loops_terminate:
  assumes "dlist m l xs"
  shows "enet_list_size m l = Some (length xs) \<and>
    (\<exists>m'. list_drain m l [] = Some (xs, m') \<and> dlist m' l [])"
proof -
  have "chain m l xs l" "l \<notin> set xs" using assms by (auto simp: dlist_def)
  then show ?thesis
    using list_drain_dlist [OF assms, of "[]"]
    by (simp add: enet_list_size_def enet_list_begin_def list_size_loop_chain)
qed

theorem enet_list_loops_terminate_witness:
  "enet_list_size example_store 10 = Some 2 \<and>
   (\<exists>m'. list_drain example_store 10 [] = Some ([1, 2], m') \<and> dlist m' 10 [])"
  using enet_list_loops_terminate [OF example_store_lists(1)] by simp

end
