(* ===== verification/Crc32.thy ===== *)
theory Crc32
  imports Prelude
begin

text \<open>
  The checksum of \<open>dll_src/reliableudp/src/packet.c\<close> (\<open>initialize_crc32\<close>, \<open>enet_crc32\<close>) and
  the byte-order macros of \<open>include/enet/unix.h\<close> on the little-endian machines the Makefiles
  build for. The table-driven loop is shown equal to the bit-serial division by the polynomial
  \<open>0x04c11db7\<close>, and the checksum to separate any two messages that differ in one window of
  at most four bytes.
\<close>

subsection \<open>Byte order\<close>

definition ENET_HOST_TO_NET_16 :: "u16 \<Rightarrow> u16" where
  "ENET_HOST_TO_NET_16 v = push_bit 8 v OR drop_bit 8 v"

definition ENET_NET_TO_HOST_16 :: "u16 \<Rightarrow> u16" where
  "ENET_NET_TO_HOST_16 v = push_bit 8 v OR drop_bit 8 v"

definition ENET_HOST_TO_NET_32 :: "u32 \<Rightarrow> u32" where
  "ENET_HOST_TO_NET_32 v =
     push_bit 24 v OR (push_bit 8 v AND 0x00FF0000) OR (drop_bit 8 v AND 0x0000FF00) OR drop_bit 24 v"

definition ENET_NET_TO_HOST_32 :: "u32 \<Rightarrow> u32" where
  "ENET_NET_TO_HOST_32 v =
     push_bit 24 v OR (push_bit 8 v AND 0x00FF0000) OR (drop_bit 8 v AND 0x0000FF00) OR drop_bit 24 v"

text \<open>The bits of the byte masks, as the simplifier meets them (on integers).\<close>

lemma mask_bytes:
  "bit (0x000000FF :: int) n \<longleftrightarrow> n < 8"
  "bit (0x0000FF00 :: int) n \<longleftrightarrow> 8 \<le> n \<and> n < 16"
  "bit (0x00FF0000 :: int) n \<longleftrightarrow> 16 \<le> n \<and> n < 24"
  "bit (0xFF000000 :: int) n \<longleftrightarrow> 24 \<le> n \<and> n < 32"
  "bit (0xFF00000000 :: int) n \<longleftrightarrow> 32 \<le> n \<and> n < 40"
proof -
  have "(0x000000FF :: int) = mask 8" "(0x0000FF00 :: int) = push_bit 8 (mask 8)"
    "(0x00FF0000 :: int) = push_bit 16 (mask 8)" "(0xFF000000 :: int) = push_bit 24 (mask 8)"
    "(0xFF00000000 :: int) = push_bit 32 (mask 8)"
    by (simp_all add: mask_eq_exp_minus_1 push_bit_eq_mult)
  note eqs = this
  show "bit (0x000000FF :: int) n \<longleftrightarrow> n < 8" "bit (0x0000FF00 :: int) n \<longleftrightarrow> 8 \<le> n \<and> n < 16"
    "bit (0x00FF0000 :: int) n \<longleftrightarrow> 16 \<le> n \<and> n < 24" "bit (0xFF000000 :: int) n \<longleftrightarrow> 24 \<le> n \<and> n < 32"
    "bit (0xFF00000000 :: int) n \<longleftrightarrow> 32 \<le> n \<and> n < 40"
    unfolding eqs by (auto simp: bit_simps)
qed

lemma top_bit_int: "bit (0x80000000 :: int) n \<longleftrightarrow> n = 31"
proof -
  have "(0x80000000 :: int) = 2 ^ 31" by simp
  then show ?thesis by (metis bit_exp_iff possible_bit_int)
qed

lemma ntoh16_hton16 [simp]: "ENET_NET_TO_HOST_16 (ENET_HOST_TO_NET_16 v) = v"
  by (rule bit_word_eqI) (auto simp: ENET_NET_TO_HOST_16_def ENET_HOST_TO_NET_16_def bit_simps)

lemma hton16_ntoh16 [simp]: "ENET_HOST_TO_NET_16 (ENET_NET_TO_HOST_16 v) = v"
  by (rule bit_word_eqI) (auto simp: ENET_NET_TO_HOST_16_def ENET_HOST_TO_NET_16_def bit_simps)

lemma ntoh32_hton32 [simp]: "ENET_NET_TO_HOST_32 (ENET_HOST_TO_NET_32 v) = v"
proof (rule bit_word_eqI)
  fix n :: nat
  assume "n < LENGTH(32)"
  then consider "n < 8" | "8 \<le> n \<and> n < 16" | "16 \<le> n \<and> n < 24" | "24 \<le> n \<and> n < 32"
    by fastforce
  then show "bit (ENET_NET_TO_HOST_32 (ENET_HOST_TO_NET_32 v)) n = bit v n"
    by cases (auto simp: ENET_NET_TO_HOST_32_def ENET_HOST_TO_NET_32_def bit_simps mask_bytes dest: bit_imp_le_length)
qed

lemma hton32_ntoh32 [simp]: "ENET_HOST_TO_NET_32 (ENET_NET_TO_HOST_32 v) = v"
  using ntoh32_hton32 by (simp add: ENET_HOST_TO_NET_32_def ENET_NET_TO_HOST_32_def)

subsection \<open>The table and the checksum\<close>

definition crc_bit_step :: "u32 \<Rightarrow> u32" where
  "crc_bit_step crc =
     (if crc AND 0x80000000 \<noteq> 0 then push_bit 1 crc XOR 0x04c11db7 else push_bit 1 crc)"

text \<open>The inner loop of \<open>initialize_crc32\<close> for one byte, and the table it fills.\<close>

definition crc_table_entry :: "nat \<Rightarrow> u32" where
  "crc_table_entry byte = (crc_bit_step ^^ 8) (push_bit 24 (of_nat byte))"

definition crc_table :: "u32 list" where
  "crc_table = map crc_table_entry [0..<256]"

text \<open>The two static variables of packet.c.\<close>

record crc_statics =
  initializedCRC32 :: bool
  crcTable :: "u32 list"

definition initialize_crc32 :: "crc_statics \<Rightarrow> crc_statics" where
  "initialize_crc32 s = s\<lparr>crcTable := crc_table, initializedCRC32 := True\<rparr>"

definition crc_byte :: "u32 list \<Rightarrow> u32 \<Rightarrow> u8 \<Rightarrow> u32" where
  "crc_byte table crc d = (push_bit 8 crc OR ucast d) XOR table ! unat (drop_bit 24 crc)"

definition crc_buffers :: "u32 list \<Rightarrow> u32 \<Rightarrow> bytes list \<Rightarrow> u32" where
  "crc_buffers table crc buffers = foldl (foldl (crc_byte table)) crc buffers"

definition enet_crc32_st :: "bytes list \<Rightarrow> crc_statics \<Rightarrow> u32 \<times> crc_statics" where
  "enet_crc32_st buffers s =
     (let s1 = (if initializedCRC32 s then s else initialize_crc32 s);
          crc = crc_buffers (crcTable s1) 0xFFFFFFFF buffers
      in (ENET_HOST_TO_NET_32 (NOT crc), s1))"

text \<open>
  The value every call returns once the statics are consistent (\<open>enet_crc32_consistent\<close>); the
  protocol theories use this form.
\<close>

definition enet_crc32 :: "bytes list \<Rightarrow> u32" where
  "enet_crc32 buffers = ENET_HOST_TO_NET_32 (NOT (crc_buffers crc_table 0xFFFFFFFF buffers))"

definition crc_consistent :: "crc_statics \<Rightarrow> bool" where
  "crc_consistent s \<longleftrightarrow> (initializedCRC32 s \<longrightarrow> crcTable s = crc_table)"

lemma enet_crc32_consistent:
  "crc_consistent s \<Longrightarrow>
     fst (enet_crc32_st buffers s) = enet_crc32 buffers \<and> crc_consistent (snd (enet_crc32_st buffers s))"
  by (auto simp: enet_crc32_st_def enet_crc32_def crc_consistent_def initialize_crc32_def Let_def)

subsection \<open>Linearity of the division step\<close>

lemma top_bit: "(x :: u32) AND 0x80000000 \<noteq> 0 \<longleftrightarrow> bit x 31"
proof
  assume nz: "x AND 0x80000000 \<noteq> 0"
  show "bit x 31"
  proof (rule ccontr)
    assume "\<not> bit x 31"
    then have "x AND 0x80000000 = 0"
      by (intro bit_word_eqI) (auto simp: bit_simps top_bit_int)
    with nz show False by simp
  qed
next
  assume "bit x 31"
  then have "bit (x AND 0x80000000) 31" by (simp add: bit_simps top_bit_int)
  then show "x AND 0x80000000 \<noteq> 0" by auto
qed

lemma crc_bit_step_alt: "crc_bit_step x = push_bit 1 x XOR (if bit x 31 then 0x04c11db7 else 0)"
  using top_bit [of x] by (simp add: crc_bit_step_def)

lemma crc_bit_step_xor: "crc_bit_step (x XOR y) = crc_bit_step x XOR crc_bit_step y"
  by (simp add: crc_bit_step_alt push_bit_xor bit_xor_iff xor.assoc xor.commute xor.left_commute)

lemma crc_bit_steps_xor:
  "(crc_bit_step ^^ n) (x XOR y) = (crc_bit_step ^^ n) x XOR (crc_bit_step ^^ n) y"
  by (induction n) (simp_all add: crc_bit_step_xor)

lemma crc_bit_step_0 [simp]: "crc_bit_step 0 = 0"
  by (simp add: crc_bit_step_alt)

lemma crc_bit_steps_0 [simp]: "(crc_bit_step ^^ n) 0 = 0"
  by (induction n) simp_all

text \<open>While the top bits are clear, the division only shifts.\<close>

lemma crc_bit_steps_shift:
  "(\<And>i. 32 \<le> i + n \<Longrightarrow> i < 32 \<Longrightarrow> \<not> bit x i) \<Longrightarrow> (crc_bit_step ^^ n) x = push_bit n x"
proof (induction n)
  case 0
  then show ?case by simp
next
  case (Suc n)
  then have IH: "(crc_bit_step ^^ n) x = push_bit n x" by simp
  have "\<not> bit (push_bit n x) 31"
    using Suc.prems [of "31 - n"] by (auto simp: bit_simps)
  then have "crc_bit_step (push_bit n x) = push_bit 1 (push_bit n x)"
    by (simp add: crc_bit_step_alt del: One_nat_def)
  also have "push_bit 1 (push_bit n x) = push_bit (Suc n) x"
    by (simp only: push_bit_push_bit plus_1_eq_Suc)
  finally show ?case using IH by (simp only: funpow.simps o_apply)
qed

lemma crc_bit_step_kernel: "crc_bit_step x = 0 \<Longrightarrow> x = 0"
proof -
  assume z: "crc_bit_step x = 0"
  have "\<not> bit x 31"
  proof
    assume b: "bit x 31"
    have "bit (crc_bit_step x) 0"
      using b by (simp add: crc_bit_step_alt bit_xor_iff bit_push_bit_iff del: One_nat_def)
    with z show False by simp
  qed
  moreover from this z have "push_bit 1 x = 0" by (simp add: crc_bit_step_alt del: One_nat_def)
  ultimately show "x = 0"
  proof (intro bit_word_eqI)
    fix n :: nat
    assume p: "push_bit 1 x = 0" and t: "\<not> bit x 31" and n: "n < LENGTH(32)"
    have "bit (push_bit 1 x) (Suc n) = bit (0 :: u32) (Suc n)" using p by simp
    then show "bit x n = bit (0 :: u32) n"
      using t n by (cases "n = 31") (simp_all add: bit_push_bit_iff del: One_nat_def push_bit_Suc)
  qed
qed

lemma crc_bit_steps_inj: "(crc_bit_step ^^ n) x = (crc_bit_step ^^ n) y \<Longrightarrow> x = y"
proof -
  have kernel: "(crc_bit_step ^^ n) z = 0 \<Longrightarrow> z = 0" for z
    by (induction n) (auto dest: crc_bit_step_kernel)
  assume "(crc_bit_step ^^ n) x = (crc_bit_step ^^ n) y"
  then have "(crc_bit_step ^^ n) (x XOR y) = 0" by (simp add: crc_bit_steps_xor)
  then have "x XOR y = 0" by (rule kernel)
  then show "x = y" by simp
qed


subsection \<open>The table step is eight division steps\<close>

lemma crc_table_length [simp]: "length crc_table = 256"
  by (simp add: crc_table_def)

lemma crc_table_nth: "n < 256 \<Longrightarrow> crc_table ! n = (crc_bit_step ^^ 8) (push_bit 24 (of_nat n))"
  by (simp add: crc_table_def crc_table_entry_def)

lemma top_byte_lt: "unat (drop_bit 24 (c :: u32)) < 256"
proof -
  have "unat (drop_bit 24 c) = unat c div 2 ^ 24"
    by (simp only: unat_drop_bit_eq) (simp only: drop_bit_eq_div)
  then show ?thesis using unsigned_less [of c, where ?'a = nat] by simp
qed

lemma crc_table_top: "crc_table ! unat (drop_bit 24 c) = (crc_bit_step ^^ 8) (push_bit 24 (drop_bit 24 c))"
  using crc_table_nth [OF top_byte_lt [of c]] by simp

lemma crc_split: "(c :: u32) = push_bit 24 (drop_bit 24 c) XOR take_bit 24 c"
  by (rule bit_word_eqI) (auto simp: bit_simps)

lemma crc_low_steps: "(crc_bit_step ^^ 8) (take_bit 24 c) = push_bit 8 (take_bit 24 (c :: u32))"
  by (rule crc_bit_steps_shift) (auto simp: bit_simps)

lemma crc_byte_steps: "crc_byte crc_table c d = (crc_bit_step ^^ 8) c XOR ucast d"
proof -
  have "(crc_bit_step ^^ 8) c =
      (crc_bit_step ^^ 8) (push_bit 24 (drop_bit 24 c)) XOR (crc_bit_step ^^ 8) (take_bit 24 c)"
    by (subst crc_split [of c]) (rule crc_bit_steps_xor)
  also have "\<dots> = crc_table ! unat (drop_bit 24 c) XOR push_bit 8 (take_bit 24 c)"
    by (simp only: crc_table_top crc_low_steps)
  finally have steps: "(crc_bit_step ^^ 8) c =
      crc_table ! unat (drop_bit 24 c) XOR push_bit 8 (take_bit 24 c)" .
  have "push_bit 8 c OR ucast d = push_bit 8 (take_bit 24 c) XOR (ucast d :: u32)"
    by (rule bit_word_eqI) (auto simp: bit_simps dest: bit_imp_le_length)
  then show ?thesis
    by (simp add: crc_byte_def steps xor.assoc xor.commute xor.left_commute)
qed

subsection \<open>The bit-serial reference\<close>

text \<open>One bit of the message enters the register at the bottom.\<close>

definition crc_feed_bit :: "u32 \<Rightarrow> bool \<Rightarrow> u32" where
  "crc_feed_bit crc b =
     (if bit crc 31 then (push_bit 1 crc OR of_bool b) XOR 0x04c11db7 else push_bit 1 crc OR of_bool b)"

definition byte_bits :: "u8 \<Rightarrow> bool list" where
  "byte_bits d = map (bit d) [7, 6, 5, 4, 3, 2, 1, 0]"

definition crc_bitwise :: "bytes \<Rightarrow> u32" where
  "crc_bitwise msg = foldl crc_feed_bit 0xFFFFFFFF (concat (map byte_bits msg))"

lemma crc_feed_bit_step: "crc_feed_bit crc b = crc_bit_step crc XOR of_bool b"
proof -
  have "push_bit 1 crc OR of_bool b = push_bit 1 crc XOR (of_bool b :: u32)"
    by (rule bit_word_eqI) (auto simp: bit_or_iff bit_xor_iff bit_push_bit_iff bit_of_bool_iff
        simp del: One_nat_def push_bit_Suc)
  then show ?thesis
    by (simp add: crc_feed_bit_def crc_bit_step_alt xor.assoc xor.commute xor.left_commute
        del: One_nat_def push_bit_Suc)
qed

lemma crc_feed_bits:
  "foldl crc_feed_bit crc bs = (crc_bit_step ^^ length bs) crc XOR foldl crc_feed_bit 0 bs"
proof (induction bs rule: rev_induct)
  case Nil
  then show ?case by simp
next
  case (snoc b bs)
  then show ?case
    by (simp add: crc_feed_bit_step crc_bit_step_xor xor.assoc)
qed

lemma bit_crc_feed_bits_0:
  "length bs \<le> 32 \<Longrightarrow> bit (foldl crc_feed_bit 0 bs) i \<longleftrightarrow> i < length bs \<and> rev bs ! i"
proof (induction bs arbitrary: i rule: rev_induct)
  case Nil
  then show ?case by simp
next
  case (snoc b bs)
  then have "\<not> bit (foldl crc_feed_bit 0 bs) 31" by simp
  then have "foldl crc_feed_bit 0 (bs @ [b]) = push_bit 1 (foldl crc_feed_bit 0 bs) OR of_bool b"
    by (simp add: crc_feed_bit_def del: One_nat_def push_bit_Suc)
  then have feed: "bit (foldl crc_feed_bit 0 (bs @ [b])) i \<longleftrightarrow>
      (0 < i \<and> i < 32 \<and> bit (foldl crc_feed_bit 0 bs) (i - 1)) \<or> i = 0 \<and> b"
    by (simp add: bit_or_iff bit_push_bit_iff bit_of_bool_iff Suc_le_eq del: push_bit_Suc)
  show ?case
  proof (cases i)
    case 0
    then show ?thesis using feed by simp
  next
    case (Suc k)
    have "bit (foldl crc_feed_bit 0 bs) k \<longleftrightarrow> k < length bs \<and> rev bs ! k"
      using snoc by simp
    then show ?thesis using feed Suc snoc.prems by auto
  qed
qed

lemma length_byte_bits [simp]: "length (byte_bits d) = 8"
  by (simp add: byte_bits_def)

lemma rev_byte_bits: "n < 8 \<Longrightarrow> rev (byte_bits d) ! n = bit d n"
  by (auto simp: byte_bits_def less_Suc_eq numeral_eq_Suc)

lemma crc_feed_byte_0: "foldl crc_feed_bit 0 (byte_bits d) = ucast d"
proof (rule bit_word_eqI)
  fix n :: nat
  have "bit (foldl crc_feed_bit 0 (byte_bits d)) n \<longleftrightarrow> n < 8 \<and> rev (byte_bits d) ! n"
    by (subst bit_crc_feed_bits_0) simp_all
  also have "\<dots> \<longleftrightarrow> bit (ucast d :: u32) n"
    using rev_byte_bits [of n d] bit_imp_le_length [of d n] by (auto simp: bit_ucast_iff)
  finally show "bit (foldl crc_feed_bit 0 (byte_bits d)) n = bit (ucast d :: u32) n" .
qed

lemma crc_feed_byte: "foldl crc_feed_bit crc (byte_bits d) = crc_byte crc_table crc d"
  by (subst crc_feed_bits) (simp only: length_byte_bits crc_feed_byte_0 crc_byte_steps)

lemma crc_buffers_bitwise:
  "crc_buffers crc_table crc buffers = foldl crc_feed_bit crc (concat (map byte_bits (concat buffers)))"
proof -
  have one: "foldl (crc_byte crc_table) crc msg = foldl crc_feed_bit crc (concat (map byte_bits msg))"
    for crc msg
    by (induction msg arbitrary: crc) (simp_all add: crc_feed_byte)
  show ?thesis
    unfolding crc_buffers_def by (induction buffers arbitrary: crc) (simp_all add: one)
qed

lemma crc_buffers_concat: "crc_buffers t crc buffers = foldl (crc_byte t) crc (concat buffers)"
  unfolding crc_buffers_def by (induction buffers arbitrary: crc) simp_all

subsection \<open>Error detection\<close>

lemma crc_byte_xor:
  "crc_byte crc_table a x XOR crc_byte crc_table b y = crc_byte crc_table (a XOR b) (x XOR y)"
  by (simp add: crc_byte_steps crc_bit_steps_xor unsigned_xor_eq xor.assoc xor.commute xor.left_commute)

lemma crc_fold_xor:
  "length xs = length ys \<Longrightarrow>
     foldl (crc_byte crc_table) a xs XOR foldl (crc_byte crc_table) b ys =
     foldl (crc_byte crc_table) (a XOR b) (map2 (XOR) xs ys)"
proof (induction xs ys arbitrary: a b rule: list_induct2)
  case Nil
  then show ?case by simp
next
  case (Cons x xs y ys)
  then show ?case by (simp add: crc_byte_xor)
qed

lemma crc_fold_inj:
  "foldl (crc_byte crc_table) a xs = foldl (crc_byte crc_table) b xs \<Longrightarrow> a = b"
proof (induction xs arbitrary: a b)
  case Nil
  then show ?case by simp
next
  case (Cons x xs)
  then have "crc_byte crc_table a x = crc_byte crc_table b x" by simp
  then have "(crc_bit_step ^^ 8) a XOR ucast x = (crc_bit_step ^^ 8) b XOR ucast x"
    by (simp only: crc_byte_steps)
  then have "(crc_bit_step ^^ 8) a = (crc_bit_step ^^ 8) b"
    by simp
  then show ?case by (rule crc_bit_steps_inj)
qed

text \<open>Up to four bytes fill the register without being divided: none of them is lost.\<close>

lemma crc_window:
  assumes "length ds \<le> 4" and "\<And>i. bit c i \<Longrightarrow> i + 8 * length ds < 32"
    and "c \<noteq> 0 \<or> (\<exists>d \<in> set ds. d \<noteq> 0)"
  shows "foldl (crc_byte crc_table) c ds \<noteq> 0"
  using assms
proof (induction ds arbitrary: c)
  case Nil
  then show ?case by simp
next
  case (Cons d ds)
  have small: "i + 8 * length ds < 24" if "bit c i" for i using Cons.prems(2) [OF that] by simp
  have "(crc_bit_step ^^ 8) c = push_bit 8 c"
  proof (rule crc_bit_steps_shift)
    fix i :: nat
    assume "32 \<le> i + 8"
    then show "\<not> bit c i" using small [of i] by linarith
  qed
  then have c': "crc_byte crc_table c d = push_bit 8 c XOR ucast d" by (simp only: crc_byte_steps)
  have b: "bit (crc_byte crc_table c d) i \<longleftrightarrow> (8 \<le> i \<and> i < 32 \<and> bit c (i - 8)) \<or> bit d i" for i
    using bit_imp_le_length [of d i]
    unfolding c' by (auto simp: bit_xor_iff bit_push_bit_iff bit_ucast_iff)
  have "crc_byte crc_table c d \<noteq> 0" if "c \<noteq> 0 \<or> d \<noteq> 0"
  proof -
    from that obtain i where "bit c i \<or> bit d i" by (auto simp: bit_eq_iff)
    then have "bit (crc_byte crc_table c d) (i + 8) \<or> bit (crc_byte crc_table c d) i"
      using small [of i] by (auto simp: b)
    then show ?thesis by auto
  qed
  then have "foldl (crc_byte crc_table) (crc_byte crc_table c d) ds \<noteq> 0"
  proof (intro Cons.IH)
    fix i
    assume "bit (crc_byte crc_table c d) i"
    then consider "8 \<le> i" "bit c (i - 8)" | "bit d i" by (auto simp: b)
    then show "i + 8 * length ds < 32"
    proof cases
      case 1
      then show ?thesis using small [of "i - 8"] by simp
    next
      case 2
      then show ?thesis using bit_imp_le_length [of d i] Cons.prems(1) by simp
    qed
  qed (use Cons.prems in auto)
  then show ?case by simp
qed

lemma hton32_inj: "ENET_HOST_TO_NET_32 a = ENET_HOST_TO_NET_32 b \<longleftrightarrow> a = b"
  by (metis ntoh32_hton32)

lemma map2_xor_zero:
  "length xs = length ys \<Longrightarrow> (\<forall>d \<in> set (map2 (XOR) xs ys). d = (0 :: u8)) \<Longrightarrow> xs = ys"
proof (induction xs ys rule: list_induct2)
  case Nil
  then show ?case by simp
next
  case (Cons x xs y ys)
  then show ?case by auto
qed

subsection \<open>Properties\<close>

text \<open>
  C15. The table-driven \<open>enet_crc32\<close>, run over any list of buffers and from any consistent state of
  its lazily built table, returns the bit-serial remainder of the concatenated message by the
  polynomial, complemented and byte-swapped, and leaves the statics consistent.
\<close>

theorem enet_crc32_is_polynomial_division:
  "fst (enet_crc32_st buffers \<lparr>initializedCRC32 = False, crcTable = t\<rparr>) =
     ENET_HOST_TO_NET_32 (NOT (crc_bitwise (concat buffers))) \<and>
   fst (enet_crc32_st buffers (snd (enet_crc32_st others \<lparr>initializedCRC32 = False, crcTable = t\<rparr>))) =
     ENET_HOST_TO_NET_32 (NOT (crc_bitwise (concat buffers)))"
  using enet_crc32_consistent
  by (simp add: crc_consistent_def enet_crc32_def crc_buffers_bitwise crc_bitwise_def)

text \<open>
  C31. Two messages of the same length that differ only inside one window of at most four
  consecutive bytes never have the same checksum, so every burst error of up to 32 bits within
  four bytes is detected.
\<close>

theorem enet_crc32_detects_bursts:
  assumes "length w1 = length w2" and "length w1 \<le> 4" and "w1 \<noteq> w2"
  shows "enet_crc32 [p @ w1 @ s] \<noteq> enet_crc32 [p @ w2 @ s]"
proof
  let ?f = "foldl (crc_byte crc_table)"
  let ?r = "?f 0xFFFFFFFF p"
  assume "enet_crc32 [p @ w1 @ s] = enet_crc32 [p @ w2 @ s]"
  then have "?f (?f ?r w1) s = ?f (?f ?r w2) s"
    by (simp add: enet_crc32_def hton32_inj crc_buffers_concat)
  then have "?f ?r w1 XOR ?f ?r w2 = 0" using crc_fold_inj by fastforce
  then have "?f 0 (map2 (XOR) w1 w2) = 0" by (simp add: crc_fold_xor assms(1))
  moreover have "\<exists>d \<in> set (map2 (XOR) w1 w2). d \<noteq> 0"
    using map2_xor_zero [OF assms(1)] assms(3) by blast
  ultimately show False
    using crc_window [of "map2 (XOR) w1 w2" 0] assms(1,2) by simp
qed

theorem enet_crc32_detects_bursts_witness:
  "enet_crc32 [[1, 2] @ [3, 4] @ [5]] \<noteq> enet_crc32 [[1, 2] @ [3, 6] @ [5]]"
  by (rule enet_crc32_detects_bursts) simp_all

end
