(* ===== verification/Packet.thy ===== *)
theory Packet
  imports Crc32 "HOL-Library.Multiset"
begin

text \<open>
  The packets of \<open>dll_src/reliableudp/src/packet.c\<close> in an explicit store. A packet is shared by
  the queued commands that carry it (one command per fragment, one per peer of a broadcast), and
  its \<open>referenceCount\<close> says how many they are. Reading, writing or destroying a packet that is not
  allocated is \<open>None\<close>. The locale \<open>counted_store\<close> is the contract between packet.c's clients and
  the store: with a reference count that agrees with the multiset of references, releasing a
  reference never touches freed memory, and frees the packet with the last one.
\<close>

subsection \<open>The packet store\<close>

definition ENET_PACKET_FLAG_RELIABLE :: u32 where "ENET_PACKET_FLAG_RELIABLE = 1"
definition ENET_PACKET_FLAG_UNSEQUENCED :: u32 where "ENET_PACKET_FLAG_UNSEQUENCED = 2"
definition ENET_PACKET_FLAG_NO_ALLOCATE :: u32 where "ENET_PACKET_FLAG_NO_ALLOCATE = 4"

lemmas packet_flag_defs = ENET_PACKET_FLAG_RELIABLE_def ENET_PACKET_FLAG_UNSEQUENCED_def
  ENET_PACKET_FLAG_NO_ALLOCATE_def

text \<open>
  \<open>pkt_data\<close> is the memory block the data pointer names, at its allocated length, which may be
  more than \<open>pkt_dataLength\<close>; \<open>pkt_freeCallback\<close> says whether the application installed one.
\<close>

record ENetPacket =
  referenceCount :: usize
  pkt_flags :: u32
  pkt_data :: bytes
  pkt_dataLength :: usize
  pkt_freeCallback :: bool

text \<open>
  Packet pointers are numbers, never reused. \<open>callback_log\<close> records the packets whose
  \<open>freeCallback\<close> ran, in order. \<open>junk\<close> is what freshly allocated memory holds.
\<close>

record packet_store =
  pheap :: "nat \<Rightarrow> ENetPacket option"
  pnext :: nat
  callback_log :: "nat list"
  junk :: u8

definition packet_alloc :: "ENetPacket \<Rightarrow> packet_store \<Rightarrow> nat \<times> packet_store" where
  "packet_alloc k ps = (pnext ps, ps\<lparr>pheap := (pheap ps)(pnext ps \<mapsto> k), pnext := Suc (pnext ps)\<rparr>)"

definition packet_update :: "nat \<Rightarrow> (ENetPacket \<Rightarrow> ENetPacket) \<Rightarrow> packet_store \<Rightarrow> packet_store option" where
  "packet_update p f ps =
     (case pheap ps p of None \<Rightarrow> None | Some k \<Rightarrow> Some (ps\<lparr>pheap := (pheap ps)(p \<mapsto> f k)\<rparr>))"

text \<open>
  \<open>enet_packet_create (data, dataLength, flags)\<close>; \<open>data\<close> is \<open>None\<close> for \<open>NULL\<close>. \<open>enet_malloc\<close> never
  returns \<open>NULL\<close> (it aborts the process), so the \<open>NULL\<close> branch after it cannot be taken. Copying
  more bytes than the caller's buffer has is \<open>None\<close>.
\<close>

definition enet_packet_create ::
  "bytes option \<Rightarrow> usize \<Rightarrow> u32 \<Rightarrow> packet_store \<Rightarrow> (nat \<times> packet_store) option" where
  "enet_packet_create dat len flags ps =
     (let mk = (\<lambda>d. \<lparr>referenceCount = 0, pkt_flags = flags, pkt_data = d, pkt_dataLength = len,
                     pkt_freeCallback = False\<rparr>)
      in if flags AND ENET_PACKET_FLAG_NO_ALLOCATE \<noteq> 0
         then Some (packet_alloc (mk (case dat of None \<Rightarrow> [] | Some d \<Rightarrow> d)) ps)
         else (case dat of
             None \<Rightarrow> Some (packet_alloc (mk (replicate (unat len) (junk ps))) ps)
           | Some d \<Rightarrow> (if length d < unat len then None
                        else Some (packet_alloc (mk (take (unat len) d)) ps))))"

definition enet_packet_destroy :: "nat \<Rightarrow> packet_store \<Rightarrow> packet_store option" where
  "enet_packet_destroy p ps =
     (case pheap ps p of
        None \<Rightarrow> None
      | Some k \<Rightarrow> Some (ps\<lparr>pheap := (pheap ps)(p := None),
            callback_log := callback_log ps @ (if pkt_freeCallback k then [p] else [])\<rparr>))"

definition enet_packet_resize :: "nat \<Rightarrow> usize \<Rightarrow> packet_store \<Rightarrow> (int \<times> packet_store) option" where
  "enet_packet_resize p len ps =
     (case pheap ps p of
        None \<Rightarrow> None
      | Some k \<Rightarrow>
          if len \<le> pkt_dataLength k \<or> pkt_flags k AND ENET_PACKET_FLAG_NO_ALLOCATE \<noteq> 0
          then Some (0, ps\<lparr>pheap := (pheap ps)(p \<mapsto> k\<lparr>pkt_dataLength := len\<rparr>)\<rparr>)
          else if length (pkt_data k) < unat (pkt_dataLength k) then None
          else Some (0, ps\<lparr>pheap := (pheap ps)(p \<mapsto>
                 k\<lparr>pkt_data := overwrite 0 (take (unat (pkt_dataLength k)) (pkt_data k))
                      (replicate (unat len) (junk ps)), pkt_dataLength := len\<rparr>)\<rparr>))"

subsection \<open>Reference counting\<close>

text \<open>
  The two patterns of peer.c and protocol.c: \<open>++ packet -> referenceCount\<close>, and
  \<open>-- packet -> referenceCount; if (packet -> referenceCount == 0) enet_packet_destroy (packet)\<close>.
\<close>

definition packet_retain :: "nat \<Rightarrow> packet_store \<Rightarrow> packet_store option" where
  "packet_retain p = packet_update p (\<lambda>k. k\<lparr>referenceCount := referenceCount k + 1\<rparr>)"

definition packet_drop :: "nat \<Rightarrow> packet_store \<Rightarrow> packet_store option" where
  "packet_drop p = packet_update p (\<lambda>k. k\<lparr>referenceCount := referenceCount k - 1\<rparr>)"

definition packet_release :: "nat \<Rightarrow> packet_store \<Rightarrow> packet_store option" where
  "packet_release p ps = do {
     ps1 \<leftarrow> packet_drop p ps;
     k \<leftarrow> pheap ps1 p;
     if referenceCount k = 0 then enet_packet_destroy p ps1 else Some ps1 }"

text \<open>\<open>counts_agree ps R\<close>: the references in use are exactly \<open>R\<close>.\<close>

definition counts_agree :: "packet_store \<Rightarrow> nat multiset \<Rightarrow> bool" where
  "counts_agree ps R \<longleftrightarrow>
     (\<forall>p \<in># R. pheap ps p \<noteq> None) \<and>
     (\<forall>p k. pheap ps p = Some k \<longrightarrow> unat (referenceCount k) = count R p) \<and>
     (\<forall>p k. pheap ps p = Some k \<longrightarrow> p < pnext ps) \<and> size R < 2 ^ 63"

lemma counts_agreeD:
  assumes "counts_agree ps R"
  shows "p \<in># R \<Longrightarrow> \<exists>k. pheap ps p = Some k \<and> unat (referenceCount k) = count R p"
    and "pheap ps p = Some k \<Longrightarrow> unat (referenceCount k) = count R p"
    and "pheap ps p = Some k \<Longrightarrow> p < pnext ps" and "size R < 2 ^ 63"
  using assms by (auto simp: counts_agree_def)

lemma counts_agree_fresh: "counts_agree ps R \<Longrightarrow> pheap ps (pnext ps) = None"
  using counts_agreeD(3) [of ps R "pnext ps"] by (cases "pheap ps (pnext ps)") auto

lemma counts_agree_fresh_notin: "counts_agree ps R \<Longrightarrow> count R (pnext ps) = 0"
  using counts_agreeD(1) [of ps R "pnext ps"] counts_agree_fresh [of ps R]
  by (auto simp: not_in_iff [symmetric])

lemma count_less_size: "count R p \<le> size (R :: nat multiset)"
  by (metis count_le_replicate_mset_subset_eq order_refl size_mset_mono size_replicate_mset)

lemma counts_agree_alloc:
  assumes "counts_agree ps R" and "referenceCount k = 0"
  shows "counts_agree (snd (packet_alloc k ps)) R"
  using assms counts_agree_fresh_notin [OF assms(1)]
  by (auto simp: counts_agree_def packet_alloc_def less_Suc_eq split: if_splits)

lemma counts_agree_create:
  "counts_agree ps R \<Longrightarrow> enet_packet_create dat len flags ps = Some (p, ps') \<Longrightarrow>
     counts_agree ps' R \<and> p = pnext ps \<and> pheap ps' p \<noteq> None \<and>
     (\<forall>q. q \<noteq> p \<longrightarrow> pheap ps' q = pheap ps q)"
proof -
  assume c: "counts_agree ps R" and e: "enet_packet_create dat len flags ps = Some (p, ps')"
  then have "\<exists>k. packet_alloc k ps = (p, ps') \<and> referenceCount k = 0"
    by (fastforce simp: enet_packet_create_def Let_def split: if_splits option.splits)
  then obtain k where "packet_alloc k ps = (p, ps')" "referenceCount k = 0" by blast
  then show ?thesis
    using counts_agree_alloc [OF c, of k] by (auto simp: packet_alloc_def)
qed

lemma packet_retain_agrees:
  assumes c: "counts_agree ps R" and p: "pheap ps p \<noteq> None" and sz: "size R + 1 < 2 ^ 63"
  shows "\<exists>ps'. packet_retain p ps = Some ps' \<and> counts_agree ps' (add_mset p R) \<and>
    (\<forall>q. pheap ps' q = None \<longleftrightarrow> pheap ps q = None)"
proof -
  obtain k where k: "pheap ps p = Some k" using p by auto
  have n: "unat (referenceCount k) = count R p" using counts_agreeD(2) [OF c k] .
  have "unat (referenceCount k) + unat (1 :: usize) < 2 ^ LENGTH(64)"
    using n count_less_size [of R p] sz by simp
  then have "unat (referenceCount k + 1) = Suc (count R p)"
    using n by (subst unat_add_lt) simp_all
  then show ?thesis
    using c k sz by (auto simp: packet_retain_def packet_update_def counts_agree_def)
qed

lemma packet_drop_agrees:
  assumes c: "counts_agree ps (add_mset p R)"
  shows "\<exists>ps'. packet_drop p ps = Some ps' \<and> counts_agree ps' R \<and>
    (\<forall>q. pheap ps' q = None \<longleftrightarrow> pheap ps q = None)"
proof -
  obtain k where k: "pheap ps p = Some k" and n: "unat (referenceCount k) = Suc (count R p)"
    using counts_agreeD(1) [OF c, of p] by auto
  then have "1 \<le> referenceCount k" by (simp add: word_le_nat_alt)
  then have "unat (referenceCount k - 1) = count R p" using n by (simp add: unat_sub_le)
  then show ?thesis
    using c k by (auto simp: packet_drop_def packet_update_def counts_agree_def)
qed

lemma packet_release_agrees:
  assumes c: "counts_agree ps (add_mset p R)"
  shows "\<exists>ps'. packet_release p ps = Some ps' \<and> counts_agree ps' R \<and>
    (\<forall>q. pheap ps' q = None \<longleftrightarrow> pheap ps q = None \<or> q = p \<and> p \<notin># R)"
proof -
  obtain ps1 where d: "packet_drop p ps = Some ps1" and c1: "counts_agree ps1 R"
    and dom: "\<And>q. pheap ps1 q = None \<longleftrightarrow> pheap ps q = None"
    using packet_drop_agrees [OF c] by blast
  have "pheap ps p \<noteq> None" using counts_agreeD(1) [OF c, of p] by auto
  then have "pheap ps1 p \<noteq> None" using dom [of p] by simp
  then obtain k where k: "pheap ps1 p = Some k" by blast
  have n: "unat (referenceCount k) = count R p" using counts_agreeD(2) [OF c1 k] .
  show ?thesis
  proof (cases "referenceCount k = 0")
    case True
    then have "p \<notin># R" using n by (simp add: not_in_iff)
    moreover from this have "counts_agree (ps1\<lparr>pheap := (pheap ps1)(p := None), callback_log := l\<rparr>) R" for l
      using c1 by (auto simp: counts_agree_def)
    ultimately show ?thesis
      using True d k dom by (auto simp: packet_release_def enet_packet_destroy_def)
  next
    case False
    then have "count R p \<noteq> 0" using n by (metis unat_eq_zero)
    then have "p \<in># R" by (simp add: not_in_iff)
    then show ?thesis using False d k c1 dom by (auto simp: packet_release_def)
  qed
qed

subsection \<open>The contract of the store\<close>

text \<open>Releasing a list of references one after the other, as the loops that empty a queue do.\<close>

primrec release_all :: "(nat \<Rightarrow> 's \<Rightarrow> 's option) \<Rightarrow> nat list \<Rightarrow> 's \<Rightarrow> 's option" where
  "release_all rel [] s = Some s"
| "release_all rel (p # ps) s = rel p s \<bind> release_all rel ps"

locale counted_store =
  fixes agrees :: "'s \<Rightarrow> nat multiset \<Rightarrow> bool"
    and live :: "'s \<Rightarrow> nat \<Rightarrow> bool"
    and retain :: "nat \<Rightarrow> 's \<Rightarrow> 's option"
    and release :: "nat \<Rightarrow> 's \<Rightarrow> 's option"
  assumes agrees_live: "agrees s R \<Longrightarrow> p \<in># R \<Longrightarrow> live s p"
    and agrees_retain: "agrees s R \<Longrightarrow> live s p \<Longrightarrow> size R + 1 < 2 ^ 63 \<Longrightarrow>
      \<exists>s'. retain p s = Some s' \<and> agrees s' (add_mset p R) \<and> (\<forall>q. live s' q \<longleftrightarrow> live s q)"
    and agrees_release: "agrees s (add_mset p R) \<Longrightarrow>
      \<exists>s'. release p s = Some s' \<and> agrees s' R \<and> (\<forall>q. live s' q \<longleftrightarrow> live s q \<and> (q = p \<longrightarrow> p \<in># R))"
begin

lemma agrees_release_all:
  "agrees s (mset ps + R) \<Longrightarrow> \<exists>s'. release_all release ps s = Some s' \<and> agrees s' R \<and>
     (\<forall>q. live s' q \<longleftrightarrow> live s q \<and> (q \<in> set ps \<longrightarrow> q \<in># R))"
proof (induction ps arbitrary: s)
  case Nil
  then show ?case by simp
next
  case (Cons p ps)
  then have "agrees s (add_mset p (mset ps + R))" by simp
  then obtain s1 where s1: "release p s = Some s1" "agrees s1 (mset ps + R)"
      "\<And>q. live s1 q \<longleftrightarrow> live s q \<and> (q = p \<longrightarrow> p \<in># mset ps + R)"
    using agrees_release by blast
  obtain s' where "release_all release ps s1 = Some s'" "agrees s' R"
      "\<And>q. live s' q \<longleftrightarrow> live s1 q \<and> (q \<in> set ps \<longrightarrow> q \<in># R)"
    using Cons.IH [OF s1(2)] by blast
  with s1 show ?case by auto
qed

text \<open>Taking a reference and dropping it again is safe and changes no packet's life.\<close>

lemma retain_release:
  assumes "agrees s R" and "live s p" and "p \<in># R" and "size R + 1 < 2 ^ 63"
  shows "\<exists>s' s''. retain p s = Some s' \<and> release p s' = Some s'' \<and> agrees s'' R \<and>
    (\<forall>q. live s'' q \<longleftrightarrow> live s q)"
proof -
  obtain s' where s': "retain p s = Some s'" "agrees s' (add_mset p R)" "\<And>q. live s' q \<longleftrightarrow> live s q"
    using agrees_retain [OF assms(1,2,4)] by blast
  then obtain s'' where "release p s' = Some s''" "agrees s'' R"
      "\<And>q. live s'' q \<longleftrightarrow> live s' q \<and> (q = p \<longrightarrow> p \<in># R)"
    using agrees_release by blast
  then show ?thesis using s' assms(3) by auto
qed

end

interpretation packets: counted_store counts_agree "\<lambda>ps p. pheap ps p \<noteq> None" packet_retain packet_release
proof unfold_locales
  fix s R p
  assume "counts_agree s R" and "p \<in># R"
  then show "pheap s p \<noteq> None" by (auto simp: counts_agree_def)
next
  fix s R p
  assume "counts_agree s R" and "pheap s p \<noteq> None" and "size R + 1 < 2 ^ 63"
  then show "\<exists>s'. packet_retain p s = Some s' \<and> counts_agree s' (add_mset p R) \<and>
      (\<forall>q. (pheap s' q \<noteq> None) = (pheap s q \<noteq> None))"
    using packet_retain_agrees by meson
next
  fix s p R
  assume "counts_agree s (add_mset p R)"
  then obtain s' where s': "packet_release p s = Some s'" "counts_agree s' R"
      "\<forall>q. pheap s' q = None \<longleftrightarrow> pheap s q = None \<or> q = p \<and> p \<notin># R"
    using packet_release_agrees by blast
  have "\<forall>q. (pheap s' q \<noteq> None) = (pheap s q \<noteq> None \<and> (q = p \<longrightarrow> p \<in># R))"
    unfolding s'(3) [rule_format] by auto
  with s' show "\<exists>s'. packet_release p s = Some s' \<and> counts_agree s' R \<and>
      (\<forall>q. (pheap s' q \<noteq> None) = (pheap s q \<noteq> None \<and> (q = p \<longrightarrow> p \<in># R)))"
    by blast
qed

subsection \<open>Properties\<close>

text \<open>
  C32. Releasing any list of references the counts account for never touches freed memory, leaves
  the counts in agreement with the references that remain, and destroys exactly the packets whose
  last reference went.
\<close>

theorem packet_release_all_safe:
  assumes "counts_agree ps (mset rs + R)"
  shows "\<exists>ps'. release_all packet_release rs ps = Some ps' \<and> counts_agree ps' R \<and>
    (\<forall>p. pheap ps' p = None \<longleftrightarrow> pheap ps p = None \<or> p \<in> set rs \<and> p \<notin># R)"
  using packets.agrees_release_all [OF assms] by blast

definition example_packet :: "nat \<Rightarrow> ENetPacket" where
  "example_packet n = \<lparr>referenceCount = of_nat n, pkt_flags = 0, pkt_data = [7], pkt_dataLength = 1,
     pkt_freeCallback = True\<rparr>"

definition example_packets :: packet_store where
  "example_packets = \<lparr>pheap = [0 \<mapsto> example_packet 2, 1 \<mapsto> example_packet 1], pnext = 2,
     callback_log = [], junk = 0\<rparr>"

lemma example_packets_agree: "counts_agree example_packets {#0, 0, 1#}"
  by (auto simp: counts_agree_def example_packets_def example_packet_def)

theorem packet_release_all_safe_witness:
  "\<exists>ps'. release_all packet_release [0, 1] example_packets = Some ps' \<and> counts_agree ps' {#0#} \<and>
     pheap ps' 0 \<noteq> None \<and> pheap ps' 1 = None"
proof -
  have "counts_agree example_packets (mset [0, 1] + {#0#})" using example_packets_agree by simp
  then obtain ps' where "release_all packet_release [0, 1] example_packets = Some ps'"
      "counts_agree ps' {#0#}"
      "\<forall>p. pheap ps' p = None \<longleftrightarrow> pheap example_packets p = None \<or> p \<in> set [0, 1] \<and> p \<notin># {#0#}"
    using packet_release_all_safe by blast
  moreover from this(3) have "pheap ps' 0 \<noteq> None" "pheap ps' 1 = None"
    by (simp_all add: example_packets_def)
  ultimately show ?thesis by blast
qed

text \<open>
  \<open>enet_packet_resize\<close> of an allocated packet always returns 0 and sets the length; growing a
  packet that owns its memory keeps the old contents as a prefix, moves to a block of exactly the
  new length, and shrinking never changes the memory.
\<close>

theorem enet_packet_resize_keeps_data:
  assumes "pheap ps p = Some k" and "unat (pkt_dataLength k) \<le> length (pkt_data k)"
  shows "\<exists>ps' k'. enet_packet_resize p len ps = Some (0, ps') \<and> pheap ps' p = Some k' \<and>
    pkt_dataLength k' = len \<and> referenceCount k' = referenceCount k \<and>
    (\<forall>q. q \<noteq> p \<longrightarrow> pheap ps' q = pheap ps q) \<and>
    (if len \<le> pkt_dataLength k \<or> pkt_flags k AND ENET_PACKET_FLAG_NO_ALLOCATE \<noteq> 0
     then pkt_data k' = pkt_data k
     else length (pkt_data k') = unat len \<and>
       take (unat (pkt_dataLength k)) (pkt_data k') = take (unat (pkt_dataLength k)) (pkt_data k))"
proof (cases "len \<le> pkt_dataLength k \<or> pkt_flags k AND ENET_PACKET_FLAG_NO_ALLOCATE \<noteq> 0")
  case True
  then show ?thesis using assms by (simp add: enet_packet_resize_def)
next
  case False
  then have "unat (pkt_dataLength k) \<le> unat len" by (simp add: word_le_nat_alt)
  with False show ?thesis using assms
    by (simp add: enet_packet_resize_def overwrite_def min_absorb2)
qed

theorem enet_packet_resize_keeps_data_witness:
  "\<exists>ps' k'. enet_packet_resize 0 3 example_packets = Some (0, ps') \<and> pheap ps' 0 = Some k' \<and>
     pkt_dataLength k' = 3 \<and> length (pkt_data k') = 3 \<and> take 1 (pkt_data k') = [7]"
proof -
  have p: "pheap example_packets 0 = Some (example_packet 2)" by (simp add: example_packets_def)
  have l: "unat (pkt_dataLength (example_packet 2)) \<le> length (pkt_data (example_packet 2))"
    by (simp add: example_packet_def)
  have f: "\<not> (3 \<le> pkt_dataLength (example_packet 2) \<or>
      pkt_flags (example_packet 2) AND ENET_PACKET_FLAG_NO_ALLOCATE \<noteq> 0)"
    by (simp add: example_packet_def packet_flag_defs word_le_nat_alt)
  show ?thesis
    using enet_packet_resize_keeps_data [OF p l, of 3] f by (auto simp: example_packet_def)
qed

end
