(* ===== verification/BlockHash.thy ===== *)
theory BlockHash
  imports Prelude
begin

text \<open>
  The contract of the streaming hash contexts of \<open>dll_src/hash/src\<close> (MD5, SHA-1 and the SHA-2
  family) towards the code that feeds them, e.g. \<open>sha_string\<close> of \<open>sha1_lua_neko.c\<close>, which passes a
  message on in slices. A context is seen through its chaining value, the bytes of the incomplete
  block and the number of bytes so far. Each algorithm interprets the locales on its own \<open>Init\<close>,
  \<open>Update\<close> and \<open>Final\<close>.
\<close>

subsection \<open>Bytes of words\<close>

definition be32 :: "u32 \<Rightarrow> bytes" where
  "be32 x = [ucast (drop_bit 24 x), ucast (drop_bit 16 x), ucast (drop_bit 8 x), ucast x]"

definition le32 :: "u32 \<Rightarrow> bytes" where
  "le32 x = [ucast x, ucast (drop_bit 8 x), ucast (drop_bit 16 x), ucast (drop_bit 24 x)]"

definition be64 :: "u64 \<Rightarrow> bytes" where
  "be64 x = [ucast (drop_bit 56 x), ucast (drop_bit 48 x), ucast (drop_bit 40 x), ucast (drop_bit 32 x),
             ucast (drop_bit 24 x), ucast (drop_bit 16 x), ucast (drop_bit 8 x), ucast x]"

lemma length_bytes [simp]: "length (be32 x) = 4" "length (le32 x) = 4" "length (be64 y) = 8"
  by (simp_all add: be32_def le32_def be64_def)

subsection \<open>Streaming\<close>

text \<open>
  A caller passes a message on in pieces. \<open>None\<close> is a call that does not return (the block loops of
  SHA-1 and MD5 can run past the end of their input).
\<close>

primrec feed :: "('c \<Rightarrow> bytes \<Rightarrow> 'c option) \<Rightarrow> bytes list \<Rightarrow> 'c \<Rightarrow> 'c option" where
  "feed update [] c = Some c"
| "feed update (d # ds) c = do { c' \<leftarrow> update c d; feed update ds c' }"

lemma feed_total: "feed (\<lambda>c d. Some (f c d)) ds c = Some (foldl f c ds)"
  by (induction ds arbitrary: c) simp_all

text \<open>
  The loop of \<open>SHA1\<close>, \<open>sha1_string\<close> and \<open>sha_string\<close>: \<open>for(j=length; j; j -= i)\<close> copies the next slice of
  at most 16384 bytes and updates the context with it. \<open>update\<close> reads the bytes just copied.
\<close>

partial_function (option) slices ::
  "('c \<Rightarrow> bytes \<Rightarrow> 'c option) \<Rightarrow> bytes \<Rightarrow> usize \<Rightarrow> u32 \<Rightarrow> 'c \<Rightarrow> 'c option" where
  "slices update c j i context =
     (if j = 0 then Some context
      else let i = (if j < ucast i then ucast j else i) in
        if unat i \<le> 16384 \<and> unat i \<le> length c
        then Option.bind (update context (take (unat i) c))
               (\<lambda>context. slices update (drop (unat i) c) (j - ucast i) i context)
        else None)"

declare slices.simps [code]

locale stream_hash =
  fixes bs :: nat
    and compress :: "'s \<Rightarrow> bytes \<Rightarrow> 's"
    and start :: 's
    and hstate :: "'c \<Rightarrow> 's"
    and pending :: "'c \<Rightarrow> bytes"
    and total :: "'c \<Rightarrow> nat"
    and valid :: "'c \<Rightarrow> bool"
    and update :: "'c \<Rightarrow> bytes \<Rightarrow> 'c option"
    and chunk :: nat
    and limit :: nat
  assumes bs_pos: "0 < bs"
    and pending_length: "valid c \<Longrightarrow> length (pending c) = total c mod bs"
    and update_law: "valid c \<Longrightarrow> length d < chunk \<Longrightarrow> total c + length d < limit \<Longrightarrow>
      \<exists>c'. update c d = Some c' \<and> valid c' \<and> hstate c' = absorb bs compress (hstate c) (pending c @ d) \<and>
        pending c' = leftover bs (pending c @ d) \<and> total c' = total c + length d"
begin

text \<open>\<open>c'\<close> is \<open>c\<close> after the bytes \<open>d\<close>.\<close>

definition extends :: "'c \<Rightarrow> bytes \<Rightarrow> 'c \<Rightarrow> bool" where
  "extends c d c' \<longleftrightarrow> valid c' \<and> hstate c' = absorb bs compress (hstate c) (pending c @ d) \<and>
     pending c' = leftover bs (pending c @ d) \<and> total c' = total c + length d"

lemma update_extends:
  "valid c \<Longrightarrow> length d < chunk \<Longrightarrow> total c + length d < limit \<Longrightarrow> \<exists>c'. update c d = Some c' \<and> extends c d c'"
  using update_law by (simp add: extends_def)

lemma extends_trans:
  "extends c d c1 \<Longrightarrow> extends c1 e c2 \<Longrightarrow> extends c (d @ e) c2"
  using absorb_leftover [OF bs_pos, of compress "hstate c" "pending c @ d" e]
    leftover_append [OF bs_pos, of "pending c @ d" e]
  by (simp add: extends_def)

lemma extends_valid: "extends c d c' \<Longrightarrow> valid c' \<and> total c' = total c + length d"
  by (simp add: extends_def)

text \<open>The context has seen exactly the message \<open>msg\<close>.\<close>

definition represents :: "'c \<Rightarrow> bytes \<Rightarrow> bool" where
  "represents c msg \<longleftrightarrow> valid c \<and> hstate c = absorb bs compress start msg \<and>
     pending c = leftover bs msg \<and> total c = length msg"

lemma represents_init:
  "valid c \<Longrightarrow> hstate c = start \<Longrightarrow> pending c = [] \<Longrightarrow> total c = 0 \<Longrightarrow> represents c []"
  using bs_pos by (simp add: represents_def)

lemma represents_update:
  assumes "represents c msg" and "length d < chunk" and "length msg + length d < limit"
  shows "\<exists>c'. update c d = Some c' \<and> represents c' (msg @ d)"
proof -
  have v: "valid c" and t: "total c + length d < limit" using assms by (simp_all add: represents_def)
  from update_law [OF v assms(2) t] assms(1) show ?thesis
    by (auto simp: represents_def absorb_leftover [OF bs_pos, of compress start msg d]
        leftover_append [OF bs_pos, of msg d])
qed

lemma represents_feed:
  "represents c msg \<Longrightarrow> (\<forall>d \<in> set ds. length d < chunk) \<Longrightarrow> length msg + length (concat ds) < limit \<Longrightarrow>
     \<exists>c'. feed update ds c = Some c' \<and> represents c' (msg @ concat ds)"
proof (induction ds arbitrary: c msg)
  case Nil
  then show ?case by simp
next
  case (Cons d ds)
  then obtain c1 where c1: "update c d = Some c1" "represents c1 (msg @ d)"
    using represents_update [of c msg d] by auto
  with Cons.prems Cons.IH [of c1 "msg @ d"] show ?case by auto
qed

lemma represents_slices:
  assumes "16384 < chunk"
  shows "represents c msg \<Longrightarrow> length m = unat j \<Longrightarrow> length msg + length m < limit \<Longrightarrow>
    0 < unat i \<Longrightarrow> unat i \<le> 16384 \<Longrightarrow>
    \<exists>c'. slices update m j i c = Some c' \<and> represents c' (msg @ m)"
proof (induction "length m" arbitrary: m j i c msg rule: less_induct)
  case less
  show ?case
  proof (cases "j = 0")
    case True
    with less.prems show ?thesis by (simp add: slices.simps)
  next
    case False
    define k where "k = (if j < ucast i then ucast j else i)"
    have j: "0 < unat j" using False by (simp add: unat_gt_0)
    have i64: "unat (ucast i :: u64) = unat i" by (simp add: unat_ucast_up)
    have k: "unat k = min (unat j) (unat i)"
    proof (cases "j < ucast i")
      case True
      then have "unat j < unat i" by (simp add: word_less_nat_alt i64)
      moreover from this less.prems(5) have "unat (ucast j :: u32) = unat j"
        by (intro unat_ucast_down) simp
      ultimately show ?thesis using True by (simp add: k_def)
    next
      case False
      then show ?thesis by (simp add: k_def word_less_nat_alt i64)
    qed
    have k64: "unat (ucast k :: u64) = unat k" by (simp add: unat_ucast_up)
    have jk: "unat (j - ucast k) = unat j - unat k"
      using k k64 by (simp add: unat_sub_le word_le_nat_alt)
    have kb: "0 < unat k" "unat k \<le> 16384" "unat k \<le> length m"
      using k j less.prems by simp_all
    obtain c1 where c1: "update c (take (unat k) m) = Some c1" "represents c1 (msg @ take (unat k) m)"
      using represents_update [OF less.prems(1), of "take (unat k) m"] kb less.prems(3) assms by auto
    have "\<exists>c'. slices update (drop (unat k) m) (j - ucast k) k c1 = Some c' \<and>
        represents c' ((msg @ take (unat k) m) @ drop (unat k) m)"
      using kb less.prems(2,3) jk by (intro less.hyps [OF _ c1(2)]) simp_all
    then show ?thesis
      using False kb c1(1) by (simp add: slices.simps [of update m j i c] Let_def k_def [symmetric])
  qed
qed

end

text \<open>A context that also pads and returns a digest.\<close>

locale stream_digest = stream_hash bs compress start hstate pending total valid update chunk limit
  for bs :: nat and compress :: "'s \<Rightarrow> bytes \<Rightarrow> 's" and start :: 's and hstate :: "'c \<Rightarrow> 's"
    and pending :: "'c \<Rightarrow> bytes" and total :: "'c \<Rightarrow> nat" and valid :: "'c \<Rightarrow> bool"
    and update :: "'c \<Rightarrow> bytes \<Rightarrow> 'c option" and chunk :: nat and limit :: nat +
  fixes pad :: "nat \<Rightarrow> bytes"
    and outw :: "'s \<Rightarrow> bytes"
    and final :: "'c \<Rightarrow> bytes option"
  assumes final_law: "valid c \<Longrightarrow> total c < limit \<Longrightarrow>
    final c = Some (outw (absorb bs compress (hstate c) (pending c @ pad (total c))))"
begin

lemma final_represents:
  assumes "represents c msg" and "length msg < limit"
  shows "final c = Some (outw (absorb bs compress start (msg @ pad (length msg))))"
proof -
  have "final c = Some (outw (absorb bs compress (absorb bs compress start msg) (leftover bs msg @ pad (length msg))))"
    using assms final_law [of c] by (simp add: represents_def)
  then show ?thesis by (simp add: absorb_leftover [OF bs_pos, symmetric])
qed

text \<open>The digest is a function of the message, however it was cut.\<close>

lemma digest_of_chunks:
  assumes "represents c []" and "\<forall>d \<in> set ds. length d < chunk" and "length (concat ds) < limit"
  shows "Option.bind (feed update ds c) final =
    Some (outw (absorb bs compress start (concat ds @ pad (length (concat ds)))))"
proof -
  obtain c' where "feed update ds c = Some c'" "represents c' (concat ds)"
    using represents_feed [OF assms(1,2)] assms(3) by auto
  with final_represents [OF _ assms(3)] show ?thesis by simp
qed

end

end
