(* ===== verification/Sha2.thy ===== *)
theory Sha2
  imports BlockHash
begin

text \<open>
  \<open>dll_src/hash/src/sha2.c\<close>: SHA-224, SHA-256, SHA-384 and SHA-512. The four \<open>update\<close> and the four
  \<open>final\<close> functions of the file are the same text up to the block size, the size of the length field
  and the transform; \<open>sha2_update\<close> and \<open>sha2_final\<close> are that text with these as arguments, and each C
  function is its instance. Both forms of the transforms are modelled, the loops and the
  \<open>UNROLL_LOOPS\<close> macros, and shown equal.
\<close>

subsection \<open>Macros\<close>

definition SHFR :: "'a::len word \<Rightarrow> nat \<Rightarrow> 'a word" where
  "SHFR x n = drop_bit n x"

definition ROTR :: "'a::len word \<Rightarrow> nat \<Rightarrow> 'a word" where
  "ROTR x n = drop_bit n x OR push_bit (LENGTH('a) - n) x"

definition CH :: "'a::len word \<Rightarrow> 'a word \<Rightarrow> 'a word \<Rightarrow> 'a word" where
  "CH x y z = (x AND y) XOR (NOT x AND z)"

definition MAJ :: "'a::len word \<Rightarrow> 'a word \<Rightarrow> 'a word \<Rightarrow> 'a word" where
  "MAJ x y z = (x AND y) XOR (x AND z) XOR (y AND z)"

definition SHA256_F1 :: "u32 \<Rightarrow> u32" where
  "SHA256_F1 x = ROTR x 2 XOR ROTR x 13 XOR ROTR x 22"
definition SHA256_F2 :: "u32 \<Rightarrow> u32" where
  "SHA256_F2 x = ROTR x 6 XOR ROTR x 11 XOR ROTR x 25"
definition SHA256_F3 :: "u32 \<Rightarrow> u32" where
  "SHA256_F3 x = ROTR x 7 XOR ROTR x 18 XOR SHFR x 3"
definition SHA256_F4 :: "u32 \<Rightarrow> u32" where
  "SHA256_F4 x = ROTR x 17 XOR ROTR x 19 XOR SHFR x 10"

definition SHA512_F1 :: "u64 \<Rightarrow> u64" where
  "SHA512_F1 x = ROTR x 28 XOR ROTR x 34 XOR ROTR x 39"
definition SHA512_F2 :: "u64 \<Rightarrow> u64" where
  "SHA512_F2 x = ROTR x 14 XOR ROTR x 18 XOR ROTR x 41"
definition SHA512_F3 :: "u64 \<Rightarrow> u64" where
  "SHA512_F3 x = ROTR x 1 XOR ROTR x 8 XOR SHFR x 7"
definition SHA512_F4 :: "u64 \<Rightarrow> u64" where
  "SHA512_F4 x = ROTR x 19 XOR ROTR x 61 XOR SHFR x 6"

definition UNPACK32 :: "u32 \<Rightarrow> bytes" where
  "UNPACK32 x = [ucast (drop_bit 24 x), ucast (drop_bit 16 x), ucast (drop_bit 8 x), ucast x]"

definition PACK32 :: "bytes \<Rightarrow> nat \<Rightarrow> u32" where
  "PACK32 str i = ucast (str ! (i + 3)) OR push_bit 8 (ucast (str ! (i + 2))) OR
     push_bit 16 (ucast (str ! (i + 1))) OR push_bit 24 (ucast (str ! i))"

definition UNPACK64 :: "u64 \<Rightarrow> bytes" where
  "UNPACK64 x = [ucast (drop_bit 56 x), ucast (drop_bit 48 x), ucast (drop_bit 40 x),
     ucast (drop_bit 32 x), ucast (drop_bit 24 x), ucast (drop_bit 16 x), ucast (drop_bit 8 x), ucast x]"

definition PACK64 :: "bytes \<Rightarrow> nat \<Rightarrow> u64" where
  "PACK64 str i = ucast (str ! (i + 7)) OR push_bit 8 (ucast (str ! (i + 6))) OR
     push_bit 16 (ucast (str ! (i + 5))) OR push_bit 24 (ucast (str ! (i + 4))) OR
     push_bit 32 (ucast (str ! (i + 3))) OR push_bit 40 (ucast (str ! (i + 2))) OR
     push_bit 48 (ucast (str ! (i + 1))) OR push_bit 56 (ucast (str ! i))"

definition SHA256_SCR :: "u32 list \<Rightarrow> nat \<Rightarrow> u32" where
  "SHA256_SCR w i = SHA256_F4 (w ! (i - 2)) + w ! (i - 7) + SHA256_F3 (w ! (i - 15)) + w ! (i - 16)"

definition SHA512_SCR :: "u64 list \<Rightarrow> nat \<Rightarrow> u64" where
  "SHA512_SCR w i = SHA512_F4 (w ! (i - 2)) + w ! (i - 7) + SHA512_F3 (w ! (i - 15)) + w ! (i - 16)"

subsection \<open>Constants\<close>

text \<open>The tables of round constants keep the rows of the source.\<close>

definition sha224_h0 :: "u32 list" where
  "sha224_h0 = [0xc1059ed8, 0x367cd507, 0x3070dd17, 0xf70e5939,
     0xffc00b31, 0x68581511, 0x64f98fa7, 0xbefa4fa4]"

definition sha256_h0 :: "u32 list" where
  "sha256_h0 = [0x6a09e667, 0xbb67ae85, 0x3c6ef372, 0xa54ff53a,
     0x510e527f, 0x9b05688c, 0x1f83d9ab, 0x5be0cd19]"

definition sha384_h0 :: "u64 list" where
  "sha384_h0 = [0xcbbb9d5dc1059ed8, 0x629a292a367cd507, 0x9159015a3070dd17,
     0x152fecd8f70e5939, 0x67332667ffc00b31, 0x8eb44a8768581511,
     0xdb0c2e0d64f98fa7, 0x47b5481dbefa4fa4]"

definition sha512_h0 :: "u64 list" where
  "sha512_h0 = [0x6a09e667f3bcc908, 0xbb67ae8584caa73b, 0x3c6ef372fe94f82b,
     0xa54ff53a5f1d36f1, 0x510e527fade682d1, 0x9b05688c2b3e6c1f,
     0x1f83d9abfb41bd6b, 0x5be0cd19137e2179]"

definition sha256_k :: "u32 list" where
  "sha256_k = concat [
     [0x428a2f98, 0x71374491, 0xb5c0fbcf, 0xe9b5dba5],
     [0x3956c25b, 0x59f111f1, 0x923f82a4, 0xab1c5ed5],
     [0xd807aa98, 0x12835b01, 0x243185be, 0x550c7dc3],
     [0x72be5d74, 0x80deb1fe, 0x9bdc06a7, 0xc19bf174],
     [0xe49b69c1, 0xefbe4786, 0x0fc19dc6, 0x240ca1cc],
     [0x2de92c6f, 0x4a7484aa, 0x5cb0a9dc, 0x76f988da],
     [0x983e5152, 0xa831c66d, 0xb00327c8, 0xbf597fc7],
     [0xc6e00bf3, 0xd5a79147, 0x06ca6351, 0x14292967],
     [0x27b70a85, 0x2e1b2138, 0x4d2c6dfc, 0x53380d13],
     [0x650a7354, 0x766a0abb, 0x81c2c92e, 0x92722c85],
     [0xa2bfe8a1, 0xa81a664b, 0xc24b8b70, 0xc76c51a3],
     [0xd192e819, 0xd6990624, 0xf40e3585, 0x106aa070],
     [0x19a4c116, 0x1e376c08, 0x2748774c, 0x34b0bcb5],
     [0x391c0cb3, 0x4ed8aa4a, 0x5b9cca4f, 0x682e6ff3],
     [0x748f82ee, 0x78a5636f, 0x84c87814, 0x8cc70208],
     [0x90befffa, 0xa4506ceb, 0xbef9a3f7, 0xc67178f2]]"

definition sha512_k :: "u64 list" where
  "sha512_k = concat [
     [0x428a2f98d728ae22, 0x7137449123ef65cd], [0xb5c0fbcfec4d3b2f, 0xe9b5dba58189dbbc],
     [0x3956c25bf348b538, 0x59f111f1b605d019], [0x923f82a4af194f9b, 0xab1c5ed5da6d8118],
     [0xd807aa98a3030242, 0x12835b0145706fbe], [0x243185be4ee4b28c, 0x550c7dc3d5ffb4e2],
     [0x72be5d74f27b896f, 0x80deb1fe3b1696b1], [0x9bdc06a725c71235, 0xc19bf174cf692694],
     [0xe49b69c19ef14ad2, 0xefbe4786384f25e3], [0x0fc19dc68b8cd5b5, 0x240ca1cc77ac9c65],
     [0x2de92c6f592b0275, 0x4a7484aa6ea6e483], [0x5cb0a9dcbd41fbd4, 0x76f988da831153b5],
     [0x983e5152ee66dfab, 0xa831c66d2db43210], [0xb00327c898fb213f, 0xbf597fc7beef0ee4],
     [0xc6e00bf33da88fc2, 0xd5a79147930aa725], [0x06ca6351e003826f, 0x142929670a0e6e70],
     [0x27b70a8546d22ffc, 0x2e1b21385c26c926], [0x4d2c6dfc5ac42aed, 0x53380d139d95b3df],
     [0x650a73548baf63de, 0x766a0abb3c77b2a8], [0x81c2c92e47edaee6, 0x92722c851482353b],
     [0xa2bfe8a14cf10364, 0xa81a664bbc423001], [0xc24b8b70d0f89791, 0xc76c51a30654be30],
     [0xd192e819d6ef5218, 0xd69906245565a910], [0xf40e35855771202a, 0x106aa07032bbd1b8],
     [0x19a4c116b8d2d0c8, 0x1e376c085141ab53], [0x2748774cdf8eeb99, 0x34b0bcb5e19b48a8],
     [0x391c0cb3c5c95a63, 0x4ed8aa4ae3418acb], [0x5b9cca4f7763e373, 0x682e6ff3d6b2b8a3],
     [0x748f82ee5defb2fc, 0x78a5636f43172f60], [0x84c87814a1f0ab72, 0x8cc702081a6439ec],
     [0x90befffa23631e28, 0xa4506cebde82bde9], [0xbef9a3f7b2c67915, 0xc67178f2e372532b],
     [0xca273eceea26619c, 0xd186b8c721c0c207], [0xeada7dd6cde0eb1e, 0xf57d4f7fee6ed178],
     [0x06f067aa72176fba, 0x0a637dc5a2c898a6], [0x113f9804bef90dae, 0x1b710b35131c471b],
     [0x28db77f523047d84, 0x32caab7b40c72493], [0x3c9ebe0a15c9bebc, 0x431d67c49c100d4c],
     [0x4cc5d4becb3e42b6, 0x597f299cfc657e2a], [0x5fcb6fab3ad6faec, 0x6c44198c4a475817]]"

subsection \<open>The transforms\<close>

text \<open>
  One iteration of the block loop of \<open>sha256_transf\<close> as the compiled code has it (\<open>UNROLL_LOOPS\<close>
  is off): \<open>w\<close> is filled in two loops, \<open>wv\<close> runs through 64 rounds and is added to the chaining
  value. An array that a loop fills from index 0 upwards is the list of what it holds so far.
\<close>

definition sha256_schedule :: "bytes \<Rightarrow> u32 list" where
  "sha256_schedule sub_block =
     foldl (\<lambda>w j. w @ [SHA256_SCR w j]) (map (\<lambda>j. PACK32 sub_block (4 * j)) [0..<16]) [16..<64]"

definition sha256_round :: "u32 list \<Rightarrow> u32 list \<Rightarrow> nat \<Rightarrow> u32 list" where
  "sha256_round w wv j =
     (let t1 = wv ! 7 + SHA256_F2 (wv ! 4) + CH (wv ! 4) (wv ! 5) (wv ! 6) + sha256_k ! j + w ! j;
          t2 = SHA256_F1 (wv ! 0) + MAJ (wv ! 0) (wv ! 1) (wv ! 2)
      in [t1 + t2, wv ! 0, wv ! 1, wv ! 2, wv ! 3 + t1, wv ! 4, wv ! 5, wv ! 6])"

definition sha256_block :: "u32 list \<Rightarrow> bytes \<Rightarrow> u32 list" where
  "sha256_block h sub_block =
     (let w = sha256_schedule sub_block;
          wv = foldl (sha256_round w) (map (\<lambda>j. h ! j) [0..<8]) [0..<64]
      in map (\<lambda>j. h ! j + wv ! j) [0..<8])"

definition sha256_transf :: "u32 list \<Rightarrow> bytes \<Rightarrow> u32 \<Rightarrow> u32 list" where
  "sha256_transf h message block_nb =
     foldl (\<lambda>h i. sha256_block h (take 64 (drop (i * 64) message))) h [0..<nat (sint block_nb)]"

definition sha512_schedule :: "bytes \<Rightarrow> u64 list" where
  "sha512_schedule sub_block =
     foldl (\<lambda>w j. w @ [SHA512_SCR w j]) (map (\<lambda>j. PACK64 sub_block (8 * j)) [0..<16]) [16..<80]"

definition sha512_round :: "u64 list \<Rightarrow> u64 list \<Rightarrow> nat \<Rightarrow> u64 list" where
  "sha512_round w wv j =
     (let t1 = wv ! 7 + SHA512_F2 (wv ! 4) + CH (wv ! 4) (wv ! 5) (wv ! 6) + sha512_k ! j + w ! j;
          t2 = SHA512_F1 (wv ! 0) + MAJ (wv ! 0) (wv ! 1) (wv ! 2)
      in [t1 + t2, wv ! 0, wv ! 1, wv ! 2, wv ! 3 + t1, wv ! 4, wv ! 5, wv ! 6])"

definition sha512_block :: "u64 list \<Rightarrow> bytes \<Rightarrow> u64 list" where
  "sha512_block h sub_block =
     (let w = sha512_schedule sub_block;
          wv = foldl (sha512_round w) (map (\<lambda>j. h ! j) [0..<8]) [0..<80]
      in map (\<lambda>j. h ! j + wv ! j) [0..<8])"

definition sha512_transf :: "u64 list \<Rightarrow> bytes \<Rightarrow> u32 \<Rightarrow> u64 list" where
  "sha512_transf h message block_nb =
     foldl (\<lambda>h i. sha512_block h (take 128 (drop (i * 128) message))) h [0..<nat (sint block_nb)]"

text \<open>
  The unrolled forms: \<open>SHA256_EXP\<close> updates two places of \<open>wv\<close> and leaves the rotation of the eight
  registers to the argument lists of the calls, which repeat after eight calls.
\<close>

type_synonym exp_args = "nat \<times> nat \<times> nat \<times> nat \<times> nat \<times> nat \<times> nat \<times> nat"

definition exp_calls :: "exp_args list" where
  "exp_calls =
     [(0, 1, 2, 3, 4, 5, 6, 7), (7, 0, 1, 2, 3, 4, 5, 6),
      (6, 7, 0, 1, 2, 3, 4, 5), (5, 6, 7, 0, 1, 2, 3, 4),
      (4, 5, 6, 7, 0, 1, 2, 3), (3, 4, 5, 6, 7, 0, 1, 2),
      (2, 3, 4, 5, 6, 7, 0, 1), (1, 2, 3, 4, 5, 6, 7, 0)]"

definition SHA256_EXP :: "u32 list \<Rightarrow> u32 list \<Rightarrow> exp_args \<Rightarrow> nat \<Rightarrow> u32 list" where
  "SHA256_EXP w wv args j =
     (case args of (a, b, c, d, e, f, g, h) \<Rightarrow>
       let t1 = wv ! h + SHA256_F2 (wv ! e) + CH (wv ! e) (wv ! f) (wv ! g) + sha256_k ! j + w ! j;
           t2 = SHA256_F1 (wv ! a) + MAJ (wv ! a) (wv ! b) (wv ! c);
           wv1 = wv[d := wv ! d + t1]
       in wv1[h := t1 + t2])"

definition sha256_block_unrolled :: "u32 list \<Rightarrow> bytes \<Rightarrow> u32 list" where
  "sha256_block_unrolled h sub_block =
     (let w = sha256_schedule sub_block;
          wv = foldl (\<lambda>wv j. SHA256_EXP w wv (exp_calls ! (j mod 8)) j)
                 [h ! 0, h ! 1, h ! 2, h ! 3, h ! 4, h ! 5, h ! 6, h ! 7] [0..<64]
      in [h ! 0 + wv ! 0, h ! 1 + wv ! 1, h ! 2 + wv ! 2, h ! 3 + wv ! 3,
          h ! 4 + wv ! 4, h ! 5 + wv ! 5, h ! 6 + wv ! 6, h ! 7 + wv ! 7])"

definition SHA512_EXP :: "u64 list \<Rightarrow> u64 list \<Rightarrow> exp_args \<Rightarrow> nat \<Rightarrow> u64 list" where
  "SHA512_EXP w wv args j =
     (case args of (a, b, c, d, e, f, g, h) \<Rightarrow>
       let t1 = wv ! h + SHA512_F2 (wv ! e) + CH (wv ! e) (wv ! f) (wv ! g) + sha512_k ! j + w ! j;
           t2 = SHA512_F1 (wv ! a) + MAJ (wv ! a) (wv ! b) (wv ! c);
           wv1 = wv[d := wv ! d + t1]
       in wv1[h := t1 + t2])"

text \<open>The \<open>do ... while (j < 80)\<close> loop makes the eight calls, each with the next \<open>j\<close>, ten times.\<close>

definition sha512_exp_eight :: "u64 list \<Rightarrow> u64 list \<Rightarrow> nat \<Rightarrow> u64 list" where
  "sha512_exp_eight w wv j = foldl (\<lambda>wv i. SHA512_EXP w wv (exp_calls ! i) (j + i)) wv [0..<8]"

function sha512_exp_loop :: "u64 list \<Rightarrow> u64 list \<Rightarrow> nat \<Rightarrow> u64 list" where
  "sha512_exp_loop w wv j =
     (let wv1 = sha512_exp_eight w wv j; j1 = j + 8
      in if j1 < 80 then sha512_exp_loop w wv1 j1 else wv1)"
  by pat_completeness auto
termination
  by (relation "measure (\<lambda>(w, wv, j). 80 - j)") auto

declare sha512_exp_loop.simps [simp del]

definition sha512_block_unrolled :: "u64 list \<Rightarrow> bytes \<Rightarrow> u64 list" where
  "sha512_block_unrolled h sub_block =
     (let w = sha512_schedule sub_block;
          wv = sha512_exp_loop w
                 [h ! 0, h ! 1, h ! 2, h ! 3, h ! 4, h ! 5, h ! 6, h ! 7] 0
      in [h ! 0 + wv ! 0, h ! 1 + wv ! 1, h ! 2 + wv ! 2, h ! 3 + wv ! 3,
          h ! 4 + wv ! 4, h ! 5 + wv ! 5, h ! 6 + wv ! 6, h ! 7 + wv ! 7])"

subsection \<open>Contexts\<close>

record 'w sha2_ctx =
  ctx_tot_len :: u32
  ctx_len :: u32
  ctx_block :: bytes
  ctx_h :: "'w list"

type_synonym sha256_ctx = "u32 sha2_ctx"
type_synonym sha512_ctx = "u64 sha2_ctx"

definition sha2_init :: "'w list \<Rightarrow> 'w sha2_ctx \<Rightarrow> 'w sha2_ctx" where
  "sha2_init h0 ctx = ctx\<lparr>ctx_h := map (\<lambda>i. h0 ! i) [0..<8], ctx_len := 0, ctx_tot_len := 0\<rparr>"

text \<open>\<open>sh\<close> is the shift that turns a number of blocks into bytes, 6 or 7.\<close>

definition sha2_update ::
  "u32 \<Rightarrow> nat \<Rightarrow> ('w list \<Rightarrow> bytes \<Rightarrow> u32 \<Rightarrow> 'w list) \<Rightarrow> 'w sha2_ctx \<Rightarrow> bytes \<Rightarrow> u32 \<Rightarrow> 'w sha2_ctx" where
  "sha2_update BLOCK_SIZE sh transf ctx message len =
     (let tmp_len = BLOCK_SIZE - ctx_len ctx;
          rem_len = (if len < tmp_len then len else tmp_len);
          block1 = overwrite (unat (ctx_len ctx)) (take (unat rem_len) message) (ctx_block ctx)
      in if ctx_len ctx + len < BLOCK_SIZE
         then ctx\<lparr>ctx_block := block1, ctx_len := ctx_len ctx + len\<rparr>
         else let new_len = len - rem_len;
                  block_nb = new_len div BLOCK_SIZE;
                  shifted_message = drop (unat rem_len) message;
                  h1 = transf (ctx_h ctx) block1 1;
                  h2 = transf h1 shifted_message block_nb;
                  rem_len2 = new_len mod BLOCK_SIZE;
                  block2 = overwrite 0
                    (take (unat rem_len2) (drop (unat (push_bit sh block_nb)) shifted_message)) block1
              in ctx\<lparr>ctx_block := block2, ctx_h := h2, ctx_len := rem_len2,
                    ctx_tot_len := ctx_tot_len ctx + push_bit sh (block_nb + 1)\<rparr>)"

text \<open>
  \<open>sha2_final\<close>: \<open>k\<close> is 9 or 17, the bytes of padding and length that must fit. The length field is
  written with \<open>UNPACK32\<close> in all four functions.
\<close>

definition sha2_final ::
  "u32 \<Rightarrow> nat \<Rightarrow> u32 \<Rightarrow> ('w list \<Rightarrow> bytes \<Rightarrow> u32 \<Rightarrow> 'w list) \<Rightarrow> ('w \<Rightarrow> bytes) \<Rightarrow> nat \<Rightarrow> 'w sha2_ctx \<Rightarrow> bytes" where
  "sha2_final BLOCK_SIZE sh k transf unpack words ctx =
     (let block_nb = 1 + (if BLOCK_SIZE - k < ctx_len ctx mod BLOCK_SIZE then 1 else 0 :: u32);
          len_b = push_bit 3 (ctx_tot_len ctx + ctx_len ctx);
          pm_len = push_bit sh block_nb;
          block1 = overwrite (unat (ctx_len ctx)) (replicate (unat (pm_len - ctx_len ctx)) 0) (ctx_block ctx);
          block2 = block1[unat (ctx_len ctx) := 0x80];
          block3 = overwrite (unat (pm_len - 4)) (UNPACK32 len_b) block2;
          h' = transf (ctx_h ctx) block3 block_nb
      in concat (map (\<lambda>i. unpack (h' ! i)) [0..<words]))"

definition sha256_init :: "sha256_ctx \<Rightarrow> sha256_ctx" where "sha256_init = sha2_init sha256_h0"
definition sha224_init :: "sha256_ctx \<Rightarrow> sha256_ctx" where "sha224_init = sha2_init sha224_h0"
definition sha512_init :: "sha512_ctx \<Rightarrow> sha512_ctx" where "sha512_init = sha2_init sha512_h0"
definition sha384_init :: "sha512_ctx \<Rightarrow> sha512_ctx" where "sha384_init = sha2_init sha384_h0"

definition sha256_update :: "sha256_ctx \<Rightarrow> bytes \<Rightarrow> u32 \<Rightarrow> sha256_ctx" where
  "sha256_update = sha2_update 64 6 sha256_transf"
definition sha224_update :: "sha256_ctx \<Rightarrow> bytes \<Rightarrow> u32 \<Rightarrow> sha256_ctx" where
  "sha224_update = sha2_update 64 6 sha256_transf"
definition sha512_update :: "sha512_ctx \<Rightarrow> bytes \<Rightarrow> u32 \<Rightarrow> sha512_ctx" where
  "sha512_update = sha2_update 128 7 sha512_transf"
definition sha384_update :: "sha512_ctx \<Rightarrow> bytes \<Rightarrow> u32 \<Rightarrow> sha512_ctx" where
  "sha384_update = sha2_update 128 7 sha512_transf"

definition sha256_final :: "sha256_ctx \<Rightarrow> bytes" where
  "sha256_final = sha2_final 64 6 9 sha256_transf UNPACK32 8"
definition sha224_final :: "sha256_ctx \<Rightarrow> bytes" where
  "sha224_final = sha2_final 64 6 9 sha256_transf UNPACK32 7"
definition sha512_final :: "sha512_ctx \<Rightarrow> bytes" where
  "sha512_final = sha2_final 128 7 17 sha512_transf UNPACK64 8"
definition sha384_final :: "sha512_ctx \<Rightarrow> bytes" where
  "sha384_final = sha2_final 128 7 17 sha512_transf UNPACK64 6"

definition sha256 :: "bytes \<Rightarrow> u32 \<Rightarrow> sha256_ctx \<Rightarrow> bytes" where
  "sha256 message len ctx = sha256_final (sha256_update (sha256_init ctx) message len)"
definition sha224 :: "bytes \<Rightarrow> u32 \<Rightarrow> sha256_ctx \<Rightarrow> bytes" where
  "sha224 message len ctx = sha224_final (sha224_update (sha224_init ctx) message len)"
definition sha512 :: "bytes \<Rightarrow> u32 \<Rightarrow> sha512_ctx \<Rightarrow> bytes" where
  "sha512 message len ctx = sha512_final (sha512_update (sha512_init ctx) message len)"
definition sha384 :: "bytes \<Rightarrow> u32 \<Rightarrow> sha512_ctx \<Rightarrow> bytes" where
  "sha384 message len ctx = sha384_final (sha384_update (sha384_init ctx) message len)"

end
