(* ===== verification/Sha2Stream.thy ===== *)
theory Sha2Stream
  imports Sha2
begin

text \<open>
  The streaming layer of \<open>sha2.c\<close>: \<open>sha2_update\<close> and \<open>sha2_final\<close> satisfy the contract of
  \<open>BlockHash\<close> for every transform that works block by block, with the padding the code writes.
  Each of the four algorithms interprets the contract.
\<close>

subsection \<open>The transform is an iteration over blocks\<close>

definition blockwise :: "nat \<Rightarrow> ('w list \<Rightarrow> bytes \<Rightarrow> 'w list) \<Rightarrow> ('w list \<Rightarrow> bytes \<Rightarrow> u32 \<Rightarrow> 'w list) \<Rightarrow> bool" where
  "blockwise bs blk transf \<longleftrightarrow>
     (\<forall>h m nb. unat nb < 2 ^ 31 \<longrightarrow> bs * unat nb \<le> length m \<longrightarrow>
        transf h m nb = absorb bs blk h (take (bs * unat nb) m))"

lemma foldl_blocks:
  "0 < bs \<Longrightarrow> bs * n \<le> length m \<Longrightarrow>
     foldl (\<lambda>h i. blk h (take bs (drop (i * bs) m))) h [0..<n] = absorb bs blk h (take (bs * n) m)"
proof (induction n)
  case 0
  then show ?case by simp
next
  case (Suc n)
  have le: "bs * n \<le> length m" and len: "length (take bs (drop (n * bs) m)) = bs"
    using Suc.prems by (simp_all add: algebra_simps)
  have "take (bs * Suc n) m = take (bs * n) m @ take bs (drop (n * bs) m)"
    by (simp add: take_add [symmetric] algebra_simps)
  moreover have "absorb bs blk h (take (bs * n) m @ take bs (drop (n * bs) m)) =
      absorb bs blk (absorb bs blk h (take (bs * n) m)) (take bs (drop (n * bs) m))"
    using Suc.prems le by (intro absorb_append) (simp_all add: min_absorb2)
  ultimately show ?case
    using Suc.IH [OF Suc.prems(1) le] by (simp add: absorb_one [OF Suc.prems(1) len])
qed

lemma sint_small: "unat (n :: u32) < 2 ^ 31 \<Longrightarrow> nat (sint n) = unat n"
proof -
  assume "unat n < 2 ^ 31"
  then have "uint n < 2 ^ 31" by (metis nat_less_numeral_power_cancel_iff unat_eq_nat_uint)
  moreover have "- (2 ^ 31) \<le> uint n"
    by (rule order_trans [of _ 0]) simp_all
  ultimately have small: "signed_take_bit 31 (uint n) = uint n"
    by (intro signed_take_bit_int_eq_self)
  have width: "LENGTH(32) - Suc 0 = 31" by simp
  have "sint n = uint n" unfolding sint_uint [of n] width by (rule small)
  then show ?thesis by simp
qed

lemma sha256_transf_blockwise: "blockwise 64 sha256_block sha256_transf"
  by (simp add: blockwise_def sha256_transf_def sint_small foldl_blocks)

lemma sha512_transf_blockwise: "blockwise 128 sha512_block sha512_transf"
  by (simp add: blockwise_def sha512_transf_def sint_small foldl_blocks)

subsection \<open>The view of a context\<close>

definition sha2_total :: "'w sha2_ctx \<Rightarrow> nat" where
  "sha2_total ctx = unat (ctx_tot_len ctx) + unat (ctx_len ctx)"

definition sha2_pending :: "'w sha2_ctx \<Rightarrow> bytes" where
  "sha2_pending ctx = take (unat (ctx_len ctx)) (ctx_block ctx)"

definition sha2_valid :: "nat \<Rightarrow> 'w sha2_ctx \<Rightarrow> bool" where
  "sha2_valid bs ctx \<longleftrightarrow> unat (ctx_len ctx) < bs \<and> unat (ctx_tot_len ctx) mod bs = 0 \<and>
     length (ctx_block ctx) = 2 * bs"

lemma sha2_pending_length: "sha2_valid bs ctx \<Longrightarrow> length (sha2_pending ctx) = sha2_total ctx mod bs"
  by (auto simp: sha2_valid_def sha2_pending_def sha2_total_def min_absorb2 mod_add_left_eq [symmetric])

lemma unat_push_bit_lt:
  "unat (x :: u32) * 2 ^ n < 2 ^ 32 \<Longrightarrow> unat (push_bit n x) = unat x * 2 ^ n"
proof -
  assume a: "unat x * 2 ^ n < 2 ^ 32"
  have "unat (push_bit n x) = take_bit 32 (push_bit n (unat x))"
    by (subst unsigned_push_bit_eq) simp
  also have "push_bit n (unat x) = unat x * 2 ^ n" by (rule push_bit_eq_mult)
  finally show ?thesis using a by (simp only: take_bit_nat_eq_self)
qed

text \<open>The parameters of the two block sizes.\<close>

definition sha2_params :: "nat \<Rightarrow> nat \<Rightarrow> u32 \<Rightarrow> u32 \<Rightarrow> bool" where
  "sha2_params bs sh BLOCK_SIZE k \<longleftrightarrow>
     (bs = 64 \<and> sh = 6 \<and> BLOCK_SIZE = 64 \<and> k = 9) \<or> (bs = 128 \<and> sh = 7 \<and> BLOCK_SIZE = 128 \<and> k = 17)"

lemma sha2_params_facts:
  assumes "sha2_params bs sh B k"
  shows "unat B = bs" and "bs = 2 ^ sh" and "64 \<le> bs" and "bs \<le> 128" and "unat (B - k) = bs - unat k"
    and "9 \<le> unat k" and "unat k \<le> 17"
  using assms by (auto simp: sha2_params_def)

subsection \<open>Update\<close>

lemma sha2_update_fits:
  assumes P: "sha2_params bs sh B k" and V: "sha2_valid bs ctx"
    and fits: "unat (ctx_len ctx) + length d < bs"
  shows "sha2_update B sh transf ctx d (of_nat (length d)) =
    ctx\<lparr>ctx_block := overwrite (unat (ctx_len ctx)) d (ctx_block ctx),
        ctx_len := ctx_len ctx + of_nat (length d)\<rparr> \<and>
    unat (ctx_len ctx + of_nat (length d)) = unat (ctx_len ctx) + length d"
proof -
  note p = sha2_params_facts [OF P]
  have n: "unat (of_nat (length d) :: u32) = length d"
    using fits p(4) by (intro unat_of_nat_lt) simp
  have s: "unat (ctx_len ctx + of_nat (length d)) = unat (ctx_len ctx) + length d"
    using fits p(4) n by (subst unat_add_lt) simp_all
  have "unat (ctx_len ctx) \<le> unat B" using V p(1) by (simp add: sha2_valid_def)
  then have "unat (B - ctx_len ctx) = bs - unat (ctx_len ctx)"
    using p(1) by (simp add: unat_sub_le word_le_nat_alt)
  then have "(of_nat (length d) :: u32) < B - ctx_len ctx"
    using n fits by (simp add: word_less_nat_alt)
  moreover have "ctx_len ctx + of_nat (length d) < B"
    using s fits p(1) by (simp add: word_less_nat_alt)
  ultimately show ?thesis using n s by (simp add: sha2_update_def Let_def)
qed

lemma sha2_update_full:
  assumes P: "sha2_params bs sh B k" and V: "sha2_valid bs ctx" and T: "blockwise bs blk transf"
    and full: "bs \<le> unat (ctx_len ctx) + length d" and lim: "sha2_total ctx + length d < 2 ^ 32"
  defines "r \<equiv> bs - unat (ctx_len ctx)"
  shows "\<exists>b2 q. sha2_update B sh transf ctx d (of_nat (length d)) =
      ctx\<lparr>ctx_block := b2, ctx_h := absorb bs blk (blk (ctx_h ctx) (sha2_pending ctx @ take r d)) (drop r d),
          ctx_len := of_nat ((length d - r) mod bs), ctx_tot_len := ctx_tot_len ctx + q\<rparr> \<and>
      length b2 = 2 * bs \<and> take ((length d - r) mod bs) b2 = leftover bs (drop r d) \<and>
      unat (of_nat ((length d - r) mod bs) :: u32) = (length d - r) mod bs \<and>
      unat q = ((length d - r) div bs + 1) * bs"
proof -
  note p = sha2_params_facts [OF P]
  let ?l = "unat (ctx_len ctx)" and ?n = "length d"
  let ?len = "of_nat ?n :: u32"
  have l: "?l < bs" and blk_len: "length (ctx_block ctx) = 2 * bs"
    using V by (simp_all add: sha2_valid_def)
  have n32: "?n < 2 ^ 32" using lim by simp
  have n: "unat ?len = ?n" using n32 by (intro unat_of_nat_lt) simp
  have s: "unat (ctx_len ctx + ?len) = ?l + ?n"
    using lim n by (subst unat_add_lt) (simp_all add: sha2_total_def)
  have tmp: "unat (B - ctx_len ctx) = r"
    using l p(1) by (simp add: unat_sub_le word_le_nat_alt r_def)
  have rn: "r \<le> ?n" "0 < r" "r \<le> bs" using full l by (simp_all add: r_def)
  have c1: "\<not> ?len < B - ctx_len ctx" using n tmp rn by (simp add: word_less_nat_alt)
  have c2: "\<not> ctx_len ctx + ?len < B" using s full p(1) by (simp add: word_less_nat_alt)
  have new: "unat (?len - (B - ctx_len ctx)) = ?n - r"
    using n tmp rn by (simp add: unat_sub_le word_le_nat_alt)
  let ?nb = "(?len - (B - ctx_len ctx)) div B" and ?rem = "(?len - (B - ctx_len ctx)) mod B"
  have nb: "unat ?nb = (?n - r) div bs" and rem: "unat ?rem = (?n - r) mod bs"
    using new p(1) by (simp_all add: unat_div unat_mod)
  have nbn: "(?n - r) div bs * bs \<le> ?n - r" by simp
  have nb1: "((?n - r) div bs + 1) * bs \<le> ?l + ?n"
    using nbn rn l r_def by (simp only: add_mult_distrib mult_1)
  then have nb1': "((?n - r) div bs + 1) * bs < 2 ^ 32"
    using lim by (simp add: sha2_total_def)
  have nb31: "unat ?nb < 2 ^ 31"
  proof -
    have "(?n - r) div bs \<le> (?n - r) div 64" using p(3) by (intro div_le_mono2) simp_all
    then show ?thesis unfolding nb using n32 by simp
  qed
  have nbs: "unat (push_bit sh ?nb) = (?n - r) div bs * bs"
    using nb nb1' p(2) by (subst unat_push_bit_lt) simp_all
  have nb_suc: "unat (?nb + 1) = (?n - r) div bs + 1"
    using nb nb31 by (subst unat_add_lt) simp_all
  have q: "unat (push_bit sh (?nb + 1)) = ((?n - r) div bs + 1) * bs"
    using nb1' p(2) nb_suc by (subst unat_push_bit_lt) (simp_all only:)
  define b1 where "b1 = overwrite ?l (take r d) (ctx_block ctx)"
  have b1_len: "length b1 = 2 * bs"
    using blk_len l rn by (simp add: b1_def r_def)
  have b1_take: "take bs b1 = sha2_pending ctx @ take r d"
    using take_overwrite_end [of ?l "ctx_block ctx" "take r d"] blk_len l rn
    by (simp add: b1_def sha2_pending_def r_def)
  have one: "length (sha2_pending ctx @ take r d) = bs"
    using b1_len by (simp flip: b1_take)
  have "transf (ctx_h ctx) b1 1 = absorb bs blk (ctx_h ctx) (take bs b1)"
    using T b1_len by (simp add: blockwise_def)
  then have h1: "transf (ctx_h ctx) b1 1 = blk (ctx_h ctx) (sha2_pending ctx @ take r d)"
    unfolding b1_take using absorb_one [OF _ one] p(3) by simp
  have h2: "transf h' (drop r d) ?nb = absorb bs blk h' (drop r d)" for h'
  proof -
    have "transf h' (drop r d) ?nb = absorb bs blk h' (take (bs * unat ?nb) (drop r d))"
      using T nb31 nb nbn by (simp add: blockwise_def mult.commute)
    then show ?thesis
      using absorb_take_full [of bs blk h' "drop r d"] p(3) nb by (simp add: mult.commute)
  qed
  define rest where "rest = take ((?n - r) mod bs) (drop ((?n - r) div bs * bs) (drop r d))"
  have rest: "rest = leftover bs (drop r d)" "length rest = (?n - r) mod bs"
    using minus_div_mult_eq_mod [of "?n - r" bs]
    by (simp_all add: rest_def leftover_def del: drop_drop)
  define b2 where "b2 = overwrite 0 rest b1"
  have modlt: "(?n - r) mod bs < bs" using p(3) by simp
  have b2: "length b2 = 2 * bs" "take ((?n - r) mod bs) b2 = leftover bs (drop r d)"
    using b1_len rest modlt overwrite_0_take [of rest b1] by (simp_all add: b2_def)
  have eq: "sha2_update B sh transf ctx d ?len =
      ctx\<lparr>ctx_block := b2, ctx_h := absorb bs blk (blk (ctx_h ctx) (sha2_pending ctx @ take r d)) (drop r d),
          ctx_len := ?rem, ctx_tot_len := ctx_tot_len ctx + push_bit sh (?nb + 1)\<rparr>"
    using c1 c2
    by (simp add: sha2_update_def Let_def tmp nbs rem h1 h2 b1_def [symmetric] rest_def [symmetric]
        b2_def [symmetric] del: drop_drop)
  have "?rem = of_nat ((?n - r) mod bs)" unfolding rem [symmetric] by simp
  with eq b2 q rem show ?thesis by metis
qed

lemma sha2_update_contract:
  assumes P: "sha2_params bs sh B k" and V: "sha2_valid bs ctx" and T: "blockwise bs blk transf"
    and lim: "sha2_total ctx + length d < 2 ^ 32"
  defines "c' \<equiv> sha2_update B sh transf ctx d (of_nat (length d))"
  shows "sha2_valid bs c' \<and> ctx_h c' = absorb bs blk (ctx_h ctx) (sha2_pending ctx @ d) \<and>
    sha2_pending c' = leftover bs (sha2_pending ctx @ d) \<and> sha2_total c' = sha2_total ctx + length d"
proof (cases "unat (ctx_len ctx) + length d < bs")
  case True
  note u = sha2_update_fits [OF P V True, where transf = transf]
  have blk_len: "length (ctx_block ctx) = 2 * bs" and pl: "length (sha2_pending ctx) = unat (ctx_len ctx)"
    using V by (simp_all add: sha2_valid_def sha2_pending_def)
  have "sha2_pending c' = sha2_pending ctx @ d"
    using u take_overwrite_end [of "unat (ctx_len ctx)" "ctx_block ctx" d] blk_len True
    by (simp add: c'_def sha2_pending_def)
  then show ?thesis
    using u True V blk_len pl by (simp add: c'_def sha2_valid_def sha2_total_def)
next
  case False
  then have full: "bs \<le> unat (ctx_len ctx) + length d" by simp
  let ?r = "bs - unat (ctx_len ctx)"
  have bs: "0 < bs" using sha2_params_facts [OF P] by simp
  have l: "unat (ctx_len ctx) < bs" and pl: "length (sha2_pending ctx) = unat (ctx_len ctx)"
    using V by (simp_all add: sha2_valid_def sha2_pending_def)
  obtain b2 q where u: "c' = ctx\<lparr>ctx_block := b2,
        ctx_h := absorb bs blk (blk (ctx_h ctx) (sha2_pending ctx @ take ?r d)) (drop ?r d),
        ctx_len := of_nat ((length d - ?r) mod bs), ctx_tot_len := ctx_tot_len ctx + q\<rparr>"
      and b2: "length b2 = 2 * bs" "take ((length d - ?r) mod bs) b2 = leftover bs (drop ?r d)"
      and rem: "unat (of_nat ((length d - ?r) mod bs) :: u32) = (length d - ?r) mod bs"
      and q: "unat q = ((length d - ?r) div bs + 1) * bs"
    using sha2_update_full [OF P V T full lim] unfolding c'_def by blast
  have one: "length (sha2_pending ctx @ take ?r d) = bs" using pl l full by simp
  have split: "sha2_pending ctx @ d = (sha2_pending ctx @ take ?r d) @ drop ?r d" by simp
  have h: "absorb bs blk (ctx_h ctx) (sha2_pending ctx @ d) =
      absorb bs blk (blk (ctx_h ctx) (sha2_pending ctx @ take ?r d)) (drop ?r d)"
    unfolding split using bs one by (subst absorb_append) (simp_all only: absorb_one mod_self)
  have lo: "leftover bs (sha2_pending ctx @ d) = leftover bs (drop ?r d)"
    unfolding split using bs one by (subst leftover_append) (simp_all only: leftover_exact append_Nil)
  have sum: "((length d - ?r) div bs + 1) * bs + (length d - ?r) mod bs = unat (ctx_len ctx) + length d"
    using full l by (simp only: add_mult_distrib mult_1) (metis (no_types, lifting) add.assoc add.commute
      add_diff_inverse_nat diff_diff_right div_mult_mod_eq le_add_diff_inverse less_imp_le_nat not_less)
  have tot: "unat (ctx_tot_len ctx + q) = unat (ctx_tot_len ctx) + unat q"
  proof (rule unat_add_lt)
    have "unat (ctx_tot_len ctx) + unat q < 2 ^ 32"
      using lim sum q unfolding sha2_total_def by linarith
    then show "unat (ctx_tot_len ctx) + unat q < 2 ^ LENGTH(32)" by simp
  qed
  have "unat (ctx_tot_len ctx + q) mod bs = 0"
    using V unfolding tot q sha2_valid_def by (simp only: mod_mult_self3 mod_mult_self1)
  then have "sha2_valid bs c'"
    using u b2 rem bs by (simp add: sha2_valid_def)
  moreover have "sha2_total c' = sha2_total ctx + length d"
    using u rem tot q sum by (simp add: sha2_total_def)
  ultimately show ?thesis using u b2 rem h lo by (simp add: sha2_pending_def)
qed

subsection \<open>Final\<close>

text \<open>The padding the code writes after \<open>n\<close> bytes: the length field has four bytes in all four functions.\<close>

definition sha2_code_pad :: "nat \<Rightarrow> nat \<Rightarrow> nat \<Rightarrow> bytes" where
  "sha2_code_pad bs k n =
     0x80 # replicate ((if bs - k < n mod bs then 2 else 1) * bs - n mod bs - 5) 0 @ UNPACK32 (of_nat (8 * n))"

lemma sha2_final_contract:
  assumes P: "sha2_params bs sh B k" and V: "sha2_valid bs ctx" and T: "blockwise bs blk transf"
    and lim: "sha2_total ctx < 2 ^ 32"
  shows "sha2_final B sh k transf unpack words ctx =
    concat (map (\<lambda>i. unpack (absorb bs blk (ctx_h ctx)
      (sha2_pending ctx @ sha2_code_pad bs (unat k) (sha2_total ctx)) ! i)) [0..<words])"
proof -
  note p = sha2_params_facts [OF P]
  let ?l = "unat (ctx_len ctx)"
  have l: "?l < bs" and blk_len: "length (ctx_block ctx) = 2 * bs" and pl: "length (sha2_pending ctx) = ?l"
    using V by (simp_all add: sha2_valid_def sha2_pending_def)
  have mod: "sha2_total ctx mod bs = ?l"
    using sha2_pending_length [OF V] pl by simp
  define nb :: nat where "nb = (if bs - unat k < ?l then 2 else 1)"
  let ?nb = "1 + (if B - k < ctx_len ctx mod B then 1 else 0 :: u32)"
  have "unat (ctx_len ctx mod B) = ?l" using l p(1) by (simp add: unat_mod)
  then have nbw: "unat ?nb = nb" using p(1,5) by (simp add: nb_def word_less_nat_alt)
  have nbc: "nb = 1 \<or> nb = 2" by (simp add: nb_def)
  have pm: "unat (push_bit sh ?nb) = nb * bs"
    using nbw p(2,4) nbc by (subst unat_push_bit_lt) auto
  have pml: "unat (push_bit sh ?nb - ctx_len ctx) = nb * bs - ?l"
    using pm l nbc by (subst unat_sub_le) (auto simp: word_le_nat_alt)
  have pm4: "unat (push_bit sh ?nb - 4) = nb * bs - 4"
    using pm p(3) nbc by (subst unat_sub_le) (auto simp: word_le_nat_alt)
  have room: "?l + 9 \<le> nb * bs" using l p(3,6,7) by (auto simp: nb_def)
  define b1 where "b1 = overwrite ?l (replicate (nb * bs - ?l) 0) (ctx_block ctx)"
  define b2 where "b2 = b1[?l := (0x80 :: u8)]"
  define len_b where "len_b = push_bit 3 (ctx_tot_len ctx + ctx_len ctx)"
  define b3 where "b3 = overwrite (nb * bs - 4) (UNPACK32 len_b) b2"
  have u4: "length (UNPACK32 len_b) = 4" by (simp add: UNPACK32_def)
  have b1t: "take (nb * bs) b1 = sha2_pending ctx @ replicate (nb * bs - ?l) 0"
    using take_overwrite_end [of ?l "ctx_block ctx" "replicate (nb * bs - ?l) (0 :: u8)"] blk_len l room
    by (simp add: b1_def sha2_pending_def)
  have b1_len: "length b1 = 2 * bs"
    using blk_len l nbc room by (auto simp: b1_def)
  have b2t: "take (nb * bs) b2 = sha2_pending ctx @ 0x80 # replicate (nb * bs - ?l - 1) 0"
  proof -
    have "nb * bs - ?l = Suc (nb * bs - ?l - 1)" using room by simp
    then have "replicate (nb * bs - ?l) (0 :: u8) = 0 # replicate (nb * bs - ?l - 1) 0"
      by (metis replicate_Suc)
    then show ?thesis
      using b1t pl by (simp add: b2_def take_update_swap list_update_append)
  qed
  have split: "nb * bs - ?l - 1 = (nb * bs - ?l - 5) + 4" using room by simp
  have nbs2: "nb * bs \<le> 2 * bs" using nbc by auto
  have b3t: "take (nb * bs) b3 = sha2_pending ctx @ 0x80 # replicate (nb * bs - ?l - 5) 0 @ UNPACK32 len_b"
  proof -
    have "take (nb * bs) b3 = take (nb * bs - 4) b2 @ UNPACK32 len_b"
    proof -
      have four: "nb * bs - 4 + 4 = nb * bs" and in_b2: "nb * bs - 4 \<le> length b2"
        using room nbs2 b1_len unfolding b2_def length_list_update by linarith+
      show ?thesis
        using take_overwrite_end [OF in_b2, of "UNPACK32 len_b"] unfolding b3_def u4 four .
    qed
    also have "take (nb * bs - 4) b2 = take (nb * bs - 4) (take (nb * bs) b2)" by simp
    also have "\<dots> = sha2_pending ctx @ 0x80 # replicate (nb * bs - ?l - 5) 0"
      using room pl unfolding b2t split replicate_add by (simp add: take_Cons')
    finally show ?thesis by simp
  qed
  have b3_len: "length b3 = 2 * bs" using b1_len u4 nbs2 room by (simp add: b3_def b2_def)
  have len_eq: "len_b = of_nat (8 * sha2_total ctx)"
    by (simp add: len_b_def sha2_total_def push_bit_eq_mult algebra_simps)
  have "transf (ctx_h ctx) b3 ?nb = absorb bs blk (ctx_h ctx) (take (nb * bs) b3)"
    using T nbw nbc b3_len nbs2 by (auto simp: blockwise_def mult.commute)
  also have "take (nb * bs) b3 = sha2_pending ctx @ sha2_code_pad bs (unat k) (sha2_total ctx)"
    unfolding b3t sha2_code_pad_def mod len_eq by (simp add: nb_def)
  finally have T': "transf (ctx_h ctx) b3 ?nb =
      absorb bs blk (ctx_h ctx) (sha2_pending ctx @ sha2_code_pad bs (unat k) (sha2_total ctx))" .
  show ?thesis
    unfolding sha2_final_def Let_def pml pm4 b1_def [symmetric] b2_def [symmetric]
      len_b_def [symmetric] b3_def [symmetric] T' ..
qed

subsection \<open>The four algorithms keep the contract\<close>

definition sha2_zero :: "nat \<Rightarrow> 'w sha2_ctx" where
  "sha2_zero bs = \<lparr>ctx_tot_len = 0, ctx_len = 0, ctx_block = replicate (2 * bs) 0, ctx_h = []\<rparr>"

lemma sha2_stream:
  assumes P: "sha2_params bs sh B k" and T: "blockwise bs blk transf"
  shows "stream_digest bs blk ctx_h sha2_pending sha2_total (sha2_valid bs)
    (\<lambda>c d. Some (sha2_update B sh transf c d (of_nat (length d)))) (2 ^ 32) (2 ^ 32)
    (sha2_code_pad bs (unat k)) (\<lambda>h. concat (map (\<lambda>i. unpack (h ! i)) [0..<words]))
    (\<lambda>c. Some (sha2_final B sh k transf unpack words c))"
proof -
  have bs: "0 < bs" using sha2_params_facts [OF P] by simp
  show ?thesis
    by unfold_locales
      (simp_all add: bs sha2_update_contract [OF P _ T] sha2_final_contract [OF P _ T] sha2_pending_length)
qed

lemma sha2_param_instances: "sha2_params 64 6 64 9" "sha2_params 128 7 128 17"
  by (simp_all add: sha2_params_def)

interpretation sha256s: stream_digest 64 sha256_block sha256_h0 ctx_h sha2_pending sha2_total
    "sha2_valid 64" "\<lambda>c d. Some (sha256_update c d (of_nat (length d)))" "2 ^ 32" "2 ^ 32"
    "sha2_code_pad 64 9" "\<lambda>h. concat (map (\<lambda>i. UNPACK32 (h ! i)) [0..<8])" "\<lambda>c. Some (sha256_final c)"
  unfolding sha256_update_def sha256_final_def
  using sha2_stream [OF sha2_param_instances(1) sha256_transf_blockwise] by simp

interpretation sha224s: stream_digest 64 sha256_block sha224_h0 ctx_h sha2_pending sha2_total
    "sha2_valid 64" "\<lambda>c d. Some (sha224_update c d (of_nat (length d)))" "2 ^ 32" "2 ^ 32"
    "sha2_code_pad 64 9" "\<lambda>h. concat (map (\<lambda>i. UNPACK32 (h ! i)) [0..<7])" "\<lambda>c. Some (sha224_final c)"
  unfolding sha224_update_def sha224_final_def
  using sha2_stream [OF sha2_param_instances(1) sha256_transf_blockwise] by simp

interpretation sha512s: stream_digest 128 sha512_block sha512_h0 ctx_h sha2_pending sha2_total
    "sha2_valid 128" "\<lambda>c d. Some (sha512_update c d (of_nat (length d)))" "2 ^ 32" "2 ^ 32"
    "sha2_code_pad 128 17" "\<lambda>h. concat (map (\<lambda>i. UNPACK64 (h ! i)) [0..<8])" "\<lambda>c. Some (sha512_final c)"
  unfolding sha512_update_def sha512_final_def
  using sha2_stream [OF sha2_param_instances(2) sha512_transf_blockwise] by simp

interpretation sha384s: stream_digest 128 sha512_block sha384_h0 ctx_h sha2_pending sha2_total
    "sha2_valid 128" "\<lambda>c d. Some (sha384_update c d (of_nat (length d)))" "2 ^ 32" "2 ^ 32"
    "sha2_code_pad 128 17" "\<lambda>h. concat (map (\<lambda>i. UNPACK64 (h ! i)) [0..<6])" "\<lambda>c. Some (sha384_final c)"
  unfolding sha384_update_def sha384_final_def
  using sha2_stream [OF sha2_param_instances(2) sha512_transf_blockwise] by simp

end
