(* ===== verification/Sha2Constants.thy ===== *)
theory Sha2Constants
  imports Sha2 Complex_Main
begin

text \<open>
  The constants of SHA-2 as FIPS 180-4 defines them, from the square and cube roots of the first primes,
  and the proof that the tables of sha2.c hold them: the integer part of \<open>root n p * 2 ^ k\<close> is the number
  whose \<open>n\<close>-th power is the last one below \<open>p * 2 ^ (n * k)\<close>, which is checked on integers.
\<close>

subsection \<open>The standard\<close>

definition is_prime :: "nat \<Rightarrow> bool" where
  "is_prime p \<longleftrightarrow> 1 < p \<and> (\<forall>d \<in> {2..<p}. \<not> d dvd p)"

definition fips_primes :: "nat list" where
  "fips_primes = filter is_prime [2..<410]"

text \<open>The first bits of the fractional part of a root, as many as the word has.\<close>

definition fraction_bits :: "nat \<Rightarrow> nat \<Rightarrow> 'w::len word" where
  "fraction_bits n p = word_of_int \<lfloor>frac (root n (real p)) * 2 ^ LENGTH('w)\<rfloor>"

definition fips256_K :: "u32 list" where
  "fips256_K = map (fraction_bits 3) (take 64 fips_primes)"
definition fips512_K :: "u64 list" where
  "fips512_K = map (fraction_bits 3) (take 80 fips_primes)"
definition fips256_H0 :: "u32 list" where
  "fips256_H0 = map (fraction_bits 2) (take 8 fips_primes)"
definition fips512_H0 :: "u64 list" where
  "fips512_H0 = map (fraction_bits 2) (take 8 fips_primes)"
definition fips384_H0 :: "u64 list" where
  "fips384_H0 = map (fraction_bits 2) (take 8 (drop 8 fips_primes))"
text \<open>SHA-224 takes the second 32 bits of the fractional parts.\<close>
definition fips224_H0 :: "u32 list" where
  "fips224_H0 = map (\<lambda>p. ucast (fraction_bits 2 p :: u64)) (take 8 (drop 8 fips_primes))"

subsection \<open>The primes\<close>

text \<open>Below 22^2 a number with no divisor among the primes below 22 is prime.\<close>

lemma small_factor:
  assumes "2 \<le> e" and "e < 22"
  shows "\<exists>q \<in> set [2, 3, 5, 7, 11, 13, 17, 19]. q dvd (e :: nat)"
proof -
  have "list_all (\<lambda>e. list_ex (\<lambda>q. q dvd e) [2, 3, 5, 7, 11, 13, 17, 19]) [2..<22 :: nat]" by simp
  then have "\<forall>e \<in> {2..<22 :: nat}. \<exists>q \<in> set [2, 3, 5, 7, 11, 13, 17, 19]. q dvd e"
    by (simp only: list_all_iff list_ex_iff set_upt)
  then show ?thesis by (rule bspec) (use assms in simp)
qed

lemma prime_below:
  assumes "p < 484"
  shows "is_prime p \<longleftrightarrow> 1 < p \<and> list_all (\<lambda>d. d dvd p \<longrightarrow> p \<le> d) [2, 3, 5, 7, 11, 13, 17, 19]"
proof
  assume "is_prime p"
  then have p: "1 < p" "\<And>d. 2 \<le> d \<Longrightarrow> d dvd p \<Longrightarrow> p \<le> d" by (force simp: is_prime_def not_le)+
  then show "1 < p \<and> list_all (\<lambda>d. d dvd p \<longrightarrow> p \<le> d) [2, 3, 5, 7, 11, 13, 17, 19]" by simp
next
  assume p: "1 < p \<and> list_all (\<lambda>d. d dvd p \<longrightarrow> p \<le> d) [2, 3, 5, 7, 11, 13, 17, 19]"
  have "\<not> d dvd p" if d: "2 \<le> d" "d < p" for d
  proof
    assume "d dvd p"
    then obtain k where k: "p = d * k" by (rule dvdE)
    have "k \<noteq> 0" "k \<noteq> 1" using d p k by (auto intro: gr0I)
    then have "2 \<le> k" by simp
    have "\<not> (22 \<le> d \<and> 22 \<le> k)" using assms k mult_le_mono [of 22 d 22 k] by auto
    moreover have "k dvd p" "k < p" using k d \<open>2 \<le> k\<close> by simp_all
    ultimately obtain e where e: "2 \<le> e" "e < 22" "e dvd p" "e < p"
      using d \<open>d dvd p\<close> \<open>2 \<le> k\<close> by (metis not_le)
    obtain q where q: "q \<in> set [2, 3, 5, 7, 11, 13, 17, 19]" "q dvd e" using small_factor [OF e(1,2)] by blast
    have "q \<le> e" using q(2) e(1) by (simp add: dvd_imp_le)
    moreover have "p \<le> q" using p q(1) dvd_trans [OF q(2) e(3)] unfolding list_all_iff by blast
    ultimately show False using e(4) by simp
  qed
  then show "is_prime p" using p by (simp add: is_prime_def)
qed

lemma fips_primes_list:
  "fips_primes = [2, 3, 5, 7, 11, 13, 17, 19, 23, 29, 31, 37, 41, 43, 47, 53, 59, 61, 67, 71, 73, 79, 83, 89, 97,
     101, 103, 107, 109, 113, 127, 131, 137, 139, 149, 151, 157, 163, 167, 173, 179, 181, 191, 193, 197, 199, 211,
     223, 227, 229, 233, 239, 241, 251, 257, 263, 269, 271, 277, 281, 283, 293, 307, 311, 313, 317, 331, 337, 347,
     349, 353, 359, 367, 373, 379, 383, 389, 397, 401, 409]"
  by (simp add: fips_primes_def prime_below)

subsection \<open>Roots on integers\<close>

text \<open>\<open>root_digits n k p c\<close>: \<open>c\<close> is the integer part of \<open>root n p * 2 ^ k\<close>.\<close>

definition root_digits :: "nat \<Rightarrow> nat \<Rightarrow> nat \<Rightarrow> int \<Rightarrow> bool" where
  "root_digits n k p c \<longleftrightarrow> 0 \<le> c \<and> c ^ n \<le> int p * 2 ^ (n * k) \<and> int p * 2 ^ (n * k) < (c + 1) ^ n"

lemma root_digits_floor:
  assumes "0 < n" and "root_digits n k p c"
  shows "\<lfloor>root n (real p) * 2 ^ k\<rfloor> = c"
proof -
  let ?x = "root n (real p) * 2 ^ k"
  have x: "?x ^ n = real p * 2 ^ (n * k)" "0 \<le> ?x"
    using assms(1) by (simp_all add: power_mult_distrib power_mult [symmetric] mult.commute)
  have c: "0 \<le> c" and lo: "c ^ n \<le> int p * 2 ^ (n * k)" and hi: "int p * 2 ^ (n * k) < (c + 1) ^ n"
    using assms(2) by (simp_all add: root_digits_def)
  from lo have "real_of_int (c ^ n) \<le> real_of_int (int p * 2 ^ (n * k))" by (rule of_int_le_iff [THEN iffD2])
  then have "real_of_int c ^ n \<le> ?x ^ n" using x(1) by simp
  then have "real_of_int c \<le> ?x" using assms(1) x(2) by (simp add: power_mono_iff c)
  moreover from hi have "real_of_int (int p * 2 ^ (n * k)) < real_of_int ((c + 1) ^ n)" by (rule of_int_less_iff [THEN iffD2])
  then have "?x ^ n < (real_of_int c + 1) ^ n" using x(1) by simp
  then have "?x < real_of_int c + 1" by (rule power_less_imp_less_base) (use c in simp)
  ultimately show ?thesis by (simp add: floor_eq_iff)
qed

lemma fraction_bits_floor:
  "fraction_bits n p = (word_of_int \<lfloor>root n (real p) * 2 ^ LENGTH('w)\<rfloor> :: 'w::len word)"
proof -
  let ?r = "root n (real p)"
  have "frac ?r * 2 ^ LENGTH('w) = ?r * 2 ^ LENGTH('w) - real_of_int (\<lfloor>?r\<rfloor> * 2 ^ LENGTH('w))"
    by (simp add: frac_def algebra_simps)
  then have "\<lfloor>frac ?r * 2 ^ LENGTH('w)\<rfloor> = \<lfloor>?r * 2 ^ LENGTH('w)\<rfloor> - \<lfloor>?r\<rfloor> * 2 ^ LENGTH('w)"
    by (simp only: floor_diff_of_int)
  then show ?thesis
    by (simp add: fraction_bits_def word_of_int_eq_iff take_bit_eq_mod mod_diff_right_eq)
qed

text \<open>
  A word of a table holds the digits, with the integer part of the root before it. All the cube roots
  of the first 80 primes and the square roots of the first 16 are below 8.
\<close>

definition int_root :: "nat \<Rightarrow> nat \<Rightarrow> int" where
  "int_root n p = (if p < 2 ^ n then 1 else if p < 3 ^ n then 2 else if p < 4 ^ n then 3 else if p < 5 ^ n then 4
     else if p < 6 ^ n then 5 else if p < 7 ^ n then 6 else 7)"

definition table_word :: "nat \<Rightarrow> nat \<Rightarrow> nat \<Rightarrow> int \<Rightarrow> bool" where
  "table_word n k p w \<longleftrightarrow> root_digits n k p (int_root n p * 2 ^ k + w)"

lemma table_word_bits:
  assumes "0 < n" and "table_word n LENGTH('w) p (uint w)"
  shows "fraction_bits n p = (w :: 'w::len word)"
  using root_digits_floor [OF assms(1) assms(2) [unfolded table_word_def]]
  by (simp add: fraction_bits_floor wi_hom_add [symmetric])

lemma tables_hold_roots:
  assumes "list_all2 (\<lambda>p w. table_word n LENGTH('w) p (uint w)) ps (ws :: 'w::len word list)" and "0 < n"
  shows "map (fraction_bits n) ps = ws"
  using assms(1) by (induction rule: list_all2_induct) (simp_all add: table_word_bits [OF assms(2)])

lemma fips256_K_table [code]: "fips256_K = sha256_k"
  unfolding fips256_K_def
  by (rule tables_hold_roots) (simp_all add: fips_primes_list sha256_k_def table_word_def int_root_def root_digits_def)

lemma fips512_K_table [code]: "fips512_K = sha512_k"
  unfolding fips512_K_def
  by (rule tables_hold_roots) (simp_all add: fips_primes_list sha512_k_def table_word_def int_root_def root_digits_def)

lemma fips256_H0_table [code]: "fips256_H0 = sha256_h0"
  unfolding fips256_H0_def
  by (rule tables_hold_roots) (simp_all add: fips_primes_list sha256_h0_def table_word_def int_root_def root_digits_def)

lemma fips512_H0_table [code]: "fips512_H0 = sha512_h0"
  unfolding fips512_H0_def
  by (rule tables_hold_roots) (simp_all add: fips_primes_list sha512_h0_def table_word_def int_root_def root_digits_def)

lemma fips384_H0_table [code]: "fips384_H0 = sha384_h0"
  unfolding fips384_H0_def
  by (rule tables_hold_roots) (simp_all add: fips_primes_list sha384_h0_def table_word_def int_root_def root_digits_def)

lemma fips224_H0_table [code]: "fips224_H0 = sha224_h0"
proof -
  have "fips224_H0 = map ucast fips384_H0" by (simp add: fips224_H0_def fips384_H0_def)
  moreover have "map ucast sha384_h0 = sha224_h0" by code_simp
  ultimately show ?thesis by (simp add: fips384_H0_table)
qed

end
