(* ===== verification/Sha2Spec.thy ===== *)
theory Sha2Spec
  imports Sha2Stream Sha2Constants
begin

text \<open>
  SHA-2 as FIPS 180-4 states it (message schedule by recurrence, rotations as \<open>word_rotr\<close>, working
  variables as an eight-tuple, padding with a 64 or 128 bit length, the constants of Sha2Constants) and the theorems that the C
  functions compute it, in both forms of their transforms, on every message whose bit length fits
  the 32 bits the code writes.
\<close>

subsection \<open>The standard\<close>

function fips_W :: "('w::len word \<Rightarrow> 'w word) \<Rightarrow> ('w word \<Rightarrow> 'w word) \<Rightarrow> (nat \<Rightarrow> 'w word) \<Rightarrow> nat \<Rightarrow> 'w word" where
  "fips_W s0 s1 M t =
     (if t < 16 then M t
      else s1 (fips_W s0 s1 M (t - 2)) + fips_W s0 s1 M (t - 7) + s0 (fips_W s0 s1 M (t - 15)) +
        fips_W s0 s1 M (t - 16))"
  by pat_completeness auto
termination
  by (relation "measure (\<lambda>(s0, s1, M, t). t)") auto

declare fips_W.simps [simp del]

type_synonym 'w hash8 = "'w \<times> 'w \<times> 'w \<times> 'w \<times> 'w \<times> 'w \<times> 'w \<times> 'w"

fun fips_round :: "('w::len word \<Rightarrow> 'w word) \<Rightarrow> ('w word \<Rightarrow> 'w word) \<Rightarrow> 'w word \<Rightarrow> 'w word \<Rightarrow>
    'w word hash8 \<Rightarrow> 'w word hash8" where
  "fips_round S0 S1 K W (a, b, c, d, e, f, g, h) =
     (let T1 = h + S1 e + ((e AND f) XOR (NOT e AND g)) + K + W;
          T2 = S0 a + ((a AND b) XOR (a AND c) XOR (b AND c))
      in (T1 + T2, a, b, c, d + T1, e, f, g))"

fun list8 :: "'w hash8 \<Rightarrow> 'w list" where
  "list8 (a, b, c, d, e, f, g, h) = [a, b, c, d, e, f, g, h]"

definition tuple8 :: "'w list \<Rightarrow> 'w hash8" where
  "tuple8 x = (x ! 0, x ! 1, x ! 2, x ! 3, x ! 4, x ! 5, x ! 6, x ! 7)"

definition fips256_sigma0 :: "u32 \<Rightarrow> u32" where
  "fips256_sigma0 x = word_rotr 7 x XOR word_rotr 18 x XOR drop_bit 3 x"
definition fips256_sigma1 :: "u32 \<Rightarrow> u32" where
  "fips256_sigma1 x = word_rotr 17 x XOR word_rotr 19 x XOR drop_bit 10 x"
definition fips256_Sigma0 :: "u32 \<Rightarrow> u32" where
  "fips256_Sigma0 x = word_rotr 2 x XOR word_rotr 13 x XOR word_rotr 22 x"
definition fips256_Sigma1 :: "u32 \<Rightarrow> u32" where
  "fips256_Sigma1 x = word_rotr 6 x XOR word_rotr 11 x XOR word_rotr 25 x"
definition fips512_sigma0 :: "u64 \<Rightarrow> u64" where
  "fips512_sigma0 x = word_rotr 1 x XOR word_rotr 8 x XOR drop_bit 7 x"
definition fips512_sigma1 :: "u64 \<Rightarrow> u64" where
  "fips512_sigma1 x = word_rotr 19 x XOR word_rotr 61 x XOR drop_bit 6 x"
definition fips512_Sigma0 :: "u64 \<Rightarrow> u64" where
  "fips512_Sigma0 x = word_rotr 28 x XOR word_rotr 34 x XOR word_rotr 39 x"
definition fips512_Sigma1 :: "u64 \<Rightarrow> u64" where
  "fips512_Sigma1 x = word_rotr 14 x XOR word_rotr 18 x XOR word_rotr 41 x"

text \<open>The big-endian value of a byte string, for the words of a block, and its inverse for the length field.\<close>

definition be_value :: "bytes \<Rightarrow> nat" where
  "be_value bs = foldl (\<lambda>n b. 256 * n + unat b) 0 bs"

definition be_field :: "nat \<Rightarrow> nat \<Rightarrow> bytes" where
  "be_field w n = map (\<lambda>i. of_nat (n div 256 ^ (w - 1 - i))) [0..<w]"

definition fips_word :: "bytes \<Rightarrow> nat \<Rightarrow> nat \<Rightarrow> 'w::len word" where
  "fips_word blk w t = of_nat (be_value (take w (drop (w * t) blk)))"

definition fips256_compress :: "u32 list \<Rightarrow> bytes \<Rightarrow> u32 list" where
  "fips256_compress H blk =
     map2 (+) H (list8 (foldl (\<lambda>s t. fips_round fips256_Sigma0 fips256_Sigma1 (fips256_K ! t)
         (fips_W fips256_sigma0 fips256_sigma1 (fips_word blk 4) t) s) (tuple8 H) [0..<64]))"

definition fips512_compress :: "u64 list \<Rightarrow> bytes \<Rightarrow> u64 list" where
  "fips512_compress H blk =
     map2 (+) H (list8 (foldl (\<lambda>s t. fips_round fips512_Sigma0 fips512_Sigma1 (fips512_K ! t)
         (fips_W fips512_sigma0 fips512_sigma1 (fips_word blk 8) t) s) (tuple8 H) [0..<80]))"

text \<open>
  The least number of zeros that fills the last block, then the length field of \<open>lw\<close> bytes, which holds
  the number \<open>l\<close>; in the standard that is the length of the message in bits.
\<close>

definition fips_pad_field :: "nat \<Rightarrow> nat \<Rightarrow> nat \<Rightarrow> nat \<Rightarrow> bytes" where
  "fips_pad_field bs lw n l = 0x80 # replicate ((2 * bs - 1 - lw - n mod bs) mod bs) 0 @ be_field lw l"

definition fips_pad :: "nat \<Rightarrow> nat \<Rightarrow> nat \<Rightarrow> bytes" where
  "fips_pad bs lw n = fips_pad_field bs lw n (8 * n)"

definition fips_hash ::
  "nat \<Rightarrow> ('w::len word list \<Rightarrow> bytes \<Rightarrow> 'w word list) \<Rightarrow> nat \<Rightarrow> 'w word list \<Rightarrow> nat \<Rightarrow> bytes \<Rightarrow> bytes" where
  "fips_hash bs compress ww H0 words padded =
     concat (map (\<lambda>x. be_field ww (unat x)) (take words (absorb bs compress H0 padded)))"

definition fips_digest :: "nat \<Rightarrow> nat \<Rightarrow> ('w::len word list \<Rightarrow> bytes \<Rightarrow> 'w word list) \<Rightarrow> nat \<Rightarrow> 'w word list \<Rightarrow> nat \<Rightarrow> bytes \<Rightarrow> bytes" where
  "fips_digest bs lw compress ww H0 words msg =
     fips_hash bs compress ww H0 words (msg @ fips_pad bs lw (length msg))"

subsection \<open>Words and rotations\<close>

lemma ROTR_is_rotation:
  assumes "0 < n" and "n < LENGTH('a)"
  shows "ROTR (x :: 'a::len word) n = word_rotr n x"
proof (rule bit_word_eqI)
  fix k assume "k < LENGTH('a)"
  with assms show "bit (ROTR x n) k = bit (word_rotr n x) k"
    by (auto simp: ROTR_def bit_word_rotr_iff bit_simps mod_if add.commute dest: bit_imp_le_length)
qed

lemma sha2_functions_are_fips [simp]:
  "SHA256_F1 = fips256_Sigma0" "SHA256_F2 = fips256_Sigma1" "SHA256_F3 = fips256_sigma0" "SHA256_F4 = fips256_sigma1"
  "SHA512_F1 = fips512_Sigma0" "SHA512_F2 = fips512_Sigma1" "SHA512_F3 = fips512_sigma0" "SHA512_F4 = fips512_sigma1"
  by (simp_all add: fun_eq_iff SHA256_F1_def SHA256_F2_def SHA256_F3_def SHA256_F4_def
      SHA512_F1_def SHA512_F2_def SHA512_F3_def SHA512_F4_def SHFR_def ROTR_is_rotation
      fips256_sigma0_def fips256_sigma1_def fips256_Sigma0_def fips256_Sigma1_def
      fips512_sigma0_def fips512_sigma1_def fips512_Sigma0_def fips512_Sigma1_def)


lemma of_nat_snoc_byte:
  "(of_nat (256 * m + unat (b :: u8)) :: 'w::len word) = push_bit 8 (of_nat m) OR ucast b"
proof -
  have "int (256 * m + unat b) = concat_bit 8 (uint b) (int m)"
    using take_bit_int_eq_self [of "uint b" 8] unsigned_less [of b, where ?'a = int]
    by (simp add: concat_bit_eq push_bit_eq_mult)
  then have "(of_nat (256 * m + unat b) :: 'w word) = word_of_int (concat_bit 8 (uint b) (int m))"
    by (metis of_int_of_nat_eq)
  also have "\<dots> = push_bit 8 (of_nat m) OR ucast b"
    by (rule bit_word_eqI) (auto simp: bit_simps bit_concat_bit_iff dest: bit_imp_le_length)
  finally show ?thesis .
qed

lemma be_value_snoc: "be_value (bs @ [b]) = 256 * be_value bs + unat b"
  by (simp add: be_value_def)

lemma be_value_Nil: "be_value [] = 0"
  by (simp add: be_value_def)

lemma take_nth: "n + k \<le> length xs \<Longrightarrow> take k (drop n xs) = map (\<lambda>i. xs ! (n + i)) [0..<k]"
  by (rule nth_equalityI) auto

lemma PACK32_is_fips:
  assumes "i + 4 \<le> length str"
  shows "PACK32 str i = of_nat (be_value (take 4 (drop i str)))"
proof -
  have t: "take 4 (drop i str) = ((([] @ [str ! i]) @ [str ! (i + 1)]) @ [str ! (i + 2)]) @ [str ! (i + 3)]"
    using assms by (simp add: take_nth upt_rec eval_nat_numeral)
  show ?thesis
    unfolding t be_value_snoc of_nat_snoc_byte be_value_Nil
    by (simp add: PACK32_def push_bit_or ac_simps)
qed

lemma PACK64_is_fips:
  assumes "i + 8 \<le> length str"
  shows "PACK64 str i = of_nat (be_value (take 8 (drop i str)))"
proof -
  have t: "take 8 (drop i str) = ((((((([] @ [str ! i]) @ [str ! (i + 1)]) @ [str ! (i + 2)]) @ [str ! (i + 3)])
      @ [str ! (i + 4)]) @ [str ! (i + 5)]) @ [str ! (i + 6)]) @ [str ! (i + 7)]"
    using assms by (simp add: take_nth upt_rec eval_nat_numeral)
  show ?thesis
    unfolding t be_value_snoc of_nat_snoc_byte be_value_Nil
    by (simp add: PACK64_def push_bit_or ac_simps)
qed

lemma ucast_drop_bit: "(ucast (drop_bit k (x :: 'a::len word)) :: 'b::len word) = of_nat (unat x div 2 ^ k)"
proof -
  have "unat (drop_bit k x) = unat x div 2 ^ k"
    unfolding unsigned_drop_bit_eq by (simp add: drop_bit_eq_div take_bit_nat_eq_self)
  then show ?thesis by (metis of_nat_unat)
qed

lemma UNPACK32_is_fips: "UNPACK32 x = be_field 4 (unat x)"
  using ucast_drop_bit [of 0 x, where ?'b = 8] by (simp add: UNPACK32_def be_field_def ucast_drop_bit upt_rec)

lemma UNPACK64_is_fips: "UNPACK64 x = be_field 8 (unat x)"
  using ucast_drop_bit [of 0 x, where ?'b = 8] by (simp add: UNPACK64_def be_field_def ucast_drop_bit upt_rec)

subsection \<open>The rolled transforms\<close>

text \<open>Filling \<open>w\<close> from index 16 computes the recurrence.\<close>

lemma schedule_is_fips:
  assumes "\<And>w i. f w i = s1 (w ! (i - 2)) + w ! (i - 7) + s0 (w ! (i - 15)) + w ! (i - 16)"
    and "16 \<le> n"
  shows "foldl (\<lambda>w j. w @ [f w j]) (map M [0..<16]) [16..<n] = map (fips_W s0 s1 M) [0..<n]"
  using assms(2)
proof (induction n rule: dec_induct)
  case base
  then show ?case by (simp add: fips_W.simps)
next
  case (step n)
  then show ?case by (simp add: assms(1) fips_W.simps [of s0 s1 M n])
qed

lemma list8_round:
  "wv = list8 s \<Longrightarrow>
   [wv ! 7 + S1 (wv ! 4) + CH (wv ! 4) (wv ! 5) (wv ! 6) + K + W + (S0 (wv ! 0) + MAJ (wv ! 0) (wv ! 1) (wv ! 2)),
    wv ! 0, wv ! 1, wv ! 2,
    wv ! 3 + (wv ! 7 + S1 (wv ! 4) + CH (wv ! 4) (wv ! 5) (wv ! 6) + K + W), wv ! 4, wv ! 5, wv ! 6] =
   list8 (fips_round S0 S1 K W s)"
  by (cases s rule: list8.cases) (simp add: Let_def CH_def MAJ_def)

lemma foldl_list8:
  assumes "\<And>s t. t \<in> set ts \<Longrightarrow> g (list8 s) t = list8 (f s t)"
  shows "foldl g (list8 s) ts = list8 (foldl f s ts)"
  using assms by (induction ts arbitrary: s) auto

lemma list8_tuple8: "map (\<lambda>j. h ! j) [0..<8] = list8 (tuple8 h)"
  by (simp add: tuple8_def upt_rec eval_nat_numeral)

lemma map2_list8: "length h = 8 \<Longrightarrow> map (\<lambda>j. h ! j + wv ! j) [0..<8] = map2 (+) h (list8 (tuple8 wv))"
  unfolding list8_tuple8 [symmetric] by (rule nth_equalityI) simp_all

lemma list8_length [simp]: "length (list8 s) = 8"
  by (cases s rule: list8.cases) simp

lemma tuple8_list8 [simp]: "tuple8 (list8 s) = s"
  by (cases s rule: list8.cases) (simp add: tuple8_def)

lemmas fips_tables = fips256_K_table fips512_K_table fips256_H0_table fips224_H0_table fips512_H0_table fips384_H0_table

lemma sha256_block_is_fips:
  assumes "length h = 8" and "length m = 64"
  shows "sha256_block h m = fips256_compress h m"
proof -
  have "map (\<lambda>j. PACK32 m (4 * j)) [0..<16] = map (fips_word m 4) [0..<16]"
    using assms(2) by (simp add: fips_word_def PACK32_is_fips)
  then have w: "sha256_schedule m = map (fips_W fips256_sigma0 fips256_sigma1 (fips_word m 4)) [0..<64]"
    unfolding sha256_schedule_def by (simp only: schedule_is_fips [where n = 64] SHA256_SCR_def sha2_functions_are_fips)
  let ?f = "\<lambda>s t. fips_round fips256_Sigma0 fips256_Sigma1 (sha256_k ! t)
      (fips_W fips256_sigma0 fips256_sigma1 (fips_word m 4) t) s"
  have round: "sha256_round (sha256_schedule m) (list8 s) t = list8 (?f s t)" if "t \<in> set [0..<64]" for s t
    using that by (simp add: w sha256_round_def Let_def list8_round [OF refl, of s, symmetric])
  have "foldl (sha256_round (sha256_schedule m)) (list8 (tuple8 h)) [0..<64] = list8 (foldl ?f (tuple8 h) [0..<64])"
    by (rule foldl_list8) (rule round)
  then show ?thesis
    unfolding sha256_block_def Let_def fips256_compress_def fips_tables map2_list8 [OF assms(1)] list8_tuple8 [of h] by simp
qed

lemma sha512_block_is_fips:
  assumes "length h = 8" and "length m = 128"
  shows "sha512_block h m = fips512_compress h m"
proof -
  have "map (\<lambda>j. PACK64 m (8 * j)) [0..<16] = map (fips_word m 8) [0..<16]"
    using assms(2) by (simp add: fips_word_def PACK64_is_fips)
  then have w: "sha512_schedule m = map (fips_W fips512_sigma0 fips512_sigma1 (fips_word m 8)) [0..<80]"
    unfolding sha512_schedule_def by (simp only: schedule_is_fips [where n = 80] SHA512_SCR_def sha2_functions_are_fips)
  let ?f = "\<lambda>s t. fips_round fips512_Sigma0 fips512_Sigma1 (sha512_k ! t)
      (fips_W fips512_sigma0 fips512_sigma1 (fips_word m 8) t) s"
  have round: "sha512_round (sha512_schedule m) (list8 s) t = list8 (?f s t)" if "t \<in> set [0..<80]" for s t
    using that by (simp add: w sha512_round_def Let_def list8_round [OF refl, of s, symmetric])
  have "foldl (sha512_round (sha512_schedule m)) (list8 (tuple8 h)) [0..<80] = list8 (foldl ?f (tuple8 h) [0..<80])"
    by (rule foldl_list8) (rule round)
  then show ?thesis
    unfolding sha512_block_def Let_def fips512_compress_def fips_tables map2_list8 [OF assms(1)] list8_tuple8 [of h] by simp
qed

subsection \<open>The unrolled transforms\<close>

text \<open>
  The registers the rolled loop moves by hand are found by the unrolled one through the argument
  list of the call: the invariant reads \<open>wv\<close> in the order of the next call.
\<close>

definition read_args :: "'w list \<Rightarrow> exp_args \<Rightarrow> 'w list" where
  "read_args wv args = map ((!) wv) (list8 args)"

lemma list_of_8:
  assumes "length xs = 8"
  obtains a b c d e f g h where "xs = [a, b, c, d, e, f, g, h]"
  using assms by (auto simp: numeral_eq_Suc length_Suc_conv)

lemma less_8_cases: "r < (8 :: nat) \<Longrightarrow> r \<in> {0, 1, 2, 3, 4, 5, 6, 7}"
  by auto

lemma SHA256_EXP_round:
  assumes "length wv = 8" and "r < 8"
  shows "read_args (SHA256_EXP w wv (exp_calls ! r) j) (exp_calls ! (Suc r mod 8)) =
    sha256_round w (read_args wv (exp_calls ! r)) j"
proof -
  obtain a b c d e f g h where wv: "wv = [a, b, c, d, e, f, g, h]"
    using assms(1) by (rule list_of_8)
  show ?thesis
    using less_8_cases [OF assms(2)]
    by (elim insertE) (simp_all add: wv read_args_def exp_calls_def SHA256_EXP_def sha256_round_def Let_def)
qed

lemma SHA512_EXP_round:
  assumes "length wv = 8" and "r < 8"
  shows "read_args (SHA512_EXP w wv (exp_calls ! r) j) (exp_calls ! (Suc r mod 8)) =
    sha512_round w (read_args wv (exp_calls ! r)) j"
proof -
  obtain a b c d e f g h where wv: "wv = [a, b, c, d, e, f, g, h]"
    using assms(1) by (rule list_of_8)
  show ?thesis
    using less_8_cases [OF assms(2)]
    by (elim insertE) (simp_all add: wv read_args_def exp_calls_def SHA512_EXP_def sha512_round_def Let_def)
qed

lemma EXP_length [simp]:
  "length (SHA256_EXP w wv args j) = length wv" "length (SHA512_EXP w2 wv2 args j) = length wv2"
  by (simp_all add: SHA256_EXP_def SHA512_EXP_def Let_def split: prod.splits)

lemma read_args_0: "length wv = 8 \<Longrightarrow> read_args wv (exp_calls ! 0) = wv"
  by (erule list_of_8) (simp add: read_args_def exp_calls_def)

lemma exp_fold256:
  assumes "length wv = 8"
  shows "length (foldl (\<lambda>wv j. SHA256_EXP w wv (exp_calls ! (j mod 8)) j) wv [0..<n]) = 8 \<and>
    read_args (foldl (\<lambda>wv j. SHA256_EXP w wv (exp_calls ! (j mod 8)) j) wv [0..<n]) (exp_calls ! (n mod 8)) =
      foldl (sha256_round w) wv [0..<n]"
proof (induction n)
  case 0
  then show ?case using assms by (simp add: read_args_0)
next
  case (Suc n)
  have "Suc n mod 8 = Suc (n mod 8) mod 8" by (simp only: mod_Suc_eq)
  with Suc show ?case
    using SHA256_EXP_round [of "foldl (\<lambda>wv j. SHA256_EXP w wv (exp_calls ! (j mod 8)) j) wv [0..<n]" "n mod 8" w n]
    by simp
qed

lemma exp_fold512:
  assumes "length wv = 8"
  shows "length (foldl (\<lambda>wv j. SHA512_EXP w wv (exp_calls ! (j mod 8)) j) wv [0..<n]) = 8 \<and>
    read_args (foldl (\<lambda>wv j. SHA512_EXP w wv (exp_calls ! (j mod 8)) j) wv [0..<n]) (exp_calls ! (n mod 8)) =
      foldl (sha512_round w) wv [0..<n]"
proof (induction n)
  case 0
  then show ?case using assms by (simp add: read_args_0)
next
  case (Suc n)
  have "Suc n mod 8 = Suc (n mod 8) mod 8" by (simp only: mod_Suc_eq)
  with Suc show ?case
    using SHA512_EXP_round [of "foldl (\<lambda>wv j. SHA512_EXP w wv (exp_calls ! (j mod 8)) j) wv [0..<n]" "n mod 8" w n]
    by simp
qed

lemma exp_fold256_whole:
  "length wv = 8 \<Longrightarrow> n mod 8 = 0 \<Longrightarrow>
    foldl (\<lambda>wv j. SHA256_EXP w wv (exp_calls ! (j mod 8)) j) wv [0..<n] = foldl (sha256_round w) wv [0..<n]"
proof -
  assume len: "length wv = 8" and n: "n mod 8 = 0"
  note f = exp_fold256 [OF len, of w n]
  show ?thesis using conjunct2 [OF f] unfolding n read_args_0 [OF conjunct1 [OF f]] .
qed

lemma exp_fold512_whole:
  "length wv = 8 \<Longrightarrow> n mod 8 = 0 \<Longrightarrow>
    foldl (\<lambda>wv j. SHA512_EXP w wv (exp_calls ! (j mod 8)) j) wv [0..<n] = foldl (sha512_round w) wv [0..<n]"
proof -
  assume len: "length wv = 8" and n: "n mod 8 = 0"
  note f = exp_fold512 [OF len, of w n]
  show ?thesis using conjunct2 [OF f] unfolding n read_args_0 [OF conjunct1 [OF f]] .
qed

lemma map_upt_8: "map f [0..<8] = [f 0, f 1, f 2, f 3, f 4, f 5, f 6, f 7]"
  by (simp add: upt_rec eval_nat_numeral)

lemma sha512_exp_loop_fold:
  assumes "j mod 8 = 0" and "j < 80"
  shows "sha512_exp_loop w wv j = foldl (\<lambda>wv j. SHA512_EXP w wv (exp_calls ! (j mod 8)) j) wv [j..<80]"
  using assms
proof (induction w wv j rule: sha512_exp_loop.induct)
  case (1 w wv j)
  let ?f = "\<lambda>wv j. SHA512_EXP w wv (exp_calls ! (j mod 8)) j"
  have eight: "sha512_exp_eight w wv j = foldl ?f wv [j..<j + 8]"
  proof -
    have "(j + i) mod 8 = i" if "i < 8" for i
      using that "1.prems"(1) by (simp add: mod_add_left_eq [of j 8 i, symmetric])
    then have "foldl (\<lambda>wv i. ?f wv (j + i)) wv [0..<8] = sha512_exp_eight w wv j"
      unfolding sha512_exp_eight_def by (intro foldl_cong) simp_all
    moreover have "[j..<j + 8] = map (\<lambda>i. j + i) [0..<8]"
      using map_add_upt [of j 8] by (simp add: add.commute)
    ultimately show ?thesis by (simp only: foldl_map)
  qed
  have le: "j + 8 \<le> 80" using "1.prems" by presburger
  then have split: "[j..<80] = [j..<j + 8] @ [j + 8..<80]"
    by (metis le_add1 le_add_diff_inverse upt_add_eq_append)
  show ?case
  proof (cases "j + 8 < 80")
    case True
    with "1.IH" [OF refl refl] "1.prems" show ?thesis
      by (simp add: sha512_exp_loop.simps [of w wv j] eight split Let_def)
  next
    case False
    with le have "j + 8 = 80" by simp
    then show ?thesis unfolding sha512_exp_loop.simps [of w wv j] eight Let_def by simp
  qed
qed

lemmas sha512_exp_fold = sha512_exp_loop_fold [of 0, simplified]

text \<open>
  The unrolled transforms of \<open>sha2.c\<close> (\<open>SHA256_EXP\<close> and \<open>SHA512_EXP\<close> with rotating argument
  lists, compiled under \<open>UNROLL_LOOPS\<close>) compute the same function of a chaining value and a block
  as the loops.
\<close>
theorem sha2_unrolled_equals_rolled:
  "sha256_block_unrolled h256 m = sha256_block h256 m \<and> sha512_block_unrolled h512 m = sha512_block h512 m"
proof
  let ?v = "[h256 ! 0, h256 ! 1, h256 ! 2, h256 ! 3, h256 ! 4, h256 ! 5, h256 ! 6, h256 ! 7]"
  let ?wv = "foldl (\<lambda>wv j. SHA256_EXP (sha256_schedule m) wv (exp_calls ! (j mod 8)) j) ?v [0..<64]"
  have "length ?v = 8" by simp
  then have "?wv = foldl (sha256_round (sha256_schedule m)) ?v [0..<64]" by (rule exp_fold256_whole) simp
  then show "sha256_block_unrolled h256 m = sha256_block h256 m"
    by (simp only: sha256_block_unrolled_def sha256_block_def Let_def map_upt_8)
next
  let ?v = "[h512 ! 0, h512 ! 1, h512 ! 2, h512 ! 3, h512 ! 4, h512 ! 5, h512 ! 6, h512 ! 7]"
  let ?wv = "foldl (\<lambda>wv j. SHA512_EXP (sha512_schedule m) wv (exp_calls ! (j mod 8)) j) ?v [0..<80]"
  have "length ?v = 8" by simp
  then have "?wv = foldl (sha512_round (sha512_schedule m)) ?v [0..<80]" by (rule exp_fold512_whole) simp
  then show "sha512_block_unrolled h512 m = sha512_block h512 m"
    by (simp only: sha512_block_unrolled_def sha512_block_def Let_def map_upt_8 sha512_exp_fold)
qed

subsection \<open>Padding\<close>

lemma length_be_field [simp]: "length (be_field w n) = w"
  by (simp add: be_field_def)

lemma be_field_small:
  assumes "n < 2 ^ 32"
  shows "be_field (k + 4) n = replicate k 0 @ be_field 4 n"
proof (rule nth_equalityI)
  fix i assume i: "i < length (be_field (k + 4) n)"
  show "be_field (k + 4) n ! i = (replicate k 0 @ be_field 4 n) ! i"
  proof (cases "i < k")
    case True
    define j where "j = k - 1 - i"
    have j: "k + 4 - 1 - i = j + 4" using True by (simp add: j_def)
    have "n < 256 ^ 4" using assms by simp
    then have "n div 256 ^ (j + 4) = 0"
      using power_increasing [of 4 "j + 4" "256 :: nat"] by (intro div_less) linarith
    then show ?thesis using True i j by (simp add: be_field_def nth_append)
  next
    case False
    with i have "[0..<4] ! (i - k) = i - k" by (subst nth_upt) (simp_all add: be_field_def)
    with False i show ?thesis by (simp add: be_field_def nth_append)
  qed
qed (simp add: be_field_def)

lemma UNPACK32_length_field: "UNPACK32 (of_nat n) = be_field 4 (n mod 2 ^ 32)"
  by (simp add: UNPACK32_is_fips unat_of_nat take_bit_eq_mod)

text \<open>The field of a number modulo 2^32 lacks the high bytes of the field of the number.\<close>

lemma be_field_low: "be_field 4 (n mod 2 ^ 32) = drop k (be_field (k + 4) n)"
proof (rule nth_equalityI)
  fix i assume "i < length (be_field 4 (n mod 2 ^ 32))"
  then have i: "i < 4" "k + 4 - 1 - (k + i) = 3 - i" by (simp_all add: be_field_def)
  have "take_bit 8 (drop_bit (8 * (3 - i)) (take_bit 32 n)) = take_bit 8 (drop_bit (8 * (3 - i)) n)"
    using i(1) by (intro bit_eqI) (auto simp: bit_simps)
  then have "(of_nat (n mod 2 ^ 32 div 2 ^ (8 * (3 - i))) :: u8) = of_nat (n div 2 ^ (8 * (3 - i)))"
    by (simp add: word_of_nat_eq_iff take_bit_eq_mod drop_bit_eq_div)
  moreover have "(256 :: nat) ^ (3 - i) = 2 ^ (8 * (3 - i))" by (simp add: power_mult)
  ultimately show "be_field 4 (n mod 2 ^ 32) ! i = drop k (be_field (k + 4) n) ! i"
    using i by (simp add: be_field_def)
qed (simp add: be_field_def)

lemma be_field_mod: "be_field (k + 4) (n mod 2 ^ 32) = replicate k 0 @ drop k (be_field (k + 4) n)"
  by (subst be_field_small) (simp_all only: be_field_low [of n k] mod_less_divisor zero_less_power zero_less_numeral)


text \<open>The two block sizes with the size of their length field.\<close>

definition fips_params :: "nat \<Rightarrow> nat \<Rightarrow> bool" where
  "fips_params bs lw \<longleftrightarrow> bs = 64 \<and> lw = 8 \<or> bs = 128 \<and> lw = 16"

lemma pad_zeros:
  assumes "fips_params bs lw"
  shows "(if bs - (lw + 1) < n mod bs then 2 else 1) * bs - n mod bs - 5 =
    (2 * bs - 1 - lw - n mod bs) mod bs + (lw - 4)"
proof (cases "bs - (lw + 1) < n mod bs")
  case True
  have "n mod bs < bs" using assms by (intro mod_less_divisor) (auto simp: fips_params_def)
  moreover from this True have "(2 * bs - 1 - lw - n mod bs) mod bs = 2 * bs - 1 - lw - n mod bs"
    using assms by (intro mod_less) (auto simp: fips_params_def)
  ultimately show ?thesis using True assms by (auto simp: fips_params_def)
next
  case False
  have "2 * bs - 1 - lw - n mod bs = bs - 1 - lw - n mod bs + bs"
    using False assms by (auto simp: fips_params_def)
  then have "(2 * bs - 1 - lw - n mod bs) mod bs = (bs - 1 - lw - n mod bs) mod bs"
    by (simp only: mod_add_self2)
  also have "\<dots> = bs - 1 - lw - n mod bs"
    using assms by (intro mod_less) (auto simp: fips_params_def)
  finally show ?thesis using False assms by (auto simp: fips_params_def)
qed

text \<open>What the code appends is the padding of the standard with the length in bits modulo 2^32.\<close>

lemma code_pad_field:
  assumes "fips_params bs lw"
  shows "sha2_code_pad bs (lw + 1) n = fips_pad_field bs lw n (8 * n mod 2 ^ 32)"
proof -
  have "lw - 4 + 4 = lw" using assms by (auto simp: fips_params_def)
  then have "be_field lw (8 * n mod 2 ^ 32) = replicate (lw - 4) 0 @ be_field 4 (8 * n mod 2 ^ 32)"
    using be_field_small [of "8 * n mod 2 ^ 32" "lw - 4"] by simp
  then show ?thesis
    unfolding sha2_code_pad_def fips_pad_field_def pad_zeros [OF assms] replicate_add UNPACK32_length_field by simp
qed

lemma code_pad_is_fips:
  assumes "fips_params bs lw" and "8 * n < 2 ^ 32"
  shows "sha2_code_pad bs (lw + 1) n = fips_pad bs lw n"
  unfolding code_pad_field [OF assms(1)] fips_pad_def mod_less [OF assms(2)] by (rule refl)

lemma field_not_fips:
  assumes "fips_params bs lw" and "2 ^ 32 \<le> 8 * n" and "n < 2 ^ 32"
  shows "fips_pad_field bs lw n (8 * n mod 2 ^ 32) \<noteq> fips_pad bs lw n"
proof
  assume "fips_pad_field bs lw n (8 * n mod 2 ^ 32) = fips_pad bs lw n"
  then have "be_field lw (8 * n mod 2 ^ 32) = be_field lw (8 * n)" by (simp add: fips_pad_def fips_pad_field_def)
  moreover have lw: "5 \<le> lw" "lw - 4 + 4 = lw" using assms(1) by (auto simp: fips_params_def)
  ultimately have eq: "replicate (lw - 4) 0 @ drop (lw - 4) (be_field lw (8 * n)) = be_field lw (8 * n)"
    using be_field_mod [of "lw - 4" "8 * n"] by simp
  have less: "lw - 5 < lw - 4" using lw by simp
  have "be_field lw (8 * n) ! (lw - 5) = of_nat (8 * n div 256 ^ 4)"
    using lw by (simp add: be_field_def)
  moreover have "be_field lw (8 * n) ! (lw - 5) = 0"
    by (subst eq [symmetric]) (use less in \<open>simp add: nth_append\<close>)
  ultimately have "(of_nat (8 * n div 2 ^ 32) :: u8) = 0" by simp
  moreover have "unat (of_nat (8 * n div 2 ^ 32) :: u8) = 8 * n div 2 ^ 32"
    using assms(3) by (intro unat_of_nat_lt) (simp add: less_mult_imp_div_less)
  ultimately show False using assms(2) by (simp add: div_eq_0_iff)
qed

subsection \<open>The properties\<close>

lemma absorb_cong:
  assumes n: "0 < n" and "P s" and step: "\<And>s b. P s \<Longrightarrow> length b = n \<Longrightarrow> f s b = g s b \<and> P (g s b)"
  shows "absorb n f s xs = absorb n g s xs"
  using assms(2)
proof (induction "length xs" arbitrary: s xs rule: less_induct)
  case less
  show ?case
  proof (cases "length xs < n")
    case False
    then have "length (take n xs) = n" and shorter: "length (drop n xs) < length xs" using n by simp_all
    from step [OF less.prems this(1)] less.hyps [OF shorter] False show ?thesis
      by (simp add: absorb_step n)
  qed simp
qed

lemma fips_length: "length h = 8 \<Longrightarrow> length (fips256_compress h m) = 8" "length h2 = 8 \<Longrightarrow> length (fips512_compress h2 m) = 8"
  by (simp_all add: fips256_compress_def fips512_compress_def)

lemma absorb_is_fips:
  "length h = 8 \<Longrightarrow> absorb 64 sha256_block h m = absorb 64 fips256_compress h m"
  "length h2 = 8 \<Longrightarrow> absorb 128 sha512_block h2 m = absorb 128 fips512_compress h2 m"
  by (rule absorb_cong [where P = "\<lambda>h. length h = 8"];
      simp add: sha256_block_is_fips sha512_block_is_fips fips_length)+

lemma absorb_length:
  assumes "\<And>s b. length s = 8 \<Longrightarrow> length (f s b) = 8" and "length s = 8" and n: "0 < n"
  shows "length (absorb n f s xs) = 8"
  using assms(2)
proof (induction "length xs" arbitrary: s xs rule: less_induct)
  case less
  then show ?case using assms(1) n by (cases "length xs < n") (simp_all add: absorb_step)
qed

lemma take_out: "length h = 8 \<Longrightarrow> k \<le> 8 \<Longrightarrow> map (\<lambda>i. u (h ! i)) [0..<k] = map u (take k h)"
  by (rule nth_equalityI) simp_all

lemma UNPACK_fun: "UNPACK32 = be_field 4 \<circ> unat" "UNPACK64 = be_field 8 \<circ> unat"
  by (simp_all add: fun_eq_iff UNPACK32_is_fips UNPACK64_is_fips)

text \<open>Any context with a block buffer of the declared size is an empty message after \<open>init\<close>.\<close>

lemma sha2_init_valid:
  assumes "length h0 = 8" and "length (ctx_block c) = 2 * bs" and "0 < bs"
  shows "sha2_valid bs (sha2_init h0 c)" "ctx_h (sha2_init h0 c) = h0"
    "sha2_pending (sha2_init h0 c) = []" "sha2_total (sha2_init h0 c) = 0"
  using assms map_nth [of h0] by (simp_all add: sha2_init_def sha2_valid_def sha2_pending_def sha2_total_def)

lemma chunk_lengths:
  assumes "length (concat ds) < n"
  shows "\<forall>d \<in> set ds. length d < n"
proof
  fix d assume "d \<in> set ds"
  then have "length d \<le> sum_list (map length ds)" by (intro member_le_sum_list) auto
  with assms show "length d < n" by (simp add: length_concat)
qed

lemma sha256_stream_pad:
  assumes "length (ctx_block c) = 128" and "length (concat ds) < 2 ^ 32"
  shows "sha256_final (foldl (\<lambda>c d. sha256_update c d (of_nat (length d))) (sha256_init c) ds) =
      concat (map (be_field 4 \<circ> unat) (take 8 (absorb 64 fips256_compress sha256_h0
        (concat ds @ sha2_code_pad 64 9 (length (concat ds))))))"
    and "sha224_final (foldl (\<lambda>c d. sha224_update c d (of_nat (length d))) (sha224_init c) ds) =
      concat (map (be_field 4 \<circ> unat) (take 7 (absorb 64 fips256_compress sha224_h0
        (concat ds @ sha2_code_pad 64 9 (length (concat ds))))))"
proof -
  have h0: "length sha256_h0 = 8" "length sha224_h0 = 8" by (simp_all add: sha256_h0_def sha224_h0_def)
  have chunks: "\<forall>d \<in> set ds. length d < 2 ^ 32" by (rule chunk_lengths [OF assms(2)])
  have "sha256s.represents (sha256_init c) []" "sha224s.represents (sha224_init c) []"
    using assms(1) h0
    by (simp_all add: sha256s.represents_def sha224s.represents_def sha256_init_def sha224_init_def sha2_init_valid)
  then have d: "Some (sha256_final (foldl (\<lambda>c d. sha256_update c d (of_nat (length d))) (sha256_init c) ds)) =
      Some (concat (map (\<lambda>i. UNPACK32 (absorb 64 sha256_block sha256_h0 (concat ds @ sha2_code_pad 64 9 (length (concat ds))) ! i)) [0..<8]))"
    "Some (sha224_final (foldl (\<lambda>c d. sha224_update c d (of_nat (length d))) (sha224_init c) ds)) =
      Some (concat (map (\<lambda>i. UNPACK32 (absorb 64 sha256_block sha224_h0 (concat ds @ sha2_code_pad 64 9 (length (concat ds))) ! i)) [0..<7]))"
    using sha256s.digest_of_chunks [of "sha256_init c" ds] sha224s.digest_of_chunks [of "sha224_init c" ds] chunks assms(2)
    by (simp_all add: feed_total)
  have len: "length (absorb 64 fips256_compress sha256_h0 x) = 8" "length (absorb 64 fips256_compress sha224_h0 x) = 8" for x
    using h0 by (simp_all add: absorb_length fips_length)
  show "sha256_final (foldl (\<lambda>c d. sha256_update c d (of_nat (length d))) (sha256_init c) ds) =
      concat (map (be_field 4 \<circ> unat) (take 8 (absorb 64 fips256_compress sha256_h0
        (concat ds @ sha2_code_pad 64 9 (length (concat ds))))))"
    unfolding option.inject [THEN iffD1, OF d(1)] absorb_is_fips(1) [OF h0(1)] take_out [OF len(1) order_refl]
    by (simp add: UNPACK_fun)
  show "sha224_final (foldl (\<lambda>c d. sha224_update c d (of_nat (length d))) (sha224_init c) ds) =
      concat (map (be_field 4 \<circ> unat) (take 7 (absorb 64 fips256_compress sha224_h0
        (concat ds @ sha2_code_pad 64 9 (length (concat ds))))))"
    unfolding option.inject [THEN iffD1, OF d(2)] absorb_is_fips(1) [OF h0(2)]
    by (subst take_out [OF len(2)]) (simp_all add: UNPACK_fun)
qed

lemma sha512_stream_pad:
  assumes "length (ctx_block c) = 256" and "length (concat ds) < 2 ^ 32"
  shows "sha512_final (foldl (\<lambda>c d. sha512_update c d (of_nat (length d))) (sha512_init c) ds) =
      concat (map (be_field 8 \<circ> unat) (take 8 (absorb 128 fips512_compress sha512_h0
        (concat ds @ sha2_code_pad 128 17 (length (concat ds))))))"
    and "sha384_final (foldl (\<lambda>c d. sha384_update c d (of_nat (length d))) (sha384_init c) ds) =
      concat (map (be_field 8 \<circ> unat) (take 6 (absorb 128 fips512_compress sha384_h0
        (concat ds @ sha2_code_pad 128 17 (length (concat ds))))))"
proof -
  have h0: "length sha512_h0 = 8" "length sha384_h0 = 8" by (simp_all add: sha512_h0_def sha384_h0_def)
  have chunks: "\<forall>d \<in> set ds. length d < 2 ^ 32" by (rule chunk_lengths [OF assms(2)])
  have "sha512s.represents (sha512_init c) []" "sha384s.represents (sha384_init c) []"
    using assms(1) h0
    by (simp_all add: sha512s.represents_def sha384s.represents_def sha512_init_def sha384_init_def sha2_init_valid)
  then have d: "Some (sha512_final (foldl (\<lambda>c d. sha512_update c d (of_nat (length d))) (sha512_init c) ds)) =
      Some (concat (map (\<lambda>i. UNPACK64 (absorb 128 sha512_block sha512_h0 (concat ds @ sha2_code_pad 128 17 (length (concat ds))) ! i)) [0..<8]))"
    "Some (sha384_final (foldl (\<lambda>c d. sha384_update c d (of_nat (length d))) (sha384_init c) ds)) =
      Some (concat (map (\<lambda>i. UNPACK64 (absorb 128 sha512_block sha384_h0 (concat ds @ sha2_code_pad 128 17 (length (concat ds))) ! i)) [0..<6]))"
    using sha512s.digest_of_chunks [of "sha512_init c" ds] sha384s.digest_of_chunks [of "sha384_init c" ds] chunks assms(2)
    by (simp_all add: feed_total)
  have len: "length (absorb 128 fips512_compress sha512_h0 x) = 8" "length (absorb 128 fips512_compress sha384_h0 x) = 8" for x
    using h0 by (simp_all add: absorb_length fips_length)
  show "sha512_final (foldl (\<lambda>c d. sha512_update c d (of_nat (length d))) (sha512_init c) ds) =
      concat (map (be_field 8 \<circ> unat) (take 8 (absorb 128 fips512_compress sha512_h0
        (concat ds @ sha2_code_pad 128 17 (length (concat ds))))))"
    unfolding option.inject [THEN iffD1, OF d(1)] absorb_is_fips(2) [OF h0(1)] take_out [OF len(1) order_refl]
    by (simp add: UNPACK_fun)
  show "sha384_final (foldl (\<lambda>c d. sha384_update c d (of_nat (length d))) (sha384_init c) ds) =
      concat (map (be_field 8 \<circ> unat) (take 6 (absorb 128 fips512_compress sha384_h0
        (concat ds @ sha2_code_pad 128 17 (length (concat ds))))))"
    unfolding option.inject [THEN iffD1, OF d(2)] absorb_is_fips(2) [OF h0(2)]
    by (subst take_out [OF len(2)]) (simp_all add: UNPACK_fun)
qed

text \<open>
  C16. Feeding a message in pieces of any sizes to any of the four SHA-2 contexts (whatever the
  context held before \<open>init\<close>) and calling \<open>final\<close> yields the FIPS 180-4 digest of the whole
  message, for every message of less than 2^29 bytes. The round constants and initial values of the
  standard are the digits of the roots of the first primes.
\<close>
theorem sha2_streaming_computes_fips:
  assumes "length (ctx_block c) = 128" and "length (ctx_block c2) = 256" and "8 * length (concat ds) < 2 ^ 32"
  shows "sha256_final (foldl (\<lambda>c d. sha256_update c d (of_nat (length d))) (sha256_init c) ds) =
      fips_digest 64 8 fips256_compress 4 fips256_H0 8 (concat ds) \<and>
    sha224_final (foldl (\<lambda>c d. sha224_update c d (of_nat (length d))) (sha224_init c) ds) =
      fips_digest 64 8 fips256_compress 4 fips224_H0 7 (concat ds) \<and>
    sha512_final (foldl (\<lambda>c d. sha512_update c d (of_nat (length d))) (sha512_init c2) ds) =
      fips_digest 128 16 fips512_compress 8 fips512_H0 8 (concat ds) \<and>
    sha384_final (foldl (\<lambda>c d. sha384_update c d (of_nat (length d))) (sha384_init c2) ds) =
      fips_digest 128 16 fips512_compress 8 fips384_H0 6 (concat ds)"
  using assms sha256_stream_pad [of c ds] sha512_stream_pad [of c2 ds]
    code_pad_is_fips [of 64 8 "length (concat ds)"] code_pad_is_fips [of 128 16 "length (concat ds)"]
  by (simp add: fips_digest_def fips_hash_def fips_params_def fips_tables o_def)

lemma sha2_streaming_computes_fips_witness:
  "sha256_final (foldl (\<lambda>c d. sha256_update c d (of_nat (length d))) (sha256_init (sha2_zero 64)) [[0x61], [0x62, 0x63]]) =
    fips_digest 64 8 fips256_compress 4 fips256_H0 8 [0x61, 0x62, 0x63]"
  using sha2_streaming_computes_fips [of "sha2_zero 64" "sha2_zero 128 :: u64 sha2_ctx" "[[0x61], [0x62, 0x63]]"]
  by (simp add: sha2_zero_def)

text \<open>
  C40. From 2^29 bytes on (up to the 2^32 the 32-bit counters hold) each of the four functions hashes the
  message under a padding whose length field is the length in bits modulo 2^32 (\<open>final\<close> stores it with
  \<open>UNPACK32\<close>): the field is the one of FIPS 180-4 with its bytes above the lowest four replaced by
  zeros, and the padding is never the one of the standard.
\<close>
theorem sha2_long_messages_misses_length_bits:
  fixes ds :: "bytes list"
  defines "n \<equiv> length (concat ds)" and "l \<equiv> 8 * length (concat ds) mod 2 ^ 32"
  assumes "length (ctx_block c) = 128" and "length (ctx_block c2) = 256"
    and "2 ^ 32 \<le> 8 * length (concat ds)" and "length (concat ds) < 2 ^ 32"
  shows "sha256_final (foldl (\<lambda>c d. sha256_update c d (of_nat (length d))) (sha256_init c) ds) =
      fips_hash 64 fips256_compress 4 fips256_H0 8 (concat ds @ fips_pad_field 64 8 n l) \<and>
    sha224_final (foldl (\<lambda>c d. sha224_update c d (of_nat (length d))) (sha224_init c) ds) =
      fips_hash 64 fips256_compress 4 fips224_H0 7 (concat ds @ fips_pad_field 64 8 n l) \<and>
    sha512_final (foldl (\<lambda>c d. sha512_update c d (of_nat (length d))) (sha512_init c2) ds) =
      fips_hash 128 fips512_compress 8 fips512_H0 8 (concat ds @ fips_pad_field 128 16 n l) \<and>
    sha384_final (foldl (\<lambda>c d. sha384_update c d (of_nat (length d))) (sha384_init c2) ds) =
      fips_hash 128 fips512_compress 8 fips384_H0 6 (concat ds @ fips_pad_field 128 16 n l) \<and>
    be_field 8 l = replicate 4 0 @ drop 4 (be_field 8 (8 * n)) \<and> be_field 16 l = replicate 12 0 @ drop 12 (be_field 16 (8 * n)) \<and>
    fips_pad_field 64 8 n l \<noteq> fips_pad 64 8 n \<and> fips_pad_field 128 16 n l \<noteq> fips_pad 128 16 n"
proof -
  have f: "fips_params 64 8" "fips_params 128 16" by (simp_all add: fips_params_def)
  have "sha2_code_pad 64 9 n = fips_pad_field 64 8 n l" "sha2_code_pad 128 17 n = fips_pad_field 128 16 n l"
    using code_pad_field [OF f(1), of n] code_pad_field [OF f(2), of n] by (simp_all add: n_def l_def)
  then show ?thesis
    using sha256_stream_pad [OF assms(3,6)] sha512_stream_pad [OF assms(4,6)] be_field_mod [of 4 "8 * n"]
      be_field_mod [of 12 "8 * n"] field_not_fips [OF f(1) assms(5,6)] field_not_fips [OF f(2) assms(5,6)]
    by (simp add: n_def l_def fips_hash_def fips_tables o_def)
qed

lemma sha2_long_messages_misses_length_bits_witness:
  "sha256_final (foldl (\<lambda>c d. sha256_update c d (of_nat (length d))) (sha256_init (sha2_zero 64)) [replicate (2 ^ 29) 0]) =
      fips_hash 64 fips256_compress 4 fips256_H0 8 (replicate (2 ^ 29) 0 @ fips_pad_field 64 8 (2 ^ 29) 0) \<and>
    fips_pad_field 64 8 (2 ^ 29) 0 \<noteq> fips_pad 64 8 (2 ^ 29)"
proof -
  have cat: "concat [replicate (2 ^ 29) (0 :: u8)] = replicate (2 ^ 29) 0" by (simp only: concat.simps append_Nil2)
  have blk: "length (ctx_block (sha2_zero 64 :: u32 sha2_ctx)) = 128" "length (ctx_block (sha2_zero 128 :: u64 sha2_ctx)) = 256"
    by (simp_all add: sha2_zero_def)
  have "2 ^ 32 \<le> 8 * length (concat [replicate (2 ^ 29) (0 :: u8)])" "length (concat [replicate (2 ^ 29) (0 :: u8)]) < 2 ^ 32"
    unfolding cat length_replicate by simp_all
  note t = sha2_long_messages_misses_length_bits [OF blk this, unfolded cat length_replicate]
  have l: "8 * 2 ^ 29 mod 2 ^ 32 = (0 :: nat)" by simp
  from t [unfolded l] show ?thesis by blast
qed

end
