(* ===== verification/Sha1.thy ===== *)
theory Sha1
  imports BlockHash
begin

text \<open>
  \<open>dll_src/hash/src/sha1.c\<close>: SHA-1 with the unrolled transform, whose register moves are done by the
  argument lists of the eighty calls and whose message schedule is expanded in place in sixteen
  words. The byte order of the machine is a parameter (\<open>be\<close>), because the code tests it at run time.
\<close>

subsection \<open>Macros\<close>

definition rol :: "u32 \<Rightarrow> nat \<Rightarrow> u32" where
  "rol value bits = push_bit bits value OR drop_bit (32 - bits) value"

text \<open>The union of 64 characters and 16 words, read in the byte order of the machine.\<close>

definition load_word :: "bool \<Rightarrow> bytes \<Rightarrow> nat \<Rightarrow> u32" where
  "load_word be c i =
     (let b0 = ucast (c ! (4 * i)); b1 = ucast (c ! (4 * i + 1)); b2 = ucast (c ! (4 * i + 2)); b3 = ucast (c ! (4 * i + 3))
      in if be then b3 OR push_bit 8 b2 OR push_bit 16 b1 OR push_bit 24 b0
         else b0 OR push_bit 8 b1 OR push_bit 16 b2 OR push_bit 24 b3)"

text \<open>Each fetch returns a schedule word and the block after the assignment inside the macro.\<close>

definition blk0 :: "u32 list \<Rightarrow> nat \<Rightarrow> u32 \<times> u32 list" where
  "blk0 l i = (l ! i, l)"

definition blk0le :: "u32 list \<Rightarrow> nat \<Rightarrow> u32 \<times> u32 list" where
  "blk0le l i =
     (let v = (rol (l ! i) 24 AND 0xFF00FF00) OR (rol (l ! i) 8 AND 0x00FF00FF) in (v, l[i := v]))"

definition blk :: "u32 list \<Rightarrow> nat \<Rightarrow> u32 \<times> u32 list" where
  "blk l i =
     (let v = rol (l ! ((i + 13) mod 16) XOR l ! ((i + 8) mod 16) XOR l ! ((i + 2) mod 16) XOR l ! (i mod 16)) 1
      in (v, l[i mod 16 := v]))"

type_synonym r_args = "nat \<times> nat \<times> nat \<times> nat \<times> nat"

text \<open>The common shape of \<open>R0\<close> to \<open>R4\<close>: the registers are the list of \<open>a\<close> to \<open>e\<close>.\<close>

definition R_step ::
  "(u32 \<Rightarrow> u32 \<Rightarrow> u32 \<Rightarrow> u32) \<Rightarrow> (u32 list \<Rightarrow> nat \<Rightarrow> u32 \<times> u32 list) \<Rightarrow> u32 \<Rightarrow>
     r_args \<Rightarrow> nat \<Rightarrow> u32 list \<times> u32 list \<Rightarrow> u32 list \<times> u32 list" where
  "R_step f fetch K args i st =
     (case args of (v, w, x, y, z) \<Rightarrow> case st of (r, l) \<Rightarrow>
       let (m, l1) = fetch l i;
           r1 = r[z := r ! z + (f (r ! w) (r ! x) (r ! y) + m + K + rol (r ! v) 5)]
       in (r1[w := rol (r1 ! w) 30], l1))"

definition R0 :: "r_args \<Rightarrow> nat \<Rightarrow> u32 list \<times> u32 list \<Rightarrow> u32 list \<times> u32 list" where
  "R0 = R_step (\<lambda>w x y. (w AND (x XOR y)) XOR y) blk0 0x5A827999"
definition R0le :: "r_args \<Rightarrow> nat \<Rightarrow> u32 list \<times> u32 list \<Rightarrow> u32 list \<times> u32 list" where
  "R0le = R_step (\<lambda>w x y. (w AND (x XOR y)) XOR y) blk0le 0x5A827999"
definition R1 :: "r_args \<Rightarrow> nat \<Rightarrow> u32 list \<times> u32 list \<Rightarrow> u32 list \<times> u32 list" where
  "R1 = R_step (\<lambda>w x y. (w AND (x XOR y)) XOR y) blk 0x5A827999"
definition R2 :: "r_args \<Rightarrow> nat \<Rightarrow> u32 list \<times> u32 list \<Rightarrow> u32 list \<times> u32 list" where
  "R2 = R_step (\<lambda>w x y. w XOR x XOR y) blk 0x6ED9EBA1"
definition R3 :: "r_args \<Rightarrow> nat \<Rightarrow> u32 list \<times> u32 list \<Rightarrow> u32 list \<times> u32 list" where
  "R3 = R_step (\<lambda>w x y. ((w OR x) AND y) OR (w AND x)) blk 0x8F1BBCDC"
definition R4 :: "r_args \<Rightarrow> nat \<Rightarrow> u32 list \<times> u32 list \<Rightarrow> u32 list \<times> u32 list" where
  "R4 = R_step (\<lambda>w x y. w XOR x XOR y) blk 0xCA62C1D6"

text \<open>
  The argument lists of the calls, \<open>(a,b,c,d,e)\<close>, \<open>(e,a,b,c,d)\<close> and so on, repeat after five.
\<close>

definition r_calls :: "r_args list" where
  "r_calls = [(0, 1, 2, 3, 4), (4, 0, 1, 2, 3), (3, 4, 0, 1, 2), (2, 3, 4, 0, 1), (1, 2, 3, 4, 0)]"

definition r_op :: "bool \<Rightarrow> nat \<Rightarrow> r_args \<Rightarrow> nat \<Rightarrow> u32 list \<times> u32 list \<Rightarrow> u32 list \<times> u32 list" where
  "r_op le i = (if i < 16 then (if \<not> le then R0 else R0le) else if i < 20 then R1
     else if i < 40 then R2 else if i < 60 then R3 else R4)"

definition SHA1Transform :: "bool \<Rightarrow> u32 list \<Rightarrow> bytes \<Rightarrow> bool \<Rightarrow> u32 list" where
  "SHA1Transform be state buffer le =
     (let l = map (load_word be (take 64 buffer)) [0..<16];
          (r, _) = foldl (\<lambda>st i. r_op le i (r_calls ! (i mod 5)) i st)
                     ([state ! 0, state ! 1, state ! 2, state ! 3, state ! 4], l) [0..<80]
      in [state ! 0 + r ! 0, state ! 1 + r ! 1, state ! 2 + r ! 2, state ! 3 + r ! 3, state ! 4 + r ! 4])"

subsection \<open>The context\<close>

record SHA1_CTX =
  state :: "u32 list"
  count0 :: u32
  count1 :: u32
  sbuffer :: bytes
  le :: bool

text \<open>Whether the last byte of a \<open>long\<close> that holds 1 is 1.\<close>

definition be_test :: "bool \<Rightarrow> bool" where
  "be_test be = ((if be then [0, 0, 0, 0, 0, 0, 0, 1] else [1, 0, 0, 0, 0, 0, 0, 0 :: u8]) ! 7 = 1)"

definition SHA1Init :: "bool \<Rightarrow> SHA1_CTX \<Rightarrow> SHA1_CTX" where
  "SHA1Init be context =
     context\<lparr>state := [0x67452301, 0xEFCDAB89, 0x98BADCFE, 0x10325476, 0xC3D2E1F0],
       count0 := 0, count1 := 0, le := \<not> be_test be\<rparr>"

text \<open>
  \<open>for ( ; i + 63 < len; i += 64)\<close>; the index wraps, so that the loop may run past the data, which
  is \<open>None\<close>.
\<close>

partial_function (option) sha1_blocks ::
  "bool \<Rightarrow> bool \<Rightarrow> bytes \<Rightarrow> u32 \<Rightarrow> u32 \<Rightarrow> u32 list \<Rightarrow> (u32 list \<times> u32) option" where
  "sha1_blocks be lef data len i st =
     (if i + 63 < len
      then if length data < unat i + 64 then None
           else sha1_blocks be lef data len (i + 64)
             (SHA1Transform be st (drop (unat i) data) lef)
      else Some (st, i))"

declare sha1_blocks.simps [code]

definition SHA1Update :: "bool \<Rightarrow> SHA1_CTX \<Rightarrow> bytes \<Rightarrow> u32 \<Rightarrow> SHA1_CTX option" where
  "SHA1Update be context data len =
     (let j = drop_bit 3 (count0 context) AND 63;
          c0 = count0 context + push_bit 3 len;
          c1 = (if c0 < push_bit 3 len then count1 context + 1 else count1 context) + drop_bit 29 len;
          ctx1 = context\<lparr>count0 := c0, count1 := c1\<rparr>
      in if j + len > 63
         then do {
           let i = 64 - j;
           buf \<leftarrow> memcpy (sbuffer ctx1) (unat j) data (unat i);
           (st, i2) \<leftarrow> sha1_blocks be (le ctx1) data len i (SHA1Transform be (state ctx1) buf (le ctx1));
           buf2 \<leftarrow> memcpy buf 0 (drop (unat i2) data) (unat (len - i2));
           Some (ctx1\<lparr>sbuffer := buf2, state := st\<rparr>)
         }
         else do {
           buf2 \<leftarrow> memcpy (sbuffer ctx1) (unat j) data (unat len);
           Some (ctx1\<lparr>sbuffer := buf2\<rparr>)
         })"

partial_function (option) sha1_pad_loop :: "bool \<Rightarrow> SHA1_CTX \<Rightarrow> SHA1_CTX option" where
  "sha1_pad_loop be context =
     (if count0 context AND 504 \<noteq> 448
      then Option.bind (SHA1Update be context [0] 1) (\<lambda>c. sha1_pad_loop be c)
      else Some context)"

declare sha1_pad_loop.simps [code]

definition sha1_out :: "u32 list \<Rightarrow> bytes" where
  "sha1_out st = map (\<lambda>i. ucast (drop_bit ((3 - i mod 4) * 8) (st ! (i div 4)) AND 255)) [0..<20]"

text \<open>The digest and the wiped context; the transform at the end hashes the wiped state once more.\<close>

definition SHA1Final :: "bool \<Rightarrow> SHA1_CTX \<Rightarrow> (bytes \<times> SHA1_CTX) option" where
  "SHA1Final be context =
     (let finalcount = map (\<lambda>i. ucast (drop_bit ((3 - i mod 4) * 8)
            (if 4 \<le> i then count0 context else count1 context) AND 255)) [0..<8]
      in do {
        c1 \<leftarrow> SHA1Update be context [0x80] 1;
        c2 \<leftarrow> sha1_pad_loop be c1;
        c3 \<leftarrow> SHA1Update be c2 finalcount 8;
        let digest = sha1_out (state c3);
        let buf = replicate 64 0;
        Some (digest, c3\<lparr>sbuffer := buf, count0 := 0, count1 := 0,
          state := SHA1Transform be (replicate 5 0) buf (le c3)\<rparr>)
      })"

definition SHA1 :: "bool \<Rightarrow> bytes \<Rightarrow> usize \<Rightarrow> SHA1_CTX \<Rightarrow> (int \<times> bytes) option" where
  "SHA1 be message len context =
     do {
       c \<leftarrow> slices (\<lambda>c buffer. SHA1Update be c buffer (of_nat (length buffer))) message len 16384 (SHA1Init be context);
       (digest, _) \<leftarrow> SHA1Final be c;
       Some (1, digest)
     }"

end
