(* ===== verification/Sha1Spec.thy ===== *)
theory Sha1Spec
  imports Sha1 Sha2Spec
begin

text \<open>
  SHA-1 as FIPS 180 states it, and the theorem that \<open>sha1.c\<close> computes it on machines of either
  byte order: the in-place schedule is the recurrence, the rotating argument lists are the register
  moves, and the streaming context satisfies the contract of \<open>BlockHash\<close>.
\<close>

subsection \<open>The standard\<close>

function fips1_W :: "(nat \<Rightarrow> u32) \<Rightarrow> nat \<Rightarrow> u32" where
  "fips1_W M t =
     (if t < 16 then M t
      else word_rotl 1 (fips1_W M (t - 3) XOR fips1_W M (t - 8) XOR fips1_W M (t - 14) XOR fips1_W M (t - 16)))"
  by pat_completeness auto
termination
  by (relation "measure (\<lambda>(M, t). t)") auto

declare fips1_W.simps [simp del]

definition fips1_f :: "nat \<Rightarrow> u32 \<Rightarrow> u32 \<Rightarrow> u32 \<Rightarrow> u32" where
  "fips1_f t b c d =
     (if t < 20 then (b AND c) OR (NOT b AND d)
      else if t < 40 then b XOR c XOR d
      else if t < 60 then (b AND c) OR (b AND d) OR (c AND d)
      else b XOR c XOR d)"

definition fips1_K :: "nat \<Rightarrow> u32" where
  "fips1_K t = (if t < 20 then 0x5A827999 else if t < 40 then 0x6ED9EBA1 else if t < 60 then 0x8F1BBCDC else 0xCA62C1D6)"

type_synonym hash5 = "u32 \<times> u32 \<times> u32 \<times> u32 \<times> u32"

fun fips1_round :: "(nat \<Rightarrow> u32) \<Rightarrow> hash5 \<Rightarrow> nat \<Rightarrow> hash5" where
  "fips1_round W (a, b, c, d, e) t = (word_rotl 5 a + fips1_f t b c d + e + fips1_K t + W t, a, word_rotl 30 b, c, d)"

fun list5 :: "'a \<times> 'a \<times> 'a \<times> 'a \<times> 'a \<Rightarrow> 'a list" where
  "list5 (a, b, c, d, e) = [a, b, c, d, e]"

definition tuple5 :: "'a list \<Rightarrow> 'a \<times> 'a \<times> 'a \<times> 'a \<times> 'a" where
  "tuple5 x = (x ! 0, x ! 1, x ! 2, x ! 3, x ! 4)"

definition fips1_compress :: "u32 list \<Rightarrow> bytes \<Rightarrow> u32 list" where
  "fips1_compress H m = map2 (+) H (list5 (foldl (fips1_round (fips1_W (fips_word m 4))) (tuple5 H) [0..<80]))"

definition fips1_H0 :: "u32 list" where
  "fips1_H0 = [0x67452301, 0xEFCDAB89, 0x98BADCFE, 0x10325476, 0xC3D2E1F0]"

subsection \<open>Words\<close>

lemma len_of_numeral_32: "LENGTH(32) = 32"
  by simp

lemma rol_is_rotation:
  assumes "0 < n" and "n < 32"
  shows "rol x n = word_rotl n x"
proof (rule bit_word_eqI)
  fix k assume k: "k < LENGTH(32)"
  have "(k + (32 - n)) mod 32 = (if n \<le> k then k - n else k + (32 - n))"
  proof (cases "n \<le> k")
    case True
    with assms have "k + (32 - n) = (k - n) + 32" by simp
    then have "(k + (32 - n)) mod 32 = (k - n) mod 32" by (simp only: mod_add_self2)
    with True k show ?thesis by simp
  qed (use assms in simp)
  then have idx: "(k + (32 - n mod 32)) mod 32 = (if n \<le> k then k - n else 32 - n + k)"
    using assms by (simp add: add.commute)
  with assms k show "bit (rol x n) k = bit (word_rotl n x) k"
    unfolding bit_word_rotl_iff len_of_numeral_32 idx
    by (auto simp: rol_def bit_simps dest: bit_imp_le_length)
qed

lemma swap_masks:
  "bit (0xFF00FF00 :: int) n \<longleftrightarrow> 8 \<le> n \<and> n < 16 \<or> 24 \<le> n \<and> n < 32"
  "bit (0x00FF00FF :: int) n \<longleftrightarrow> n < 8 \<or> 16 \<le> n \<and> n < 24"
proof -
  have e: "(0xFF00FF00 :: int) = push_bit 8 (mask 8) OR push_bit 24 (mask 8)"
    "(0x00FF00FF :: int) = mask 8 OR push_bit 16 (mask 8)"
    by (simp_all add: mask_eq_exp_minus_1 push_bit_eq_mult)
  show "bit (0xFF00FF00 :: int) n \<longleftrightarrow> 8 \<le> n \<and> n < 16 \<or> 24 \<le> n \<and> n < 32"
    "bit (0x00FF00FF :: int) n \<longleftrightarrow> n < 8 \<or> 16 \<le> n \<and> n < 24"
    unfolding e by (auto simp: bit_simps)
qed

text \<open>\<open>blk0le\<close> turns the little-endian value of four bytes into the big-endian one.\<close>

lemma swap_le_be:
  "(rol (load_word False c i) 24 AND 0xFF00FF00) OR (rol (load_word False c i) 8 AND 0x00FF00FF) = load_word True c i"
proof (rule bit_word_eqI)
  fix n :: nat
  assume "n < LENGTH(32)"
  then consider "n < 8" | "8 \<le> n \<and> n < 16" | "16 \<le> n \<and> n < 24" | "24 \<le> n \<and> n < 32"
    by fastforce
  then show "bit ((rol (load_word False c i) 24 AND 0xFF00FF00) OR (rol (load_word False c i) 8 AND 0x00FF00FF)) n =
      bit (load_word True c i) n"
    by cases (auto simp: rol_def load_word_def Let_def bit_simps swap_masks dest: bit_imp_le_length)
qed

lemma load_be_is_fips:
  "64 \<le> length m \<Longrightarrow> i < 16 \<Longrightarrow> load_word True (take 64 m) i = fips_word (take 64 m) 4 i"
  using PACK32_is_fips [of "4 * i" "take 64 m"]
  by (simp add: load_word_def Let_def fips_word_def PACK32_def)

subsection \<open>The schedule in sixteen words\<close>

text \<open>Before step \<open>t\<close> the block holds the schedule words that are still needed and the words not yet read.\<close>

definition holds_schedule :: "bool \<Rightarrow> (nat \<Rightarrow> u32) \<Rightarrow> nat \<Rightarrow> u32 list \<Rightarrow> bytes \<Rightarrow> bool" where
  "holds_schedule be W t l c \<longleftrightarrow> length l = 16 \<and>
     (\<forall>s. s < t \<longrightarrow> t \<le> s + 16 \<longrightarrow> l ! (s mod 16) = W s) \<and>
     (\<forall>s. t \<le> s \<longrightarrow> s < 16 \<longrightarrow> l ! s = load_word be c s)"

lemma holds_step:
  assumes "holds_schedule be W t l c" and "l' = l[t mod 16 := W t]"
  shows "holds_schedule be W (Suc t) l' c"
proof -
  have "l' ! (s mod 16) = W s" if "s < Suc t" "Suc t \<le> s + 16" for s
  proof (cases "s = t")
    case False
    with that have "s < t" "t - s < 16" by simp_all
    then have "s mod 16 \<noteq> t mod 16"
      by (metis diff_is_0_eq mod_eq_dvd_iff_nat nat_dvd_not_less not_le order_less_imp_le zero_less_diff)
    with False that assms show ?thesis by (auto simp: holds_schedule_def)
  qed (use assms in \<open>simp add: holds_schedule_def\<close>)
  moreover have "l' ! s = load_word be c s" if "Suc t \<le> s" "s < 16" for s
    using that assms by (auto simp: holds_schedule_def)
  ultimately show ?thesis using assms by (simp add: holds_schedule_def)
qed

lemma blk_fetch:
  assumes H: "holds_schedule be (fips1_W M) t l c" and t: "16 \<le> t"
  shows "fst (blk l t) = fips1_W M t" and "holds_schedule be (fips1_W M) (Suc t) (snd (blk l t)) c"
proof -
  have get: "l ! ((t + k) mod 16) = fips1_W M (t - (16 - k))" if "k < 16" for k
  proof -
    have "t + k = t - (16 - k) + 16" using t that by simp
    then have "(t + k) mod 16 = (t - (16 - k)) mod 16" by (simp only: mod_add_self2)
    moreover have "l ! ((t - (16 - k)) mod 16) = fips1_W M (t - (16 - k))"
      using H t that by (simp add: holds_schedule_def)
    ultimately show ?thesis by simp
  qed
  show f: "fst (blk l t) = fips1_W M t"
    using get [of 13] get [of 8] get [of 2] get [of 0] t
    by (simp add: blk_def Let_def rol_is_rotation fips1_W.simps [of M t])
  show "holds_schedule be (fips1_W M) (Suc t) (snd (blk l t)) c"
    using holds_step [OF H, of "snd (blk l t)"] f by (simp add: blk_def Let_def)
qed

lemma blk0_fetch:
  assumes H: "holds_schedule True (fips1_W (load_word True c)) t l c" and t: "t < 16"
  shows "fst (blk0 l t) = fips1_W (load_word True c) t"
    and "holds_schedule True (fips1_W (load_word True c)) (Suc t) (snd (blk0 l t)) c"
proof -
  have "l ! t = load_word True c t" using H t by (simp add: holds_schedule_def)
  moreover have "l = l[t mod 16 := l ! t]" using t by simp
  ultimately show "fst (blk0 l t) = fips1_W (load_word True c) t"
    and "holds_schedule True (fips1_W (load_word True c)) (Suc t) (snd (blk0 l t)) c"
    using holds_step [OF H, of l] t by (simp_all add: blk0_def fips1_W.simps)
qed

lemma blk0le_fetch:
  assumes H: "holds_schedule False (fips1_W (load_word True c)) t l c" and t: "t < 16"
  shows "fst (blk0le l t) = fips1_W (load_word True c) t"
    and "holds_schedule False (fips1_W (load_word True c)) (Suc t) (snd (blk0le l t)) c"
proof -
  have "l ! t = load_word False c t" using H t by (simp add: holds_schedule_def)
  then have "blk0le l t = (load_word True c t, l[t := load_word True c t])"
    by (simp add: blk0le_def swap_le_be Let_def)
  then show "fst (blk0le l t) = fips1_W (load_word True c) t"
    and "holds_schedule False (fips1_W (load_word True c)) (Suc t) (snd (blk0le l t)) c"
    using holds_step [OF H, of "l[t := load_word True c t]"] t by (simp_all add: fips1_W.simps)
qed

subsection \<open>The eighty calls\<close>

lemmas add_ac = add.assoc add.commute add.left_commute

lemma list_of_5:
  assumes "length xs = 5"
  obtains a b c d e where "xs = [a, b, c, d, e]"
  using assms by (auto simp: numeral_eq_Suc length_Suc_conv)

lemma less_5_cases: "r < (5 :: nat) \<Longrightarrow> r \<in> {0, 1, 2, 3, 4}"
  by auto

definition read5 :: "u32 list \<Rightarrow> nat \<Rightarrow> u32 list" where
  "read5 r q = map ((!) r) (list5 (r_calls ! q))"

lemma R_step_round:
  assumes "length r = 5" and "q < 5" and "read5 r q = [a, b, c, d, e]"
  shows "length (fst (R_step f fetch K (r_calls ! q) i (r, l))) = 5 \<and>
    read5 (fst (R_step f fetch K (r_calls ! q) i (r, l))) (Suc q mod 5) =
      [e + (f b c d + fst (fetch l i) + K + rol a 5), a, rol b 30, c, d] \<and>
    snd (R_step f fetch K (r_calls ! q) i (r, l)) = snd (fetch l i)"
proof -
  obtain r0 r1 r2 r3 r4 where r: "r = [r0, r1, r2, r3, r4]" using assms(1) by (rule list_of_5)
  show ?thesis
    using less_5_cases [OF assms(2)] assms(3) unfolding r
    by (elim insertE) (simp_all add: read5_def r_calls_def R_step_def split: prod.splits)
qed

lemma ch_form: "(w AND (x XOR y)) XOR y = (w AND x) OR (NOT w AND (y :: u32))"
  by (rule bit_word_eqI) (auto simp: bit_simps)

lemma maj_form: "((w OR x) AND y) OR (w AND x) = (w AND x) OR (w AND y) OR (x AND (y :: u32))"
  by (rule bit_word_eqI) (auto simp: bit_simps)

lemma r_op_round:
  assumes "length r = 5" and "read5 r (t mod 5) = list5 s" and le: "lef = (\<not> be)"
    and H: "holds_schedule be (fips1_W (load_word True c)) t l c" and "t < 80"
  defines "st \<equiv> r_op lef t (r_calls ! (t mod 5)) t (r, l)"
  shows "length (fst st) = 5 \<and> read5 (fst st) (Suc t mod 5) = list5 (fips1_round (fips1_W (load_word True c)) s t) \<and>
    holds_schedule be (fips1_W (load_word True c)) (Suc t) (snd st) c"
proof -
  obtain sa sb sc sd se where s: "s = (sa, sb, sc, sd, se)" by (rule list5.cases)
  have q: "t mod 5 < 5" by simp
  have m: "Suc (t mod 5) mod 5 = Suc t mod 5" by (simp only: mod_Suc_eq)
  note R = R_step_round [OF assms(1) q assms(2) [unfolded s list5.simps], unfolded m]
  consider "t < 16" "be" | "t < 16" "\<not> be" | "16 \<le> t" "t < 20" | "20 \<le> t" "t < 40" | "40 \<le> t" "t < 60" | "60 \<le> t"
    by linarith
  then show ?thesis
  proof cases
    case 1
    with H le R [of _ blk0 _ t l] blk0_fetch [of c t l] show ?thesis
      by (simp add: st_def r_op_def R0_def s fips1_f_def fips1_K_def ch_form rol_is_rotation add_ac)
  next
    case 2
    with H le R [of _ blk0le _ t l] blk0le_fetch [of c t l] show ?thesis
      by (simp add: st_def r_op_def R0le_def s fips1_f_def fips1_K_def ch_form rol_is_rotation add_ac)
  next
    case 3
    with R [of _ blk _ t l] blk_fetch [OF H] show ?thesis
      by (simp add: st_def r_op_def R1_def s fips1_f_def fips1_K_def ch_form rol_is_rotation add_ac)
  next
    case 4
    with R [of _ blk _ t l] blk_fetch [OF H] show ?thesis
      by (simp add: st_def r_op_def R2_def s fips1_f_def fips1_K_def rol_is_rotation add_ac)
  next
    case 5
    with R [of _ blk _ t l] blk_fetch [OF H] show ?thesis
      by (simp add: st_def r_op_def R3_def s fips1_f_def fips1_K_def maj_form rol_is_rotation add_ac)
  next
    case 6
    with R [of _ blk _ t l] blk_fetch [OF H] show ?thesis
      by (simp add: st_def r_op_def R4_def s fips1_f_def fips1_K_def rol_is_rotation add_ac)
  qed
qed


lemma r_fold:
  assumes "length r = 5" and "read5 r 0 = list5 s" and le: "lef = (\<not> be)"
    and H: "holds_schedule be (fips1_W (load_word True c)) 0 l c" and "n \<le> 80"
  defines "st \<equiv> foldl (\<lambda>st i. r_op lef i (r_calls ! (i mod 5)) i st) (r, l) [0..<n]"
  shows "length (fst st) = 5 \<and>
    read5 (fst st) (n mod 5) = list5 (foldl (fips1_round (fips1_W (load_word True c))) s [0..<n]) \<and>
    holds_schedule be (fips1_W (load_word True c)) n (snd st) c"
  using assms(5) unfolding st_def
proof (induction n)
  case 0
  then show ?case using assms by simp
next
  case (Suc n)
  define st where "st = foldl (\<lambda>st i. r_op lef i (r_calls ! (i mod 5)) i st) (r, l) [0..<n]"
  from Suc have "length (fst st) = 5 \<and>
      read5 (fst st) (n mod 5) = list5 (foldl (fips1_round (fips1_W (load_word True c))) s [0..<n]) \<and>
      holds_schedule be (fips1_W (load_word True c)) n (snd st) c" by (simp add: st_def)
  with r_op_round [of "fst st" n "foldl (fips1_round (fips1_W (load_word True c))) s [0..<n]" lef be c "snd st"]
    le Suc.prems
  show ?case by (simp add: st_def)
qed

lemma holds_start: "holds_schedule be W 0 (map (load_word be c) [0..<16]) c"
  by (simp add: holds_schedule_def)

lemma read5_0: "length r = 5 \<Longrightarrow> read5 r 0 = r"
  by (erule list_of_5) (simp add: read5_def r_calls_def)

lemma fips1_W_cong: "(\<And>i. i < 16 \<Longrightarrow> M i = N i) \<Longrightarrow> fips1_W M t = fips1_W N t"
  by (induction M t rule: fips1_W.induct) (simp add: fips1_W.simps)

lemma map2_tuple5:
  "length h = 5 \<Longrightarrow> length r = 5 \<Longrightarrow>
    [h ! 0 + r ! 0, h ! 1 + r ! 1, h ! 2 + r ! 2, h ! 3 + r ! 3, h ! 4 + r ! 4] = map2 (+) h r"
  by (erule list_of_5, erule list_of_5) simp

lemma SHA1Transform_is_fips:
  assumes h: "length h = 5" and m: "64 \<le> length m"
  shows "SHA1Transform be h m (\<not> be) = fips1_compress h (take 64 m)"
proof -
  let ?c = "take 64 m" and ?s = "tuple5 h"
  let ?r = "[h ! 0, h ! 1, h ! 2, h ! 3, h ! 4]"
  let ?st = "foldl (\<lambda>st i. r_op (\<not> be) i (r_calls ! (i mod 5)) i st) (?r, map (load_word be ?c) [0..<16]) [0..<80]"
  have r: "length ?r = 5" "read5 ?r 0 = list5 ?s" by (simp_all add: read5_0 tuple5_def)
  from r_fold [OF r refl holds_start order_refl]
  have f: "length (fst ?st) = 5" "read5 (fst ?st) 0 = list5 (foldl (fips1_round (fips1_W (load_word True ?c))) ?s [0..<80])"
    by simp_all
  have "fips1_W (load_word True ?c) = fips1_W (fips_word ?c 4)"
    using m by (intro ext fips1_W_cong) (simp add: load_be_is_fips)
  with f have "fst ?st = list5 (foldl (fips1_round (fips1_W (fips_word ?c 4))) ?s [0..<80])"
    by (simp add: read5_0)
  moreover have "length (fst ?st) = 5" by (rule f(1))
  moreover have "SHA1Transform be h m (\<not> be) = map2 (+) h (fst ?st)"
    unfolding map2_tuple5 [OF h f(1), symmetric] SHA1Transform_def Let_def by (simp only: case_prod_beta)
  ultimately show ?thesis unfolding fips1_compress_def by (simp only:)
qed

lemma fips1_length: "length h = 5 \<Longrightarrow> length (fips1_compress h m) = 5"
proof -
  assume "length h = 5"
  moreover have "length (list5 s) = 5" for s :: hash5 by (cases s) simp
  ultimately show ?thesis by (simp add: fips1_compress_def)
qed

lemma absorb_length5: "length s = 5 \<Longrightarrow> length (absorb 64 fips1_compress s xs) = 5"
proof (induction "length xs" arbitrary: s xs rule: less_induct)
  case less
  then show ?case by (cases "length xs < 64") (simp_all add: absorb_step fips1_length)
qed

subsection \<open>Update\<close>

definition sha1_total :: "SHA1_CTX \<Rightarrow> nat" where
  "sha1_total c = (unat (count1 c) * 2 ^ 32 + unat (count0 c)) div 8"

definition sha1_pending :: "SHA1_CTX \<Rightarrow> bytes" where
  "sha1_pending c = take (sha1_total c mod 64) (sbuffer c)"

definition sha1_valid :: "bool \<Rightarrow> SHA1_CTX \<Rightarrow> bool" where
  "sha1_valid be c \<longleftrightarrow> length (sbuffer c) = 64 \<and> length (state c) = 5 \<and> le c = (\<not> be) \<and> unat (count0 c) mod 8 = 0"

lemma unat_and_mask: "unat (x AND mask n) = unat (x :: 'a::len word) mod 2 ^ n"
  unfolding take_bit_eq_mask [symmetric] unsigned_take_bit_eq by (rule take_bit_eq_mod)

lemma unat_and_63: "unat (x AND 63) = unat (x :: u32) mod 64"
  using unat_and_mask [of x 6] by (simp add: mask_eq_exp_minus_1)

text \<open>The counters hold a 64-bit number of bits; the carry is found by comparison.\<close>

lemma add_carry:
  "unat (x + y :: u32) + (if x + y < y then 2 ^ 32 else 0) = unat x + unat y"
proof (cases "unat x + unat y < 2 ^ 32")
  case True
  then have "unat (x + y) = unat x + unat y" by (intro unat_add_lt) simp
  then show ?thesis by (simp add: word_less_nat_alt)
next
  case False
  have "unat x < 2 ^ 32" "unat y < 2 ^ 32" using unsigned_less [of x, where ?'a = nat] unsigned_less [of y, where ?'a = nat] by simp_all
  moreover from this False have "unat (x + y) = unat x + unat y - 2 ^ 32"
    by (simp add: unat_word_ariths mod_if)
  ultimately show ?thesis using False by (simp add: word_less_nat_alt)
qed

lemma count_split:
  "unat (push_bit 3 len :: u32) + 2 ^ 32 * unat (drop_bit 29 len) = 8 * unat len"
proof -
  have "unat (push_bit 3 len) = unat len * 8 mod 2 ^ 32"
    by (subst unsigned_push_bit_eq) (simp add: take_bit_eq_mod push_bit_eq_mult)
  moreover have "unat (drop_bit 29 len) = unat len * 8 div 2 ^ 32"
    unfolding unsigned_drop_bit_eq using unsigned_less [of len, where ?'a = nat]
    by (simp add: take_bit_nat_eq_self drop_bit_eq_div)
  ultimately show ?thesis
    using mult_div_mod_eq [of "2 ^ 32" "unat len * 8"] by (simp only: add.commute mult.commute)
qed

lemma count_add:
  fixes c0 c1 len :: u32
  defines "n0 \<equiv> c0 + push_bit 3 len"
  defines "n1 \<equiv> (if n0 < push_bit 3 len then c1 + 1 else c1) + drop_bit 29 len"
  assumes "unat c1 * 2 ^ 32 + unat c0 + 8 * unat len < 2 ^ 64"
  shows "unat n1 * 2 ^ 32 + unat n0 = unat c1 * 2 ^ 32 + unat c0 + 8 * unat len"
proof -
  let ?k = "if n0 < push_bit 3 len then 1 else 0 :: nat"
  have n0: "unat n0 + ?k * 2 ^ 32 = unat c0 + unat (push_bit 3 len)"
    using add_carry [of c0 "push_bit 3 len"] unfolding n0_def by (cases "c0 + push_bit 3 len < push_bit 3 len") simp_all
  have sum: "(unat c1 + ?k + unat (drop_bit 29 len)) * 2 ^ 32 + unat n0 = unat c1 * 2 ^ 32 + unat c0 + 8 * unat len"
    using n0 count_split [of len] by (simp add: algebra_simps del: push_bit_Suc)
  moreover define M where "M = unat c1 + ?k + unat (drop_bit 29 len)"
  ultimately have "M * 2 ^ 32 < 2 ^ 32 * 2 ^ 32" using assms(3) by simp
  then have small: "unat c1 + ?k + unat (drop_bit 29 len) < 2 ^ 32" unfolding M_def by simp
  have "unat (if n0 < push_bit 3 len then c1 + 1 else c1) = unat c1 + ?k"
    using small unat_add_lt [of c1 1] by auto
  then have "unat n1 = unat c1 + ?k + unat (drop_bit 29 len)"
    unfolding n1_def using small by (subst unat_add_lt) simp_all
  with sum show ?thesis by simp
qed

lemma sha1_blocks_absorb:
  assumes "unat i \<le> unat len" and "unat len + 127 < 2 ^ 32" and "length data = unat len" and "length st = 5"
  shows "\<exists>i2. sha1_blocks be (\<not> be) data len i st = Some (absorb 64 fips1_compress st (drop (unat i) data), i2) \<and>
    unat i2 = unat i + (unat len - unat i) div 64 * 64"
  using assms
proof (induction "unat len - unat i" arbitrary: i st rule: less_induct)
  case less
  have i63: "unat (i + 63) = unat i + 63" using less.prems(1,2) by (subst unat_add_lt) simp_all
  have i64: "unat (i + 64) = unat i + 64" using less.prems(1,2) by (subst unat_add_lt) simp_all
  have cond: "i + 63 < len \<longleftrightarrow> unat i + 64 \<le> unat len"
    unfolding word_less_nat_alt i63 by linarith
  show ?case
  proof (cases "unat i + 64 \<le> unat len")
    case False
    with less.prems show ?thesis by (simp add: sha1_blocks.simps cond)
  next
    case True
    let ?st = "SHA1Transform be st (drop (unat i) data) (\<not> be)"
    have st: "?st = fips1_compress st (take 64 (drop (unat i) data))"
      using True less.prems by (intro SHA1Transform_is_fips) simp_all
    obtain i2 where i2: "sha1_blocks be (\<not> be) data len (i + 64) ?st = Some (absorb 64 fips1_compress ?st (drop (unat (i + 64)) data), i2)"
        "unat i2 = unat (i + 64) + (unat len - unat (i + 64)) div 64 * 64"
    proof -
      have "unat len - unat (i + 64) < unat len - unat i" "unat (i + 64) \<le> unat len" "length ?st = 5"
        using True less.prems i64 by (simp_all add: st fips1_length)
      from less.hyps [OF this(1,2) less.prems(2,3) this(3)] that show thesis by blast
    qed
    have a: "absorb 64 fips1_compress st (drop (unat i) data) = absorb 64 fips1_compress ?st (drop (unat (i + 64)) data)"
      using True less.prems i64 by (subst absorb_step) (simp_all add: st add.commute)
    have b: "unat i + (unat len - unat i) div 64 * 64 = unat (i + 64) + (unat len - unat (i + 64)) div 64 * 64"
    proof -
      define B where "B = unat len - unat (i + 64)"
      have "unat len - unat i = B + 64" using True i64 by (simp add: B_def)
      then have "(unat len - unat i) div 64 * 64 = B div 64 * 64 + 64"
        using div_add_self2 [of 64 B] by (simp only:) simp
      then show ?thesis using i64 by (simp only: B_def)
    qed
    have "(length data < unat i + 64) = False" using True less.prems by simp
    moreover have "(i + 63 < len) = True" using True cond by simp
    ultimately have "sha1_blocks be (\<not> be) data len i st = sha1_blocks be (\<not> be) data len (i + 64) ?st"
      by (subst sha1_blocks.simps) (simp only: if_True if_False)
    with i2 a b show ?thesis by auto
  qed
qed


lemma bits_of_count:
  fixes a b :: nat
  shows "(a * 2 ^ 32 + b) mod 8 = b mod 8"
    and "b mod 8 = 0 \<Longrightarrow> a * 2 ^ 32 + b = 8 * ((a * 2 ^ 32 + b) div 8)"
    and "(a * 2 ^ 32 + b) div 8 = a * 2 ^ 29 + b div 8"
    and "(a * 2 ^ 29 + k) mod 64 = k mod 64"
proof -
  have e: "a * 2 ^ 32 = 8 * (a * 2 ^ 29)" "a * 2 ^ 29 = 64 * (a * 2 ^ 23)" by simp_all
  show m: "(a * 2 ^ 32 + b) mod 8 = b mod 8" unfolding e(1) by (rule mod_mult_self4)
  show "b mod 8 = 0 \<Longrightarrow> a * 2 ^ 32 + b = 8 * ((a * 2 ^ 32 + b) div 8)"
    using mult_div_mod_eq [of 8 "a * 2 ^ 32 + b"] by (simp only: m add_0_right)
  show "(a * 2 ^ 32 + b) div 8 = a * 2 ^ 29 + b div 8"
    unfolding e(1) by (rule div_mult_self4) simp
  show "(a * 2 ^ 29 + k) mod 64 = k mod 64" unfolding e(2) by (rule mod_mult_self4)
qed

lemma sha1_count_facts:
  assumes V: "sha1_valid be c"
  shows "unat (count1 c) * 2 ^ 32 + unat (count0 c) = 8 * sha1_total c"
    and "unat (drop_bit 3 (count0 c) AND 63) = sha1_total c mod 64"
proof -
  have m: "unat (count0 c) mod 8 = 0" using V by (simp add: sha1_valid_def)
  then show "unat (count1 c) * 2 ^ 32 + unat (count0 c) = 8 * sha1_total c"
    unfolding sha1_total_def by (rule bits_of_count(2))
  have "unat (drop_bit 3 (count0 c)) = unat (count0 c) div 8"
    unfolding unsigned_drop_bit_eq using unsigned_less [of "count0 c", where ?'a = nat]
    by (simp add: take_bit_nat_eq_self drop_bit_eq_div)
  moreover have "sha1_total c = unat (count1 c) * 2 ^ 29 + unat (count0 c) div 8"
    unfolding sha1_total_def by (rule bits_of_count(3))
  ultimately show "unat (drop_bit 3 (count0 c) AND 63) = sha1_total c mod 64"
    unfolding unat_and_63 by (simp only: bits_of_count(4))
qed

lemma SHA1Update_contract:
  assumes V: "sha1_valid be c" and chunk: "length d < 2 ^ 32 - 128" and lim: "sha1_total c + length d < 2 ^ 61"
  shows "\<exists>c'. SHA1Update be c d (of_nat (length d)) = Some c' \<and> sha1_valid be c' \<and>
    state c' = absorb 64 fips1_compress (state c) (sha1_pending c @ d) \<and>
    sha1_pending c' = leftover 64 (sha1_pending c @ d) \<and> sha1_total c' = sha1_total c + length d"
proof -
  let ?len = "of_nat (length d) :: u32" and ?t = "sha1_total c"
  define j where "j = ?t mod 64"
  have len: "unat ?len = length d" using chunk by (intro unat_of_nat_lt) simp
  have buf: "length (sbuffer c) = 64" and st: "length (state c) = 5" and le: "le c = (\<not> be)"
    using V by (simp_all add: sha1_valid_def)
  note cnt = sha1_count_facts [OF V]
  have uj: "unat (drop_bit 3 (count0 c) AND 63) = j" using cnt(2) by (simp add: j_def)
  have j: "j < 64" by (simp add: j_def)
  define c0 where "c0 = count0 c + push_bit 3 ?len"
  define c1 where "c1 = (if c0 < push_bit 3 ?len then count1 c + 1 else count1 c) + drop_bit 29 ?len"
  define ctx1 where "ctx1 = c\<lparr>count0 := c0, count1 := c1\<rparr>"
  have "unat c1 * 2 ^ 32 + unat c0 = unat (count1 c) * 2 ^ 32 + unat (count0 c) + 8 * unat ?len"
    unfolding c1_def c0_def using lim cnt(1) len by (intro count_add) simp
  then have tot8: "unat c1 * 2 ^ 32 + unat c0 = 8 * (?t + length d)" using cnt(1) len by simp
  then have c0m: "unat c0 mod 8 = 0" using bits_of_count(1) [of "unat c1" "unat c0"] by simp
  have tot: "sha1_total (ctx1\<lparr>sbuffer := b, state := s\<rparr>) = ?t + length d" "sha1_total (ctx1\<lparr>sbuffer := b\<rparr>) = ?t + length d" for b s
    using tot8 by (simp_all add: sha1_total_def ctx1_def)
  have jlen: "unat ((drop_bit 3 (count0 c) AND 63) + ?len) = j + length d"
    using chunk len uj j by (subst unat_add_lt) simp_all
  have pl: "length (sha1_pending c) = j" using buf j by (simp add: sha1_pending_def j_def)
  note upd = SHA1Update_def [of be c d ?len, folded c0_def, unfolded Let_def, folded c1_def, folded ctx1_def]
  show ?thesis
  proof (cases "j + length d < 64")
    case True
    let ?b = "overwrite j d (sbuffer c)"
    have "memcpy (sbuffer c) j d (length d) = Some ?b" using True buf by (simp add: memcpy_ok)
    then have u: "SHA1Update be c d ?len = Some (ctx1\<lparr>sbuffer := ?b\<rparr>)"
      using True jlen uj len by (simp add: upd word_less_nat_alt ctx1_def)
    have "(?t + length d) mod 64 = j + length d" using True mod_add_left_eq [of ?t 64 "length d"] by (simp add: j_def)
    then have p: "sha1_pending (ctx1\<lparr>sbuffer := ?b\<rparr>) = sha1_pending c @ d"
      using take_overwrite_end [of j "sbuffer c" d] buf j by (simp add: sha1_pending_def tot(2) j_def)
    show ?thesis
      using u p tot(2) [of ?b] True pl buf st le c0m by (simp add: sha1_valid_def ctx1_def)
  next
    case False
    define i where "i = 64 - (drop_bit 3 (count0 c) AND 63 :: u32)"
    have ui: "unat i = 64 - j" unfolding i_def using uj j by (subst unat_sub_le) (simp_all add: word_le_nat_alt)
    have i: "unat i \<le> length d" using ui False by simp
    let ?b = "overwrite j (take (unat i) d) (sbuffer c)"
    have b: "?b = sha1_pending c @ take (unat i) d" "length ?b = 64"
      using take_overwrite_end [of j "sbuffer c" "take (unat i) d"] buf j ui i
      by (simp_all add: sha1_pending_def j_def min_absorb2 del: take_all_iff)
    have m1: "memcpy (sbuffer c) j d (unat i) = Some ?b" using ui i buf j by (simp add: memcpy_ok)
    let ?s = "fips1_compress (state c) (sha1_pending c @ take (unat i) d)"
    have s: "SHA1Transform be (state c) ?b (\<not> be) = ?s" "length ?s = 5"
    proof -
      have "take 64 ?b = ?b" using b(2) by simp
      then show "SHA1Transform be (state c) ?b (\<not> be) = ?s"
        using SHA1Transform_is_fips [OF st, of ?b be] b(2) unfolding b(1) [symmetric] by simp
    qed (rule fips1_length [OF st])
    obtain i2 where blocks: "sha1_blocks be (\<not> be) d ?len i ?s = Some (absorb 64 fips1_compress ?s (drop (unat i) d), i2)"
        "unat i2 = unat i + (length d - unat i) div 64 * 64"
      using sha1_blocks_absorb [of i ?len d ?s be] i len chunk s(2) by auto
    have i2: "unat i2 \<le> length d" using blocks(2) i div_times_less_eq_dividend [of "length d - unat i" 64] by linarith
    have rem: "unat (?len - i2) = (length d - unat i) mod 64"
    proof -
      have "unat (?len - i2) = length d - unat i2" using i2 len by (subst unat_sub_le) (simp_all add: word_le_nat_alt)
      then show ?thesis using blocks(2) minus_div_mult_eq_mod [of "length d - unat i" 64] by linarith
    qed
    let ?b2 = "overwrite 0 (leftover 64 (drop (unat i) d)) ?b"
    have lo: "take ((length d - unat i) mod 64) (drop (unat i2) d) = leftover 64 (drop (unat i) d)"
    proof -
      have "drop (unat i2) d = leftover 64 (drop (unat i) d)"
        by (simp add: leftover_def blocks(2) add.commute)
      moreover have "length (leftover 64 (drop (unat i) d)) = (length d - unat i) mod 64"
        by (simp add: leftover_def minus_div_mult_eq_mod del: drop_drop)
      ultimately show ?thesis by simp
    qed
    have "(length d - unat i) mod 64 \<le> length d - unat i2"
      using minus_div_mult_eq_mod [of "length d - unat i" 64] i blocks(2) by linarith
    then have m2: "memcpy ?b 0 (drop (unat i2) d) (unat (?len - i2)) = Some ?b2"
      using b(2) rem lo mod_less_divisor [of 64 "length d - unat i"] by (simp add: memcpy_ok less_imp_le)
    let ?c' = "ctx1\<lparr>sbuffer := ?b2, state := absorb 64 fips1_compress ?s (drop (unat i) d)\<rparr>"
    have "63 < (drop_bit 3 (count0 c) AND 63) + ?len" using False jlen by (simp add: word_less_nat_alt)
    then have u: "SHA1Update be c d ?len = Some ?c'"
      using m1 m2 blocks(1) s(1) le uj by (simp add: upd ctx1_def i_def [symmetric])
    have one: "length (sha1_pending c @ take (unat i) d) = 64" using b by simp
    have split: "sha1_pending c @ d = (sha1_pending c @ take (unat i) d) @ drop (unat i) d" by simp
    have h: "absorb 64 fips1_compress (state c) (sha1_pending c @ d) = absorb 64 fips1_compress ?s (drop (unat i) d)"
      unfolding split using one by (subst absorb_append) (simp_all only: absorb_one zero_less_numeral mod_self)
    have l: "leftover 64 (sha1_pending c @ d) = leftover 64 (drop (unat i) d)"
      unfolding split using one by (subst leftover_append) (simp_all only: leftover_exact append_Nil zero_less_numeral)
    have lolen: "length (leftover 64 (drop (unat i) d)) = (length d - unat i) mod 64"
      by (simp add: leftover_def minus_div_mult_eq_mod del: drop_drop)
    have lo64: "length (leftover 64 (drop (unat i) d)) < 64" by (simp add: leftover_length)
    obtain a where a: "?t = a * 64 + j" unfolding j_def by (metis div_mult_mod_eq)
    moreover have "unat i + j = 64" "length d = unat i + (length d - unat i)" using i ui j by simp_all
    ultimately have "?t + length d = (a + 1) * 64 + (length d - unat i)"
      by (simp only: add_mult_distrib mult_1)
    then have "(?t + length d) mod 64 = (length d - unat i) mod 64" by (metis mod_mult_self3)
    then have p: "sha1_pending ?c' = leftover 64 (drop (unat i) d)"
      using overwrite_0_take [of "leftover 64 (drop (unat i) d)" ?b] lolen by (simp add: sha1_pending_def tot(1))
    have "length (absorb 64 fips1_compress ?s (drop (unat i) d)) = 5"
      using s(2) by (rule absorb_length5)
    then have "sha1_valid be ?c'" using b(2) lo64 le c0m by (simp add: sha1_valid_def ctx1_def)
    then show ?thesis using u h l p tot(1) by simp
  qed
qed


interpretation sha1u: stream_hash 64 fips1_compress fips1_H0 state sha1_pending sha1_total "sha1_valid be"
    "\<lambda>c d. SHA1Update be c d (of_nat (length d))" "2 ^ 32 - 128" "2 ^ 61" for be
proof
  show "length (sha1_pending c) = sha1_total c mod 64" if "sha1_valid be c" for c
    using that by (simp add: sha1_pending_def sha1_valid_def min_absorb2 less_imp_le)
qed (rule SHA1Update_contract | simp)+

subsection \<open>Final\<close>

lemma update_bytes:
  assumes "sha1_valid be c" and "length d < 100" and "sha1_total c + length d < 2 ^ 61"
  shows "\<exists>c'. SHA1Update be c d (of_nat (length d)) = Some c' \<and> sha1u.extends be c d c'"
  using sha1u.update_extends [OF assms(1) _ assms(3)] assms(2) by simp

lemma pad_loop_test:
  assumes V: "sha1_valid be c"
  shows "count0 c AND 504 = 448 \<longleftrightarrow> sha1_total c mod 64 = 56"
proof -
  let ?x = "count0 c" and ?y = "drop_bit 3 (count0 c) AND 63"
  have "unat (take_bit 3 ?x) = 0"
    using V unfolding unsigned_take_bit_eq by (simp add: sha1_valid_def take_bit_eq_mod)
  then have "push_bit 3 (drop_bit 3 ?x) = ?x"
    using bits_ident [of 3 ?x] by (simp add: unat_eq_0)
  moreover have "push_bit 3 (63 :: u32) = 504" by (simp add: push_bit_eq_mult)
  ultimately have and504: "?x AND 504 = push_bit 3 ?y" by (metis push_bit_and)
  have y: "unat ?y = sha1_total c mod 64" by (rule sha1_count_facts(2) [OF V])
  then have "unat (push_bit 3 ?y) = 8 * (sha1_total c mod 64)"
    by (subst unat_push_bit_lt) simp_all
  then show ?thesis unfolding and504 word_unat_eq_iff by simp
qed

lemma pad_not_yet: "k < 63 \<Longrightarrow> (t + Suc k) mod 64 = 56 \<Longrightarrow> t mod 64 \<noteq> (56 :: nat)"
proof
  assume k: "k < 63" and t: "(t + Suc k) mod 64 = 56" "t mod 64 = 56"
  then have "(56 + Suc k) mod 64 = 56" by (metis mod_add_left_eq)
  moreover have "(56 + Suc k) mod 64 = (if 56 + Suc k < 64 then 56 + Suc k else Suc k - 8)"
  proof (cases "56 + Suc k < 64")
    case False
    then have "56 + Suc k = (Suc k - 8) + 64" by simp
    then have "(56 + Suc k) mod 64 = (Suc k - 8) mod 64" by (simp only: mod_add_self2)
    with False k show ?thesis by simp
  qed simp
  ultimately show False using k by (simp split: if_splits)
qed

lemma sha1_pad_loop_extends:
  "sha1_valid be c \<Longrightarrow> k < 64 \<Longrightarrow> (sha1_total c + k) mod 64 = 56 \<Longrightarrow> sha1_total c + k < 2 ^ 61 \<Longrightarrow>
    \<exists>c'. sha1_pad_loop be c = Some c' \<and> sha1u.extends be c (replicate k 0) c'"
proof (induction k arbitrary: c)
  case 0
  then have "sha1u.extends be c [] c"
    by (simp add: sha1u.extends_def sha1_pending_def sha1_valid_def min_absorb2 less_imp_le)
  with 0 pad_loop_test [OF 0(1)] show ?case by (simp add: sha1_pad_loop.simps [of be c])
next
  case (Suc k)
  then have k: "k < 63" by simp
  obtain c1 where c1: "SHA1Update be c [0] 1 = Some c1" "sha1u.extends be c [0] c1"
    using update_bytes [OF Suc.prems(1), of "[0]"] Suc.prems(4) by auto
  then have v: "sha1_valid be c1" "sha1_total c1 = sha1_total c + 1"
    using sha1u.extends_valid by auto
  then obtain c2 where c2: "sha1_pad_loop be c1 = Some c2" "sha1u.extends be c1 (replicate k 0) c2"
    using Suc.IH [of c1] Suc.prems by auto
  have "sha1u.extends be c (replicate (Suc k) 0) c2"
    using sha1u.extends_trans [OF c1(2) c2(2)] by simp
  moreover have "count0 c AND 504 \<noteq> 448"
    using pad_loop_test [OF Suc.prems(1)] pad_not_yet [OF k Suc.prems(3)] by simp
  ultimately show ?case using c1(1) c2(1) by (simp add: sha1_pad_loop.simps [of be c])
qed


lemma word_eq_zero256: "(of_nat (x * 2 ^ 8) :: u8) = 0"
  by transfer (simp add: take_bit_eq_mod)

text \<open>The bytes of a 64-bit number held in two words.\<close>

lemma two_words_hi:
  "b < 2 ^ 32 \<Longrightarrow> (a * 2 ^ 32 + b :: nat) div 2 ^ (32 + k) = a div 2 ^ k"
  unfolding power_add div_mult2_eq by (subst div_mult_self3) simp_all

lemma two_words_lo:
  fixes a b :: nat
  assumes "k \<le> 24"
  shows "(of_nat ((a * 2 ^ 32 + b) div 2 ^ k) :: u8) = of_nat (b div 2 ^ k)"
proof -
  obtain j where j: "32 = k + (8 + j)" by (rule that [of "24 - k"]) (use assms in simp)
  have "a * 2 ^ 32 + b = a * 2 ^ j * 2 ^ 8 * 2 ^ k + b"
    unfolding j power_add by (simp only: mult.assoc mult.commute mult.left_commute)
  then have "(a * 2 ^ 32 + b) div 2 ^ k = a * 2 ^ j * 2 ^ 8 + b div 2 ^ k"
    by (simp only: div_mult_self3 power_not_zero zero_neq_numeral not_False_eq_True simp_thms)
  then show ?thesis by (simp only: of_nat_add word_eq_zero256 add_0)
qed

lemma finalcount_is_length:
  assumes V: "sha1_valid be c"
  shows "map (\<lambda>i. ucast (drop_bit ((3 - i mod 4) * 8) (if 4 \<le> i then count0 c else count1 c) AND 255)) [0..<8] =
    be_field 8 (8 * sha1_total c)"
proof -
  have byte: "(ucast (drop_bit k x AND 255 :: u32) :: u8) = of_nat (unat x div 2 ^ k)" for k x
  proof -
    have "(ucast (drop_bit k x AND 255 :: u32) :: u8) = ucast (drop_bit k x)"
    proof -
      have "(255 :: u32) = mask 8" by (simp add: mask_eq_exp_minus_1)
      then have "drop_bit k x AND 255 = take_bit 8 (drop_bit k x)" by (simp only: take_bit_eq_mask)
      then show ?thesis by (simp only:) (rule bit_word_eqI, simp add: bit_simps)
    qed
    then show ?thesis by (simp only: ucast_drop_bit)
  qed
  let ?n = "8 * sha1_total c"
  have n: "?n = unat (count1 c) * 2 ^ 32 + unat (count0 c)" by (simp only: sha1_count_facts(1) [OF V])
  have c0: "unat (count0 c) < 2 ^ 32" using unsigned_less [of "count0 c", where ?'a = nat] by simp
  have be8: "be_field 8 ?n = [of_nat (?n div 2 ^ (32 + 24)), of_nat (?n div 2 ^ (32 + 16)), of_nat (?n div 2 ^ (32 + 8)),
      of_nat (?n div 2 ^ (32 + 0)), of_nat (?n div 2 ^ 24), of_nat (?n div 2 ^ 16), of_nat (?n div 2 ^ 8), of_nat (?n div 2 ^ 0)]"
    by (simp add: be_field_def map_upt_8)
  show ?thesis unfolding be8 unfolding n two_words_hi [OF c0] map_upt_8 byte
    using two_words_lo [of 24 "unat (count1 c)" "unat (count0 c)"] two_words_lo [of 16 "unat (count1 c)" "unat (count0 c)"]
      two_words_lo [of 8 "unat (count1 c)" "unat (count0 c)"] two_words_lo [of 0 "unat (count1 c)" "unat (count0 c)"]
    by simp
qed


lemma sha1_out_fields: "length st = 5 \<Longrightarrow> sha1_out st = concat (map (be_field 4 \<circ> unat) st)"
proof (erule list_of_5)
  fix a b c d e :: u32
  assume st: "st = [a, b, c, d, e]"
  have byte: "(ucast (drop_bit k x AND 255 :: u32) :: u8) = ucast (drop_bit k x)" for k x
  proof -
    have "(255 :: u32) = mask 8" by (simp add: mask_eq_exp_minus_1)
    then have "drop_bit k x AND 255 = take_bit 8 (drop_bit k x)" by (simp only: take_bit_eq_mask)
    then show ?thesis by (simp only:) (rule bit_word_eqI, simp add: bit_simps)
  qed
  have u: "[0..<20] = [0, 1, 2, 3, 4, 5, 6, 7, 8, 9, 10, 11, 12, 13, 14, 15, 16, 17, 18, 19 :: nat]"
    by (simp add: upt_rec)
  show ?thesis
    unfolding st sha1_out_def u by (simp add: byte UNPACK32_is_fips [symmetric] UNPACK32_def)
qed

lemma SHA1Final_contract:
  assumes V: "sha1_valid be c" and lim: "sha1_total c < 2 ^ 61 - 128"
  shows "map_option fst (SHA1Final be c) = Some (concat (map (be_field 4 \<circ> unat)
    (absorb 64 fips1_compress (state c) (sha1_pending c @ fips_pad 64 8 (sha1_total c)))))"
proof -
  let ?t = "sha1_total c" and ?k = "(119 - sha1_total c mod 64) mod 64"
  have k: "?k < 64" by simp
  obtain c1 where c1: "SHA1Update be c [0x80] 1 = Some c1" "sha1u.extends be c [0x80] c1"
    using update_bytes [OF V, of "[0x80]"] lim by auto
  then have v1: "sha1_valid be c1" "sha1_total c1 = ?t + 1" using sha1u.extends_valid by auto
  have mod: "(sha1_total c1 + ?k) mod 64 = 56"
  proof -
    have "(?t + 1 + ?k) mod 64 = (?t mod 64 + 1 + (119 - ?t mod 64)) mod 64"
      by (metis mod_add_left_eq mod_add_right_eq)
    also have "?t mod 64 + 1 + (119 - ?t mod 64) = 120"
      using mod_less_divisor [of 64 ?t] by linarith
    finally show ?thesis using v1(2) by simp
  qed
  obtain c2 where c2: "sha1_pad_loop be c1 = Some c2" "sha1u.extends be c1 (replicate ?k 0) c2"
  proof -
    have "sha1_total c1 + ?k < 2 ^ 61" using v1(2) lim k by linarith
    from sha1_pad_loop_extends [OF v1(1) k mod this] that show thesis by blast
  qed
  have e2: "sha1u.extends be c (0x80 # replicate ?k 0) c2"
    using sha1u.extends_trans [OF c1(2) c2(2)] by simp
  then have v2: "sha1_valid be c2" "sha1_total c2 = ?t + Suc ?k" using sha1u.extends_valid by auto
  let ?f = "be_field 8 (8 * ?t)"
  obtain c3 where c3: "SHA1Update be c2 ?f 8 = Some c3" "sha1u.extends be c2 ?f c3"
  proof -
    have "length ?f = 8" by simp
    moreover from this have "sha1_total c2 + length ?f < 2 ^ 61" using v2(2) lim k by linarith
    ultimately show thesis using update_bytes [OF v2(1), of ?f] that by auto
  qed
  have "sha1u.extends be c (fips_pad 64 8 ?t) c3"
    using sha1u.extends_trans [OF e2 c3(2)] by (simp add: fips_pad_def fips_pad_field_def)
  then have s3: "state c3 = absorb 64 fips1_compress (state c) (sha1_pending c @ fips_pad 64 8 ?t)" "sha1_valid be c3"
    by (simp_all add: sha1u.extends_def)
  then have "length (state c3) = 5" by (simp add: sha1_valid_def)
  then have "map_option fst (SHA1Final be c) = Some (concat (map (be_field 4 \<circ> unat) (state c3)))"
    using c1(1) c2(1) c3(1) unfolding SHA1Final_def Let_def finalcount_is_length [OF V]
    by (simp add: sha1_out_fields)
  then show ?thesis by (simp only: s3(1))
qed

interpretation sha1s: stream_digest 64 fips1_compress fips1_H0 state sha1_pending sha1_total "sha1_valid be"
    "\<lambda>c d. SHA1Update be c d (of_nat (length d))" "2 ^ 32 - 128" "2 ^ 61 - 128"
    "fips_pad 64 8" "\<lambda>h. concat (map (be_field 4 \<circ> unat) h)" "\<lambda>c. map_option fst (SHA1Final be c)" for be
proof
  show "length (sha1_pending c) = sha1_total c mod 64" if "sha1_valid be c" for c
    by (rule sha1u.pending_length [OF that])
qed (rule SHA1Final_contract SHA1Update_contract | simp)+

lemma SHA1Init_represents:
  "length (sbuffer c) = 64 \<Longrightarrow> sha1s.represents be (SHA1Init be c) []"
  by (intro sha1s.represents_init) (simp_all add: SHA1Init_def sha1_valid_def sha1_total_def sha1_pending_def be_test_def fips1_H0_def)

subsection \<open>The properties\<close>

definition fips1_digest :: "bytes \<Rightarrow> bytes" where
  "fips1_digest msg = concat (map (be_field 4 \<circ> unat) (absorb 64 fips1_compress fips1_H0 (msg @ fips_pad 64 8 (length msg))))"

text \<open>
  C17. On a machine of either byte order, \<open>SHA1Init\<close>, any sequence of \<open>SHA1Update\<close> calls on pieces of
  less than 2^32 - 128 bytes and \<open>SHA1Final\<close> return, never touch memory outside the buffers, and
  give the FIPS 180 digest of the concatenation, for messages up to 2^61 - 128 bytes.
\<close>
theorem sha1_streaming_computes_fips:
  assumes "length (sbuffer c) = 64" and "\<forall>d \<in> set ds. length d < 2 ^ 32 - 128" and "length (concat ds) < 2 ^ 61 - 128"
  shows "Option.bind (feed (\<lambda>c d. SHA1Update be c d (of_nat (length d))) ds (SHA1Init be c))
      (\<lambda>c. map_option fst (SHA1Final be c)) = Some (fips1_digest (concat ds))"
  unfolding fips1_digest_def
  by (rule sha1s.digest_of_chunks [OF SHA1Init_represents [OF assms(1)] assms(2,3)])

definition sha1_zero :: SHA1_CTX where
  "sha1_zero = \<lparr>state = [], count0 = 0, count1 = 0, sbuffer = replicate 64 0, le = False\<rparr>"

lemma sha1_streaming_computes_fips_witness:
  "Option.bind (feed (\<lambda>c d. SHA1Update True c d (of_nat (length d))) [[0x61], [0x62, 0x63]] (SHA1Init True sha1_zero))
      (\<lambda>c. map_option fst (SHA1Final True c)) = Some (fips1_digest [0x61, 0x62, 0x63])"
  using sha1_streaming_computes_fips [of sha1_zero "[[0x61], [0x62, 0x63]]" True] by (simp add: sha1_zero_def)

text \<open>
  The one-shot \<open>SHA1\<close>, which copies the message in slices of 16384 bytes, returns 1 and the
  FIPS 180 digest for every message up to 2^61 - 128 bytes: the slice loop ends, covers the message
  exactly once and never overruns its buffer.
\<close>
theorem SHA1_slices_compute_fips:
  assumes "length (sbuffer c) = 64" and "length msg < 2 ^ 61 - 128"
  shows "SHA1 be msg (of_nat (length msg)) c = Some (1, fips1_digest msg)"
proof -
  have len: "length msg = unat (of_nat (length msg) :: u64)" using assms(2) by (subst unat_of_nat_lt) simp_all
  obtain c1 where c1: "slices (\<lambda>c d. SHA1Update be c d (of_nat (length d))) msg (of_nat (length msg)) 16384 (SHA1Init be c) = Some c1"
      "sha1s.represents be c1 msg"
    using sha1s.represents_slices [OF _ SHA1Init_represents [OF assms(1)] len, of 16384] assms(2) by auto
  from sha1s.final_represents [OF c1(2) assms(2)] obtain p where
      "SHA1Final be c1 = Some p" "fst p = fips1_digest msg"
    by (auto simp: fips1_digest_def)
  with c1(1) show ?thesis by (cases p) (simp add: SHA1_def)
qed

lemma SHA1_slices_compute_fips_witness:
  "SHA1 False [0x61, 0x62, 0x63] 3 sha1_zero = Some (1, fips1_digest [0x61, 0x62, 0x63])"
  using SHA1_slices_compute_fips [of sha1_zero "[0x61, 0x62, 0x63]" False] by (simp add: sha1_zero_def)

end
