(* ===== verification/Md5.thy ===== *)
theory Md5
  imports BlockHash
begin

text \<open>
  \<open>dll_src/hash/src/md5.c\<close>: MD5 with the optimised round functions, the 64 \<open>STEP\<close> lines of \<open>body\<close>, the
  29-bit and 32-bit counters and the buffering of \<open>MD5_Update\<close> and \<open>MD5_Final\<close>. \<open>SET\<close> and \<open>GET\<close> read
  a little-endian word of the input, as both of their definitions do; the copy of the input words
  that the portable one keeps in \<open>block\<close> is never read elsewhere and is left out.
\<close>

subsection \<open>Macros and steps\<close>

definition F :: "u32 \<Rightarrow> u32 \<Rightarrow> u32 \<Rightarrow> u32" where
  "F x y z = z XOR (x AND (y XOR z))"
definition G :: "u32 \<Rightarrow> u32 \<Rightarrow> u32 \<Rightarrow> u32" where
  "G x y z = y XOR (z AND (x XOR y))"
definition H :: "u32 \<Rightarrow> u32 \<Rightarrow> u32 \<Rightarrow> u32" where
  "H x y z = x XOR y XOR z"
definition I :: "u32 \<Rightarrow> u32 \<Rightarrow> u32 \<Rightarrow> u32" where
  "I x y z = y XOR (x OR NOT z)"

type_synonym step_args = "nat \<times> nat \<times> nat \<times> nat"

text \<open>The registers are the list of \<open>a\<close> to \<open>d\<close>; the three statements of the macro in turn.\<close>

definition STEP :: "(u32 \<Rightarrow> u32 \<Rightarrow> u32 \<Rightarrow> u32) \<Rightarrow> step_args \<Rightarrow> u32 \<Rightarrow> u32 \<Rightarrow> nat \<Rightarrow> u32 list \<Rightarrow> u32 list" where
  "STEP f args x t s r =
     (case args of (a, b, c, d) \<Rightarrow>
       let r1 = r[a := r ! a + (f (r ! b) (r ! c) (r ! d) + x + t)];
           r2 = r1[a := push_bit s (r1 ! a) OR drop_bit (32 - s) (r1 ! a AND 0xffffffff)]
       in r2[a := r2 ! a + r2 ! b])"

definition SET :: "bytes \<Rightarrow> nat \<Rightarrow> u32" where
  "SET ptr n = ucast (ptr ! (n * 4)) OR push_bit 8 (ucast (ptr ! (n * 4 + 1))) OR
     push_bit 16 (ucast (ptr ! (n * 4 + 2))) OR push_bit 24 (ucast (ptr ! (n * 4 + 3)))"

text \<open>
  The argument lists of the lines, \<open>(a,b,c,d)\<close>, \<open>(d,a,b,c)\<close> and so on, repeat after four. The
  other arguments of the 64 lines: the index of the input word, the constant and the rotation.
\<close>

definition step_calls :: "step_args list" where
  "step_calls = [(0, 1, 2, 3), (3, 0, 1, 2), (2, 3, 0, 1), (1, 2, 3, 0)]"

definition step_table :: "(nat \<times> u32 \<times> nat) list" where
  "step_table =
    [(0, 0xd76aa478, 7), (1, 0xe8c7b756, 12), (2, 0x242070db, 17), (3, 0xc1bdceee, 22),
     (4, 0xf57c0faf, 7), (5, 0x4787c62a, 12), (6, 0xa8304613, 17), (7, 0xfd469501, 22),
     (8, 0x698098d8, 7), (9, 0x8b44f7af, 12), (10, 0xffff5bb1, 17), (11, 0x895cd7be, 22),
     (12, 0x6b901122, 7), (13, 0xfd987193, 12), (14, 0xa679438e, 17), (15, 0x49b40821, 22),
     (1, 0xf61e2562, 5), (6, 0xc040b340, 9), (11, 0x265e5a51, 14), (0, 0xe9b6c7aa, 20),
     (5, 0xd62f105d, 5), (10, 0x02441453, 9), (15, 0xd8a1e681, 14), (4, 0xe7d3fbc8, 20),
     (9, 0x21e1cde6, 5), (14, 0xc33707d6, 9), (3, 0xf4d50d87, 14), (8, 0x455a14ed, 20),
     (13, 0xa9e3e905, 5), (2, 0xfcefa3f8, 9), (7, 0x676f02d9, 14), (12, 0x8d2a4c8a, 20),
     (5, 0xfffa3942, 4), (8, 0x8771f681, 11), (11, 0x6d9d6122, 16), (14, 0xfde5380c, 23),
     (1, 0xa4beea44, 4), (4, 0x4bdecfa9, 11), (7, 0xf6bb4b60, 16), (10, 0xbebfbc70, 23),
     (13, 0x289b7ec6, 4), (0, 0xeaa127fa, 11), (3, 0xd4ef3085, 16), (6, 0x04881d05, 23),
     (9, 0xd9d4d039, 4), (12, 0xe6db99e5, 11), (15, 0x1fa27cf8, 16), (2, 0xc4ac5665, 23),
     (0, 0xf4292244, 6), (7, 0x432aff97, 10), (14, 0xab9423a7, 15), (5, 0xfc93a039, 21),
     (12, 0x655b59c3, 6), (3, 0x8f0ccc92, 10), (10, 0xffeff47d, 15), (1, 0x85845dd1, 21),
     (8, 0x6fa87e4f, 6), (15, 0xfe2ce6e0, 10), (6, 0xa3014314, 15), (13, 0x4e0811a1, 21),
     (4, 0xf7537e82, 6), (11, 0xbd3af235, 10), (2, 0x2ad7d2bb, 15), (9, 0xeb86d391, 21)]"

definition step_fun :: "nat \<Rightarrow> u32 \<Rightarrow> u32 \<Rightarrow> u32 \<Rightarrow> u32" where
  "step_fun i = (if i < 16 then F else if i < 32 then G else if i < 48 then H else I)"

definition body_block :: "u32 list \<Rightarrow> bytes \<Rightarrow> u32 list" where
  "body_block abcd ptr =
     (let r = foldl (\<lambda>r i. case step_table ! i of (n, t, s) \<Rightarrow>
                 STEP (step_fun i) (step_calls ! (i mod 4)) (SET ptr n) t s r) abcd [0..<64]
      in [r ! 0 + abcd ! 0, r ! 1 + abcd ! 1, r ! 2 + abcd ! 2, r ! 3 + abcd ! 3])"

subsection \<open>The context\<close>

text \<open>\<open>abcd\<close> holds the fields \<open>a\<close>, \<open>b\<close>, \<open>c\<close> and \<open>d\<close>.\<close>

record MD5_CTX =
  lo :: u32
  hi :: u32
  abcd :: "u32 list"
  mbuffer :: bytes

text \<open>
  \<open>do ... while (size -= 64)\<close>: the loop reads past the data and never ends when \<open>size\<close> is not a
  positive multiple of 64, which is \<open>None\<close>. It returns the registers and the pointer behind the
  blocks, as the rest of the data.
\<close>

partial_function (option) body :: "u32 list \<Rightarrow> bytes \<Rightarrow> u32 \<Rightarrow> (u32 list \<times> bytes) option" where
  "body st data size0 =
     (if length data < 64 then None
      else let st1 = body_block st data; size1 = size0 - 64
           in if size1 \<noteq> 0 then body st1 (drop 64 data) size1 else Some (st1, drop 64 data))"

declare body.simps [code]

definition MD5_Init :: "MD5_CTX \<Rightarrow> MD5_CTX" where
  "MD5_Init ctx = ctx\<lparr>abcd := [0x67452301, 0xefcdab89, 0x98badcfe, 0x10325476], lo := 0, hi := 0\<rparr>"

text \<open>The part of \<open>MD5_Update\<close> from \<open>if (size0 >= 64)\<close> on.\<close>

definition md5_update_rest :: "MD5_CTX \<Rightarrow> bytes \<Rightarrow> u32 \<Rightarrow> MD5_CTX option" where
  "md5_update_rest ctx data size0 =
     (if size0 \<ge> 64 then do {
        (st, data1) \<leftarrow> body (abcd ctx) data (size0 AND NOT 0x3f);
        let ctx1 = ctx\<lparr>abcd := st\<rparr>;
        buf \<leftarrow> memcpy (mbuffer ctx1) 0 data1 (unat (size0 AND 0x3f));
        Some (ctx1\<lparr>mbuffer := buf\<rparr>)
      }
      else do {
        buf \<leftarrow> memcpy (mbuffer ctx) 0 data (unat size0);
        Some (ctx\<lparr>mbuffer := buf\<rparr>)
      })"

definition MD5_Update :: "MD5_CTX \<Rightarrow> bytes \<Rightarrow> u32 \<Rightarrow> MD5_CTX option" where
  "MD5_Update ctx data size0 =
     (let saved_lo = lo ctx;
          lo1 = (saved_lo + size0) AND 0x1fffffff;
          hi1 = (if lo1 < saved_lo then hi ctx + 1 else hi ctx) + drop_bit 29 size0;
          ctx1 = ctx\<lparr>lo := lo1, hi := hi1\<rparr>;
          used = saved_lo AND 0x3f
      in if used \<noteq> 0
         then let free = 64 - used
              in if size0 < free
                 then do {
                   buf \<leftarrow> memcpy (mbuffer ctx1) (unat used) data (unat size0);
                   Some (ctx1\<lparr>mbuffer := buf\<rparr>)
                 }
                 else do {
                   buf \<leftarrow> memcpy (mbuffer ctx1) (unat used) data (unat free);
                   (st, _) \<leftarrow> body (abcd ctx1) buf 64;
                   md5_update_rest (ctx1\<lparr>mbuffer := buf, abcd := st\<rparr>) (drop (unat free) data) (size0 - free)
                 }
         else md5_update_rest ctx1 data size0)"

definition byte_at :: "nat \<Rightarrow> u32 \<Rightarrow> u8" where
  "byte_at k x = ucast (drop_bit k x)"

text \<open>\<open>MD5_Final\<close> returns the result; the context is cleared with \<open>memset\<close> and its content is gone.\<close>

definition MD5_Final :: "MD5_CTX \<Rightarrow> bytes option" where
  "MD5_Final ctx =
     (let used0 = lo ctx AND 0x3f;
          buf0 = (mbuffer ctx)[unat used0 := 0x80];
          used = used0 + 1;
          free = 64 - used
      in do {
        (buf1, st1, used1, free1) \<leftarrow>
          (if free < 8 then do {
             b \<leftarrow> memcpy buf0 (unat used) (replicate (unat free) 0) (unat free);
             (st, _) \<leftarrow> body (abcd ctx) b 64;
             Some (b, st, 0, 64)
           } else Some (buf0, abcd ctx, used, free));
        buf2 \<leftarrow> memcpy buf1 (unat used1) (replicate (unat (free1 - 8)) 0) (unat (free1 - 8));
        let lo1 = push_bit 3 (lo ctx);
        let buf3 = buf2[56 := byte_at 0 lo1, 57 := byte_at 8 lo1, 58 := byte_at 16 lo1, 59 := byte_at 24 lo1,
          60 := byte_at 0 (hi ctx), 61 := byte_at 8 (hi ctx), 62 := byte_at 16 (hi ctx), 63 := byte_at 24 (hi ctx)];
        (st2, _) \<leftarrow> body st1 buf3 64;
        Some (concat (map (\<lambda>i. [byte_at 0 (st2 ! i), byte_at 8 (st2 ! i), byte_at 16 (st2 ! i), byte_at 24 (st2 ! i)]) [0..<4]))
      })"

end
