(* ===== verification/Md5Constants.thy ===== *)
theory Md5Constants
  imports Md5 Complex_Main
begin

text \<open>
  The 64 additive constants of MD5 as RFC 1321 defines them, the integer part of 4294967296 times the
  absolute value of the sine of 1 to 64 radians, and the proof that the table of md5.c holds them. The
  sine is followed in fixed point with 128 bits: \<open>sin 1\<close> and \<open>cos 1\<close> from their series, the
  others from the addition theorems, with an error that at most doubles in each step.
\<close>

definition rfc_T :: "nat \<Rightarrow> u32" where
  "rfc_T i = word_of_int \<lfloor>4294967296 * \<bar>sin (real i)\<bar>\<rfloor>"

subsection \<open>Sine and cosine of one\<close>

definition sin_one :: int where "sin_one = 286337738405724074564845076175058320435"
definition cos_one :: int where "cos_one = 183855347493651442427684920285310598442"

lemma cos_bound: "\<bar>cos x - (\<Sum>m<n. cos_coeff m * x ^ m)\<bar> \<le> \<bar>x\<bar> ^ n / fact n"
proof -
  obtain t where t: "cos x = (\<Sum>m<n. cos_coeff m * x ^ m) + cos (t + 1/2 * real n * pi) / fact n * x ^ n"
    using Maclaurin_cos_expansion [of x n] by blast
  have "\<bar>cos (t + 1/2 * real n * pi) * x ^ n\<bar> \<le> 1 * \<bar>x\<bar> ^ n"
    unfolding abs_mult power_abs by (rule mult_right_mono) simp_all
  then show ?thesis unfolding t by (simp add: abs_mult divide_right_mono)
qed

lemma scaled_bound:
  fixes x y :: real
  assumes "\<bar>x - y\<bar> \<le> 1 / fact 36" and "\<bar>v - 2 ^ 128 * y\<bar> \<le> 1 / 2"
  shows "\<bar>v - 2 ^ 128 * x\<bar> \<le> 1"
proof -
  have "2 ^ 128 * \<bar>x - y\<bar> \<le> 2 ^ 128 * (1 / fact 36)" by (rule mult_left_mono [OF assms(1)]) simp
  also have "\<dots> \<le> 1 / 2" by (simp add: fact_numeral)
  finally have "\<bar>2 ^ 128 * x - 2 ^ 128 * y\<bar> \<le> 1 / 2"
    unfolding right_diff_distrib [symmetric] abs_mult by simp
  then show ?thesis using assms(2) by arith
qed

lemma one_bounds:
  "\<bar>sin_one - 2 ^ 128 * sin 1\<bar> \<le> 1" "\<bar>cos_one - 2 ^ 128 * cos 1\<bar> \<le> (1 :: real)"
proof -
  have "\<bar>sin 1 - (\<Sum>m<36. sin_coeff m)\<bar> \<le> 1 / (fact 36 :: real)"
    using Maclaurin_sin_bound [of 1 36] by (simp add: field_simps)
  moreover have "\<bar>real_of_int sin_one - 2 ^ 128 * (\<Sum>m<36. sin_coeff m)\<bar> \<le> 1 / 2"
    unfolding atLeast_upt sum_set_upt_conv_sum_list_nat
    by (simp add: upt_rec sin_coeff_def sin_one_def fact_numeral)
  ultimately show "\<bar>sin_one - 2 ^ 128 * sin 1\<bar> \<le> (1 :: real)" by (rule scaled_bound)
  have "\<bar>cos 1 - (\<Sum>m<36. cos_coeff m)\<bar> \<le> 1 / (fact 36 :: real)"
    using cos_bound [of 1 36] by simp
  moreover have "\<bar>real_of_int cos_one - 2 ^ 128 * (\<Sum>m<36. cos_coeff m)\<bar> \<le> 1 / 2"
    unfolding atLeast_upt sum_set_upt_conv_sum_list_nat
    by (simp add: upt_rec cos_coeff_def cos_one_def fact_numeral)
  ultimately show "\<bar>cos_one - 2 ^ 128 * cos 1\<bar> \<le> (1 :: real)" by (rule scaled_bound)
qed

subsection \<open>The addition theorems in fixed point\<close>

text \<open>\<open>near e v x\<close>: the number \<open>v\<close> of 2^-128 is \<open>x\<close> up to \<open>e\<close> of them.\<close>

definition near :: "real \<Rightarrow> int \<Rightarrow> real \<Rightarrow> bool" where
  "near e v x \<longleftrightarrow> \<bar>v - 2 ^ 128 * x\<bar> \<le> e"

lemma near_product:
  assumes "near e v x" and "near 1 u y" and "\<bar>x\<bar> \<le> 1"
  shows "\<bar>v * u / 2 ^ 128 - 2 ^ 128 * (x * y)\<bar> \<le> e * (\<bar>u\<bar> / 2 ^ 128) + 1"
proof -
  have "v * u / 2 ^ 128 - 2 ^ 128 * (x * y) = (v - 2 ^ 128 * x) * (u / 2 ^ 128) + x * (u - 2 ^ 128 * y)"
    by (simp add: field_simps)
  also have "\<bar>\<dots>\<bar> \<le> \<bar>v - 2 ^ 128 * x\<bar> * (\<bar>u\<bar> / 2 ^ 128) + \<bar>x\<bar> * \<bar>u - 2 ^ 128 * y\<bar>"
    by (rule order_trans [OF abs_triangle_ineq]) (simp add: abs_mult)
  also have "\<dots> \<le> e * (\<bar>u\<bar> / 2 ^ 128) + 1 * 1"
    using assms by (intro add_mono mult_mono) (simp_all add: near_def)
  finally show ?thesis by simp
qed

lemma near_div:
  assumes "\<bar>v / 2 ^ 128 - 2 ^ 128 * x\<bar> \<le> e"
  shows "near (e + 1) (drop_bit 128 v) x"
proof -
  have "real_of_int (drop_bit 128 v) = \<lfloor>v / 2 ^ 128\<rfloor>"
    using floor_divide_of_int_eq [where ?'a = real, of v "2 ^ 128"] by (simp add: drop_bit_eq_div)
  then have "\<bar>real_of_int (drop_bit 128 v) - v / 2 ^ 128\<bar> \<le> 1" by linarith
  then show ?thesis using assms unfolding near_def by linarith
qed

lemma near_step:
  assumes "near e s (sin x)" and "near e c (cos x)" and "6 \<le> e"
  shows "near (2 * e) (drop_bit 128 (s * cos_one + c * sin_one)) (sin (x + 1))"
    and "near (2 * e) (drop_bit 128 (c * cos_one - s * sin_one)) (cos (x + 1))"
proof -
  have one: "near 1 sin_one (sin 1)" "near 1 cos_one (cos 1)" using one_bounds by (simp_all add: near_def)
  have small: "e * (\<bar>real_of_int sin_one\<bar> / 2 ^ 128) + e * (\<bar>real_of_int cos_one\<bar> / 2 ^ 128) \<le> 3 / 2 * e"
    using assms(3) by (simp add: sin_one_def cos_one_def)
  note p = near_product [OF assms(1) one(2)] near_product [OF assms(2) one(1)]
    near_product [OF assms(2) one(2)] near_product [OF assms(1) one(1)]
  have "\<bar>(s * cos_one + c * sin_one) / 2 ^ 128 - 2 ^ 128 * sin (x + 1)\<bar> \<le> 3 / 2 * e + 2"
    using p(1,2) small unfolding sin_add by (simp add: add_divide_distrib distrib_left abs_le_iff)
  from near_div [OF this] show "near (2 * e) (drop_bit 128 (s * cos_one + c * sin_one)) (sin (x + 1))"
    using assms(3) by (simp add: near_def)
  have "\<bar>(c * cos_one - s * sin_one) / 2 ^ 128 - 2 ^ 128 * cos (x + 1)\<bar> \<le> 3 / 2 * e + 2"
    using p(3,4) small unfolding cos_add by (simp add: diff_divide_distrib right_diff_distrib abs_le_iff)
  from near_div [OF this] show "near (2 * e) (drop_bit 128 (c * cos_one - s * sin_one)) (cos (x + 1))"
    using assms(3) by (simp add: near_def)
qed

subsection \<open>The table\<close>

text \<open>The words of a table are the leading 32 bits of the sines, with room for an error of 2^66.\<close>

fun sine_words :: "u32 list \<Rightarrow> int \<Rightarrow> int \<Rightarrow> bool" where
  "sine_words [] s c = True"
| "sine_words (w # ws) s c \<longleftrightarrow>
     uint w * 2 ^ 96 + 2 ^ 70 \<le> \<bar>s\<bar> \<and> \<bar>s\<bar> + 2 ^ 70 < (uint w + 1) * 2 ^ 96 \<and>
     sine_words ws (drop_bit 128 (s * cos_one + c * sin_one)) (drop_bit 128 (c * cos_one - s * sin_one))"

lemma sine_word:
  assumes "near (2 ^ 70) s (sin (real i))" and "uint w * 2 ^ 96 + 2 ^ 70 \<le> \<bar>s\<bar>"
    and "\<bar>s\<bar> + 2 ^ 70 < (uint w + 1) * 2 ^ 96"
  shows "rfc_T i = w"
proof -
  have "real_of_int (uint w * 2 ^ 96 + 2 ^ 70) \<le> real_of_int \<bar>s\<bar>" "real_of_int (\<bar>s\<bar> + 2 ^ 70) < real_of_int ((uint w + 1) * 2 ^ 96)"
    using assms(2,3) by (simp_all only: of_int_le_iff of_int_less_iff)
  then have "real_of_int (uint w) \<le> 4294967296 * \<bar>sin (real i)\<bar>" "4294967296 * \<bar>sin (real i)\<bar> < real_of_int (uint w) + 1"
    using assms(1) by (simp_all add: near_def)
  then have "\<lfloor>4294967296 * \<bar>sin (real i)\<bar>\<rfloor> = uint w" by (simp add: floor_eq_iff)
  then show ?thesis by (simp add: rfc_T_def)
qed

lemma sine_words_table:
  assumes "sine_words ws s c" and "near (2 ^ (i + 3)) s (sin (real i))" and "near (2 ^ (i + 3)) c (cos (real i))"
    and "i + length ws \<le> 66"
  shows "ws = map rfc_T [i..<i + length ws]"
  using assms
proof (induction ws arbitrary: i s c)
  case (Cons w ws)
  have "(2 :: real) ^ (i + 3) \<le> 2 ^ 70" using Cons.prems(4) by (intro power_increasing) simp_all
  then have "near (2 ^ 70) s (sin (real i))" using Cons.prems(2) by (simp add: near_def)
  then have w: "rfc_T i = w" by (rule sine_word) (use Cons.prems(1) in simp_all)
  have "(6 :: real) \<le> 2 ^ (i + 3)" using power_increasing [of 3 "i + 3" "2 :: real"] by simp
  note st = near_step [OF Cons.prems(2,3) this]
  have pow: "2 * (2 :: real) ^ (i + 3) = 2 ^ (Suc i + 3)" by (simp only: add_Suc power_Suc)
  have "ws = map rfc_T [Suc i..<Suc i + length ws]"
    by (rule Cons.IH [of "drop_bit 128 (s * cos_one + c * sin_one)" "drop_bit 128 (c * cos_one - s * sin_one)"])
      (use Cons.prems(1,4) st [unfolded pow] in \<open>simp_all add: add.commute\<close>)
  moreover have "[i..<i + length (w # ws)] = i # [Suc i..<Suc i + length ws]" by (simp add: upt_conv_Cons del: upt_Suc)
  ultimately show ?case using w by simp
qed simp

lemma step_table_sines: "map (\<lambda>(n, t, s). t) step_table = map rfc_T [1..<65]"
proof -
  let ?ws = "map (\<lambda>(n, t, s). t) step_table"
  have "sine_words ?ws sin_one cos_one" by code_simp
  moreover have "near (2 ^ (1 + 3)) sin_one (sin (real 1))" "near (2 ^ (1 + 3)) cos_one (cos (real 1))"
    using one_bounds by (simp_all add: near_def)
  moreover have "length ?ws = 64" by (simp add: step_table_def)
  ultimately show ?thesis using sine_words_table [of ?ws sin_one cos_one 1] by simp
qed

end
