(* ===== verification/Md5Spec.thy ===== *)
theory Md5Spec
  imports Md5Constants Sha1Spec
begin

text \<open>
  MD5 as RFC 1321 states it (the round functions with AND-NOT, the word order by a formula, the
  shift table, the constants of Md5Constants), and the theorem that \<open>md5.c\<close> computes it on every message below 2^61 bytes.
\<close>

subsection \<open>The standard\<close>

definition rfc_fun :: "nat \<Rightarrow> u32 \<Rightarrow> u32 \<Rightarrow> u32 \<Rightarrow> u32" where
  "rfc_fun i x y z =
     (if i < 16 then (x AND y) OR (NOT x AND z)
      else if i < 32 then (x AND z) OR (y AND NOT z)
      else if i < 48 then x XOR y XOR z
      else y XOR (x OR NOT z))"

definition rfc_index :: "nat \<Rightarrow> nat" where
  "rfc_index i = (if i < 16 then i else if i < 32 then (5 * i + 1) mod 16
     else if i < 48 then (3 * i + 5) mod 16 else 7 * i mod 16)"

definition rfc_shift :: "nat \<Rightarrow> nat" where
  "rfc_shift i = [[7, 12, 17, 22], [5, 9, 14, 20], [4, 11, 16, 23], [6, 10, 15, 21]] ! (i div 16) ! (i mod 4)"

definition le_value :: "bytes \<Rightarrow> nat" where
  "le_value bs = be_value (rev bs)"

definition le_field :: "nat \<Rightarrow> nat \<Rightarrow> bytes" where
  "le_field w n = rev (be_field w n)"

definition rfc_word :: "bytes \<Rightarrow> nat \<Rightarrow> u32" where
  "rfc_word m k = of_nat (le_value (take 4 (drop (4 * k) m)))"

type_synonym hash4 = "u32 \<times> u32 \<times> u32 \<times> u32"

fun rfc_step :: "bytes \<Rightarrow> hash4 \<Rightarrow> nat \<Rightarrow> hash4" where
  "rfc_step m (a, b, c, d) i =
     (d, b + word_rotl (rfc_shift i) (a + rfc_fun i b c d + rfc_word m (rfc_index i) + rfc_T (Suc i)), b, c)"

fun list4 :: "'a \<times> 'a \<times> 'a \<times> 'a \<Rightarrow> 'a list" where
  "list4 (a, b, c, d) = [a, b, c, d]"

definition tuple4 :: "'a list \<Rightarrow> 'a \<times> 'a \<times> 'a \<times> 'a" where
  "tuple4 x = (x ! 0, x ! 1, x ! 2, x ! 3)"

definition rfc_compress :: "u32 list \<Rightarrow> bytes \<Rightarrow> u32 list" where
  "rfc_compress h m = map2 (+) h (list4 (foldl (rfc_step m) (tuple4 h) [0..<64]))"

definition rfc_H0 :: "u32 list" where
  "rfc_H0 = [0x67452301, 0xefcdab89, 0x98badcfe, 0x10325476]"

definition rfc_pad :: "nat \<Rightarrow> bytes" where
  "rfc_pad n = 0x80 # replicate ((119 - n mod 64) mod 64) 0 @ le_field 8 (8 * n)"

definition rfc_digest :: "bytes \<Rightarrow> bytes" where
  "rfc_digest msg = concat (map (le_field 4 \<circ> unat) (absorb 64 rfc_compress rfc_H0 (msg @ rfc_pad (length msg))))"

subsection \<open>The block function\<close>

lemma step_fun_is_rfc: "step_fun i = rfc_fun i"
proof (intro ext)
  fix x y z :: u32
  have "F x y z = (x AND y) OR (NOT x AND z)" "G x y z = (x AND z) OR (y AND NOT z)"
    by (rule bit_word_eqI; auto simp: F_def G_def bit_simps)+
  then show "step_fun i x y z = rfc_fun i x y z"
    by (simp add: step_fun_def rfc_fun_def H_def I_def)
qed

text \<open>The 64 lines follow the formulas of the standard.\<close>

lemma step_table_rows:
  "map (\<lambda>(n, t, s). (n, s)) step_table = map (\<lambda>i. (rfc_index i, rfc_shift i)) [0..<64]"
  by code_simp

lemma step_table_row:
  assumes "i < 64"
  shows "step_table ! i = (rfc_index i, rfc_T (Suc i), rfc_shift i)"
proof -
  have len: "length step_table = 64" by (simp add: step_table_def)
  then have "(\<lambda>(n, t, s). (n, s)) (step_table ! i) = (rfc_index i, rfc_shift i)"
    using step_table_rows assms by (metis (no_types, lifting) add_0 length_map length_upt nth_map nth_upt diff_zero)
  moreover have "map (\<lambda>(n, t, s). t) step_table ! i = map rfc_T [1..<65] ! i" by (simp only: step_table_sines)
  then have "(\<lambda>(n, t, s). t) (step_table ! i) = rfc_T (Suc i)" using assms by (simp add: len)
  ultimately show ?thesis by (cases "step_table ! i") simp
qed

lemma rfc_bounds:
  assumes "i < 64"
  shows "rfc_index i < 16" "0 < rfc_shift i" "rfc_shift i < 32"
proof -
  show "rfc_index i < 16" by (simp add: rfc_index_def)
  have "\<forall>i \<in> set [0..<64]. 0 < rfc_shift i \<and> rfc_shift i < 32" by code_simp
  with assms show "0 < rfc_shift i" "rfc_shift i < 32" by simp_all
qed

lemma SET_is_rfc:
  assumes "4 * n + 4 \<le> length m"
  shows "SET m n = rfc_word m n"
proof -
  have t: "rev (take 4 (drop (4 * n) m)) =
      ((([] @ [m ! (4 * n + 3)]) @ [m ! (4 * n + 2)]) @ [m ! (4 * n + 1)]) @ [m ! (4 * n)]"
    using assms by (simp add: take_nth upt_rec eval_nat_numeral)
  show ?thesis
    unfolding rfc_word_def le_value_def t be_value_snoc of_nat_snoc_byte be_value_Nil
    by (simp add: SET_def push_bit_or ac_simps)
qed

lemma rotation_form: "0 < s \<Longrightarrow> s < 32 \<Longrightarrow> push_bit s x OR drop_bit (32 - s) (x AND 0xffffffff) = word_rotl s (x :: u32)"
proof -
  assume s: "0 < s" "s < 32"
  have "(0xffffffff :: u32) = mask 32" by (simp add: mask_eq_exp_minus_1)
  then have "x AND 0xffffffff = take_bit 32 x" by (simp only: take_bit_eq_mask)
  also have "take_bit 32 x = x" by (rule bit_word_eqI) (simp add: bit_simps)
  finally show ?thesis using rol_is_rotation [OF s, of x] by (simp add: rol_def)
qed

definition read4 :: "u32 list \<Rightarrow> nat \<Rightarrow> u32 list" where
  "read4 r q = map ((!) r) (list4 (step_calls ! q))"

lemma list_of_4:
  assumes "length xs = 4"
  obtains a b c d where "xs = [a, b, c, d]"
  using assms by (auto simp: numeral_eq_Suc length_Suc_conv)

lemma less_4_cases: "r < (4 :: nat) \<Longrightarrow> r \<in> {0, 1, 2, 3}"
  by auto

lemma STEP_rotl:
  assumes "0 < s" and "s < 32"
  shows "STEP f (a, b, c, d) x t s r =
    (let r1 = r[a := r ! a + (f (r ! b) (r ! c) (r ! d) + x + t)]; r2 = r1[a := word_rotl s (r1 ! a)]
     in r2[a := r2 ! a + r2 ! b])"
  unfolding STEP_def Let_def prod.case rotation_form [OF assms] ..

lemma STEP_round:
  assumes "length r = 4" and "q < 4" and "read4 r q = [a, b, c, d]" and s: "0 < s" "s < 32"
  shows "length (STEP f (step_calls ! q) x t s r) = 4 \<and>
    read4 (STEP f (step_calls ! q) x t s r) (Suc q mod 4) = [d, b + word_rotl s (a + f b c d + x + t), b, c]"
proof -
  obtain r0 r1 r2 r3 where r: "r = [r0, r1, r2, r3]" using assms(1) by (rule list_of_4)
  show ?thesis
    using less_4_cases [OF assms(2)] assms(3) unfolding r
    by (elim insertE)
      (simp_all add: read4_def step_calls_def STEP_rotl [OF s] Let_def add.assoc add.commute add.left_commute)
qed

lemma read4_0: "length r = 4 \<Longrightarrow> read4 r 0 = r"
  by (erule list_of_4) (simp add: read4_def step_calls_def)

definition md5_line :: "bytes \<Rightarrow> u32 list \<Rightarrow> nat \<Rightarrow> u32 list" where
  "md5_line m r i = (case step_table ! i of (n, t, s) \<Rightarrow> STEP (step_fun i) (step_calls ! (i mod 4)) (SET m n) t s r)"

lemma md5_fold:
  assumes "length r = 4" and "read4 r 0 = list4 s" and m: "64 \<le> length m" and "n \<le> 64"
  shows "length (foldl (md5_line m) r [0..<n]) = 4 \<and>
    read4 (foldl (md5_line m) r [0..<n]) (n mod 4) = list4 (foldl (rfc_step m) s [0..<n])"
  using assms(4)
proof (induction n)
  case 0
  then show ?case using assms by simp
next
  case (Suc n)
  define r' where "r' = foldl (md5_line m) r [0..<n]"
  obtain a b c d where s': "foldl (rfc_step m) s [0..<n] = (a, b, c, d)" by (rule list4.cases)
  have IH: "length r' = 4" "read4 r' (n mod 4) = [a, b, c, d]"
    using Suc s' by (simp_all add: r'_def)
  have q: "n mod 4 < 4" by simp
  have q2: "Suc (n mod 4) mod 4 = Suc n mod 4" by (simp only: mod_Suc_eq)
  have n: "n < 64" using Suc.prems by simp
  have set: "SET m (rfc_index n) = rfc_word m (rfc_index n)"
    using rfc_bounds(1) [OF n] m by (intro SET_is_rfc) linarith
  have "md5_line m r' n = STEP (rfc_fun n) (step_calls ! (n mod 4)) (rfc_word m (rfc_index n)) (rfc_T (Suc n)) (rfc_shift n) r'"
    by (simp add: md5_line_def step_table_row [OF n] step_fun_is_rfc set)
  with STEP_round [OF IH(1) q IH(2) rfc_bounds(2,3) [OF n], of "rfc_fun n" "rfc_word m (rfc_index n)" "rfc_T (Suc n)"]
  show ?case by (simp add: r'_def [symmetric] s' q2)
qed

lemma map2_tuple4:
  "length h = 4 \<Longrightarrow> length (r :: u32 list) = 4 \<Longrightarrow> [r ! 0 + h ! 0, r ! 1 + h ! 1, r ! 2 + h ! 2, r ! 3 + h ! 3] = map2 (+) h r"
  by (erule list_of_4, erule list_of_4) (simp add: add.commute)

lemma SET_take: "n < 16 \<Longrightarrow> SET m n = SET (take 64 m) n"
  by (simp add: SET_def)

lemma body_block_is_rfc:
  assumes h: "length h = 4" and m: "64 \<le> length m"
  shows "body_block h m = rfc_compress h (take 64 m)"
proof -
  let ?m = "take 64 m"
  have line: "md5_line m r i = md5_line ?m r i" if "i < 64" for r i
    using rfc_bounds(1) [OF that] SET_take [of _ m] by (simp add: md5_line_def step_table_row [OF that])
  have fold: "foldl (md5_line m) h [0..<64] = foldl (md5_line ?m) h [0..<64]"
    by (intro foldl_cong) (simp_all add: line)
  have "read4 h 0 = list4 (tuple4 h)"
    using h by (simp add: read4_0 tuple4_def) (erule list_of_4, simp)
  from md5_fold [OF h this, of ?m 64] m
  have f1: "length (foldl (md5_line ?m) h [0..<64]) = 4"
    and "read4 (foldl (md5_line ?m) h [0..<64]) 0 = list4 (foldl (rfc_step ?m) (tuple4 h) [0..<64])"
    by simp_all
  then have f2: "foldl (md5_line ?m) h [0..<64] = list4 (foldl (rfc_step ?m) (tuple4 h) [0..<64])"
    by (simp only: read4_0)
  have "body_block h m = map2 (+) h (foldl (md5_line m) h [0..<64])"
    unfolding body_block_def Let_def md5_line_def [symmetric]
    by (rule map2_tuple4 [OF h]) (simp only: fold f1)
  then show ?thesis unfolding rfc_compress_def fold f2 .
qed

lemma rfc_length: "length h = 4 \<Longrightarrow> length (rfc_compress h m) = 4"
proof -
  assume "length h = 4"
  moreover have "length (list4 s) = 4" for s :: hash4 by (cases s) simp
  ultimately show ?thesis by (simp add: rfc_compress_def)
qed

lemma rfc_absorb_length: "length s = 4 \<Longrightarrow> length (absorb 64 rfc_compress s xs) = 4"
proof (induction "length xs" arbitrary: s xs rule: less_induct)
  case less
  then show ?case by (cases "length xs < 64") (simp_all add: absorb_step rfc_length)
qed

lemma body_absorbs:
  "unat n = 64 * Suc k \<Longrightarrow> 64 * Suc k \<le> length data \<Longrightarrow> length st = 4 \<Longrightarrow>
    body st data n = Some (absorb 64 rfc_compress st (take (64 * Suc k) data), drop (64 * Suc k) data)"
proof (induction k arbitrary: n data st)
  case 0
  then have "unat (n - 64) = 0" by (subst unat_sub_le) (simp_all add: word_le_nat_alt)
  then have n: "n - 64 = 0" by (simp only: unat_eq_0)
  have "absorb 64 rfc_compress st (take 64 data) = body_block st data"
    using 0 by (simp add: absorb_one body_block_is_rfc)
  moreover have "body st data n = Some (body_block st data, drop 64 data)"
    using 0(2) n by (subst body.simps) (simp add: Let_def)
  ultimately show ?case by simp
next
  case (Suc k)
  have n: "unat (n - 64) = 64 * Suc k"
    using Suc.prems(1) by (subst unat_sub_le) (simp_all add: word_le_nat_alt)
  then have nz: "n - 64 \<noteq> 0" by (metis mult_is_0 nat.distinct(1) unat_0 zero_neq_numeral)
  let ?st = "body_block st data"
  have st: "?st = rfc_compress st (take 64 data)" "length ?st = 4"
    using Suc.prems by (simp_all add: body_block_is_rfc rfc_length)
  have IH: "body ?st (drop 64 data) (n - 64) =
      Some (absorb 64 rfc_compress ?st (take (64 * Suc k) (drop 64 data)), drop (64 * Suc k) (drop 64 data))"
    using Suc.prems by (intro Suc.IH [OF n]) (simp_all add: st(2))
  have a: "absorb 64 rfc_compress st (take (64 * Suc (Suc k)) data) =
      absorb 64 rfc_compress ?st (take (64 * Suc k) (drop 64 data))"
    using Suc.prems by (subst absorb_step) (simp_all add: st(1) take_drop add.commute min_def)
  have "length data < 64 \<longleftrightarrow> False" using Suc.prems by simp
  then have "body st data n = body ?st (drop 64 data) (n - 64)"
    using nz by (subst body.simps) (simp add: Let_def)
  with IH a show ?case by (simp add: add.commute)
qed

lemma body_one: "length data = 64 \<Longrightarrow> length st = 4 \<Longrightarrow> body st data 64 = Some (rfc_compress st data, [])"
  using body_absorbs [of 64 0 data st] by (simp add: absorb_one)

subsection \<open>Update\<close>

definition md5_total :: "MD5_CTX \<Rightarrow> nat" where
  "md5_total c = unat (hi c) * 2 ^ 29 + unat (lo c)"

definition md5_pending :: "MD5_CTX \<Rightarrow> bytes" where
  "md5_pending c = take (md5_total c mod 64) (mbuffer c)"

definition md5_valid :: "MD5_CTX \<Rightarrow> bool" where
  "md5_valid c \<longleftrightarrow> length (mbuffer c) = 64 \<and> length (abcd c) = 4 \<and> unat (lo c) < 2 ^ 29"

lemma unat_and_29: "unat (x AND 0x1fffffff) = unat (x :: u32) mod 2 ^ 29"
  using unat_and_mask [of x 29] by (simp add: mask_eq_exp_minus_1)

lemma and_not_63: "unat (x AND NOT 0x3f) = unat (x :: u32) div 64 * 64"
proof -
  have "x AND NOT (mask 6) = push_bit 6 (drop_bit 6 x)" by (rule bit_word_eqI) (auto simp: bit_simps)
  moreover have "mask 6 = (0x3f :: u32)" by (simp add: mask_eq_exp_minus_1)
  ultimately have "x AND NOT 0x3f = push_bit 6 (drop_bit 6 x)" by (simp only:)
  moreover have "unat (drop_bit 6 x) = unat x div 64"
    unfolding unsigned_drop_bit_eq using unsigned_less [of x, where ?'a = nat]
    by (simp add: take_bit_nat_eq_self drop_bit_eq_div)
  moreover from this have "unat (drop_bit 6 x) * 2 ^ 6 < 2 ^ 32"
    using unsigned_less [of x, where ?'a = nat] div_times_less_eq_dividend [of "unat x" 64] by simp
  ultimately show ?thesis using unat_push_bit_lt [of "drop_bit 6 x" 6] by simp
qed

lemma lo_hi_add:
  fixes l h n :: u32
  defines "l1 \<equiv> (l + n) AND 0x1fffffff"
  defines "h1 \<equiv> (if l1 < l then h + 1 else h) + drop_bit 29 n"
  assumes l: "unat l < 2 ^ 29" and lim: "unat h * 2 ^ 29 + unat l + unat n < 2 ^ 61"
  shows "unat h1 * 2 ^ 29 + unat l1 = unat h * 2 ^ 29 + unat l + unat n" and "unat l1 < 2 ^ 29"
proof -
  define ns where "ns = unat n mod 2 ^ 29"
  define nh where "nh = unat n div 2 ^ 29"
  have n: "unat n = nh * 2 ^ 29 + ns" by (simp add: ns_def nh_def)
  have ns: "ns < 2 ^ 29" by (simp add: ns_def)
  have nh': "unat (drop_bit 29 n) = nh"
    unfolding unsigned_drop_bit_eq nh_def using unsigned_less [of n, where ?'a = nat]
    by (simp add: take_bit_nat_eq_self drop_bit_eq_div)
  have l1: "unat l1 = (unat l + ns) mod 2 ^ 29"
  proof -
    have "unat l1 = (unat l + unat n) mod 2 ^ 32 mod 2 ^ 29" by (simp add: l1_def unat_and_29 unat_word_ariths)
    also have "\<dots> = (unat l + unat n) mod 2 ^ 29"
      by (rule mod_mod_cancel) (simp add: le_imp_power_dvd)
    also have "\<dots> = (unat l + ns) mod 2 ^ 29" unfolding ns_def by (simp only: mod_add_right_eq)
    finally show ?thesis .
  qed
  show "unat l1 < 2 ^ 29" unfolding l1 by simp
  define k where "k = (if l1 < l then 1 else 0 :: nat)"
  have carry: "unat l1 + k * 2 ^ 29 = unat l + ns"
  proof (cases "unat l + ns < 2 ^ 29")
    case True
    then have "unat l1 = unat l + ns" unfolding l1 by (rule mod_less)
    then show ?thesis by (simp add: k_def word_less_nat_alt)
  next
    case False
    then have "unat l + ns = (unat l + ns - 2 ^ 29) + 2 ^ 29" by simp
    then have "unat l1 = (unat l + ns - 2 ^ 29) mod 2 ^ 29" unfolding l1 by (metis mod_add_self2)
    also have "\<dots> = unat l + ns - 2 ^ 29" using l ns by (intro mod_less) linarith
    finally show ?thesis using False ns by (simp add: k_def word_less_nat_alt)
  qed
  have sum: "(unat h + k + nh) * 2 ^ 29 + unat l1 = unat h * 2 ^ 29 + unat l + unat n"
    using carry n by (simp only: add_mult_distrib)
  moreover define M where "M = unat h + k + nh"
  ultimately have "M * 2 ^ 29 < 2 ^ 32 * 2 ^ 29" using lim by simp
  then have small: "unat h + k + nh < 2 ^ 32" unfolding M_def by simp
  have "unat (if l1 < l then h + 1 else h) = unat h + k"
    using small unat_add_lt [of h 1] by (auto simp: k_def)
  then have "unat h1 = unat h + k + nh"
    unfolding h1_def using small nh' by (subst unat_add_lt) simp_all
  with sum show "unat h1 * 2 ^ 29 + unat l1 = unat h * 2 ^ 29 + unat l + unat n" by simp
qed

lemma md5_rest_contract:
  assumes len: "unat n = length d" and st: "length (abcd c) = 4" and buf: "length (mbuffer c) = 64"
  shows "\<exists>b. md5_update_rest c d n = Some (c\<lparr>abcd := absorb 64 rfc_compress (abcd c) d, mbuffer := b\<rparr>) \<and>
    length b = 64 \<and> take (length d mod 64) b = leftover 64 d"
proof -
  let ?lo = "leftover 64 d" and ?b = "overwrite 0 (leftover 64 d) (mbuffer c)"
  have lo: "length ?lo = length d mod 64" by (simp add: leftover_def minus_div_mult_eq_mod)
  have b: "length ?b = 64" "take (length d mod 64) ?b = ?lo"
    using lo buf mod_less_divisor [of 64 "length d"] overwrite_0_take [of ?lo "mbuffer c"] by simp_all
  show ?thesis
  proof (cases "64 \<le> n")
    case True
    then have ge: "64 \<le> length d" using len by (simp add: word_le_nat_alt)
    then obtain k where k: "length d div 64 = Suc k" by (metis Suc_pred div_greater_zero_iff zero_less_numeral)
    have "body (abcd c) d (n AND NOT 0x3f) = Some (absorb 64 rfc_compress (abcd c) (take (64 * Suc k) d), drop (64 * Suc k) d)"
    proof (rule body_absorbs [OF _ _ st])
      show "unat (n AND NOT 0x3f) = 64 * Suc k" by (simp only: and_not_63 len k mult.commute)
      show "64 * Suc k \<le> length d" using k by (metis div_times_less_eq_dividend mult.commute)
    qed
    moreover have "absorb 64 rfc_compress (abcd c) (take (64 * Suc k) d) = absorb 64 rfc_compress (abcd c) d"
      using absorb_take_full [of 64 rfc_compress "abcd c" d] k by (simp only: mult.commute zero_less_numeral)
    moreover have "drop (64 * Suc k) d = ?lo" unfolding leftover_def k by (simp only: mult.commute)
    moreover have "unat (n AND 0x3f) = length ?lo" by (simp only: unat_and_63 len lo)
    moreover have "memcpy (mbuffer c) 0 ?lo (length ?lo) = Some ?b"
      using lo buf by (simp add: memcpy_def)
    ultimately have "md5_update_rest c d n = Some (c\<lparr>abcd := absorb 64 rfc_compress (abcd c) d, mbuffer := ?b\<rparr>)"
      using True by (simp add: md5_update_rest_def del: mult_Suc_right)
    with b show ?thesis by blast
  next
    case False
    then have lt: "length d < 64" using len by (simp add: word_le_nat_alt)
    have "memcpy (mbuffer c) 0 d (unat n) = Some ?b"
      using lt buf len by (simp add: memcpy_def)
    then have "md5_update_rest c d n = Some (c\<lparr>abcd := absorb 64 rfc_compress (abcd c) d, mbuffer := ?b\<rparr>)"
      using False lt by (simp add: md5_update_rest_def)
    with b show ?thesis by blast
  qed
qed


lemma md5_and_63: "md5_valid c \<Longrightarrow> unat (lo c AND 0x3f) = md5_total c mod 64"
proof -
  have "unat (hi c) * 2 ^ 29 = 64 * (unat (hi c) * 2 ^ 23)" by simp
  then have "md5_total c mod 64 = unat (lo c) mod 64" unfolding md5_total_def by (simp only: mod_mult_self4)
  then show ?thesis by (simp only: unat_and_63)
qed

lemma MD5_Update_contract:
  assumes V: "md5_valid c" and chunk: "length d < 2 ^ 32" and lim: "md5_total c + length d < 2 ^ 61"
  shows "\<exists>c'. MD5_Update c d (of_nat (length d)) = Some c' \<and> md5_valid c' \<and>
    abcd c' = absorb 64 rfc_compress (abcd c) (md5_pending c @ d) \<and>
    md5_pending c' = leftover 64 (md5_pending c @ d) \<and> md5_total c' = md5_total c + length d"
proof -
  let ?len = "of_nat (length d) :: u32" and ?t = "md5_total c"
  define j where "j = ?t mod 64"
  have len: "unat ?len = length d" using chunk by (intro unat_of_nat_lt) simp
  have buf: "length (mbuffer c) = 64" and st: "length (abcd c) = 4" and l29: "unat (lo c) < 2 ^ 29"
    using V by (simp_all add: md5_valid_def)
  have uj: "unat (lo c AND 0x3f) = j" using md5_and_63 [OF V] by (simp add: j_def)
  have j: "j < 64" by (simp add: j_def)
  define lo1 where "lo1 = (lo c + ?len) AND 0x1fffffff"
  define hi1 where "hi1 = (if lo1 < lo c then hi c + 1 else hi c) + drop_bit 29 ?len"
  define ctx1 where "ctx1 = c\<lparr>lo := lo1, hi := hi1\<rparr>"
  have "unat (hi c) * 2 ^ 29 + unat (lo c) + unat ?len < 2 ^ 61" using lim len by (simp add: md5_total_def)
  note lh = lo_hi_add [OF l29 this, folded lo1_def, folded hi1_def]
  have tot: "md5_total (ctx1\<lparr>abcd := s, mbuffer := b\<rparr>) = ?t + length d" "md5_total (ctx1\<lparr>mbuffer := b\<rparr>) = ?t + length d" for b s
    using lh(1) len by (simp_all add: md5_total_def ctx1_def)
  have pl: "length (md5_pending c) = j" using buf j by (simp add: md5_pending_def j_def)
  have fin: "\<exists>c'. Some (ctx1\<lparr>abcd := absorb 64 rfc_compress h e, mbuffer := b\<rparr>) = Some c' \<and> md5_valid c' \<and>
      abcd c' = absorb 64 rfc_compress (abcd c) (md5_pending c @ d) \<and>
      md5_pending c' = leftover 64 (md5_pending c @ d) \<and> md5_total c' = ?t + length d"
    if "length b = 64" "length h = 4" "take (length e mod 64) b = leftover 64 e" "(?t + length d) mod 64 = length e mod 64"
      "absorb 64 rfc_compress (abcd c) (md5_pending c @ d) = absorb 64 rfc_compress h e"
      "leftover 64 (md5_pending c @ d) = leftover 64 e" for b h e
    using that lh(2) tot(1) rfc_absorb_length [OF that(2)]
    by (simp add: md5_valid_def md5_pending_def) (simp add: ctx1_def)
  note upd = MD5_Update_def [of c d ?len, unfolded Let_def, folded lo1_def, folded hi1_def, folded ctx1_def]
  consider "j = 0" | "0 < j" "j + length d < 64" | "0 < j" "64 \<le> j + length d" by linarith
  then show ?thesis
  proof cases
    case 1
    then have "(lo c AND 0x3f) = 0" using uj by (simp only: unat_eq_0)
    then have u: "MD5_Update c d ?len = md5_update_rest ctx1 d ?len" by (simp add: upd)
    obtain b where b: "md5_update_rest ctx1 d ?len = Some (ctx1\<lparr>abcd := absorb 64 rfc_compress (abcd c) d, mbuffer := b\<rparr>)"
        "length b = 64" "take (length d mod 64) b = leftover 64 d"
      using md5_rest_contract [OF len, of ctx1] st buf by (auto simp: ctx1_def)
    have "md5_pending c = []" using pl 1 by simp
    moreover have "(?t + length d) mod 64 = length d mod 64"
      using 1 mod_add_left_eq [of ?t 64 "length d"] by (simp add: j_def)
    ultimately show ?thesis unfolding u b(1) by (intro fin [OF b(2) st b(3)]) simp_all
  next
    case 2
    let ?b = "overwrite j d (mbuffer c)"
    have nz: "lo c AND 0x3f \<noteq> 0" using uj 2 by (metis less_irrefl unat_0)
    have "unat (64 - (lo c AND 0x3f)) = 64 - j" using uj j by (subst unat_sub_le) (simp_all add: word_le_nat_alt)
    then have "?len < 64 - (lo c AND 0x3f)" using 2 len by (simp add: word_less_nat_alt)
    moreover have "memcpy (mbuffer ctx1) j d (length d) = Some ?b" using 2 buf by (simp add: memcpy_ok ctx1_def)
    ultimately have u: "MD5_Update c d ?len = Some (ctx1\<lparr>mbuffer := ?b\<rparr>)" using nz by (simp add: upd uj len)
    have "(?t + length d) mod 64 = j + length d" using 2 mod_add_left_eq [of ?t 64 "length d"] by (simp add: j_def)
    then have p: "md5_pending (ctx1\<lparr>mbuffer := ?b\<rparr>) = md5_pending c @ d"
      using take_overwrite_end [of j "mbuffer c" d] buf j by (simp add: md5_pending_def tot(2) j_def)
    show ?thesis
      using u p tot(2) [of ?b] 2 pl buf st lh(2) by (simp add: md5_valid_def ctx1_def)
  next
    case 3
    define i where "i = 64 - (lo c AND 0x3f)"
    have ui: "unat i = 64 - j" unfolding i_def using uj j by (subst unat_sub_le) (simp_all add: word_le_nat_alt)
    have nz: "lo c AND 0x3f \<noteq> 0" using uj 3 by (metis less_irrefl unat_0)
    have i: "unat i \<le> length d" using ui 3 by simp
    let ?b = "overwrite j (take (unat i) d) (mbuffer c)"
    have b: "?b = md5_pending c @ take (unat i) d" "length ?b = 64"
      using take_overwrite_end [of j "mbuffer c" "take (unat i) d"] buf j ui i
      by (simp_all add: md5_pending_def j_def min_absorb2 del: take_all_iff)
    have m1: "memcpy (mbuffer ctx1) j d (unat i) = Some ?b" using ui i buf j by (simp add: memcpy_ok ctx1_def)
    let ?s = "rfc_compress (abcd c) ?b" and ?d = "drop (unat i) d"
    have s: "length ?s = 4" by (rule rfc_length [OF st])
    have rem: "unat (?len - i) = length ?d" using i len by (subst unat_sub_le) (simp_all add: word_le_nat_alt)
    have ge: "\<not> ?len < i" using i len by (simp add: word_less_nat_alt)
    have u: "MD5_Update c d ?len = md5_update_rest (ctx1\<lparr>mbuffer := ?b, abcd := ?s\<rparr>) ?d (?len - i)"
      using nz ge m1 body_one [OF b(2) st] by (simp add: upd i_def [symmetric] uj) (simp add: ctx1_def)
    obtain b2 where b2: "md5_update_rest (ctx1\<lparr>mbuffer := ?b, abcd := ?s\<rparr>) ?d (?len - i) =
          Some (ctx1\<lparr>abcd := absorb 64 rfc_compress ?s ?d, mbuffer := b2\<rparr>)"
        "length b2 = 64" "take (length ?d mod 64) b2 = leftover 64 ?d"
      using md5_rest_contract [OF rem, of "ctx1\<lparr>mbuffer := ?b, abcd := ?s\<rparr>"] s b(2) by auto
    have split: "md5_pending c @ d = ?b @ ?d" unfolding b(1) by simp
    have h: "absorb 64 rfc_compress (abcd c) (md5_pending c @ d) = absorb 64 rfc_compress ?s ?d"
      unfolding split using b(2) by (subst absorb_append) (simp_all only: absorb_one zero_less_numeral mod_self)
    have l: "leftover 64 (md5_pending c @ d) = leftover 64 ?d"
      unfolding split using b(2) by (subst leftover_append) (simp_all only: leftover_exact append_Nil zero_less_numeral)
    obtain a where a: "?t = a * 64 + j" unfolding j_def by (metis div_mult_mod_eq)
    moreover have "unat i + j = 64" "length d = unat i + length ?d" using i ui j by simp_all
    ultimately have "?t + length d = (a + 1) * 64 + length ?d"
      by (simp only: add_mult_distrib mult_1)
    then have "(?t + length d) mod 64 = length ?d mod 64" by (metis mod_mult_self3)
    then show ?thesis unfolding u b2(1) by (rule fin [OF b2(2) s b2(3) _ h l])
  qed
qed


interpretation md5u: stream_hash 64 rfc_compress rfc_H0 abcd md5_pending md5_total md5_valid
    "\<lambda>c d. MD5_Update c d (of_nat (length d))" "2 ^ 32" "2 ^ 61"
proof
  show "length (md5_pending c) = md5_total c mod 64" if "md5_valid c" for c
    using that by (simp add: md5_pending_def md5_valid_def min_absorb2 less_imp_le)
qed (rule MD5_Update_contract | simp)+

subsection \<open>Final\<close>

lemma byte_at_nat: "byte_at k x = of_nat (unat x div 2 ^ k)"
  by (simp only: byte_at_def ucast_drop_bit)

lemma le_field_4: "[byte_at 0 x, byte_at 8 x, byte_at 16 x, byte_at 24 x] = le_field 4 (unat x)"
  by (simp add: byte_at_nat le_field_def be_field_def upt_rec)

lemma length_field_le:
  assumes "unat l < 2 ^ 29"
  shows "[byte_at 0 (push_bit 3 l), byte_at 8 (push_bit 3 l), byte_at 16 (push_bit 3 l), byte_at 24 (push_bit 3 l),
    byte_at 0 h, byte_at 8 h, byte_at 16 h, byte_at 24 h] = le_field 8 (8 * (unat h * 2 ^ 29 + unat l))"
proof -
  let ?n = "8 * (unat h * 2 ^ 29 + unat l)"
  have l: "unat (push_bit 3 l) = 8 * unat l" using assms by (subst unat_push_bit_lt) simp_all
  have n: "?n = unat h * 2 ^ 32 + unat (push_bit 3 l)" unfolding l by simp
  have small: "unat (push_bit 3 l) < 2 ^ 32" using unsigned_less [of "push_bit 3 l", where ?'a = nat] by simp
  have be8: "be_field 8 ?n = [of_nat (?n div 2 ^ (32 + 24)), of_nat (?n div 2 ^ (32 + 16)), of_nat (?n div 2 ^ (32 + 8)),
      of_nat (?n div 2 ^ (32 + 0)), of_nat (?n div 2 ^ 24), of_nat (?n div 2 ^ 16), of_nat (?n div 2 ^ 8), of_nat (?n div 2 ^ 0)]"
    by (simp add: be_field_def map_upt_8)
  show ?thesis
    unfolding le_field_def be8 unfolding n two_words_hi [OF small]
    using two_words_lo [of 24 "unat h" "unat (push_bit 3 l)"] two_words_lo [of 16 "unat h" "unat (push_bit 3 l)"]
      two_words_lo [of 8 "unat h" "unat (push_bit 3 l)"] two_words_lo [of 0 "unat h" "unat (push_bit 3 l)"]
    by (simp add: byte_at_nat del: push_bit_Suc)
qed

lemma update_tail_8:
  "length b = 64 \<Longrightarrow> b[56 := x0, 57 := x1, 58 := x2, 59 := x3, 60 := x4, 61 := x5, 62 := x6, 63 := x7] =
    take 56 b @ [x0, x1, x2, x3, x4, x5, x6, x7]"
  by (rule nth_equalityI) (auto simp: nth_append nth_list_update nth_Cons' min_def)

lemma MD5_Final_contract:
  assumes V: "md5_valid c" and lim: "md5_total c < 2 ^ 61"
  shows "MD5_Final c = Some (concat (map (le_field 4 \<circ> unat)
    (absorb 64 rfc_compress (abcd c) (md5_pending c @ rfc_pad (md5_total c)))))"
proof -
  define j where "j = md5_total c mod 64"
  have j: "j < 64" by (simp add: j_def)
  have buf: "length (mbuffer c) = 64" and st: "length (abcd c) = 4" and l29: "unat (lo c) < 2 ^ 29"
    using V by (simp_all add: md5_valid_def)
  have uj: "unat (lo c AND 0x3f) = j" using md5_and_63 [OF V] by (simp add: j_def)
  have pl: "length (md5_pending c) = j" using buf j by (simp add: md5_pending_def j_def)
  define used where "used = (lo c AND 0x3f) + 1"
  define free where "free = 64 - used"
  have used: "unat used = j + 1" unfolding used_def using uj j by (subst unat_add_lt) simp_all
  have free: "unat free = 63 - j" unfolding free_def using used j by (subst unat_sub_le) (simp_all add: word_le_nat_alt)
  define b0 where "b0 = (mbuffer c)[j := (0x80 :: u8)]"
  have b0: "length b0 = 64" "take (j + 1) b0 = md5_pending c @ [0x80]"
    using buf j by (simp_all add: b0_def md5_pending_def j_def [symmetric] take_Suc_conv_app_nth)
  define L where "L = le_field 8 (8 * md5_total c)"
  have L: "length L = 8" by (simp add: L_def le_field_def)
  have fin: "(do { (st2, _) \<leftarrow> body st1 (b2[56 := byte_at 0 (push_bit 3 (lo c)), 57 := byte_at 8 (push_bit 3 (lo c)),
        58 := byte_at 16 (push_bit 3 (lo c)), 59 := byte_at 24 (push_bit 3 (lo c)),
        60 := byte_at 0 (hi c), 61 := byte_at 8 (hi c), 62 := byte_at 16 (hi c), 63 := byte_at 24 (hi c)]) 64;
      Some (concat (map (\<lambda>i. [byte_at 0 (st2 ! i), byte_at 8 (st2 ! i), byte_at 16 (st2 ! i), byte_at 24 (st2 ! i)]) [0..<4])) }) =
    Some (concat (map (le_field 4 \<circ> unat) (rfc_compress st1 (take 56 b2 @ L))))"
    if "length b2 = 64" "length st1 = 4" for st1 b2
  proof -
    have b: "length (take 56 b2 @ L) = 64" using that L by simp
    have "[0..<4] = [0, 1, 2, 3 :: nat]" by (simp add: upt_rec)
    then have out: "concat (map (\<lambda>i. [byte_at 0 (s ! i), byte_at 8 (s ! i), byte_at 16 (s ! i), byte_at 24 (s ! i)]) [0..<4]) =
        concat (map (le_field 4 \<circ> unat) s)" if "length s = 4" for s
      using that unfolding le_field_4 by (simp) (erule list_of_4, simp)
    show ?thesis
      unfolding update_tail_8 [OF that(1)] length_field_le [OF l29] md5_total_def [symmetric] L_def [symmetric]
        body_one [OF b that(2)] using out [OF rfc_length [OF that(2)]] by simp
  qed
  note upd = MD5_Final_def [of c, unfolded Let_def, folded used_def, folded free_def, unfolded uj, folded b0_def]
  show ?thesis
  proof (cases "56 \<le> j")
    case True
    let ?b = "overwrite (j + 1) (replicate (63 - j) 0) b0"
    have "take (j + 1 + (63 - j)) ?b = take (j + 1) b0 @ replicate (63 - j) 0"
      using take_overwrite_end [of "j + 1" b0 "replicate (63 - j) 0"] b0(1) j by (simp only: length_replicate)
    moreover have bl: "length ?b = 64" using b0(1) j by simp
    ultimately have b: "?b = md5_pending c @ 0x80 # replicate (63 - j) 0" using b0(2) j by simp
    have m1: "memcpy b0 (unat used) (replicate (unat free) 0) (unat free) = Some ?b"
      using b0(1) j by (simp add: memcpy_ok used free)
    let ?b2 = "overwrite 0 (replicate 56 0) ?b"
    have m2: "memcpy ?b 0 (replicate 56 0) 56 = Some ?b2" using bl by (simp add: memcpy_ok)
    have b2: "length ?b2 = 64" "take 56 ?b2 = replicate 56 0"
      using bl overwrite_0_take [of "replicate 56 (0 :: u8)" ?b] by simp_all
    have lt: "free < 8" using free True by (simp add: word_less_nat_alt)
    have u: "MD5_Final c = Some (concat (map (le_field 4 \<circ> unat) (rfc_compress (rfc_compress (abcd c) ?b) (replicate 56 0 @ L))))"
      using lt m1 m2 body_one [OF bl st] fin [OF b2(1) rfc_length [OF st, of ?b]] b2(2)
      by (simp add: upd)
    have "(119 - j) mod 64 = (63 - j) + 56" using True j by simp
    then have pad: "md5_pending c @ rfc_pad (md5_total c) = ?b @ (replicate 56 0 @ L)"
      unfolding rfc_pad_def j_def [symmetric] L_def [symmetric] b by (simp only: replicate_add) simp
    have "absorb 64 rfc_compress (abcd c) (md5_pending c @ rfc_pad (md5_total c)) =
        rfc_compress (rfc_compress (abcd c) ?b) (replicate 56 0 @ L)"
      unfolding pad using bl L by (subst absorb_append) (simp_all only: absorb_one zero_less_numeral mod_self, simp add: absorb_one)
    then show ?thesis using u by simp
  next
    case False
    let ?b2 = "overwrite (j + 1) (replicate (55 - j) 0) b0"
    have f8: "unat (free - 8) = 55 - j" using free False by (subst unat_sub_le) (simp_all add: word_le_nat_alt)
    have "take (j + 1 + (55 - j)) ?b2 = take (j + 1) b0 @ replicate (55 - j) 0"
      using take_overwrite_end [of "j + 1" b0 "replicate (55 - j) 0"] b0(1) j by (simp only: length_replicate)
    then have b2: "take 56 ?b2 = md5_pending c @ 0x80 # replicate (55 - j) 0" "length ?b2 = 64"
      using b0 False by simp_all
    have m: "memcpy b0 (unat used) (replicate (unat (free - 8)) 0) (unat (free - 8)) = Some ?b2"
      using b0(1) False by (simp add: memcpy_ok used f8)
    have ge: "\<not> free < 8" using free False by (simp add: word_less_nat_alt)
    have u: "MD5_Final c = Some (concat (map (le_field 4 \<circ> unat) (rfc_compress (abcd c) (take 56 ?b2 @ L))))"
      using ge m fin [OF b2(2) st]
      by (simp add: upd)
    have "119 - j = (55 - j) + 64" using False by simp
    then have "(119 - j) mod 64 = (55 - j) mod 64" by (simp only: mod_add_self2)
    then have pad: "md5_pending c @ rfc_pad (md5_total c) = take 56 ?b2 @ L"
      unfolding rfc_pad_def j_def [symmetric] L_def [symmetric] b2(1) by simp
    have "length (take 56 ?b2 @ L) = 64" using b2(2) L by simp
    then show ?thesis unfolding pad u by (simp only: absorb_one zero_less_numeral)
  qed
qed

interpretation md5s: stream_digest 64 rfc_compress rfc_H0 abcd md5_pending md5_total md5_valid
    "\<lambda>c d. MD5_Update c d (of_nat (length d))" "2 ^ 32" "2 ^ 61"
    rfc_pad "\<lambda>h. concat (map (le_field 4 \<circ> unat) h)" MD5_Final
  by (unfold_locales, rule MD5_Final_contract)

subsection \<open>The properties\<close>

lemma MD5_Init_represents: "length (mbuffer c) = 64 \<Longrightarrow> md5u.represents (MD5_Init c) []"
  by (intro md5u.represents_init)
    (simp_all add: MD5_Init_def md5_valid_def md5_total_def md5_pending_def rfc_H0_def)

text \<open>
  C18. \<open>MD5_Init\<close>, any sequence of \<open>MD5_Update\<close> calls and \<open>MD5_Final\<close> return without leaving their
  buffers and give the RFC 1321 digest of the concatenation of the pieces, for every message below
  2^61 bytes: the optimised round functions, the table of steps with its constants
  from the sine, the split counters and the buffering are right.
\<close>
theorem md5_streaming_computes_rfc:
  assumes "length (mbuffer c) = 64" and "\<forall>d \<in> set ds. length d < 2 ^ 32" and "length (concat ds) < 2 ^ 61"
  shows "Option.bind (feed (\<lambda>c d. MD5_Update c d (of_nat (length d))) ds (MD5_Init c)) MD5_Final =
    Some (rfc_digest (concat ds))"
  unfolding rfc_digest_def
  by (rule md5s.digest_of_chunks [OF MD5_Init_represents [OF assms(1)] assms(2,3)])

definition md5_zero :: MD5_CTX where
  "md5_zero = \<lparr>lo = 0, hi = 0, abcd = [], mbuffer = replicate 64 0\<rparr>"

lemma md5_streaming_computes_rfc_witness:
  "Option.bind (feed (\<lambda>c d. MD5_Update c d (of_nat (length d))) [[0x61], replicate 100 0x62] (MD5_Init md5_zero)) MD5_Final =
    Some (rfc_digest (0x61 # replicate 100 0x62))"
  using md5_streaming_computes_rfc [of md5_zero "[[0x61], replicate 100 0x62]"] by (simp add: md5_zero_def)

end
