(* ===== verification/Wire.thy ===== *)
theory Wire
  imports Crc32
begin

text \<open>
  The wire format of \<open>dll_src/reliableudp/include/enet/protocol.h\<close>: one record per structure of
  the header, the union \<open>ENetProtocol\<close> as a command header and one constructor per member, and
  the memory image of each (little-endian fields at the offsets the compiler gives them), which is
  what the socket sends and what a received datagram is read through. \<open>commandSizes\<close> and
  \<open>enet_protocol_command_size\<close> are those of protocol.c.

  Fields hold the values in memory: a field the code fills with \<open>ENET_HOST_TO_NET_16 (v)\<close> holds
  the swapped value, and its image in memory is then \<open>v\<close> in network order.
\<close>

subsection \<open>Constants\<close>

abbreviation (input) ENET_PROTOCOL_MINIMUM_MTU :: "'a::len word" where "ENET_PROTOCOL_MINIMUM_MTU \<equiv> 576"
abbreviation (input) ENET_PROTOCOL_MAXIMUM_MTU :: "'a::len word" where "ENET_PROTOCOL_MAXIMUM_MTU \<equiv> 4096"
abbreviation (input) ENET_PROTOCOL_MAXIMUM_PACKET_COMMANDS :: nat where "ENET_PROTOCOL_MAXIMUM_PACKET_COMMANDS \<equiv> 32"
abbreviation (input) ENET_PROTOCOL_MINIMUM_WINDOW_SIZE :: "'a::len word" where "ENET_PROTOCOL_MINIMUM_WINDOW_SIZE \<equiv> 4096"
abbreviation (input) ENET_PROTOCOL_MAXIMUM_WINDOW_SIZE :: "'a::len word" where "ENET_PROTOCOL_MAXIMUM_WINDOW_SIZE \<equiv> 32768"
abbreviation (input) ENET_PROTOCOL_MINIMUM_CHANNEL_COUNT :: "'a::len word" where "ENET_PROTOCOL_MINIMUM_CHANNEL_COUNT \<equiv> 1"
abbreviation (input) ENET_PROTOCOL_MAXIMUM_CHANNEL_COUNT :: "'a::len word" where "ENET_PROTOCOL_MAXIMUM_CHANNEL_COUNT \<equiv> 255"
abbreviation (input) ENET_PROTOCOL_MAXIMUM_PEER_ID :: "'a::len word" where "ENET_PROTOCOL_MAXIMUM_PEER_ID \<equiv> 0x7FFF"

abbreviation (input) ENET_PROTOCOL_COMMAND_NONE :: u8 where "ENET_PROTOCOL_COMMAND_NONE \<equiv> 0"
abbreviation (input) ENET_PROTOCOL_COMMAND_ACKNOWLEDGE :: u8 where "ENET_PROTOCOL_COMMAND_ACKNOWLEDGE \<equiv> 1"
abbreviation (input) ENET_PROTOCOL_COMMAND_CONNECT :: u8 where "ENET_PROTOCOL_COMMAND_CONNECT \<equiv> 2"
abbreviation (input) ENET_PROTOCOL_COMMAND_VERIFY_CONNECT :: u8 where "ENET_PROTOCOL_COMMAND_VERIFY_CONNECT \<equiv> 3"
abbreviation (input) ENET_PROTOCOL_COMMAND_DISCONNECT :: u8 where "ENET_PROTOCOL_COMMAND_DISCONNECT \<equiv> 4"
abbreviation (input) ENET_PROTOCOL_COMMAND_PING :: u8 where "ENET_PROTOCOL_COMMAND_PING \<equiv> 5"
abbreviation (input) ENET_PROTOCOL_COMMAND_SEND_RELIABLE :: u8 where "ENET_PROTOCOL_COMMAND_SEND_RELIABLE \<equiv> 6"
abbreviation (input) ENET_PROTOCOL_COMMAND_SEND_UNRELIABLE :: u8 where "ENET_PROTOCOL_COMMAND_SEND_UNRELIABLE \<equiv> 7"
abbreviation (input) ENET_PROTOCOL_COMMAND_SEND_FRAGMENT :: u8 where "ENET_PROTOCOL_COMMAND_SEND_FRAGMENT \<equiv> 8"
abbreviation (input) ENET_PROTOCOL_COMMAND_SEND_UNSEQUENCED :: u8 where "ENET_PROTOCOL_COMMAND_SEND_UNSEQUENCED \<equiv> 9"
abbreviation (input) ENET_PROTOCOL_COMMAND_BANDWIDTH_LIMIT :: u8 where "ENET_PROTOCOL_COMMAND_BANDWIDTH_LIMIT \<equiv> 10"
abbreviation (input) ENET_PROTOCOL_COMMAND_THROTTLE_CONFIGURE :: u8 where "ENET_PROTOCOL_COMMAND_THROTTLE_CONFIGURE \<equiv> 11"
abbreviation (input) ENET_PROTOCOL_COMMAND_COUNT :: nat where "ENET_PROTOCOL_COMMAND_COUNT \<equiv> 12"
abbreviation (input) ENET_PROTOCOL_COMMAND_MASK :: u8 where "ENET_PROTOCOL_COMMAND_MASK \<equiv> 0x0F"

abbreviation (input) ENET_PROTOCOL_COMMAND_FLAG_ACKNOWLEDGE :: u8 where "ENET_PROTOCOL_COMMAND_FLAG_ACKNOWLEDGE \<equiv> 0x80"
abbreviation (input) ENET_PROTOCOL_COMMAND_FLAG_UNSEQUENCED :: u8 where "ENET_PROTOCOL_COMMAND_FLAG_UNSEQUENCED \<equiv> 0x40"

abbreviation (input) ENET_PROTOCOL_HEADER_PEER_MASK :: u16 where "ENET_PROTOCOL_HEADER_PEER_MASK \<equiv> 0x8000"
abbreviation (input) ENET_PROTOCOL_HEADER_FLAG_CRC :: "'a::len word" where "ENET_PROTOCOL_HEADER_FLAG_CRC \<equiv> 1"
abbreviation (input) ENET_PROTOCOL_HEADER_FLAG_SENT_TIME :: "'a::len word" where "ENET_PROTOCOL_HEADER_FLAG_SENT_TIME \<equiv> 8"

subsection \<open>The structures\<close>

text \<open>\<open>ph_padding\<close> is the byte the compiler puts between \<open>flags\<close> and the aligned \<open>sentTime\<close>: it
  is sent and checksummed like the others, with whatever value the memory has.\<close>

record ENetProtocolHeader =
  ph_checksum :: u32
  ph_peerID :: u16
  ph_protoMajor :: u8
  ph_protoMinor :: u8
  ph_flags :: u8
  ph_padding :: u8
  ph_sentTime :: u16

record ENetProtocolCommandHeader =
  hdr_command :: u8
  hdr_channelID :: u8
  hdr_reliableSequenceNumber :: u16

record ENetProtocolAcknowledge =
  ack_receivedReliableSequenceNumber :: u16
  ack_receivedSentTime :: u16

record ENetProtocolConnect =
  con_outgoingPeerID :: u16
  con_mtu :: u16
  con_windowSize :: u32
  con_channelCount :: u32
  con_incomingBandwidth :: u32
  con_outgoingBandwidth :: u32
  con_packetThrottleInterval :: u32
  con_packetThrottleAcceleration :: u32
  con_packetThrottleDeceleration :: u32
  con_sessionID :: u32

record ENetProtocolVerifyConnect =
  ver_outgoingPeerID :: u16
  ver_mtu :: u16
  ver_windowSize :: u32
  ver_channelCount :: u32
  ver_incomingBandwidth :: u32
  ver_outgoingBandwidth :: u32
  ver_packetThrottleInterval :: u32
  ver_packetThrottleAcceleration :: u32
  ver_packetThrottleDeceleration :: u32

record ENetProtocolBandwidthLimit =
  bwl_incomingBandwidth :: u32
  bwl_outgoingBandwidth :: u32

record ENetProtocolThrottleConfigure =
  thr_packetThrottleInterval :: u32
  thr_packetThrottleAcceleration :: u32
  thr_packetThrottleDeceleration :: u32

record ENetProtocolDisconnect =
  dis_data :: u32

record ENetProtocolSendReliable =
  srl_dataLength :: u16

record ENetProtocolSendUnreliable =
  sul_unreliableSequenceNumber :: u16
  sul_dataLength :: u16

record ENetProtocolSendUnsequenced =
  suq_unsequencedGroup :: u16
  suq_dataLength :: u16

record ENetProtocolSendFragment =
  frg_startSequenceNumber :: u16
  frg_dataLength :: u16
  frg_fragmentCount :: u32
  frg_fragmentNumber :: u32
  frg_totalLength :: u32
  frg_fragmentOffset :: u32

text \<open>
  The union: \<open>HeaderOnly\<close> is a use of the member \<open>header\<close> alone; \<open>Ping\<close> has no field of its own.
\<close>

datatype protocol_body =
    HeaderOnly
  | Acknowledge ENetProtocolAcknowledge
  | Connect ENetProtocolConnect
  | VerifyConnect ENetProtocolVerifyConnect
  | Disconnect ENetProtocolDisconnect
  | Ping
  | SendReliable ENetProtocolSendReliable
  | SendUnreliable ENetProtocolSendUnreliable
  | SendFragment ENetProtocolSendFragment
  | SendUnsequenced ENetProtocolSendUnsequenced
  | BandwidthLimit ENetProtocolBandwidthLimit
  | ThrottleConfigure ENetProtocolThrottleConfigure

record ENetProtocol =
  prt_header :: ENetProtocolCommandHeader
  prt_body :: protocol_body

abbreviation command_of :: "ENetProtocol \<Rightarrow> u8" where "command_of c \<equiv> hdr_command (prt_header c)"
abbreviation channelID_of :: "ENetProtocol \<Rightarrow> u8" where "channelID_of c \<equiv> hdr_channelID (prt_header c)"
abbreviation sequence_of :: "ENetProtocol \<Rightarrow> u16" where
  "sequence_of c \<equiv> hdr_reliableSequenceNumber (prt_header c)"

text \<open>
  A command a function builds in a local variable: the sequence number of its header is not
  initialised there; \<open>enet_peer_queue_outgoing_command\<close>, the only reader, overwrites it.
\<close>

definition local_command :: "u8 \<Rightarrow> u8 \<Rightarrow> protocol_body \<Rightarrow> ENetProtocol" where
  "local_command cmd channel b =
     \<lparr>prt_header = \<lparr>hdr_command = cmd, hdr_channelID = channel, hdr_reliableSequenceNumber = 0\<rparr>,
      prt_body = b\<rparr>"

subsection \<open>Sizes\<close>

abbreviation sizeof_ENetProtocolHeader :: "'a::len word" where "sizeof_ENetProtocolHeader \<equiv> 12"
abbreviation offsetof_sentTime :: "'a::len word" where "offsetof_sentTime \<equiv> 10"
abbreviation sizeof_ENetProtocolCommandHeader :: "'a::len word" where "sizeof_ENetProtocolCommandHeader \<equiv> 4"

definition commandSizes :: "usize list" where
  "commandSizes = [0, 8, 40, 36, 8, 4, 6, 8, 24, 8, 12, 16]"

text \<open>Reading the array at 12 to 15, which the mask allows, is \<open>None\<close>.\<close>

definition enet_protocol_command_size :: "u8 \<Rightarrow> usize option" where
  "enet_protocol_command_size commandNumber =
     (let i = unat (commandNumber AND ENET_PROTOCOL_COMMAND_MASK)
      in if i < length commandSizes then Some (commandSizes ! i) else None)"

subsection \<open>Memory images\<close>

definition le16 :: "u16 \<Rightarrow> bytes" where
  "le16 w = [ucast w, ucast (drop_bit 8 w)]"

definition le32 :: "u32 \<Rightarrow> bytes" where
  "le32 w = [ucast w, ucast (drop_bit 8 w), ucast (drop_bit 16 w), ucast (drop_bit 24 w)]"

definition load16 :: "bytes \<Rightarrow> nat \<Rightarrow> u16" where
  "load16 m a = ucast (m ! a) OR push_bit 8 (ucast (m ! (a + 1)))"

definition load32 :: "bytes \<Rightarrow> nat \<Rightarrow> u32" where
  "load32 m a = ucast (m ! a) OR push_bit 8 (ucast (m ! (a + 1))) OR push_bit 16 (ucast (m ! (a + 2)))
     OR push_bit 24 (ucast (m ! (a + 3)))"

definition image_of_header :: "ENetProtocolHeader \<Rightarrow> bytes" where
  "image_of_header h = le32 (ph_checksum h) @ le16 (ph_peerID h) @
     [ph_protoMajor h, ph_protoMinor h, ph_flags h, ph_padding h] @ le16 (ph_sentTime h)"

definition image_of_command_header :: "ENetProtocolCommandHeader \<Rightarrow> bytes" where
  "image_of_command_header h =
     [hdr_command h, hdr_channelID h] @ le16 (hdr_reliableSequenceNumber h)"

fun image_of_body :: "protocol_body \<Rightarrow> bytes" where
  "image_of_body HeaderOnly = []"
| "image_of_body (Acknowledge b) =
     le16 (ack_receivedReliableSequenceNumber b) @ le16 (ack_receivedSentTime b)"
| "image_of_body (Connect b) =
     le16 (con_outgoingPeerID b) @ le16 (con_mtu b) @ le32 (con_windowSize b) @
     le32 (con_channelCount b) @ le32 (con_incomingBandwidth b) @ le32 (con_outgoingBandwidth b) @
     le32 (con_packetThrottleInterval b) @ le32 (con_packetThrottleAcceleration b) @
     le32 (con_packetThrottleDeceleration b) @ le32 (con_sessionID b)"
| "image_of_body (VerifyConnect b) =
     le16 (ver_outgoingPeerID b) @ le16 (ver_mtu b) @ le32 (ver_windowSize b) @
     le32 (ver_channelCount b) @ le32 (ver_incomingBandwidth b) @ le32 (ver_outgoingBandwidth b) @
     le32 (ver_packetThrottleInterval b) @ le32 (ver_packetThrottleAcceleration b) @
     le32 (ver_packetThrottleDeceleration b)"
| "image_of_body (Disconnect b) = le32 (dis_data b)"
| "image_of_body Ping = []"
| "image_of_body (SendReliable b) = le16 (srl_dataLength b)"
| "image_of_body (SendUnreliable b) = le16 (sul_unreliableSequenceNumber b) @ le16 (sul_dataLength b)"
| "image_of_body (SendFragment b) =
     le16 (frg_startSequenceNumber b) @ le16 (frg_dataLength b) @ le32 (frg_fragmentCount b) @
     le32 (frg_fragmentNumber b) @ le32 (frg_totalLength b) @ le32 (frg_fragmentOffset b)"
| "image_of_body (SendUnsequenced b) = le16 (suq_unsequencedGroup b) @ le16 (suq_dataLength b)"
| "image_of_body (BandwidthLimit b) = le32 (bwl_incomingBandwidth b) @ le32 (bwl_outgoingBandwidth b)"
| "image_of_body (ThrottleConfigure b) =
     le32 (thr_packetThrottleInterval b) @ le32 (thr_packetThrottleAcceleration b) @
     le32 (thr_packetThrottleDeceleration b)"

definition image_of_command :: "ENetProtocol \<Rightarrow> bytes" where
  "image_of_command c = image_of_command_header (prt_header c) @ image_of_body (prt_body c)"

text \<open>
  Reading a datagram through the structures. \<open>load_command m a\<close> reads the member of the union that
  the command number selects, as every access of protocol.c does; the caller has checked that the
  bytes are there.
\<close>

definition load_header :: "bytes \<Rightarrow> ENetProtocolHeader" where
  "load_header m = \<lparr>ph_checksum = load32 m 0, ph_peerID = load16 m 4, ph_protoMajor = m ! 6,
     ph_protoMinor = m ! 7, ph_flags = m ! 8, ph_padding = m ! 9, ph_sentTime = load16 m 10\<rparr>"

definition load_command_header :: "bytes \<Rightarrow> nat \<Rightarrow> ENetProtocolCommandHeader" where
  "load_command_header m a =
     \<lparr>hdr_command = m ! a, hdr_channelID = m ! (a + 1), hdr_reliableSequenceNumber = load16 m (a + 2)\<rparr>"

definition load_body :: "bytes \<Rightarrow> nat \<Rightarrow> protocol_body" where
  "load_body m a =
    (let n = m ! a AND ENET_PROTOCOL_COMMAND_MASK in
     if n = ENET_PROTOCOL_COMMAND_ACKNOWLEDGE then
       Acknowledge \<lparr>ack_receivedReliableSequenceNumber = load16 m (a + 4), ack_receivedSentTime = load16 m (a + 6)\<rparr>
     else if n = ENET_PROTOCOL_COMMAND_CONNECT then
       Connect \<lparr>con_outgoingPeerID = load16 m (a + 4), con_mtu = load16 m (a + 6),
         con_windowSize = load32 m (a + 8), con_channelCount = load32 m (a + 12),
         con_incomingBandwidth = load32 m (a + 16), con_outgoingBandwidth = load32 m (a + 20),
         con_packetThrottleInterval = load32 m (a + 24), con_packetThrottleAcceleration = load32 m (a + 28),
         con_packetThrottleDeceleration = load32 m (a + 32), con_sessionID = load32 m (a + 36)\<rparr>
     else if n = ENET_PROTOCOL_COMMAND_VERIFY_CONNECT then
       VerifyConnect \<lparr>ver_outgoingPeerID = load16 m (a + 4), ver_mtu = load16 m (a + 6),
         ver_windowSize = load32 m (a + 8), ver_channelCount = load32 m (a + 12),
         ver_incomingBandwidth = load32 m (a + 16), ver_outgoingBandwidth = load32 m (a + 20),
         ver_packetThrottleInterval = load32 m (a + 24), ver_packetThrottleAcceleration = load32 m (a + 28),
         ver_packetThrottleDeceleration = load32 m (a + 32)\<rparr>
     else if n = ENET_PROTOCOL_COMMAND_DISCONNECT then Disconnect \<lparr>dis_data = load32 m (a + 4)\<rparr>
     else if n = ENET_PROTOCOL_COMMAND_PING then Ping
     else if n = ENET_PROTOCOL_COMMAND_SEND_RELIABLE then SendReliable \<lparr>srl_dataLength = load16 m (a + 4)\<rparr>
     else if n = ENET_PROTOCOL_COMMAND_SEND_UNRELIABLE then
       SendUnreliable \<lparr>sul_unreliableSequenceNumber = load16 m (a + 4), sul_dataLength = load16 m (a + 6)\<rparr>
     else if n = ENET_PROTOCOL_COMMAND_SEND_FRAGMENT then
       SendFragment \<lparr>frg_startSequenceNumber = load16 m (a + 4), frg_dataLength = load16 m (a + 6),
         frg_fragmentCount = load32 m (a + 8), frg_fragmentNumber = load32 m (a + 12),
         frg_totalLength = load32 m (a + 16), frg_fragmentOffset = load32 m (a + 20)\<rparr>
     else if n = ENET_PROTOCOL_COMMAND_SEND_UNSEQUENCED then
       SendUnsequenced \<lparr>suq_unsequencedGroup = load16 m (a + 4), suq_dataLength = load16 m (a + 6)\<rparr>
     else if n = ENET_PROTOCOL_COMMAND_BANDWIDTH_LIMIT then
       BandwidthLimit \<lparr>bwl_incomingBandwidth = load32 m (a + 4), bwl_outgoingBandwidth = load32 m (a + 8)\<rparr>
     else if n = ENET_PROTOCOL_COMMAND_THROTTLE_CONFIGURE then
       ThrottleConfigure \<lparr>thr_packetThrottleInterval = load32 m (a + 4),
         thr_packetThrottleAcceleration = load32 m (a + 8), thr_packetThrottleDeceleration = load32 m (a + 12)\<rparr>
     else HeaderOnly)"

definition load_command :: "bytes \<Rightarrow> nat \<Rightarrow> ENetProtocol" where
  "load_command m a = \<lparr>prt_header = load_command_header m a, prt_body = load_body m a\<rparr>"

text \<open>Writing the sequence number of a command header, or the checksum of the header, in place.\<close>

definition store_sequence :: "nat \<Rightarrow> u16 \<Rightarrow> bytes \<Rightarrow> bytes" where
  "store_sequence a v m = overwrite (a + 2) (le16 v) m"

definition store_checksum :: "u32 \<Rightarrow> bytes \<Rightarrow> bytes" where
  "store_checksum v m = overwrite 0 (le32 v) m"

subsection \<open>Images and loads are inverse\<close>

text \<open>The member of the union a command number selects.\<close>

fun body_number :: "protocol_body \<Rightarrow> u8" where
  "body_number HeaderOnly = ENET_PROTOCOL_COMMAND_NONE"
| "body_number (Acknowledge b) = ENET_PROTOCOL_COMMAND_ACKNOWLEDGE"
| "body_number (Connect b) = ENET_PROTOCOL_COMMAND_CONNECT"
| "body_number (VerifyConnect b) = ENET_PROTOCOL_COMMAND_VERIFY_CONNECT"
| "body_number (Disconnect b) = ENET_PROTOCOL_COMMAND_DISCONNECT"
| "body_number Ping = ENET_PROTOCOL_COMMAND_PING"
| "body_number (SendReliable b) = ENET_PROTOCOL_COMMAND_SEND_RELIABLE"
| "body_number (SendUnreliable b) = ENET_PROTOCOL_COMMAND_SEND_UNRELIABLE"
| "body_number (SendFragment b) = ENET_PROTOCOL_COMMAND_SEND_FRAGMENT"
| "body_number (SendUnsequenced b) = ENET_PROTOCOL_COMMAND_SEND_UNSEQUENCED"
| "body_number (BandwidthLimit b) = ENET_PROTOCOL_COMMAND_BANDWIDTH_LIMIT"
| "body_number (ThrottleConfigure b) = ENET_PROTOCOL_COMMAND_THROTTLE_CONFIGURE"

definition wf_command :: "ENetProtocol \<Rightarrow> bool" where
  "wf_command c \<longleftrightarrow>
     command_of c AND ENET_PROTOCOL_COMMAND_MASK = body_number (prt_body c) \<and> prt_body c \<noteq> HeaderOnly"

lemma load16_le16: "ucast (ucast (w :: u16) :: u8) OR push_bit 8 (ucast (ucast (drop_bit 8 w) :: u8)) = w"
  by (rule bit_word_eqI) (auto simp: bit_simps)

lemma load32_le32:
  "ucast (ucast (w :: u32) :: u8) OR push_bit 8 (ucast (ucast (drop_bit 8 w) :: u8)) OR
     push_bit 16 (ucast (ucast (drop_bit 16 w) :: u8)) OR push_bit 24 (ucast (ucast (drop_bit 24 w) :: u8)) = w"
proof (rule bit_word_eqI)
  fix n :: nat
  assume "n < LENGTH(32)"
  then consider "n < 8" | "8 \<le> n \<and> n < 16" | "16 \<le> n \<and> n < 24" | "24 \<le> n \<and> n < 32"
    by fastforce
  then show "bit (ucast (ucast (w :: u32) :: u8) OR push_bit 8 (ucast (ucast (drop_bit 8 w) :: u8)) OR
     push_bit 16 (ucast (ucast (drop_bit 16 w) :: u8)) OR push_bit 24 (ucast (ucast (drop_bit 24 w) :: u8)) :: u32) n = bit w n"
    by cases (auto simp: bit_simps)
qed

lemma length_le [simp]: "length (le16 w) = 2" "length (le32 v) = 4"
  by (simp_all add: le16_def le32_def)

lemma length_image_of_header [simp]: "length (image_of_header h) = 12"
  by (simp add: image_of_header_def)

lemma load_header_image [simp]: "load_header (image_of_header h @ rest) = h"
  by (simp add: load_header_def image_of_header_def load16_def load32_def le16_def le32_def
      load16_le16 load32_le32)

lemma length_image_of_command:
  assumes "wf_command c"
  shows "enet_protocol_command_size (command_of c) = Some (of_nat (length (image_of_command c))) \<and>
    4 \<le> length (image_of_command c) \<and> length (image_of_command c) \<le> 40"
  using assms
  by (cases "prt_body c")
    (simp_all add: wf_command_def enet_protocol_command_size_def commandSizes_def image_of_command_def
      image_of_command_header_def Let_def)

lemma load_command_image:
  assumes "wf_command c"
  shows "load_command (pre @ image_of_command c @ post) (length pre) = c"
proof -
  let ?m = "pre @ image_of_command c @ post"
  have at: "?m ! (length pre + k) = (image_of_command c @ post) ! k" for k
    by (simp only: nth_append_length_plus)
  have at0: "?m ! length pre = command_of c"
    using at [of 0] by (simp add: image_of_command_def image_of_command_header_def)
  have h: "load_command_header ?m (length pre) = prt_header c"
    unfolding load_command_header_def load16_def add.assoc at at0
    by (simp add: image_of_command_def image_of_command_header_def le16_def load16_le16)
  have b: "load_body ?m (length pre) = prt_body c"
    using assms unfolding wf_command_def load_body_def load16_def load32_def add.assoc at at0
    by (cases "prt_body c")
      (simp_all add: image_of_command_def image_of_command_header_def le16_def le32_def load16_le16 load32_le32)
  show ?thesis by (simp add: load_command_def h b)
qed

lemma store_sequence_image:
  "store_sequence (length pre) v (pre @ image_of_command c @ post) =
     pre @ image_of_command (c\<lparr>prt_header := (prt_header c)\<lparr>hdr_reliableSequenceNumber := v\<rparr>\<rparr>) @ post"
  by (simp add: store_sequence_def overwrite_def image_of_command_def image_of_command_header_def le16_def)

lemma store_checksum_image:
  "store_checksum v (image_of_header h @ post) = image_of_header (h\<lparr>ph_checksum := v\<rparr>) @ post"
  by (simp add: store_checksum_def overwrite_def image_of_header_def le32_def)

end
