(* ===== verification/ETypes.thy ===== *)
theory ETypes
  imports Wire Packet
begin

text \<open>
  The data of \<open>dll_src/reliableudp/include/enet/enet.h\<close> (addresses, queued commands, channels,
  peers, hosts, events), the time comparisons of \<open>time.h\<close>, and the state the functions of peer.c,
  host.c and protocol.c work on.

  A queue of the C code is a list of its elements, front first (the theory \<open>EList\<close> shows that the
  intrusive lists implement them). A pointer to a packet is a number of the packet store, a pointer
  to a peer its index in the array \<open>peers\<close>, a pointer to a queued command its position in the queue.
\<close>

subsection \<open>Time and bounds\<close>

definition ENET_TIME_OVERFLOW :: u32 where "ENET_TIME_OVERFLOW = 86400000"

definition ENET_TIME_LESS :: "u32 \<Rightarrow> u32 \<Rightarrow> bool" where
  "ENET_TIME_LESS a b \<longleftrightarrow> a - b \<ge> ENET_TIME_OVERFLOW"

definition ENET_TIME_GREATER :: "u32 \<Rightarrow> u32 \<Rightarrow> bool" where
  "ENET_TIME_GREATER a b \<longleftrightarrow> b - a \<ge> ENET_TIME_OVERFLOW"

definition ENET_TIME_LESS_EQUAL :: "u32 \<Rightarrow> u32 \<Rightarrow> bool" where
  "ENET_TIME_LESS_EQUAL a b \<longleftrightarrow> \<not> ENET_TIME_GREATER a b"

definition ENET_TIME_GREATER_EQUAL :: "u32 \<Rightarrow> u32 \<Rightarrow> bool" where
  "ENET_TIME_GREATER_EQUAL a b \<longleftrightarrow> \<not> ENET_TIME_LESS a b"

definition ENET_TIME_DIFFERENCE :: "u32 \<Rightarrow> u32 \<Rightarrow> u32" where
  "ENET_TIME_DIFFERENCE a b = (if a - b \<ge> ENET_TIME_OVERFLOW then b - a else a - b)"

definition ENET_MAX :: "'a::linorder \<Rightarrow> 'a \<Rightarrow> 'a" where "ENET_MAX x y = (if x > y then x else y)"
definition ENET_MIN :: "'a::linorder \<Rightarrow> 'a \<Rightarrow> 'a" where "ENET_MIN x y = (if x < y then x else y)"

abbreviation (input) ENET_HOST_BANDWIDTH_THROTTLE_INTERVAL :: "'a::len word" where "ENET_HOST_BANDWIDTH_THROTTLE_INTERVAL \<equiv> 1000"
abbreviation (input) ENET_HOST_DEFAULT_MTU :: "'a::len word" where "ENET_HOST_DEFAULT_MTU \<equiv> 1400"
abbreviation (input) ENET_PEER_DEFAULT_ROUND_TRIP_TIME :: "'a::len word" where "ENET_PEER_DEFAULT_ROUND_TRIP_TIME \<equiv> 500"
abbreviation (input) ENET_PEER_DEFAULT_PACKET_THROTTLE :: "'a::len word" where "ENET_PEER_DEFAULT_PACKET_THROTTLE \<equiv> 32"
abbreviation (input) ENET_PEER_PACKET_THROTTLE_SCALE :: "'a::len word" where "ENET_PEER_PACKET_THROTTLE_SCALE \<equiv> 32"
abbreviation (input) ENET_PEER_PACKET_THROTTLE_COUNTER :: "'a::len word" where "ENET_PEER_PACKET_THROTTLE_COUNTER \<equiv> 7"
abbreviation (input) ENET_PEER_PACKET_THROTTLE_ACCELERATION :: "'a::len word" where "ENET_PEER_PACKET_THROTTLE_ACCELERATION \<equiv> 2"
abbreviation (input) ENET_PEER_PACKET_THROTTLE_DECELERATION :: "'a::len word" where "ENET_PEER_PACKET_THROTTLE_DECELERATION \<equiv> 2"
abbreviation (input) ENET_PEER_PACKET_THROTTLE_INTERVAL :: "'a::len word" where "ENET_PEER_PACKET_THROTTLE_INTERVAL \<equiv> 5000"
abbreviation (input) ENET_PEER_PACKET_LOSS_SCALE :: "'a::len word" where "ENET_PEER_PACKET_LOSS_SCALE \<equiv> 65536"
abbreviation (input) ENET_PEER_PACKET_LOSS_INTERVAL :: "'a::len word" where "ENET_PEER_PACKET_LOSS_INTERVAL \<equiv> 10000"
abbreviation (input) ENET_PEER_WINDOW_SIZE_SCALE :: "'a::len word" where "ENET_PEER_WINDOW_SIZE_SCALE \<equiv> 65536"
abbreviation (input) ENET_PEER_TIMEOUT_LIMIT :: "'a::len word" where "ENET_PEER_TIMEOUT_LIMIT \<equiv> 32"
abbreviation (input) ENET_PEER_TIMEOUT_MINIMUM :: "'a::len word" where "ENET_PEER_TIMEOUT_MINIMUM \<equiv> 5000"
abbreviation (input) ENET_PEER_TIMEOUT_MAXIMUM :: "'a::len word" where "ENET_PEER_TIMEOUT_MAXIMUM \<equiv> 30000"
abbreviation (input) ENET_PEER_PING_INTERVAL :: "'a::len word" where "ENET_PEER_PING_INTERVAL \<equiv> 500"
abbreviation (input) ENET_PEER_UNSEQUENCED_WINDOW_SIZE :: "'a::len word" where "ENET_PEER_UNSEQUENCED_WINDOW_SIZE \<equiv> 128"
abbreviation (input) ENET_BUFFER_MAXIMUM :: nat where "ENET_BUFFER_MAXIMUM \<equiv> 1 + 2 * ENET_PROTOCOL_MAXIMUM_PACKET_COMMANDS"

abbreviation (input) ENET_HOST_ANY :: u32 where "ENET_HOST_ANY \<equiv> 0"
abbreviation (input) ENET_HOST_BROADCAST :: u32 where "ENET_HOST_BROADCAST \<equiv> 0xFFFFFFFF"

abbreviation (input) ENET_SOCKET_WAIT_NONE :: u32 where "ENET_SOCKET_WAIT_NONE \<equiv> 0"
abbreviation (input) ENET_SOCKET_WAIT_RECEIVE :: u32 where "ENET_SOCKET_WAIT_RECEIVE \<equiv> 2"

subsection \<open>Queued commands\<close>

record ENetAddress =
  addr_host :: u32
  addr_port :: u16

record ENetAcknowledgement =
  ak_sentTime :: u32
  ak_command :: ENetProtocol

record ENetOutgoingCommand =
  oc_reliableSequenceNumber :: u16
  oc_unreliableSequenceNumber :: u16
  oc_sentTime :: u32
  oc_roundTripTimeout :: u32
  oc_roundTripTimeoutLimit :: u32
  oc_fragmentOffset :: u32
  oc_fragmentLength :: u16
  oc_command :: ENetProtocol
  oc_packet :: "nat option"

record ENetIncomingCommand =
  ic_reliableSequenceNumber :: u16
  ic_unreliableSequenceNumber :: u16
  ic_command :: ENetProtocol
  ic_fragmentCount :: u32
  ic_fragmentsRemaining :: u32
  ic_fragments :: "u32 list option"
  ic_packet :: "nat option"

subsection \<open>Peers\<close>

datatype ENetPeerState =
    ENET_PEER_STATE_DISCONNECTED
  | ENET_PEER_STATE_CONNECTING
  | ENET_PEER_STATE_ACKNOWLEDGING_CONNECT
  | ENET_PEER_STATE_CONNECTION_PENDING
  | ENET_PEER_STATE_CONNECTION_SUCCEEDED
  | ENET_PEER_STATE_CONNECTED
  | ENET_PEER_STATE_DISCONNECT_LATER
  | ENET_PEER_STATE_DISCONNECTING
  | ENET_PEER_STATE_ACKNOWLEDGING_DISCONNECT
  | ENET_PEER_STATE_ZOMBIE

text \<open>The values of the enumeration, by which the code compares states.\<close>

fun state_value :: "ENetPeerState \<Rightarrow> nat" where
  "state_value ENET_PEER_STATE_DISCONNECTED = 0"
| "state_value ENET_PEER_STATE_CONNECTING = 1"
| "state_value ENET_PEER_STATE_ACKNOWLEDGING_CONNECT = 2"
| "state_value ENET_PEER_STATE_CONNECTION_PENDING = 3"
| "state_value ENET_PEER_STATE_CONNECTION_SUCCEEDED = 4"
| "state_value ENET_PEER_STATE_CONNECTED = 5"
| "state_value ENET_PEER_STATE_DISCONNECT_LATER = 6"
| "state_value ENET_PEER_STATE_DISCONNECTING = 7"
| "state_value ENET_PEER_STATE_ACKNOWLEDGING_DISCONNECT = 8"
| "state_value ENET_PEER_STATE_ZOMBIE = 9"

lemma state_value_inject: "state_value s = state_value t \<Longrightarrow> s = t"
  by (cases s; cases t) simp_all

instantiation ENetPeerState :: linorder
begin

definition less_eq_ENetPeerState :: "ENetPeerState \<Rightarrow> ENetPeerState \<Rightarrow> bool" where
  "s \<le> t \<longleftrightarrow> state_value s \<le> state_value t"

definition less_ENetPeerState :: "ENetPeerState \<Rightarrow> ENetPeerState \<Rightarrow> bool" where
  "s < t \<longleftrightarrow> state_value s < state_value t"

instance
  by standard (auto simp: less_eq_ENetPeerState_def less_ENetPeerState_def intro: state_value_inject)

end

record ENetChannel =
  ch_outgoingReliableSequenceNumber :: u16
  ch_outgoingUnreliableSequenceNumber :: u16
  ch_incomingReliableSequenceNumber :: u16
  ch_incomingUnreliableSequenceNumber :: u16
  incomingReliableCommands :: "ENetIncomingCommand list"
  incomingUnreliableCommands :: "ENetIncomingCommand list"

text \<open>
  The array \<open>channels\<close> is a list, empty when the pointer is \<open>NULL\<close> (an array of length 0 is never
  allocated). The back pointer \<open>host\<close> is the argument of the functions that use it; the
  application's pointer \<open>data\<close> is an uninterpreted word.
\<close>

record ENetPeer =
  outgoingPeerID :: u16
  incomingPeerID :: u16
  sessionID :: u32
  peer_address :: ENetAddress
  peer_data :: usize
  peer_state :: ENetPeerState
  channels :: "ENetChannel list"
  channelCount :: usize
  peer_incomingBandwidth :: u32
  peer_outgoingBandwidth :: u32
  incomingBandwidthThrottleEpoch :: u32
  outgoingBandwidthThrottleEpoch :: u32
  incomingDataTotal :: u32
  outgoingDataTotal :: u32
  lastSendTime :: u32
  lastReceiveTime :: u32
  nextTimeout :: u32
  earliestTimeout :: u32
  packetLossEpoch :: u32
  packetsSent :: u32
  packetsLost :: u32
  packetLoss :: u32
  packetLossVariance :: u32
  packetThrottle :: u32
  packetThrottleLimit :: u32
  packetThrottleCounter :: u32
  packetThrottleEpoch :: u32
  packetThrottleAcceleration :: u32
  packetThrottleDeceleration :: u32
  packetThrottleInterval :: u32
  lastRoundTripTime :: u32
  lowestRoundTripTime :: u32
  lastRoundTripTimeVariance :: u32
  highestRoundTripTimeVariance :: u32
  roundTripTime :: u32
  roundTripTimeVariance :: u32
  peer_mtu :: u16
  windowSize :: u32
  reliableDataInTransit :: u32
  outgoingReliableSequenceNumber :: u16
  acknowledgements :: "ENetAcknowledgement list"
  sentReliableCommands :: "ENetOutgoingCommand list"
  sentUnreliableCommands :: "ENetOutgoingCommand list"
  outgoingReliableCommands :: "ENetOutgoingCommand list"
  outgoingUnreliableCommands :: "ENetOutgoingCommand list"
  incomingUnsequencedGroup :: u16
  outgoingUnsequencedGroup :: u16
  unsequencedWindow :: "u32 list"
  disconnectData :: u32

subsection \<open>Hosts and events\<close>

text \<open>
  An \<open>ENetBuffer\<close> of the host points at the packet header (a local variable of the sending
  function), at an element of \<open>commands\<close>, or into the data of a packet; its bytes are read when the
  socket sends it.
\<close>

datatype buffer_data = HeaderBuffer | CommandBuffer nat | PacketBuffer nat u32

record ENetBuffer =
  buf_data :: buffer_data
  buf_dataLength :: usize

text \<open>
  \<open>peers\<close> is the array itself, and its length is \<open>peerCount\<close>, which never changes once the host
  exists. \<open>lastServicedPeer\<close> is an index. The socket is part of the environment.
\<close>

record ENetHost =
  host_address :: ENetAddress
  host_incomingBandwidth :: u32
  host_outgoingBandwidth :: u32
  bandwidthThrottleEpoch :: u32
  host_mtu :: u32
  recalculateBandwidthLimits :: bool
  peers :: "ENetPeer list"
  serviceTime :: u32
  lastServicedPeer :: nat
  continueSending :: bool
  packetSize :: usize
  headerFlags :: u16
  commands :: "ENetProtocol list"
  commandCount :: nat
  buffers :: "ENetBuffer list"
  bufferCount :: nat
  receivedAddress :: ENetAddress
  receivedData :: bytes
  receivedDataLength :: usize

abbreviation peerCount :: "ENetHost \<Rightarrow> nat" where "peerCount h \<equiv> length (peers h)"

datatype ENetEventType =
    ENET_EVENT_TYPE_NONE
  | ENET_EVENT_TYPE_CONNECT
  | ENET_EVENT_TYPE_DISCONNECT
  | ENET_EVENT_TYPE_RECEIVE

record ENetEvent =
  event_type :: ENetEventType
  event_peer :: "nat option"
  event_channelID :: u8
  event_data :: u32
  event_packet :: "nat option"

subsection \<open>The state of a program that uses the library\<close>

text \<open>
  The operating system: \<open>clock n\<close> is what the \<open>n\<close>th call of \<open>enet_time_get\<close> returns and \<open>rands\<close>
  what \<open>enet_rand\<close> returns. A receive finds the next element of \<open>inbox\<close>, and nothing (the call
  would block) when it is used up; an error is \<open>RecvError\<close>. \<open>send_result n\<close> is the result of the
  \<open>n\<close>th send; \<open>sent\<close> logs the datagrams handed to the socket. \<open>waits\<close> are the results of
  \<open>enet_socket_wait\<close> with the condition it reports, and a time-out when used up. \<open>stack_junk\<close> is
  what uninitialised bytes of the packet header hold.
\<close>

datatype arrival = Datagram ENetAddress bytes | WouldBlock | RecvError

record world =
  host :: ENetHost
  packets :: packet_store
  clock :: "nat \<Rightarrow> u32"
  clock_reads :: nat
  rands :: "nat \<Rightarrow> u32"
  rand_reads :: nat
  inbox :: "arrival list"
  send_result :: "nat \<Rightarrow> int"
  sent :: "(ENetAddress \<times> bytes) list"
  waits :: "(int \<times> u32) list"
  stack_junk :: u8

definition enet_time_get :: "world \<Rightarrow> u32 \<times> world" where
  "enet_time_get w = (clock w (clock_reads w), w\<lparr>clock_reads := Suc (clock_reads w)\<rparr>)"

definition enet_rand :: "world \<Rightarrow> u32 \<times> world" where
  "enet_rand w = (rands w (rand_reads w), w\<lparr>rand_reads := Suc (rand_reads w)\<rparr>)"

text \<open>Reading and writing the peer with a given index.\<close>

definition get_peer :: "world \<Rightarrow> nat \<Rightarrow> ENetPeer option" where
  "get_peer w i = (if i < peerCount (host w) then Some (peers (host w) ! i) else None)"

definition put_peer :: "nat \<Rightarrow> ENetPeer \<Rightarrow> world \<Rightarrow> world" where
  "put_peer i p w = w\<lparr>host := (host w)\<lparr>peers := (peers (host w))[i := p]\<rparr>\<rparr>"

text \<open>An operation on one peer and the packets.\<close>

type_synonym 'r peer_op = "ENetPeer \<Rightarrow> packet_store \<Rightarrow> ('r \<times> ENetPeer \<times> packet_store) option"

definition on_peer :: "nat \<Rightarrow> 'r peer_op \<Rightarrow> world \<Rightarrow> ('r \<times> world) option" where
  "on_peer i f w = do {
     p \<leftarrow> get_peer w i;
     (r, p', ps) \<leftarrow> f p (packets w);
     Some (r, (put_peer i p' w)\<lparr>packets := ps\<rparr>) }"

end
