(* ===== verification/Peer.thy ===== *)
theory Peer
  imports ETypes
begin

text \<open>
  \<open>dll_src/reliableudp/src/peer.c\<close>: every function on one peer and the packets it shares.
  \<open>None\<close> is undefined behaviour (a null or dangling pointer, an index outside an array, a division
  by zero) or, for the fragment loop, not returning. The two functions that flush the host take the
  flush as an argument; protocol.c supplies it.
\<close>

subsection \<open>Throttle\<close>

definition enet_peer_throttle :: "ENetPeer \<Rightarrow> u32 \<Rightarrow> int \<times> ENetPeer" where
  "enet_peer_throttle peer rtt =
     (if lastRoundTripTime peer \<le> lastRoundTripTimeVariance peer
      then (0, peer\<lparr>packetThrottle := packetThrottleLimit peer\<rparr>)
      else if rtt < lastRoundTripTime peer
      then let t = packetThrottle peer + packetThrottleAcceleration peer
           in (1, peer\<lparr>packetThrottle := (if t > packetThrottleLimit peer then packetThrottleLimit peer else t)\<rparr>)
      else if rtt > lastRoundTripTime peer + 2 * lastRoundTripTimeVariance peer
      then (-1, peer\<lparr>packetThrottle :=
              (if packetThrottle peer > packetThrottleDeceleration peer
               then packetThrottle peer - packetThrottleDeceleration peer else 0)\<rparr>)
      else (0, peer))"

subsection \<open>Queues\<close>

text \<open>
  \<open>sizeof (ENetProtocolAcknowledge)\<close> is the entry of \<open>commandSizes\<close>. The copy of the command is a copy of
  the whole union, which reads behind a command that is shorter; only its own fields are modelled, and
  only these are read later.
\<close>

definition enet_peer_queue_acknowledgement :: "ENetPeer \<Rightarrow> ENetProtocol \<Rightarrow> u16 \<Rightarrow> ENetPeer" where
  "enet_peer_queue_acknowledgement peer command sentTime =
     peer\<lparr>outgoingDataTotal := outgoingDataTotal peer + 8,
          acknowledgements := acknowledgements peer @
            [\<lparr>ak_sentTime = ucast sentTime, ak_command = command\<rparr>]\<rparr>"

definition get_channel :: "ENetPeer \<Rightarrow> u8 \<Rightarrow> ENetChannel option" where
  "get_channel peer c = (if unat c < length (channels peer) then Some (channels peer ! unat c) else None)"

definition put_channel :: "u8 \<Rightarrow> ENetChannel \<Rightarrow> ENetPeer \<Rightarrow> ENetPeer" where
  "put_channel c ch peer = peer\<lparr>channels := (channels peer)[unat c := ch]\<rparr>"

text \<open>The sequence numbers a new outgoing command gets: reliable, unreliable.\<close>

definition next_sequence_numbers :: "ENetPeer \<Rightarrow> ENetProtocol \<Rightarrow> (u16 \<times> u16 \<times> ENetPeer) option" where
  "next_sequence_numbers peer command =
    (if channelID_of command = 0xFF then
       (let n = outgoingReliableSequenceNumber peer + 1
        in Some (n, 0, peer\<lparr>outgoingReliableSequenceNumber := n\<rparr>))
     else if command_of command AND ENET_PROTOCOL_COMMAND_FLAG_ACKNOWLEDGE \<noteq> 0 then do {
       ch \<leftarrow> get_channel peer (channelID_of command);
       let n = ch_outgoingReliableSequenceNumber ch + 1;
       Some (n, 0, put_channel (channelID_of command) (ch\<lparr>ch_outgoingReliableSequenceNumber := n\<rparr>) peer) }
     else if command_of command AND ENET_PROTOCOL_COMMAND_FLAG_UNSEQUENCED \<noteq> 0 then
       Some (0, 0, peer\<lparr>outgoingUnsequencedGroup := outgoingUnsequencedGroup peer + 1\<rparr>)
     else do {
       ch \<leftarrow> get_channel peer (channelID_of command);
       let n = ch_outgoingUnreliableSequenceNumber ch + 1;
       Some (ch_outgoingReliableSequenceNumber ch, n,
         put_channel (channelID_of command) (ch\<lparr>ch_outgoingUnreliableSequenceNumber := n\<rparr>) peer) })"

definition enet_peer_queue_outgoing_command ::
  "ENetProtocol \<Rightarrow> nat option \<Rightarrow> u32 \<Rightarrow> u16 \<Rightarrow> ENetOutgoingCommand peer_op" where
  "enet_peer_queue_outgoing_command command packet offset len peer ps = do {
     size \<leftarrow> enet_protocol_command_size (command_of command);
     (rsn, usn, peer1) \<leftarrow> next_sequence_numbers
        (peer\<lparr>outgoingDataTotal := outgoingDataTotal peer + ucast (size + ucast len)\<rparr>) command;
     let oc = \<lparr>oc_reliableSequenceNumber = rsn, oc_unreliableSequenceNumber = usn, oc_sentTime = 0,
       oc_roundTripTimeout = 0, oc_roundTripTimeoutLimit = 0, oc_fragmentOffset = offset,
       oc_fragmentLength = len,
       oc_command = command\<lparr>prt_header :=
         (prt_header command)\<lparr>hdr_reliableSequenceNumber := ENET_HOST_TO_NET_16 rsn\<rparr>\<rparr>,
       oc_packet = packet\<rparr>;
     ps1 \<leftarrow> (case packet of None \<Rightarrow> Some ps | Some p \<Rightarrow> packet_retain p ps);
     Some (oc,
       (if command_of command AND ENET_PROTOCOL_COMMAND_FLAG_ACKNOWLEDGE \<noteq> 0
        then peer1\<lparr>outgoingReliableCommands := outgoingReliableCommands peer1 @ [oc]\<rparr>
        else peer1\<lparr>outgoingUnreliableCommands := outgoingUnreliableCommands peer1 @ [oc]\<rparr>), ps1) }"

subsection \<open>Sending\<close>

definition enet_peer_throttle_configure :: "u32 \<Rightarrow> u32 \<Rightarrow> u32 \<Rightarrow> ENetOutgoingCommand peer_op" where
  "enet_peer_throttle_configure interval acceleration deceleration peer ps =
     enet_peer_queue_outgoing_command
       (local_command (ENET_PROTOCOL_COMMAND_THROTTLE_CONFIGURE OR ENET_PROTOCOL_COMMAND_FLAG_ACKNOWLEDGE) 0xFF
          (ThrottleConfigure \<lparr>thr_packetThrottleInterval = ENET_HOST_TO_NET_32 interval,
             thr_packetThrottleAcceleration = ENET_HOST_TO_NET_32 acceleration,
             thr_packetThrottleDeceleration = ENET_HOST_TO_NET_32 deceleration\<rparr>))
       None 0 0
       (peer\<lparr>packetThrottleInterval := interval, packetThrottleAcceleration := acceleration,
             packetThrottleDeceleration := deceleration\<rparr>) ps"

definition enet_peer_ping :: "unit peer_op" where
  "enet_peer_ping peer ps =
     (if peer_state peer \<noteq> ENET_PEER_STATE_CONNECTED then Some ((), peer, ps)
      else do {
        (_, peer1, ps1) \<leftarrow> enet_peer_queue_outgoing_command
          (local_command (ENET_PROTOCOL_COMMAND_PING OR ENET_PROTOCOL_COMMAND_FLAG_ACKNOWLEDGE) 0xFF Ping)
          None 0 0 peer ps;
        Some ((), peer1, ps1) })"

text \<open>
  The loop of \<open>enet_peer_send\<close> over the fragments. \<open>fragmentOffset\<close> has 32 bits and
  \<open>dataLength\<close> 64, so the loop may run forever, which is \<open>None\<close>.
\<close>

partial_function (option) send_fragments ::
  "nat \<Rightarrow> u8 \<Rightarrow> usize \<Rightarrow> u16 \<Rightarrow> u32 \<Rightarrow> usize \<Rightarrow> u32 \<Rightarrow> u32 \<Rightarrow> unit peer_op" where
  "send_fragments packet channelID dataLength startSequenceNumber fragmentCount
       fragmentLength fragmentNumber fragmentOffset peer ps =
    (if ucast fragmentOffset < dataLength then do {
       let fl = (if dataLength - ucast fragmentOffset < fragmentLength
                 then dataLength - ucast fragmentOffset else fragmentLength);
       (_, peer1, ps1) \<leftarrow> enet_peer_queue_outgoing_command
         (local_command (ENET_PROTOCOL_COMMAND_SEND_FRAGMENT OR ENET_PROTOCOL_COMMAND_FLAG_ACKNOWLEDGE) channelID
           (SendFragment \<lparr>frg_startSequenceNumber = startSequenceNumber,
              frg_dataLength = ENET_HOST_TO_NET_16 (ucast fl),
              frg_fragmentCount = fragmentCount,
              frg_fragmentNumber = ENET_HOST_TO_NET_32 fragmentNumber,
              frg_totalLength = ENET_HOST_TO_NET_32 (ucast dataLength),
              frg_fragmentOffset = ENET_NET_TO_HOST_32 fragmentOffset\<rparr>))
         (Some packet) fragmentOffset (ucast fl) peer ps;
       send_fragments packet channelID dataLength startSequenceNumber fragmentCount
         fl (fragmentNumber + 1) (fragmentOffset + ucast fl) peer1 ps1 }
     else Some ((), peer, ps))"

declare send_fragments.simps [code]

definition set_packet_flags :: "nat \<Rightarrow> packet_store \<Rightarrow> packet_store option" where
  "set_packet_flags p = packet_update p (\<lambda>k. k\<lparr>pkt_flags :=
     (pkt_flags k OR ENET_PACKET_FLAG_RELIABLE) AND NOT ENET_PACKET_FLAG_UNSEQUENCED\<rparr>)"

definition enet_peer_send :: "u8 \<Rightarrow> nat \<Rightarrow> int peer_op" where
  "enet_peer_send channelID packet peer ps =
    (if peer_state peer \<noteq> ENET_PEER_STATE_CONNECTED \<or> ucast channelID \<ge> channelCount peer
     then Some (-1, peer, ps)
     else do {
       ch \<leftarrow> get_channel peer channelID;
       k \<leftarrow> pheap ps packet;
       let fragmentLength = (ucast (peer_mtu peer) :: usize) - sizeof_ENetProtocolHeader - 24;
       if pkt_dataLength k > fragmentLength then
         (if fragmentLength = 0 then None else do {
           let startSequenceNumber = ENET_HOST_TO_NET_16 (ch_outgoingReliableSequenceNumber ch + 1);
           let fragmentCount = ENET_HOST_TO_NET_32
             (ucast ((pkt_dataLength k + fragmentLength - 1) div fragmentLength));
           ps1 \<leftarrow> set_packet_flags packet ps;
           (_, peer1, ps2) \<leftarrow> send_fragments packet channelID (pkt_dataLength k) startSequenceNumber
             fragmentCount fragmentLength 0 0 peer ps1;
           Some (0, peer1, ps2) })
       else do {
         let command =
           (if pkt_flags k AND ENET_PACKET_FLAG_RELIABLE \<noteq> 0 then
              local_command (ENET_PROTOCOL_COMMAND_SEND_RELIABLE OR ENET_PROTOCOL_COMMAND_FLAG_ACKNOWLEDGE) channelID
                (SendReliable \<lparr>srl_dataLength = ENET_HOST_TO_NET_16 (ucast (pkt_dataLength k))\<rparr>)
            else if pkt_flags k AND ENET_PACKET_FLAG_UNSEQUENCED \<noteq> 0 then
              local_command (ENET_PROTOCOL_COMMAND_SEND_UNSEQUENCED OR ENET_PROTOCOL_COMMAND_FLAG_UNSEQUENCED) channelID
                (SendUnsequenced \<lparr>suq_unsequencedGroup = ENET_HOST_TO_NET_16 (outgoingUnsequencedGroup peer + 1),
                   suq_dataLength = ENET_HOST_TO_NET_16 (ucast (pkt_dataLength k))\<rparr>)
            else
              local_command ENET_PROTOCOL_COMMAND_SEND_UNRELIABLE channelID
                (SendUnreliable \<lparr>sul_unreliableSequenceNumber =
                     ENET_HOST_TO_NET_16 (ch_outgoingUnreliableSequenceNumber ch + 1),
                   sul_dataLength = ENET_HOST_TO_NET_16 (ucast (pkt_dataLength k))\<rparr>));
         (_, peer1, ps1) \<leftarrow> enet_peer_queue_outgoing_command command (Some packet) 0
           (ucast (pkt_dataLength k)) peer ps;
         Some (0, peer1, ps1) } })"

subsection \<open>Receiving\<close>

text \<open>
  \<open>enet_peer_receive\<close> takes the front of one of the two queues of the channel; the reference the
  queue held is given to the caller without destroying the packet.
\<close>

definition take_packet :: "ENetIncomingCommand \<Rightarrow> packet_store \<Rightarrow> (nat \<times> packet_store) option" where
  "take_packet ic ps = do {
     p \<leftarrow> ic_packet ic;
     ps1 \<leftarrow> packet_drop p ps;
     Some (p, ps1) }"

text \<open>The first command of the unreliable queue, if it may be delivered now.\<close>

definition receive_unreliable :: "ENetChannel \<Rightarrow> (ENetIncomingCommand \<times> ENetChannel) option" where
  "receive_unreliable ch =
    (case incomingUnreliableCommands ch of
       [] \<Rightarrow> None
     | ic # rest \<Rightarrow>
         if command_of (ic_command ic) AND ENET_PROTOCOL_COMMAND_MASK = ENET_PROTOCOL_COMMAND_SEND_UNRELIABLE then
           (if ic_reliableSequenceNumber ic \<noteq> ch_incomingReliableSequenceNumber ch then None
            else Some (ic, ch\<lparr>ch_incomingUnreliableSequenceNumber := ic_unreliableSequenceNumber ic,
                              incomingUnreliableCommands := rest\<rparr>))
         else Some (ic, ch\<lparr>incomingUnreliableCommands := rest\<rparr>))"

definition receive_reliable :: "ENetChannel \<Rightarrow> (ENetIncomingCommand \<times> ENetChannel) option" where
  "receive_reliable ch =
    (case incomingReliableCommands ch of
       [] \<Rightarrow> None
     | ic # rest \<Rightarrow>
         if ic_fragmentsRemaining ic > 0 \<or>
            ic_reliableSequenceNumber ic \<noteq> ch_incomingReliableSequenceNumber ch + 1 then None
         else
           (let n = ic_reliableSequenceNumber ic +
                (if ic_fragmentCount ic > 0 then ucast (ic_fragmentCount ic - 1) else 0)
            in Some (ic, ch\<lparr>ch_incomingReliableSequenceNumber := n, incomingReliableCommands := rest\<rparr>)))"

definition enet_peer_receive :: "u8 \<Rightarrow> nat option peer_op" where
  "enet_peer_receive channelID peer ps = do {
     ch \<leftarrow> get_channel peer channelID;
     case (case receive_unreliable ch of None \<Rightarrow> receive_reliable ch | Some r \<Rightarrow> Some r) of
       None \<Rightarrow> Some (None, peer, ps)
     | Some (ic, ch1) \<Rightarrow> do {
         (p, ps1) \<leftarrow> take_packet ic ps;
         Some (Some p, put_channel channelID ch1 peer, ps1) } }"

subsection \<open>Queueing what arrives\<close>

text \<open>
  The backward walks of \<open>enet_peer_queue_incoming_command\<close>, on the reversed queue. The result is
  the number of elements the new command goes behind, or \<open>None\<close> for a duplicate. The sequence
  number the walk looks for is a variable of the function that the walk itself may take back below
  \<open>0x10000\<close>.
\<close>

fun place_reliable :: "u32 \<Rightarrow> ENetIncomingCommand list \<Rightarrow> nat option" where
  "place_reliable n [] = Some 0"
| "place_reliable n (ic # earlier) =
    (let n1 = (if n \<ge> 0x10000 \<and> ic_reliableSequenceNumber ic < 0xF000 then n - 0x10000 else n)
     in if ucast (ic_reliableSequenceNumber ic) \<le> n1
        then (if ucast (ic_reliableSequenceNumber ic) < n1 then Some (Suc (length earlier)) else None)
        else place_reliable n1 earlier)"

text \<open>The result has the sequence number as well: the caller stores it.\<close>

fun place_unreliable :: "u32 \<Rightarrow> ENetIncomingCommand list \<Rightarrow> (nat \<times> u32) option" where
  "place_unreliable n [] = Some (0, n)"
| "place_unreliable n (ic # earlier) =
    (if command_of (ic_command ic) AND ENET_PROTOCOL_COMMAND_MASK \<noteq> ENET_PROTOCOL_COMMAND_SEND_UNRELIABLE
     then place_unreliable n earlier
     else
      (let n1 = (if n \<ge> 0x10000 \<and> ic_unreliableSequenceNumber ic < 0xF000 then n - 0x10000 else n)
       in if ucast (ic_unreliableSequenceNumber ic) \<le> n1
          then (if ucast (ic_unreliableSequenceNumber ic) < n1 then Some (Suc (length earlier), n1) else None)
          else place_unreliable n1 earlier))"

definition insert_at :: "nat \<Rightarrow> 'a \<Rightarrow> 'a list \<Rightarrow> 'a list" where
  "insert_at k x xs = take k xs @ x # drop k xs"

text \<open>The label \<open>freePacket\<close>.\<close>

definition free_packet :: "nat option \<Rightarrow> packet_store \<Rightarrow> packet_store option" where
  "free_packet packet ps =
     (case packet of
        None \<Rightarrow> Some ps
      | Some p \<Rightarrow> do {
          k \<leftarrow> pheap ps p;
          if referenceCount k = 0 then enet_packet_destroy p ps else Some ps })"

text \<open>
  The sequence number a command has relative to the channel: a small number after a large one has
  wrapped. \<open>None\<close> for a number behind the channel's.
\<close>

definition widen_sequence :: "u16 \<Rightarrow> u16 \<Rightarrow> u32" where
  "widen_sequence current n =
     (if current \<ge> 0xF000 \<and> (ucast n :: u32) < 0x1000 then ucast n + 0x10000 else ucast n)"

definition sequence_is_old :: "u16 \<Rightarrow> u32 \<Rightarrow> bool" where
  "sequence_is_old current n \<longleftrightarrow>
     n < ucast current \<or> (current < 0x1000 \<and> n AND 0xFFFF \<ge> 0xF000)"

text \<open>
  Where the new command goes: the reliable queue or not, behind how many elements, and the
  unreliable sequence number to store. \<open>None\<close> is a jump to \<open>freePacket\<close>.
\<close>

definition incoming_place :: "ENetChannel \<Rightarrow> ENetProtocol \<Rightarrow> (bool \<times> nat \<times> u32) option" where
  "incoming_place ch command =
    (let kind = command_of command AND ENET_PROTOCOL_COMMAND_MASK;
         rsn = widen_sequence (ch_incomingReliableSequenceNumber ch) (sequence_of command)
     in if kind \<noteq> ENET_PROTOCOL_COMMAND_SEND_UNSEQUENCED \<and>
           sequence_is_old (ch_incomingReliableSequenceNumber ch) rsn then None
        else if kind = ENET_PROTOCOL_COMMAND_SEND_FRAGMENT \<or> kind = ENET_PROTOCOL_COMMAND_SEND_RELIABLE then
          (if rsn = ucast (ch_incomingReliableSequenceNumber ch) then None
           else map_option (\<lambda>k. (True, k, 0)) (place_reliable rsn (rev (incomingReliableCommands ch))))
        else if kind = ENET_PROTOCOL_COMMAND_SEND_UNRELIABLE then
          (case prt_body command of
             SendUnreliable b \<Rightarrow>
               (let usn = widen_sequence (ch_incomingUnreliableSequenceNumber ch)
                      (ENET_NET_TO_HOST_16 (sul_unreliableSequenceNumber b))
                in if usn \<le> ucast (ch_incomingUnreliableSequenceNumber ch) \<or>
                      (ch_incomingUnreliableSequenceNumber ch < 0x1000 \<and> usn AND 0xFFFF \<ge> 0xF000) then None
                   else map_option (\<lambda>(k, n). (False, k, n))
                          (place_unreliable usn (rev (incomingUnreliableCommands ch))))
           | _ \<Rightarrow> None)
        else if kind = ENET_PROTOCOL_COMMAND_SEND_UNSEQUENCED then Some (False, 0, 0)
        else None)"

text \<open>
  The pointer returned is \<open>None\<close> for \<open>NULL\<close>, or the position of the command in its queue. The array
  of fragment bits has \<open>(fragmentCount + 31) / 32\<close> words, computed in 32 bits. The caller has a
  valid channel unless the peer is in the state \<open>DISCONNECT_LATER\<close>, where it is not read.
\<close>

definition enet_peer_queue_incoming_command ::
  "ENetProtocol \<Rightarrow> nat option \<Rightarrow> u32 \<Rightarrow> nat option peer_op" where
  "enet_peer_queue_incoming_command command packet fragmentCount peer ps =
    (if peer_state peer = ENET_PEER_STATE_DISCONNECT_LATER
     then map_option (\<lambda>ps1. (None, peer, ps1)) (free_packet packet ps)
     else do {
       ch \<leftarrow> get_channel peer (channelID_of command);
       case incoming_place ch command of
         None \<Rightarrow> map_option (\<lambda>ps1. (None, peer, ps1)) (free_packet packet ps)
       | Some (reliable, k, usn) \<Rightarrow> do {
           let ic = \<lparr>ic_reliableSequenceNumber = sequence_of command,
             ic_unreliableSequenceNumber = ucast (usn AND 0xFFFF),
             ic_command = command, ic_fragmentCount = fragmentCount,
             ic_fragmentsRemaining = fragmentCount,
             ic_fragments = (if fragmentCount > 0
                then Some (replicate (unat ((fragmentCount + 31) div 32)) 0) else None),
             ic_packet = packet\<rparr>;
           ps1 \<leftarrow> (case packet of None \<Rightarrow> Some ps | Some p \<Rightarrow> packet_retain p ps);
           let ch1 = (if reliable
              then ch\<lparr>incomingReliableCommands := insert_at k ic (incomingReliableCommands ch)\<rparr>
              else ch\<lparr>incomingUnreliableCommands := insert_at k ic (incomingUnreliableCommands ch)\<rparr>);
           Some (Some k, put_channel (channelID_of command) ch1 peer, ps1) } })"

subsection \<open>Resetting\<close>

text \<open>
  The two loops that empty a queue: every element is removed, its reference dropped, and the packet
  destroyed with the last one.
\<close>

definition release_option :: "nat option \<Rightarrow> packet_store \<Rightarrow> packet_store option" where
  "release_option packet ps = (case packet of None \<Rightarrow> Some ps | Some p \<Rightarrow> packet_release p ps)"

fun enet_peer_reset_outgoing_commands :: "ENetOutgoingCommand list \<Rightarrow> packet_store \<Rightarrow> packet_store option" where
  "enet_peer_reset_outgoing_commands [] ps = Some ps"
| "enet_peer_reset_outgoing_commands (oc # queue) ps = do {
     ps1 \<leftarrow> release_option (oc_packet oc) ps;
     enet_peer_reset_outgoing_commands queue ps1 }"

fun enet_peer_reset_incoming_commands :: "ENetIncomingCommand list \<Rightarrow> packet_store \<Rightarrow> packet_store option" where
  "enet_peer_reset_incoming_commands [] ps = Some ps"
| "enet_peer_reset_incoming_commands (ic # queue) ps = do {
     ps1 \<leftarrow> release_option (ic_packet ic) ps;
     enet_peer_reset_incoming_commands queue ps1 }"

fun reset_channels :: "ENetChannel list \<Rightarrow> packet_store \<Rightarrow> packet_store option" where
  "reset_channels [] ps = Some ps"
| "reset_channels (ch # chs) ps = do {
     ps1 \<leftarrow> enet_peer_reset_incoming_commands (incomingReliableCommands ch) ps;
     ps2 \<leftarrow> enet_peer_reset_incoming_commands (incomingUnreliableCommands ch) ps1;
     reset_channels chs ps2 }"

text \<open>The walk over \<open>channelCount\<close> channels leaves the array when it is shorter, which is \<open>None\<close>.\<close>

definition enet_peer_reset_queues :: "unit peer_op" where
  "enet_peer_reset_queues peer ps = do {
     ps1 \<leftarrow> enet_peer_reset_outgoing_commands (sentReliableCommands peer) ps;
     ps2 \<leftarrow> enet_peer_reset_outgoing_commands (sentUnreliableCommands peer) ps1;
     ps3 \<leftarrow> enet_peer_reset_outgoing_commands (outgoingReliableCommands peer) ps2;
     ps4 \<leftarrow> enet_peer_reset_outgoing_commands (outgoingUnreliableCommands peer) ps3;
     ps5 \<leftarrow> (if channels peer \<noteq> [] \<and> channelCount peer > 0
            then (if length (channels peer) < unat (channelCount peer) then None
                  else reset_channels (take (unat (channelCount peer)) (channels peer)) ps4)
            else Some ps4);
     Some ((), peer\<lparr>acknowledgements := [], sentReliableCommands := [], sentUnreliableCommands := [],
        outgoingReliableCommands := [], outgoingUnreliableCommands := [], channels := [],
        channelCount := 0\<rparr>, ps5) }"

text \<open>\<open>hostmtu\<close> is \<open>peer -> host -> mtu\<close>.\<close>

definition reset_fields :: "u32 \<Rightarrow> ENetPeer \<Rightarrow> ENetPeer" where
  "reset_fields hostmtu peer = peer\<lparr>
     outgoingPeerID := ENET_PROTOCOL_MAXIMUM_PEER_ID,
     sessionID := 0,
     peer_state := ENET_PEER_STATE_DISCONNECTED,
     peer_incomingBandwidth := 0,
     peer_outgoingBandwidth := 0,
     incomingBandwidthThrottleEpoch := 0,
     outgoingBandwidthThrottleEpoch := 0,
     incomingDataTotal := 0,
     outgoingDataTotal := 0,
     lastSendTime := 0,
     lastReceiveTime := 0,
     nextTimeout := 0,
     earliestTimeout := 0,
     packetLossEpoch := 0,
     packetsSent := 0,
     packetsLost := 0,
     packetLoss := 0,
     packetLossVariance := 0,
     packetThrottle := ENET_PEER_DEFAULT_PACKET_THROTTLE,
     packetThrottleLimit := ENET_PEER_PACKET_THROTTLE_SCALE,
     packetThrottleCounter := 0,
     packetThrottleEpoch := 0,
     packetThrottleAcceleration := ENET_PEER_PACKET_THROTTLE_ACCELERATION,
     packetThrottleDeceleration := ENET_PEER_PACKET_THROTTLE_DECELERATION,
     packetThrottleInterval := ENET_PEER_PACKET_THROTTLE_INTERVAL,
     lastRoundTripTime := ENET_PEER_DEFAULT_ROUND_TRIP_TIME,
     lowestRoundTripTime := ENET_PEER_DEFAULT_ROUND_TRIP_TIME,
     lastRoundTripTimeVariance := 0,
     highestRoundTripTimeVariance := 0,
     roundTripTime := ENET_PEER_DEFAULT_ROUND_TRIP_TIME,
     roundTripTimeVariance := 0,
     peer_mtu := ucast hostmtu,
     reliableDataInTransit := 0,
     outgoingReliableSequenceNumber := 0,
     windowSize := ENET_PROTOCOL_MAXIMUM_WINDOW_SIZE,
     incomingUnsequencedGroup := 0,
     outgoingUnsequencedGroup := 0,
     disconnectData := 0,
     unsequencedWindow := replicate 4 0\<rparr>"

definition enet_peer_reset :: "u32 \<Rightarrow> unit peer_op" where
  "enet_peer_reset hostmtu peer ps = enet_peer_reset_queues (reset_fields hostmtu peer) ps"

subsection \<open>Disconnecting\<close>

text \<open>
  \<open>flush\<close> is \<open>enet_host_flush\<close> on the host of the peer with index \<open>i\<close>. After it the peer is read
  from the world again, as the C code does through its pointer.
\<close>

definition disconnect_command :: "u8 \<Rightarrow> u32 \<Rightarrow> ENetProtocol" where
  "disconnect_command flag dat = local_command (ENET_PROTOCOL_COMMAND_DISCONNECT OR flag) 0xFF
     (Disconnect \<lparr>dis_data = ENET_HOST_TO_NET_32 dat\<rparr>)"

text \<open>Resetting the queues and queueing the disconnect command.\<close>

definition queue_disconnect :: "u8 \<Rightarrow> u32 \<Rightarrow> unit peer_op" where
  "queue_disconnect flag dat peer ps = do {
     (_, peer1, ps1) \<leftarrow> enet_peer_reset_queues peer ps;
     (_, peer2, ps2) \<leftarrow> enet_peer_queue_outgoing_command (disconnect_command flag dat) None 0 0 peer1 ps1;
     Some ((), peer2, ps2) }"

definition enet_peer_disconnect_now ::
  "(world \<Rightarrow> world option) \<Rightarrow> nat \<Rightarrow> u32 \<Rightarrow> world \<Rightarrow> world option" where
  "enet_peer_disconnect_now flush i dat w = do {
     p \<leftarrow> get_peer w i;
     if peer_state p = ENET_PEER_STATE_DISCONNECTED then Some w
     else do {
       w1 \<leftarrow> (if peer_state p \<noteq> ENET_PEER_STATE_ZOMBIE \<and> peer_state p \<noteq> ENET_PEER_STATE_DISCONNECTING
         then do {
           (_, w') \<leftarrow> on_peer i (queue_disconnect ENET_PROTOCOL_COMMAND_FLAG_UNSEQUENCED dat) w;
           flush w' }
         else Some w);
       (_, w2) \<leftarrow> on_peer i (enet_peer_reset (host_mtu (host w1))) w1;
       Some w2 } }"

definition enet_peer_disconnect ::
  "(world \<Rightarrow> world option) \<Rightarrow> nat \<Rightarrow> u32 \<Rightarrow> world \<Rightarrow> world option" where
  "enet_peer_disconnect flush i dat w = do {
     p \<leftarrow> get_peer w i;
     if peer_state p = ENET_PEER_STATE_DISCONNECTING \<or> peer_state p = ENET_PEER_STATE_DISCONNECTED \<or>
        peer_state p = ENET_PEER_STATE_ZOMBIE then Some w
     else if peer_state p = ENET_PEER_STATE_CONNECTED \<or> peer_state p = ENET_PEER_STATE_DISCONNECT_LATER
     then do {
       (_, w1) \<leftarrow> on_peer i (queue_disconnect ENET_PROTOCOL_COMMAND_FLAG_ACKNOWLEDGE dat) w;
       (_, w2) \<leftarrow> on_peer i (\<lambda>q ps. Some ((), q\<lparr>peer_state := ENET_PEER_STATE_DISCONNECTING\<rparr>, ps)) w1;
       Some w2 }
     else do {
       (_, w1) \<leftarrow> on_peer i (queue_disconnect ENET_PROTOCOL_COMMAND_FLAG_UNSEQUENCED dat) w;
       w2 \<leftarrow> flush w1;
       (_, w3) \<leftarrow> on_peer i (enet_peer_reset (host_mtu (host w2))) w2;
       Some w3 } }"

definition enet_peer_disconnect_later ::
  "(world \<Rightarrow> world option) \<Rightarrow> nat \<Rightarrow> u32 \<Rightarrow> world \<Rightarrow> world option" where
  "enet_peer_disconnect_later flush i dat w = do {
     p \<leftarrow> get_peer w i;
     if (peer_state p = ENET_PEER_STATE_CONNECTED \<or> peer_state p = ENET_PEER_STATE_DISCONNECT_LATER) \<and>
        \<not> (outgoingReliableCommands p = [] \<and> outgoingUnreliableCommands p = [] \<and> sentReliableCommands p = [])
     then Some (put_peer i (p\<lparr>peer_state := ENET_PEER_STATE_DISCONNECT_LATER, disconnectData := dat\<rparr>) w)
     else enet_peer_disconnect flush i dat w }"

end
