(* ===== verification/Host.thy ===== *)
theory Host
  imports Peer
begin

text \<open>
  \<open>dll_src/reliableudp/src/host.c\<close>: creating and destroying hosts, connecting, broadcasting and the
  bandwidth throttle. A loop over the array \<open>peers\<close> is a recursion over the list; the loops of the
  throttle that run until nothing needs adjustment are recursive functions with a termination proof.
\<close>

subsection \<open>Creating and destroying\<close>

text \<open>A peer after the \<open>memset\<close> of \<open>enet_host_create\<close>.\<close>

definition zero_peer :: ENetPeer where
  "zero_peer = \<lparr>outgoingPeerID = 0, incomingPeerID = 0, sessionID = 0,
     peer_address = \<lparr>addr_host = 0, addr_port = 0\<rparr>, peer_data = 0,
     peer_state = ENET_PEER_STATE_DISCONNECTED, channels = [], channelCount = 0,
     peer_incomingBandwidth = 0, peer_outgoingBandwidth = 0,
     incomingBandwidthThrottleEpoch = 0, outgoingBandwidthThrottleEpoch = 0,
     incomingDataTotal = 0, outgoingDataTotal = 0, lastSendTime = 0, lastReceiveTime = 0,
     nextTimeout = 0, earliestTimeout = 0, packetLossEpoch = 0, packetsSent = 0, packetsLost = 0,
     packetLoss = 0, packetLossVariance = 0, packetThrottle = 0, packetThrottleLimit = 0,
     packetThrottleCounter = 0, packetThrottleEpoch = 0, packetThrottleAcceleration = 0,
     packetThrottleDeceleration = 0, packetThrottleInterval = 0, lastRoundTripTime = 0,
     lowestRoundTripTime = 0, lastRoundTripTimeVariance = 0, highestRoundTripTimeVariance = 0,
     roundTripTime = 0, roundTripTimeVariance = 0, peer_mtu = 0, windowSize = 0,
     reliableDataInTransit = 0, outgoingReliableSequenceNumber = 0, acknowledgements = [],
     sentReliableCommands = [], sentUnreliableCommands = [], outgoingReliableCommands = [],
     outgoingUnreliableCommands = [], incomingUnsequencedGroup = 0, outgoingUnsequencedGroup = 0,
     unsequencedWindow = replicate 4 0, disconnectData = 0\<rparr>"

fun reset_peers :: "u32 \<Rightarrow> ENetPeer list \<Rightarrow> packet_store \<Rightarrow> (ENetPeer list \<times> packet_store) option" where
  "reset_peers hostmtu [] ps = Some ([], ps)"
| "reset_peers hostmtu (p # rest) ps = do {
     (_, p1, ps1) \<leftarrow> enet_peer_reset hostmtu p ps;
     (rest1, ps2) \<leftarrow> reset_peers hostmtu rest ps1;
     Some (p1 # rest1, ps2) }"

text \<open>
  \<open>memory\<close> is what the allocated structure holds before it is initialised: the fields the function
  does not set keep it. \<open>socket_ok\<close> tells whether \<open>enet_socket_create\<close> succeeds.
\<close>

definition enet_host_create ::
  "ENetHost \<Rightarrow> bool \<Rightarrow> ENetAddress option \<Rightarrow> usize \<Rightarrow> u32 \<Rightarrow> u32 \<Rightarrow> packet_store \<Rightarrow>
     (ENetHost option \<times> packet_store) option" where
  "enet_host_create memory socket_ok address n incoming outgoing ps =
     (if n > ENET_PROTOCOL_MAXIMUM_PEER_ID then Some (None, ps)
      else if \<not> socket_ok then Some (None, ps)
      else do {
        let h = memory\<lparr>
          host_address := (case address of None \<Rightarrow> host_address memory | Some a \<Rightarrow> a),
          host_incomingBandwidth := incoming,
          host_outgoingBandwidth := outgoing,
          bandwidthThrottleEpoch := 0,
          recalculateBandwidthLimits := False,
          host_mtu := ENET_HOST_DEFAULT_MTU,
          lastServicedPeer := 0,
          commandCount := 0,
          bufferCount := 0,
          receivedAddress := \<lparr>addr_host = ENET_HOST_ANY, addr_port = 0\<rparr>,
          receivedDataLength := 0\<rparr>;
        (pl, ps1) \<leftarrow> reset_peers (host_mtu h)
          (map (\<lambda>i. zero_peer\<lparr>incomingPeerID := of_nat i\<rparr>) [0..<unat n]) ps;
        Some (Some (h\<lparr>peers := pl\<rparr>), ps1) })"

text \<open>What is left of the packets; the memory of the host and its peers is gone.\<close>

definition enet_host_destroy :: "ENetHost \<Rightarrow> packet_store \<Rightarrow> packet_store option" where
  "enet_host_destroy h ps = map_option snd (reset_peers (host_mtu h) (peers h) ps)"

subsection \<open>Connecting\<close>

text \<open>The search for a free slot, used here and in \<open>enet_protocol_handle_connect\<close>.\<close>

fun free_slot :: "ENetPeer list \<Rightarrow> nat option" where
  "free_slot [] = None"
| "free_slot (p # rest) =
     (if peer_state p = ENET_PEER_STATE_DISCONNECTED then Some 0 else map_option Suc (free_slot rest))"

definition fresh_channel :: ENetChannel where
  "fresh_channel = \<lparr>ch_outgoingReliableSequenceNumber = 0, ch_outgoingUnreliableSequenceNumber = 0,
     ch_incomingReliableSequenceNumber = 0, ch_incomingUnreliableSequenceNumber = 0,
     incomingReliableCommands = [], incomingUnreliableCommands = []\<rparr>"

definition clamp_windowSize :: "u32 \<Rightarrow> u32" where
  "clamp_windowSize n =
     (if n < ENET_PROTOCOL_MINIMUM_WINDOW_SIZE then ENET_PROTOCOL_MINIMUM_WINDOW_SIZE
      else if n > ENET_PROTOCOL_MAXIMUM_WINDOW_SIZE then ENET_PROTOCOL_MAXIMUM_WINDOW_SIZE else n)"

text \<open>The window a bandwidth allows.\<close>

definition bandwidth_window :: "u32 \<Rightarrow> u32" where
  "bandwidth_window bandwidth = (bandwidth div ENET_PEER_WINDOW_SIZE_SCALE) * ENET_PROTOCOL_MINIMUM_WINDOW_SIZE"

definition clamp_channelCount :: "usize \<Rightarrow> usize" where
  "clamp_channelCount n =
     (if n < ENET_PROTOCOL_MINIMUM_CHANNEL_COUNT then ENET_PROTOCOL_MINIMUM_CHANNEL_COUNT
      else if n > ENET_PROTOCOL_MAXIMUM_CHANNEL_COUNT then ENET_PROTOCOL_MAXIMUM_CHANNEL_COUNT else n)"

definition connecting_peer :: "ENetHost \<Rightarrow> ENetAddress \<Rightarrow> usize \<Rightarrow> u32 \<Rightarrow> ENetPeer \<Rightarrow> ENetPeer" where
  "connecting_peer h address n session peer = peer\<lparr>
     peer_state := ENET_PEER_STATE_CONNECTING,
     peer_address := address,
     channels := replicate (unat n) fresh_channel,
     channelCount := n,
     sessionID := session,
     windowSize := clamp_windowSize
       (if host_outgoingBandwidth h = 0 then ENET_PROTOCOL_MAXIMUM_WINDOW_SIZE
        else bandwidth_window (host_outgoingBandwidth h))\<rparr>"

definition connect_command :: "ENetHost \<Rightarrow> ENetPeer \<Rightarrow> ENetProtocol" where
  "connect_command h peer =
     local_command (ENET_PROTOCOL_COMMAND_CONNECT OR ENET_PROTOCOL_COMMAND_FLAG_ACKNOWLEDGE) 0xFF
       (Connect \<lparr>con_outgoingPeerID = ENET_HOST_TO_NET_16 (incomingPeerID peer),
          con_mtu = ENET_HOST_TO_NET_16 (peer_mtu peer),
          con_windowSize = ENET_HOST_TO_NET_32 (windowSize peer),
          con_channelCount = ENET_HOST_TO_NET_32 (ucast (channelCount peer)),
          con_incomingBandwidth = ENET_HOST_TO_NET_32 (host_incomingBandwidth h),
          con_outgoingBandwidth = ENET_HOST_TO_NET_32 (host_outgoingBandwidth h),
          con_packetThrottleInterval = ENET_HOST_TO_NET_32 (packetThrottleInterval peer),
          con_packetThrottleAcceleration = ENET_HOST_TO_NET_32 (packetThrottleAcceleration peer),
          con_packetThrottleDeceleration = ENET_HOST_TO_NET_32 (packetThrottleDeceleration peer),
          con_sessionID = sessionID peer\<rparr>)"

text \<open>The result is the index of the peer, or \<open>None\<close> for \<open>NULL\<close>.\<close>

definition enet_host_connect :: "ENetAddress \<Rightarrow> usize \<Rightarrow> world \<Rightarrow> (nat option \<times> world) option" where
  "enet_host_connect address n w =
     (case free_slot (peers (host w)) of
        None \<Rightarrow> Some (None, w)
      | Some i \<Rightarrow> do {
          let (r, w1) = enet_rand w;
          (_, w2) \<leftarrow> on_peer i (\<lambda>p ps. do {
              let p1 = connecting_peer (host w) address (clamp_channelCount n) r p;
              enet_peer_queue_outgoing_command (connect_command (host w) p1) None 0 0 p1 ps }) w1;
          Some (Some i, w2) })"

subsection \<open>Broadcasting\<close>

fun broadcast_loop :: "u8 \<Rightarrow> nat \<Rightarrow> ENetPeer list \<Rightarrow> packet_store \<Rightarrow> (ENetPeer list \<times> packet_store) option" where
  "broadcast_loop channelID packet [] ps = Some ([], ps)"
| "broadcast_loop channelID packet (p # rest) ps =
    (if peer_state p \<noteq> ENET_PEER_STATE_CONNECTED
     then do {
       (rest1, ps1) \<leftarrow> broadcast_loop channelID packet rest ps;
       Some (p # rest1, ps1) }
     else do {
       (_, p1, ps1) \<leftarrow> enet_peer_send channelID packet p ps;
       (rest1, ps2) \<leftarrow> broadcast_loop channelID packet rest ps1;
       Some (p1 # rest1, ps2) })"

definition enet_host_broadcast :: "u8 \<Rightarrow> nat \<Rightarrow> ENetHost \<Rightarrow> packet_store \<Rightarrow> (ENetHost \<times> packet_store) option" where
  "enet_host_broadcast channelID packet h ps = do {
     (pl, ps1) \<leftarrow> broadcast_loop channelID packet (peers h) ps;
     k \<leftarrow> pheap ps1 packet;
     ps2 \<leftarrow> (if referenceCount k = 0 then enet_packet_destroy packet ps1 else Some ps1);
     Some (h\<lparr>peers := pl\<rparr>, ps2) }"

subsection \<open>Bandwidth\<close>

definition enet_host_bandwidth_limit :: "u32 \<Rightarrow> u32 \<Rightarrow> ENetHost \<Rightarrow> ENetHost" where
  "enet_host_bandwidth_limit incoming outgoing h =
     h\<lparr>host_incomingBandwidth := incoming, host_outgoingBandwidth := outgoing,
       recalculateBandwidthLimits := True\<rparr>"

definition is_active :: "ENetPeer \<Rightarrow> bool" where
  "is_active p \<longleftrightarrow> peer_state p = ENET_PEER_STATE_CONNECTED \<or> peer_state p = ENET_PEER_STATE_DISCONNECT_LATER"

definition count_active :: "ENetPeer list \<Rightarrow> u32 \<times> u32" where
  "count_active pl = foldl (\<lambda>(n, total) p.
     if is_active p then (n + 1, total + outgoingDataTotal p) else (n, total)) (0, 0) pl"

text \<open>
  One round over the peers: those whose share under the common throttle is more than their own
  bandwidth get a limit of their own. The state is \<open>peersRemaining\<close>, \<open>bandwidth\<close>, \<open>dataTotal\<close> and
  \<open>needsAdjustment\<close>. The division is by a number that the test before has shown to be positive.
\<close>

record throttle_state =
  ts_peersRemaining :: u32
  ts_bandwidth :: u32
  ts_dataTotal :: u32
  ts_needsAdjustment :: bool

definition peer_bandwidth :: "u32 \<Rightarrow> ENetPeer \<Rightarrow> u32" where
  "peer_bandwidth elapsed p = (peer_incomingBandwidth p * elapsed) div 1000"

definition is_over :: "u32 \<Rightarrow> u32 \<Rightarrow> u32 \<Rightarrow> ENetPeer \<Rightarrow> bool" where
  "is_over now elapsed throttle p \<longleftrightarrow>
     is_active p \<and> peer_incomingBandwidth p \<noteq> 0 \<and> outgoingBandwidthThrottleEpoch p \<noteq> now \<and>
     (throttle * outgoingDataTotal p) div ENET_PEER_PACKET_THROTTLE_SCALE > peer_bandwidth elapsed p"

definition limit_peer :: "u32 \<Rightarrow> u32 \<Rightarrow> ENetPeer \<Rightarrow> ENetPeer" where
  "limit_peer now elapsed p =
    (let l0 = (peer_bandwidth elapsed p * ENET_PEER_PACKET_THROTTLE_SCALE) div outgoingDataTotal p;
         l = (if l0 = 0 then 1 else l0)
     in p\<lparr>packetThrottleLimit := l,
          packetThrottle := (if packetThrottle p > l then l else packetThrottle p),
          outgoingBandwidthThrottleEpoch := now\<rparr>)"

fun throttle_round :: "u32 \<Rightarrow> u32 \<Rightarrow> u32 \<Rightarrow> ENetPeer list \<Rightarrow> throttle_state \<Rightarrow> ENetPeer list \<times> throttle_state" where
  "throttle_round now elapsed throttle [] s = ([], s)"
| "throttle_round now elapsed throttle (p # rest) s =
    (if is_over now elapsed throttle p then
       (let s1 = s\<lparr>ts_needsAdjustment := True, ts_peersRemaining := ts_peersRemaining s - 1,
                   ts_bandwidth := ts_bandwidth s - peer_bandwidth elapsed p,
                   ts_dataTotal := ts_dataTotal s - peer_bandwidth elapsed p\<rparr>;
            (rest1, s2) = throttle_round now elapsed throttle rest s1
        in (limit_peer now elapsed p # rest1, s2))
     else
       (let (rest1, s2) = throttle_round now elapsed throttle rest s in (p # rest1, s2)))"

text \<open>The common throttle; \<open>None\<close> is a division by zero.\<close>

definition common_throttle :: "throttle_state \<Rightarrow> u32 option" where
  "common_throttle s =
     (if ts_dataTotal s < ts_bandwidth s then Some ENET_PEER_PACKET_THROTTLE_SCALE
      else if ts_dataTotal s = 0 then None
      else Some ((ts_bandwidth s * ENET_PEER_PACKET_THROTTLE_SCALE) div ts_dataTotal s))"

text \<open>Peers that a round may still limit; every round that asks for another one limits a peer.\<close>

definition unlimited :: "u32 \<Rightarrow> ENetPeer list \<Rightarrow> nat" where
  "unlimited now pl = length (filter (\<lambda>p. outgoingBandwidthThrottleEpoch p \<noteq> now) pl)"

lemma throttle_round_unlimited:
  assumes "throttle_round now elapsed throttle pl s = (pl', s')"
  shows "unlimited now pl' \<le> unlimited now pl \<and>
    (ts_needsAdjustment s' \<longrightarrow> ts_needsAdjustment s \<or> unlimited now pl' < unlimited now pl)"
  using assms
proof (induction pl arbitrary: pl' s s')
  case Nil
  then show ?case by simp
next
  case (Cons p rest)
  show ?case
  proof (cases "is_over now elapsed throttle p")
    case True
    then obtain rest' s1 where r: "throttle_round now elapsed throttle rest s1 = (rest', s')"
        and pl': "pl' = limit_peer now elapsed p # rest'"
      using Cons.prems by (auto simp: Let_def split: prod.splits)
    have "outgoingBandwidthThrottleEpoch p \<noteq> now" using True by (simp add: is_over_def)
    then show ?thesis
      using Cons.IH [OF r] unfolding pl' by (auto simp: unlimited_def limit_peer_def Let_def)
  next
    case False
    then obtain rest' where r: "throttle_round now elapsed throttle rest s = (rest', s')"
        and pl': "pl' = p # rest'"
      using Cons.prems by (auto simp: Let_def split: prod.splits)
    show ?thesis using Cons.IH [OF r] unfolding pl' by (auto simp: unlimited_def)
  qed
qed

function throttle_loop ::
  "u32 \<Rightarrow> u32 \<Rightarrow> u32 \<Rightarrow> ENetPeer list \<Rightarrow> throttle_state \<Rightarrow> (u32 \<times> ENetPeer list \<times> throttle_state) option" where
  "throttle_loop now elapsed throttle pl s =
    (if ts_peersRemaining s > 0 \<and> ts_needsAdjustment s then
       (case common_throttle s of
          None \<Rightarrow> None
        | Some t \<Rightarrow>
            (let (pl1, s1) = throttle_round now elapsed t pl (s\<lparr>ts_needsAdjustment := False\<rparr>)
             in if ts_needsAdjustment s1 then throttle_loop now elapsed t pl1 s1 else Some (t, pl1, s1)))
     else Some (throttle, pl, s))"
  by pat_completeness auto
termination
proof (relation "measure (\<lambda>(now, elapsed, throttle, pl, s). unlimited now pl)", goal_cases)
  case 1
  then show ?case by simp
next
  case (2 now elapsed throttle pl s t x pl1 s1)
  then have r: "throttle_round now elapsed t pl (s\<lparr>ts_needsAdjustment := False\<rparr>) = (pl1, s1)" by simp
  from throttle_round_unlimited [OF r] 2 show ?case by (cases x) (simp add: r)
qed

declare throttle_loop.simps [simp del]

text \<open>The peers that got no limit of their own share the rest.\<close>

definition apply_common :: "u32 \<Rightarrow> u32 \<Rightarrow> ENetPeer \<Rightarrow> ENetPeer" where
  "apply_common now throttle p =
    (if is_active p \<and> outgoingBandwidthThrottleEpoch p \<noteq> now
     then p\<lparr>packetThrottleLimit := throttle,
            packetThrottle := (if packetThrottle p > throttle then throttle else packetThrottle p)\<rparr>
     else p)"

text \<open>
  The incoming side: a peer whose own outgoing bandwidth is below the even share is satisfied with
  it, and the share of the others grows. The state is \<open>peersRemaining\<close>, \<open>bandwidth\<close> and
  \<open>needsAdjustment\<close>.
\<close>

definition is_satisfied :: "u32 \<Rightarrow> u32 \<Rightarrow> ENetPeer \<Rightarrow> bool" where
  "is_satisfied now limit p \<longleftrightarrow>
     is_active p \<and> incomingBandwidthThrottleEpoch p \<noteq> now \<and>
     \<not> (peer_outgoingBandwidth p > 0 \<and> peer_outgoingBandwidth p \<ge> limit)"

fun share_round :: "u32 \<Rightarrow> u32 \<Rightarrow> ENetPeer list \<Rightarrow> u32 \<times> u32 \<times> bool \<Rightarrow> ENetPeer list \<times> u32 \<times> u32 \<times> bool" where
  "share_round now limit [] s = ([], s)"
| "share_round now limit (p # rest) (remaining, bandwidth, needs) =
    (if is_satisfied now limit p then
       (let (rest1, s1) = share_round now limit rest
              (remaining - 1, bandwidth - peer_outgoingBandwidth p, True)
        in (p\<lparr>incomingBandwidthThrottleEpoch := now\<rparr> # rest1, s1))
     else
       (let (rest1, s1) = share_round now limit rest (remaining, bandwidth, needs) in (p # rest1, s1)))"

definition unsatisfied :: "u32 \<Rightarrow> ENetPeer list \<Rightarrow> nat" where
  "unsatisfied now pl = length (filter (\<lambda>p. incomingBandwidthThrottleEpoch p \<noteq> now) pl)"

lemma share_round_unsatisfied:
  assumes "share_round now limit pl (r, b, n) = (pl', r', b', n')"
  shows "unsatisfied now pl' \<le> unsatisfied now pl \<and>
    (n' \<longrightarrow> n \<or> unsatisfied now pl' < unsatisfied now pl)"
  using assms
proof (induction pl arbitrary: pl' r b n r' b' n')
  case Nil
  then show ?case by simp
next
  case (Cons p rest)
  show ?case
  proof (cases "is_satisfied now limit p")
    case True
    then obtain rest' where r: "share_round now limit rest (r - 1, b - peer_outgoingBandwidth p, True) = (rest', r', b', n')"
        and pl': "pl' = p\<lparr>incomingBandwidthThrottleEpoch := now\<rparr> # rest'"
      using Cons.prems by (auto simp: Let_def split: prod.splits)
    have "incomingBandwidthThrottleEpoch p \<noteq> now" using True by (simp add: is_satisfied_def)
    then show ?thesis
      using Cons.IH [OF r] unfolding pl' by (auto simp: unsatisfied_def)
  next
    case False
    then obtain rest' where r: "share_round now limit rest (r, b, n) = (rest', r', b', n')"
        and pl': "pl' = p # rest'"
      using Cons.prems by (auto simp: Let_def split: prod.splits)
    show ?thesis using Cons.IH [OF r] unfolding pl' by (auto simp: unsatisfied_def)
  qed
qed

function share_loop :: "u32 \<Rightarrow> u32 \<Rightarrow> ENetPeer list \<Rightarrow> u32 \<Rightarrow> u32 \<Rightarrow> bool \<Rightarrow> u32 \<times> ENetPeer list" where
  "share_loop now limit pl remaining bandwidth needs =
    (if remaining > 0 \<and> needs then
       (let limit1 = bandwidth div remaining;
            (pl1, r1, b1, n1) = share_round now limit1 pl (remaining, bandwidth, False)
        in if n1 then share_loop now limit1 pl1 r1 b1 n1 else (limit1, pl1))
     else (limit, pl))"
  by pat_completeness auto
termination
proof (relation "measure (\<lambda>(now, limit, pl, r, b, n). unsatisfied now pl)", goal_cases)
  case 1
  then show ?case by simp
next
  case (2 now limit pl r b n limit1 x pl1 y r1 z b1 n1)
  then have r: "share_round now (b div r) pl (r, b, False) = (pl1, r1, b1, n1)" by simp
  from share_round_unsatisfied [OF r] 2 show ?case by (simp add: r)
qed

declare share_loop.simps [simp del]

definition bandwidth_command :: "ENetHost \<Rightarrow> u32 \<Rightarrow> u32 \<Rightarrow> ENetPeer \<Rightarrow> ENetProtocol" where
  "bandwidth_command h now limit p =
     local_command (ENET_PROTOCOL_COMMAND_BANDWIDTH_LIMIT OR ENET_PROTOCOL_COMMAND_FLAG_ACKNOWLEDGE) 0xFF
       (BandwidthLimit \<lparr>bwl_incomingBandwidth =
            ENET_HOST_TO_NET_32 (if incomingBandwidthThrottleEpoch p = now then peer_outgoingBandwidth p else limit),
          bwl_outgoingBandwidth = ENET_HOST_TO_NET_32 (host_outgoingBandwidth h)\<rparr>)"

fun announce_limits :: "ENetHost \<Rightarrow> u32 \<Rightarrow> u32 \<Rightarrow> ENetPeer list \<Rightarrow> packet_store \<Rightarrow> (ENetPeer list \<times> packet_store) option" where
  "announce_limits h now limit [] ps = Some ([], ps)"
| "announce_limits h now limit (p # rest) ps =
    (if \<not> is_active p
     then do {
       (rest1, ps1) \<leftarrow> announce_limits h now limit rest ps;
       Some (p # rest1, ps1) }
     else do {
       (_, p1, ps1) \<leftarrow> enet_peer_queue_outgoing_command (bandwidth_command h now limit p) None 0 0 p ps;
       (rest1, ps2) \<leftarrow> announce_limits h now limit rest ps1;
       Some (p1 # rest1, ps2) })"

definition recalculate_limits :: "ENetHost \<Rightarrow> u32 \<Rightarrow> u32 \<Rightarrow> ENetPeer list \<Rightarrow> packet_store \<Rightarrow>
    (ENetPeer list \<times> packet_store) option" where
  "recalculate_limits h now peersTotal pl ps =
    (let (limit, pl1) = (if host_incomingBandwidth h = 0 then (0, pl)
           else share_loop now 0 pl peersTotal (host_incomingBandwidth h) True)
     in announce_limits h now limit pl1 ps)"

definition available_bandwidth :: "ENetHost \<Rightarrow> u32 \<Rightarrow> u32" where
  "available_bandwidth h elapsed =
     (if host_outgoingBandwidth h = 0 then NOT 0 else (host_outgoingBandwidth h * elapsed) div 1000)"

text \<open>The function after the clock has been read.\<close>

definition bandwidth_throttle_at :: "u32 \<Rightarrow> ENetHost \<Rightarrow> packet_store \<Rightarrow> (ENetHost \<times> packet_store) option" where
  "bandwidth_throttle_at now h ps =
    (let elapsed = now - bandwidthThrottleEpoch h;
         (peersTotal, dataTotal) = count_active (peers h)
     in if elapsed < ENET_HOST_BANDWIDTH_THROTTLE_INTERVAL \<or> peersTotal = 0 then Some (h, ps)
        else do {
          (throttle, pl1, s) \<leftarrow> throttle_loop now elapsed 0 (peers h)
            \<lparr>ts_peersRemaining = peersTotal, ts_bandwidth = available_bandwidth h elapsed,
             ts_dataTotal = dataTotal, ts_needsAdjustment = True\<rparr>;
          let pl2 = (if ts_peersRemaining s > 0 then map (apply_common now throttle) pl1 else pl1);
          (pl3, ps1) \<leftarrow> (if recalculateBandwidthLimits h then recalculate_limits h now peersTotal pl2 ps
                        else Some (pl2, ps));
          Some (h\<lparr>recalculateBandwidthLimits := False, bandwidthThrottleEpoch := now,
             peers := map (\<lambda>p. p\<lparr>incomingDataTotal := 0, outgoingDataTotal := 0\<rparr>) pl3\<rparr>, ps1) })"

definition enet_host_bandwidth_throttle :: "world \<Rightarrow> world option" where
  "enet_host_bandwidth_throttle w = do {
     let (now, w1) = enet_time_get w;
     (h, ps) \<leftarrow> bandwidth_throttle_at now (host w1) (packets w1);
     Some (w1\<lparr>host := h, packets := ps\<rparr>) }"

end
