(* ===== verification/ProtoIn.thy ===== *)
theory ProtoIn
  imports Host
begin

text \<open>
  The receiving half of \<open>dll_src/reliableudp/src/protocol.c\<close>: dispatching queued events, the
  handler of every protocol command, the loop over the commands of a datagram and the loop that
  receives datagrams. An \<open>ENetEvent *\<close> argument is an \<open>ENetEvent option\<close> (\<open>None\<close> for \<open>NULL\<close>), handed
  back as the function leaves it. A handler's \<open>int\<close> result is kept; the handlers that advance
  \<open>currentData\<close> return the number of bytes they add to it.
\<close>

subsection \<open>Dispatching\<close>

definition update_host :: "(ENetHost \<Rightarrow> ENetHost) \<Rightarrow> world \<Rightarrow> world" where
  "update_host f w = w\<lparr>host := f (host w)\<rparr>"

definition reset_peer :: "nat \<Rightarrow> world \<Rightarrow> world option" where
  "reset_peer i w = map_option snd (on_peer i (enet_peer_reset (host_mtu (host w))) w)"

text \<open>The loop over the channels of a connected peer: whether an event was found.\<close>

fun dispatch_channels :: "nat \<Rightarrow> nat list \<Rightarrow> ENetEvent \<Rightarrow> world \<Rightarrow> (bool \<times> ENetEvent \<times> world) option" where
  "dispatch_channels i [] ev w = Some (False, ev, w)"
| "dispatch_channels i (c # cs) ev w = do {
     p \<leftarrow> get_peer w i;
     ch \<leftarrow> get_channel p (of_nat c);
     if incomingReliableCommands ch = [] \<and> incomingUnreliableCommands ch = []
     then dispatch_channels i cs ev w
     else do {
       (packet, w1) \<leftarrow> on_peer i (enet_peer_receive (of_nat c)) w;
       let ev1 = ev\<lparr>event_packet := packet\<rparr>;
       if packet = None then dispatch_channels i cs ev1 w1
       else Some (True, ev1\<lparr>event_type := ENET_EVENT_TYPE_RECEIVE, event_peer := Some i,
                            event_channelID := of_nat c\<rparr>, w1) } }"

text \<open>
  The \<open>do\<close> loop: it ends when it comes round to \<open>lastServicedPeer\<close>, and never if that is no peer.
\<close>

partial_function (option) dispatch_loop :: "nat \<Rightarrow> ENetEvent \<Rightarrow> world \<Rightarrow> (int \<times> ENetEvent \<times> world) option" where
  "dispatch_loop currentPeer ev w = do {
     let c = (if Suc currentPeer \<ge> peerCount (host w) then 0 else Suc currentPeer);
     p \<leftarrow> get_peer w c;
     if peer_state p = ENET_PEER_STATE_CONNECTION_PENDING \<or> peer_state p = ENET_PEER_STATE_CONNECTION_SUCCEEDED
     then Some (1, ev\<lparr>event_type := ENET_EVENT_TYPE_CONNECT, event_peer := Some c\<rparr>,
                put_peer c (p\<lparr>peer_state := ENET_PEER_STATE_CONNECTED\<rparr>) w)
     else if peer_state p = ENET_PEER_STATE_ZOMBIE
     then do {
       w1 \<leftarrow> reset_peer c (update_host (\<lambda>h. h\<lparr>recalculateBandwidthLimits := True\<rparr>) w);
       Some (1, ev\<lparr>event_type := ENET_EVENT_TYPE_DISCONNECT, event_peer := Some c,
                   event_data := disconnectData p\<rparr>,
             update_host (\<lambda>h. h\<lparr>lastServicedPeer := c\<rparr>) w1) }
     else do {
       (found, ev1, w1) \<leftarrow> (if peer_state p = ENET_PEER_STATE_CONNECTED
          then dispatch_channels c [0..<unat (channelCount p)] ev w else Some (False, ev, w));
       if found then Some (1, ev1, update_host (\<lambda>h. h\<lparr>lastServicedPeer := c\<rparr>) w1)
       else if c \<noteq> lastServicedPeer (host w1) then dispatch_loop c ev1 w1
       else Some (0, ev1, w1) } }"

declare dispatch_loop.simps [code]

definition enet_protocol_dispatch_incoming_commands ::
  "ENetEvent \<Rightarrow> world \<Rightarrow> (int \<times> ENetEvent \<times> world) option" where
  "enet_protocol_dispatch_incoming_commands ev w = dispatch_loop (lastServicedPeer (host w)) ev w"

subsection \<open>Notifications\<close>

definition enet_protocol_notify_connect ::
  "nat \<Rightarrow> ENetEvent option \<Rightarrow> world \<Rightarrow> (ENetEvent option \<times> world) option" where
  "enet_protocol_notify_connect i event w = do {
     p \<leftarrow> get_peer w i;
     let w1 = update_host (\<lambda>h. h\<lparr>recalculateBandwidthLimits := True\<rparr>) w;
     Some (case event of
       None \<Rightarrow> (None, put_peer i (p\<lparr>peer_state :=
           (if peer_state p = ENET_PEER_STATE_CONNECTING then ENET_PEER_STATE_CONNECTION_SUCCEEDED
            else ENET_PEER_STATE_CONNECTION_PENDING)\<rparr>) w1)
     | Some ev \<Rightarrow> (Some (ev\<lparr>event_type := ENET_EVENT_TYPE_CONNECT, event_peer := Some i\<rparr>),
           put_peer i (p\<lparr>peer_state := ENET_PEER_STATE_CONNECTED\<rparr>) w1)) }"

definition enet_protocol_notify_disconnect ::
  "nat \<Rightarrow> ENetEvent option \<Rightarrow> world \<Rightarrow> (ENetEvent option \<times> world) option" where
  "enet_protocol_notify_disconnect i event w = do {
     p \<leftarrow> get_peer w i;
     let w1 = (if peer_state p \<ge> ENET_PEER_STATE_CONNECTION_PENDING
               then update_host (\<lambda>h. h\<lparr>recalculateBandwidthLimits := True\<rparr>) w else w);
     if peer_state p \<noteq> ENET_PEER_STATE_CONNECTING \<and> peer_state p < ENET_PEER_STATE_CONNECTION_SUCCEEDED
     then do { w2 \<leftarrow> reset_peer i w1; Some (event, w2) }
     else (case event of
         None \<Rightarrow> Some (None, put_peer i (p\<lparr>peer_state := ENET_PEER_STATE_ZOMBIE\<rparr>) w1)
       | Some ev \<Rightarrow> do {
           w2 \<leftarrow> reset_peer i w1;
           Some (Some (ev\<lparr>event_type := ENET_EVENT_TYPE_DISCONNECT, event_peer := Some i, event_data := 0\<rparr>), w2) }) }"

subsection \<open>Commands that have been sent\<close>

definition enet_protocol_remove_sent_unreliable_commands :: "unit peer_op" where
  "enet_protocol_remove_sent_unreliable_commands peer ps = do {
     ps1 \<leftarrow> enet_peer_reset_outgoing_commands (sentUnreliableCommands peer) ps;
     Some ((), peer\<lparr>sentUnreliableCommands := []\<rparr>, ps1) }"

text \<open>The position of the command with the given sequence number and channel.\<close>

fun find_sent :: "u16 \<Rightarrow> u8 \<Rightarrow> ENetOutgoingCommand list \<Rightarrow> nat option" where
  "find_sent n channel [] = None"
| "find_sent n channel (oc # rest) =
     (if oc_reliableSequenceNumber oc = n \<and> channelID_of (oc_command oc) = channel then Some 0
      else map_option Suc (find_sent n channel rest))"

definition remove_at :: "nat \<Rightarrow> 'a list \<Rightarrow> 'a list" where
  "remove_at k xs = take k xs @ drop (Suc k) xs"

definition enet_protocol_remove_sent_reliable_command :: "u16 \<Rightarrow> u8 \<Rightarrow> u8 peer_op" where
  "enet_protocol_remove_sent_reliable_command n channel peer ps =
    (case find_sent n channel (sentReliableCommands peer) of
       None \<Rightarrow> Some (ENET_PROTOCOL_COMMAND_NONE, peer, ps)
     | Some k \<Rightarrow> do {
         let oc = sentReliableCommands peer ! k;
         let commandNumber = command_of (oc_command oc) AND ENET_PROTOCOL_COMMAND_MASK;
         let queue = remove_at k (sentReliableCommands peer);
         let peer1 = peer\<lparr>sentReliableCommands := queue,
           reliableDataInTransit := (if oc_packet oc = None then reliableDataInTransit peer
              else reliableDataInTransit peer - ucast (oc_fragmentLength oc))\<rparr>;
         ps1 \<leftarrow> release_option (oc_packet oc) ps;
         Some (commandNumber,
           (case queue of [] \<Rightarrow> peer1
            | first # _ \<Rightarrow> peer1\<lparr>nextTimeout := oc_sentTime first + oc_roundTripTimeout first\<rparr>), ps1) })"

subsection \<open>Connection requests\<close>

definition clamp_mtu :: "u16 \<Rightarrow> u16" where
  "clamp_mtu n =
     (if n < ENET_PROTOCOL_MINIMUM_MTU then ENET_PROTOCOL_MINIMUM_MTU
      else if n > ENET_PROTOCOL_MAXIMUM_MTU then ENET_PROTOCOL_MAXIMUM_MTU else n)"

definition update_received :: "(bytes \<Rightarrow> bytes) \<Rightarrow> world \<Rightarrow> world" where
  "update_received f = update_host (\<lambda>h. h\<lparr>receivedData := f (receivedData h)\<rparr>)"

text \<open>\<open>enet_crc32\<close> over the received datagram, as it is in the buffer now.\<close>

definition received_crc :: "world \<Rightarrow> u32" where
  "received_crc w = enet_crc32 [take (unat (receivedDataLength (host w))) (receivedData (host w))]"

definition received_header :: "world \<Rightarrow> ENetProtocolHeader" where
  "received_header w = load_header (receivedData (host w))"

text \<open>
  The check of a connection request: the checksum was computed with the session number in the place
  of the checksum and the sequence number in network order. \<open>at\<close> is the offset of the command.
\<close>

definition connect_crc_ok :: "nat \<Rightarrow> ENetProtocol \<Rightarrow> u32 \<Rightarrow> world \<Rightarrow> bool \<times> world" where
  "connect_crc_ok at command session w =
    (if ph_flags (received_header w) AND ENET_PROTOCOL_HEADER_FLAG_CRC \<noteq> 0 then
       (let crc = ph_checksum (received_header w);
            w1 = update_received (store_sequence at (ENET_HOST_TO_NET_16 (sequence_of command))) w;
            w2 = update_received (store_checksum session) w1
        in if received_crc w2 \<noteq> crc then (False, w2)
           else (True, update_received (store_sequence at (sequence_of command)) w2))
     else (True, w))"

definition is_same_connection :: "ENetAddress \<Rightarrow> u32 \<Rightarrow> ENetPeer \<Rightarrow> bool" where
  "is_same_connection address session p \<longleftrightarrow>
     peer_state p \<noteq> ENET_PEER_STATE_DISCONNECTED \<and>
     addr_host (peer_address p) = addr_host address \<and> addr_port (peer_address p) = addr_port address \<and>
     sessionID p = session"

definition shared_window :: "u32 \<Rightarrow> u32 \<Rightarrow> u32" where
  "shared_window outgoing incoming =
     (if outgoing = 0 \<and> incoming = 0 then ENET_PROTOCOL_MAXIMUM_WINDOW_SIZE
      else if outgoing = 0 \<or> incoming = 0 then bandwidth_window (ENET_MAX outgoing incoming)
      else bandwidth_window (ENET_MIN outgoing incoming))"

definition accepted_peer :: "ENetHost \<Rightarrow> ENetProtocolConnect \<Rightarrow> ENetPeer \<Rightarrow> ENetPeer" where
  "accepted_peer h c peer = peer\<lparr>
     peer_state := ENET_PEER_STATE_ACKNOWLEDGING_CONNECT,
     sessionID := con_sessionID c,
     peer_address := receivedAddress h,
     outgoingPeerID := ENET_NET_TO_HOST_16 (con_outgoingPeerID c),
     peer_incomingBandwidth := ENET_NET_TO_HOST_32 (con_incomingBandwidth c),
     peer_outgoingBandwidth := ENET_NET_TO_HOST_32 (con_outgoingBandwidth c),
     packetThrottleInterval := ENET_NET_TO_HOST_32 (con_packetThrottleInterval c),
     packetThrottleAcceleration := ENET_NET_TO_HOST_32 (con_packetThrottleAcceleration c),
     packetThrottleDeceleration := ENET_NET_TO_HOST_32 (con_packetThrottleDeceleration c),
     channels := replicate (unat (ENET_NET_TO_HOST_32 (con_channelCount c))) fresh_channel,
     channelCount := ucast (ENET_NET_TO_HOST_32 (con_channelCount c)),
     peer_mtu := clamp_mtu (ENET_NET_TO_HOST_16 (con_mtu c)),
     windowSize := clamp_windowSize
       (shared_window (host_outgoingBandwidth h) (ENET_NET_TO_HOST_32 (con_incomingBandwidth c)))\<rparr>"

text \<open>The window this host grants to the other side.\<close>

definition granted_window :: "ENetHost \<Rightarrow> ENetProtocolConnect \<Rightarrow> u32" where
  "granted_window h c =
    (let n = (if host_incomingBandwidth h = 0 then ENET_PROTOCOL_MAXIMUM_WINDOW_SIZE
              else bandwidth_window (host_incomingBandwidth h))
     in clamp_windowSize (if n > ENET_NET_TO_HOST_32 (con_windowSize c)
                          then ENET_NET_TO_HOST_32 (con_windowSize c) else n))"

definition verify_command :: "ENetHost \<Rightarrow> ENetProtocolConnect \<Rightarrow> ENetPeer \<Rightarrow> ENetProtocol" where
  "verify_command h c peer =
     local_command (ENET_PROTOCOL_COMMAND_VERIFY_CONNECT OR ENET_PROTOCOL_COMMAND_FLAG_ACKNOWLEDGE) 0xFF
       (VerifyConnect \<lparr>ver_outgoingPeerID = ENET_HOST_TO_NET_16 (incomingPeerID peer),
          ver_mtu = ENET_HOST_TO_NET_16 (peer_mtu peer),
          ver_windowSize = ENET_HOST_TO_NET_32 (granted_window h c),
          ver_channelCount = ENET_HOST_TO_NET_32 (ucast (channelCount peer)),
          ver_incomingBandwidth = ENET_HOST_TO_NET_32 (host_incomingBandwidth h),
          ver_outgoingBandwidth = ENET_HOST_TO_NET_32 (host_outgoingBandwidth h),
          ver_packetThrottleInterval = ENET_HOST_TO_NET_32 (packetThrottleInterval peer),
          ver_packetThrottleAcceleration = ENET_HOST_TO_NET_32 (packetThrottleAcceleration peer),
          ver_packetThrottleDeceleration = ENET_HOST_TO_NET_32 (packetThrottleDeceleration peer)\<rparr>)"

definition enet_protocol_handle_connect ::
  "nat \<Rightarrow> ENetProtocol \<Rightarrow> ENetProtocolConnect \<Rightarrow> world \<Rightarrow> (nat option \<times> world) option" where
  "enet_protocol_handle_connect at command c w =
    (let (ok, w1) = connect_crc_ok at command (con_sessionID c) w;
         n = ENET_NET_TO_HOST_32 (con_channelCount c)
     in if \<not> ok then Some (None, w1)
        else if n < ENET_PROTOCOL_MINIMUM_CHANNEL_COUNT \<or> n > ENET_PROTOCOL_MAXIMUM_CHANNEL_COUNT
        then Some (None, w1)
        else if list_ex (is_same_connection (receivedAddress (host w1)) (con_sessionID c)) (peers (host w1))
        then Some (None, w1)
        else (case free_slot (peers (host w1)) of
            None \<Rightarrow> Some (None, w1)
          | Some i \<Rightarrow> do {
              (_, w2) \<leftarrow> on_peer i (\<lambda>p ps. do {
                  let p1 = accepted_peer (host w1) c p;
                  enet_peer_queue_outgoing_command (verify_command (host w1) c p1) None 0 0 p1 ps }) w1;
              Some (Some i, w2) }))"

subsection \<open>Data commands\<close>

text \<open>The guards the four handlers share: the channel exists and the peer is connected.\<close>

definition may_receive :: "ENetPeer \<Rightarrow> ENetProtocol \<Rightarrow> bool" where
  "may_receive p command \<longleftrightarrow>
     ucast (channelID_of command) < channelCount p \<and>
     (peer_state p = ENET_PEER_STATE_CONNECTED \<or> peer_state p = ENET_PEER_STATE_DISCONNECT_LATER)"

text \<open>
  \<open>payload_fits start len\<close>: the data ends within the datagram. \<open>payload\<close> is the memory from the end
  of the command on.
\<close>

definition payload_fits :: "nat \<Rightarrow> nat \<Rightarrow> world \<Rightarrow> bool" where
  "payload_fits start len w \<longleftrightarrow> start + len \<le> unat (receivedDataLength (host w))"

definition payload :: "nat \<Rightarrow> world \<Rightarrow> bytes" where
  "payload start w = drop start (receivedData (host w))"

text \<open>Creating the packet and queueing it, the tail of three handlers. Packet creation cannot fail.\<close>

definition receive_packet :: "nat \<Rightarrow> ENetProtocol \<Rightarrow> bytes \<Rightarrow> u16 \<Rightarrow> u32 \<Rightarrow> world \<Rightarrow> world option" where
  "receive_packet i command dat len flags w = do {
     (packet, ps) \<leftarrow> enet_packet_create (Some dat) (ucast len) flags (packets w);
     (_, w1) \<leftarrow> on_peer i (enet_peer_queue_incoming_command command (Some packet) 0) (w\<lparr>packets := ps\<rparr>);
     Some w1 }"

definition enet_protocol_handle_send_reliable ::
  "nat \<Rightarrow> ENetProtocol \<Rightarrow> ENetProtocolSendReliable \<Rightarrow> nat \<Rightarrow> world \<Rightarrow> (int \<times> nat \<times> world) option" where
  "enet_protocol_handle_send_reliable i command b currentData w = do {
     p \<leftarrow> get_peer w i;
     if \<not> may_receive p command then Some (-1, 0, w)
     else do {
       let len = ENET_NET_TO_HOST_16 (srl_dataLength b);
       if \<not> payload_fits currentData (unat len) w then Some (-1, unat len, w)
       else do {
         w1 \<leftarrow> receive_packet i command (payload currentData w) len ENET_PACKET_FLAG_RELIABLE w;
         Some (0, unat len, w1) } } }"

definition enet_protocol_handle_send_unreliable ::
  "nat \<Rightarrow> ENetProtocol \<Rightarrow> ENetProtocolSendUnreliable \<Rightarrow> nat \<Rightarrow> world \<Rightarrow> (int \<times> nat \<times> world) option" where
  "enet_protocol_handle_send_unreliable i command b currentData w = do {
     p \<leftarrow> get_peer w i;
     if \<not> may_receive p command then Some (-1, 0, w)
     else do {
       let len = ENET_NET_TO_HOST_16 (sul_dataLength b);
       if \<not> payload_fits currentData (unat len) w then Some (-1, unat len, w)
       else do {
         w1 \<leftarrow> receive_packet i command (payload currentData w) len 0 w;
         Some (0, unat len, w1) } } }"

text \<open>
  The window of unsequenced groups: bit \<open>g mod 128\<close> of the window says that group \<open>g\<close> has arrived.
  The result is the peer after the group has been recorded, or \<open>None\<close> if it is to be ignored.
\<close>

definition accept_unsequenced :: "u16 \<Rightarrow> ENetPeer \<Rightarrow> ENetPeer option" where
  "accept_unsequenced group16 p =
    (let group = (ucast group16 :: u32);
         index = group mod ENET_PEER_UNSEQUENCED_WINDOW_SIZE;
         current = (ucast (incomingUnsequencedGroup p) :: u32);
         word = unat (index div 32);
         mask = push_bit (unat (index mod 32)) 1
     in if group \<ge> current + ENET_PEER_UNSEQUENCED_WINDOW_SIZE \<or> (current \<ge> 0xF000 \<and> group < 0x1000)
        then Some (p\<lparr>incomingUnsequencedGroup := ucast (group - index),
                     unsequencedWindow := (replicate 4 0)[word := mask]\<rparr>)
        else if group < current \<or> unsequencedWindow p ! word AND mask \<noteq> 0 then None
        else Some (p\<lparr>unsequencedWindow :=
               (unsequencedWindow p)[word := unsequencedWindow p ! word OR mask]\<rparr>))"

definition enet_protocol_handle_send_unsequenced ::
  "nat \<Rightarrow> ENetProtocol \<Rightarrow> ENetProtocolSendUnsequenced \<Rightarrow> nat \<Rightarrow> world \<Rightarrow> (int \<times> nat \<times> world) option" where
  "enet_protocol_handle_send_unsequenced i command b currentData w = do {
     p \<leftarrow> get_peer w i;
     if \<not> may_receive p command then Some (-1, 0, w)
     else do {
       let len = ENET_NET_TO_HOST_16 (suq_dataLength b);
       if \<not> payload_fits currentData (unat len) w then Some (-1, unat len, w)
       else (case accept_unsequenced (ENET_NET_TO_HOST_16 (suq_unsequencedGroup b)) p of
           None \<Rightarrow> Some (0, unat len, w)
         | Some p1 \<Rightarrow> do {
             w1 \<leftarrow> receive_packet i command (payload currentData w) len ENET_PACKET_FLAG_UNSEQUENCED
                    (put_peer i p1 w);
             Some (0, unat len, w1) }) } }"

text \<open>The backward search for the command that collects the fragments, on the reversed queue.\<close>

fun find_fragment_start :: "u32 \<Rightarrow> ENetIncomingCommand list \<Rightarrow> nat option" where
  "find_fragment_start n [] = None"
| "find_fragment_start n (ic # earlier) =
    (case prt_body (ic_command ic) of
       SendFragment f \<Rightarrow>
         (if command_of (ic_command ic) AND ENET_PROTOCOL_COMMAND_MASK = ENET_PROTOCOL_COMMAND_SEND_FRAGMENT \<and>
             ucast (frg_startSequenceNumber f) = n AND 0xFFFF
          then Some (length earlier) else find_fragment_start n earlier)
     | _ \<Rightarrow> find_fragment_start n earlier)"

text \<open>
  Recording one fragment in the command at position \<open>k\<close> and copying its data. \<open>None\<close> is an access
  outside the fragment bits or outside the packet's memory.
\<close>

definition store_fragment ::
  "u8 \<Rightarrow> nat \<Rightarrow> u32 \<Rightarrow> u32 \<Rightarrow> u32 \<Rightarrow> bytes \<Rightarrow> unit peer_op" where
  "store_fragment channel k fragmentNumber fragmentOffset fragmentLength dat peer ps = do {
     ch \<leftarrow> get_channel peer channel;
     let ic = incomingReliableCommands ch ! k;
     fragments \<leftarrow> ic_fragments ic;
     let word = unat (fragmentNumber div 32);
     let mask = push_bit (unat (fragmentNumber mod 32)) 1;
     if word \<ge> length fragments then None
     else if fragments ! word AND mask \<noteq> 0 then Some ((), peer, ps)
     else do {
       packet \<leftarrow> ic_packet ic;
       pk \<leftarrow> pheap ps packet;
       let ic1 = ic\<lparr>ic_fragmentsRemaining := ic_fragmentsRemaining ic - 1,
                    ic_fragments := Some (fragments[word := fragments ! word OR mask])\<rparr>;
       let len = (if (ucast (fragmentOffset + fragmentLength) :: usize) > pkt_dataLength pk
                  then ucast (pkt_dataLength pk - ucast fragmentOffset) else fragmentLength);
       d \<leftarrow> memcpy (pkt_data pk) (unat fragmentOffset) dat (unat len);
       Some ((), put_channel channel
           (ch\<lparr>incomingReliableCommands := (incomingReliableCommands ch)[k := ic1]\<rparr>) peer,
         ps\<lparr>pheap := (pheap ps)(packet \<mapsto> pk\<lparr>pkt_data := d\<rparr>)\<rparr>) } }"

text \<open>The command that starts collecting: all its numbers are in host order.\<close>

definition collecting_command :: "ENetProtocol \<Rightarrow> u32 \<Rightarrow> u32 \<Rightarrow> u32 \<Rightarrow> u32 \<Rightarrow> u32 \<Rightarrow> u32 \<Rightarrow> ENetProtocol" where
  "collecting_command command start len number total_count offset total_length =
     command\<lparr>prt_header := (prt_header command)\<lparr>hdr_reliableSequenceNumber := ucast start\<rparr>,
       prt_body := SendFragment \<lparr>frg_startSequenceNumber = ucast start, frg_dataLength = ucast len,
         frg_fragmentCount = total_count, frg_fragmentNumber = number, frg_totalLength = total_length,
         frg_fragmentOffset = offset\<rparr>\<rparr>"

text \<open>
  Following the pointer \<open>startCommand\<close> when \<open>enet_peer_queue_incoming_command\<close> has returned \<open>NULL\<close>
  is \<open>None\<close>.
\<close>

definition enet_protocol_handle_send_fragment ::
  "nat \<Rightarrow> ENetProtocol \<Rightarrow> ENetProtocolSendFragment \<Rightarrow> nat \<Rightarrow> world \<Rightarrow> (int \<times> nat \<times> world) option" where
  "enet_protocol_handle_send_fragment i command b currentData w = do {
     p \<leftarrow> get_peer w i;
     if \<not> may_receive p command then Some (-1, 0, w)
     else do {
       let len16 = ENET_NET_TO_HOST_16 (frg_dataLength b);
       let extra = unat len16;
       let len = (ucast len16 :: u32);
       if \<not> payload_fits currentData extra w then Some (-1, extra, w)
       else do {
         ch \<leftarrow> get_channel p (channelID_of command);
         let start = widen_sequence (ch_incomingReliableSequenceNumber ch)
               (ENET_NET_TO_HOST_16 (frg_startSequenceNumber b));
         let number = ENET_NET_TO_HOST_32 (frg_fragmentNumber b);
         let total_count = ENET_NET_TO_HOST_32 (frg_fragmentCount b);
         let offset = ENET_NET_TO_HOST_32 (frg_fragmentOffset b);
         let total_length = ENET_NET_TO_HOST_32 (frg_totalLength b);
         if sequence_is_old (ch_incomingReliableSequenceNumber ch) start then Some (0, extra, w)
         else if offset \<ge> total_length \<or> offset + len > total_length \<or> number \<ge> total_count then Some (-1, extra, w)
         else (case find_fragment_start start (rev (incomingReliableCommands ch)) of
             None \<Rightarrow> do {
               (packet, ps1) \<leftarrow> enet_packet_create None (ucast total_length) ENET_PACKET_FLAG_RELIABLE (packets w);
               (place, w1) \<leftarrow> on_peer i (enet_peer_queue_incoming_command
                   (collecting_command command start len number total_count offset total_length)
                   (Some packet) total_count) (w\<lparr>packets := ps1\<rparr>);
               k \<leftarrow> place;
               (_, w2) \<leftarrow> on_peer i (store_fragment (channelID_of command) k number offset len
                   (payload currentData w1)) w1;
               Some (0, extra, w2) }
           | Some k \<Rightarrow> do {
               let ic = incomingReliableCommands ch ! k;
               packet \<leftarrow> ic_packet ic;
               pk \<leftarrow> pheap (packets w) packet;
               if ucast total_length \<noteq> pkt_dataLength pk \<or> total_count \<noteq> ic_fragmentCount ic then Some (-1, extra, w)
               else do {
                 (_, w2) \<leftarrow> on_peer i (store_fragment (channelID_of command) k number offset len
                     (payload currentData w)) w;
                 Some (0, extra, w2) } }) } } }"

subsection \<open>Control commands\<close>

definition enet_protocol_handle_ping :: "int" where
  "enet_protocol_handle_ping = 0"

definition enet_protocol_handle_bandwidth_limit ::
  "nat \<Rightarrow> ENetProtocolBandwidthLimit \<Rightarrow> world \<Rightarrow> (int \<times> world) option" where
  "enet_protocol_handle_bandwidth_limit i b w = do {
     p \<leftarrow> get_peer w i;
     let incoming = ENET_NET_TO_HOST_32 (bwl_incomingBandwidth b);
     let outgoing = host_outgoingBandwidth (host w);
     Some (0, put_peer i (p\<lparr>peer_incomingBandwidth := incoming,
       peer_outgoingBandwidth := ENET_NET_TO_HOST_32 (bwl_outgoingBandwidth b),
       windowSize := clamp_windowSize (if incoming = 0 \<and> outgoing = 0 then ENET_PROTOCOL_MAXIMUM_WINDOW_SIZE
          else bandwidth_window (ENET_MIN incoming outgoing))\<rparr>) w) }"

definition enet_protocol_handle_throttle_configure ::
  "nat \<Rightarrow> ENetProtocolThrottleConfigure \<Rightarrow> world \<Rightarrow> (int \<times> world) option" where
  "enet_protocol_handle_throttle_configure i b w = do {
     p \<leftarrow> get_peer w i;
     Some (0, put_peer i (p\<lparr>packetThrottleInterval := ENET_NET_TO_HOST_32 (thr_packetThrottleInterval b),
       packetThrottleAcceleration := ENET_NET_TO_HOST_32 (thr_packetThrottleAcceleration b),
       packetThrottleDeceleration := ENET_NET_TO_HOST_32 (thr_packetThrottleDeceleration b)\<rparr>) w) }"

definition enet_protocol_handle_disconnect ::
  "nat \<Rightarrow> ENetProtocol \<Rightarrow> ENetProtocolDisconnect \<Rightarrow> world \<Rightarrow> (int \<times> world) option" where
  "enet_protocol_handle_disconnect i command b w = do {
     (_, w1) \<leftarrow> on_peer i enet_peer_reset_queues w;
     p \<leftarrow> get_peer w1 i;
     w2 \<leftarrow> (if peer_state p = ENET_PEER_STATE_CONNECTION_SUCCEEDED
            then Some (put_peer i (p\<lparr>peer_state := ENET_PEER_STATE_ZOMBIE\<rparr>) w1)
            else if peer_state p \<noteq> ENET_PEER_STATE_CONNECTED \<and> peer_state p \<noteq> ENET_PEER_STATE_DISCONNECT_LATER
            then reset_peer i (if peer_state p = ENET_PEER_STATE_CONNECTION_PENDING
                   then update_host (\<lambda>h. h\<lparr>recalculateBandwidthLimits := True\<rparr>) w1 else w1)
            else if command_of command AND ENET_PROTOCOL_COMMAND_FLAG_ACKNOWLEDGE \<noteq> 0
            then Some (put_peer i (p\<lparr>peer_state := ENET_PEER_STATE_ACKNOWLEDGING_DISCONNECT\<rparr>) w1)
            else Some (put_peer i (p\<lparr>peer_state := ENET_PEER_STATE_ZOMBIE\<rparr>) w1));
     q \<leftarrow> get_peer w2 i;
     Some (0, put_peer i (q\<lparr>disconnectData := ENET_NET_TO_HOST_32 (dis_data b)\<rparr>) w2) }"

subsection \<open>Acknowledgements\<close>

text \<open>The time a command was sent, from its low 16 bits and the present time.\<close>

definition full_sent_time :: "u32 \<Rightarrow> u16 \<Rightarrow> u32" where
  "full_sent_time now low =
    (let t = ucast low OR (now AND 0xFFFF0000)
     in if t AND 0x8000 > now AND 0x8000 then t - 0x10000 else t)"

definition update_round_trip :: "u32 \<Rightarrow> u32 \<Rightarrow> ENetPeer \<Rightarrow> ENetPeer" where
  "update_round_trip now rtt p =
    (let v0 = roundTripTimeVariance p - roundTripTimeVariance p div 4;
         (r, v) = (if rtt \<ge> roundTripTime p
            then (let r1 = roundTripTime p + (rtt - roundTripTime p) div 8 in (r1, v0 + (rtt - r1) div 4))
            else (let r1 = roundTripTime p - (roundTripTime p - rtt) div 8 in (r1, v0 + (r1 - rtt) div 4)));
         lowest = (if r < lowestRoundTripTime p then r else lowestRoundTripTime p);
         highest = (if v > highestRoundTripTimeVariance p then v else highestRoundTripTimeVariance p);
         p1 = p\<lparr>roundTripTime := r, roundTripTimeVariance := v, lowestRoundTripTime := lowest,
                 highestRoundTripTimeVariance := highest\<rparr>
     in if packetThrottleEpoch p = 0 \<or>
           ENET_TIME_DIFFERENCE now (packetThrottleEpoch p) \<ge> packetThrottleInterval p
        then p1\<lparr>lastRoundTripTime := lowest, lastRoundTripTimeVariance := highest,
                lowestRoundTripTime := r, highestRoundTripTimeVariance := v, packetThrottleEpoch := now\<rparr>
        else p1)"

text \<open>
  In the state \<open>DISCONNECT_LATER\<close>, the only one it is called in here, \<open>enet_peer_disconnect\<close> does not
  flush: the argument for the flush is one that would make the whole result \<open>None\<close>.
\<close>

definition disconnect_later_done :: "ENetPeer \<Rightarrow> bool" where
  "disconnect_later_done p \<longleftrightarrow>
     peer_state p = ENET_PEER_STATE_DISCONNECT_LATER \<and> outgoingReliableCommands p = [] \<and>
     outgoingUnreliableCommands p = [] \<and> sentReliableCommands p = []"

definition enet_protocol_handle_acknowledge ::
  "ENetEvent option \<Rightarrow> nat \<Rightarrow> ENetProtocol \<Rightarrow> ENetProtocolAcknowledge \<Rightarrow> world \<Rightarrow>
     (int \<times> ENetEvent option \<times> world) option" where
  "enet_protocol_handle_acknowledge event i command a w = do {
     let now = serviceTime (host w);
     let sent_at = full_sent_time now (ENET_NET_TO_HOST_16 (ack_receivedSentTime a));
     if ENET_TIME_LESS now sent_at then Some (0, event, w)
     else do {
       let rtt = ENET_TIME_DIFFERENCE now sent_at;
       (commandNumber, w1) \<leftarrow> on_peer i (\<lambda>p ps.
          (let p1 = snd (enet_peer_throttle (p\<lparr>lastReceiveTime := now, earliestTimeout := 0\<rparr>) rtt);
               p2 = update_round_trip now rtt p1
           in enet_protocol_remove_sent_reliable_command
                (ENET_NET_TO_HOST_16 (ack_receivedReliableSequenceNumber a)) (channelID_of command) p2 ps)) w;
       p \<leftarrow> get_peer w1 i;
       if peer_state p = ENET_PEER_STATE_ACKNOWLEDGING_CONNECT then
         (if commandNumber \<noteq> ENET_PROTOCOL_COMMAND_VERIFY_CONNECT then Some (-1, event, w1)
          else do { (event1, w2) \<leftarrow> enet_protocol_notify_connect i event w1; Some (0, event1, w2) })
       else if peer_state p = ENET_PEER_STATE_DISCONNECTING then
         (if commandNumber \<noteq> ENET_PROTOCOL_COMMAND_DISCONNECT then Some (-1, event, w1)
          else do { (event1, w2) \<leftarrow> enet_protocol_notify_disconnect i event w1; Some (0, event1, w2) })
       else if disconnect_later_done p then
         do { w2 \<leftarrow> enet_peer_disconnect (\<lambda>_. None) i (disconnectData p) w1; Some (0, event, w2) }
       else Some (0, event, w1) } }"

definition verify_matches :: "ENetProtocolVerifyConnect \<Rightarrow> ENetPeer \<Rightarrow> bool" where
  "verify_matches v p \<longleftrightarrow>
     ucast (ENET_NET_TO_HOST_32 (ver_channelCount v)) = channelCount p \<and>
     ENET_NET_TO_HOST_32 (ver_packetThrottleInterval v) = packetThrottleInterval p \<and>
     ENET_NET_TO_HOST_32 (ver_packetThrottleAcceleration v) = packetThrottleAcceleration p \<and>
     ENET_NET_TO_HOST_32 (ver_packetThrottleDeceleration v) = packetThrottleDeceleration p"

definition verified_peer :: "ENetProtocolVerifyConnect \<Rightarrow> ENetPeer \<Rightarrow> ENetPeer" where
  "verified_peer v p =
    (let mtu = clamp_mtu (ENET_NET_TO_HOST_16 (ver_mtu v));
         window = clamp_windowSize (ENET_NET_TO_HOST_32 (ver_windowSize v))
     in p\<lparr>outgoingPeerID := ENET_NET_TO_HOST_16 (ver_outgoingPeerID v),
          peer_mtu := (if mtu < peer_mtu p then mtu else peer_mtu p),
          windowSize := (if window < windowSize p then window else windowSize p),
          peer_incomingBandwidth := ENET_NET_TO_HOST_32 (ver_incomingBandwidth v),
          peer_outgoingBandwidth := ENET_NET_TO_HOST_32 (ver_outgoingBandwidth v)\<rparr>)"

definition enet_protocol_handle_verify_connect ::
  "ENetEvent option \<Rightarrow> nat \<Rightarrow> ENetProtocolVerifyConnect \<Rightarrow> world \<Rightarrow> (int \<times> ENetEvent option \<times> world) option" where
  "enet_protocol_handle_verify_connect event i v w = do {
     p \<leftarrow> get_peer w i;
     if peer_state p \<noteq> ENET_PEER_STATE_CONNECTING then Some (-1, event, w)
     else if \<not> verify_matches v p
     then Some (-1, event, put_peer i (p\<lparr>peer_state := ENET_PEER_STATE_ZOMBIE\<rparr>) w)
     else do {
       (_, w1) \<leftarrow> on_peer i (enet_protocol_remove_sent_reliable_command 1 0xFF) w;
       (_, w2) \<leftarrow> on_peer i (\<lambda>q ps. Some ((), verified_peer v q, ps)) w1;
       (event1, w3) \<leftarrow> enet_protocol_notify_connect i event w2;
       Some (0, event1, w3) } }"

subsection \<open>The commands of a datagram\<close>

text \<open>
  The switch over the command number. \<open>at\<close> is the offset of the command and \<open>currentData\<close> that of the
  byte behind it. The result has the bytes added to \<open>currentData\<close>, the peer (a connection request
  sets it) and the event. A null \<open>peer\<close> gets no further than a connection request.
\<close>

definition handle_command ::
  "nat option \<Rightarrow> nat \<Rightarrow> nat \<Rightarrow> ENetProtocol \<Rightarrow> ENetEvent option \<Rightarrow> world \<Rightarrow>
     (int \<times> nat \<times> nat option \<times> ENetEvent option \<times> world) option" where
  "handle_command peer at currentData command event w =
    (case prt_body command of
       Connect b \<Rightarrow> do {
         (peer1, w1) \<leftarrow> enet_protocol_handle_connect at command b w;
         Some (if peer1 = None then -1 else 0, 0, peer1, event, w1) }
     | HeaderOnly \<Rightarrow> Some (-1, 0, peer, event, w)
     | body \<Rightarrow>
        (case peer of
           None \<Rightarrow> None
         | Some i \<Rightarrow>
            (case body of
               Acknowledge b \<Rightarrow> do {
                 (r, event1, w1) \<leftarrow> enet_protocol_handle_acknowledge event i command b w;
                 Some (r, 0, peer, event1, w1) }
             | VerifyConnect b \<Rightarrow> do {
                 (r, event1, w1) \<leftarrow> enet_protocol_handle_verify_connect event i b w;
                 Some (r, 0, peer, event1, w1) }
             | Disconnect b \<Rightarrow> do {
                 (r, w1) \<leftarrow> enet_protocol_handle_disconnect i command b w;
                 Some (r, 0, peer, event, w1) }
             | SendReliable b \<Rightarrow> do {
                 (r, n, w1) \<leftarrow> enet_protocol_handle_send_reliable i command b currentData w;
                 Some (r, n, peer, event, w1) }
             | SendUnreliable b \<Rightarrow> do {
                 (r, n, w1) \<leftarrow> enet_protocol_handle_send_unreliable i command b currentData w;
                 Some (r, n, peer, event, w1) }
             | SendUnsequenced b \<Rightarrow> do {
                 (r, n, w1) \<leftarrow> enet_protocol_handle_send_unsequenced i command b currentData w;
                 Some (r, n, peer, event, w1) }
             | SendFragment b \<Rightarrow> do {
                 (r, n, w1) \<leftarrow> enet_protocol_handle_send_fragment i command b currentData w;
                 Some (r, n, peer, event, w1) }
             | BandwidthLimit b \<Rightarrow> do {
                 (r, w1) \<leftarrow> enet_protocol_handle_bandwidth_limit i b w;
                 Some (r, 0, peer, event, w1) }
             | ThrottleConfigure b \<Rightarrow> do {
                 (r, w1) \<leftarrow> enet_protocol_handle_throttle_configure i b w;
                 Some (r, 0, peer, event, w1) }
             | _ \<Rightarrow> Some (enet_protocol_handle_ping, 0, peer, event, w))))"

text \<open>
  Acknowledging a command that asks for it: whether the loop is left, because the datagram has no
  time to acknowledge.
\<close>

definition acknowledge_command ::
  "u8 \<Rightarrow> nat option \<Rightarrow> ENetProtocol \<Rightarrow> world \<Rightarrow> (bool \<times> world) option" where
  "acknowledge_command flags peer command w =
    (case peer of
       None \<Rightarrow> Some (False, w)
     | Some i \<Rightarrow>
        (if command_of command AND ENET_PROTOCOL_COMMAND_FLAG_ACKNOWLEDGE = 0 then Some (False, w)
         else if flags AND ENET_PROTOCOL_HEADER_FLAG_SENT_TIME = 0 then Some (True, w)
         else do {
           p \<leftarrow> get_peer w i;
           let sentTime = ENET_NET_TO_HOST_16 (ph_sentTime (received_header w));
           if peer_state p = ENET_PEER_STATE_DISCONNECTING \<or>
              peer_state p = ENET_PEER_STATE_ACKNOWLEDGING_CONNECT \<or>
              (peer_state p = ENET_PEER_STATE_ACKNOWLEDGING_DISCONNECT \<and>
               command_of command AND ENET_PROTOCOL_COMMAND_MASK \<noteq> ENET_PROTOCOL_COMMAND_DISCONNECT)
           then Some (False, w)
           else Some (False, put_peer i (enet_peer_queue_acknowledgement p command sentTime) w) }))"

text \<open>
  The \<open>while\<close> loop from offset \<open>currentData\<close> to \<open>len\<close>, the received length. Each round consumes at
  least the command.
\<close>

function command_loop ::
  "nat \<Rightarrow> u8 \<Rightarrow> nat option \<Rightarrow> nat \<Rightarrow> ENetEvent option \<Rightarrow> world \<Rightarrow> (ENetEvent option \<times> world) option" where
  "command_loop len flags peer currentData event w =
    (if currentData \<ge> len \<or> currentData + 4 > len then Some (event, w)
     else
      (let number = receivedData (host w) ! currentData AND ENET_PROTOCOL_COMMAND_MASK in
       if unat number \<ge> ENET_PROTOCOL_COMMAND_COUNT then Some (event, w)
       else
        (let size = unat (commandSizes ! unat number) in
         if size = 0 \<or> currentData + size > len then Some (event, w)
         else if peer = None \<and> number \<noteq> ENET_PROTOCOL_COMMAND_CONNECT then Some (event, w)
         else
          (let w1 = update_received (store_sequence currentData
                 (ENET_NET_TO_HOST_16 (load16 (receivedData (host w)) (currentData + 2)))) w;
               command = load_command (receivedData (host w1)) currentData
           in case handle_command peer currentData (currentData + size) command event w1 of
                None \<Rightarrow> None
              | Some (r, extra, peer1, event1, w2) \<Rightarrow>
                  (if r \<noteq> 0 then Some (event1, w2)
                   else
                    (case acknowledge_command flags peer1 command w2 of
                       None \<Rightarrow> None
                     | Some (stop, w3) \<Rightarrow>
                         (if stop then Some (event1, w3)
                          else command_loop len flags peer1 (currentData + size + extra) event1 w3)))))))"
  by pat_completeness auto
termination
  by (relation "measure (\<lambda>(len, flags, peer, currentData, event, w). len - currentData)") auto

declare command_loop.simps [simp del]

text \<open>
  What precedes the loop: who sent the datagram, whether to accept it. \<open>None\<close> in the first component
  is an early return; the checks of the checksum are those of the build with \<open>USE_CRC32\<close>.
\<close>

definition packet_crc_ok :: "ENetPeer \<Rightarrow> world \<Rightarrow> bool \<times> world" where
  "packet_crc_ok p w =
    (if ph_flags (received_header w) AND ENET_PROTOCOL_HEADER_FLAG_CRC \<noteq> 0 then
       (let crc = ph_checksum (received_header w);
            w1 = update_received (store_checksum (sessionID p)) w
        in (received_crc w1 = crc, w1))
     else (True, w))"

definition identify_sender :: "world \<Rightarrow> nat option option \<times> world" where
  "identify_sender w =
    (let peerID = ENET_NET_TO_HOST_16 (ph_peerID (received_header w)) AND NOT ENET_PROTOCOL_HEADER_PEER_MASK;
         from = receivedAddress (host w)
     in if peerID = ENET_PROTOCOL_MAXIMUM_PEER_ID then (Some None, w)
        else
         (let i = unat peerID in
          if i \<ge> peerCount (host w) then (None, w)
          else
           (let p = peers (host w) ! i in
            if peer_state p = ENET_PEER_STATE_DISCONNECTED \<or> peer_state p = ENET_PEER_STATE_ZOMBIE \<or>
               (addr_host from \<noteq> addr_host (peer_address p) \<and> addr_host (peer_address p) \<noteq> ENET_HOST_BROADCAST)
            then (None, w)
            else
             (let (ok, w1) = packet_crc_ok p w
              in if \<not> ok then (None, w1)
                 else (Some (Some i), put_peer i (p\<lparr>
                     peer_address := \<lparr>addr_host = addr_host from, addr_port = addr_port from\<rparr>,
                     incomingDataTotal := incomingDataTotal p + ucast (receivedDataLength (host w1))\<rparr>) w1)))))"

definition event_occurred :: "ENetEvent option \<Rightarrow> bool" where
  "event_occurred event =
     (case event of None \<Rightarrow> False | Some ev \<Rightarrow> event_type ev \<noteq> ENET_EVENT_TYPE_NONE)"

definition enet_protocol_handle_incoming_commands ::
  "ENetEvent option \<Rightarrow> world \<Rightarrow> (int \<times> ENetEvent option \<times> world) option" where
  "enet_protocol_handle_incoming_commands event w =
    (if receivedDataLength (host w) < sizeof_ENetProtocolHeader then Some (0, event, w)
     else
      (let flags = ph_flags (received_header w) in
       case identify_sender w of
         (None, w1) \<Rightarrow> Some (0, event, w1)
       | (Some peer, w1) \<Rightarrow> do {
           let headerSize = (if flags AND ENET_PROTOCOL_HEADER_FLAG_SENT_TIME \<noteq> 0 then 12 else 10);
           (event1, w2) \<leftarrow> command_loop (unat (receivedDataLength (host w1))) flags peer headerSize event w1;
           Some (if event_occurred event1 then 1 else 0, event1, w2) }))"

subsection \<open>Receiving datagrams\<close>

text \<open>
  \<open>enet_socket_receive\<close> with the buffer of the host, in the build without \<open>HAS_MSGHDR_FLAGS\<close> (no build
  file defines it): of a datagram longer than the buffer the system hands over what fits; an empty one
  or none at all gives 0.
\<close>

definition enet_socket_receive :: "world \<Rightarrow> int \<times> world" where
  "enet_socket_receive w =
    (case inbox w of
       [] \<Rightarrow> (0, w)
     | a # rest \<Rightarrow>
        (let w1 = w\<lparr>inbox := rest\<rparr> in
         case a of
           WouldBlock \<Rightarrow> (0, w1)
         | RecvError \<Rightarrow> (-1, w1)
         | Datagram from bs \<Rightarrow>
             (let dat = take (length (receivedData (host w))) bs
              in (int (length dat), update_host (\<lambda>h. h\<lparr>receivedAddress := from\<rparr>)
                   (update_received (overwrite 0 dat) w1)))))"

text \<open>The endless loop: it ends at the latest when the socket has nothing more, on a bound \<open>n\<close> that
  is the number of arrivals.\<close>

fun receive_loop :: "nat \<Rightarrow> ENetEvent option \<Rightarrow> world \<Rightarrow> (int \<times> ENetEvent option \<times> world) option" where
  "receive_loop 0 event w = None"
| "receive_loop (Suc n) event w =
    (let (receivedLength, w1) = enet_socket_receive w in
     if receivedLength < 0 then Some (-1, event, w1)
     else if receivedLength = 0 then Some (0, event, w1)
     else do {
       (r, event1, w2) \<leftarrow> enet_protocol_handle_incoming_commands event
          (update_host (\<lambda>h. h\<lparr>receivedDataLength := of_int receivedLength\<rparr>) w1);
       if r = 1 then Some (1, event1, w2)
       else if r = -1 then Some (-1, event1, w2)
       else receive_loop n event1 w2 })"

definition enet_protocol_receive_incoming_commands ::
  "ENetEvent option \<Rightarrow> world \<Rightarrow> (int \<times> ENetEvent option \<times> world) option" where
  "enet_protocol_receive_incoming_commands event w = receive_loop (Suc (length (inbox w))) event w"

end
