(* ===== verification/ProtoOut.thy ===== *)
theory ProtoOut
  imports ProtoIn
begin

text \<open>
  The sending half of \<open>dll_src/reliableudp/src/protocol.c\<close>: filling a datagram with acknowledgements,
  reliable and unreliable commands of a peer, the time-outs of reliable commands, and the loop that
  sends one datagram per peer until nothing is left that fits.

  The loops over a queue always take its front (what they pass over or send leaves the queue), so
  they recurse over the queue; the state they change is the host, the peer and the packets.
\<close>

subsection \<open>Filling a datagram\<close>

type_synonym filling = "ENetHost \<times> ENetPeer \<times> packet_store"

text \<open>What is left of the datagram: \<open>peer -> mtu - host -> packetSize\<close>, in \<open>size_t\<close>.\<close>

definition room :: "ENetHost \<Rightarrow> ENetPeer \<Rightarrow> usize" where
  "room h p = ucast (peer_mtu p) - packetSize h"

text \<open>
  Writing the command in the next element of \<open>commands\<close> and pointing the next buffer at it:
  \<open>commandCount\<close> and \<open>bufferCount\<close> play the part of the pointers \<open>command\<close> and \<open>buffer\<close>.
\<close>

definition add_command :: "ENetProtocol \<Rightarrow> usize \<Rightarrow> ENetHost \<Rightarrow> ENetHost" where
  "add_command c sz h = h\<lparr>
     commands := (commands h)[commandCount h := c],
     buffers := (buffers h)[bufferCount h := \<lparr>buf_data = CommandBuffer (commandCount h), buf_dataLength = sz\<rparr>],
     packetSize := packetSize h + sz,
     commandCount := Suc (commandCount h),
     bufferCount := Suc (bufferCount h)\<rparr>"

definition add_data :: "nat \<Rightarrow> u32 \<Rightarrow> usize \<Rightarrow> ENetHost \<Rightarrow> ENetHost" where
  "add_data packet offset len h = h\<lparr>
     buffers := (buffers h)[bufferCount h := \<lparr>buf_data = PacketBuffer packet offset, buf_dataLength = len\<rparr>],
     packetSize := packetSize h + len,
     bufferCount := Suc (bufferCount h)\<rparr>"

subsection \<open>Acknowledgements\<close>

text \<open>
  The acknowledgement is built in the element of \<open>commands\<close> it is sent from; the sequence number of
  its header is not set and keeps what the element held before.
\<close>

definition acknowledgement_command :: "ENetHost \<Rightarrow> ENetAcknowledgement \<Rightarrow> ENetProtocol" where
  "acknowledgement_command h a =
     \<lparr>prt_header = \<lparr>hdr_command = ENET_PROTOCOL_COMMAND_ACKNOWLEDGE,
        hdr_channelID = channelID_of (ak_command a),
        hdr_reliableSequenceNumber = sequence_of (commands h ! commandCount h)\<rparr>,
      prt_body = Acknowledge
        \<lparr>ack_receivedReliableSequenceNumber = ENET_HOST_TO_NET_16 (sequence_of (ak_command a)),
         ack_receivedSentTime = ENET_HOST_TO_NET_16 (ucast (ak_sentTime a))\<rparr>\<rparr>"

fun send_acknowledgements_loop :: "ENetAcknowledgement list \<Rightarrow> ENetHost \<Rightarrow> ENetPeer \<Rightarrow> ENetHost \<times> ENetPeer" where
  "send_acknowledgements_loop [] h p = (h, p\<lparr>acknowledgements := []\<rparr>)"
| "send_acknowledgements_loop (a # rest) h p =
    (if commandCount h \<ge> length (commands h) \<or> bufferCount h \<ge> length (buffers h) \<or> room h p < 8
     then (h\<lparr>continueSending := True\<rparr>, p\<lparr>acknowledgements := a # rest\<rparr>)
     else send_acknowledgements_loop rest (add_command (acknowledgement_command h a) 8 h)
       (if command_of (ak_command a) AND ENET_PROTOCOL_COMMAND_MASK = ENET_PROTOCOL_COMMAND_DISCONNECT
        then p\<lparr>peer_state := ENET_PEER_STATE_ZOMBIE\<rparr> else p))"

definition enet_protocol_send_acknowledgements :: "ENetHost \<Rightarrow> ENetPeer \<Rightarrow> ENetHost \<times> ENetPeer" where
  "enet_protocol_send_acknowledgements h p = send_acknowledgements_loop (acknowledgements p) h p"

subsection \<open>Unreliable commands\<close>

text \<open>The throttle: whether the packet of a command is dropped, and the counter after it.\<close>

definition throttle_counter :: "ENetPeer \<Rightarrow> u32" where
  "throttle_counter p =
     (packetThrottleCounter p + ENET_PEER_PACKET_THROTTLE_COUNTER) mod ENET_PEER_PACKET_THROTTLE_SCALE"

definition throttled :: "ENetPeer \<Rightarrow> bool" where
  "throttled p \<longleftrightarrow> throttle_counter p > packetThrottle p"

text \<open>The packet of a command that has one; \<open>None\<close> for a dangling pointer.\<close>

definition command_packet :: "ENetOutgoingCommand \<Rightarrow> packet_store \<Rightarrow> ENetPacket option option" where
  "command_packet oc ps =
     (case oc_packet oc of None \<Rightarrow> Some None | Some q \<Rightarrow> map_option Some (pheap ps q))"

fun send_unreliable_loop :: "ENetOutgoingCommand list \<Rightarrow> ENetHost \<Rightarrow> ENetPeer \<Rightarrow> packet_store \<Rightarrow> filling option" where
  "send_unreliable_loop [] h p ps = Some (h, p\<lparr>outgoingUnreliableCommands := []\<rparr>, ps)"
| "send_unreliable_loop (oc # rest) h p ps = do {
     size \<leftarrow> enet_protocol_command_size (command_of (oc_command oc));
     packet \<leftarrow> command_packet oc ps;
     if commandCount h \<ge> length (commands h) \<or> Suc (bufferCount h) \<ge> length (buffers h) \<or>
        room h p < size \<or> (case packet of None \<Rightarrow> False | Some k \<Rightarrow> room h p < size + pkt_dataLength k)
     then Some (h\<lparr>continueSending := True\<rparr>, p\<lparr>outgoingUnreliableCommands := oc # rest\<rparr>, ps)
     else (case packet of
         None \<Rightarrow> send_unreliable_loop rest (add_command (oc_command oc) size h) p ps
       | Some k \<Rightarrow>
          (let p1 = p\<lparr>packetThrottleCounter := throttle_counter p\<rparr>
           in if throttled p
              then do {
                ps1 \<leftarrow> release_option (oc_packet oc) ps;
                send_unreliable_loop rest h p1 ps1 }
              else send_unreliable_loop rest
                (add_data (the (oc_packet oc)) 0 (pkt_dataLength k) (add_command (oc_command oc) size h))
                (p1\<lparr>sentUnreliableCommands := sentUnreliableCommands p1 @ [oc]\<rparr>) ps)) }"

text \<open>
  The last act may disconnect the peer, in the state \<open>DISCONNECT_LATER\<close>, where
  \<open>enet_peer_disconnect\<close> does not flush (the argument for the flush would make the result \<open>None\<close>).
\<close>

definition enet_protocol_send_unreliable_outgoing_commands :: "nat \<Rightarrow> world \<Rightarrow> world option" where
  "enet_protocol_send_unreliable_outgoing_commands i w = do {
     p \<leftarrow> get_peer w i;
     (h1, p1, ps1) \<leftarrow> send_unreliable_loop (outgoingUnreliableCommands p) (host w) p (packets w);
     let w1 = put_peer i p1 (w\<lparr>host := h1, packets := ps1\<rparr>);
     if disconnect_later_done p1 then enet_peer_disconnect (\<lambda>_. None) i (disconnectData p1) w1
     else Some w1 }"

subsection \<open>Time-outs\<close>

text \<open>
  Going through \<open>sentReliableCommands\<close> with \<open>kept\<close> the part that stays, already passed: a command
  that has waited too long goes to the front of \<open>outgoingReliableCommands\<close> with its time-out doubled;
  the peer is given up when it has been silent too long. The result tells whether it is.
\<close>

definition gives_up :: "u32 \<Rightarrow> ENetOutgoingCommand \<Rightarrow> ENetPeer \<Rightarrow> bool" where
  "gives_up now oc p \<longleftrightarrow>
     earliestTimeout p \<noteq> 0 \<and>
     (ENET_TIME_DIFFERENCE now (earliestTimeout p) \<ge> ENET_PEER_TIMEOUT_MAXIMUM \<or>
      (oc_roundTripTimeout oc \<ge> oc_roundTripTimeoutLimit oc \<and>
       ENET_TIME_DIFFERENCE now (earliestTimeout p) \<ge> ENET_PEER_TIMEOUT_MINIMUM))"

definition expired :: "u32 \<Rightarrow> ENetOutgoingCommand \<Rightarrow> bool" where
  "expired now oc \<longleftrightarrow> \<not> ENET_TIME_DIFFERENCE now (oc_sentTime oc) < oc_roundTripTimeout oc"

definition note_timeout :: "ENetOutgoingCommand \<Rightarrow> ENetPeer \<Rightarrow> ENetPeer" where
  "note_timeout oc p =
     (if earliestTimeout p = 0 \<or> ENET_TIME_LESS (oc_sentTime oc) (earliestTimeout p)
      then p\<lparr>earliestTimeout := oc_sentTime oc\<rparr> else p)"

definition retransmit :: "ENetOutgoingCommand \<Rightarrow> ENetPeer \<Rightarrow> ENetPeer" where
  "retransmit oc p = p\<lparr>
     reliableDataInTransit := (if oc_packet oc = None then reliableDataInTransit p
        else reliableDataInTransit p - ucast (oc_fragmentLength oc)),
     packetsLost := packetsLost p + 1,
     outgoingReliableCommands := oc\<lparr>oc_roundTripTimeout := oc_roundTripTimeout oc * 2\<rparr> #
        outgoingReliableCommands p\<rparr>"

fun check_timeouts_loop ::
  "u32 \<Rightarrow> ENetOutgoingCommand list \<Rightarrow> ENetOutgoingCommand list \<Rightarrow> ENetPeer \<Rightarrow> bool \<times> ENetPeer" where
  "check_timeouts_loop now kept [] p = (False, p\<lparr>sentReliableCommands := kept\<rparr>)"
| "check_timeouts_loop now kept (oc # rest) p =
    (if \<not> expired now oc then check_timeouts_loop now (kept @ [oc]) rest p
     else
      (let p1 = note_timeout oc p
       in if gives_up now oc p1 then (True, p1\<lparr>sentReliableCommands := kept @ oc # rest\<rparr>)
          else
           (let p2 = retransmit oc p1;
                p3 = (case rest of
                    [] \<Rightarrow> p2
                  | first # _ \<Rightarrow> (if kept = []
                       then p2\<lparr>nextTimeout := oc_sentTime first + oc_roundTripTimeout first\<rparr> else p2))
            in check_timeouts_loop now kept rest p3)))"

definition enet_protocol_check_timeouts ::
  "nat \<Rightarrow> ENetEvent option \<Rightarrow> world \<Rightarrow> (int \<times> ENetEvent option \<times> world) option" where
  "enet_protocol_check_timeouts i event w = do {
     p \<leftarrow> get_peer w i;
     let (lost, p1) = check_timeouts_loop (serviceTime (host w)) [] (sentReliableCommands p) p;
     if lost then do {
       (event1, w1) \<leftarrow> enet_protocol_notify_disconnect i event (put_peer i p1 w);
       Some (1, event1, w1) }
     else Some (0, event, put_peer i p1 w) }"

subsection \<open>Reliable commands\<close>

text \<open>
  A command that must wait for the window leaves the loop without asking for another round; one that
  does not fit asks for one. The comparison with the room is on 16 bits.
\<close>

definition window_full :: "ENetOutgoingCommand \<Rightarrow> ENetPeer \<Rightarrow> bool" where
  "window_full oc p \<longleftrightarrow> reliableDataInTransit p + ucast (oc_fragmentLength oc) > windowSize p"

definition first_timeout :: "ENetPeer \<Rightarrow> ENetOutgoingCommand \<Rightarrow> ENetOutgoingCommand" where
  "first_timeout p oc =
     (if oc_roundTripTimeout oc = 0
      then (let t = roundTripTime p + 4 * roundTripTimeVariance p
            in oc\<lparr>oc_roundTripTimeout := t, oc_roundTripTimeoutLimit := ENET_PEER_TIMEOUT_LIMIT * t\<rparr>)
      else oc)"

text \<open>The bookkeeping of a reliable command that is sent now.\<close>

definition sent_reliable :: "u32 \<Rightarrow> ENetOutgoingCommand \<Rightarrow> ENetPeer \<Rightarrow> ENetPeer" where
  "sent_reliable now oc p = p\<lparr>
     nextTimeout := (if sentReliableCommands p = [] then now + oc_roundTripTimeout oc else nextTimeout p),
     sentReliableCommands := sentReliableCommands p @ [oc\<lparr>oc_sentTime := now\<rparr>],
     reliableDataInTransit := (if oc_packet oc = None then reliableDataInTransit p
        else reliableDataInTransit p + ucast (oc_fragmentLength oc)),
     packetsSent := packetsSent p + 1\<rparr>"

fun send_reliable_loop :: "ENetOutgoingCommand list \<Rightarrow> ENetHost \<Rightarrow> ENetPeer \<Rightarrow> (ENetHost \<times> ENetPeer) option" where
  "send_reliable_loop [] h p = Some (h, p\<lparr>outgoingReliableCommands := []\<rparr>)"
| "send_reliable_loop (oc # rest) h p = do {
     size \<leftarrow> enet_protocol_command_size (command_of (oc_command oc));
     if commandCount h \<ge> length (commands h) \<or> Suc (bufferCount h) \<ge> length (buffers h) \<or> room h p < size
     then Some (h\<lparr>continueSending := True\<rparr>, p\<lparr>outgoingReliableCommands := oc # rest\<rparr>)
     else if oc_packet oc \<noteq> None \<and> window_full oc p
     then Some (h, p\<lparr>outgoingReliableCommands := oc # rest\<rparr>)
     else if oc_packet oc \<noteq> None \<and>
             (ucast (room h p) :: u16) < ucast (size + ucast (oc_fragmentLength oc))
     then Some (h\<lparr>continueSending := True\<rparr>, p\<lparr>outgoingReliableCommands := oc # rest\<rparr>)
     else
      (let oc1 = first_timeout p oc;
           h1 = add_command (oc_command oc1) size
                  (h\<lparr>headerFlags := headerFlags h OR ENET_PROTOCOL_HEADER_FLAG_SENT_TIME\<rparr>);
           h2 = (case oc_packet oc1 of None \<Rightarrow> h1
                 | Some q \<Rightarrow> add_data q (oc_fragmentOffset oc1) (ucast (oc_fragmentLength oc1)) h1)
       in send_reliable_loop rest h2 (sent_reliable (serviceTime h) oc1 p)) }"

definition enet_protocol_send_reliable_outgoing_commands :: "nat \<Rightarrow> world \<Rightarrow> world option" where
  "enet_protocol_send_reliable_outgoing_commands i w = do {
     p \<leftarrow> get_peer w i;
     (h1, p1) \<leftarrow> send_reliable_loop (outgoingReliableCommands p) (host w) p;
     Some (put_peer i p1 (w\<lparr>host := h1\<rparr>)) }"

subsection \<open>One datagram\<close>

definition update_packet_loss :: "u32 \<Rightarrow> ENetPeer \<Rightarrow> ENetPeer" where
  "update_packet_loss now p =
    (if packetLossEpoch p = 0 then p\<lparr>packetLossEpoch := now\<rparr>
     else if ENET_TIME_DIFFERENCE now (packetLossEpoch p) \<ge> ENET_PEER_PACKET_LOSS_INTERVAL \<and> packetsSent p > 0
     then
      (let loss = packetsLost p * ENET_PEER_PACKET_LOSS_SCALE div packetsSent p;
           v0 = packetLossVariance p - packetLossVariance p div 4;
           (l, v) = (if loss \<ge> packetLoss p
             then (let l1 = packetLoss p + (loss - packetLoss p) div 8 in (l1, v0 + (loss - l1) div 4))
             else (let l1 = packetLoss p - (packetLoss p - loss) div 8 in (l1, v0 + (l1 - loss) div 4)))
       in p\<lparr>packetLoss := l, packetLossVariance := v, packetLossEpoch := now, packetsSent := 0,
            packetsLost := 0\<rparr>)
     else p)"

text \<open>The bytes a buffer points at when they are read; \<open>None\<close> if they are not (all) allocated.\<close>

definition buffer_bytes :: "ENetProtocolHeader \<Rightarrow> ENetHost \<Rightarrow> packet_store \<Rightarrow> ENetBuffer \<Rightarrow> bytes option" where
  "buffer_bytes header h ps b =
    (let n = unat (buf_dataLength b) in
     case buf_data b of
       HeaderBuffer \<Rightarrow> (if n \<le> 12 then Some (take n (image_of_header header)) else None)
     | CommandBuffer k \<Rightarrow>
         (if k < length (commands h) \<and> n \<le> length (image_of_command (commands h ! k))
          then Some (take n (image_of_command (commands h ! k))) else None)
     | PacketBuffer q offset \<Rightarrow> do {
         pk \<leftarrow> pheap ps q;
         if unat offset + n \<le> length (pkt_data pk) then Some (take n (drop (unat offset) (pkt_data pk)))
         else None })"

fun gather :: "ENetProtocolHeader \<Rightarrow> ENetHost \<Rightarrow> packet_store \<Rightarrow> ENetBuffer list \<Rightarrow> bytes list option" where
  "gather header h ps [] = Some []"
| "gather header h ps (b # bs) = do {
     x \<leftarrow> buffer_bytes header h ps b;
     xs \<leftarrow> gather header h ps bs;
     Some (x # xs) }"

definition enet_socket_send :: "ENetAddress \<Rightarrow> bytes list \<Rightarrow> world \<Rightarrow> int \<times> world" where
  "enet_socket_send address bufs w =
     (send_result w (length (sent w)), w\<lparr>sent := sent w @ [(address, concat bufs)]\<rparr>)"

definition packet_header :: "ENetHost \<Rightarrow> ENetPeer \<Rightarrow> u8 \<Rightarrow> ENetProtocolHeader" where
  "packet_header h p junk_byte = \<lparr>ph_checksum = sessionID p, ph_peerID = ENET_HOST_TO_NET_16 (outgoingPeerID p),
     ph_protoMajor = 0, ph_protoMinor = 0, ph_flags = ucast (headerFlags h), ph_padding = junk_byte,
     ph_sentTime = (if headerFlags h AND ENET_PROTOCOL_HEADER_FLAG_SENT_TIME \<noteq> 0
       then ENET_HOST_TO_NET_16 (ucast (serviceTime h AND 0xFFFF)) else 0)\<rparr>"

definition header_buffer :: "ENetHost \<Rightarrow> ENetBuffer" where
  "header_buffer h = \<lparr>buf_data = HeaderBuffer, buf_dataLength =
     (if headerFlags h AND ENET_PROTOCOL_HEADER_FLAG_SENT_TIME \<noteq> 0
      then sizeof_ENetProtocolHeader else offsetof_sentTime)\<rparr>"

text \<open>
  The header as sent: when the last datagram went out at an odd time, the checksum over all buffers
  (computed with the session number in its place) replaces the session number.
\<close>

definition sealed_header :: "ENetProtocolHeader \<Rightarrow> ENetHost \<Rightarrow> ENetPeer \<Rightarrow> packet_store \<Rightarrow> ENetProtocolHeader option" where
  "sealed_header header h p ps =
    (if lastSendTime p mod 2 \<noteq> 0 then do {
       let header1 = header\<lparr>ph_flags := ph_flags header OR ENET_PROTOCOL_HEADER_FLAG_CRC\<rparr>;
       bufs \<leftarrow> gather header1 h ps (take (bufferCount h) (buffers h));
       Some (header1\<lparr>ph_checksum := enet_crc32 bufs\<rparr>) }
     else Some header)"

definition send_datagram :: "nat \<Rightarrow> world \<Rightarrow> (int \<times> world) option" where
  "send_datagram i w = do {
     p \<leftarrow> get_peer w i;
     let p1 = update_packet_loss (serviceTime (host w)) p;
     let h = (host w)\<lparr>buffers := (buffers (host w))[0 := header_buffer (host w)]\<rparr>;
     header \<leftarrow> sealed_header (packet_header h p1 (stack_junk w)) h p1 (packets w);
     bufs \<leftarrow> gather header h (packets w) (take (bufferCount h) (buffers h));
     let (sentLength, w1) = enet_socket_send (peer_address p1) bufs
       (put_peer i (p1\<lparr>lastSendTime := serviceTime h\<rparr>) (w\<lparr>host := h\<rparr>));
     (_, w2) \<leftarrow> on_peer i enet_protocol_remove_sent_unreliable_commands w1;
     Some (sentLength, w2) }"

subsection \<open>The rounds over the peers\<close>

definition start_datagram :: "world \<Rightarrow> world" where
  "start_datagram = update_host (\<lambda>h. h\<lparr>headerFlags := 0, commandCount := 0, bufferCount := 1,
     packetSize := sizeof_ENetProtocolHeader\<rparr>)"

definition needs_ping :: "world \<Rightarrow> ENetPeer \<Rightarrow> bool" where
  "needs_ping w p \<longleftrightarrow> sentReliableCommands p = [] \<and>
     ENET_TIME_DIFFERENCE (serviceTime (host w)) (lastReceiveTime p) \<ge> ENET_PEER_PING_INTERVAL \<and>
     room (host w) p \<ge> 4"

definition fill_acknowledgements :: "nat \<Rightarrow> world \<Rightarrow> world option" where
  "fill_acknowledgements i w = do {
     p \<leftarrow> get_peer w i;
     if acknowledgements p = [] then Some w
     else (let (h1, p1) = enet_protocol_send_acknowledgements (host w) p
           in Some (put_peer i p1 (w\<lparr>host := h1\<rparr>))) }"

definition fill_reliable :: "nat \<Rightarrow> world \<Rightarrow> world option" where
  "fill_reliable i w = do {
     p \<leftarrow> get_peer w i;
     if outgoingReliableCommands p \<noteq> [] then enet_protocol_send_reliable_outgoing_commands i w
     else if needs_ping w p then do {
       (_, w1) \<leftarrow> on_peer i enet_peer_ping w;
       enet_protocol_send_reliable_outgoing_commands i w1 }
     else Some w }"

definition fill_unreliable :: "nat \<Rightarrow> world \<Rightarrow> world option" where
  "fill_unreliable i w = do {
     p \<leftarrow> get_peer w i;
     if outgoingUnreliableCommands p \<noteq> [] then enet_protocol_send_unreliable_outgoing_commands i w
     else Some w }"

text \<open>
  The body of the loop for the peer with index \<open>i\<close>. The first component is the value the function
  returns with at once, or \<open>None\<close> to go on with the next peer.
\<close>

definition service_peer ::
  "nat \<Rightarrow> bool \<Rightarrow> ENetEvent option \<Rightarrow> world \<Rightarrow> (int option \<times> ENetEvent option \<times> world) option" where
  "service_peer i checkForTimeouts event w = do {
     p \<leftarrow> get_peer w i;
     if peer_state p = ENET_PEER_STATE_DISCONNECTED \<or> peer_state p = ENET_PEER_STATE_ZOMBIE
     then Some (None, event, w)
     else do {
       w1 \<leftarrow> fill_acknowledgements i (start_datagram w);
       p1 \<leftarrow> get_peer w1 i;
       (r, event1, w2) \<leftarrow> (if checkForTimeouts \<and> sentReliableCommands p1 \<noteq> [] \<and>
             ENET_TIME_GREATER_EQUAL (serviceTime (host w1)) (nextTimeout p1)
          then enet_protocol_check_timeouts i event w1 else Some (0, event, w1));
       if r = 1 then Some (Some 1, event1, w2)
       else do {
         w3 \<leftarrow> fill_reliable i w2;
         w4 \<leftarrow> fill_unreliable i w3;
         if commandCount (host w4) = 0 then Some (None, event1, w4)
         else do {
           (sentLength, w5) \<leftarrow> send_datagram i w4;
           Some (if sentLength < 0 then Some (-1) else None, event1, w5) } } } }"

fun service_peers ::
  "nat list \<Rightarrow> bool \<Rightarrow> ENetEvent option \<Rightarrow> world \<Rightarrow> (int option \<times> ENetEvent option \<times> world) option" where
  "service_peers [] check event w = Some (None, event, w)"
| "service_peers (i # is) check event w = do {
     (r, event1, w1) \<leftarrow> service_peer i check event w;
     case r of
       Some v \<Rightarrow> Some (Some v, event1, w1)
     | None \<Rightarrow> service_peers is check event1 w1 }"

text \<open>The outer loop, which sends until no peer asks for another round; \<open>None\<close> if it never ends.\<close>

partial_function (option) send_rounds ::
  "bool \<Rightarrow> ENetEvent option \<Rightarrow> world \<Rightarrow> (int \<times> ENetEvent option \<times> world) option" where
  "send_rounds check event w =
    (if \<not> continueSending (host w) then Some (0, event, w)
     else do {
       (r, event1, w1) \<leftarrow> service_peers [0..<peerCount (host w)] check event
          (update_host (\<lambda>h. h\<lparr>continueSending := False\<rparr>) w);
       case r of
         Some v \<Rightarrow> Some (v, event1, w1)
       | None \<Rightarrow> send_rounds check event1 w1 })"

declare send_rounds.simps [code]

definition enet_protocol_send_outgoing_commands ::
  "ENetEvent option \<Rightarrow> bool \<Rightarrow> world \<Rightarrow> (int \<times> ENetEvent option \<times> world) option" where
  "enet_protocol_send_outgoing_commands event check w =
     send_rounds check event (update_host (\<lambda>h. h\<lparr>continueSending := True\<rparr>) w)"

end
