(* ===== verification/Service.thy ===== *)
theory Service
  imports ProtoOut
begin

text \<open>
  The entry points of \<open>dll_src/reliableudp/src/protocol.c\<close> that the application calls: flushing a
  host, checking for queued events, and servicing a host until an event occurs or the time is up.
\<close>

definition enet_host_flush :: "world \<Rightarrow> world option" where
  "enet_host_flush w =
    (let (now, w1) = enet_time_get w
     in map_option (\<lambda>(_, _, w2). w2)
          (enet_protocol_send_outgoing_commands None False (update_host (\<lambda>h. h\<lparr>serviceTime := now\<rparr>) w1)))"

definition clear_event :: "ENetEvent \<Rightarrow> ENetEvent" where
  "clear_event ev = ev\<lparr>event_type := ENET_EVENT_TYPE_NONE, event_peer := None, event_packet := None\<rparr>"

definition enet_host_check_events ::
  "ENetEvent option \<Rightarrow> world \<Rightarrow> (int \<times> ENetEvent option \<times> world) option" where
  "enet_host_check_events event w =
    (case event of
       None \<Rightarrow> Some (-1, None, w)
     | Some ev \<Rightarrow> do {
         (r, ev1, w1) \<leftarrow> enet_protocol_dispatch_incoming_commands (clear_event ev) w;
         Some (r, Some ev1, w1) })"

text \<open>
  The dispatch at the two places of \<open>enet_host_service\<close>, which is left out without an event, and
  \<open>enet_time_get\<close> into \<open>serviceTime\<close>.
\<close>

definition dispatch_event ::
  "ENetEvent option \<Rightarrow> world \<Rightarrow> (int \<times> ENetEvent option \<times> world) option" where
  "dispatch_event event w =
    (case event of
       None \<Rightarrow> Some (0, None, w)
     | Some ev \<Rightarrow> do {
         (r, ev1, w1) \<leftarrow> enet_protocol_dispatch_incoming_commands ev w;
         Some (r, Some ev1, w1) })"

definition update_serviceTime :: "world \<Rightarrow> world" where
  "update_serviceTime w =
     (let (now, w1) = enet_time_get w in update_host (\<lambda>h. h\<lparr>serviceTime := now\<rparr>) w1)"

text \<open>
  \<open>enet_socket_wait\<close>: its result and the condition it reports; the waits the environment does not
  list time out.
\<close>

definition enet_socket_wait :: "world \<Rightarrow> int \<times> u32 \<times> world" where
  "enet_socket_wait w =
    (case waits w of
       [] \<Rightarrow> (0, ENET_SOCKET_WAIT_NONE, w)
     | (result, condition) # rest \<Rightarrow> (result, condition, w\<lparr>waits := rest\<rparr>))"

text \<open>One pass of the four calls inside the loop; \<open>Some v\<close> is the value the function returns with.\<close>

definition service_pass ::
  "ENetEvent option \<Rightarrow> world \<Rightarrow> (int option \<times> ENetEvent option \<times> world) option" where
  "service_pass event w = do {
     w0 \<leftarrow> (if ENET_TIME_DIFFERENCE (serviceTime (host w)) (bandwidthThrottleEpoch (host w))
              \<ge> ENET_HOST_BANDWIDTH_THROTTLE_INTERVAL
           then enet_host_bandwidth_throttle w else Some w);
     (r1, event1, w1) \<leftarrow> enet_protocol_send_outgoing_commands event True w0;
     if r1 = 1 \<or> r1 = -1 then Some (Some r1, event1, w1)
     else do {
       (r2, event2, w2) \<leftarrow> enet_protocol_receive_incoming_commands event1 w1;
       if r2 = 1 \<or> r2 = -1 then Some (Some r2, event2, w2)
       else do {
         (r3, event3, w3) \<leftarrow> enet_protocol_send_outgoing_commands event2 True w2;
         if r3 = 1 \<or> r3 = -1 then Some (Some r3, event3, w3)
         else do {
           (r4, event4, w4) \<leftarrow> dispatch_event event3 w3;
           Some (if r4 = 1 \<or> r4 = -1 then Some r4 else None, event4, w4) } } } }"

text \<open>
  The \<open>do\<close> loop up to \<open>deadline\<close>. It goes round again only when the socket has something, which the
  environment says finitely often; it is None when the bound \<open>n\<close> does not cover that.
\<close>

fun service_loop :: "nat \<Rightarrow> u32 \<Rightarrow> ENetEvent option \<Rightarrow> world \<Rightarrow> (int \<times> ENetEvent option \<times> world) option" where
  "service_loop 0 deadline event w = None"
| "service_loop (Suc n) deadline event w = do {
     (r, event1, w1) \<leftarrow> service_pass event w;
     case r of
       Some v \<Rightarrow> Some (v, event1, w1)
     | None \<Rightarrow>
        (let w2 = update_serviceTime w1 in
         if ENET_TIME_GREATER_EQUAL (serviceTime (host w2)) deadline then Some (0, event1, w2)
         else
          (let (result, condition, w3) = enet_socket_wait w2 in
           if result = -2 then Some (0, event1, w3)
           else if result \<noteq> 0 then Some (-1, event1, w3)
           else
            (let w4 = update_serviceTime w3 in
             if condition = ENET_SOCKET_WAIT_RECEIVE then service_loop n deadline event1 w4
             else Some (0, event1, w4)))) }"

definition enet_host_service ::
  "ENetEvent option \<Rightarrow> u32 \<Rightarrow> world \<Rightarrow> (int \<times> ENetEvent option \<times> world) option" where
  "enet_host_service event timeout w = do {
     (r, event1, w1) \<leftarrow> dispatch_event (map_option clear_event event) w;
     if r = 1 \<or> r = -1 then Some (r, event1, w1)
     else
      (let w2 = update_serviceTime w1
       in service_loop (Suc (length (waits w2))) (timeout + serviceTime (host w2)) event1 w2) }"

end
