(* ===== verification/PeerRefs.thy ===== *)
theory PeerRefs
  imports Service
begin

text \<open>
  Ownership of packets: the queues of the peers hold references to packets, and the reference count
  of every packet is the number of queue entries (of this and of other peers) that carry it. The
  locale \<open>refs_op\<close> is the contract of an operation on one peer, and lifts it to the whole host;
  every operation of peer.c that changes a queue is an interpretation of it.
\<close>

subsection \<open>The references a peer holds\<close>

definition refs_of :: "('a \<Rightarrow> nat option) \<Rightarrow> 'a list \<Rightarrow> nat list" where
  "refs_of f xs = concat (map (\<lambda>x. case f x of None \<Rightarrow> [] | Some p \<Rightarrow> [p]) xs)"

lemma refs_of_simps [simp]:
  "refs_of f [] = []"
  "refs_of f (x # xs) = (case f x of None \<Rightarrow> [] | Some p \<Rightarrow> [p]) @ refs_of f xs"
  "refs_of f (xs @ ys) = refs_of f xs @ refs_of f ys"
  by (simp_all add: refs_of_def)

definition channel_refs :: "ENetChannel \<Rightarrow> nat list" where
  "channel_refs ch = refs_of ic_packet (incomingReliableCommands ch) @
     refs_of ic_packet (incomingUnreliableCommands ch)"

definition outgoing_refs :: "ENetPeer \<Rightarrow> nat list" where
  "outgoing_refs p = refs_of oc_packet (sentReliableCommands p) @
     refs_of oc_packet (sentUnreliableCommands p) @ refs_of oc_packet (outgoingReliableCommands p) @
     refs_of oc_packet (outgoingUnreliableCommands p)"

definition channels_refs :: "ENetChannel list \<Rightarrow> nat multiset" where
  "channels_refs chs = mset (concat (map channel_refs chs))"

definition peer_refs :: "ENetPeer \<Rightarrow> nat multiset" where
  "peer_refs p = mset (outgoing_refs p) + channels_refs (channels p)"

text \<open>The array of channels is as long as the peer says, and every command that has arrived has a packet.\<close>

definition channel_ok :: "ENetChannel \<Rightarrow> bool" where
  "channel_ok ch \<longleftrightarrow>
     (\<forall>ic \<in> set (incomingReliableCommands ch) \<union> set (incomingUnreliableCommands ch). ic_packet ic \<noteq> None)"

lemma fresh_channel_ok [simp]: "channel_ok fresh_channel"
  by (simp add: channel_ok_def fresh_channel_def)

definition channels_wf :: "ENetPeer \<Rightarrow> bool" where
  "channels_wf p \<longleftrightarrow> length (channels p) = unat (channelCount p) \<and> length (channels p) \<le> 255 \<and>
     (\<forall>ch \<in> set (channels p). channel_ok ch)"

text \<open>A free slot holds no reference and has no channels: it can be taken over without releasing any.\<close>

definition slot_ok :: "ENetPeer \<Rightarrow> bool" where
  "slot_ok p \<longleftrightarrow> (peer_state p = ENET_PEER_STATE_DISCONNECTED \<longrightarrow> peer_refs p = {#} \<and> channels p = [])"

text \<open>
  The bounds the protocol negotiates and the throttle keeps: the MTU, the window, the throttle below its
  limit, its counter, and the size of the window of unsequenced groups.
\<close>

definition mtu_ok :: "'a::len word \<Rightarrow> bool" where
  "mtu_ok n \<longleftrightarrow> ENET_PROTOCOL_MINIMUM_MTU \<le> n \<and> n \<le> ENET_PROTOCOL_MAXIMUM_MTU"

definition bounds_ok :: "ENetPeer \<Rightarrow> bool" where
  "bounds_ok p \<longleftrightarrow> mtu_ok (peer_mtu p) \<and>
     ENET_PROTOCOL_MINIMUM_WINDOW_SIZE \<le> windowSize p \<and> windowSize p \<le> ENET_PROTOCOL_MAXIMUM_WINDOW_SIZE \<and>
     packetThrottle p \<le> packetThrottleLimit p \<and> packetThrottleLimit p \<le> ENET_PEER_PACKET_THROTTLE_SCALE \<and>
     packetThrottleCounter p < ENET_PEER_PACKET_THROTTLE_SCALE \<and> length (unsequencedWindow p) = 4"

definition peer_wf :: "ENetPeer \<Rightarrow> bool" where
  "peer_wf p \<longleftrightarrow> channels_wf p \<and> slot_ok p \<and> bounds_ok p"

text \<open>Two peers that agree on the fields with bounds.\<close>

definition same_bounds :: "ENetPeer \<Rightarrow> ENetPeer \<Rightarrow> bool" where
  "same_bounds p q \<longleftrightarrow> peer_mtu q = peer_mtu p \<and> windowSize q = windowSize p \<and>
     packetThrottle q = packetThrottle p \<and> packetThrottleLimit q = packetThrottleLimit p \<and>
     packetThrottleCounter q = packetThrottleCounter p \<and> unsequencedWindow q = unsequencedWindow p"

lemma same_bounds_refl [simp]: "same_bounds p p"
  by (simp add: same_bounds_def)

lemma same_bounds_ok: "same_bounds p q \<Longrightarrow> bounds_ok q = bounds_ok p"
  by (simp add: same_bounds_def bounds_ok_def)

lemma peer_wf_bounds: "peer_wf p \<Longrightarrow> same_bounds p q \<Longrightarrow> channels_wf q \<Longrightarrow> slot_ok q \<Longrightarrow> peer_wf q"
  by (simp add: peer_wf_def same_bounds_ok)

definition option_mset :: "nat option \<Rightarrow> nat multiset" where
  "option_mset x = (case x of None \<Rightarrow> {#} | Some p \<Rightarrow> {#p#})"

lemma channels_refs_update:
  assumes "i < length chs"
  shows "channels_refs (chs[i := ch]) + mset (channel_refs (chs ! i)) = channels_refs chs + mset (channel_refs ch)"
proof -
  have a: "chs = take i chs @ chs ! i # drop (Suc i) chs" using assms by (rule id_take_nth_drop)
  have b: "chs[i := ch] = take i chs @ ch # drop (Suc i) chs" using assms by (rule upd_conv_take_nth_drop)
  have "channels_refs (take i chs @ c # drop (Suc i) chs) =
      mset (channel_refs c) + (channels_refs (take i chs) + channels_refs (drop (Suc i) chs))" for c
    by (simp add: channels_refs_def)
  from this [of ch] this [of "chs ! i"] show ?thesis by (simp add: b [symmetric] a [symmetric])
qed

subsection \<open>Emptying queues releases their references\<close>

lemma release_all_append:
  "release_all rel (xs @ ys) s = release_all rel xs s \<bind> release_all rel ys"
  by (induction xs arbitrary: s) (simp_all, metis bind_assoc)

lemma release_all_Nil: "release_all rel [] = Some"
  by (rule ext) simp

lemma release_option_all:
  "release_option x = release_all packet_release (case x of None \<Rightarrow> [] | Some p \<Rightarrow> [p])"
  by (rule ext) (simp add: release_option_def release_all_Nil split: option.split)

lemma reset_outgoing_all:
  "enet_peer_reset_outgoing_commands q ps = release_all packet_release (refs_of oc_packet q) ps"
  by (induction q arbitrary: ps) (simp_all add: release_option_all release_all_append cong: Option.bind_cong)

lemma reset_incoming_all:
  "enet_peer_reset_incoming_commands q ps = release_all packet_release (refs_of ic_packet q) ps"
  by (induction q arbitrary: ps) (simp_all add: release_option_all release_all_append cong: Option.bind_cong)

lemma reset_channels_all:
  "reset_channels chs ps = release_all packet_release (concat (map channel_refs chs)) ps"
  by (induction chs arbitrary: ps)
    (simp_all add: release_all_append reset_incoming_all channel_refs_def cong: Option.bind_cong)

text \<open>The peer with all its queues and channels gone.\<close>

definition emptied :: "ENetPeer \<Rightarrow> ENetPeer" where
  "emptied p = p\<lparr>acknowledgements := [], sentReliableCommands := [], sentUnreliableCommands := [],
     outgoingReliableCommands := [], outgoingUnreliableCommands := [], channels := [], channelCount := 0\<rparr>"

lemma emptied_refs [simp]: "peer_refs (emptied p) = {#}" "channels_wf (emptied p)"
    "peer_wf (emptied p) = bounds_ok p" "slot_ok (emptied p)" "bounds_ok (emptied p) = bounds_ok p"
  by (simp_all add: peer_refs_def emptied_def outgoing_refs_def channels_refs_def channels_wf_def
      peer_wf_def slot_ok_def bounds_ok_def)

lemma reset_queues_all:
  assumes "channels_wf p"
  shows "enet_peer_reset_queues p ps =
    map_option (\<lambda>ps'. ((), emptied p, ps'))
      (release_all packet_release (outgoing_refs p @ concat (map channel_refs (channels p))) ps)"
proof -
  let ?c = "concat (map channel_refs (channels p))"
  have c: "(if channels p \<noteq> [] \<and> channelCount p > 0
      then (if length (channels p) < unat (channelCount p) then None
            else reset_channels (take (unat (channelCount p)) (channels p)) s)
      else Some s) = release_all packet_release ?c s" for s
  proof (cases "channels p = []")
    case False
    then have "channelCount p > 0" using assms by (auto simp: channels_wf_def word_neq_0_conv [symmetric])
    then show ?thesis using False assms by (simp add: channels_wf_def reset_channels_all)
  qed simp
  show ?thesis
    unfolding enet_peer_reset_queues_def c reset_outgoing_all outgoing_refs_def
    by (simp add: release_all_append emptied_def bind_assoc map_option_case split: bind_split option.split)
qed

lemma reset_queues_releases:
  assumes "channels_wf p" and "counts_agree ps (peer_refs p + R)"
  shows "\<exists>ps'. enet_peer_reset_queues p ps = Some ((), emptied p, ps') \<and> counts_agree ps' R \<and>
    (\<forall>q. pheap ps' q = None \<longleftrightarrow> pheap ps q = None \<or> q \<in># peer_refs p \<and> q \<notin># R)"
proof -
  let ?l = "outgoing_refs p @ concat (map channel_refs (channels p))"
  have l: "mset ?l = peer_refs p" by (simp add: peer_refs_def channels_refs_def)
  then have s: "set ?l = set_mset (peer_refs p)" by (metis set_mset_mset)
  from assms(2) have "counts_agree ps (mset ?l + R)" by (simp only: l)
  from packets.agrees_release_all [OF this] obtain ps'
    where "release_all packet_release ?l ps = Some ps'" "counts_agree ps' R"
      "\<forall>q. (pheap ps' q \<noteq> None) = (pheap ps q \<noteq> None \<and> (q \<in> set ?l \<longrightarrow> q \<in># R))"
    by blast
  moreover from this(3) have "\<forall>q. pheap ps' q = None \<longleftrightarrow> pheap ps q = None \<or> q \<in># peer_refs p \<and> q \<notin># R"
    unfolding s by blast
  ultimately show ?thesis by (simp add: reset_queues_all [OF assms(1)])
qed

subsection \<open>The contract of an operation on a peer\<close>

text \<open>
  \<open>refs_op f g\<close>: the operation \<open>f\<close> keeps the counts of all packets equal to the references, where
  \<open>R\<close> are those of the other peers, and adds at most \<open>g\<close> references. The bound \<open>2 ^ 63\<close> on their number
  keeps the counters, of type \<open>size_t\<close>, from wrapping: every reference is the field of an allocated
  object of more than one byte.
\<close>

definition refs_ok :: "packet_store \<Rightarrow> ENetPeer \<Rightarrow> nat multiset \<Rightarrow> bool" where
  "refs_ok ps p R \<longleftrightarrow> counts_agree ps (peer_refs p + R) \<and> peer_wf p"

definition world_refs :: "world \<Rightarrow> nat multiset" where
  "world_refs w = (\<Sum>p \<in># mset (peers (host w)). peer_refs p)"

text \<open>The two fields of the host that must be in range; its operations on peers leave them alone.\<close>

definition host_ok :: "ENetHost \<Rightarrow> bool" where
  "host_ok h \<longleftrightarrow> mtu_ok (host_mtu h) \<and> (peers h \<noteq> [] \<longrightarrow> lastServicedPeer h < peerCount h)"

definition same_settings :: "ENetHost \<Rightarrow> ENetHost \<Rightarrow> bool" where
  [simp]: "same_settings h h' \<longleftrightarrow> host_mtu h' = host_mtu h \<and> lastServicedPeer h' = lastServicedPeer h"

definition refs_inv :: "world \<Rightarrow> bool" where
  "refs_inv w \<longleftrightarrow> counts_agree (packets w) (world_refs w) \<and> (\<forall>p \<in> set (peers (host w)). peer_wf p) \<and>
     host_ok (host w)"

text \<open>
  The load of a host: its references and the bytes that wait in the socket, each of which may start a
  command that adds one. \<open>grows g w w'\<close>: going from \<open>w\<close> to \<open>w'\<close> keeps the counts and adds at most
  \<open>g\<close> to the load.
\<close>

definition pending_bytes :: "arrival list \<Rightarrow> nat" where
  "pending_bytes as = sum_list (map (\<lambda>a. case a of Datagram _ bs \<Rightarrow> length bs | _ \<Rightarrow> 0) as)"

lemma pending_bytes_simps [simp]:
  "pending_bytes [] = 0"
  "pending_bytes (a # as) = (case a of Datagram _ bs \<Rightarrow> length bs | _ \<Rightarrow> 0) + pending_bytes as"
  "pending_bytes (as @ bs) = pending_bytes as + pending_bytes bs"
  by (simp_all add: pending_bytes_def)

definition load :: "world \<Rightarrow> nat" where
  "load w = size (world_refs w) + pending_bytes (inbox w)"

definition grows :: "nat \<Rightarrow> world \<Rightarrow> world \<Rightarrow> bool" where
  "grows g w w' \<longleftrightarrow> (refs_inv w \<and> load w + g < 2 ^ 63 \<longrightarrow> refs_inv w' \<and> load w' \<le> load w + g)"

lemma world_refs_split:
  assumes "i < length (peers (host w))"
  shows "world_refs w = peer_refs (peers (host w) ! i) +
    (\<Sum>p \<in># mset (peers (host w)) - {#peers (host w) ! i#}. peer_refs p)"
  using assms unfolding world_refs_def
  by (metis (no_types, lifting) image_mset_add_mset insert_DiffM nth_mem_mset sum_mset.insert)

lemma world_refs_put:
  assumes "i < length (peers (host w))"
  shows "world_refs (put_peer i p w) = peer_refs p +
    (\<Sum>p \<in># mset (peers (host w)) - {#peers (host w) ! i#}. peer_refs p)"
  using assms by (simp add: world_refs_def put_peer_def mset_update)

lemma grows_refl [simp]: "grows g w w"
  by (simp add: grows_def)

lemma grows_trans: "grows a w w1 \<Longrightarrow> grows b w1 w2 \<Longrightarrow> grows (a + b) w w2"
  by (auto simp: grows_def)

lemma grows_mono: "grows a w w' \<Longrightarrow> a \<le> b \<Longrightarrow> grows b w w'"
  by (auto simp: grows_def)

lemma on_peer_cases:
  assumes "on_peer i f w = Some (r, w')"
  obtains p' ps' where "i < length (peers (host w))"
    "f (peers (host w) ! i) (packets w) = Some (r, p', ps')" "w' = (put_peer i p' w)\<lparr>packets := ps'\<rparr>"
  using assms by (auto simp: on_peer_def get_peer_def split: if_splits bind_splits prod.splits)

locale refs_op =
  fixes f :: "'r peer_op" and g :: nat
  assumes keeps: "f p ps = Some (r, p', ps') \<Longrightarrow> refs_ok ps p R \<Longrightarrow> size (peer_refs p + R) + g < 2 ^ 63 \<Longrightarrow>
    refs_ok ps' p' R \<and> size (peer_refs p') \<le> size (peer_refs p) + g"
begin

lemma on_peer_grows:
  assumes "on_peer i f w = Some (r, w')"
  shows "grows g w w'"
  unfolding grows_def
proof
  assume inv: "refs_inv w \<and> load w + g < 2 ^ 63"
  let ?R = "\<Sum>p \<in># mset (peers (host w)) - {#peers (host w) ! i#}. peer_refs p"
  from assms obtain p' ps' where i: "i < length (peers (host w))"
      and f: "f (peers (host w) ! i) (packets w) = Some (r, p', ps')"
      and w': "w' = (put_peer i p' w)\<lparr>packets := ps'\<rparr>"
    by (rule on_peer_cases)
  have r: "world_refs w = peer_refs (peers (host w) ! i) + ?R" by (rule world_refs_split [OF i])
  have r': "world_refs w' = peer_refs p' + ?R"
    using world_refs_put [OF i, of p'] by (simp add: w' world_refs_def)
  have "refs_ok (packets w) (peers (host w) ! i) ?R"
    using inv i r by (simp add: refs_inv_def refs_ok_def)
  from keeps [OF f this] have ok: "refs_ok ps' p' ?R"
      and sz: "size (peer_refs p') \<le> size (peer_refs (peers (host w) ! i)) + g"
    using inv r by (auto simp: load_def)
  have "inbox w' = inbox w" by (simp add: w' put_peer_def)
  with ok sz show "refs_inv w' \<and> load w' \<le> load w + g"
    using inv i r r' unfolding refs_inv_def refs_ok_def load_def host_ok_def
    by (auto simp: w' put_peer_def dest: subsetD [OF set_update_subset_insert])
qed

end

subsection \<open>Single steps\<close>

lemma retain_keeps:
  assumes "packet_retain q ps = Some ps'" and "counts_agree ps R" and "size (add_mset q R) < 2 ^ 63"
  shows "counts_agree ps' (add_mset q R)"
proof -
  have "pheap ps q \<noteq> None"
    using assms(1) by (auto simp: packet_retain_def packet_update_def split: option.splits)
  then show ?thesis using packet_retain_agrees [OF assms(2), of q] assms(1,3) by auto
qed

lemma release_option_keeps:
  assumes "release_option x ps = Some ps'" and "counts_agree ps (option_mset x + R)"
  shows "counts_agree ps' R"
proof (cases x)
  case (Some q)
  then show ?thesis
    using assms packet_release_agrees [of ps q R] by (auto simp: release_option_def option_mset_def)
qed (use assms in \<open>simp add: release_option_def option_mset_def\<close>)

lemma counts_agree_data:
  assumes "counts_agree ps R" and "pheap ps q = Some k" and "referenceCount k' = referenceCount k"
  shows "counts_agree (ps\<lparr>pheap := (pheap ps)(q \<mapsto> k')\<rparr>) R"
  using assms by (auto simp: counts_agree_def)

lemma put_channel_refs:
  assumes "get_channel p c = Some ch"
  shows "peer_refs (put_channel c ch' p) + mset (channel_refs ch) = peer_refs p + mset (channel_refs ch')"
    and "channel_ok ch' = channel_ok ch \<Longrightarrow> channels_wf (put_channel c ch' p) = channels_wf p"
    and "channels_wf p \<Longrightarrow> channel_ok ch"
    and "channel_ok ch' \<Longrightarrow> channels_wf p \<Longrightarrow> channels_wf (put_channel c ch' p)"
proof -
  have c: "unat c < length (channels p)" and ch: "ch = channels p ! unat c"
    using assms by (auto simp: get_channel_def split: if_splits)
  show "peer_refs (put_channel c ch' p) + mset (channel_refs ch) = peer_refs p + mset (channel_refs ch')"
    using channels_refs_update [OF c, of ch']
    by (simp add: ch peer_refs_def put_channel_def outgoing_refs_def add.assoc)
  have all: "(\<forall>x \<in> set ((channels p)[unat c := ch']). channel_ok x) = (\<forall>x \<in> set (channels p). channel_ok x)"
    if "channel_ok ch' = channel_ok ch"
    using c that by (simp add: all_set_conv_all_nth nth_list_update ch) metis
  then show "channels_wf (put_channel c ch' p) = channels_wf p" if "channel_ok ch' = channel_ok ch"
    using that by (simp add: channels_wf_def put_channel_def)
  show ok: "channel_ok ch" if "channels_wf p" using c ch that by (simp add: channels_wf_def)
  show "channels_wf (put_channel c ch' p)" if "channel_ok ch'" and "channels_wf p"
    using all that ok [OF that(2)] by (simp add: channels_wf_def put_channel_def)
qed

lemma put_channel_wf:
  assumes "get_channel p c = Some ch" and "peer_wf p"
  shows "channel_ok ch' \<Longrightarrow> peer_wf (put_channel c ch' p)" and "peer_state p \<noteq> ENET_PEER_STATE_DISCONNECTED"
    and "channel_ok ch"
proof -
  show "channel_ok ch" using assms(2) put_channel_refs(3) [OF assms(1)] by (simp add: peer_wf_def)
  show d: "peer_state p \<noteq> ENET_PEER_STATE_DISCONNECTED"
    using assms by (auto simp: get_channel_def peer_wf_def slot_ok_def split: if_splits)
  then show "peer_wf (put_channel c ch' p)" if "channel_ok ch'"
    using assms(2) that put_channel_refs(4) [OF assms(1), of ch'] by (simp add: peer_wf_def slot_ok_def put_channel_def bounds_ok_def)
qed

lemma put_channel_same_refs:
  assumes "get_channel p c = Some ch" and "mset (channel_refs ch') = mset (channel_refs ch)"
  shows "peer_refs (put_channel c ch' p) = peer_refs p"
  using put_channel_refs(1) [OF assms(1), of ch'] assms(2) by simp

lemma next_sequence_numbers_refs:
  assumes "next_sequence_numbers p command = Some (rsn, usn, p')"
  shows "peer_refs p' = peer_refs p \<and> channels_wf p' = channels_wf p \<and>
    peer_state p' = peer_state p \<and> (channels p = [] \<longrightarrow> channels p' = []) \<and>
    outgoingReliableCommands p' = outgoingReliableCommands p \<and>
    outgoingUnreliableCommands p' = outgoingUnreliableCommands p \<and>
    sentReliableCommands p' = sentReliableCommands p \<and> same_bounds p p'"
proof -
  have "\<And>ch n m. get_channel p c = Some ch \<Longrightarrow>
      peer_refs (put_channel c (ch\<lparr>ch_outgoingReliableSequenceNumber := n\<rparr>) p) = peer_refs p \<and>
      peer_refs (put_channel c (ch\<lparr>ch_outgoingUnreliableSequenceNumber := m\<rparr>) p) = peer_refs p \<and>
      channels_wf (put_channel c (ch\<lparr>ch_outgoingReliableSequenceNumber := n\<rparr>) p) = channels_wf p \<and>
      channels_wf (put_channel c (ch\<lparr>ch_outgoingUnreliableSequenceNumber := m\<rparr>) p) = channels_wf p" for c
    by (auto intro!: put_channel_same_refs put_channel_refs(2) simp: channel_refs_def channel_ok_def)
  then show ?thesis using assms
    by (auto simp: next_sequence_numbers_def Let_def split: if_splits bind_splits)
      (auto simp: peer_refs_def outgoing_refs_def put_channel_def same_bounds_def channels_wf_def)
qed

subsection \<open>The operations of peer.c\<close>

lemma queue_outgoing_refs:
  assumes "enet_peer_queue_outgoing_command command packet offset len p ps = Some (r, p', ps')"
  shows "peer_refs p' = option_mset packet + peer_refs p \<and> channels_wf p' = channels_wf p \<and>
    peer_state p' = peer_state p \<and> (channels p = [] \<longrightarrow> channels p' = []) \<and> same_bounds p p' \<and>
    (case packet of None \<Rightarrow> ps' = ps | Some q \<Rightarrow> packet_retain q ps = Some ps')"
proof -
  have p0: "peer_refs (p\<lparr>outgoingDataTotal := x\<rparr>) = peer_refs p"
      "channels_wf (p\<lparr>outgoingDataTotal := x\<rparr>) = channels_wf p" for x
    by (simp_all add: peer_refs_def outgoing_refs_def channels_wf_def)
  obtain sz rsn usn p1 where sz: "enet_protocol_command_size (command_of command) = Some sz"
    and n: "next_sequence_numbers (p\<lparr>outgoingDataTotal := outgoingDataTotal p + ucast (sz + ucast len)\<rparr>)
         command = Some (rsn, usn, p1)"
    using assms by (auto simp: enet_peer_queue_outgoing_command_def split: bind_splits)
  note n1 = next_sequence_numbers_refs [OF n]
  have p1: "peer_refs p1 = peer_refs p" "channels_wf p1 = channels_wf p" "peer_state p1 = peer_state p"
      "channels p = [] \<longrightarrow> channels p1 = []" "same_bounds p p1"
    using n1 by (simp_all add: p0) (simp add: same_bounds_def)
  have push: "peer_refs (p1\<lparr>outgoingReliableCommands := outgoingReliableCommands p1 @ [oc]\<rparr>) =
        option_mset (oc_packet oc) + peer_refs p1"
      "peer_refs (p1\<lparr>outgoingUnreliableCommands := outgoingUnreliableCommands p1 @ [oc]\<rparr>) =
        option_mset (oc_packet oc) + peer_refs p1" for oc
    by (simp_all add: peer_refs_def outgoing_refs_def option_mset_def split: option.split)
  have wf: "channels_wf (p1\<lparr>outgoingReliableCommands := x\<rparr>) = channels_wf p1"
      "channels_wf (p1\<lparr>outgoingUnreliableCommands := x\<rparr>) = channels_wf p1" for x
    by (simp_all add: channels_wf_def)
  show ?thesis
    using assms sz n p1
    by (auto simp: enet_peer_queue_outgoing_command_def Let_def push wf same_bounds_def
        split: bind_splits option.splits if_splits)
qed

lemma queue_outgoing_keeps:
  assumes "enet_peer_queue_outgoing_command command packet offset len p ps = Some (r, p', ps')"
    and "refs_ok ps p R" and "size (peer_refs p + R) + size (option_mset packet) < 2 ^ 63"
    and "packet = None \<or> peer_state p \<noteq> ENET_PEER_STATE_DISCONNECTED"
  shows "refs_ok ps' p' R \<and> size (peer_refs p') \<le> size (peer_refs p) + size (option_mset packet)"
proof (cases packet)
  case None
  then show ?thesis using queue_outgoing_refs [OF assms(1)] assms(2)
    by (auto simp: refs_ok_def option_mset_def peer_wf_def slot_ok_def same_bounds_ok)
next
  case (Some q)
  then show ?thesis
    using queue_outgoing_refs [OF assms(1)] assms(2-4) retain_keeps [of q ps ps' "peer_refs p + R"]
    by (auto simp: refs_ok_def option_mset_def peer_wf_def slot_ok_def same_bounds_ok)
qed

text \<open>A control command carries no packet, and always leaves the counts alone.\<close>

lemma queue_control_keeps:
  assumes "enet_peer_queue_outgoing_command command None offset len p ps = Some (r, p', ps')"
    and "refs_ok ps p R"
  shows "refs_ok ps' p' R \<and> peer_refs p' = peer_refs p"
  using queue_outgoing_refs [OF assms(1)] assms(2)
  by (auto simp: refs_ok_def option_mset_def peer_wf_def slot_ok_def same_bounds_ok)

interpretation queue_control: refs_op "enet_peer_queue_outgoing_command command None offset len" 0
  for command offset len
  by unfold_locales (auto dest: queue_control_keeps)

lemma refs_ok_fields:
  "refs_ok ps (p\<lparr>packetThrottleInterval := a, packetThrottleAcceleration := b,
     packetThrottleDeceleration := c\<rparr>) R = refs_ok ps p R"
  "peer_refs (p\<lparr>packetThrottleInterval := a, packetThrottleAcceleration := b,
     packetThrottleDeceleration := c\<rparr>) = peer_refs p"
  by (simp_all add: refs_ok_def peer_refs_def outgoing_refs_def channels_wf_def peer_wf_def slot_ok_def bounds_ok_def)

interpretation throttle_configure: refs_op "enet_peer_throttle_configure interval acceleration deceleration" 0
  for interval acceleration deceleration
  by unfold_locales (auto simp: enet_peer_throttle_configure_def refs_ok_fields dest!: queue_control_keeps)

interpretation ping: refs_op enet_peer_ping 0
  by unfold_locales (auto simp: enet_peer_ping_def split: if_splits bind_splits dest!: queue_control_keeps)

text \<open>Induction over the fragments of a send that returns.\<close>

definition fragment_command :: "u8 \<Rightarrow> usize \<Rightarrow> u16 \<Rightarrow> u32 \<Rightarrow> usize \<Rightarrow> u32 \<Rightarrow> u32 \<Rightarrow> ENetProtocol" where
  "fragment_command c len start n fl k off =
     local_command (ENET_PROTOCOL_COMMAND_SEND_FRAGMENT OR ENET_PROTOCOL_COMMAND_FLAG_ACKNOWLEDGE) c
       (SendFragment \<lparr>frg_startSequenceNumber = start, frg_dataLength = ENET_HOST_TO_NET_16 (ucast fl),
          frg_fragmentCount = n, frg_fragmentNumber = ENET_HOST_TO_NET_32 k,
          frg_totalLength = ENET_HOST_TO_NET_32 (ucast len),
          frg_fragmentOffset = ENET_NET_TO_HOST_32 off\<rparr>)"

lemma send_fragments_induct [consumes 1, case_names stop step]:
  assumes "send_fragments packet c len start n fl k off p ps = Some (r, p', ps')"
    and stop: "\<And>fl k off p ps. \<not> (ucast off :: usize) < len \<Longrightarrow> P fl k off p ps p ps"
    and step: "\<And>fl k off p ps l q p1 ps1 p' ps'. (ucast off :: usize) < len \<Longrightarrow>
      l = (if len - ucast off < fl then len - ucast off else fl) \<Longrightarrow>
      enet_peer_queue_outgoing_command (fragment_command c len start n l k off) (Some packet) off (ucast l) p ps
        = Some (q, p1, ps1) \<Longrightarrow>
      P l (k + 1) (off + ucast l) p1 ps1 p' ps' \<Longrightarrow> P fl k off p ps p' ps'"
  shows "P fl k off p ps p' ps'"
proof -
  let ?P = "\<lambda>a b d e f fl k off p ps (r :: unit, p', ps').
    a = packet \<and> b = c \<and> d = len \<and> e = start \<and> f = n \<longrightarrow> P fl k off p ps p' ps'"
  have "?P packet c len start n fl k off p ps (r, p', ps')"
  proof (rule send_fragments.raw_induct [of ?P, OF _ assms(1)], goal_cases)
    case (1 rec a b d e f fl k off p ps y)
    obtain r p' ps' where yy: "y = (r, p', ps')" by (cases y)
    show ?case unfolding yy prod.case
    proof
      assume eq: "a = packet \<and> b = c \<and> d = len \<and> e = start \<and> f = n"
      show "P fl k off p ps p' ps'"
      proof (cases "(ucast off :: usize) < len")
        case False
        then show ?thesis using 1(2) eq stop [OF False] by (simp add: yy)
      next
        case True
        define l where "l = (if len - ucast off < fl then len - ucast off else fl)"
        from 1(2) True eq obtain q p1 ps1
          where q: "enet_peer_queue_outgoing_command (fragment_command c len start n l k off) (Some packet) off
              (ucast l) p ps = Some (q, p1, ps1)"
            and r: "rec packet c len start n l (k + 1) (off + ucast l) p1 ps1 = Some y"
          by (auto simp: Let_def l_def [symmetric] fragment_command_def split: bind_splits)
        show ?thesis using 1(1) [OF r] step [OF True l_def q] by (simp add: yy)
      qed
    qed
  qed
  then show ?thesis by simp
qed

text \<open>The arithmetic of one step: the last fragment may be shorter, and the offset does not wrap.\<close>

lemma fragment_step:
  fixes off :: u32 and len :: usize
  assumes "(ucast off :: usize) < len" and l: "l = (if len - ucast off < fl then len - ucast off else fl)"
    and "unat len < 2 ^ 32"
  shows "unat l = min (unat fl) (unat len - unat off)" and "unat off < unat len"
    and "unat (off + ucast l) = unat off + unat l" and "unat (ucast l :: u32) = unat l"
proof -
  have off: "unat (ucast off :: usize) = unat (off :: u32)" by (rule unat_ucast_up) simp
  show lt: "unat off < unat len" using assms(1) off by (simp add: word_less_nat_alt)
  have sub: "unat (len - ucast off) = unat len - unat off" using assms(1) off by (subst unat_sub) simp_all
  show m: "unat l = min (unat fl) (unat len - unat off)"
    unfolding l using sub by (auto simp: word_less_nat_alt)
  then show u: "unat (ucast l :: u32) = unat l" using assms(3) by (intro unat_ucast_down) simp
  show "unat (off + ucast l) = unat off + unat l"
    using m u lt assms(3) by (subst unat_add_lt) simp_all
qed

lemma send_fragments_short:
  assumes "send_fragments packet c len start n fl k off p ps = Some (r, p', ps')"
  shows "unat len < 2 ^ 32"
  using assms
proof (induction rule: send_fragments_induct)
  case (stop fl k off p ps)
  then have "unat len \<le> unat (ucast off :: usize)" by (simp add: word_le_nat_alt not_less)
  also have "\<dots> < 2 ^ 32" using unsigned_less [of off, where ?'a = nat] by (simp add: unat_ucast_up)
  finally show ?case .
qed

text \<open>
  Fragments: at most one for every byte that is left. A length of \<open>2 ^ 32\<close> or more is never reached.
\<close>

lemma send_fragments_keeps:
  assumes "send_fragments packet c len start n fl k off p ps = Some (r, p', ps')"
    and "refs_ok ps p R" and "size (peer_refs p + R) + (unat len - unat off) < 2 ^ 63" and "fl \<noteq> 0"
    and "peer_state p \<noteq> ENET_PEER_STATE_DISCONNECTED"
  shows "refs_ok ps' p' R \<and> size (peer_refs p') \<le> size (peer_refs p) + (unat len - unat off)"
proof -
  have len: "unat len < 2 ^ 32" by (rule send_fragments_short [OF assms(1)])
  show ?thesis
    using assms
  proof (induction rule: send_fragments_induct)
    case (stop fl k off p ps)
    then show ?case by simp
  next
    case (step fl k off p ps l q p1 ps1 p' ps')
    note a = fragment_step [OF step(1,2) len]
    have l1: "1 \<le> unat l" using a(1,2) step.prems(3) by (simp add: Suc_le_eq unat_gt_0 word_neq_0_conv)
    have "unat l \<le> unat len - unat off" unfolding a(1) by simp
    then have e: "unat len - unat off = (unat len - unat (off + ucast l)) + unat l"
      unfolding a(3) using a(2) by simp
    have one: "refs_ok ps1 p1 R" "size (peer_refs p1) \<le> size (peer_refs p) + 1"
      using queue_outgoing_keeps [OF step(3) step.prems(1)] step.prems(2,4) a(2)
      by (simp_all add: option_mset_def)
    have st: "peer_state p1 \<noteq> ENET_PEER_STATE_DISCONNECTED"
      using queue_outgoing_refs [OF step(3)] step.prems(4) by simp
    have "size (peer_refs p1 + R) + (unat len - unat (off + ucast l)) < 2 ^ 63"
      using one(2) step.prems(2) l1 unfolding e by simp
    moreover have "l \<noteq> 0" using l1 by auto
    ultimately show ?case using step.IH [OF one(1)] st one(2) l1 unfolding e by simp
  qed
qed

lemma set_packet_flags_keeps:
  "set_packet_flags q ps = Some ps' \<Longrightarrow> refs_ok ps p R \<Longrightarrow> refs_ok ps' p R"
  by (auto simp: set_packet_flags_def packet_update_def refs_ok_def intro: counts_agree_data
      split: option.splits)

lemma take_packet_keeps:
  assumes "take_packet ic ps = Some (q, ps')" and "counts_agree ps (option_mset (ic_packet ic) + R)"
  shows "counts_agree ps' R \<and> pheap ps' q \<noteq> None"
proof -
  from assms(1) have q: "ic_packet ic = Some q" and d: "packet_drop q ps = Some ps'"
    by (auto simp: take_packet_def split: bind_splits)
  have c: "counts_agree ps (add_mset q R)" using assms(2) by (simp add: q option_mset_def)
  then have "pheap ps q \<noteq> None" using counts_agreeD(1) [OF c, of q] by auto
  then show ?thesis using packet_drop_agrees [OF c] d by auto
qed

lemma receive_reliable_refs:
  "receive_reliable ch = Some (ic, ch1) \<Longrightarrow>
     mset (channel_refs ch) = option_mset (ic_packet ic) + mset (channel_refs ch1)"
  by (auto simp: receive_reliable_def channel_refs_def option_mset_def Let_def
      split: list.splits if_splits option.split)

lemma receive_unreliable_refs:
  "receive_unreliable ch = Some (ic, ch1) \<Longrightarrow>
     mset (channel_refs ch) = option_mset (ic_packet ic) + mset (channel_refs ch1)"
  by (auto simp: receive_unreliable_def channel_refs_def option_mset_def
      split: list.splits if_splits option.split)

lemma receive_channel_ok:
  "receive_reliable ch = Some (ic, ch1) \<Longrightarrow> channel_ok ch \<Longrightarrow> channel_ok ch1 \<and> ic_packet ic \<noteq> None"
  "receive_unreliable ch = Some (ic, ch1) \<Longrightarrow> channel_ok ch \<Longrightarrow> channel_ok ch1 \<and> ic_packet ic \<noteq> None"
  by (auto simp: receive_reliable_def receive_unreliable_def channel_ok_def Let_def split: list.splits if_splits)

text \<open>The packet a receive returns is still allocated: its reference has become the caller's.\<close>

lemma receive_keeps:
  assumes "enet_peer_receive c p ps = Some (r, p', ps')" and "refs_ok ps p R"
  shows "refs_ok ps' p' R \<and> size (peer_refs p') \<le> size (peer_refs p) \<and>
    (\<forall>q. r = Some q \<longrightarrow> pheap ps' q \<noteq> None)"
proof -
  obtain ch where ch: "get_channel p c = Some ch"
    using assms(1) by (auto simp: enet_peer_receive_def split: bind_splits)
  let ?sel = "case receive_unreliable ch of None \<Rightarrow> receive_reliable ch | Some r \<Rightarrow> Some r"
  show ?thesis
  proof (cases ?sel)
    case None
    then show ?thesis using assms ch by (auto simp: enet_peer_receive_def)
  next
    case (Some ich)
    obtain ic ch1 where ich: "ich = (ic, ch1)" by (cases ich)
    have m: "mset (channel_refs ch) = option_mset (ic_packet ic) + mset (channel_refs ch1)"
      using Some ich by (auto split: option.splits dest: receive_reliable_refs receive_unreliable_refs)
    have c1: "channel_ok ch1" if "peer_wf p"
      using Some ich put_channel_wf(3) [OF ch that] by (auto split: option.splits dest: receive_channel_ok)
    obtain q ps1 where t: "take_packet ic ps = Some (q, ps1)"
        and res: "r = Some q" "p' = put_channel c ch1 p" "ps' = ps1"
      using assms(1) ch Some ich by (auto simp: enet_peer_receive_def split: bind_splits)
    have "peer_refs p = option_mset (ic_packet ic) + peer_refs (put_channel c ch1 p)"
      using put_channel_refs(1) [OF ch, of ch1] by (simp add: m add.commute)
    moreover from this have "counts_agree ps (option_mset (ic_packet ic) + (peer_refs (put_channel c ch1 p) + R))"
      using assms(2) by (simp add: refs_ok_def add.assoc)
    from take_packet_keeps [OF t this] have "counts_agree ps1 (peer_refs (put_channel c ch1 p) + R)"
      "pheap ps1 q \<noteq> None" by simp_all
    ultimately show ?thesis
      using assms(2) c1 by (auto simp: res refs_ok_def put_channel_wf(1) [OF ch])
  qed
qed

interpretation receive: refs_op "enet_peer_receive c" 0 for c
  by unfold_locales (auto dest: receive_keeps)

lemma free_packet_keeps:
  assumes "free_packet x ps = Some ps'" and "counts_agree ps R"
  shows "counts_agree ps' R"
proof (cases x)
  case (Some q)
  then obtain k where k: "pheap ps q = Some k"
      and ps': "(if referenceCount k = 0 then enet_packet_destroy q ps else Some ps) = Some ps'"
    using assms(1) by (auto simp: free_packet_def split: bind_splits)
  have "referenceCount k = 0 \<Longrightarrow> q \<notin># R"
    using counts_agreeD(2) [OF assms(2) k] by (simp add: not_in_iff)
  then show ?thesis
    using ps' k assms(2) by (auto simp: enet_packet_destroy_def counts_agree_def split: if_splits)
qed (use assms in \<open>simp add: free_packet_def\<close>)

lemma refs_of_insert_at:
  "mset (refs_of f (insert_at k x xs)) = option_mset (f x) + mset (refs_of f xs)"
proof -
  have "mset (refs_of f xs) = mset (refs_of f (take k xs @ drop k xs))" by simp
  also have "\<dots> = mset (refs_of f (take k xs)) + mset (refs_of f (drop k xs))"
    by (simp only: refs_of_simps mset_append)
  finally show ?thesis by (simp add: insert_at_def option_mset_def split: option.split)
qed

lemma channel_ok_insert_at:
  "ic_packet ic \<noteq> None \<Longrightarrow> channel_ok ch \<Longrightarrow>
     channel_ok (ch\<lparr>incomingReliableCommands := insert_at k ic (incomingReliableCommands ch)\<rparr>) \<and>
     channel_ok (ch\<lparr>incomingUnreliableCommands := insert_at k ic (incomingUnreliableCommands ch)\<rparr>)"
  by (auto simp: channel_ok_def insert_at_def dest: in_set_takeD in_set_dropD)

lemma queue_incoming_keeps:
  assumes "enet_peer_queue_incoming_command command packet n p ps = Some (r, p', ps')"
    and "packet \<noteq> None" and "refs_ok ps p R" and "size (peer_refs p + R) + size (option_mset packet) < 2 ^ 63"
  shows "refs_ok ps' p' R \<and> size (peer_refs p') \<le> size (peer_refs p) + size (option_mset packet)"
proof (cases "r = None")
  case True
  then have "p' = p \<and> free_packet packet ps = Some ps'"
    using assms(1) by (auto simp: enet_peer_queue_incoming_command_def Let_def
        split: if_splits bind_splits option.splits)
  then show ?thesis using assms(3) free_packet_keeps by (auto simp: refs_ok_def)
next
  case False
  with assms(1) obtain ch k usn reliable where ch: "get_channel p (channelID_of command) = Some ch"
      and place: "incoming_place ch command = Some (reliable, k, usn)"
      and later: "peer_state p \<noteq> ENET_PEER_STATE_DISCONNECT_LATER"
    by (auto simp: enet_peer_queue_incoming_command_def Let_def split: if_splits bind_splits option.splits)
  define ic where "ic = \<lparr>ic_reliableSequenceNumber = sequence_of command,
      ic_unreliableSequenceNumber = ucast (usn AND 0xFFFF), ic_command = command, ic_fragmentCount = n,
      ic_fragmentsRemaining = n,
      ic_fragments = (if n > 0 then Some (replicate (unat ((n + 31) div 32)) 0) else None),
      ic_packet = packet\<rparr>"
  define ch1 where "ch1 = (if reliable
      then ch\<lparr>incomingReliableCommands := insert_at k ic (incomingReliableCommands ch)\<rparr>
      else ch\<lparr>incomingUnreliableCommands := insert_at k ic (incomingUnreliableCommands ch)\<rparr>)"
  have ps': "(case packet of None \<Rightarrow> Some ps | Some q \<Rightarrow> packet_retain q ps) = Some ps'"
    and p': "p' = put_channel (channelID_of command) ch1 p"
    using assms(1) ch place later
    by (auto simp: enet_peer_queue_incoming_command_def Let_def ic_def [symmetric] ch1_def
        split: bind_splits)
  have ic: "ic_packet ic = packet" by (simp add: ic_def)
  have "mset (channel_refs ch1) = option_mset packet + mset (channel_refs ch)"
    by (simp add: ch1_def channel_refs_def refs_of_insert_at ic)
  then have refs: "peer_refs p' = option_mset packet + peer_refs p"
    using put_channel_refs(1) [OF ch, of ch1] by (simp add: p')
  have "channel_ok ch1" if "peer_wf p"
    unfolding ch1_def using channel_ok_insert_at [OF _ put_channel_wf(3) [OF ch that], of ic k] assms(2) ic by simp
  then show ?thesis
    using assms(2-4) ps' put_channel_wf(1) [OF ch] retain_keeps [of _ ps ps' "peer_refs p + R"]
    by (auto simp: refs refs_ok_def p' [symmetric] option_mset_def split: option.splits)
      (simp_all add: p')
qed

interpretation queue_incoming: refs_op "enet_peer_queue_incoming_command command (Some q) n"
    "size (option_mset (Some q))" for command q n
  by unfold_locales (rule queue_incoming_keeps, simp_all)

lemma reset_queues_keeps:
  assumes "enet_peer_reset_queues p ps = Some (r, p', ps')" and "refs_ok ps p R"
  shows "refs_ok ps' p' R"
  using assms reset_queues_releases [of p ps R] by (auto simp: refs_ok_def peer_wf_def)

lemma reset_queues_empties:
  assumes "enet_peer_reset_queues p ps = Some (r, p', ps')" and "refs_ok ps p R"
  shows "p' = emptied p"
  using assms reset_queues_releases [of p ps R] by (auto simp: refs_ok_def peer_wf_def)

interpretation reset_queues: refs_op enet_peer_reset_queues 0
  by unfold_locales (auto dest: reset_queues_keeps reset_queues_empties)

lemma reset_fields_refs [simp]:
  "peer_refs (reset_fields m p) = peer_refs p" "channels_wf (reset_fields m p) = channels_wf p"
  by (simp_all add: reset_fields_def peer_refs_def outgoing_refs_def channels_wf_def)

lemma reset_fields_bounds:
  fixes m :: u32
  assumes "mtu_ok m"
  shows "bounds_ok (reset_fields m p)"
proof -
  have "unat (ucast m :: u16) = unat m"
    using assms by (intro unat_ucast_down) (simp add: mtu_ok_def word_le_nat_alt)
  then have "mtu_ok (ucast m :: u16)" using assms by (simp add: mtu_ok_def word_le_nat_alt)
  then show ?thesis by (simp add: reset_fields_def bounds_ok_def)
qed

lemma reset_keeps:
  assumes "enet_peer_reset m p ps = Some (r, p', ps')" and "refs_ok ps p R" and "mtu_ok m"
  shows "refs_ok ps' p' R \<and> p' = emptied (reset_fields m p)"
proof -
  have "channels_wf (reset_fields m p)" and "counts_agree ps (peer_refs (reset_fields m p) + R)"
    using assms(2) by (simp_all add: refs_ok_def peer_wf_def)
  from reset_queues_releases [OF this] show ?thesis
    using assms(1) reset_fields_bounds [OF assms(3)] by (auto simp: enet_peer_reset_def refs_ok_def)
qed

text \<open>The MTU a slot is reset to must be in range; that of the host always is.\<close>

interpretation reset: refs_op "\<lambda>p ps. if mtu_ok m then enet_peer_reset m p ps else None" 0 for m
  by unfold_locales (auto dest: reset_keeps split: if_splits)

interpretation queue_disconnect: refs_op "queue_disconnect flag dat" 0 for flag dat
proof
  fix p ps r p' ps' R
  assume f: "queue_disconnect flag dat p ps = Some (r, p', ps')" and ok: "refs_ok ps p R"
  from f obtain p1 ps1 q where r: "enet_peer_reset_queues p ps = Some ((), p1, ps1)"
      and q: "enet_peer_queue_outgoing_command (disconnect_command flag dat) None 0 0 p1 ps1 = Some (q, p', ps')"
    by (auto simp: queue_disconnect_def split: bind_splits)
  show "refs_ok ps' p' R \<and> size (peer_refs p') \<le> size (peer_refs p) + 0"
    using queue_control_keeps [OF q reset_queues_keeps [OF r ok]] reset_queues_empties [OF r ok] by simp
qed

interpretation send: refs_op "enet_peer_send c packet" "2 ^ 32" for c packet
proof
  fix p ps r p' ps' R
  assume f: "enet_peer_send c packet p ps = Some (r, p', ps')" and ok: "refs_ok ps p R"
    and sz: "size (peer_refs p + R) + 2 ^ 32 < 2 ^ 63"
  consider "p' = p" "ps' = ps"
    | len ps1 start n fl where "peer_state p = ENET_PEER_STATE_CONNECTED" "set_packet_flags packet ps = Some ps1" "fl \<noteq> 0"
      "send_fragments packet c len start n fl 0 0 p ps1 = Some ((), p', ps')"
    | q command len where "peer_state p = ENET_PEER_STATE_CONNECTED"
      "enet_peer_queue_outgoing_command command (Some packet) 0 len p ps = Some (q, p', ps')"
    using f by (fastforce simp: enet_peer_send_def Let_def split: if_splits bind_splits)
  then show "refs_ok ps' p' R \<and> size (peer_refs p') \<le> size (peer_refs p) + 2 ^ 32"
  proof cases
    case 1
    then show ?thesis using ok by simp
  next
    case (2 len ps1 start n fl)
    note ok1 = set_packet_flags_keeps [OF 2(2) ok]
    have "unat len < 2 ^ 32" by (rule send_fragments_short [OF 2(4)])
    then show ?thesis using send_fragments_keeps [OF 2(4) ok1 _ 2(3)] 2(1) sz by simp
  next
    case (3 q command len)
    then show ?thesis using queue_outgoing_keeps [OF 3(2) ok] sz by (auto simp: option_mset_def)
  qed
qed

subsection \<open>The operations of protocol.c on one peer\<close>

lemma remove_sent_unreliable_keeps:
  assumes "enet_protocol_remove_sent_unreliable_commands p ps = Some (r, p', ps')" and "refs_ok ps p R"
  shows "refs_ok ps' p' R \<and> size (peer_refs p') \<le> size (peer_refs p)"
proof -
  let ?q = "refs_of oc_packet (sentUnreliableCommands p)"
  from assms(1) have p': "p' = p\<lparr>sentUnreliableCommands := []\<rparr>" and
    rel: "release_all packet_release ?q ps = Some ps'"
    by (auto simp: enet_protocol_remove_sent_unreliable_commands_def reset_outgoing_all split: bind_splits)
  have sum: "peer_refs p = mset ?q + peer_refs p'" by (simp add: p' peer_refs_def outgoing_refs_def)
  then have "counts_agree ps (mset ?q + (peer_refs p' + R))"
    using assms(2) by (simp add: refs_ok_def add.assoc)
  from packets.agrees_release_all [OF this] rel show ?thesis
    using assms(2) by (auto simp: refs_ok_def sum peer_wf_def slot_ok_def)
      (simp_all add: p' channels_wf_def bounds_ok_def)
qed

interpretation remove_sent_unreliable: refs_op enet_protocol_remove_sent_unreliable_commands 0
  by unfold_locales (simp add: remove_sent_unreliable_keeps)

lemma find_sent_less: "find_sent n c q = Some k \<Longrightarrow> k < length q"
  by (induction q arbitrary: k) (auto split: if_splits)

lemma refs_of_remove_at:
  "k < length xs \<Longrightarrow> mset (refs_of f xs) = option_mset (f (xs ! k)) + mset (refs_of f (remove_at k xs))"
proof -
  assume k: "k < length xs"
  have "mset (refs_of f xs) = mset (refs_of f (take k xs @ xs ! k # drop (Suc k) xs))"
    using id_take_nth_drop [OF k] by simp
  also have "\<dots> = option_mset (f (xs ! k)) + mset (refs_of f (remove_at k xs))"
    by (simp add: remove_at_def option_mset_def split: option.split)
  finally show ?thesis .
qed

lemma remove_sent_reliable_keeps:
  assumes "enet_protocol_remove_sent_reliable_command n c p ps = Some (r, p', ps')" and "refs_ok ps p R"
  shows "refs_ok ps' p' R \<and> size (peer_refs p') \<le> size (peer_refs p)"
proof (cases "find_sent n c (sentReliableCommands p)")
  case None
  then show ?thesis using assms by (simp add: enet_protocol_remove_sent_reliable_command_def)
next
  case (Some k)
  let ?oc = "sentReliableCommands p ! k" and ?q = "remove_at k (sentReliableCommands p)"
  have k: "k < length (sentReliableCommands p)" by (rule find_sent_less [OF Some])
  have rel: "release_option (oc_packet ?oc) ps = Some ps'"
    and q: "sentReliableCommands p' = ?q" and same: "sentUnreliableCommands p' = sentUnreliableCommands p"
      "outgoingReliableCommands p' = outgoingReliableCommands p"
      "outgoingUnreliableCommands p' = outgoingUnreliableCommands p"
      "channels p' = channels p" "channelCount p' = channelCount p" "peer_state p' = peer_state p"
      "same_bounds p p'"
    using assms(1) Some
    by (auto simp: enet_protocol_remove_sent_reliable_command_def Let_def same_bounds_def
        split: bind_splits list.splits)
  have sum: "peer_refs p = option_mset (oc_packet ?oc) + peer_refs p'"
    using refs_of_remove_at [OF k, of oc_packet] by (simp add: peer_refs_def outgoing_refs_def q same)
  then have "counts_agree ps (option_mset (oc_packet ?oc) + (peer_refs p' + R))"
    using assms(2) by (simp add: refs_ok_def add.assoc)
  from release_option_keeps [OF rel this] show ?thesis
    using assms(2) sum same(7)
    by (auto simp: refs_ok_def channels_wf_def same(4-6) peer_wf_def slot_ok_def same_bounds_ok)
qed

interpretation remove_sent_reliable: refs_op "enet_protocol_remove_sent_reliable_command n c" 0 for n c
  by unfold_locales (simp add: remove_sent_reliable_keeps)

lemma refs_of_update:
  assumes "f x = f (xs ! k)"
  shows "refs_of f (xs[k := x]) = refs_of f xs"
proof (cases "k < length xs")
  case True
  let ?g = "\<lambda>x. case f x of None \<Rightarrow> [] | Some p \<Rightarrow> [p]"
  have "(map ?g xs)[k := ?g x] = map ?g xs"
    using True assms by (metis list_update_id nth_map)
  then show ?thesis by (simp add: refs_of_def map_update)
next
  case False
  then show ?thesis by (simp add: list_update_beyond)
qed

lemma store_fragment_cases:
  assumes "store_fragment c k n off len dat p ps = Some (r, p', ps')"
  obtains ch where "get_channel p c = Some ch" "p' = p" "ps' = ps"
  | ch fr q pk d ic1 where "get_channel p c = Some ch"
      "ic_fragments (incomingReliableCommands ch ! k) = Some fr"
      "unat (n div 32) < length fr" "fr ! unat (n div 32) AND push_bit (unat (n mod 32)) 1 = 0"
      "ic_packet (incomingReliableCommands ch ! k) = Some q" "pheap ps q = Some pk"
      "ic1 = (incomingReliableCommands ch ! k)\<lparr>
         ic_fragmentsRemaining := ic_fragmentsRemaining (incomingReliableCommands ch ! k) - 1,
         ic_fragments := Some (fr[unat (n div 32) := fr ! unat (n div 32) OR push_bit (unat (n mod 32)) 1])\<rparr>"
      "memcpy (pkt_data pk) (unat off) dat (unat (if (ucast (off + len) :: usize) > pkt_dataLength pk
         then ucast (pkt_dataLength pk - ucast off) else len)) = Some d"
      "p' = put_channel c (ch\<lparr>incomingReliableCommands := (incomingReliableCommands ch)[k := ic1]\<rparr>) p"
      "ps' = ps\<lparr>pheap := (pheap ps)(q \<mapsto> pk\<lparr>pkt_data := d\<rparr>)\<rparr>"
proof -
  from assms obtain ch fr where ch: "get_channel p c = Some ch"
      and fr: "ic_fragments (incomingReliableCommands ch ! k) = Some fr"
    by (auto simp: store_fragment_def Let_def split: bind_splits)
  note a = assms [unfolded store_fragment_def ch Let_def, simplified, unfolded fr, simplified]
  have w: "unat (n div 32) < length fr" using a by (auto split: if_splits)
  show thesis
  proof (cases "fr ! unat (n div 32) AND push_bit (unat (n mod 32)) 1 = 0")
    case False
    then show thesis using that(1) [OF ch] a w by (auto split: if_splits)
  next
    case True
    from a w True obtain q pk where q: "ic_packet (incomingReliableCommands ch ! k) = Some q"
        and pk: "pheap ps q = Some pk"
      by (auto split: bind_splits)
    let ?len = "if (ucast (off + len) :: usize) > pkt_dataLength pk
         then ucast (pkt_dataLength pk - ucast off) else len"
    obtain d where d: "memcpy (pkt_data pk) (unat off) dat (unat ?len) = Some d"
      using a w True by (cases "memcpy (pkt_data pk) (unat off) dat (unat ?len)") (simp_all add: q pk)
    show thesis
      by (rule that(2) [OF ch fr w True q pk refl d]) (use a w True d in \<open>simp_all add: q pk\<close>)
  qed
qed

lemma store_fragment_keeps:
  assumes "store_fragment c k n off len dat p ps = Some (r, p', ps')" and "refs_ok ps p R"
  shows "refs_ok ps' p' R \<and> peer_refs p' = peer_refs p"
proof -
  show ?thesis
  proof (cases rule: store_fragment_cases [OF assms(1)])
    case 1
    then show ?thesis using assms(2) by simp
  next
    case (2 ch fr q pk d ic1)
    have ic: "ic_packet ic1 = ic_packet (incomingReliableCommands ch ! k)" using 2(7) by simp
    have "peer_refs p' = peer_refs p"
      unfolding 2(9) by (rule put_channel_same_refs [OF 2(1)])
        (simp add: channel_refs_def refs_of_update [OF ic])
    moreover have "peer_wf p'" if "peer_wf p"
    proof -
      have "set (xs[k := x]) \<subseteq> insert x (set xs)" for xs and x :: ENetIncomingCommand by (rule set_update_subset_insert)
      then have "channel_ok (ch\<lparr>incomingReliableCommands := (incomingReliableCommands ch)[k := ic1]\<rparr>)"
        using put_channel_wf(3) [OF 2(1) that] 2(5) ic by (fastforce simp: channel_ok_def)
      then show ?thesis unfolding 2(9) by (rule put_channel_wf(1) [OF 2(1) that])
    qed
    moreover have "counts_agree ps (peer_refs p + R) \<Longrightarrow> counts_agree ps' (peer_refs p + R)"
      unfolding 2(10) by (rule counts_agree_data [OF _ 2(6)]) simp_all
    ultimately show ?thesis using assms(2) by (simp add: refs_ok_def)
  qed
qed

interpretation store_fragment: refs_op "store_fragment c k n off len dat" 0 for c k n off len dat
  by unfold_locales (simp add: store_fragment_keeps)

end
