(* ===== verification/HostRefs.thy ===== *)
theory HostRefs
  imports PeerRefs
begin

text \<open>
  Reference counts on the level of a host: every handler, every step of sending and every call of the
  application keeps the count of each packet equal to the number of queue entries that carry it.
\<close>

subsection \<open>Steps that leave the references alone\<close>

lemma grows_same:
  assumes "peers (host w') = peers (host w)" and "packets w' = packets w" and "inbox w' = inbox w"
    and "same_settings (host w) (host w')"
  shows "grows g w w'"
  using assms by (simp add: grows_def load_def refs_inv_def host_ok_def world_refs_def)

lemma update_host_same [simp]:
  "packets (update_host f w) = packets w" "inbox (update_host f w) = inbox w" "host (update_host f w) = f (host w)"
  by (simp_all add: update_host_def)

lemma get_peer_Some:
  "get_peer w i = Some p \<longleftrightarrow> i < length (peers (host w)) \<and> p = peers (host w) ! i"
  by (auto simp: get_peer_def)

lemma put_peer_simps [simp]:
  "host_mtu (host (put_peer i p w)) = host_mtu (host w)" "lastServicedPeer (host (put_peer i p w)) = lastServicedPeer (host w)"
  "packets (put_peer i p w) = packets w" "inbox (put_peer i p w) = inbox w" "peers (host (put_peer i p w)) = (peers (host w))[i := p]"
  by (simp_all add: put_peer_def)

lemma grows_put:
  assumes "get_peer w i = Some p" and "peer_refs p' = peer_refs p" and "peer_wf p \<Longrightarrow> peer_wf p'"
  shows "grows g w (put_peer i p' w)"
proof -
  have i: "i < length (peers (host w))" and p: "p = peers (host w) ! i"
    using assms(1) by (simp_all add: get_peer_Some)
  have "world_refs (put_peer i p' w) = world_refs w"
    using world_refs_put [OF i, of p'] world_refs_split [OF i] assms(2) by (simp add: p)
  then show ?thesis
    using assms(3) i unfolding grows_def load_def refs_inv_def host_ok_def
    by (auto simp: p dest: subsetD [OF set_update_subset_insert])
qed

lemma on_peer_pure:
  assumes "on_peer i (\<lambda>p ps. Some (r, f p, ps)) w = Some (r', w')"
    and "\<And>p. peer_refs (f p) = peer_refs p" and "\<And>p. peer_wf p \<Longrightarrow> peer_wf (f p)"
  shows "grows g w w'"
proof -
  from assms(1) obtain p where p: "get_peer w i = Some p" and w': "w' = put_peer i (f p) w"
    by (auto simp: on_peer_def put_peer_def split: bind_splits)
  show ?thesis unfolding w' by (rule grows_put [OF p assms(2,3)])
qed

text \<open>Fields of a peer that hold no reference.\<close>

named_theorems peer_fields

lemma peer_fields_refs [peer_fields]:
  "peer_refs (p\<lparr>peer_state := a\<rparr>) = peer_refs p"
  "peer_refs (p\<lparr>disconnectData := b\<rparr>) = peer_refs p"
  "peer_refs (p\<lparr>acknowledgements := c\<rparr>) = peer_refs p"
  "peer_refs (p\<lparr>lastSendTime := d\<rparr>) = peer_refs p"
  "peer_refs (update_packet_loss d p) = peer_refs p"
  "peer_refs (update_round_trip d e p) = peer_refs p"
  "peer_refs (enet_peer_queue_acknowledgement p f h) = peer_refs p"
  "peer_refs (verified_peer v p) = peer_refs p"
  "peer_refs (snd (enet_peer_throttle p r)) = peer_refs p"
  by (simp_all add: peer_refs_def outgoing_refs_def update_packet_loss_def enet_peer_throttle_def
      update_round_trip_def enet_peer_queue_acknowledgement_def verified_peer_def Let_def split: prod.split)

text \<open>A peer keeps its form when its state, channels and references do, or when it becomes active.\<close>

lemma peer_wf_same:
  assumes "peer_wf p" and "peer_refs p' = peer_refs p" and "channels p' = channels p"
    and "channelCount p' = channelCount p"
    and "peer_state p' = peer_state p \<or> peer_state p' \<noteq> ENET_PEER_STATE_DISCONNECTED"
    and "bounds_ok p \<Longrightarrow> bounds_ok p'"
  shows "peer_wf p'"
  using assms by (auto simp: peer_wf_def slot_ok_def channels_wf_def)

lemma peer_fields_static [simp]:
  "channels (update_packet_loss d p) = channels p"
  "channelCount (update_packet_loss d p) = channelCount p"
  "peer_state (update_packet_loss d p) = peer_state p"
  "channels (update_round_trip d e p) = channels p"
  "channelCount (update_round_trip d e p) = channelCount p"
  "peer_state (update_round_trip d e p) = peer_state p"
  "channels (enet_peer_queue_acknowledgement p f h) = channels p"
  "channelCount (enet_peer_queue_acknowledgement p f h) = channelCount p"
  "peer_state (enet_peer_queue_acknowledgement p f h) = peer_state p"
  "channels (verified_peer v p) = channels p"
  "channelCount (verified_peer v p) = channelCount p"
  "peer_state (verified_peer v p) = peer_state p"
  "channels (snd (enet_peer_throttle p r)) = channels p"
  "channelCount (snd (enet_peer_throttle p r)) = channelCount p"
  "peer_state (snd (enet_peer_throttle p r)) = peer_state p"
  by (simp_all add: update_packet_loss_def update_round_trip_def enet_peer_queue_acknowledgement_def
      verified_peer_def enet_peer_throttle_def Let_def split: prod.split)

lemma throttle_bounds:
  assumes "bounds_ok p"
  shows "bounds_ok (snd (enet_peer_throttle p rtt))"
proof -
  have l: "packetThrottle p \<le> packetThrottleLimit p" using assms by (simp add: bounds_ok_def)
  have "packetThrottle p - packetThrottleDeceleration p \<le> packetThrottleLimit p"
    if "packetThrottleDeceleration p < packetThrottle p"
    using that l by (simp add: word_le_nat_alt word_less_nat_alt unat_sub_le)
  then show ?thesis using assms by (simp add: enet_peer_throttle_def bounds_ok_def Let_def not_less)
qed

lemma clamp_windowSize_bounds:
  "ENET_PROTOCOL_MINIMUM_WINDOW_SIZE \<le> clamp_windowSize n" "clamp_windowSize n \<le> ENET_PROTOCOL_MAXIMUM_WINDOW_SIZE"
  by (auto simp: clamp_windowSize_def)

lemma clamp_mtu_bounds: "mtu_ok (clamp_mtu n)"
  by (auto simp: clamp_mtu_def mtu_ok_def)

lemma verified_bounds: "bounds_ok p \<Longrightarrow> bounds_ok (verified_peer v p)"
  using clamp_windowSize_bounds [of "ENET_NET_TO_HOST_32 (ver_windowSize v)"]
    clamp_mtu_bounds [of "ENET_NET_TO_HOST_16 (ver_mtu v)"]
  by (auto simp: verified_peer_def bounds_ok_def mtu_ok_def Let_def)

lemma peer_fields_bounds [simp]:
  "bounds_ok (p\<lparr>peer_state := a\<rparr>) = bounds_ok p"
  "bounds_ok (p\<lparr>disconnectData := b\<rparr>) = bounds_ok p"
  "bounds_ok (p\<lparr>acknowledgements := c\<rparr>) = bounds_ok p"
  "bounds_ok (p\<lparr>lastSendTime := d\<rparr>) = bounds_ok p"
  "bounds_ok (update_packet_loss d p) = bounds_ok p"
  "bounds_ok (update_round_trip d e p) = bounds_ok p"
  "bounds_ok (enet_peer_queue_acknowledgement p f h) = bounds_ok p"
  "bounds_ok (p\<lparr>lastReceiveTime := d, earliestTimeout := e\<rparr>) = bounds_ok p"
  "bounds_ok (p\<lparr>peer_address := ad, incomingDataTotal := d\<rparr>) = bounds_ok p"
  by (simp_all add: bounds_ok_def update_packet_loss_def update_round_trip_def
      enet_peer_queue_acknowledgement_def Let_def split: prod.split)

lemma peer_fields_wf [peer_fields]:
  "a \<noteq> ENET_PEER_STATE_DISCONNECTED \<Longrightarrow> peer_wf p \<Longrightarrow> peer_wf (p\<lparr>peer_state := a\<rparr>)"
  "peer_wf p \<Longrightarrow> peer_wf (p\<lparr>disconnectData := b\<rparr>)"
  "peer_wf p \<Longrightarrow> peer_wf (p\<lparr>acknowledgements := c\<rparr>)"
  "peer_wf p \<Longrightarrow> peer_wf (p\<lparr>lastSendTime := d\<rparr>)"
  "peer_wf p \<Longrightarrow> peer_wf (update_packet_loss d p)"
  "peer_wf p \<Longrightarrow> peer_wf (update_round_trip d e p)"
  "peer_wf p \<Longrightarrow> peer_wf (enet_peer_queue_acknowledgement p f h)"
  "peer_wf p \<Longrightarrow> peer_wf (verified_peer v p)"
  "peer_wf p \<Longrightarrow> peer_wf (snd (enet_peer_throttle p r))"
  by (rule peer_wf_same [of p]; simp add: peer_fields_refs throttle_bounds verified_bounds)+

lemma accept_unsequenced_refs:
  assumes "accept_unsequenced n p = Some p'"
  shows "peer_refs p' = peer_refs p \<and> (peer_wf p \<longrightarrow> peer_wf p')"
proof -
  have r: "peer_refs p' = peer_refs p" and "channels p' = channels p" "channelCount p' = channelCount p"
      "peer_state p' = peer_state p" "bounds_ok p \<Longrightarrow> bounds_ok p'"
    using assms by (auto simp: accept_unsequenced_def Let_def peer_refs_def outgoing_refs_def bounds_ok_def
        split: if_splits)
  then show ?thesis using peer_wf_same [of p p'] by simp
qed

subsection \<open>Notifications and disconnecting\<close>

lemma reset_grows:
  assumes "on_peer i (enet_peer_reset (host_mtu (host w))) w = Some (r, w')"
  shows "grows 0 w w'"
proof (cases "mtu_ok (host_mtu (host w))")
  case True
  have "on_peer i (\<lambda>p ps. if mtu_ok (host_mtu (host w)) then enet_peer_reset (host_mtu (host w)) p ps else None) w
      = Some (r, w')"
    using assms True by simp
  then show ?thesis by (rule reset.on_peer_grows)
next
  case False
  then show ?thesis by (simp add: grows_def refs_inv_def host_ok_def)
qed

lemma reset_peer_grows: "reset_peer i w = Some w' \<Longrightarrow> grows 0 w w'"
  by (auto simp: reset_peer_def intro: reset_grows)

lemma grows_after:
  "peers (host w1) = peers (host w) \<Longrightarrow> packets w1 = packets w \<Longrightarrow> inbox w1 = inbox w \<Longrightarrow>
     same_settings (host w) (host w1) \<Longrightarrow> grows g w1 w' \<Longrightarrow> grows g w w'"
  using grows_trans [OF grows_same [of w1 w 0], of g w'] by simp

lemma notify_connect_grows:
  "enet_protocol_notify_connect i event w = Some (event', w') \<Longrightarrow> grows 0 w w'"
  unfolding enet_protocol_notify_connect_def
  by (auto simp: Let_def split: bind_splits option.splits
      intro!: grows_after [OF _ _ _ _ grows_put] simp: peer_fields get_peer_Some)

lemma notify_disconnect_grows:
  assumes "enet_protocol_notify_disconnect i event w = Some (event', w')"
  shows "grows 0 w w'"
proof -
  from assms obtain p where p: "get_peer w i = Some p"
    by (auto simp: enet_protocol_notify_disconnect_def split: bind_splits)
  define w1 where "w1 = (if peer_state p \<ge> ENET_PEER_STATE_CONNECTION_PENDING
      then update_host (\<lambda>h. h\<lparr>recalculateBandwidthLimits := True\<rparr>) w else w)"
  have w1: "peers (host w1) = peers (host w)" "packets w1 = packets w" "inbox w1 = inbox w"
      "same_settings (host w) (host w1)"
    by (simp_all add: w1_def)
  have "w' = put_peer i (p\<lparr>peer_state := ENET_PEER_STATE_ZOMBIE\<rparr>) w1 \<or> reset_peer i w1 = Some w'"
    using assms p by (auto simp: enet_protocol_notify_disconnect_def Let_def w1_def [symmetric]
        split: bind_splits option.splits if_splits)
  then show ?thesis
  proof
    assume "w' = put_peer i (p\<lparr>peer_state := ENET_PEER_STATE_ZOMBIE\<rparr>) w1"
    moreover have "get_peer w1 i = Some p" using p w1 by (simp add: get_peer_Some)
    ultimately show ?thesis by (auto intro!: grows_after [OF w1 grows_put] simp: peer_fields)
  next
    assume "reset_peer i w1 = Some w'"
    then show ?thesis by (intro grows_after [OF w1] reset_peer_grows)
  qed
qed

lemma disconnect_grows:
  assumes "enet_peer_disconnect flush i dat w = Some w'"
    and "\<And>w w'. flush w = Some w' \<Longrightarrow> grows 0 w w'"
  shows "grows 0 w w'"
proof -
  from assms(1) obtain p where p: "get_peer w i = Some p"
    by (auto simp: enet_peer_disconnect_def split: bind_splits)
  consider "w' = w"
    | w1 r where "on_peer i (queue_disconnect ENET_PROTOCOL_COMMAND_FLAG_ACKNOWLEDGE dat) w = Some ((), w1)"
        "on_peer i (\<lambda>q ps. Some ((), q\<lparr>peer_state := ENET_PEER_STATE_DISCONNECTING\<rparr>, ps)) w1 = Some (r, w')"
    | w1 w2 r where "on_peer i (queue_disconnect ENET_PROTOCOL_COMMAND_FLAG_UNSEQUENCED dat) w = Some ((), w1)"
        "flush w1 = Some w2" "on_peer i (enet_peer_reset (host_mtu (host w2))) w2 = Some (r, w')"
    using assms(1) p by (auto simp: enet_peer_disconnect_def split: bind_splits if_splits)
  then show ?thesis
  proof cases
    case 2
    have "grows 0 w1 w'" by (rule on_peer_pure [OF 2(2)]) (simp_all add: peer_fields)
    then show ?thesis using grows_trans [OF queue_disconnect.on_peer_grows [OF 2(1)]] by fastforce
  next
    case 3
    have "grows 0 w2 w'" by (rule reset_grows [OF 3(3)])
    then have "grows 0 w1 w'" using grows_trans [OF assms(2) [OF 3(2)]] by fastforce
    then show ?thesis using grows_trans [OF queue_disconnect.on_peer_grows [OF 3(1)]] by fastforce
  qed simp
qed

subsection \<open>Handlers\<close>

lemma grows_bind: "grows a w w1 \<Longrightarrow> grows b w1 w2 \<Longrightarrow> a + b \<le> c \<Longrightarrow> grows c w w2"
  using grows_trans grows_mono by blast

lemma grows_packets:
  assumes "\<And>R. counts_agree (packets w) R \<Longrightarrow> counts_agree ps R"
  shows "grows 0 w (w\<lparr>packets := ps\<rparr>)"
  using assms by (simp add: grows_def load_def refs_inv_def host_ok_def world_refs_def)

lemma create_grows:
  "enet_packet_create dat len flags (packets w) = Some (q, ps) \<Longrightarrow> grows 0 w (w\<lparr>packets := ps\<rparr>)"
  by (rule grows_packets) (auto dest: counts_agree_create)

lemma receive_packet_grows:
  assumes "receive_packet i command dat len flags w = Some w'"
  shows "grows 1 w w'"
proof -
  from assms obtain q ps r where c: "enet_packet_create (Some dat) (ucast len) flags (packets w) = Some (q, ps)"
      and o: "on_peer i (enet_peer_queue_incoming_command command (Some q) 0) (w\<lparr>packets := ps\<rparr>) = Some (r, w')"
    by (auto simp: receive_packet_def split: bind_splits)
  show ?thesis
    by (rule grows_bind [OF create_grows [OF c] queue_incoming.on_peer_grows [OF o]])
      (simp add: option_mset_def)
qed

lemma send_reliable_grows:
  "enet_protocol_handle_send_reliable i command b n w = Some (r, m, w') \<Longrightarrow> grows 1 w w'"
  by (auto simp: enet_protocol_handle_send_reliable_def Let_def split: bind_splits if_splits
      dest: receive_packet_grows)

lemma send_unreliable_grows:
  "enet_protocol_handle_send_unreliable i command b n w = Some (r, m, w') \<Longrightarrow> grows 1 w w'"
  by (auto simp: enet_protocol_handle_send_unreliable_def Let_def split: bind_splits if_splits
      dest: receive_packet_grows)

lemma send_unsequenced_grows:
  assumes "enet_protocol_handle_send_unsequenced i command b n w = Some (r, m, w')"
  shows "grows 1 w w'"
proof -
  obtain p where p: "get_peer w i = Some p"
    using assms by (auto simp: enet_protocol_handle_send_unsequenced_def split: bind_splits)
  let ?len = "ENET_NET_TO_HOST_16 (suq_dataLength b)"
  note def = assms [unfolded enet_protocol_handle_send_unsequenced_def Let_def p, simplified]
  show ?thesis
  proof (cases "may_receive p command \<and> payload_fits n (unat ?len) w")
    case False
    then have "w' = w" using def by (auto split: if_splits)
    then show ?thesis by simp
  next
    case True
    show ?thesis
    proof (cases "accept_unsequenced (ENET_NET_TO_HOST_16 (suq_unsequencedGroup b)) p")
      case None
      then show ?thesis using def True by simp
    next
      case (Some p1)
      have r: "receive_packet i command (payload n w) ?len ENET_PACKET_FLAG_UNSEQUENCED (put_peer i p1 w) = Some w'"
        using def True by (auto simp: Some split: bind_splits)
      have "grows 0 w (put_peer i p1 w)"
        using accept_unsequenced_refs [OF Some] by (intro grows_put [OF p]) simp_all
      from grows_bind [OF this receive_packet_grows [OF r]] show ?thesis by simp
    qed
  qed
qed

text \<open>The first fragment of a packet creates it and queues the command that collects the others.\<close>

lemma first_fragment_grows:
  assumes "do {
      (q, ps) \<leftarrow> enet_packet_create None len flags (packets w);
      (place, w1) \<leftarrow> on_peer i (enet_peer_queue_incoming_command c2 (Some q) m) (w\<lparr>packets := ps\<rparr>);
      k \<leftarrow> place;
      (_, w2) \<leftarrow> on_peer i (store_fragment c' k n' off l' (payload n w1)) w1;
      Some (0 :: int, extra :: nat, w2) } = Some (r, e, w')"
  shows "grows 1 w w'"
proof -
  from assms obtain q ps place w1 k z where c: "enet_packet_create None len flags (packets w) = Some (q, ps)"
    and o: "on_peer i (enet_peer_queue_incoming_command c2 (Some q) m) (w\<lparr>packets := ps\<rparr>) = Some (place, w1)"
    and s: "on_peer i (store_fragment c' k n' off l' (payload n w1)) w1 = Some (z, w')"
    by (auto split: bind_splits)
  have "grows 1 w w1"
    by (rule grows_bind [OF create_grows [OF c] queue_incoming.on_peer_grows [OF o]])
      (simp add: option_mset_def)
  from grows_bind [OF this store_fragment.on_peer_grows [OF s]] show ?thesis by simp
qed

lemma next_fragment_grows:
  "on_peer i (store_fragment c k n off l dat) w = Some (r, w') \<Longrightarrow> grows 1 w w'"
  by (rule grows_mono [OF store_fragment.on_peer_grows]) simp_all

lemma send_fragment_grows:
  assumes "enet_protocol_handle_send_fragment i command b n w = Some (r, m, w')"
  shows "grows 1 w w'"
proof -
  obtain p where p: "get_peer w i = Some p"
    using assms by (auto simp: enet_protocol_handle_send_fragment_def split: bind_splits)
  note def = assms [unfolded enet_protocol_handle_send_fragment_def Let_def p, simplified]
  show ?thesis
  proof (cases "may_receive p command \<and> payload_fits n (unat (ENET_NET_TO_HOST_16 (frg_dataLength b))) w")
    case False
    then have "w' = w" using def by (auto split: if_splits)
    then show ?thesis by simp
  next
    case True
    then obtain ch where ch: "get_channel p (channelID_of command) = Some ch"
      using def by (cases "get_channel p (channelID_of command)") simp_all
    note def1 = def [unfolded ch, simplified]
    let ?start = "widen_sequence (ch_incomingReliableSequenceNumber ch)
        (ENET_NET_TO_HOST_16 (frg_startSequenceNumber b))"
    show ?thesis
    proof (cases "find_fragment_start ?start (rev (incomingReliableCommands ch))")
      case None
      show ?thesis using def1 True
        by (simp add: None del: One_nat_def split: if_splits) (erule first_fragment_grows)
    next
      case (Some k)
      show ?thesis using def1 True
        by (auto simp: Some simp del: One_nat_def split: if_splits bind_splits dest: next_fragment_grows)
    qed
  qed
qed

lemma handle_disconnect_grows:
  assumes "enet_protocol_handle_disconnect i command b w = Some (r, w')"
  shows "grows 0 w w'"
proof -
  from assms obtain w1 p w2 q where o: "on_peer i enet_peer_reset_queues w = Some ((), w1)"
      and p: "get_peer w1 i = Some p" and q: "get_peer w2 i = Some q"
      and w2: "w2 = put_peer i (p\<lparr>peer_state := ENET_PEER_STATE_ZOMBIE\<rparr>) w1 \<or>
        w2 = put_peer i (p\<lparr>peer_state := ENET_PEER_STATE_ACKNOWLEDGING_DISCONNECT\<rparr>) w1 \<or>
        reset_peer i w1 = Some w2 \<or>
        reset_peer i (update_host (\<lambda>h. h\<lparr>recalculateBandwidthLimits := True\<rparr>) w1) = Some w2"
      and w': "w' = put_peer i (q\<lparr>disconnectData := ENET_NET_TO_HOST_32 (dis_data b)\<rparr>) w2"
    by (auto simp: enet_protocol_handle_disconnect_def Let_def split: bind_splits if_splits)
  have a: "s \<noteq> ENET_PEER_STATE_DISCONNECTED \<Longrightarrow> grows 0 w1 (put_peer i (p\<lparr>peer_state := s\<rparr>) w1)" for s
    by (rule grows_put [OF p]) (simp_all add: peer_fields)
  have b: "reset_peer i (update_host (\<lambda>h. h\<lparr>recalculateBandwidthLimits := True\<rparr>) w1) = Some w2 \<Longrightarrow>
      grows 0 w1 w2"
    by (rule grows_after [OF _ _ _ _ reset_peer_grows]) simp_all
  have "grows 0 w1 w2" using w2 a b reset_peer_grows by blast
  moreover have "grows 0 w2 w'" unfolding w' by (rule grows_put [OF q]) (simp_all add: peer_fields)
  ultimately show ?thesis
    using grows_bind [OF reset_queues.on_peer_grows [OF o], of 0 w2 0] grows_bind [of 0 w w2 0 w' 0] by simp
qed

text \<open>An operation after a change of fields that hold no reference.\<close>

lemma refs_op_after:
  assumes "refs_op f g" and "\<And>p. peer_refs (h p) = peer_refs p" and "\<And>p. peer_wf p \<Longrightarrow> peer_wf (h p)"
  shows "refs_op (\<lambda>p. f (h p)) g"
proof
  fix p ps r p' ps' R
  assume f: "f (h p) ps = Some (r, p', ps')" and ok: "refs_ok ps p R" and sz: "size (peer_refs p + R) + g < 2 ^ 63"
  have "refs_ok ps (h p) R" using ok assms(2,3) by (simp add: refs_ok_def)
  from refs_op.keeps [OF assms(1) f this] show "refs_ok ps' p' R \<and> size (peer_refs p') \<le> size (peer_refs p) + g"
    using sz assms(2) by simp
qed

definition acknowledged :: "u32 \<Rightarrow> u32 \<Rightarrow> ENetPeer \<Rightarrow> ENetPeer" where
  "acknowledged now rtt p = update_round_trip now rtt
     (snd (enet_peer_throttle (p\<lparr>lastReceiveTime := now, earliestTimeout := 0\<rparr>) rtt))"

lemma acknowledged_refs:
  "peer_refs (acknowledged now rtt p) = peer_refs p" "peer_wf p \<Longrightarrow> peer_wf (acknowledged now rtt p)"
proof -
  let ?p = "p\<lparr>lastReceiveTime := now, earliestTimeout := 0\<rparr>"
  have p: "peer_refs ?p = peer_refs p" by (simp add: peer_refs_def outgoing_refs_def)
  then show "peer_refs (acknowledged now rtt p) = peer_refs p" by (simp add: acknowledged_def peer_fields)
  assume "peer_wf p"
  then have "peer_wf ?p" by (rule peer_wf_same) (simp_all add: p)
  then show "peer_wf (acknowledged now rtt p)" by (simp add: acknowledged_def peer_fields)
qed

lemma no_flush_grows: "(\<lambda>_. None) w = Some w' \<Longrightarrow> grows 0 w w'"
  by simp

lemma handle_acknowledge_grows:
  assumes "enet_protocol_handle_acknowledge event i command a w = Some (r, event', w')"
  shows "grows 0 w w'"
proof -
  let ?op = "\<lambda>now rtt n c p. enet_protocol_remove_sent_reliable_command n c (acknowledged now rtt p)"
  have op: "refs_op (?op now rtt n c) 0" for now rtt n c
    by (rule refs_op_after) (unfold_locales, simp_all add: remove_sent_reliable_keeps acknowledged_refs)
  define sent_at where "sent_at = full_sent_time (serviceTime (host w)) (ENET_NET_TO_HOST_16 (ack_receivedSentTime a))"
  note def = enet_protocol_handle_acknowledge_def Let_def sent_at_def [symmetric] acknowledged_def [symmetric]
  show ?thesis
  proof (cases "ENET_TIME_LESS (serviceTime (host w)) sent_at")
    case True
    then show ?thesis using assms unfolding def by simp
  next
    case False
    obtain m w1 where o: "on_peer i (?op (serviceTime (host w)) (ENET_TIME_DIFFERENCE (serviceTime (host w)) sent_at)
        (ENET_NET_TO_HOST_16 (ack_receivedReliableSequenceNumber a)) (channelID_of command)) w = Some (m, w1)"
      using assms False unfolding def by (auto split: bind_splits)
    obtain p where p: "get_peer w1 i = Some p"
      using assms False o unfolding def by (auto split: bind_splits)
    have "grows 0 w1 w'"
    proof -
      have d: "enet_peer_disconnect (\<lambda>_. None) i x w1 = Some w' \<Longrightarrow> grows 0 w1 w'" for x
        using disconnect_grows [of "\<lambda>_. None"] by simp
      show ?thesis
        using assms False o p unfolding def
        by (auto split: bind_splits if_splits intro: d notify_connect_grows notify_disconnect_grows)
    qed
    from grows_bind [OF refs_op.on_peer_grows [OF op o] this] show ?thesis by simp
  qed
qed

lemma verify_connect_grows:
  assumes "enet_protocol_handle_verify_connect event i v w = Some (r, event', w')"
  shows "grows 0 w w'"
proof -
  from assms obtain p where p: "get_peer w i = Some p"
    by (auto simp: enet_protocol_handle_verify_connect_def split: bind_splits)
  consider "w' = w" | "w' = put_peer i (p\<lparr>peer_state := ENET_PEER_STATE_ZOMBIE\<rparr>) w"
    | m w1 n w2 where "on_peer i (enet_protocol_remove_sent_reliable_command 1 0xFF) w = Some (m, w1)"
      "on_peer i (\<lambda>q ps. Some ((), verified_peer v q, ps)) w1 = Some (n, w2)"
      "enet_protocol_notify_connect i event w2 = Some (event', w')"
    using assms p by (auto simp: enet_protocol_handle_verify_connect_def split: bind_splits if_splits)
  then show ?thesis
  proof cases
    case 2
    then show ?thesis using grows_put [OF p] by (simp add: peer_fields)
  next
    case 3
    have "grows 0 w1 w2" by (rule on_peer_pure [OF 3(2)]) (simp_all add: peer_fields)
    from grows_bind [OF this notify_connect_grows [OF 3(3)], of 0] show ?thesis
      using grows_bind [OF remove_sent_reliable.on_peer_grows [OF 3(1)], of 0 w' 0] by simp
  qed simp
qed

subsection \<open>Taking a free slot\<close>

lemma free_slot_Some:
  "free_slot pl = Some i \<Longrightarrow> i < length pl \<and> peer_state (pl ! i) = ENET_PEER_STATE_DISCONNECTED \<and>
     (\<forall>j < i. peer_state (pl ! j) \<noteq> ENET_PEER_STATE_DISCONNECTED)"
proof (induction pl arbitrary: i)
  case (Cons p pl)
  then show ?case by (auto split: if_splits simp: nth_Cons split: nat.split)
qed simp

lemma free_slot_None:
  "free_slot pl = None \<longleftrightarrow> (\<forall>p \<in> set pl. peer_state p \<noteq> ENET_PEER_STATE_DISCONNECTED)"
  by (induction pl) auto

lemma fresh_channels_refs [simp]: "channels_refs (replicate n fresh_channel) = {#}"
  by (induction n) (simp_all add: channels_refs_def channel_refs_def fresh_channel_def)

text \<open>A slot that is taken gets fresh channels; it had no reference to lose.\<close>

lemma taken_slot:
  assumes "peer_wf p" and "peer_state p = ENET_PEER_STATE_DISCONNECTED"
    and "outgoing_refs p' = outgoing_refs p" and "channels p' = replicate (unat (channelCount p')) fresh_channel"
    and "channelCount p' \<le> 255" and "peer_state p' \<noteq> ENET_PEER_STATE_DISCONNECTED"
    and "bounds_ok p \<Longrightarrow> bounds_ok p'"
  shows "peer_refs p' = {#} \<and> peer_wf p'"
proof -
  have "mset (outgoing_refs p) = {#}"
    using assms(1,2) by (simp add: peer_wf_def slot_ok_def peer_refs_def)
  then have r: "peer_refs p' = {#}" using assms(3,4) by (simp add: peer_refs_def)
  have "unat (channelCount p') \<le> 255" using assms(5) by (simp add: word_le_nat_alt)
  then show ?thesis using r assms(1,4,6,7) by (simp add: peer_wf_def slot_ok_def channels_wf_def)
qed

lemma take_slot_grows:
  assumes "on_peer i (\<lambda>p ps. enet_peer_queue_outgoing_command (c p) None 0 0 (h p) ps) w = Some (r, w')"
    and "peer_state (peers (host w) ! i) = ENET_PEER_STATE_DISCONNECTED"
    and h: "\<And>p. peer_wf p \<Longrightarrow> peer_state p = ENET_PEER_STATE_DISCONNECTED \<Longrightarrow>
      peer_refs (h p) = {#} \<and> peer_wf (h p)"
  shows "grows 0 w w'"
proof -
  let ?f = "\<lambda>p ps. enet_peer_queue_outgoing_command (c p) None 0 0 (h p) ps"
  let ?g = "\<lambda>p ps. if peer_state p = ENET_PEER_STATE_DISCONNECTED then ?f p ps else None"
  have "refs_op ?g 0"
  proof
    fix p ps r p' ps' R
    assume g: "?g p ps = Some (r, p', ps')" and ok: "refs_ok ps p R"
    then have d: "peer_state p = ENET_PEER_STATE_DISCONNECTED" and f: "?f p ps = Some (r, p', ps')"
      by (auto split: if_splits)
    have p: "peer_wf p" "counts_agree ps (peer_refs p + R)" using ok by (simp_all add: refs_ok_def)
    have none: "peer_refs p = {#}" using p(1) d by (simp add: peer_wf_def slot_ok_def)
    have "refs_ok ps (h p) R" using p(2) h [OF p(1) d] by (simp add: refs_ok_def none)
    from queue_control_keeps [OF f this] show "refs_ok ps' p' R \<and> size (peer_refs p') \<le> size (peer_refs p) + 0"
      using h [OF p(1) d] by simp
  qed
  moreover have "on_peer i ?g w = Some (r, w')"
    using assms(1,2) by (auto simp: on_peer_def get_peer_def split: if_splits)
  ultimately show ?thesis by (rule refs_op.on_peer_grows)
qed

lemma connect_crc_ok_same:
  "connect_crc_ok at command session w = (ok, w1) \<Longrightarrow>
     peers (host w1) = peers (host w) \<and> packets w1 = packets w \<and> inbox w1 = inbox w \<and>
     same_settings (host w) (host w1)"
  by (auto simp: connect_crc_ok_def update_received_def Let_def split: if_splits)

lemma accepted_peer_fresh:
  assumes "ENET_NET_TO_HOST_32 (con_channelCount c) \<le> 255"
    and "peer_wf p" and "peer_state p = ENET_PEER_STATE_DISCONNECTED"
  shows "peer_refs (accepted_peer h c p) = {#} \<and> peer_wf (accepted_peer h c p)"
proof (rule taken_slot [OF assms(2,3)])
  show "channels (accepted_peer h c p) = replicate (unat (channelCount (accepted_peer h c p))) fresh_channel"
    by (simp add: accepted_peer_def unat_ucast_up)
  show "channelCount (accepted_peer h c p) \<le> 255"
    using assms(1) by (simp add: accepted_peer_def word_le_nat_alt unat_ucast_up)
qed (simp_all add: accepted_peer_def outgoing_refs_def bounds_ok_def clamp_windowSize_bounds clamp_mtu_bounds)

text \<open>The requests that get no answer.\<close>

definition handle_connect_refuses :: "bool \<Rightarrow> ENetProtocolConnect \<Rightarrow> world \<Rightarrow> bool" where
  "handle_connect_refuses ok c w \<longleftrightarrow> \<not> ok \<or>
     ENET_NET_TO_HOST_32 (con_channelCount c) < ENET_PROTOCOL_MINIMUM_CHANNEL_COUNT \<or>
     ENET_NET_TO_HOST_32 (con_channelCount c) > ENET_PROTOCOL_MAXIMUM_CHANNEL_COUNT \<or>
     list_ex (is_same_connection (receivedAddress (host w)) (con_sessionID c)) (peers (host w)) \<or>
     free_slot (peers (host w)) = None"

lemma handle_connect_grows:
  assumes "enet_protocol_handle_connect at command c w = Some (r, w')"
  shows "grows 0 w w'"
proof -
  obtain ok w1 where ok: "connect_crc_ok at command (con_sessionID c) w = (ok, w1)"
    by (cases "connect_crc_ok at command (con_sessionID c) w")
  note same = connect_crc_ok_same [OF ok]
  show ?thesis
  proof (cases "handle_connect_refuses ok c w1")
    case True
    then have "w' = w1"
      using assms ok by (simp add: enet_protocol_handle_connect_def handle_connect_refuses_def Let_def)
        (auto split: if_splits option.splits)
    then show ?thesis using same by (auto intro: grows_same)
  next
    case False
    let ?h = "accepted_peer (host w1) c"
    obtain i where i: "free_slot (peers (host w1)) = Some i"
      using False by (auto simp: handle_connect_refuses_def)
    let ?o = "on_peer i (\<lambda>p ps. enet_peer_queue_outgoing_command
          (verify_command (host w1) c (?h p)) None 0 0 (?h p) ps) w1"
    have "?o \<bind> (\<lambda>(_, w2). Some (Some i, w2)) = Some (r, w')"
      using assms ok False i by (simp add: enet_protocol_handle_connect_def handle_connect_refuses_def Let_def)
    then obtain q where q: "?o = Some (q, w')" by (cases ?o) auto
    have n: "ENET_NET_TO_HOST_32 (con_channelCount c) \<le> 255"
      using False by (simp add: handle_connect_refuses_def not_less)
    have "grows 0 w1 w'"
      by (rule take_slot_grows [OF q]) (use free_slot_Some [OF i] accepted_peer_fresh [OF n] in simp_all)
    then show ?thesis using same by (blast intro: grows_after)
  qed
qed

lemma clamp_channelCount_le: "clamp_channelCount n \<le> 255"
  by (simp add: clamp_channelCount_def not_less)

lemma host_connect_grows:
  assumes "enet_host_connect address n w = Some (r, w')"
  shows "grows 0 w w'"
proof (cases "free_slot (peers (host w))")
  case None
  then show ?thesis using assms by (simp add: enet_host_connect_def)
next
  case (Some i)
  obtain x w1 where x: "enet_rand w = (x, w1)" by (cases "enet_rand w")
  then have w1: "peers (host w1) = peers (host w)" "packets w1 = packets w" "inbox w1 = inbox w"
      "same_settings (host w) (host w1)"
    by (auto simp: enet_rand_def)
  let ?h = "connecting_peer (host w) address (clamp_channelCount n) x"
  let ?o = "on_peer i (\<lambda>p ps. enet_peer_queue_outgoing_command (connect_command (host w) (?h p)) None 0 0 (?h p) ps) w1"
  have "?o \<bind> (\<lambda>(_, w2). Some (Some i, w2)) = Some (r, w')"
    using assms Some x by (simp add: enet_host_connect_def Let_def)
  then obtain q where q: "?o = Some (q, w')" by (cases ?o) auto
  have fresh: "peer_refs (?h p) = {#} \<and> peer_wf (?h p)"
    if "peer_wf p" "peer_state p = ENET_PEER_STATE_DISCONNECTED" for p
    by (rule taken_slot [OF that]) (simp_all add: connecting_peer_def outgoing_refs_def clamp_channelCount_le
        bounds_ok_def clamp_windowSize_bounds)
  have "grows 0 w1 w'"
    by (rule take_slot_grows [OF q]) (use free_slot_Some [OF Some] w1 fresh in simp_all)
  then show ?thesis by (rule grows_after [OF w1])
qed

subsection \<open>A whole datagram\<close>

lemma bandwidth_limit_grows:
  assumes "enet_protocol_handle_bandwidth_limit i b w = Some (r, w')"
  shows "grows 0 w w'"
proof -
  from assms obtain p a c d where p: "get_peer w i = Some p"
      and w': "w' = put_peer i (p\<lparr>peer_incomingBandwidth := a, peer_outgoingBandwidth := c,
        windowSize := clamp_windowSize d\<rparr>) w" (is "_ = put_peer i ?q w")
    by (auto simp: enet_protocol_handle_bandwidth_limit_def Let_def split: bind_splits)
  show ?thesis unfolding w'
  proof (rule grows_put [OF p])
    show r: "peer_refs ?q = peer_refs p" by (simp add: peer_refs_def outgoing_refs_def)
    assume "peer_wf p"
    then show "peer_wf ?q"
      by (rule peer_wf_same) (simp_all add: r, simp_all add: bounds_ok_def clamp_windowSize_bounds)
  qed
qed

lemma throttle_configure_grows:
  assumes "enet_protocol_handle_throttle_configure i b w = Some (r, w')"
  shows "grows 0 w w'"
proof -
  from assms obtain p a c d where p: "get_peer w i = Some p"
      and w': "w' = put_peer i (p\<lparr>packetThrottleInterval := a, packetThrottleAcceleration := c,
        packetThrottleDeceleration := d\<rparr>) w" (is "_ = put_peer i ?q w")
    by (auto simp: enet_protocol_handle_throttle_configure_def split: bind_splits)
  show ?thesis unfolding w'
  proof (rule grows_put [OF p])
    show r: "peer_refs ?q = peer_refs p" by (simp add: peer_refs_def outgoing_refs_def)
    assume "peer_wf p"
    then show "peer_wf ?q"
      by (rule peer_wf_same) (simp_all add: r, simp_all add: bounds_ok_def clamp_windowSize_bounds)
  qed
qed

lemma handle_command_grows:
  assumes "handle_command peer at n command event w = Some (r, extra, peer', event', w')"
  shows "grows 1 w w'"
proof -
  have up: "grows 0 w w' \<Longrightarrow> grows 1 w w'" by (erule grows_mono) simp
  show ?thesis
    using assms unfolding handle_command_def
    by (auto simp del: One_nat_def split: protocol_body.splits option.splits bind_splits
        intro: up bandwidth_limit_grows throttle_configure_grows handle_connect_grows handle_acknowledge_grows verify_connect_grows
          handle_disconnect_grows send_reliable_grows send_unreliable_grows send_unsequenced_grows
          send_fragment_grows)
qed

lemma acknowledge_command_grows:
  "acknowledge_command flags peer command w = Some (stop, w') \<Longrightarrow> grows 0 w w'"
  unfolding acknowledge_command_def
  by (auto simp: Let_def peer_fields split: option.splits if_splits bind_splits intro!: grows_put)

text \<open>
  Induction over the commands of a datagram: the loop ends before a command, or after one that failed or
  that no acknowledgement can answer, or goes on behind it.
\<close>

lemma command_loop_induct [consumes 1, case_names stop failed left more]:
  assumes "command_loop len flags peer cur event w = Some (event', w')"
    and stop: "\<And>cur w. P cur w w"
    and failed: "\<And>peer cur n command event f w r extra peer1 event1 w2. cur < len \<Longrightarrow>
      handle_command peer cur n command event (update_received f w) = Some (r, extra, peer1, event1, w2) \<Longrightarrow> P cur w w2"
    and left: "\<And>peer cur n command event f w r extra peer1 event1 w2 w3. cur < len \<Longrightarrow>
      handle_command peer cur n command event (update_received f w) = Some (r, extra, peer1, event1, w2) \<Longrightarrow>
      acknowledge_command flags peer1 command w2 = Some (True, w3) \<Longrightarrow> P cur w w3"
    and more: "\<And>peer cur n command event f w r extra peer1 event1 w2 w3 w'. cur < len \<Longrightarrow> cur < n \<Longrightarrow>
      handle_command peer cur n command event (update_received f w) = Some (r, extra, peer1, event1, w2) \<Longrightarrow>
      acknowledge_command flags peer1 command w2 = Some (False, w3) \<Longrightarrow> P (n + extra) w3 w' \<Longrightarrow> P cur w w'"
  shows "P cur w w'"
  using assms
proof (induction len flags peer cur event w rule: command_loop.induct)
  case (1 len flags peer cur event w)
  define number where "number = receivedData (host w) ! cur AND ENET_PROTOCOL_COMMAND_MASK"
  define sz where "sz = unat (commandSizes ! unat number)"
  define f where "f = store_sequence cur (ENET_NET_TO_HOST_16 (load16 (receivedData (host w)) (cur + 2)))"
  define command where "command = load_command (receivedData (host (update_received f w))) cur"
  note defs = number_def [symmetric] sz_def [symmetric] f_def [symmetric] command_def [symmetric]
  show ?case
  proof (cases "cur \<ge> len \<or> cur + 4 > len \<or> unat number \<ge> ENET_PROTOCOL_COMMAND_COUNT \<or> sz = 0 \<or>
      cur + sz > len \<or> (peer = None \<and> number \<noteq> ENET_PROTOCOL_COMMAND_CONNECT)")
    case True
    then have "w' = w"
      using "1.prems"(1) by (subst (asm) command_loop.simps) (auto simp: Let_def defs split: if_splits)
    then show ?thesis using "1.prems"(2) by simp
  next
    case False
    note loop = "1.prems"(1) [unfolded command_loop.simps [of len flags peer cur], simplified Let_def defs]
    obtain r extra peer1 event1 w2 where h: "handle_command peer cur (cur + sz) command event (update_received f w) =
        Some (r, extra, peer1, event1, w2)"
      using loop False by (auto split: option.splits)
    have cur: "cur < len" "cur < cur + sz" using False by auto
    show ?thesis
    proof (cases "r \<noteq> 0")
      case True
      then have "w' = w2" using loop False h by (auto split: if_splits)
      then show ?thesis using "1.prems"(3) [OF cur(1) h] by simp
    next
      case r: False
      obtain stop w3 where a: "acknowledge_command flags peer1 command w2 = Some (stop, w3)"
        using loop False h r by (auto split: option.splits if_splits)
      show ?thesis
      proof (cases stop)
        case True
        then have "w' = w3" using loop False h r a by (auto split: if_splits)
        then show ?thesis using "1.prems"(4) [OF cur(1) h] a True by simp
      next
        case stop: False
        have rec: "command_loop len flags peer1 (cur + sz + extra) event1 w3 = Some (event', w')"
          using loop False h r a stop by (auto split: if_splits)
        have "P (cur + sz + extra) w3 w'"
          by (rule "1.IH" [OF _ number_def _ sz_def _ _ _ command_def h refl refl refl refl _ a refl stop rec "1.prems"(2-5)])
            (use False r in \<open>auto simp: f_def\<close>)
        then show ?thesis using "1.prems"(5) [OF cur h] a stop by simp
      qed
    qed
  qed
qed

lemma received_command_grows:
  assumes "handle_command peer cur n command event (update_received f w) = Some (r, extra, peer1, event1, w2)"
  shows "grows 1 w w2"
proof -
  have "grows 0 w (update_received f w)" by (rule grows_same) (simp_all add: update_received_def)
  from grows_trans [OF this handle_command_grows [OF assms]] show ?thesis by simp
qed

lemma command_loop_grows:
  "command_loop len flags peer cur event w = Some (event', w') \<Longrightarrow> grows (len - cur) w w'"
proof (induction rule: command_loop_induct)
  case (failed peer cur n command event f w r extra peer1 event1 w2)
  from grows_mono [OF received_command_grows [OF failed(2)]] failed(1) show ?case by auto
next
  case (left peer cur n command event f w r extra peer1 event1 w2 w3)
  from grows_bind [OF received_command_grows [OF left(2)] acknowledge_command_grows [OF left(3)]] left(1)
  show ?case by auto
next
  case (more peer cur n command event f w r extra peer1 event1 w2 w3 w')
  from grows_bind [OF received_command_grows [OF more(3)] acknowledge_command_grows [OF more(4)], of 1]
  have "grows 1 w w3" by simp
  from grows_bind [OF this more(5)] more(1,2) show ?case by auto
qed simp

lemma packet_crc_ok_same:
  "packet_crc_ok p w = (ok, w1) \<Longrightarrow> peers (host w1) = peers (host w) \<and> packets w1 = packets w \<and>
     inbox w1 = inbox w \<and> same_settings (host w) (host w1) \<and> receivedDataLength (host w1) = receivedDataLength (host w)"
  by (auto simp: packet_crc_ok_def update_received_def Let_def split: if_splits)

lemma sender_fields [peer_fields]:
  "peer_refs (p\<lparr>peer_address := a, incomingDataTotal := n\<rparr>) = peer_refs p"
  "peer_wf p \<Longrightarrow> peer_wf (p\<lparr>peer_address := a, incomingDataTotal := n\<rparr>)"
proof -
  show r: "peer_refs (p\<lparr>peer_address := a, incomingDataTotal := n\<rparr>) = peer_refs p"
    by (simp add: peer_refs_def outgoing_refs_def)
  assume "peer_wf p"
  then show "peer_wf (p\<lparr>peer_address := a, incomingDataTotal := n\<rparr>)"
    by (rule peer_wf_same) (simp_all add: r)
qed

lemma identify_sender_cases:
  assumes "identify_sender w = (r, w')"
  obtains "w' = w" "r = None \<or> r = Some None"
  | i p ok where "i < peerCount (host w)" "p = peers (host w) ! i" "packet_crc_ok p w = (ok, w')" "\<not> ok"
      "r = None"
  | i p w1 a n where "i < peerCount (host w)" "p = peers (host w) ! i" "packet_crc_ok p w = (True, w1)"
      "w' = put_peer i (p\<lparr>peer_address := a, incomingDataTotal := n\<rparr>) w1" "r = Some (Some i)"
      "peer_state p \<noteq> ENET_PEER_STATE_DISCONNECTED" "peer_state p \<noteq> ENET_PEER_STATE_ZOMBIE"
      "i = unat (ENET_NET_TO_HOST_16 (ph_peerID (received_header w)) AND NOT ENET_PROTOCOL_HEADER_PEER_MASK)"
proof -
  let ?id = "ENET_NET_TO_HOST_16 (ph_peerID (received_header w)) AND NOT ENET_PROTOCOL_HEADER_PEER_MASK"
  let ?i = "unat ?id" let ?p = "peers (host w) ! ?i"
  note def = assms [unfolded identify_sender_def Let_def]
  show thesis
  proof (cases "?id = ENET_PROTOCOL_MAXIMUM_PEER_ID \<or> ?i \<ge> peerCount (host w) \<or>
      peer_state ?p = ENET_PEER_STATE_DISCONNECTED \<or> peer_state ?p = ENET_PEER_STATE_ZOMBIE \<or>
      (addr_host (receivedAddress (host w)) \<noteq> addr_host (peer_address ?p) \<and>
       addr_host (peer_address ?p) \<noteq> ENET_HOST_BROADCAST)")
    case True
    show thesis by (rule that(1)) (use True def in \<open>auto split: if_splits\<close>)
  next
    case False
    obtain ok w1 where crc: "packet_crc_ok ?p w = (ok, w1)" by (cases "packet_crc_ok ?p w")
    show thesis
    proof (cases ok)
      case True
      show thesis
        by (rule that(3) [of ?i ?p w1]) (use True False def crc in \<open>auto split: if_splits\<close>)
    next
      case ok: False
      show thesis by (rule that(2) [of ?i ?p ok]) (use ok False def crc in \<open>auto split: if_splits\<close>)
    qed
  qed
qed

lemma identify_sender_grows:
  assumes "identify_sender w = (r, w')"
  shows "grows 0 w w'"
proof (cases rule: identify_sender_cases [OF assms])
  case (2 i p ok)
  then show ?thesis using packet_crc_ok_same [OF 2(3)] by (auto intro: grows_same)
next
  case (3 i p w1 a n)
  note same = packet_crc_ok_same [OF 3(3)]
  have "get_peer w1 i = Some p" using 3(1,2) same by (simp add: get_peer_Some)
  from grows_put [OF this] have "grows 0 w1 w'" unfolding 3(4) by (simp add: peer_fields)
  then show ?thesis using same by (blast intro: grows_after)
qed simp

lemma identify_sender_length:
  "identify_sender w = (r, w') \<Longrightarrow> receivedDataLength (host w') = receivedDataLength (host w)"
  by (erule identify_sender_cases) (auto simp: put_peer_def dest: packet_crc_ok_same)

lemma handle_incoming_commands_grows:
  assumes "enet_protocol_handle_incoming_commands event w = Some (r, event', w')"
  shows "grows (unat (receivedDataLength (host w))) w w'"
proof -
  let ?g = "unat (receivedDataLength (host w))"
  obtain s w1 where s: "identify_sender w = (s, w1)" by (cases "identify_sender w")
  have g1: "grows 0 w w1" by (rule identify_sender_grows [OF s])
  consider "w' = w" | "w' = w1"
    | flags peer cur event1 where "command_loop ?g flags peer cur event w1 = Some (event1, w')"
    using assms s identify_sender_length [OF s]
    by (cases s) (auto simp: enet_protocol_handle_incoming_commands_def Let_def split: if_splits bind_splits)
  then show ?thesis
  proof cases
    case 2
    then show ?thesis using g1 by (auto intro: grows_mono)
  next
    case (3 flags peer cur event1)
    from grows_bind [OF g1 command_loop_grows [OF 3], of ?g] show ?thesis by simp
  qed simp
qed

text \<open>A datagram that is received leaves the socket, and adds at most its length in references.\<close>

lemma socket_receive_load:
  assumes "enet_socket_receive w = (n, w')"
  shows "peers (host w') = peers (host w) \<and> packets w' = packets w \<and>
    same_settings (host w) (host w') \<and> pending_bytes (inbox w') + nat n \<le> pending_bytes (inbox w)"
  using assms by (auto simp: enet_socket_receive_def update_received_def Let_def
      split: list.splits arrival.splits if_splits)

lemma grows_load:
  assumes "peers (host w1) = peers (host w)" and "packets w1 = packets w"
    and "pending_bytes (inbox w1) + k \<le> pending_bytes (inbox w)" and "same_settings (host w) (host w1)"
    and "grows g w1 w'" and "g \<le> k"
  shows "grows 0 w w'"
  using assms by (auto simp: grows_def load_def refs_inv_def host_ok_def world_refs_def)

lemma receive_loop_grows:
  "receive_loop n event w = Some (r, event', w') \<Longrightarrow> grows 0 w w'"
proof (induction n arbitrary: event w)
  case (Suc n)
  obtain len w1 where s: "enet_socket_receive w = (len, w1)" by (cases "enet_socket_receive w")
  note same = socket_receive_load [OF s]
  let ?w = "update_host (\<lambda>h. h\<lparr>receivedDataLength := of_int len\<rparr>) w1"
  show ?case
  proof (cases "len \<le> 0")
    case True
    then have "w' = w1" using Suc.prems s by (auto split: if_splits)
    then show ?thesis using same grows_load [of w1 w 0 0 w'] by simp
  next
    case False
    obtain q event1 w2 where h: "enet_protocol_handle_incoming_commands event ?w = Some (q, event1, w2)"
      using Suc.prems s False by (auto split: bind_splits)
    have "unat (of_nat (nat len) :: usize) \<le> nat len" by (simp add: unat_of_nat take_bit_nat_less_eq_self)
    then have len: "unat (of_int len :: usize) \<le> nat len" using False by simp
    have "grows 0 w w2"
      by (rule grows_load [of ?w w "nat len", OF _ _ _ _ handle_incoming_commands_grows [OF h]])
        (use same len in simp_all)
    moreover have "w' = w2 \<or> receive_loop n event1 w2 = Some (r, event', w')"
      using Suc.prems s False h by (auto split: if_splits)
    ultimately show ?thesis using Suc.IH grows_bind [of 0 w w2 0 w' 0] by auto
  qed
qed simp

lemma receive_incoming_commands_grows:
  "enet_protocol_receive_incoming_commands event w = Some (r, event', w') \<Longrightarrow> grows 0 w w'"
  unfolding enet_protocol_receive_incoming_commands_def by (rule receive_loop_grows)

end
