(* ===== verification/SendRefs.thy ===== *)
theory SendRefs
  imports HostRefs
begin

text \<open>
  Reference counts on the level of a host, continued: sending, and the calls of the application. The
  section ends with the runs of a program that uses the library.
\<close>

subsection \<open>Sending\<close>

text \<open>Filling a datagram replaces one peer, and the host without its peers.\<close>

lemma grows_fill:
  assumes p: "get_peer w i = Some p" and h: "peers h1 = peers (host w) \<and> same_settings (host w) h1"
    and keeps: "\<And>R. refs_ok (packets w) p R \<Longrightarrow> refs_ok ps1 p1 R \<and> size (peer_refs p1) \<le> size (peer_refs p)"
  shows "grows 0 w (put_peer i p1 (w\<lparr>host := h1, packets := ps1\<rparr>))"
proof -
  let ?f = "\<lambda>q ps. if q = p \<and> ps = packets w then Some ((), p1, ps1) else None"
  have "refs_op ?f 0" by unfold_locales (auto dest: keeps split: if_splits)
  moreover have "on_peer i ?f w = Some ((), (put_peer i p1 w)\<lparr>packets := ps1\<rparr>)"
    using p by (simp add: on_peer_def)
  ultimately have "grows 0 w ((put_peer i p1 w)\<lparr>packets := ps1\<rparr>)" by (rule refs_op.on_peer_grows)
  moreover have "grows 0 ((put_peer i p1 w)\<lparr>packets := ps1\<rparr>) (put_peer i p1 (w\<lparr>host := h1, packets := ps1\<rparr>))"
    by (rule grows_same) (use h in \<open>simp_all add: put_peer_def\<close>)
  ultimately show ?thesis using grows_bind [of 0 _ _ 0 _ 0] by simp
qed

lemma peers_add [simp]:
  "peers (add_command c n h) = peers h" "peers (add_data q off m h) = peers h"
  "host_mtu (add_command c n h) = host_mtu h" "host_mtu (add_data q off m h) = host_mtu h"
  "lastServicedPeer (add_command c n h) = lastServicedPeer h" "lastServicedPeer (add_data q off m h) = lastServicedPeer h"
  by (simp_all add: add_command_def add_data_def)

lemma send_acknowledgements_refs:
  "send_acknowledgements_loop as h p = (h', p') \<Longrightarrow>
     peers h' = peers h \<and> same_settings h h' \<and> peer_refs p' = peer_refs p \<and>
     (peer_wf p \<longrightarrow> peer_wf p')"
  by (induction as h p rule: send_acknowledgements_loop.induct)
    (auto simp: peer_fields split: if_splits)

lemma fill_acknowledgements_grows:
  assumes "fill_acknowledgements i w = Some w'"
  shows "grows 0 w w'"
proof -
  obtain p where p: "get_peer w i = Some p"
    using assms by (auto simp: fill_acknowledgements_def split: bind_splits)
  obtain h1 p1 where s: "enet_protocol_send_acknowledgements (host w) p = (h1, p1)"
    by (cases "enet_protocol_send_acknowledgements (host w) p")
  note same = send_acknowledgements_refs [OF s [unfolded enet_protocol_send_acknowledgements_def]]
  have "w' = w \<or> w' = put_peer i p1 (w\<lparr>host := h1\<rparr>)"
    using assms p s by (auto simp: fill_acknowledgements_def split: if_splits)
  moreover have "grows 0 w (put_peer i p1 (w\<lparr>host := h1, packets := packets w\<rparr>))"
    by (rule grows_fill [OF p]) (use same in \<open>auto simp: refs_ok_def\<close>)
  ultimately show ?thesis by auto
qed

subsubsection \<open>Unreliable commands\<close>

lemma outgoing_unreliable_front:
  "peer_refs (p\<lparr>outgoingUnreliableCommands := oc # rest\<rparr>) =
     option_mset (oc_packet oc) + peer_refs (p\<lparr>outgoingUnreliableCommands := rest\<rparr>)"
  by (simp add: peer_refs_def outgoing_refs_def option_mset_def split: option.split)

lemma refs_ok_same:
  assumes "refs_ok ps p R" and "peer_refs p' = peer_refs p" and "channels p' = channels p"
    and "channelCount p' = channelCount p"
    and "peer_state p' = peer_state p \<or> peer_state p' \<noteq> ENET_PEER_STATE_DISCONNECTED"
    and "bounds_ok p \<Longrightarrow> bounds_ok p'"
  shows "refs_ok ps p' R"
  using assms peer_wf_same [of p p'] by (simp add: refs_ok_def)

lemma peer_wf_fewer:
  assumes "peer_wf p" and "peer_refs p' \<subseteq># peer_refs p" and "channels p' = channels p"
    and "channelCount p' = channelCount p" and "peer_state p' = peer_state p"
    and "bounds_ok p \<Longrightarrow> bounds_ok p'"
  shows "peer_wf p'"
  using assms by (auto simp: peer_wf_def slot_ok_def channels_wf_def)

text \<open>Induction over a run of the loop over the unreliable commands.\<close>

definition unreliable_fits :: "ENetHost \<Rightarrow> ENetPeer \<Rightarrow> usize \<Rightarrow> ENetPacket option \<Rightarrow> bool" where
  "unreliable_fits h p sz packet \<longleftrightarrow>
     commandCount h < length (commands h) \<and> Suc (bufferCount h) < length (buffers h) \<and> sz \<le> room h p \<and>
     (case packet of None \<Rightarrow> True | Some k \<Rightarrow> sz + pkt_dataLength k \<le> room h p)"

lemma send_unreliable_induct [consumes 1, case_names finished full control drop send]:
  assumes "send_unreliable_loop q h p ps = Some (h', p', ps')"
    and "\<And>h p ps. P [] h p ps h (p\<lparr>outgoingUnreliableCommands := []\<rparr>) ps"
    and "\<And>oc rest h p ps. P (oc # rest) h p ps (h\<lparr>continueSending := True\<rparr>)
      (p\<lparr>outgoingUnreliableCommands := oc # rest\<rparr>) ps"
    and "\<And>oc rest h p ps sz h' p' ps'. enet_protocol_command_size (command_of (oc_command oc)) = Some sz \<Longrightarrow>
      unreliable_fits h p sz None \<Longrightarrow> oc_packet oc = None \<Longrightarrow>
      P rest (add_command (oc_command oc) sz h) p ps h' p' ps' \<Longrightarrow> P (oc # rest) h p ps h' p' ps'"
    and "\<And>oc rest h p ps q k ps1 h' p' ps'. oc_packet oc = Some q \<Longrightarrow> pheap ps q = Some k \<Longrightarrow> throttled p \<Longrightarrow>
      packet_release q ps = Some ps1 \<Longrightarrow>
      P rest h (p\<lparr>packetThrottleCounter := throttle_counter p\<rparr>) ps1 h' p' ps' \<Longrightarrow> P (oc # rest) h p ps h' p' ps'"
    and "\<And>oc rest h p ps q k sz h' p' ps'. enet_protocol_command_size (command_of (oc_command oc)) = Some sz \<Longrightarrow>
      oc_packet oc = Some q \<Longrightarrow> pheap ps q = Some k \<Longrightarrow> \<not> throttled p \<Longrightarrow> unreliable_fits h p sz (Some k) \<Longrightarrow>
      P rest (add_data q 0 (pkt_dataLength k) (add_command (oc_command oc) sz h))
        (p\<lparr>packetThrottleCounter := throttle_counter p, sentUnreliableCommands := sentUnreliableCommands p @ [oc]\<rparr>)
        ps h' p' ps' \<Longrightarrow> P (oc # rest) h p ps h' p' ps'"
  shows "P q h p ps h' p' ps'"
  using assms(1)
proof (induction q arbitrary: h p ps)
  case Nil
  then show ?case using assms(2) by auto
next
  case (Cons oc rest)
  obtain sz packet where sz: "enet_protocol_command_size (command_of (oc_command oc)) = Some sz"
      and pk: "command_packet oc ps = Some packet"
    using Cons.prems by (auto split: bind_splits)
  note step = Cons.prems [unfolded send_unreliable_loop.simps sz pk, simplified]
  have fits: "\<not> (commandCount h \<ge> length (commands h) \<or> Suc (bufferCount h) \<ge> length (buffers h) \<or>
        room h p < sz \<or> (case packet of None \<Rightarrow> False | Some k \<Rightarrow> room h p < sz + pkt_dataLength k)) \<longleftrightarrow>
      unreliable_fits h p sz packet"
    by (auto simp: unreliable_fits_def not_le not_less split: option.split)
  show ?case
  proof (cases "unreliable_fits h p sz packet")
    case False
    then show ?thesis using step fits assms(3) by auto
  next
    case True
    show ?thesis
    proof (cases packet)
      case None
      then have none: "oc_packet oc = None"
        using pk by (auto simp: command_packet_def split: option.splits)
      have "send_unreliable_loop rest (add_command (oc_command oc) sz h) p ps = Some (h', p', ps')"
        using step fits True None by simp
      from Cons.IH [OF this] show ?thesis using assms(4) [OF sz _ none] True None by simp
    next
      case (Some k)
      then obtain q where q: "oc_packet oc = Some q" "pheap ps q = Some k"
        using pk by (auto simp: command_packet_def split: option.splits)
      show ?thesis
      proof (cases "throttled p")
        case throttled: True
        then obtain ps1 where rel: "packet_release q ps = Some ps1"
          and l: "send_unreliable_loop rest h (p\<lparr>packetThrottleCounter := throttle_counter p\<rparr>) ps1 = Some (h', p', ps')"
          using step fits True Some q by (auto simp: Let_def release_option_def split: bind_splits)
        show ?thesis by (rule assms(5) [OF q throttled rel Cons.IH [OF l]])
      next
        case False
        have l: "send_unreliable_loop rest (add_data q 0 (pkt_dataLength k) (add_command (oc_command oc) sz h))
            (p\<lparr>packetThrottleCounter := throttle_counter p, sentUnreliableCommands := sentUnreliableCommands p @ [oc]\<rparr>)
            ps = Some (h', p', ps')"
          using step fits True Some q False by (simp add: Let_def)
        show ?thesis by (rule assms(6) [OF sz q False _ Cons.IH [OF l]]) (use True Some in simp)
      qed
    qed
  qed
qed

lemma throttle_counter_bound: "throttle_counter p < 32"
  by (simp add: throttle_counter_def word_less_nat_alt unat_mod)

lemma send_unreliable_host:
  "send_unreliable_loop q h p ps = Some (h', p', ps') \<Longrightarrow> peers h' = peers h \<and> same_settings h h'"
  by (induction rule: send_unreliable_induct) simp_all

lemma send_unreliable_keeps:
  "send_unreliable_loop q h p ps = Some (h', p', ps') \<Longrightarrow>
     refs_ok ps (p\<lparr>outgoingUnreliableCommands := q\<rparr>) R \<Longrightarrow>
     refs_ok ps' p' R \<and> size (peer_refs p') \<le> size (peer_refs (p\<lparr>outgoingUnreliableCommands := q\<rparr>))"
proof (induction rule: send_unreliable_induct)
  case (control oc rest h p ps sz h' p' ps')
  have "refs_ok ps (p\<lparr>outgoingUnreliableCommands := rest\<rparr>) R"
    by (rule refs_ok_same [OF control.prems])
      (simp_all add: outgoing_unreliable_front control option_mset_def bounds_ok_def)
  from control.IH [OF this] show ?case by (simp add: outgoing_unreliable_front)
next
  case (drop oc rest h p ps q k ps1 h' p' ps')
  let ?pc = "p\<lparr>packetThrottleCounter := throttle_counter p\<rparr>"
  have pc: "peer_refs (?pc\<lparr>outgoingUnreliableCommands := rest\<rparr>) = peer_refs (p\<lparr>outgoingUnreliableCommands := rest\<rparr>)"
    by (simp add: peer_refs_def outgoing_refs_def)
  have wf: "peer_wf (?pc\<lparr>outgoingUnreliableCommands := rest\<rparr>)"
    by (rule peer_wf_fewer [of "p\<lparr>outgoingUnreliableCommands := oc # rest\<rparr>"])
      (use drop.prems in \<open>simp_all add: refs_ok_def outgoing_unreliable_front pc bounds_ok_def throttle_counter_bound\<close>)
  have "counts_agree ps (option_mset (Some q) + (peer_refs (p\<lparr>outgoingUnreliableCommands := rest\<rparr>) + R))"
    using drop.prems drop.hyps(1) by (simp add: refs_ok_def outgoing_unreliable_front add.assoc)
  from release_option_keeps [OF _ this, of ps1] drop.hyps(4)
  have "counts_agree ps1 (peer_refs (p\<lparr>outgoingUnreliableCommands := rest\<rparr>) + R)"
    by (simp add: release_option_def)
  with wf have "refs_ok ps1 (?pc\<lparr>outgoingUnreliableCommands := rest\<rparr>) R" by (simp add: refs_ok_def pc)
  from drop.IH [OF this] show ?case by (simp add: outgoing_unreliable_front pc)
next
  case (send oc rest h p ps q k sz h' p' ps')
  let ?p = "p\<lparr>packetThrottleCounter := throttle_counter p, sentUnreliableCommands := sentUnreliableCommands p @ [oc]\<rparr>"
  have refs: "peer_refs (?p\<lparr>outgoingUnreliableCommands := rest\<rparr>) = peer_refs (p\<lparr>outgoingUnreliableCommands := oc # rest\<rparr>)"
    by (simp add: peer_refs_def outgoing_refs_def split: option.split)
  have "refs_ok ps (?p\<lparr>outgoingUnreliableCommands := rest\<rparr>) R"
    by (rule refs_ok_same [OF send.prems refs]) (simp_all add: bounds_ok_def throttle_counter_bound)
  from send.IH [OF this] show ?case by (simp add: refs)
qed simp_all

lemma out_unreliable_grows:
  assumes "enet_protocol_send_unreliable_outgoing_commands i w = Some w'"
  shows "grows 0 w w'"
proof -
  from assms obtain p where p: "get_peer w i = Some p"
    by (auto simp: enet_protocol_send_unreliable_outgoing_commands_def split: bind_splits)
  from assms p obtain h1 p1 ps1
    where s: "send_unreliable_loop (outgoingUnreliableCommands p) (host w) p (packets w) = Some (h1, p1, ps1)"
    by (auto simp: enet_protocol_send_unreliable_outgoing_commands_def split: bind_splits)
  let ?w = "put_peer i p1 (w\<lparr>host := h1, packets := ps1\<rparr>)"
  have k: "refs_ok (packets w) p R \<Longrightarrow> refs_ok ps1 p1 R \<and>
      size (peer_refs p1) \<le> size (peer_refs p)" for R
    using send_unreliable_keeps [OF s, of R] by simp
  have h: "peers h1 = peers (host w) \<and> same_settings (host w) h1" using send_unreliable_host [OF s] .
  have g: "grows 0 w ?w" by (rule grows_fill [OF p h]) (use k in blast)
  have "w' = ?w \<or> enet_peer_disconnect (\<lambda>_. None) i (disconnectData p1) ?w = Some w'"
    using assms p s by (auto simp: enet_protocol_send_unreliable_outgoing_commands_def Let_def split: if_splits)
  then show ?thesis
  proof
    assume "enet_peer_disconnect (\<lambda>_. None) i (disconnectData p1) ?w = Some w'"
    from grows_bind [OF g disconnect_grows [OF this]] show ?thesis by simp
  qed (use g in simp)
qed

subsubsection \<open>Reliable commands\<close>

lemma first_timeout_packet [simp]: "oc_packet (first_timeout p oc) = oc_packet oc"
  by (simp add: first_timeout_def Let_def)

lemma sent_reliable_refs:
  "peer_refs ((sent_reliable now oc p)\<lparr>outgoingReliableCommands := rest\<rparr>) =
     peer_refs (p\<lparr>outgoingReliableCommands := oc # rest\<rparr>)"
  by (simp add: sent_reliable_def peer_refs_def outgoing_refs_def split: option.split)

lemma outgoing_reliable_packet:
  "oc_packet oc' = oc_packet oc \<Longrightarrow> peer_refs (p\<lparr>outgoingReliableCommands := oc' # rest\<rparr>) =
     peer_refs (p\<lparr>outgoingReliableCommands := oc # rest\<rparr>)"
  by (simp add: peer_refs_def outgoing_refs_def)

lemma sent_reliable_static [simp]:
  "channels (sent_reliable now oc p) = channels p" "channelCount (sent_reliable now oc p) = channelCount p"
  "peer_state (sent_reliable now oc p) = peer_state p" "bounds_ok (sent_reliable now oc p) = bounds_ok p"
  by (simp_all add: sent_reliable_def bounds_ok_def)

text \<open>Induction over a run of the loop over the reliable commands.\<close>

definition reliable_fits :: "ENetHost \<Rightarrow> ENetPeer \<Rightarrow> usize \<Rightarrow> ENetOutgoingCommand \<Rightarrow> bool" where
  "reliable_fits h p sz oc \<longleftrightarrow>
     commandCount h < length (commands h) \<and> Suc (bufferCount h) < length (buffers h) \<and> sz \<le> room h p \<and>
     (oc_packet oc = None \<or> \<not> window_full oc p \<and>
        (ucast (sz + ucast (oc_fragmentLength oc)) :: u16) \<le> ucast (room h p))"

definition add_reliable :: "ENetOutgoingCommand \<Rightarrow> usize \<Rightarrow> ENetHost \<Rightarrow> ENetHost" where
  "add_reliable oc sz h =
    (let h1 = add_command (oc_command oc) sz (h\<lparr>headerFlags := headerFlags h OR ENET_PROTOCOL_HEADER_FLAG_SENT_TIME\<rparr>)
     in case oc_packet oc of None \<Rightarrow> h1
        | Some q \<Rightarrow> add_data q (oc_fragmentOffset oc) (ucast (oc_fragmentLength oc)) h1)"

lemma send_reliable_induct [consumes 1, case_names finished full window send]:
  assumes "send_reliable_loop q h p = Some (h', p')"
    and "\<And>h p. P [] h p h (p\<lparr>outgoingReliableCommands := []\<rparr>)"
    and "\<And>oc rest h p. P (oc # rest) h p (h\<lparr>continueSending := True\<rparr>) (p\<lparr>outgoingReliableCommands := oc # rest\<rparr>)"
    and "\<And>oc rest h p. window_full oc p \<Longrightarrow> P (oc # rest) h p h (p\<lparr>outgoingReliableCommands := oc # rest\<rparr>)"
    and "\<And>oc rest h p sz h' p'. enet_protocol_command_size (command_of (oc_command oc)) = Some sz \<Longrightarrow>
      reliable_fits h p sz oc \<Longrightarrow>
      P rest (add_reliable (first_timeout p oc) sz h) (sent_reliable (serviceTime h) (first_timeout p oc) p) h' p' \<Longrightarrow>
      P (oc # rest) h p h' p'"
  shows "P q h p h' p'"
  using assms(1)
proof (induction q arbitrary: h p)
  case Nil
  then show ?case using assms(2) by auto
next
  case (Cons oc rest)
  obtain sz where sz: "enet_protocol_command_size (command_of (oc_command oc)) = Some sz"
    using Cons.prems by (auto split: bind_splits)
  note step = Cons.prems [unfolded send_reliable_loop.simps sz Let_def, simplified]
  have fits: "reliable_fits h p sz oc \<longleftrightarrow>
      \<not> (commandCount h \<ge> length (commands h) \<or> Suc (bufferCount h) \<ge> length (buffers h) \<or> room h p < sz) \<and>
      \<not> (oc_packet oc \<noteq> None \<and> window_full oc p) \<and>
      \<not> (oc_packet oc \<noteq> None \<and> (ucast (room h p) :: u16) < ucast (sz + ucast (oc_fragmentLength oc)))"
    by (auto simp: reliable_fits_def not_le not_less)
  show ?case
  proof (cases "reliable_fits h p sz oc")
    case True
    have "send_reliable_loop rest (add_reliable (first_timeout p oc) sz h)
        (sent_reliable (serviceTime h) (first_timeout p oc) p) = Some (h', p')"
      using step True unfolding fits add_reliable_def Let_def by (auto split: if_splits)
    from assms(5) [OF sz True Cons.IH [OF this]] show ?thesis .
  next
    case False
    then show ?thesis using step assms(3,4) unfolding fits by (auto split: if_splits)
  qed
qed

lemma peers_add_reliable [simp]:
  "peers (add_reliable oc sz h) = peers h" "host_mtu (add_reliable oc sz h) = host_mtu h"
  "lastServicedPeer (add_reliable oc sz h) = lastServicedPeer h"
  by (simp_all add: add_reliable_def Let_def split: option.split)

lemma send_reliable_same:
  "send_reliable_loop q h p = Some (h', p') \<Longrightarrow>
     peers h' = peers h \<and> same_settings h h' \<and>
     peer_refs p' = peer_refs (p\<lparr>outgoingReliableCommands := q\<rparr>) \<and>
     channels p' = channels p \<and> channelCount p' = channelCount p \<and> peer_state p' = peer_state p \<and>
     bounds_ok p' = bounds_ok p"
proof (induction rule: send_reliable_induct)
  case (send oc rest h p sz h' p')
  then show ?case by (simp add: sent_reliable_refs outgoing_reliable_packet [of "first_timeout p oc" oc])
qed (simp_all add: bounds_ok_def)

lemma out_reliable_grows:
  assumes "enet_protocol_send_reliable_outgoing_commands i w = Some w'"
  shows "grows 0 w w'"
proof -
  from assms obtain p h1 p1 where p: "get_peer w i = Some p"
    and s: "send_reliable_loop (outgoingReliableCommands p) (host w) p = Some (h1, p1)"
    and w': "w' = put_peer i p1 (w\<lparr>host := h1, packets := packets w\<rparr>)"
    by (auto simp: enet_protocol_send_reliable_outgoing_commands_def split: bind_splits)
  note same = send_reliable_same [OF s]
  show ?thesis unfolding w'
    by (rule grows_fill [OF p]) (use same in \<open>auto intro: refs_ok_same\<close>)
qed

subsubsection \<open>Time-outs\<close>

lemma check_timeouts_refs:
  "check_timeouts_loop now kept rest p = (lost, p') \<Longrightarrow>
     peer_refs p' = peer_refs (p\<lparr>sentReliableCommands := kept @ rest\<rparr>) \<and>
     channels p' = channels p \<and> channelCount p' = channelCount p \<and> peer_state p' = peer_state p \<and>
     bounds_ok p' = bounds_ok p"
proof (induction now kept rest p rule: check_timeouts_loop.induct)
  case (2 now kept oc rest p)
  let ?p1 = "note_timeout oc p"
  let ?p3 = "case rest of [] \<Rightarrow> retransmit oc ?p1
     | first # _ \<Rightarrow> (if kept = []
          then (retransmit oc ?p1)\<lparr>nextTimeout := oc_sentTime first + oc_roundTripTimeout first\<rparr>
          else retransmit oc ?p1)"
  have p1: "peer_refs (?p1\<lparr>sentReliableCommands := q\<rparr>) = peer_refs (p\<lparr>sentReliableCommands := q\<rparr>)"
      "channels ?p1 = channels p" "channelCount ?p1 = channelCount p" "peer_state ?p1 = peer_state p"
      "bounds_ok ?p1 = bounds_ok p" for q
    by (simp_all add: note_timeout_def peer_refs_def outgoing_refs_def bounds_ok_def)
  have p3: "peer_refs (?p3\<lparr>sentReliableCommands := kept @ rest\<rparr>) =
        peer_refs (?p1\<lparr>sentReliableCommands := kept @ oc # rest\<rparr>)"
      "channels ?p3 = channels p" "channelCount ?p3 = channelCount p" "peer_state ?p3 = peer_state p"
      "bounds_ok ?p3 = bounds_ok ?p1"
    using p1(2-4) by (auto simp: retransmit_def peer_refs_def outgoing_refs_def bounds_ok_def
        split: list.split option.split)
  show ?case
  proof (cases "\<not> expired now oc")
    case True
    then show ?thesis using 2 by simp
  next
    case False
    show ?thesis
    proof (cases "gives_up now oc ?p1")
      case True
      then have "p' = ?p1\<lparr>sentReliableCommands := kept @ oc # rest\<rparr>" using 2(3) False by (simp add: Let_def)
      moreover have "bounds_ok (?p1\<lparr>sentReliableCommands := q\<rparr>) = bounds_ok p" for q
        using p1(5) by (simp add: bounds_ok_def)
      ultimately show ?thesis using p1 by simp
    next
      case give: False
      have "check_timeouts_loop now kept rest ?p3 = (lost, p')"
        using 2(3) False give by (simp add: Let_def)
      from "2.IH"(2) [OF False refl give refl refl this] show ?thesis using p1 p3 by simp
    qed
  qed
qed (auto simp: bounds_ok_def)

lemma check_timeouts_grows:
  assumes "enet_protocol_check_timeouts i event w = Some (r, event', w')"
  shows "grows 0 w w'"
proof -
  from assms obtain p where p: "get_peer w i = Some p"
    by (auto simp: enet_protocol_check_timeouts_def split: bind_splits)
  obtain lost p1 where c: "check_timeouts_loop (serviceTime (host w)) [] (sentReliableCommands p) p = (lost, p1)"
    by (cases "check_timeouts_loop (serviceTime (host w)) [] (sentReliableCommands p) p")
  note same = check_timeouts_refs [OF c]
  have g: "grows 0 w (put_peer i p1 w)"
    by (rule grows_put [OF p]) (use same in \<open>auto intro: peer_wf_same\<close>)
  have "w' = put_peer i p1 w \<or> enet_protocol_notify_disconnect i event (put_peer i p1 w) = Some (event', w')"
    using assms p c by (auto simp: enet_protocol_check_timeouts_def split: if_splits bind_splits)
  then show ?thesis
  proof
    assume "enet_protocol_notify_disconnect i event (put_peer i p1 w) = Some (event', w')"
    from grows_bind [OF g notify_disconnect_grows [OF this]] show ?thesis by simp
  qed (use g in simp)
qed

subsubsection \<open>Datagrams and rounds\<close>

lemma socket_send_same:
  "enet_socket_send a bufs w = (n, w') \<Longrightarrow> peers (host w') = peers (host w) \<and> packets w' = packets w \<and> inbox w' = inbox w \<and>
     same_settings (host w) (host w')"
  by (auto simp: enet_socket_send_def)

lemma send_datagram_grows:
  assumes "send_datagram i w = Some (n, w')"
  shows "grows 0 w w'"
proof -
  from assms obtain p where p: "get_peer w i = Some p"
    by (auto simp: send_datagram_def split: bind_splits)
  define p1 where "p1 = (update_packet_loss (serviceTime (host w)) p)\<lparr>lastSendTime := serviceTime (host w)\<rparr>"
  define h where "h = (host w)\<lparr>buffers := (buffers (host w))[0 := header_buffer (host w)]\<rparr>"
  from assms p obtain a bufs len w1 z where
      s: "enet_socket_send a bufs (put_peer i p1 (w\<lparr>host := h, packets := packets w\<rparr>)) = (len, w1)"
      and r: "on_peer i enet_protocol_remove_sent_unreliable_commands w1 = Some (z, w')"
    by (auto simp: send_datagram_def Let_def p1_def h_def split: bind_splits prod.splits)
  have g: "grows 0 w (put_peer i p1 (w\<lparr>host := h, packets := packets w\<rparr>))"
    by (rule grows_fill [OF p]) (simp_all add: h_def p1_def peer_fields refs_ok_def)
  have "grows 0 (put_peer i p1 (w\<lparr>host := h, packets := packets w\<rparr>)) w1"
    using socket_send_same [OF s] by (intro grows_same) simp_all
  from grows_bind [OF g this] have "grows 0 w w1" by simp
  from grows_bind [OF this remove_sent_unreliable.on_peer_grows [OF r]] show ?thesis by simp
qed

lemma fill_reliable_grows:
  assumes "fill_reliable i w = Some w'"
  shows "grows 0 w w'"
proof -
  obtain p where p: "get_peer w i = Some p"
    using assms by (auto simp: fill_reliable_def split: bind_splits)
  show ?thesis
  proof (cases "outgoingReliableCommands p = [] \<and> needs_ping w p")
    case True
    then obtain z w1 where ping: "on_peer i enet_peer_ping w = Some (z, w1)"
        and s: "enet_protocol_send_reliable_outgoing_commands i w1 = Some w'"
      using assms p by (cases "on_peer i enet_peer_ping w") (auto simp: fill_reliable_def)
    from grows_bind [OF ping.on_peer_grows [OF ping] out_reliable_grows [OF s]] show ?thesis by simp
  next
    case False
    then show ?thesis using assms p by (auto simp: fill_reliable_def out_reliable_grows split: if_splits)
  qed
qed

lemma fill_unreliable_grows: "fill_unreliable i w = Some w' \<Longrightarrow> grows 0 w w'"
  by (auto simp: fill_unreliable_def split: bind_splits if_splits intro: out_unreliable_grows)

lemma grows_0_trans: "grows 0 w w1 \<Longrightarrow> grows 0 w1 w2 \<Longrightarrow> grows 0 w w2"
  using grows_bind [of 0 w w1 0 w2 0] by simp

lemma update_host_grows:
  "(\<And>h. peers (f h) = peers h \<and> same_settings h (f h)) \<Longrightarrow> grows 0 w (update_host f w)"
  by (rule grows_same) simp_all

lemma service_peer_grows:
  assumes "service_peer i check event w = Some (r, event', w')"
  shows "grows 0 w w'"
proof -
  obtain p where p: "get_peer w i = Some p" using assms by (auto simp: service_peer_def split: bind_splits)
  show ?thesis
  proof (cases "peer_state p = ENET_PEER_STATE_DISCONNECTED \<or> peer_state p = ENET_PEER_STATE_ZOMBIE")
    case True
    then show ?thesis using assms p by (auto simp: service_peer_def)
  next
    case False
    note def = assms [unfolded service_peer_def p, simplified]
    obtain w1 where w1: "fill_acknowledgements i (start_datagram w) = Some w1"
      using def False by (auto split: bind_splits)
    obtain p1 where p1: "get_peer w1 i = Some p1" using def False w1 by (auto split: bind_splits)
    let ?check = "if check \<and> sentReliableCommands p1 \<noteq> [] \<and>
        ENET_TIME_GREATER_EQUAL (serviceTime (host w1)) (nextTimeout p1)
      then enet_protocol_check_timeouts i event w1 else Some (0, event, w1)"
    obtain q event1 w2 where w2: "?check = Some (q, event1, w2)"
      using def False w1 p1 by (cases ?check) auto
    have g2: "grows 0 w w2"
    proof -
      have "grows 0 w (start_datagram w)" unfolding start_datagram_def by (rule update_host_grows) simp
      moreover have "grows 0 w1 w2" using w2 by (auto split: if_splits intro: check_timeouts_grows)
      ultimately show ?thesis using fill_acknowledgements_grows [OF w1] by (blast intro: grows_0_trans)
    qed
    show ?thesis
    proof (cases "q = 1")
      case True
      then show ?thesis using def False w1 p1 w2 g2 by simp
    next
      case q: False
      obtain w3 w4 where w3: "fill_reliable i w2 = Some w3" and w4: "fill_unreliable i w3 = Some w4"
        using def False w1 p1 w2 q by (simp split: bind_splits)
      have g4: "grows 0 w w4"
        using g2 fill_reliable_grows [OF w3] fill_unreliable_grows [OF w4] by (blast intro: grows_0_trans)
      have "w' = w4 \<or> (\<exists>n. send_datagram i w4 = Some (n, w'))"
        using def False w1 p1 w2 q w3 w4 by (auto split: bind_splits if_splits)
      then show ?thesis using g4 send_datagram_grows by (blast intro: grows_0_trans)
    qed
  qed
qed

lemma service_peers_grows:
  "service_peers is check event w = Some (r, event', w') \<Longrightarrow> grows 0 w w'"
proof (induction "is" arbitrary: event w)
  case (Cons i js)
  obtain q event1 w1 where s: "service_peer i check event w = Some (q, event1, w1)"
    using Cons.prems by (auto split: bind_splits)
  have "w' = w1 \<or> service_peers js check event1 w1 = Some (r, event', w')"
    using Cons.prems s by (auto split: option.splits)
  then show ?case using service_peer_grows [OF s] Cons.IH by (blast intro: grows_0_trans)
qed simp

lemma send_rounds_grows:
  assumes "send_rounds check event w = Some (r, event', w')"
  shows "grows 0 w w'"
proof -
  have "case (r, event', w') of (r, event', w') \<Rightarrow> grows 0 w w'"
  proof (rule send_rounds.raw_induct [OF _ assms], goal_cases)
    case (1 rec check event w y)
    obtain r event' w' where y: "y = (r, event', w')" by (cases y)
    let ?w = "update_host (\<lambda>h. h\<lparr>continueSending := False\<rparr>) w"
    show ?case
    proof (cases "continueSending (host w)")
      case False
      then show ?thesis using 1(2) by auto
    next
      case True
      obtain q event1 w1 where s: "service_peers [0..<peerCount (host w)] check event ?w = Some (q, event1, w1)"
        using 1(2) True by (auto split: bind_splits)
      have "grows 0 w ?w" by (rule update_host_grows) simp
      then have g: "grows 0 w w1" using service_peers_grows [OF s] by (rule grows_0_trans)
      show ?thesis
      proof (cases q)
        case None
        then have "rec check event1 w1 = Some y" using 1(2) True s by simp
        from 1(1) [OF this] show ?thesis using g unfolding y by (auto intro: grows_0_trans)
      next
        case (Some v)
        then show ?thesis using 1(2) True s g by (auto simp: y)
      qed
    qed
  qed
  then show ?thesis by simp
qed

lemma send_outgoing_grows:
  assumes "enet_protocol_send_outgoing_commands event check w = Some (r, event', w')"
  shows "grows 0 w w'"
proof -
  have "grows 0 w (update_host (\<lambda>h. h\<lparr>continueSending := True\<rparr>) w)" by (rule update_host_grows) simp
  then show ?thesis
    using send_rounds_grows assms unfolding enet_protocol_send_outgoing_commands_def
    by (blast intro: grows_0_trans)
qed

lemma enet_time_get_same:
  "enet_time_get w = (t, w') \<Longrightarrow> host w' = host w \<and> packets w' = packets w \<and> inbox w' = inbox w"
  by (auto simp: enet_time_get_def)

lemma update_serviceTime_grows: "grows 0 w (update_serviceTime w)"
  by (rule grows_same) (simp_all add: update_serviceTime_def enet_time_get_def)

lemma flush_grows:
  assumes "enet_host_flush w = Some w'"
  shows "grows 0 w w'"
proof -
  from assms obtain r event' where
    "enet_protocol_send_outgoing_commands None False (update_serviceTime w) = Some (r, event', w')"
    by (auto simp: enet_host_flush_def update_serviceTime_def split: prod.splits)
  from grows_0_trans [OF update_serviceTime_grows send_outgoing_grows [OF this]] show ?thesis .
qed

subsection \<open>Dispatching and servicing\<close>

lemma dispatch_channels_grows:
  "dispatch_channels i cs ev w = Some (found, ev', w') \<Longrightarrow> grows 0 w w'"
proof (induction i cs ev w rule: dispatch_channels.induct)
  case (2 i c cs ev w)
  obtain p ch where p: "get_peer w i = Some p" and ch: "get_channel p (of_nat c) = Some ch"
    using "2.prems" by (auto split: bind_splits)
  note step = "2.prems" [unfolded dispatch_channels.simps p, simplified, unfolded ch, simplified]
  show ?case
  proof (cases "incomingReliableCommands ch = [] \<and> incomingUnreliableCommands ch = []")
    case True
    then show ?thesis using "2.IH"(1) [OF p ch True] step by simp
  next
    case False
    obtain packet w1 where r: "on_peer i (enet_peer_receive (of_nat c)) w = Some (packet, w1)"
      using step False by (auto split: bind_splits if_splits)
    have "w' = w1 \<or> dispatch_channels i cs (ev\<lparr>event_packet := packet\<rparr>) w1 = Some (found, ev', w')"
      using step False r by (auto simp: Let_def split: if_splits)
    then show ?thesis
      using receive.on_peer_grows [OF r] "2.IH"(2) [OF p ch False r refl refl] step False r
      by (cases "packet = None") (auto simp: Let_def intro: grows_0_trans)
  qed
qed simp

lemma on_peer_host: "on_peer i f w = Some (r, w') \<Longrightarrow> peerCount (host w') = peerCount (host w) \<and>
    lastServicedPeer (host w') = lastServicedPeer (host w)"
  by (erule on_peer_cases) (simp add: put_peer_def)

lemma dispatch_channels_host: "dispatch_channels i cs ev w = Some (found, ev', w') \<Longrightarrow>
    peerCount (host w') = peerCount (host w) \<and> lastServicedPeer (host w') = lastServicedPeer (host w)"
  by (induction cs arbitrary: ev w) (auto simp: Let_def split: bind_splits if_splits dest!: on_peer_host)

lemma serviced_grows: "c < peerCount (host w) \<Longrightarrow> grows 0 w (update_host (\<lambda>h. h\<lparr>lastServicedPeer := c\<rparr>) w)"
  by (simp add: grows_def load_def refs_inv_def host_ok_def world_refs_def)

lemma dispatch_loop_grows:
  assumes "dispatch_loop current ev w = Some (r, ev', w')"
  shows "grows 0 w w'"
proof -
  have "case (r, ev', w') of (r, ev', w') \<Rightarrow> grows 0 w w'"
  proof (rule dispatch_loop.raw_induct [OF _ assms], goal_cases)
    case (1 rec current ev w y)
    obtain r ev' w' where y: "y = (r, ev', w')" by (cases y)
    define c where "c = (if Suc current \<ge> peerCount (host w) then 0 else Suc current)"
    note step = 1(2) [unfolded c_def [symmetric] Let_def]
    obtain p where p: "get_peer w c = Some p" using step by (auto split: bind_splits)
    consider (connect) "peer_state p = ENET_PEER_STATE_CONNECTION_PENDING \<or>
        peer_state p = ENET_PEER_STATE_CONNECTION_SUCCEEDED"
      | (zombie) "peer_state p = ENET_PEER_STATE_ZOMBIE"
      | (other) "peer_state p \<noteq> ENET_PEER_STATE_CONNECTION_PENDING"
        "peer_state p \<noteq> ENET_PEER_STATE_CONNECTION_SUCCEEDED" "peer_state p \<noteq> ENET_PEER_STATE_ZOMBIE"
      by blast
    then show ?case
    proof cases
      case connect
      then have "w' = put_peer c (p\<lparr>peer_state := ENET_PEER_STATE_CONNECTED\<rparr>) w" using step p y by auto
      then show ?thesis using grows_put [OF p] unfolding y by (simp add: peer_fields)
    next
      case zombie
      let ?w = "update_host (\<lambda>h. h\<lparr>recalculateBandwidthLimits := True\<rparr>) w"
      obtain w1 where w1: "reset_peer c ?w = Some w1"
          and w': "w' = update_host (\<lambda>h. h\<lparr>lastServicedPeer := c\<rparr>) w1"
        using step p zombie y by (auto split: bind_splits)
      have "peerCount (host w1) = peerCount (host w)" using w1 by (auto simp: reset_peer_def dest: on_peer_host)
      then have "grows 0 w ?w" "grows 0 w1 w'"
        unfolding w' using p by (simp_all add: update_host_grows serviced_grows get_peer_Some)
      with reset_peer_grows [OF w1] show ?thesis unfolding y by (auto intro: grows_0_trans)
    next
      case other
      let ?d = "if peer_state p = ENET_PEER_STATE_CONNECTED
          then dispatch_channels c [0..<unat (channelCount p)] ev w else Some (False, ev, w)"
      obtain found ev1 w1 where d: "?d = Some (found, ev1, w1)"
        using step p other by (cases ?d) auto
      have g: "grows 0 w w1" using d by (auto split: if_splits intro: dispatch_channels_grows)
      have "peerCount (host w1) = peerCount (host w)" using d by (auto split: if_splits dest: dispatch_channels_host)
      then have u: "grows 0 w1 (update_host (\<lambda>h. h\<lparr>lastServicedPeer := c\<rparr>) w1)"
        using p by (simp add: serviced_grows get_peer_Some)
      have "w' = update_host (\<lambda>h. h\<lparr>lastServicedPeer := c\<rparr>) w1 \<or> w' = w1 \<or> rec c ev1 w1 = Some y"
        using step p other d y by (auto split: if_splits)
      then show ?thesis using g u 1(1) [of c ev1 w1 y] unfolding y by (auto intro: grows_0_trans)
    qed
  qed
  then show ?thesis by simp
qed

lemma dispatch_event_grows:
  "dispatch_event event w = Some (r, event', w') \<Longrightarrow> grows 0 w w'"
  by (auto simp: dispatch_event_def enet_protocol_dispatch_incoming_commands_def
      split: option.splits bind_splits intro: dispatch_loop_grows)

lemma check_events_grows:
  "enet_host_check_events event w = Some (r, event', w') \<Longrightarrow> grows 0 w w'"
  by (auto simp: enet_host_check_events_def enet_protocol_dispatch_incoming_commands_def
      split: option.splits bind_splits intro: dispatch_loop_grows)

subsection \<open>The bandwidth throttle\<close>

text \<open>
  The throttle changes the peers one by one, and leaves the references of each alone.
\<close>

definition same_peer :: "ENetPeer \<Rightarrow> ENetPeer \<Rightarrow> bool" where
  "same_peer p q \<longleftrightarrow> peer_refs q = peer_refs p \<and> (peer_wf p \<longrightarrow> peer_wf q)"

definition same_peers :: "ENetPeer list \<Rightarrow> ENetPeer list \<Rightarrow> bool" where
  "same_peers = list_all2 same_peer"

lemma same_peer_refl [simp]: "same_peer p p"
  by (simp add: same_peer_def)

lemma same_peers_refl [simp]: "same_peers pl pl"
  by (simp add: same_peers_def list_all2_refl)

lemma same_peers_trans: "same_peers a b \<Longrightarrow> same_peers b c \<Longrightarrow> same_peers a c"
  unfolding same_peers_def by (rule list_all2_trans [of same_peer same_peer same_peer]) (auto simp: same_peer_def)

lemma same_peers_map: "(\<And>p. same_peer p (f p)) \<Longrightarrow> same_peers pl (map f pl)"
  by (simp add: same_peers_def list_all2_conv_all_nth)

lemma same_peers_sum:
  "same_peers pl pl' \<Longrightarrow> (\<Sum>p \<in># mset pl'. peer_refs p) = (\<Sum>p \<in># mset pl. peer_refs p)"
  unfolding same_peers_def by (induction rule: list_all2_induct) (simp_all add: same_peer_def)

lemma same_peers_wf:
  "same_peers pl pl' \<Longrightarrow> \<forall>p \<in> set pl. peer_wf p \<Longrightarrow> \<forall>p \<in> set pl'. peer_wf p"
  unfolding same_peers_def by (induction rule: list_all2_induct) (auto simp: same_peer_def)

lemma same_peer_fields:
  assumes "peer_refs q = peer_refs p" and "channels q = channels p" and "channelCount q = channelCount p"
    and "peer_state q = peer_state p" and "bounds_ok p \<Longrightarrow> bounds_ok q"
  shows "same_peer p q"
  using assms peer_wf_same [of p q] by (simp add: same_peer_def)

text \<open>
  The limits stay between 0 and the scale. The products may wrap, which makes them smaller only.
\<close>

lemma unat_mult_le: "unat (a * b) \<le> unat a * unat (b :: 'a::len word)"
  by (simp add: unat_word_ariths mod_less_eq_dividend)

lemma common_throttle_le: "common_throttle s = Some t \<Longrightarrow> t \<le> ENET_PEER_PACKET_THROTTLE_SCALE"
proof -
  assume a: "common_throttle s = Some t"
  show ?thesis
  proof (cases "ts_dataTotal s < ts_bandwidth s")
    case True
    then show ?thesis using a by (simp add: common_throttle_def)
  next
    case False
    let ?b = "ts_bandwidth s" and ?d = "ts_dataTotal s"
    have d: "0 < unat ?d" and t: "t = (?b * 32) div ?d"
      using a False by (auto simp: common_throttle_def unat_gt_0 split: if_splits)
    have "unat ?b \<le> unat ?d" using False by (simp add: word_less_nat_alt)
    have "unat t = unat (?b * 32) div unat ?d" by (simp add: t unat_div)
    also have "\<dots> \<le> (unat ?b * 32) div unat ?d"
      using unat_mult_le [of ?b 32] by (intro div_le_mono) simp
    also have "\<dots> \<le> (unat ?d * 32) div unat ?d"
      using \<open>unat ?b \<le> unat ?d\<close> by (intro div_le_mono) simp
    also have "\<dots> = 32" using d by simp
    finally show ?thesis by (simp add: word_le_nat_alt)
  qed
qed

lemma limit_le:
  assumes "is_over now elapsed t p" and "t \<le> ENET_PEER_PACKET_THROTTLE_SCALE"
  shows "(peer_bandwidth elapsed p * ENET_PEER_PACKET_THROTTLE_SCALE) div outgoingDataTotal p
     \<le> ENET_PEER_PACKET_THROTTLE_SCALE"
proof -
  let ?b = "peer_bandwidth elapsed p" and ?d = "outgoingDataTotal p"
  have "unat (t * ?d) \<le> 32 * unat ?d"
    by (rule order_trans [OF unat_mult_le mult_le_mono1]) (use assms(2) in \<open>simp add: word_le_nat_alt\<close>)
  then have "unat (t * ?d) div 32 \<le> unat ?d" by simp
  moreover have "unat ?b < unat (t * ?d) div 32"
    using assms(1) by (simp add: is_over_def word_less_nat_alt unat_div)
  ultimately have b: "unat ?b < unat ?d" by simp
  have "unat ((?b * 32) div ?d) = unat (?b * 32) div unat ?d" by (simp add: unat_div)
  also have "\<dots> \<le> (unat ?b * 32) div unat ?d"
    using unat_mult_le [of ?b 32] by (intro div_le_mono) simp
  also have "\<dots> \<le> (unat ?d * 32) div unat ?d" using b by (intro div_le_mono) simp
  also have "\<dots> = 32" using b by simp
  finally show ?thesis by (simp add: word_le_nat_alt)
qed

lemma limit_peer_bounds:
  assumes "is_over now elapsed t p" and "t \<le> ENET_PEER_PACKET_THROTTLE_SCALE" and "bounds_ok p"
  shows "bounds_ok (limit_peer now elapsed p)"
  using limit_le [OF assms(1,2)] assms(3)
  by (simp add: limit_peer_def bounds_ok_def Let_def not_less)

lemma throttle_round_same:
  "throttle_round now elapsed t pl s = (pl', s') \<Longrightarrow> t \<le> ENET_PEER_PACKET_THROTTLE_SCALE \<Longrightarrow> same_peers pl pl'"
proof (induction pl arbitrary: s pl' s')
  case (Cons p rest)
  have l: "is_over now elapsed t p \<Longrightarrow> same_peer p (limit_peer now elapsed p)"
    using limit_peer_bounds [OF _ Cons.prems(2)]
    by (intro same_peer_fields) (simp_all add: limit_peer_def Let_def peer_refs_def outgoing_refs_def)
  show ?case using Cons.prems Cons.IH l
    by (auto simp: same_peers_def Let_def split: if_splits prod.splits)
qed simp

lemma throttle_loop_same: "throttle_loop now elapsed t pl s = Some (t', pl', s') \<Longrightarrow>
     t \<le> ENET_PEER_PACKET_THROTTLE_SCALE \<Longrightarrow> same_peers pl pl' \<and> t' \<le> ENET_PEER_PACKET_THROTTLE_SCALE"
proof (induction now elapsed t pl s rule: throttle_loop.induct)
  case (1 now elapsed t pl s)
  show ?case
  proof (cases "ts_peersRemaining s > 0 \<and> ts_needsAdjustment s")
    case False
    then show ?thesis using "1.prems" by (simp add: throttle_loop.simps [of now elapsed t pl s] split: if_splits)
  next
    case True
    then obtain u where u: "common_throttle s = Some u"
      using "1.prems" by (auto simp: throttle_loop.simps [of now elapsed t pl s] split: option.splits)
    obtain pl1 s1 where r: "throttle_round now elapsed u pl (s\<lparr>ts_needsAdjustment := False\<rparr>) = (pl1, s1)"
      by (cases "throttle_round now elapsed u pl (s\<lparr>ts_needsAdjustment := False\<rparr>)")
    have "pl' = pl1 \<and> t' = u \<or> ts_needsAdjustment s1 \<and> throttle_loop now elapsed u pl1 s1 = Some (t', pl', s')"
      using "1.prems" True u r by (auto simp: throttle_loop.simps [of now elapsed t pl s] split: if_splits)
    then show ?thesis
      using throttle_round_same [OF r common_throttle_le [OF u]] "1.IH" [OF True u r [symmetric] refl]
        common_throttle_le [OF u] by (auto intro: same_peers_trans)
  qed
qed

lemma share_round_same: "share_round now limit pl s = (pl', s') \<Longrightarrow> same_peers pl pl'"
proof (induction now limit pl s arbitrary: pl' s' rule: share_round.induct)
  case (2 now limit p rest remaining bandwidth needs)
  have l: "same_peer p (p\<lparr>incomingBandwidthThrottleEpoch := now\<rparr>)"
    by (rule same_peer_fields) (simp_all add: peer_refs_def outgoing_refs_def bounds_ok_def)
  show ?case using 2 l by (auto simp: same_peers_def Let_def split: if_splits prod.splits)
qed auto

lemma share_loop_same: "share_loop now limit pl r b n = (limit', pl') \<Longrightarrow> same_peers pl pl'"
proof (induction now limit pl r b n rule: share_loop.induct)
  case (1 now limit pl r b n)
  obtain pl1 r1 b1 n1 where s: "share_round now (b div r) pl (r, b, False) = (pl1, r1, b1, n1)"
    by (cases "share_round now (b div r) pl (r, b, False)") auto
  note sr = share_round_same [OF s]
  show ?case
  proof (cases "r > 0 \<and> n")
    case False
    then show ?thesis using "1.prems" by (auto simp: share_loop.simps [of now limit pl r b n] split: if_splits)
  next
    case True
    have "pl' = pl1 \<or> n1 \<and> share_loop now (b div r) pl1 r1 b1 n1 = (limit', pl')"
      using "1.prems" [unfolded share_loop.simps [of now limit pl r b n] Let_def] True s by (auto split: if_splits)
    then show ?thesis
      using sr "1.IH" [OF True refl s [symmetric] refl refl refl] by (auto intro: same_peers_trans)
  qed
qed

lemma announce_limits_same:
  "announce_limits h now limit pl ps = Some (pl', ps') \<Longrightarrow> same_peers pl pl' \<and> ps' = ps"
proof (induction pl arbitrary: ps pl' ps')
  case (Cons p rest)
  show ?case
  proof (cases "is_active p")
    case False
    then show ?thesis using Cons by (auto simp: same_peers_def split: bind_splits)
  next
    case True
    obtain q p1 ps1 rest' where
        q: "enet_peer_queue_outgoing_command (bandwidth_command h now limit p) None 0 0 p ps = Some (q, p1, ps1)"
      and r: "announce_limits h now limit rest ps1 = Some (rest', ps')" and pl': "pl' = p1 # rest'"
      using Cons.prems True by (auto split: bind_splits)
    have "same_peer p p1" "ps1 = ps"
      using queue_outgoing_refs [OF q] by (auto simp: same_peer_def option_mset_def peer_wf_def slot_ok_def same_bounds_ok)
    then show ?thesis using Cons.IH [OF r] by (simp add: pl' same_peers_def)
  qed
qed simp

lemma recalculate_limits_same:
  assumes "recalculate_limits h now n pl ps = Some (pl', ps')"
  shows "same_peers pl pl' \<and> ps' = ps"
proof -
  obtain limit pl1 where s: "(if host_incomingBandwidth h = 0 then (0, pl)
      else share_loop now 0 pl n (host_incomingBandwidth h) True) = (limit, pl1)"
    by (cases "if host_incomingBandwidth h = 0 then (0, pl)
      else share_loop now 0 pl n (host_incomingBandwidth h) True")
  then have "same_peers pl pl1" by (auto split: if_splits dest: share_loop_same)
  moreover have "announce_limits h now limit pl1 ps = Some (pl', ps')"
    using assms s by (simp add: recalculate_limits_def)
  ultimately show ?thesis by (auto dest: announce_limits_same intro: same_peers_trans)
qed

lemma apply_common_same: "t \<le> ENET_PEER_PACKET_THROTTLE_SCALE \<Longrightarrow> same_peer p (apply_common now t p)"
  by (rule same_peer_fields)
    (simp_all add: apply_common_def peer_refs_def outgoing_refs_def, simp add: bounds_ok_def not_less)

lemma bandwidth_throttle_same:
  assumes "bandwidth_throttle_at now h ps = Some (h', ps')"
  shows "same_peers (peers h) (peers h') \<and> ps' = ps"
proof -
  let ?elapsed = "now - bandwidthThrottleEpoch h"
  obtain n total where n: "count_active (peers h) = (n, total)" by (cases "count_active (peers h)")
  note def = assms [unfolded bandwidth_throttle_at_def Let_def n, simplified]
  show ?thesis
  proof (cases "?elapsed < ENET_HOST_BANDWIDTH_THROTTLE_INTERVAL \<or> n = 0")
    case True
    then show ?thesis using def by auto
  next
    case False
    let ?s = "\<lparr>ts_peersRemaining = n, ts_bandwidth = available_bandwidth h ?elapsed,
             ts_dataTotal = total, ts_needsAdjustment = True\<rparr>"
    obtain t pl1 s where l: "throttle_loop now ?elapsed 0 (peers h) ?s = Some (t, pl1, s)"
      using def False by (auto split: bind_splits)
    define pl2 where "pl2 = (if ts_peersRemaining s > 0 then map (apply_common now t) pl1 else pl1)"
    have t: "same_peers (peers h) pl1" "t \<le> ENET_PEER_PACKET_THROTTLE_SCALE" using throttle_loop_same [OF l] by simp_all
    have "same_peers pl1 pl2" using t(2) by (simp add: pl2_def same_peers_map apply_common_same)
    then have g2: "same_peers (peers h) pl2" using t(1) by (blast intro: same_peers_trans)
    let ?r = "if recalculateBandwidthLimits h then recalculate_limits h now n pl2 ps else Some (pl2, ps)"
    obtain pl3 ps1 where r: "?r = Some (pl3, ps1)"
      using def False l unfolding pl2_def
      by (auto split: bind_splits)
    then have g3: "same_peers pl2 pl3" "ps1 = ps" by (auto split: if_splits dest: recalculate_limits_same)
    have "peers h' = map (\<lambda>p. p\<lparr>incomingDataTotal := 0, outgoingDataTotal := 0\<rparr>) pl3" "ps' = ps1"
      using def False l r unfolding pl2_def by auto
    moreover have "same_peers pl3 (map (\<lambda>p. p\<lparr>incomingDataTotal := 0, outgoingDataTotal := 0\<rparr>) pl3)"
      by (rule same_peers_map, rule same_peer_fields) (simp_all add: peer_refs_def outgoing_refs_def bounds_ok_def)
    ultimately show ?thesis using g2 g3 by (auto intro: same_peers_trans)
  qed
qed

lemma bandwidth_throttle_mtu: "bandwidth_throttle_at now h ps = Some (h', ps') \<Longrightarrow> same_settings h h'"
  by (auto simp: bandwidth_throttle_at_def Let_def split: prod.splits if_splits bind_splits)

lemma bandwidth_throttle_grows:
  assumes "enet_host_bandwidth_throttle w = Some w'"
  shows "grows 0 w w'"
proof -
  obtain now w1 where t: "enet_time_get w = (now, w1)" by (cases "enet_time_get w")
  from assms t obtain h ps where b: "bandwidth_throttle_at now (host w1) (packets w1) = Some (h, ps)"
      and w': "w' = w1\<lparr>host := h, packets := ps\<rparr>"
    by (auto simp: enet_host_bandwidth_throttle_def split: bind_splits)
  note same = bandwidth_throttle_same [OF b] bandwidth_throttle_mtu [OF b] and w1 = enet_time_get_same [OF t]
  show ?thesis
    using same same_peers_sum [of "peers (host w)" "peers h"] same_peers_wf [of "peers (host w)" "peers h"] w1
      list_all2_lengthD [of same_peer "peers (host w)" "peers h"]
    by (auto simp: same_peers_def [symmetric] grows_def load_def refs_inv_def host_ok_def world_refs_def w')
qed

subsection \<open>Servicing\<close>

lemma service_pass_grows:
  assumes "service_pass event w = Some (r, event', w')"
  shows "grows 0 w w'"
proof -
  let ?t = "if ENET_TIME_DIFFERENCE (serviceTime (host w)) (bandwidthThrottleEpoch (host w))
              \<ge> ENET_HOST_BANDWIDTH_THROTTLE_INTERVAL
           then enet_host_bandwidth_throttle w else Some w"
  obtain w0 where w0: "?t = Some w0" using assms by (cases ?t) (simp_all add: service_pass_def)
  have g0: "grows 0 w w0" using w0 by (auto split: if_splits intro: bandwidth_throttle_grows)
  obtain r1 event1 w1 where s1: "enet_protocol_send_outgoing_commands event True w0 = Some (r1, event1, w1)"
    using assms w0 by (auto simp: service_pass_def split: bind_splits)
  have g1: "grows 0 w w1" by (rule grows_0_trans [OF g0 send_outgoing_grows [OF s1]])
  show ?thesis
  proof (cases "r1 = 1 \<or> r1 = -1")
    case True
    then show ?thesis using assms w0 s1 g1 by (simp add: service_pass_def)
  next
    case r1: False
    obtain r2 event2 w2 where s2: "enet_protocol_receive_incoming_commands event1 w1 = Some (r2, event2, w2)"
      using assms w0 s1 r1 by (auto simp: service_pass_def split: bind_splits)
    have g2: "grows 0 w w2" by (rule grows_0_trans [OF g1 receive_incoming_commands_grows [OF s2]])
    show ?thesis
    proof (cases "r2 = 1 \<or> r2 = -1")
      case True
      then show ?thesis using assms w0 s1 r1 s2 g2 by (simp add: service_pass_def)
    next
      case r2: False
      obtain r3 event3 w3 where s3: "enet_protocol_send_outgoing_commands event2 True w2 = Some (r3, event3, w3)"
        using assms w0 s1 r1 s2 r2 by (auto simp: service_pass_def split: bind_splits)
      have g3: "grows 0 w w3" by (rule grows_0_trans [OF g2 send_outgoing_grows [OF s3]])
      show ?thesis
      proof (cases "r3 = 1 \<or> r3 = -1")
        case True
        then show ?thesis using assms w0 s1 r1 s2 r2 s3 g3 by (simp add: service_pass_def)
      next
        case r3: False
        obtain r4 event4 w4 where s4: "dispatch_event event3 w3 = Some (r4, event4, w4)"
          using assms w0 s1 r1 s2 r2 s3 r3 by (auto simp: service_pass_def split: bind_splits)
        have "w' = w4" using assms w0 s1 r1 s2 r2 s3 r3 s4 by (simp add: service_pass_def)
        then show ?thesis using grows_0_trans [OF g3 dispatch_event_grows [OF s4]] by simp
      qed
    qed
  qed
qed

lemma socket_wait_same:
  "enet_socket_wait w = (r, c, w') \<Longrightarrow> host w' = host w \<and> packets w' = packets w \<and> inbox w' = inbox w"
  by (auto simp: enet_socket_wait_def split: list.splits)

lemma service_loop_grows:
  "service_loop n deadline event w = Some (r, event', w') \<Longrightarrow> grows 0 w w'"
proof (induction n arbitrary: event w)
  case (Suc n)
  obtain q event1 w1 where s: "service_pass event w = Some (q, event1, w1)"
    using Suc.prems by (auto split: bind_splits)
  note g1 = service_pass_grows [OF s]
  show ?case
  proof (cases q)
    case (Some v)
    then show ?thesis using Suc.prems s g1 by simp
  next
    case None
    let ?w2 = "update_serviceTime w1"
    obtain result condition w3 where wt: "enet_socket_wait ?w2 = (result, condition, w3)"
      by (cases "enet_socket_wait ?w2")
    have g2: "grows 0 w ?w2" by (rule grows_0_trans [OF g1 update_serviceTime_grows])
    have "grows 0 ?w2 w3" using socket_wait_same [OF wt] by (intro grows_same) simp_all
    then have g3: "grows 0 w w3" by (rule grows_0_trans [OF g2])
    have g4: "grows 0 w (update_serviceTime w3)" by (rule grows_0_trans [OF g3 update_serviceTime_grows])
    have "w' = ?w2 \<or> w' = w3 \<or> w' = update_serviceTime w3 \<or>
        service_loop n deadline event1 (update_serviceTime w3) = Some (r, event', w')"
      using Suc.prems s None wt by (auto simp: Let_def split: if_splits)
    then show ?thesis using g2 g3 g4 Suc.IH by (blast intro: grows_0_trans)
  qed
qed simp

lemma host_service_grows:
  assumes "enet_host_service event timeout w = Some (r, event', w')"
  shows "grows 0 w w'"
proof -
  obtain q event1 w1 where d: "dispatch_event (map_option clear_event event) w = Some (q, event1, w1)"
    using assms by (auto simp: enet_host_service_def split: bind_splits)
  note g = dispatch_event_grows [OF d]
  have "w' = w1 \<or> service_loop (Suc (length (waits (update_serviceTime w1))))
      (timeout + serviceTime (host (update_serviceTime w1))) event1 (update_serviceTime w1) = Some (r, event', w')"
    using assms d by (auto simp: enet_host_service_def Let_def split: if_splits)
  then show ?thesis using g update_serviceTime_grows service_loop_grows by (blast intro: grows_0_trans)
qed

subsection \<open>The calls of the application\<close>

lemma disconnect_now_grows:
  assumes "enet_peer_disconnect_now enet_host_flush i dat w = Some w'"
  shows "grows 0 w w'"
proof -
  obtain p where p: "get_peer w i = Some p"
    using assms by (auto simp: enet_peer_disconnect_now_def split: bind_splits)
  show ?thesis
  proof (cases "peer_state p = ENET_PEER_STATE_DISCONNECTED")
    case True
    then show ?thesis using assms p by (simp add: enet_peer_disconnect_now_def)
  next
    case False
    let ?f = "if peer_state p \<noteq> ENET_PEER_STATE_ZOMBIE \<and> peer_state p \<noteq> ENET_PEER_STATE_DISCONNECTING
         then on_peer i (queue_disconnect ENET_PROTOCOL_COMMAND_FLAG_UNSEQUENCED dat) w \<bind>
           (\<lambda>(_, w'). enet_host_flush w')
         else Some w"
    obtain w1 where w1: "?f = Some w1"
      using assms p False by (cases ?f) (simp_all add: enet_peer_disconnect_now_def)
    obtain r where r: "on_peer i (enet_peer_reset (host_mtu (host w1))) w1 = Some (r, w')"
      using assms p False w1 by (auto simp: enet_peer_disconnect_now_def split: bind_splits)
    have "grows 0 w w1"
      using w1 by (auto split: if_splits bind_splits intro: grows_0_trans queue_disconnect.on_peer_grows flush_grows)
    then show ?thesis using reset_grows [OF r] by (rule grows_0_trans)
  qed
qed

lemma peer_disconnect_grows: "enet_peer_disconnect enet_host_flush i dat w = Some w' \<Longrightarrow> grows 0 w w'"
  by (erule disconnect_grows) (rule flush_grows)

lemma disconnect_later_grows:
  assumes "enet_peer_disconnect_later enet_host_flush i dat w = Some w'"
  shows "grows 0 w w'"
proof -
  obtain p where p: "get_peer w i = Some p"
    using assms by (auto simp: enet_peer_disconnect_later_def split: bind_splits)
  let ?q = "p\<lparr>peer_state := ENET_PEER_STATE_DISCONNECT_LATER, disconnectData := dat\<rparr>"
  have "grows 0 w (put_peer i ?q w)"
    by (rule grows_put [OF p]) (simp_all add: peer_fields)
  moreover have "w' = put_peer i ?q w \<or> enet_peer_disconnect enet_host_flush i dat w = Some w'"
    using assms p by (auto simp: enet_peer_disconnect_later_def split: if_splits)
  ultimately show ?thesis using peer_disconnect_grows by blast
qed

lemma broadcast_loop_keeps:
  assumes "broadcast_loop c packet pl ps = Some (pl', ps')"
    and "counts_agree ps ((\<Sum>p \<in># mset pl. peer_refs p) + R)" and "\<forall>p \<in> set pl. peer_wf p"
    and "size ((\<Sum>p \<in># mset pl. peer_refs p) + R) + length pl * 2 ^ 32 < 2 ^ 63"
  shows "counts_agree ps' ((\<Sum>p \<in># mset pl'. peer_refs p) + R) \<and> (\<forall>p \<in> set pl'. peer_wf p) \<and>
    size (\<Sum>p \<in># mset pl'. peer_refs p) \<le> size (\<Sum>p \<in># mset pl. peer_refs p) + length pl * 2 ^ 32"
  using assms
proof (induction pl arbitrary: ps pl' R)
  case (Cons p rest)
  let ?S = "\<lambda>l. \<Sum>p \<in># mset l. peer_refs p"
  show ?case
  proof (cases "peer_state p = ENET_PEER_STATE_CONNECTED")
    case False
    then obtain rest' where r: "broadcast_loop c packet rest ps = Some (rest', ps')" and pl': "pl' = p # rest'"
      using Cons.prems(1) by (auto split: bind_splits)
    have "counts_agree ps (?S rest + (peer_refs p + R))" using Cons.prems(2) by (simp add: ac_simps)
    from Cons.IH [OF r this] Cons.prems(3,4) show ?thesis by (simp add: pl' ac_simps)
  next
    case True
    obtain q p1 ps1 rest' where s: "enet_peer_send c packet p ps = Some (q, p1, ps1)"
        and r: "broadcast_loop c packet rest ps1 = Some (rest', ps')" and pl': "pl' = p1 # rest'"
      using Cons.prems(1) True by (auto split: bind_splits)
    have "refs_ok ps p (?S rest + R)" using Cons.prems(2,3) by (simp add: refs_ok_def ac_simps)
    from send.keeps [OF s this] Cons.prems(4)
    have k: "refs_ok ps1 p1 (?S rest + R)" and sz: "size (peer_refs p1) \<le> size (peer_refs p) + 2 ^ 32"
      by (simp_all add: ac_simps)
    have "counts_agree ps1 (?S rest + (peer_refs p1 + R))" using k by (simp add: refs_ok_def ac_simps)
    from Cons.IH [OF r this] Cons.prems(3,4) sz k show ?thesis by (simp add: pl' refs_ok_def ac_simps)
  qed
qed simp

lemma broadcast_loop_length: "broadcast_loop c packet pl ps = Some (pl', ps') \<Longrightarrow> length pl' = length pl"
  by (induction pl arbitrary: ps pl') (auto split: bind_splits if_splits)

lemma broadcast_grows:
  assumes "enet_host_broadcast c packet (host w) (packets w) = Some (h, ps)"
  shows "grows (peerCount (host w) * 2 ^ 32) w (w\<lparr>host := h, packets := ps\<rparr>)"
  unfolding grows_def
proof
  assume inv: "refs_inv w \<and> load w + peerCount (host w) * 2 ^ 32 < 2 ^ 63"
  from assms obtain pl ps1 where l: "broadcast_loop c packet (peers (host w)) (packets w) = Some (pl, ps1)"
      and f: "free_packet (Some packet) ps1 = Some ps" and h: "peers h = pl" "same_settings (host w) h"
    by (auto simp: enet_host_broadcast_def free_packet_def split: bind_splits)
  from broadcast_loop_keeps [OF l, of "{#}"] inv
  have k: "counts_agree ps1 (\<Sum>p \<in># mset pl. peer_refs p)" "\<forall>p \<in> set pl. peer_wf p"
    "size (\<Sum>p \<in># mset pl. peer_refs p) \<le> size (world_refs w) + peerCount (host w) * 2 ^ 32"
    by (simp_all add: refs_inv_def host_ok_def world_refs_def load_def)
  from free_packet_keeps [OF f k(1)] k inv broadcast_loop_length [OF l] h(2)
  show "refs_inv (w\<lparr>host := h, packets := ps\<rparr>) \<and>
      load (w\<lparr>host := h, packets := ps\<rparr>) \<le> load w + peerCount (host w) * 2 ^ 32"
    by (auto simp: refs_inv_def host_ok_def world_refs_def load_def h(1))
qed

end
