(* ===== verification/Runs.thy ===== *)
theory Runs
  imports SendRefs
begin

text \<open>
  Programs that use the library: the calls of the application as a step relation with the number of
  references a step may add, its runs, and what holds in every state such a program can reach.
\<close>

subsection \<open>Creating and destroying a host\<close>

definition created_peer :: "nat \<Rightarrow> ENetPeer" where
  "created_peer i = emptied (reset_fields ENET_HOST_DEFAULT_MTU (zero_peer\<lparr>incomingPeerID := of_nat i\<rparr>))"

lemma zero_peer_refs:
  "outgoing_refs (zero_peer\<lparr>incomingPeerID := n\<rparr>) = []" "channels (zero_peer\<lparr>incomingPeerID := n\<rparr>) = []"
  "channelCount (zero_peer\<lparr>incomingPeerID := n\<rparr>) = 0"
  by (simp_all add: zero_peer_def outgoing_refs_def)

lemma reset_peers_created:
  "reset_peers ENET_HOST_DEFAULT_MTU (map (\<lambda>i. zero_peer\<lparr>incomingPeerID := of_nat i\<rparr>) is) ps =
     Some (map created_peer is, ps)"
proof (induction "is")
  case (Cons i js)
  let ?p = "reset_fields ENET_HOST_DEFAULT_MTU (zero_peer\<lparr>incomingPeerID := of_nat i\<rparr>)"
  have "channels_wf ?p" by (simp add: channels_wf_def reset_fields_def zero_peer_def)
  moreover have "outgoing_refs ?p = []" "channels ?p = []"
    by (simp_all add: reset_fields_def zero_peer_def outgoing_refs_def)
  ultimately have "enet_peer_reset ENET_HOST_DEFAULT_MTU (zero_peer\<lparr>incomingPeerID := of_nat i\<rparr>) ps =
      Some ((), created_peer i, ps)"
    by (simp add: enet_peer_reset_def reset_queues_all created_peer_def)
  then show ?case using Cons by simp
qed simp

definition created_host :: "ENetHost \<Rightarrow> ENetAddress option \<Rightarrow> nat \<Rightarrow> u32 \<Rightarrow> u32 \<Rightarrow> ENetHost" where
  "created_host memory address n inc out = memory\<lparr>
     host_address := (case address of None \<Rightarrow> host_address memory | Some a \<Rightarrow> a),
     host_incomingBandwidth := inc, host_outgoingBandwidth := out, bandwidthThrottleEpoch := 0,
     recalculateBandwidthLimits := False, host_mtu := ENET_HOST_DEFAULT_MTU, lastServicedPeer := 0,
     commandCount := 0, bufferCount := 0, receivedAddress := \<lparr>addr_host = ENET_HOST_ANY, addr_port = 0\<rparr>,
     receivedDataLength := 0, peers := map created_peer [0..<n]\<rparr>"

lemma host_create_eq:
  "enet_host_create memory ok address n inc out ps =
     Some (if ok \<and> n \<le> ENET_PROTOCOL_MAXIMUM_PEER_ID then Some (created_host memory address (unat n) inc out)
           else None, ps)"
  by (simp add: enet_host_create_def Let_def reset_peers_created created_host_def not_less)

lemma host_create_peers:
  assumes "enet_host_create memory ok address n inc out ps = Some (Some h, ps')"
  shows "peers h = map created_peer [0..<unat n] \<and> ps' = ps"
  using assms by (auto simp: host_create_eq created_host_def split: if_splits)

lemma created_peer_refs [simp]: "peer_refs (created_peer i) = {#}" "peer_wf (created_peer i)"
  by (simp_all add: created_peer_def reset_fields_bounds mtu_ok_def)

lemma created_host_mtu:
  "enet_host_create memory ok address n inc out ps = Some (Some h, ps') \<Longrightarrow>
     mtu_ok (host_mtu h) \<and> lastServicedPeer h = 0"
  by (auto simp: host_create_eq created_host_def mtu_ok_def split: if_splits)

lemma created_refs_inv:
  assumes "enet_host_create memory ok address n inc out (packets w) = Some (Some (host w), ps')"
    and "\<forall>q k. pheap (packets w) q = Some k \<longrightarrow> referenceCount k = 0 \<and> q < pnext (packets w)"
  shows "refs_inv w \<and> world_refs w = {#}"
proof -
  have p: "peers (host w) = map created_peer [0..<unat n]" using host_create_peers [OF assms(1)] by simp
  then have "host_ok (host w)" using created_host_mtu [OF assms(1)] by (auto simp: host_ok_def)
  moreover have "world_refs w = {#}" by (simp add: world_refs_def p image_mset.compositionality comp_def)
  ultimately show ?thesis using assms(2) by (auto simp: refs_inv_def counts_agree_def p)
qed

lemma reset_peers_releases:
  assumes "\<forall>p \<in> set pl. peer_wf p" and "counts_agree ps ((\<Sum>p \<in># mset pl. peer_refs p) + R)"
  shows "\<exists>pl' ps'. reset_peers m pl ps = Some (pl', ps') \<and> counts_agree ps' R \<and>
    (\<forall>q. pheap ps' q = None \<longleftrightarrow> pheap ps q = None \<or> q \<in># (\<Sum>p \<in># mset pl. peer_refs p) \<and> q \<notin># R)"
  using assms
proof (induction pl arbitrary: ps)
  case (Cons p rest)
  let ?S = "\<Sum>p \<in># mset rest. peer_refs p"
  have "channels_wf (reset_fields m p)" and c: "counts_agree ps (peer_refs (reset_fields m p) + (?S + R))"
    using Cons.prems by (simp_all add: peer_wf_def ac_simps)
  from reset_queues_releases [OF this] obtain ps1
    where r: "enet_peer_reset m p ps = Some ((), emptied (reset_fields m p), ps1)" and k: "counts_agree ps1 (?S + R)"
      and f: "\<forall>q. pheap ps1 q = None \<longleftrightarrow> pheap ps q = None \<or> q \<in># peer_refs p \<and> q \<notin># ?S + R"
    by (auto simp: enet_peer_reset_def)
  from Cons.IH [OF _ k] Cons.prems(1) obtain pl' ps' where
      s: "reset_peers m rest ps1 = Some (pl', ps')" "counts_agree ps' R"
        "\<forall>q. pheap ps' q = None \<longleftrightarrow> pheap ps1 q = None \<or> q \<in># ?S \<and> q \<notin># R"
    by auto
  have "\<forall>q. pheap ps' q = None \<longleftrightarrow> pheap ps q = None \<or> q \<in># (\<Sum>p \<in># mset (p # rest). peer_refs p) \<and> q \<notin># R"
    using s(3) f by auto
  then show ?case using r s by simp
qed simp

subsection \<open>Runs\<close>

text \<open>
  \<open>call g w w'\<close>: one call takes the host and the packets from \<open>w\<close> to \<open>w'\<close>; \<open>g\<close> bounds what it adds
  to the load. A call that is undefined in C has no step. The application's duty is to destroy
  only packets it owns, which are those without a reference. A datagram may arrive at any time, and
  may hold any bytes.
\<close>

inductive call :: "nat \<Rightarrow> world \<Rightarrow> world \<Rightarrow> bool" where
  service: "enet_host_service event timeout w = Some (r, event', w') \<Longrightarrow> call 0 w w'"
| check_events: "enet_host_check_events event w = Some (r, event', w') \<Longrightarrow> call 0 w w'"
| flush: "enet_host_flush w = Some w' \<Longrightarrow> call 0 w w'"
| connect: "enet_host_connect address n w = Some (r, w') \<Longrightarrow> call 0 w w'"
| disconnect: "enet_peer_disconnect enet_host_flush i dat w = Some w' \<Longrightarrow> call 0 w w'"
| disconnect_now: "enet_peer_disconnect_now enet_host_flush i dat w = Some w' \<Longrightarrow> call 0 w w'"
| disconnect_later: "enet_peer_disconnect_later enet_host_flush i dat w = Some w' \<Longrightarrow> call 0 w w'"
| reset: "on_peer i (enet_peer_reset (host_mtu (host w))) w = Some (r, w') \<Longrightarrow> call 0 w w'"
| ping: "on_peer i enet_peer_ping w = Some (r, w') \<Longrightarrow> call 0 w w'"
| throttle_configure: "on_peer i (enet_peer_throttle_configure a b c) w = Some (r', w') \<Longrightarrow> call 0 w w'"
| receive: "on_peer i (enet_peer_receive c) w = Some (r'', w') \<Longrightarrow> call 0 w w'"
| send: "on_peer i (enet_peer_send c packet) w = Some (s, w') \<Longrightarrow> call (2 ^ 32) w w'"
| broadcast: "enet_host_broadcast c packet (host w) (packets w) = Some (h, ps) \<Longrightarrow>
    call (peerCount (host w) * 2 ^ 32) w (w\<lparr>host := h, packets := ps\<rparr>)"
| bandwidth_limit: "call 0 w (update_host (enet_host_bandwidth_limit inc out) w)"
| create: "enet_packet_create dat len flags (packets w) = Some (q, ps) \<Longrightarrow> call 0 w (w\<lparr>packets := ps\<rparr>)"
| destroy: "pheap (packets w) q = Some k \<Longrightarrow> referenceCount k = 0 \<Longrightarrow>
    enet_packet_destroy q (packets w) = Some ps \<Longrightarrow> call 0 w (w\<lparr>packets := ps\<rparr>)"
| resize: "enet_packet_resize q len (packets w) = Some (s, ps) \<Longrightarrow> call 0 w (w\<lparr>packets := ps\<rparr>)"
| arrive: "call (pending_bytes as) w (w\<lparr>inbox := inbox w @ as\<rparr>)"

inductive runs :: "nat \<Rightarrow> world \<Rightarrow> world \<Rightarrow> bool" where
  stop: "runs 0 w w"
| step: "runs a w w1 \<Longrightarrow> call b w1 w2 \<Longrightarrow> runs (a + b) w w2"

lemma call_grows: "call g w w' \<Longrightarrow> grows g w w'"
proof (induction rule: call.induct)
  case (destroy w q k ps)
  have "free_packet (Some q) (packets w) = Some ps" using destroy by (simp add: free_packet_def)
  then show ?case by (intro grows_packets) (rule free_packet_keeps)
next
  case (resize q len w s ps)
  then show ?case
    by (intro grows_packets) (auto simp: enet_packet_resize_def intro: counts_agree_data split: option.splits if_splits)
next
  case (arrive as w)
  then show ?case by (simp add: grows_def load_def refs_inv_def world_refs_def)
next
  case (send i c packet w s w')
  then show ?case by (rule send.on_peer_grows)
next
  case (broadcast c packet w h ps)
  then show ?case by (rule broadcast_grows)
next
  case (bandwidth_limit w inc out)
  then show ?case by (rule update_host_grows) (simp add: enet_host_bandwidth_limit_def)
qed (auto intro: host_service_grows check_events_grows flush_grows host_connect_grows peer_disconnect_grows
    disconnect_now_grows disconnect_later_grows reset_grows ping.on_peer_grows
    throttle_configure.on_peer_grows receive.on_peer_grows create_grows)

lemma runs_grows: "runs g w w' \<Longrightarrow> grows g w w'"
  by (induction rule: runs.induct) (auto intro: grows_trans call_grows)

subsection \<open>A small host for the examples\<close>

text \<open>Its receive buffer is shorter than the 4096 bytes of the code.\<close>

definition example_memory :: ENetHost where
  "example_memory = \<lparr>host_address = \<lparr>addr_host = 0, addr_port = 0\<rparr>, host_incomingBandwidth = 0,
     host_outgoingBandwidth = 0, bandwidthThrottleEpoch = 0, host_mtu = 0, recalculateBandwidthLimits = False,
     peers = [], serviceTime = 0, lastServicedPeer = 0, continueSending = False, packetSize = 0, headerFlags = 0,
     commands = replicate ENET_PROTOCOL_MAXIMUM_PACKET_COMMANDS (local_command 0 0 HeaderOnly), commandCount = 0,
     buffers = replicate ENET_BUFFER_MAXIMUM \<lparr>buf_data = HeaderBuffer, buf_dataLength = 0\<rparr>, bufferCount = 0,
     receivedAddress = \<lparr>addr_host = 0, addr_port = 0\<rparr>, receivedData = replicate 64 0,
     receivedDataLength = 0\<rparr>"

definition empty_store :: packet_store where
  "empty_store = \<lparr>pheap = (\<lambda>_. None), pnext = 0, callback_log = [], junk = 0\<rparr>"

definition example_host :: ENetHost where
  "example_host = created_host example_memory None 1 0 0"

definition example_world :: world where
  "example_world = \<lparr>host = example_host, packets = empty_store, clock = (\<lambda>n. of_nat n), clock_reads = 0,
     rands = (\<lambda>_. 7), rand_reads = 0, inbox = [], send_result = (\<lambda>_. 1), sent = [], waits = [],
     stack_junk = 0\<rparr>"

lemma example_created:
  "enet_host_create example_memory True None 1 0 0 empty_store = Some (Some example_host, empty_store)"
  by (simp add: host_create_eq example_host_def)

text \<open>
  A run: connect, receive the datagram that accepts the connection, create a packet and send it.
\<close>

definition accepting_datagram :: bytes where
  "accepting_datagram = take 10 (image_of_header \<lparr>ph_checksum = 0, ph_peerID = 0, ph_protoMajor = 0,
       ph_protoMinor = 0, ph_flags = 0, ph_padding = 0, ph_sentTime = 0\<rparr>) @
     image_of_command (local_command ENET_PROTOCOL_COMMAND_VERIFY_CONNECT 0xFF
       (VerifyConnect \<lparr>ver_outgoingPeerID = 0, ver_mtu = ENET_HOST_TO_NET_16 1400,
          ver_windowSize = ENET_HOST_TO_NET_32 32768, ver_channelCount = ENET_HOST_TO_NET_32 1,
          ver_incomingBandwidth = 0, ver_outgoingBandwidth = 0,
          ver_packetThrottleInterval = ENET_HOST_TO_NET_32 5000,
          ver_packetThrottleAcceleration = ENET_HOST_TO_NET_32 2,
          ver_packetThrottleDeceleration = ENET_HOST_TO_NET_32 2\<rparr>))"

definition no_event :: ENetEvent where
  "no_event = \<lparr>event_type = ENET_EVENT_TYPE_NONE, event_peer = None, event_channelID = 0, event_data = 0,
     event_packet = None\<rparr>"

definition example_peer :: ENetAddress where
  "example_peer = \<lparr>addr_host = 1, addr_port = 2\<rparr>"

definition example_run :: "(int \<times> int \<times> world) option" where
  "example_run = do {
     (_, w1) \<leftarrow> enet_host_connect example_peer 1 example_world;
     (r, _, w2) \<leftarrow> enet_host_service (Some no_event) 0
        (w1\<lparr>inbox := inbox w1 @ [Datagram example_peer accepting_datagram]\<rparr>);
     (q, ps) \<leftarrow> enet_packet_create (Some [1, 2, 3]) 3 ENET_PACKET_FLAG_RELIABLE (packets w2);
     (s, w3) \<leftarrow> on_peer 0 (enet_peer_send 0 q) (w2\<lparr>packets := ps\<rparr>);
     Some (r, s, w3) }"

lemma example_run_result:
  "map_option (\<lambda>(r, s, w). (r, s, map peer_state (peers (host w)), map_option referenceCount (pheap (packets w) 0)))
     example_run = Some (1, 0, [ENET_PEER_STATE_CONNECTED], Some 1)"
  by code_simp

lemma example_runs:
  "\<exists>w. runs (46 + 2 ^ 32) example_world w \<and> map_option referenceCount (pheap (packets w) 0) = Some 1"
proof -
  obtain x w1 r e w2 q ps s w where c: "enet_host_connect example_peer 1 example_world = Some (x, w1)"
    and v: "enet_host_service (Some no_event) 0
      (w1\<lparr>inbox := inbox w1 @ [Datagram example_peer accepting_datagram]\<rparr>) = Some (r, e, w2)"
    and k: "enet_packet_create (Some [1, 2, 3]) 3 ENET_PACKET_FLAG_RELIABLE (packets w2) = Some (q, ps)"
    and d: "on_peer 0 (enet_peer_send 0 q) (w2\<lparr>packets := ps\<rparr>) = Some (s, w)"
    and one: "map_option referenceCount (pheap (packets w) 0) = Some 1"
    using example_run_result unfolding example_run_def by (auto split: bind_splits)
  have n: "pending_bytes [Datagram example_peer accepting_datagram] = 46"
    by (simp add: accepting_datagram_def image_of_command_def image_of_command_header_def local_command_def
        image_of_header_def le16_def le32_def)
  from runs.step [OF runs.stop call.connect [OF c]] have "runs 0 example_world w1" by simp
  from runs.step [OF this call.arrive [of "[Datagram example_peer accepting_datagram]"]]
  have "runs 46 example_world (w1\<lparr>inbox := inbox w1 @ [Datagram example_peer accepting_datagram]\<rparr>)"
    by (simp only: n add_0)
  from runs.step [OF this call.service [OF v]] have "runs 46 example_world w2" by simp
  from runs.step [OF this call.create [OF k]] have "runs 46 example_world (w2\<lparr>packets := ps\<rparr>)" by simp
  from runs.step [OF this call.send [OF d]] one show ?thesis by blast
qed

lemma example_fresh:
  "\<forall>q k. pheap (packets example_world) q = Some k \<longrightarrow> referenceCount k = 0 \<and> q < pnext (packets example_world)"
  by (simp add: example_world_def empty_store_def)

lemma example_world_created:
  "enet_host_create example_memory True None 1 0 0 (packets example_world) =
     Some (Some (host example_world), packets example_world)"
  by (simp add: example_world_def example_created)

lemma example_bound: "pending_bytes (inbox example_world) + (46 + 2 ^ 32) < 2 ^ 63"
  by (simp add: example_world_def)

subsection \<open>Reference counts in every reachable state\<close>

lemma reachable_refs_inv:
  assumes "enet_host_create memory True address n inc out (packets w0) = Some (Some (host w0), ps)"
    and "\<forall>q k. pheap (packets w0) q = Some k \<longrightarrow> referenceCount k = 0 \<and> q < pnext (packets w0)"
    and "runs g w0 w" and "pending_bytes (inbox w0) + g < 2 ^ 63"
  shows "refs_inv w"
  using created_refs_inv [OF assms(1,2)] runs_grows [OF assms(3)] assms(4) by (simp add: grows_def load_def)

text \<open>C3. In every state that a program reaches from a fresh host by calls of the library, the
  reference count of each packet is the number of queue entries of all peers that carry it, every
  queued packet is allocated, and a free slot holds nothing. The bound keeps the 64-bit counters from
  wrapping.\<close>

theorem reachable_reference_counts:
  assumes "enet_host_create memory True address n inc out (packets w0) = Some (Some (host w0), ps)"
    and "\<forall>q k. pheap (packets w0) q = Some k \<longrightarrow> referenceCount k = 0 \<and> q < pnext (packets w0)"
    and "runs g w0 w" and "pending_bytes (inbox w0) + g < 2 ^ 63"
  shows "(\<forall>q k. pheap (packets w) q = Some k \<longrightarrow> unat (referenceCount k) = count (world_refs w) q) \<and>
    (\<forall>q \<in># world_refs w. pheap (packets w) q \<noteq> None) \<and>
    (\<forall>p \<in> set (peers (host w)). peer_state p = ENET_PEER_STATE_DISCONNECTED \<longrightarrow>
       peer_refs p = {#} \<and> channels p = [])"
  using reachable_refs_inv [OF assms]
  by (auto simp: refs_inv_def counts_agree_def peer_wf_def slot_ok_def)

theorem reachable_reference_counts_witness:
  "\<exists>w. runs (46 + 2 ^ 32) example_world w \<and> count (world_refs w) 0 = 1"
proof -
  obtain w where w: "runs (46 + 2 ^ 32) example_world w" "map_option referenceCount (pheap (packets w) 0) = Some 1"
    using example_runs by blast
  then obtain k where k: "pheap (packets w) 0 = Some k" "referenceCount k = 1" by auto
  from reachable_reference_counts [OF example_world_created example_fresh w(1) example_bound] k(1)
  have "unat (referenceCount k) = count (world_refs w) 0" by blast
  then have "count (world_refs w) 0 = 1" using k(2) by simp
  with w(1) show ?thesis by blast
qed

text \<open>C10. Destroying the host at the end of such a program is safe: it returns, and the packets that are
  gone afterwards are exactly those that were queued; none of them is lost, none destroyed twice, and
  the application's own packets stay.\<close>

theorem host_destroy_frees_queued_packets:
  assumes "enet_host_create memory True address n inc out (packets w0) = Some (Some (host w0), ps)"
    and "\<forall>q k. pheap (packets w0) q = Some k \<longrightarrow> referenceCount k = 0 \<and> q < pnext (packets w0)"
    and "runs g w0 w" and "pending_bytes (inbox w0) + g < 2 ^ 63"
  shows "\<exists>ps'. enet_host_destroy (host w) (packets w) = Some ps' \<and>
    (\<forall>q. pheap ps' q = None \<longleftrightarrow> pheap (packets w) q = None \<or> q \<in># world_refs w) \<and>
    (\<forall>q k. pheap ps' q = Some k \<longrightarrow> referenceCount k = 0)"
proof -
  have inv: "\<forall>p \<in> set (peers (host w)). peer_wf p"
    "counts_agree (packets w) ((\<Sum>p \<in># mset (peers (host w)). peer_refs p) + {#})"
    using reachable_refs_inv [OF assms] by (simp_all add: refs_inv_def world_refs_def)
  from reset_peers_releases [OF this, of "host_mtu (host w)"] obtain pl' ps'
    where "reset_peers (host_mtu (host w)) (peers (host w)) (packets w) = Some (pl', ps')" "counts_agree ps' {#}"
      "\<forall>q. pheap ps' q = None \<longleftrightarrow> pheap (packets w) q = None \<or> q \<in># world_refs w"
    by (auto simp: world_refs_def)
  then show ?thesis by (auto simp: enet_host_destroy_def counts_agree_def unat_eq_0)
qed

theorem host_destroy_frees_queued_packets_witness:
  "\<exists>w ps. runs (46 + 2 ^ 32) example_world w \<and> enet_host_destroy (host w) (packets w) = Some ps"
proof -
  obtain w where w: "runs (46 + 2 ^ 32) example_world w" using example_runs by blast
  from host_destroy_frees_queued_packets [OF example_world_created example_fresh w example_bound] w
  show ?thesis by blast
qed

subsection \<open>Bounds in every reachable state\<close>

lemma incoming_refs:
  assumes "p \<in> set (peers (host w))" and "ch \<in> set (channels p)"
    and "ic \<in> set (incomingReliableCommands ch @ incomingUnreliableCommands ch)" and "ic_packet ic = Some q"
  shows "q \<in># world_refs w"
proof -
  have "q \<in> set (channel_refs ch)" using assms(3,4) by (force simp: channel_refs_def refs_of_def)
  then have "q \<in># peer_refs p" using assms(2) by (auto simp: peer_refs_def channels_refs_def)
  then show ?thesis using assms(1) by (auto simp: world_refs_def)
qed

lemma incoming_packets:
  assumes "refs_inv w" and "p \<in> set (peers (host w))" and "ch \<in> set (channels p)"
    and "ic \<in> set (incomingReliableCommands ch @ incomingUnreliableCommands ch)"
  shows "\<exists>q. ic_packet ic = Some q \<and> pheap (packets w) q \<noteq> None"
proof -
  have "channel_ok ch" using assms(1-3) by (auto simp: refs_inv_def peer_wf_def channels_wf_def)
  then obtain q where q: "ic_packet ic = Some q" using assms(4) by (auto simp: channel_ok_def)
  from incoming_refs [OF assms(2-4) q] assms(1) have "pheap (packets w) q \<noteq> None"
    by (auto simp: refs_inv_def dest: counts_agreeD(1))
  with q show ?thesis by blast
qed

text \<open>C9. In every reachable state each peer is well formed: the array of channels has the length the
  peer says, at most 255; the MTU is between 576 and 4096 and the window between 4096 and 32768 bytes,
  whatever the other side asked for; the throttle is at most its limit, the limit at most the scale, the
  counter below it, also when the bandwidth arithmetic wraps around; the window of unsequenced groups
  has its four words; and every command that has arrived carries a packet that is allocated.\<close>

theorem reachable_peers_well_formed:
  assumes "enet_host_create memory True address n inc out (packets w0) = Some (Some (host w0), ps)"
    and "\<forall>q k. pheap (packets w0) q = Some k \<longrightarrow> referenceCount k = 0 \<and> q < pnext (packets w0)"
    and "runs g w0 w" and "pending_bytes (inbox w0) + g < 2 ^ 63"
  shows "\<forall>p \<in> set (peers (host w)).
    length (channels p) = unat (channelCount p) \<and> length (channels p) \<le> 255 \<and>
    576 \<le> peer_mtu p \<and> peer_mtu p \<le> 4096 \<and> 4096 \<le> windowSize p \<and> windowSize p \<le> 32768 \<and>
    packetThrottle p \<le> packetThrottleLimit p \<and> packetThrottleLimit p \<le> 32 \<and> packetThrottleCounter p < 32 \<and>
    length (unsequencedWindow p) = 4 \<and>
    (\<forall>ch \<in> set (channels p). \<forall>ic \<in> set (incomingReliableCommands ch @ incomingUnreliableCommands ch).
       \<exists>q. ic_packet ic = Some q \<and> pheap (packets w) q \<noteq> None)"
  using reachable_refs_inv [OF assms] incoming_packets [OF reachable_refs_inv [OF assms]]
  by (auto simp: refs_inv_def peer_wf_def channels_wf_def bounds_ok_def mtu_ok_def)

theorem reachable_peers_well_formed_witness:
  "\<exists>w. runs (46 + 2 ^ 32) example_world w \<and> (\<forall>p \<in> set (peers (host w)). 576 \<le> peer_mtu p)"
proof -
  obtain w where w: "runs (46 + 2 ^ 32) example_world w" using example_runs by blast
  from reachable_peers_well_formed [OF example_world_created example_fresh w example_bound] w
  show ?thesis by blast
qed

end
