(* ===== verification/WireProps.thy ===== *)
theory WireProps
  imports Runs
begin

text \<open>
  The checksum of a datagram: the one a host seals a datagram with is the one the receiver computes.
\<close>

subsection \<open>The checksum of a datagram\<close>

text \<open>
  The header goes out with 10 bytes, or with the time it was sent as two more. What the receiver reads
  of the shorter one, the checksum and the flags, is in its first 10 bytes.
\<close>

lemma image_of_header_split:
  "\<exists>r. \<forall>v. image_of_header (h\<lparr>ph_checksum := v\<rparr>) = le32 v @ r \<and> length r = 8 \<and> r ! 4 = ph_flags h"
  by (rule exI [of _ "le16 (ph_peerID h) @
     [ph_protoMajor h, ph_protoMinor h, ph_flags h, ph_padding h] @ le16 (ph_sentTime h)"])
    (simp add: image_of_header_def le16_def)

lemma short_header:
  assumes "10 \<le> n"
  shows "ph_checksum (load_header (take n (image_of_header h) @ rest)) = ph_checksum h"
    and "ph_flags (load_header (take n (image_of_header h) @ rest)) = ph_flags h"
    and "store_checksum v (take n (image_of_header h) @ rest) = take n (image_of_header (h\<lparr>ph_checksum := v\<rparr>)) @ rest"
proof -
  obtain r where r: "image_of_header (h\<lparr>ph_checksum := v\<rparr>) = le32 v @ r" and "length r = 8" "r ! 4 = ph_flags h" for v
    using image_of_header_split [of h] by blast
  have t: "take n (image_of_header (h\<lparr>ph_checksum := v\<rparr>)) = le32 v @ take (n - 4) r" for v
    using assms by (simp add: r)
  have h: "take n (image_of_header h) = le32 (ph_checksum h) @ take (n - 4) r"
    using t [of "ph_checksum h"] by simp
  show "ph_checksum (load_header (take n (image_of_header h) @ rest)) = ph_checksum h"
    unfolding h by (simp add: load_header_def load32_def le32_def load32_le32)
  have "4 < n - 4" using assms by arith
  then have "(take n (image_of_header h) @ rest) ! 8 = r ! 4"
    using assms \<open>length r = 8\<close> unfolding h by (simp add: nth_append)
  then show "ph_flags (load_header (take n (image_of_header h) @ rest)) = ph_flags h"
    using \<open>r ! 4 = ph_flags h\<close> by (simp add: load_header_def)
  show "store_checksum v (take n (image_of_header h) @ rest) = take n (image_of_header (h\<lparr>ph_checksum := v\<rparr>)) @ rest"
    unfolding t h by (simp add: store_checksum_def overwrite_def)
qed

lemma gather_other_header:
  "\<forall>b \<in> set bs. buf_data b \<noteq> HeaderBuffer \<Longrightarrow> gather hdr1 h ps bs = gather hdr2 h ps bs"
proof (induction bs)
  case (Cons b bs)
  then have "buffer_bytes hdr1 h ps b = buffer_bytes hdr2 h ps b"
    by (cases "buf_data b") (simp_all add: buffer_bytes_def)
  then show ?case using Cons by simp
qed simp

text \<open>The bytes of a datagram: the header, then what the other buffers hold.\<close>

lemma gather_datagram:
  assumes "gather hdr h ps (header_buffer h0 # bs) = Some bufs"
  obtains n body where "10 \<le> n" "n \<le> 12" "bufs = take n (image_of_header hdr) # body" "gather hdr h ps bs = Some body"
    "n = unat (buf_dataLength (header_buffer h0))"
proof -
  obtain body where "bufs = take (unat (buf_dataLength (header_buffer h0))) (image_of_header hdr) # body"
      "gather hdr h ps bs = Some body"
    using assms by (auto simp: buffer_bytes_def header_buffer_def Let_def split: bind_splits if_splits)
  then show thesis by (intro that [of "unat (buf_dataLength (header_buffer h0))" body])
      (auto simp: header_buffer_def)
qed

lemma sealed_header_cases:
  assumes "sealed_header hdr h p ps = Some hdr'"
  obtains "hdr' = hdr" "lastSendTime p mod 2 = 0"
  | bufs where "gather (hdr\<lparr>ph_flags := ph_flags hdr OR ENET_PROTOCOL_HEADER_FLAG_CRC\<rparr>) h ps
      (take (bufferCount h) (buffers h)) = Some bufs"
    "hdr' = hdr\<lparr>ph_flags := ph_flags hdr OR ENET_PROTOCOL_HEADER_FLAG_CRC, ph_checksum := enet_crc32 bufs\<rparr>"
proof (cases "lastSendTime p mod 2 = 0")
  case True
  then show thesis using assms that(1) by (simp add: sealed_header_def)
next
  case False
  let ?h = "hdr\<lparr>ph_flags := ph_flags hdr OR ENET_PROTOCOL_HEADER_FLAG_CRC\<rparr>"
  obtain bufs where g: "gather ?h h ps (take (bufferCount h) (buffers h)) = Some bufs"
    using assms False by (cases "gather ?h h ps (take (bufferCount h) (buffers h))") (simp_all add: sealed_header_def)
  show thesis by (rule that(2) [OF g]) (use assms False g in \<open>simp add: sealed_header_def\<close>)
qed

lemma enet_crc32_concat: "enet_crc32 [concat bufs] = enet_crc32 bufs"
  by (simp add: enet_crc32_def crc_buffers_concat)

text \<open>The receiver's check, on a datagram made of a header of \<open>n\<close> bytes and a body.\<close>

lemma packet_crc_ok_datagram:
  assumes "receivedData (host v) = take n (image_of_header hdr) @ body @ spare"
    and "unat (receivedDataLength (host v)) = n + length body" and "10 \<le> n" and "n \<le> 12"
  shows "fst (packet_crc_ok q v) \<longleftrightarrow> ph_flags hdr AND ENET_PROTOCOL_HEADER_FLAG_CRC = 0 \<or>
    enet_crc32 [take n (image_of_header (hdr\<lparr>ph_checksum := sessionID q\<rparr>)) @ body] = ph_checksum hdr"
proof -
  have h: "ph_flags (received_header v) = ph_flags hdr" "ph_checksum (received_header v) = ph_checksum hdr"
    using short_header(1,2) [OF assms(3)] by (simp_all add: received_header_def assms(1))
  have "received_crc (update_received (store_checksum (sessionID q)) v) =
      enet_crc32 [take n (image_of_header (hdr\<lparr>ph_checksum := sessionID q\<rparr>)) @ body]"
    using assms(2,4) by (simp add: received_crc_def update_received_def update_host_def assms(1)
        short_header(3) [OF assms(3)])
  then show ?thesis by (simp add: packet_crc_ok_def h)
qed

lemma sealed_crc_ok:
  assumes "gather hdr' h ps (header_buffer h0 # bs) = Some bufs"
    and "sealed_header hdr h p ps = Some hdr'" and "take (bufferCount h) (buffers h) = header_buffer h0 # bs"
    and "\<forall>b \<in> set bs. buf_data b \<noteq> HeaderBuffer"
    and "ph_flags hdr AND ENET_PROTOCOL_HEADER_FLAG_CRC = 0" and "ph_checksum hdr = sessionID q"
    and "receivedData (host v) = concat bufs @ spare"
    and "unat (receivedDataLength (host v)) = length (concat bufs)"
  shows "fst (packet_crc_ok q v)"
proof -
  obtain n body where n: "10 \<le> n" "n \<le> 12" and bufs: "bufs = take n (image_of_header hdr') # body"
      and body: "gather hdr' h ps bs = Some body" and nn: "n = unat (buf_dataLength (header_buffer h0))"
    by (rule gather_datagram [OF assms(1)])
  have ok: "fst (packet_crc_ok q v) \<longleftrightarrow> ph_flags hdr' AND ENET_PROTOCOL_HEADER_FLAG_CRC = 0 \<or>
    enet_crc32 [take n (image_of_header (hdr'\<lparr>ph_checksum := sessionID q\<rparr>)) @ concat body] = ph_checksum hdr'"
    by (rule packet_crc_ok_datagram [OF _ _ n]) (use assms(7,8) n in \<open>simp_all add: bufs\<close>)
  show ?thesis
  proof (cases rule: sealed_header_cases [OF assms(2)])
    case 1
    then show ?thesis using ok assms(5) by simp
  next
    case (2 bufs1)
    let ?hdr1 = "hdr\<lparr>ph_flags := ph_flags hdr OR ENET_PROTOCOL_HEADER_FLAG_CRC\<rparr>"
    obtain n1 body1 where b1: "bufs1 = take n1 (image_of_header ?hdr1) # body1"
        "gather ?hdr1 h ps bs = Some body1" "n1 = unat (buf_dataLength (header_buffer h0))"
      using gather_datagram 2(1) [unfolded assms(3)] by blast
    have "body1 = body" using b1(2) body gather_other_header [OF assms(4), of ?hdr1 h ps hdr'] by simp
    then have "enet_crc32 [take n (image_of_header ?hdr1) @ concat body] = enet_crc32 bufs1"
      using enet_crc32_concat [of bufs1] by (simp add: b1(1,3) nn)
    moreover have "hdr'\<lparr>ph_checksum := sessionID q\<rparr> = ?hdr1" using assms(6) by (simp add: 2(2))
    ultimately show ?thesis using ok 2(2) by simp
  qed
qed

text \<open>C11. A datagram a host sends passes the check of the receiver that knows the peer by the same
  session number, both when it is sealed with a checksum (which replaces the session number the sum was
  computed with) and when it is not, and with or without the time in the header. It is handed to the
  socket as one datagram for the address of the peer.\<close>

theorem sent_datagram_passes_checksum:
  assumes "send_datagram i w = Some (r, w')" and "get_peer w i = Some p"
    and "buffers (host w) \<noteq> []" and "0 < bufferCount (host w)"
    and "\<forall>b \<in> set (tl (take (bufferCount (host w)) (buffers (host w)))). buf_data b \<noteq> HeaderBuffer"
    and "headerFlags (host w) AND ENET_PROTOCOL_HEADER_FLAG_CRC = 0" and "sessionID q = sessionID p"
  shows "\<exists>bs. sent w' = sent w @ [(peer_address p, bs)] \<and>
    (\<forall>v spare. receivedData (host v) = bs @ spare \<and> unat (receivedDataLength (host v)) = length bs \<longrightarrow>
       fst (packet_crc_ok q v))"
proof -
  define p1 where "p1 = update_packet_loss (serviceTime (host w)) p"
  define h where "h = (host w)\<lparr>buffers := (buffers (host w))[0 := header_buffer (host w)]\<rparr>"
  let ?w = "put_peer i (p1\<lparr>lastSendTime := serviceTime h\<rparr>) (w\<lparr>host := h\<rparr>)"
  let ?hdr = "packet_header h p1 (stack_junk w)"
  have p1: "sessionID p1 = sessionID p" "peer_address p1 = peer_address p"
    by (simp_all add: p1_def update_packet_loss_def Let_def split: prod.split)
  from assms(1,2) obtain hdr' bufs len w1 z where s: "sealed_header ?hdr h p1 (packets w) = Some hdr'"
      and g: "gather hdr' h (packets w) (take (bufferCount h) (buffers h)) = Some bufs"
      and e: "enet_socket_send (peer_address p1) bufs ?w = (len, w1)"
      and o: "on_peer i enet_protocol_remove_sent_unreliable_commands w1 = Some (z, w')"
    by (auto simp: send_datagram_def p1_def h_def Let_def split: bind_splits prod.splits)
  have "sent w' = sent w1" using o by (auto simp: put_peer_def elim: on_peer_cases)
  then have sent: "sent w' = sent w @ [(peer_address p, concat bufs)]"
    using e p1(2) by (auto simp: enet_socket_send_def put_peer_def)
  have b: "take (bufferCount h) (buffers h) = header_buffer (host w) # tl (take (bufferCount (host w)) (buffers (host w)))"
    using assms(3,4) by (cases "buffers (host w)"; cases "bufferCount (host w)") (simp_all add: h_def)
  have flags: "ph_flags ?hdr AND ENET_PROTOCOL_HEADER_FLAG_CRC = 0"
  proof -
    have "ucast (headerFlags (host w) AND 1) = (0 :: u8)" using assms(6) by simp
    then show ?thesis by (simp add: packet_header_def h_def unsigned_and_eq)
  qed
  have sess: "ph_checksum ?hdr = sessionID q" using assms(7) p1 by (simp add: packet_header_def)
  have "fst (packet_crc_ok q v)"
    if "receivedData (host v) = concat bufs @ spare" "unat (receivedDataLength (host v)) = length (concat bufs)"
    for v spare
    by (rule sealed_crc_ok [OF g [unfolded b] s b assms(5) flags sess that])
  then show ?thesis using sent by blast
qed

definition pinging_world :: world where
  "pinging_world =
    (let h = add_command (local_command ENET_PROTOCOL_COMMAND_PING 0xFF Ping) 4
       (example_host\<lparr>headerFlags := ENET_PROTOCOL_HEADER_FLAG_SENT_TIME, commandCount := 0, bufferCount := 1,
          packetSize := 12\<rparr>)
     in example_world\<lparr>host := h\<lparr>peers := [(created_peer 0)\<lparr>sessionID := 7, lastSendTime := 1\<rparr>]\<rparr>\<rparr>)"

lemma created_peer_queues:
  "sentUnreliableCommands (created_peer i) = []" "packetLossEpoch (created_peer i) = 0"
  by (simp_all add: created_peer_def emptied_def reset_fields_def)

lemma replicate_65: "replicate 65 x = x # x # replicate 63 x" "replicate 32 y = y # replicate 31 y"
  by (simp_all add: eval_nat_numeral)

lemma pinging_world_sends: "\<exists>r w. send_datagram 0 pinging_world = Some (r, w)"
  by (simp add: send_datagram_def pinging_world_def example_world_def example_host_def created_host_def
      example_memory_def get_peer_def add_command_def Let_def update_packet_loss_def created_peer_queues
      sealed_header_def buffer_bytes_def header_buffer_def packet_header_def image_of_command_def
      image_of_command_header_def local_command_def enet_socket_send_def on_peer_def put_peer_def
      enet_protocol_remove_sent_unreliable_commands_def replicate_65)

theorem sent_datagram_passes_checksum_witness:
  "\<exists>r w bs. send_datagram 0 pinging_world = Some (r, w) \<and>
     sent w = sent pinging_world @ [(peer_address (created_peer 0), bs)]"
proof -
  obtain r w where s: "send_datagram 0 pinging_world = Some (r, w)" using pinging_world_sends by blast
  have "\<exists>bs. sent w = sent pinging_world @
      [(peer_address ((created_peer 0)\<lparr>sessionID := 7, lastSendTime := 1\<rparr>), bs)] \<and>
    (\<forall>v spare. receivedData (host v) = bs @ spare \<and> unat (receivedDataLength (host v)) = length bs \<longrightarrow>
       fst (packet_crc_ok (zero_peer\<lparr>sessionID := 7\<rparr>) v))"
    by (rule sent_datagram_passes_checksum [OF s])
      (simp_all add: pinging_world_def Let_def get_peer_def add_command_def example_host_def created_host_def
        example_memory_def replicate_65)
  then show ?thesis using s by auto
qed

end
