(* ===== verification/Arrival.thy ===== *)
theory Arrival
  imports Runs
begin

text \<open>
  A packet on its way from one application to another: the bytes \<open>enet_peer_send\<close> makes of its command, and
  what the loop over the commands of a datagram and \<open>enet_peer_receive\<close> make of these bytes and the data
  behind them.
\<close>

subsection \<open>The bytes of a command\<close>

text \<open>A number in network order.\<close>

definition network16 :: "u16 \<Rightarrow> bytes" where
  "network16 n = [ucast (drop_bit 8 n), ucast n]"

lemma le16_network: "le16 (ENET_HOST_TO_NET_16 n) = network16 n"
proof -
  have "ucast (ENET_HOST_TO_NET_16 n) = (ucast (drop_bit 8 n) :: u8)" "ucast (drop_bit 8 (ENET_HOST_TO_NET_16 n)) = (ucast n :: u8)"
    by (rule bit_word_eqI; auto simp: ENET_HOST_TO_NET_16_def bit_simps)+
  then show ?thesis by (simp add: le16_def network16_def)
qed

text \<open>
  The bytes in front of the data of a packet with \<open>len\<close> bytes, sent by \<open>p\<close> on channel \<open>c\<close>, whose state
  is \<open>ch\<close>, as protocol.h lays them out: command and flags, channel, reliable sequence number, then for an
  unsequenced packet its group, for an unreliable one its number, and the length.
\<close>

definition packet_octets :: "u32 \<Rightarrow> ENetPeer \<Rightarrow> u8 \<Rightarrow> ENetChannel \<Rightarrow> u16 \<Rightarrow> bytes" where
  "packet_octets flags p c ch len =
    (if flags AND 1 \<noteq> 0 then
       [0x86, c] @ network16 (ch_outgoingReliableSequenceNumber ch + 1) @ network16 len
     else if flags AND 2 \<noteq> 0 then
       [0x49, c] @ network16 0 @ network16 (outgoingUnsequencedGroup p + 1) @ network16 len
     else
       [0x07, c] @ network16 (ch_outgoingReliableSequenceNumber ch) @
         network16 (ch_outgoingUnreliableSequenceNumber ch + 1) @ network16 len)"

text \<open>The command in the memory of the receiver, with the sequence number in host order.\<close>

definition packet_command :: "u32 \<Rightarrow> ENetPeer \<Rightarrow> u8 \<Rightarrow> ENetChannel \<Rightarrow> u16 \<Rightarrow> ENetProtocol" where
  "packet_command flags p c ch len =
    (if flags AND 1 \<noteq> 0 then
       \<lparr>prt_header = \<lparr>hdr_command = 0x86, hdr_channelID = c,
          hdr_reliableSequenceNumber = ch_outgoingReliableSequenceNumber ch + 1\<rparr>,
        prt_body = SendReliable \<lparr>srl_dataLength = ENET_HOST_TO_NET_16 len\<rparr>\<rparr>
     else if flags AND 2 \<noteq> 0 then
       \<lparr>prt_header = \<lparr>hdr_command = 0x49, hdr_channelID = c, hdr_reliableSequenceNumber = 0\<rparr>,
        prt_body = SendUnsequenced \<lparr>suq_unsequencedGroup = ENET_HOST_TO_NET_16 (outgoingUnsequencedGroup p + 1),
          suq_dataLength = ENET_HOST_TO_NET_16 len\<rparr>\<rparr>
     else
       \<lparr>prt_header = \<lparr>hdr_command = 7, hdr_channelID = c,
          hdr_reliableSequenceNumber = ch_outgoingReliableSequenceNumber ch\<rparr>,
        prt_body = SendUnreliable \<lparr>sul_unreliableSequenceNumber =
          ENET_HOST_TO_NET_16 (ch_outgoingUnreliableSequenceNumber ch + 1), sul_dataLength = ENET_HOST_TO_NET_16 len\<rparr>\<rparr>)"

lemma packet_command_octets:
  "image_of_command (c0\<lparr>prt_header := (prt_header c0)\<lparr>hdr_reliableSequenceNumber := ENET_HOST_TO_NET_16 (sequence_of c0)\<rparr>\<rparr>) =
     packet_octets flags p c ch len" if "c0 = packet_command flags p c ch len"
  unfolding that
  by (simp add: packet_command_def packet_octets_def image_of_command_def image_of_command_header_def le16_network)

lemma packet_command_facts:
  "wf_command (packet_command flags p c ch len)" "channelID_of (packet_command flags p c ch len) = c"
  by (simp_all add: wf_command_def packet_command_def)

subsection \<open>Sending\<close>

text \<open>The queue a packet with these flags goes to.\<close>

definition outgoing_queue :: "u32 \<Rightarrow> ENetPeer \<Rightarrow> ENetOutgoingCommand list" where
  "outgoing_queue flags p = (if flags AND 1 \<noteq> 0 then outgoingReliableCommands p else outgoingUnreliableCommands p)"

lemma get_channel_total: "get_channel (p\<lparr>outgoingDataTotal := n\<rparr>) c = get_channel p c"
  by (simp add: get_channel_def)

lemma send_whole_packet:
  assumes "enet_peer_send c packet p ps = Some (0, p', ps')" and "get_channel p c = Some ch" and "c \<noteq> 0xFF"
    and "pheap ps packet = Some k" and "36 \<le> unat (peer_mtu p)" and "unat (pkt_dataLength k) \<le> unat (peer_mtu p) - 36"
  obtains oc where "outgoing_queue (pkt_flags k) p' = outgoing_queue (pkt_flags k) p @ [oc]" "oc_packet oc = Some packet"
    "oc_fragmentOffset oc = 0" "unat (oc_fragmentLength oc) = unat (pkt_dataLength k)"
    "image_of_command (oc_command oc) = packet_octets (pkt_flags k) p c ch (ucast (pkt_dataLength k))"
proof -
  let ?F = "(ucast (peer_mtu p) :: usize) - sizeof_ENetProtocolHeader - 24"
  have "?F = ucast (peer_mtu p) - 36" by simp
  also have "unat \<dots> = unat (peer_mtu p) - 36" using assms(5) by (subst unat_sub) (simp_all add: word_le_nat_alt unat_ucast_up)
  finally have F: "unat ?F = unat (peer_mtu p) - 36" .
  have whole: "\<not> pkt_dataLength k > ?F" using assms(6) unfolding word_less_nat_alt F by simp
  have mtu: "unat (peer_mtu p) < 2 ^ 16" using unsigned_less [of "peer_mtu p", where ?'a = nat] by simp
  have l: "unat (ucast (pkt_dataLength k) :: u16) = unat (pkt_dataLength k)"
    using assms(6) mtu by (simp add: unsigned_ucast_eq take_bit_nat_eq_self)
  note defs = enet_peer_queue_outgoing_command_def next_sequence_numbers_def local_command_def outgoing_queue_def
    packet_octets_def image_of_command_def image_of_command_header_def le16_network put_channel_def packet_flag_defs get_channel_total
  consider (reliable) "pkt_flags k AND 1 \<noteq> 0" | (unsequenced) "pkt_flags k AND 1 = 0" "pkt_flags k AND 2 \<noteq> 0"
    | (unreliable) "pkt_flags k AND 1 = 0" "pkt_flags k AND 2 = 0" by blast
  then show thesis
  proof cases
    case reliable
    then show ?thesis using assms(1-4) whole l that
      by (auto simp: enet_peer_send_def Let_def defs split: bind_splits if_splits)
  next
    case unsequenced
    then show ?thesis using assms(1-4) whole l that
      by (auto simp: enet_peer_send_def Let_def defs split: bind_splits if_splits)
  next
    case unreliable
    then show ?thesis using assms(1-4) whole l that
      by (auto simp: enet_peer_send_def Let_def defs split: bind_splits if_splits)
  qed
qed

subsection \<open>Numbers in step\<close>

lemma low_16: "(ucast (n :: u16) :: u32) AND 0xFFFF = ucast n"
proof -
  have "(ucast n :: u32) AND mask 16 = ucast n" by (rule bit_word_eqI) (auto simp: bit_simps dest: bit_imp_le_length)
  then show ?thesis by (simp add: mask_eq_exp_minus_1)
qed

lemma widen_same: "widen_sequence n n = ucast n" "\<not> sequence_is_old n (ucast n)"
  by (auto simp: widen_sequence_def sequence_is_old_def low_16 word_le_nat_alt word_less_nat_alt unat_ucast_up)

lemma ucast_16_32_16: "ucast (ucast (m :: u16) :: u32) = m"
  by (rule bit_word_eqI) (auto simp: bit_simps dest: bit_imp_le_length)

lemma widen_next:
  fixes n :: u16
  defines "v \<equiv> widen_sequence n (n + 1)"
  shows "\<not> sequence_is_old n v" "ucast n < v" "ucast (v AND 0xFFFF) = n + 1" "n < 0x1000 \<Longrightarrow> \<not> 0xF000 \<le> v AND 0xFFFF"
proof -
  have "\<not> sequence_is_old n v \<and> ucast n < v \<and> ucast (v AND 0xFFFF) = n + 1 \<and> (n < 0x1000 \<longrightarrow> \<not> 0xF000 \<le> v AND 0xFFFF)"
  proof (cases "n + 1 = 0")
    case True
    then have "n = - 1" by (simp add: eq_neg_iff_add_eq_0)
    then have "n = 0xFFFF" by simp
    then show ?thesis by (simp add: v_def widen_sequence_def sequence_is_old_def)
  next
    case False
    then have n: "unat (n + 1) = unat n + 1" by (metis Suc_eq_plus1 add.commute unatSuc)
    have "v = ucast (n + 1)" using n by (auto simp: v_def widen_sequence_def word_le_nat_alt word_less_nat_alt unat_ucast_up)
    then show ?thesis
      using n by (auto simp: sequence_is_old_def low_16 ucast_16_32_16 word_le_nat_alt word_less_nat_alt unat_ucast_up)
  qed
  then show "\<not> sequence_is_old n v" "ucast n < v" "ucast (v AND 0xFFFF) = n + 1" "n < 0x1000 \<Longrightarrow> \<not> 0xF000 \<le> v AND 0xFFFF"
    by blast+
qed

text \<open>
  The receiver's channel \<open>rch\<close> has got and handed out all that the sender has sent on \<open>ch\<close>.
\<close>

definition in_step :: "ENetChannel \<Rightarrow> ENetChannel \<Rightarrow> bool" where
  "in_step ch rch \<longleftrightarrow>
     ch_incomingReliableSequenceNumber rch = ch_outgoingReliableSequenceNumber ch \<and>
     ch_incomingUnreliableSequenceNumber rch = ch_outgoingUnreliableSequenceNumber ch \<and>
     incomingReliableCommands rch = [] \<and> incomingUnreliableCommands rch = []"

lemma place_in_step:
  assumes "in_step ch rch"
  shows "\<exists>u. incoming_place rch (packet_command flags p c ch len) = Some (flags AND 1 \<noteq> 0, 0, u)"
  using assms widen_next(1,2,4) [of "ch_outgoingReliableSequenceNumber ch"] widen_next(2,4) [of "ch_outgoingUnreliableSequenceNumber ch"]
  by (auto simp: in_step_def incoming_place_def packet_command_def Let_def widen_same not_le)

subsection \<open>Receiving\<close>

lemma queue_in_step:
  assumes "peer_state q = ENET_PEER_STATE_CONNECTED" and "get_channel q c = Some rch" and "in_step ch rch"
    and "pheap ps pid = Some pk"
  shows "\<exists>place q1 ic. enet_peer_queue_incoming_command (packet_command flags p c ch len) (Some pid) 0 q ps =
      Some (place, q1, ps\<lparr>pheap := (pheap ps)(pid \<mapsto> pk\<lparr>referenceCount := referenceCount pk + 1\<rparr>)\<rparr>) \<and>
    channels q1 = (channels q)[unat c := (if flags AND 1 \<noteq> 0 then rch\<lparr>incomingReliableCommands := [ic]\<rparr>
      else rch\<lparr>incomingUnreliableCommands := [ic]\<rparr>)] \<and> peer_state q1 = ENET_PEER_STATE_CONNECTED \<and>
    ic_reliableSequenceNumber ic = sequence_of (packet_command flags p c ch len) \<and>
    ic_command ic = packet_command flags p c ch len \<and> ic_fragmentsRemaining ic = 0 \<and> ic_packet ic = Some pid"
proof -
  obtain u where "incoming_place rch (packet_command flags p c ch len) = Some (flags AND 1 \<noteq> 0, 0, u)"
    using place_in_step [OF assms(3)] by blast
  then show ?thesis using assms
    by (auto simp: enet_peer_queue_incoming_command_def packet_command_facts packet_retain_def packet_update_def Let_def
        put_channel_def insert_at_def in_step_def)
qed

lemma receive_in_step:
  assumes "get_channel q c = Some (if flags AND 1 \<noteq> 0 then rch\<lparr>incomingReliableCommands := [ic]\<rparr>
      else rch\<lparr>incomingUnreliableCommands := [ic]\<rparr>)" and "in_step ch rch"
    and "ic_reliableSequenceNumber ic = sequence_of (packet_command flags p c ch len)"
    and "ic_command ic = packet_command flags p c ch len" and "ic_fragmentsRemaining ic = 0" and "ic_packet ic = Some pid"
    and "pheap ps pid = Some pk"
  shows "\<exists>q1. enet_peer_receive c q ps = Some (Some pid, q1, ps\<lparr>pheap := (pheap ps)(pid \<mapsto> pk\<lparr>referenceCount := referenceCount pk - 1\<rparr>)\<rparr>)"
  using assms
  by (auto simp: enet_peer_receive_def receive_unreliable_def receive_reliable_def take_packet_def packet_drop_def packet_update_def
      in_step_def packet_command_def split: if_splits)

text \<open>What a world with the packet received holds.\<close>

definition arrived :: "nat \<Rightarrow> u8 \<Rightarrow> bytes \<Rightarrow> world \<Rightarrow> bool" where
  "arrived i c dat w \<longleftrightarrow> (\<exists>q pid q1 ps pk. get_peer w i = Some q \<and> peer_state q = ENET_PEER_STATE_CONNECTED \<and>
     enet_peer_receive c q (packets w) = Some (Some pid, q1, ps) \<and> pheap ps pid = Some pk \<and>
     pkt_data pk = dat \<and> unat (pkt_dataLength pk) = length dat)"

lemma receive_packet_in_step:
  assumes "get_peer w i = Some q" and "peer_state q = ENET_PEER_STATE_CONNECTED" and "get_channel q c = Some rch"
    and "in_step ch rch" and "unat len \<le> length dat" and "fl AND 4 = 0"
  shows "\<exists>w1. receive_packet i (packet_command flags p c ch clen) dat len fl w = Some w1 \<and> arrived i c (take (unat len) dat) w1"
proof -
  let ?pk = "\<lparr>referenceCount = 0, pkt_flags = fl, pkt_data = take (unat len) dat, pkt_dataLength = ucast len, pkt_freeCallback = False\<rparr>"
  let ?pid = "pnext (packets w)"
  let ?ps = "(packets w)\<lparr>pheap := (pheap (packets w))(?pid \<mapsto> ?pk), pnext := Suc ?pid\<rparr>"
  have ul: "unat (ucast len :: usize) = unat len" by (simp add: unat_ucast_up)
  have create: "enet_packet_create (Some dat) (ucast len) fl (packets w) = Some (?pid, ?ps)"
    using assms(5,6) by (simp add: enet_packet_create_def packet_alloc_def packet_flag_defs ul)
  have pk: "pheap ?ps ?pid = Some ?pk" by simp
  from queue_in_step [OF assms(2,3,4) pk, of flags p clen] obtain place q1 ic where
    q: "enet_peer_queue_incoming_command (packet_command flags p c ch clen) (Some ?pid) 0 q ?ps =
      Some (place, q1, ?ps\<lparr>pheap := (pheap ?ps)(?pid \<mapsto> ?pk\<lparr>referenceCount := referenceCount ?pk + 1\<rparr>)\<rparr>)"
      "channels q1 = (channels q)[unat c := (if flags AND 1 \<noteq> 0 then rch\<lparr>incomingReliableCommands := [ic]\<rparr>
        else rch\<lparr>incomingUnreliableCommands := [ic]\<rparr>)]" "peer_state q1 = ENET_PEER_STATE_CONNECTED"
      and ic: "ic_reliableSequenceNumber ic = sequence_of (packet_command flags p c ch clen)"
        "ic_command ic = packet_command flags p c ch clen" "ic_fragmentsRemaining ic = 0" "ic_packet ic = Some ?pid"
    by blast
  let ?ps1 = "?ps\<lparr>pheap := (pheap ?ps)(?pid \<mapsto> ?pk\<lparr>referenceCount := referenceCount ?pk + 1\<rparr>)\<rparr>"
  let ?w = "(put_peer i q1 (w\<lparr>packets := ?ps\<rparr>))\<lparr>packets := ?ps1\<rparr>"
  have i: "i < peerCount (host w)" using assms(1) by (simp add: get_peer_Some)
  have "get_peer (w\<lparr>packets := ?ps\<rparr>) i = Some q" using assms(1) by (simp add: get_peer_Some)
  then have received: "receive_packet i (packet_command flags p c ch clen) dat len fl w = Some ?w"
    using q(1) create by (simp add: receive_packet_def on_peer_def)
  have g: "get_peer ?w i = Some q1" using i by (simp add: get_peer_def put_peer_def)
  have "unat c < length (channels q)" using assms(3) by (simp add: get_channel_def split: if_splits)
  then have "get_channel q1 c = Some (if flags AND 1 \<noteq> 0 then rch\<lparr>incomingReliableCommands := [ic]\<rparr>
      else rch\<lparr>incomingUnreliableCommands := [ic]\<rparr>)" using q(2) by (simp add: get_channel_def)
  moreover have "pheap ?ps1 ?pid = Some (?pk\<lparr>referenceCount := 1\<rparr>)" by simp
  ultimately obtain q2 where r: "enet_peer_receive c q1 ?ps1 = Some (Some ?pid, q2,
      ?ps1\<lparr>pheap := (pheap ?ps1)(?pid \<mapsto> (?pk\<lparr>referenceCount := 1\<rparr>)\<lparr>referenceCount := referenceCount (?pk\<lparr>referenceCount := 1\<rparr>) - 1\<rparr>)\<rparr>)"
    using receive_in_step [OF _ assms(4) ic] by blast
  have "arrived i c (take (unat len) dat) ?w"
    unfolding arrived_def by (rule exI [of _ q1], rule exI [of _ ?pid], rule exI [of _ q2]) (use g q(3) r assms(5) ul in \<open>simp add: min_def\<close>)
  then show ?thesis using received by blast
qed

text \<open>Queueing an acknowledgement does not touch the channels.\<close>

lemma acknowledge_arrived:
  assumes "arrived i c dat w"
  shows "\<exists>stop w'. acknowledge_command flags (Some i) command w = Some (stop, w') \<and> arrived i c dat w'"
proof -
  obtain q pid q1 ps pk where q: "get_peer w i = Some q" "peer_state q = ENET_PEER_STATE_CONNECTED"
      "enet_peer_receive c q (packets w) = Some (Some pid, q1, ps)" "pheap ps pid = Some pk" "pkt_data pk = dat"
      "unat (pkt_dataLength pk) = length dat"
    using assms by (auto simp: arrived_def)
  let ?q = "enet_peer_queue_acknowledgement q command (ENET_NET_TO_HOST_16 (ph_sentTime (received_header w)))"
  have i: "i < peerCount (host w)" using q(1) by (simp add: get_peer_Some)
  have ack: "channels ?q = channels q" "peer_state ?q = peer_state q" by (simp_all add: enet_peer_queue_acknowledgement_def)
  then have g: "get_channel ?q c = get_channel q c" by (simp add: get_channel_def)
  have "\<exists>q2. enet_peer_receive c ?q (packets w) = Some (Some pid, q2, ps)"
    using q(3) unfolding enet_peer_receive_def g by (auto split: bind_splits option.splits prod.splits)
  moreover have "get_peer (put_peer i ?q w) i = Some ?q" using i by (simp add: get_peer_def put_peer_def)
  ultimately have "arrived i c dat (put_peer i ?q w)"
    unfolding arrived_def using q(2,4,5,6) ack by (metis put_peer_simps(3))
  then show ?thesis using assms q(1,2) by (auto simp: acknowledge_command_def Let_def)
qed

lemma handle_packet:
  assumes "get_peer w i = Some q" and "peer_state q = ENET_PEER_STATE_CONNECTED" and "ucast c < channelCount q"
    and "get_channel q c = Some rch" and "in_step ch rch"
    and "flags AND 1 = 0 \<and> flags AND 2 \<noteq> 0 \<Longrightarrow> accept_unsequenced (outgoingUnsequencedGroup p + 1) q \<noteq> None"
    and "drop at (receivedData (host w)) = dat @ rest" and "unat len = length dat"
    and "unat (receivedDataLength (host w)) = at + length dat"
  shows "\<exists>w1. handle_command (Some i) start at (packet_command flags p c ch len) event w = Some (0, length dat, Some i, event, w1) \<and>
    arrived i c dat w1"
proof -
  let ?c = "packet_command flags p c ch len"
  have may: "may_receive q ?c" using assms(2,3) by (simp add: may_receive_def packet_command_facts)
  have fits: "payload_fits at (unat len) w" using assms(8,9) by (simp add: payload_fits_def)
  have l: "unat len \<le> length (payload at w)" and t: "take (unat len) (payload at w) = dat"
    using assms(7,8) by (simp_all add: payload_def)
  have rec: "\<exists>w1. receive_packet i ?c (payload at w) len fl v = Some w1 \<and> arrived i c dat w1"
    if "get_peer v i = Some qa" "peer_state qa = ENET_PEER_STATE_CONNECTED" "get_channel qa c = Some rch" "fl AND 4 = 0" for fl v qa
    using receive_packet_in_step [OF that(1-3) assms(5) l that(4), of flags p len] unfolding t .
  consider (reliable) "flags AND 1 \<noteq> 0" | (unsequenced) "flags AND 1 = 0" "flags AND 2 \<noteq> 0"
    | (unreliable) "flags AND 1 = 0" "flags AND 2 = 0" by blast
  then show ?thesis
  proof cases
    case reliable
    have c: "prt_body ?c = SendReliable \<lparr>srl_dataLength = ENET_HOST_TO_NET_16 len\<rparr>" using reliable by (simp add: packet_command_def)
    show ?thesis using rec [OF assms(1,2,4), of 1] assms(1,8) may fits
      by (auto simp: handle_command_def c enet_protocol_handle_send_reliable_def packet_flag_defs Let_def)
  next
    case unsequenced
    have c: "prt_body ?c = SendUnsequenced \<lparr>suq_unsequencedGroup = ENET_HOST_TO_NET_16 (outgoingUnsequencedGroup p + 1),
        suq_dataLength = ENET_HOST_TO_NET_16 len\<rparr>" using unsequenced by (simp add: packet_command_def)
    obtain qa where qa: "accept_unsequenced (outgoingUnsequencedGroup p + 1) q = Some qa" using assms(6) unsequenced by blast
    have "channels qa = channels q" "peer_state qa = peer_state q"
      using qa by (auto simp: accept_unsequenced_def Let_def split: if_splits)
    then have "peer_state qa = ENET_PEER_STATE_CONNECTED" "get_channel qa c = get_channel q c" using assms(2) by (simp_all add: get_channel_def)
    note qa_facts = this(1) this(2) [unfolded assms(4)]
    have "get_peer (put_peer i qa w) i = Some qa" using assms(1) by (simp add: get_peer_Some put_peer_def)
    from rec [OF this qa_facts, of 2] show ?thesis using assms(1,8) may fits
      by (auto simp: handle_command_def c enet_protocol_handle_send_unsequenced_def packet_flag_defs Let_def qa)
  next
    case unreliable
    have c: "prt_body ?c = SendUnreliable \<lparr>sul_unreliableSequenceNumber =
        ENET_HOST_TO_NET_16 (ch_outgoingUnreliableSequenceNumber ch + 1), sul_dataLength = ENET_HOST_TO_NET_16 len\<rparr>"
      using unreliable by (simp add: packet_command_def)
    show ?thesis using rec [OF assms(1,2,4), of 0] assms(1,8) may fits
      by (auto simp: handle_command_def c enet_protocol_handle_send_unreliable_def packet_flag_defs Let_def)
  qed
qed

text \<open>The last command of a datagram, with its data.\<close>

lemma loop_packet:
  assumes "get_peer w i = Some q" and "peer_state q = ENET_PEER_STATE_CONNECTED" and "ucast c < channelCount q"
    and "get_channel q c = Some rch" and "in_step ch rch"
    and "flags AND 1 = 0 \<and> flags AND 2 \<noteq> 0 \<Longrightarrow> accept_unsequenced (outgoingUnsequencedGroup p + 1) q \<noteq> None"
    and "receivedData (host w) = pre @ packet_octets flags p c ch len @ dat @ post" and "unat len = length dat"
    and "unat (receivedDataLength (host w)) = length (pre @ packet_octets flags p c ch len @ dat)"
  shows "\<exists>w'. command_loop (length (pre @ packet_octets flags p c ch len @ dat)) hflags (Some i) (length pre) event w =
    Some (event, w') \<and> arrived i c dat w'"
proof -
  let ?c = "packet_command flags p c ch len"
  let ?n = "sequence_of ?c"
  let ?sent = "?c\<lparr>prt_header := (prt_header ?c)\<lparr>hdr_reliableSequenceNumber := ENET_HOST_TO_NET_16 ?n\<rparr>\<rparr>"
  let ?size = "length (packet_octets flags p c ch len)"
  let ?m = "pre @ image_of_command ?sent @ dat @ post"
  have oct: "packet_octets flags p c ch len = image_of_command ?sent" by (rule packet_command_octets [OF refl, symmetric])
  have m: "receivedData (host w) = ?m" using assms(7) unfolding oct .
  have num: "?m ! length pre = command_of ?c" "load16 ?m (length pre + 2) = ENET_HOST_TO_NET_16 ?n"
    unfolding load16_def add.assoc nth_append_length_plus
    by (simp_all add: nth_append image_of_command_def image_of_command_header_def le16_def load16_le16)
  have store: "store_sequence (length pre) ?n ?m = pre @ image_of_command ?c @ dat @ post"
    using store_sequence_image [of pre ?n ?sent "dat @ post"] by simp
  have size: "length (image_of_command ?c) = ?size" unfolding oct by (simp add: image_of_command_def image_of_command_header_def)
  define w1 where "w1 = update_received (store_sequence (length pre) ?n) w"
  have d: "receivedData (host w1) = pre @ image_of_command ?c @ dat @ post" "receivedDataLength (host w1) = receivedDataLength (host w)"
    using store by (simp_all add: w1_def update_received_def update_host_def m)
  have load: "load_command (receivedData (host w1)) (length pre) = ?c"
    unfolding d(1) by (rule load_command_image [OF packet_command_facts(1)])
  have g: "get_peer w1 i = Some q" using assms(1) by (simp add: w1_def update_received_def get_peer_Some)
  have dr: "drop (length pre + ?size) (receivedData (host w1)) = dat @ post" unfolding d(1) size [symmetric] by simp
  have rl: "unat (receivedDataLength (host w1)) = length pre + ?size + length dat" using assms(9) d(2) by simp
  obtain w2 where w2: "handle_command (Some i) (length pre) (length pre + ?size) ?c event w1 = Some (0, length dat, Some i, event, w2)"
      "arrived i c dat w2"
    using handle_packet [OF g assms(2-6) dr assms(8) rl] by blast
  obtain stop w3 where w3: "acknowledge_command hflags (Some i) ?c w2 = Some (stop, w3)" "arrived i c dat w3"
    using acknowledge_arrived [OF w2(2)] by blast
  have s: "unat (command_of ?c AND ENET_PROTOCOL_COMMAND_MASK) < ENET_PROTOCOL_COMMAND_COUNT"
      "unat (commandSizes ! unat (command_of ?c AND ENET_PROTOCOL_COMMAND_MASK)) = ?size" "4 \<le> ?size"
    by (simp_all add: packet_command_def packet_octets_def commandSizes_def network16_def)
  then have ne: "packet_octets flags p c ch len \<noteq> []" by auto
  let ?len = "length (pre @ packet_octets flags p c ch len @ dat)"
  have "command_loop ?len hflags (Some i) (length pre) event w =
      (if stop then Some (event, w3) else command_loop ?len hflags (Some i) ?len event w3)"
    using s w2(1) w3(1) load unfolding command_loop.simps [of ?len hflags "Some i" "length pre" event w] m num Let_def
    by (simp add: w1_def [symmetric] add.assoc ne)
  moreover have "command_loop ?len hflags (Some i) ?len event w3 = Some (event, w3)" by (subst command_loop.simps) simp
  ultimately show ?thesis using w3(2) by simp
qed

text \<open>
  C6. A packet that fits one datagram, reliable, unsequenced or unreliable, arrives. \<open>enet_peer_send\<close>
  queues one command, whose bytes are those of protocol.h in network order (command with its flags,
  channel, reliable sequence number, the number of the group or of the unreliable packet, length). On the
  other side, where the channel has handed out all that was sent before, the loop over the commands of a
  datagram that ends with these bytes and the data accepts the command, whatever is in front of it, and
  then \<open>enet_peer_receive\<close> hands out a packet with the same data. Every sequence number is covered, also
  the wrap; only for an unsequenced packet its group must not have been seen.
\<close>

theorem sent_packet_is_received:
  assumes "enet_peer_send c packet p ps = Some (0, p', ps')" and "get_channel p c = Some ch" and "c \<noteq> 0xFF"
    and "pheap ps packet = Some k" and "length (pkt_data k) = unat (pkt_dataLength k)"
    and "36 \<le> unat (peer_mtu p)" and "unat (pkt_dataLength k) \<le> unat (peer_mtu p) - 36"
    and "get_peer w i = Some q" and "peer_state q = ENET_PEER_STATE_CONNECTED" and "ucast c < channelCount q"
    and "get_channel q c = Some rch" and "in_step ch rch"
    and "pkt_flags k AND 1 = 0 \<and> pkt_flags k AND 2 \<noteq> 0 \<longrightarrow> accept_unsequenced (outgoingUnsequencedGroup p + 1) q \<noteq> None"
    and "receivedData (host w) = pre @ packet_octets (pkt_flags k) p c ch (ucast (pkt_dataLength k)) @ pkt_data k @ post"
    and "unat (receivedDataLength (host w)) = n"
    and "n = length (pre @ packet_octets (pkt_flags k) p c ch (ucast (pkt_dataLength k)) @ pkt_data k)"
  shows "\<exists>oc w' q1 pid q2 ps2 pk.
    outgoing_queue (pkt_flags k) p' = outgoing_queue (pkt_flags k) p @ [oc] \<and> oc_packet oc = Some packet \<and>
    oc_fragmentOffset oc = 0 \<and> unat (oc_fragmentLength oc) = length (pkt_data k) \<and>
    image_of_command (oc_command oc) = packet_octets (pkt_flags k) p c ch (ucast (pkt_dataLength k)) \<and>
    command_loop n hflags (Some i) (length pre) event w = Some (event, w') \<and> get_peer w' i = Some q1 \<and>
    enet_peer_receive c q1 (packets w') = Some (Some pid, q2, ps2) \<and>
    pheap ps2 pid = Some pk \<and> pkt_data pk = pkt_data k \<and> unat (pkt_dataLength pk) = length (pkt_data k)"
proof -
  obtain oc where oc: "outgoing_queue (pkt_flags k) p' = outgoing_queue (pkt_flags k) p @ [oc]" "oc_packet oc = Some packet"
      "oc_fragmentOffset oc = 0" "unat (oc_fragmentLength oc) = length (pkt_data k)"
      "image_of_command (oc_command oc) = packet_octets (pkt_flags k) p c ch (ucast (pkt_dataLength k))"
    using send_whole_packet [OF assms(1-4,6,7)] assms(5) by metis
  have "unat (peer_mtu p) < 2 ^ 16" using unsigned_less [of "peer_mtu p", where ?'a = nat] by simp
  then have l: "unat (ucast (pkt_dataLength k) :: u16) = length (pkt_data k)"
    using assms(5,7) by (simp add: unsigned_ucast_eq take_bit_nat_eq_self)
  obtain w' where w': "command_loop n hflags (Some i) (length pre) event w = Some (event, w')" "arrived i c (pkt_data k) w'"
    using loop_packet [OF assms(8-12) assms(13) [THEN mp] assms(14) l assms(15) [unfolded assms(16)]] unfolding assms(16) by blast
  show ?thesis using oc w'(1) w'(2) unfolding arrived_def by blast
qed

text \<open>Three bytes as reliable packet number 0x200.\<close>

definition busy_channel :: ENetChannel where
  "busy_channel = fresh_channel\<lparr>ch_outgoingReliableSequenceNumber := 0x1FF, ch_incomingReliableSequenceNumber := 0x1FF\<rparr>"

definition busy_peer :: ENetPeer where
  "busy_peer = (created_peer 0)\<lparr>peer_state := ENET_PEER_STATE_CONNECTED, channels := [busy_channel], channelCount := 1\<rparr>"

definition small_packet :: ENetPacket where
  "small_packet = (example_packet 0)\<lparr>pkt_flags := 1, pkt_data := [1, 2, 3], pkt_dataLength := 3\<rparr>"

definition busy_world :: world where
  "busy_world = example_world\<lparr>host := example_host\<lparr>peers := [busy_peer],
     receivedData := replicate 12 0 @ [0x86, 0, 2, 0, 0, 3] @ [1, 2, 3] @ [], receivedDataLength := 21\<rparr>\<rparr>"

theorem sent_packet_is_received_witness:
  "\<exists>(oc :: ENetOutgoingCommand) w' q1 pid q2 ps2 pk. image_of_command (oc_command oc) = [0x86, 0, 2, 0, 0, 3] \<and>
    command_loop 21 1 (Some 0) 12 None busy_world = Some (None, w') \<and> get_peer w' 0 = Some q1 \<and>
    enet_peer_receive 0 q1 (packets w') = Some (Some pid, q2, ps2) \<and> pheap ps2 pid = Some pk \<and> pkt_data pk = [1, 2, 3]"
proof -
  let ?ps = "empty_store\<lparr>pheap := [0 \<mapsto> small_packet]\<rparr>"
  have p: "peer_state busy_peer = ENET_PEER_STATE_CONNECTED" "channelCount busy_peer = 1" "peer_mtu busy_peer = 1400"
      "get_channel busy_peer 0 = Some busy_channel"
    by (simp_all add: busy_peer_def created_peer_def emptied_def reset_fields_def get_channel_def)
  have k: "pheap ?ps 0 = Some small_packet" "pkt_data small_packet = [1, 2, 3]" "pkt_dataLength small_packet = 3"
      "pkt_flags small_packet = 1" by (simp_all add: small_packet_def)
  have "\<exists>p' ps'. enet_peer_send 0 0 busy_peer ?ps = Some (0, p', ps')"
    using p k by (simp add: enet_peer_send_def enet_peer_queue_outgoing_command_def next_sequence_numbers_def Let_def packet_flag_defs
        local_command_def enet_protocol_command_size_def commandSizes_def get_channel_total packet_retain_def packet_update_def)
  then obtain p' ps' where s: "enet_peer_send 0 0 busy_peer ?ps = Some (0, p', ps')" by blast
  have o: "packet_octets 1 busy_peer 0 busy_channel (ucast (3 :: usize)) = [0x86, 0, 2, 0, 0, 3]" by code_simp
  have w: "get_peer busy_world 0 = Some busy_peer"
      "receivedData (host busy_world) = replicate 12 0 @ [0x86, 0, 2, 0, 0, 3] @ [1, 2, 3] @ []"
      "unat (receivedDataLength (host busy_world)) = 21"
    by (simp_all add: busy_world_def get_peer_def)
  have "in_step busy_channel busy_channel" by (simp add: in_step_def busy_channel_def fresh_channel_def)
  note t = sent_packet_is_received [OF s p(4) _ k(1) _ _ _ w(1) p(1) _ p(4) this, of "replicate 12 0" "[]" 21 1 None,
    unfolded k(2-4) p(2,3) o]
  have group: "(1 :: u32) AND 1 = 0 \<and> (1 :: u32) AND 2 \<noteq> 0 \<longrightarrow>
      accept_unsequenced (outgoingUnsequencedGroup busy_peer + 1) busy_peer \<noteq> None" by simp
  have "(0 :: u8) \<noteq> 0xFF" "length [1, 2, 3 :: u8] = unat (3 :: usize)"
      "36 \<le> unat (1400 :: u16)" "unat (3 :: usize) \<le> unat (1400 :: u16) - 36" "ucast (0 :: u8) < (1 :: usize)"
      "21 = length (replicate 12 (0 :: u8) @ [0x86, 0, 2, 0, 0, 3] @ [1, 2, 3])" by simp_all
  from t [OF this(1-5) group w(2,3) this(6)] have "\<exists>(oc :: ENetOutgoingCommand) w' q1 pid q2 ps2 pk. image_of_command (oc_command oc) = [0x86, 0, 2, 0, 0, 3] \<and>
    command_loop 21 1 (Some 0) (length (replicate 12 (0 :: u8))) None busy_world = Some (None, w') \<and> get_peer w' 0 = Some q1 \<and>
    enet_peer_receive 0 q1 (packets w') = Some (Some pid, q2, ps2) \<and> pheap ps2 pid = Some pk \<and> pkt_data pk = [1, 2, 3]"
    by blast
  then show ?thesis unfolding length_replicate .
qed

end
