(* ===== verification/Datagram.thy ===== *)
theory Datagram
  imports Runs
begin

text \<open>
  The size of what is sent: filling a datagram never goes beyond the MTU of the peer or the arrays of
  commands and buffers of the host, and \<open>packetSize\<close> counts the bytes of the buffers.
\<close>

subsection \<open>A host that fills a datagram\<close>

definition datagram_ok :: "u16 \<Rightarrow> ENetHost \<Rightarrow> bool" where
  "datagram_ok mtu h \<longleftrightarrow>
     commandCount h \<le> length (commands h) \<and> 1 \<le> bufferCount h \<and> bufferCount h \<le> length (buffers h) \<and>
     unat (packetSize h) \<le> unat mtu \<and>
     unat (packetSize h) = 12 + (\<Sum>b \<leftarrow> tl (take (bufferCount h) (buffers h)). unat (buf_dataLength b)) \<and>
     (\<forall>b \<in> set (tl (take (bufferCount h) (buffers h))). buf_data b \<noteq> HeaderBuffer)"

text \<open>Fragments that fit into the largest MTU, and packets with a length that a sum cannot wrap.\<close>

definition frags_ok :: "ENetPeer \<Rightarrow> bool" where
  "frags_ok p \<longleftrightarrow> (\<forall>oc \<in> set (outgoingReliableCommands p) \<union> set (sentReliableCommands p).
     unat (oc_fragmentLength oc) \<le> 4096)"

definition lens_ok :: "packet_store \<Rightarrow> bool" where
  "lens_ok ps \<longleftrightarrow> (\<forall>q k. pheap ps q = Some k \<longrightarrow> unat (pkt_dataLength k) < 2 ^ 63)"

lemma unat_room:
  assumes "unat (packetSize h) \<le> unat (peer_mtu p)"
  shows "unat (room h p) = unat (peer_mtu p) - unat (packetSize h)"
proof -
  have "unat (ucast (peer_mtu p) :: usize) = unat (peer_mtu p)" by (rule unat_ucast_up) simp
  then show ?thesis using assms by (simp add: room_def unat_sub_le word_le_nat_alt)
qed

lemma room_fits:
  assumes "datagram_ok (peer_mtu p) h" and "n \<le> unat (room h p)"
  shows "unat (packetSize h) + n \<le> unat (peer_mtu p)"
proof -
  have "unat (packetSize h) \<le> unat (peer_mtu p)" using assms(1) unfolding datagram_ok_def by blast
  with unat_room [OF this] assms(2) show ?thesis by linarith
qed

lemma tl_take_snoc:
  assumes "1 \<le> n" and "n < length bs"
  shows "tl (take (Suc n) (bs[n := b])) = tl (take n bs) @ [b]"
  using assms by (cases bs; cases n) (simp_all add: take_Suc_conv_app_nth)

lemma datagram_ok_add:
  assumes "datagram_ok mtu h" and "bufferCount h < length (buffers h)"
    and "unat (packetSize h) + unat sz \<le> unat mtu" and "d \<noteq> HeaderBuffer"
    and "commandCount h' \<le> length (commands h')" and "bufferCount h' = Suc (bufferCount h)"
    and "buffers h' = (buffers h)[bufferCount h := \<lparr>buf_data = d, buf_dataLength = sz\<rparr>]"
    and "packetSize h' = packetSize h + sz"
  shows "datagram_ok mtu h' \<and> unat (packetSize h') = unat (packetSize h) + unat sz"
proof -
  have s: "unat (packetSize h') = unat (packetSize h) + unat sz"
    unfolding assms(8) by (rule unat_add_lt) (use assms(3) unsigned_less [of mtu, where ?'a = nat] in simp)
  have t: "tl (take (Suc (bufferCount h)) ((buffers h)[bufferCount h := \<lparr>buf_data = d, buf_dataLength = sz\<rparr>])) =
      tl (take (bufferCount h) (buffers h)) @ [\<lparr>buf_data = d, buf_dataLength = sz\<rparr>]"
    by (rule tl_take_snoc) (use assms(1,2) in \<open>simp_all add: datagram_ok_def\<close>)
  show ?thesis using assms(1-7) by (simp add: s datagram_ok_def t)
qed

lemma add_command_ok:
  assumes "datagram_ok mtu h" and "commandCount h < length (commands h)" and "bufferCount h < length (buffers h)"
    and "unat (packetSize h) + unat sz \<le> unat mtu"
  shows "datagram_ok mtu (add_command c sz h) \<and>
    unat (packetSize (add_command c sz h)) = unat (packetSize h) + unat sz"
  by (rule datagram_ok_add [OF assms(1,3,4), of "CommandBuffer (commandCount h)"])
    (use assms(2) in \<open>simp_all add: add_command_def\<close>)

lemma add_data_ok:
  assumes "datagram_ok mtu h" and "bufferCount h < length (buffers h)"
    and "unat (packetSize h) + unat sz \<le> unat mtu"
  shows "datagram_ok mtu (add_data q off sz h) \<and> unat (packetSize (add_data q off sz h)) = unat (packetSize h) + unat sz"
  by (rule datagram_ok_add [OF assms, of "PacketBuffer q off"])
    (use assms(1) in \<open>simp_all add: add_data_def datagram_ok_def\<close>)

lemma add_command_fields [simp]:
  "bufferCount (add_command c sz h) = Suc (bufferCount h)" "length (buffers (add_command c sz h)) = length (buffers h)"
  "commandCount (add_command c sz h) = Suc (commandCount h)"
  "length (commands (add_command c sz h)) = length (commands h)"
  by (simp_all add: add_command_def)

lemma datagram_ok_cong:
  "datagram_ok mtu h \<Longrightarrow> commandCount h' = commandCount h \<Longrightarrow> commands h' = commands h \<Longrightarrow>
     bufferCount h' = bufferCount h \<Longrightarrow> buffers h' = buffers h \<Longrightarrow> packetSize h' = packetSize h \<Longrightarrow>
     datagram_ok mtu h'"
  by (simp add: datagram_ok_def)

subsection \<open>The three loops\<close>

lemma send_acknowledgements_ok:
  "send_acknowledgements_loop as h p = (h', p') \<Longrightarrow> datagram_ok (peer_mtu p) h \<Longrightarrow>
     datagram_ok (peer_mtu p) h' \<and> peer_mtu p' = peer_mtu p \<and>
     outgoingReliableCommands p' = outgoingReliableCommands p \<and> sentReliableCommands p' = sentReliableCommands p \<and>
     peer_address p' = peer_address p"
proof (induction as h p rule: send_acknowledgements_loop.induct)
  case (2 a rest h p)
  let ?full = "commandCount h \<ge> length (commands h) \<or> bufferCount h \<ge> length (buffers h) \<or> room h p < 8"
  show ?case
  proof (cases ?full)
    case True
    then show ?thesis using "2.prems" by (auto intro: datagram_ok_cong)
  next
    case False
    have "unat (packetSize h) + unat (8 :: usize) \<le> unat (peer_mtu p)"
      by (rule room_fits [OF "2.prems"(2)]) (use False in \<open>simp add: not_less word_le_nat_alt\<close>)
    then have "datagram_ok (peer_mtu p) (add_command (acknowledgement_command h a) 8 h)"
      using add_command_ok [OF "2.prems"(2), of 8] False by simp
    then show ?thesis using "2.IH" [OF False] "2.prems"(1) False
      by (auto split: if_splits)
  qed
qed auto

lemma send_unreliable_ok:
  "send_unreliable_loop q h p ps = Some (h', p', ps') \<Longrightarrow> datagram_ok (peer_mtu p) h \<Longrightarrow> lens_ok ps \<Longrightarrow>
     datagram_ok (peer_mtu p) h' \<and> peer_mtu p' = peer_mtu p \<and> peer_address p' = peer_address p"
proof (induction rule: send_unreliable_induct)
  case (full oc rest h p ps)
  then show ?case by (auto intro: datagram_ok_cong)
next
  case (control oc rest h p ps sz h' p' ps')
  have "unat (packetSize h) + unat sz \<le> unat (peer_mtu p)"
    by (rule room_fits [OF control.prems(1)])
      (use control.hyps(2) in \<open>simp add: unreliable_fits_def word_le_nat_alt\<close>)
  then show ?case using control add_command_ok [of "peer_mtu p" h sz] by (simp add: unreliable_fits_def)
next
  case (drop oc rest h p ps q k ps1 h' p' ps')
  have "lens_ok ps1"
    using drop.hyps(4) drop.prems(2)
    by (auto simp: packet_release_def packet_drop_def packet_update_def enet_packet_destroy_def lens_ok_def
        split: option.splits if_splits)
  then show ?case using drop by simp
next
  case (send oc rest h p ps q k sz h' p' ps')
  have "unat (sz + pkt_dataLength k) = unat sz + unat (pkt_dataLength k)"
  proof (rule unat_add_lt)
    have "unat sz \<le> 40" using send.hyps(1)
      by (auto simp: enet_protocol_command_size_def commandSizes_def Let_def nth_Cons split: if_splits nat.splits)
    moreover have "unat (pkt_dataLength k) < 2 ^ 63" using send.hyps(3) send.prems(2) by (auto simp: lens_ok_def)
    ultimately show "unat sz + unat (pkt_dataLength k) < 2 ^ LENGTH(64)" by simp
  qed
  then have "unat (packetSize h) + (unat sz + unat (pkt_dataLength k)) \<le> unat (peer_mtu p)"
    by (intro room_fits [OF send.prems(1)])
      (use send.hyps(5) in \<open>simp add: unreliable_fits_def word_le_nat_alt\<close>)
  then have fit: "unat (packetSize h) + unat sz + unat (pkt_dataLength k) \<le> unat (peer_mtu p)" by simp
  let ?h = "add_command (oc_command oc) sz h"
  have h: "datagram_ok (peer_mtu p) ?h" "unat (packetSize ?h) = unat (packetSize h) + unat sz"
    using add_command_ok [OF send.prems(1), of sz] send.hyps(5) fit by (simp_all add: unreliable_fits_def)
  have "datagram_ok (peer_mtu p) (add_data q 0 (pkt_dataLength k) ?h)"
    using add_data_ok [OF h(1), of "pkt_dataLength k" q 0] send.hyps(5) fit by (simp add: h(2) unreliable_fits_def)
  then show ?case using send by simp
qed (auto simp: datagram_ok_def)

lemma command_size_le: "enet_protocol_command_size c = Some sz \<Longrightarrow> unat sz \<le> 40"
  by (auto simp: enet_protocol_command_size_def commandSizes_def Let_def nth_Cons split: if_splits nat.splits)

lemma add_reliable_ok:
  assumes "datagram_ok (peer_mtu p) h" and "reliable_fits h p sz oc" and "unat sz \<le> 40"
    and "unat (oc_fragmentLength oc) \<le> 4096" and "unat (peer_mtu p) \<le> 4096"
    and "oc_packet oc' = oc_packet oc" and "oc_fragmentLength oc' = oc_fragmentLength oc"
  shows "datagram_ok (peer_mtu p) (add_reliable oc' sz h)"
proof -
  let ?h = "h\<lparr>headerFlags := headerFlags h OR ENET_PROTOCOL_HEADER_FLAG_SENT_TIME\<rparr>"
  let ?h1 = "add_command (oc_command oc') sz ?h"
  have h: "datagram_ok (peer_mtu p) ?h" by (rule datagram_ok_cong [OF assms(1)]) simp_all
  have "unat (packetSize h) + unat sz \<le> unat (peer_mtu p)"
    by (rule room_fits [OF assms(1)]) (use assms(2) in \<open>simp add: reliable_fits_def word_le_nat_alt\<close>)
  then have h1: "datagram_ok (peer_mtu p) ?h1" "unat (packetSize ?h1) = unat (packetSize h) + unat sz"
    using add_command_ok [OF h, of sz] assms(2) by (simp_all add: reliable_fits_def)
  show ?thesis
  proof (cases "oc_packet oc")
    case None
    then show ?thesis using h1(1) assms(6) by (simp add: add_reliable_def Let_def)
  next
    case (Some q)
    let ?l = "ucast (oc_fragmentLength oc) :: usize"
    have l: "unat ?l = unat (oc_fragmentLength oc)" by (rule unat_ucast_up) simp
    have s: "unat (sz + ?l) = unat sz + unat ?l"
      by (rule unat_add_lt) (use assms(3,4) l in simp)
    have "unat (room h p) \<le> 4096"
      using unat_room [of h p] assms(1,5) by (simp add: datagram_ok_def)
    then have r: "unat (ucast (room h p) :: u16) = unat (room h p)" by (intro unat_ucast_down) simp
    have u: "unat (ucast (sz + ?l) :: u16) = unat sz + unat ?l"
      unfolding s [symmetric] by (rule unat_ucast_down) (use s l assms(3,4) in simp)
    have "unat (packetSize h) + (unat sz + unat ?l) \<le> unat (peer_mtu p)"
      by (rule room_fits [OF assms(1)])
        (use assms(2) Some r u in \<open>simp add: reliable_fits_def word_le_nat_alt\<close>)
    then have "datagram_ok (peer_mtu p) (add_data q (oc_fragmentOffset oc') ?l ?h1)"
      using add_data_ok [OF h1(1), of ?l] assms(2) by (simp add: h1(2) reliable_fits_def)
    then show ?thesis using Some assms(6,7) by (simp add: add_reliable_def Let_def)
  qed
qed

lemma first_timeout_length [simp]: "oc_fragmentLength (first_timeout p oc) = oc_fragmentLength oc"
  by (simp add: first_timeout_def Let_def)

lemma sent_reliable_fields [simp]:
  "peer_mtu (sent_reliable now oc p) = peer_mtu p" "peer_address (sent_reliable now oc p) = peer_address p"
  "sentReliableCommands (sent_reliable now oc p) = sentReliableCommands p @ [oc\<lparr>oc_sentTime := now\<rparr>]"
  by (simp_all add: sent_reliable_def)

lemma send_reliable_ok:
  "send_reliable_loop q h p = Some (h', p') \<Longrightarrow> datagram_ok (peer_mtu p) h \<Longrightarrow> unat (peer_mtu p) \<le> 4096 \<Longrightarrow>
     \<forall>oc \<in> set q \<union> set (sentReliableCommands p). unat (oc_fragmentLength oc) \<le> 4096 \<Longrightarrow>
     datagram_ok (peer_mtu p) h' \<and> peer_mtu p' = peer_mtu p \<and> peer_address p' = peer_address p \<and> frags_ok p'"
proof (induction rule: send_reliable_induct)
  case (full oc rest h p)
  then show ?case by (auto simp: frags_ok_def intro: datagram_ok_cong)
next
  case (send oc rest h p sz h' p')
  have "datagram_ok (peer_mtu p) (add_reliable (first_timeout p oc) sz h)"
    by (rule add_reliable_ok [OF send.prems(1) send.hyps(2) command_size_le [OF send.hyps(1)]])
      (use send.prems in simp_all)
  then show ?case using send.IH send.prems by auto
qed (auto simp: frags_ok_def)

subsection \<open>A round for one peer\<close>

text \<open>The state while a datagram for peer \<open>i\<close> is filled; \<open>s\<close> is what has been sent before.\<close>

definition filled :: "nat \<Rightarrow> u16 \<Rightarrow> ENetAddress \<Rightarrow> (ENetAddress \<times> bytes) list \<Rightarrow> world \<Rightarrow> bool" where
  "filled i mtu a s w \<longleftrightarrow> (\<exists>p. get_peer w i = Some p \<and> peer_mtu p = mtu \<and> peer_address p = a) \<and>
     datagram_ok mtu (host w) \<and> sent w = s"

definition filling :: "nat \<Rightarrow> u16 \<Rightarrow> ENetAddress \<Rightarrow> (ENetAddress \<times> bytes) list \<Rightarrow> world \<Rightarrow> bool" where
  "filling i mtu a s w \<longleftrightarrow> filled i mtu a s w \<and> lens_ok (packets w) \<and> (\<forall>p. get_peer w i = Some p \<longrightarrow> frags_ok p)"

lemma filled_put:
  assumes "filled i mtu a s w" and "datagram_ok mtu h" and "peers h = peers (host w)"
    and "peer_mtu p = mtu" and "peer_address p = a"
  shows "filled i mtu a s (put_peer i p (w\<lparr>host := h, packets := ps\<rparr>))"
  using assms by (auto simp: filled_def get_peer_def put_peer_def intro: datagram_ok_cong split: if_splits)

lemma filled_on_peer:
  assumes "filled i mtu a s w" and "on_peer i f w = Some (r, w')"
    and "\<And>p ps r p' ps'. f p ps = Some (r, p', ps') \<Longrightarrow> peer_mtu p' = peer_mtu p \<and> peer_address p' = peer_address p"
  shows "filled i mtu a s w'"
  using assms(1,2) by (rule_tac on_peer_cases [OF assms(2)])
    (auto simp: filled_def get_peer_def put_peer_def dest: assms(3) intro: datagram_ok_cong)

lemma fill_acknowledgements_filling:
  assumes "fill_acknowledgements i w = Some w'" and "filling i mtu a s w"
  shows "filling i mtu a s w'"
proof -
  obtain p where p: "get_peer w i = Some p" "peer_mtu p = mtu" "peer_address p = a" "frags_ok p" "datagram_ok mtu (host w)"
    using assms(2) by (auto simp: filling_def filled_def)
  obtain h1 p1 where s: "enet_protocol_send_acknowledgements (host w) p = (h1, p1)"
    by (cases "enet_protocol_send_acknowledgements (host w) p")
  note l = s [unfolded enet_protocol_send_acknowledgements_def]
  note ok = send_acknowledgements_ok [OF l] send_acknowledgements_refs [OF l]
  have "w' = w \<or> w' = put_peer i p1 (w\<lparr>host := h1, packets := packets w\<rparr>)"
    using assms(1) p s by (auto simp: fill_acknowledgements_def split: if_splits)
  moreover have "filled i mtu a s (put_peer i p1 (w\<lparr>host := h1, packets := packets w\<rparr>))"
    by (rule filled_put) (use assms(2) ok p in \<open>simp_all add: filling_def\<close>)
  moreover have "frags_ok p1" using p ok by (simp add: frags_ok_def)
  ultimately show ?thesis using assms(2) p ok
    by (auto simp: filling_def get_peer_def put_peer_def)
qed

text \<open>Induction over the commands that wait for an acknowledgement.\<close>

lemma check_timeouts_induct [consumes 1, case_names finished keep lost again]:
  assumes "check_timeouts_loop now kept rest p = (lost, p')"
    and "\<And>kept p. P kept [] p False (p\<lparr>sentReliableCommands := kept\<rparr>)"
    and "\<And>kept oc rest p lost p'. \<not> expired now oc \<Longrightarrow> P (kept @ [oc]) rest p lost p' \<Longrightarrow> P kept (oc # rest) p lost p'"
    and "\<And>kept oc rest p. expired now oc \<Longrightarrow> gives_up now oc (note_timeout oc p) \<Longrightarrow>
      P kept (oc # rest) p True ((note_timeout oc p)\<lparr>sentReliableCommands := kept @ oc # rest\<rparr>)"
    and "\<And>kept oc rest p t lost p'. expired now oc \<Longrightarrow> \<not> gives_up now oc (note_timeout oc p) \<Longrightarrow>
      P kept rest ((retransmit oc (note_timeout oc p))\<lparr>nextTimeout := t\<rparr>) lost p' \<Longrightarrow> P kept (oc # rest) p lost p'"
  shows "P kept rest p lost p'"
  using assms(1)
proof (induction rest arbitrary: kept p)
  case Nil
  then show ?case using assms(2) by auto
next
  case (Cons oc rest)
  let ?p2 = "retransmit oc (note_timeout oc p)"
  let ?p3 = "case rest of [] \<Rightarrow> ?p2
     | first # _ \<Rightarrow> (if kept = []
          then ?p2\<lparr>nextTimeout := oc_sentTime first + oc_roundTripTimeout first\<rparr> else ?p2)"
  show ?case
  proof (cases "expired now oc")
    case False
    then have "check_timeouts_loop now (kept @ [oc]) rest p = (lost, p')" using Cons.prems by simp
    from Cons.IH [OF this] show ?thesis by (rule assms(3) [OF False])
  next
    case True
    show ?thesis
    proof (cases "gives_up now oc (note_timeout oc p)")
      case give: True
      then show ?thesis using Cons.prems assms(4) [OF True give] True by (auto simp: Let_def)
    next
      case False
      have "?p3 = ?p2\<lparr>nextTimeout := nextTimeout ?p3\<rparr>" by (simp split: list.split)
      moreover have "check_timeouts_loop now kept rest ?p3 = (lost, p')"
        using Cons.prems True False by (simp add: Let_def)
      ultimately have "check_timeouts_loop now kept rest (?p2\<lparr>nextTimeout := nextTimeout ?p3\<rparr>) = (lost, p')"
        by simp
      from Cons.IH [OF this] show ?thesis by (rule assms(5) [OF True False])
    qed
  qed
qed

lemma note_timeout_fields [simp]:
  "peer_mtu (note_timeout oc p) = peer_mtu p" "peer_address (note_timeout oc p) = peer_address p"
  "outgoingReliableCommands (note_timeout oc p) = outgoingReliableCommands p"
  "reliableDataInTransit (note_timeout oc p) = reliableDataInTransit p" "packetsLost (note_timeout oc p) = packetsLost p"
  by (simp_all add: note_timeout_def)

lemma check_timeouts_frags:
  "check_timeouts_loop now kept rest p = (lost, p') \<Longrightarrow>
     \<forall>oc \<in> set kept \<union> set rest \<union> set (outgoingReliableCommands p). unat (oc_fragmentLength oc) \<le> 4096 \<Longrightarrow>
     frags_ok p' \<and> peer_mtu p' = peer_mtu p \<and> peer_address p' = peer_address p"
proof (induction rule: check_timeouts_induct)
  case (again kept oc rest p t lost p')
  have "\<forall>oc \<in> set kept \<union> set rest \<union>
      set (outgoingReliableCommands ((retransmit oc (note_timeout oc p))\<lparr>nextTimeout := t\<rparr>)).
      unat (oc_fragmentLength oc) \<le> 4096"
    using again.prems by (auto simp: retransmit_def)
  from again.IH [OF this] show ?case by (simp add: retransmit_def)
qed (auto simp: frags_ok_def)

lemma check_timeouts_filling:
  assumes "enet_protocol_check_timeouts i event w = Some (r, event', w')" and "r \<noteq> 1" and "filling i mtu a s w"
  shows "filling i mtu a s w'"
proof -
  obtain p where p: "get_peer w i = Some p" "peer_mtu p = mtu" "peer_address p = a" "frags_ok p" "datagram_ok mtu (host w)"
    using assms(3) by (auto simp: filling_def filled_def)
  obtain lost p1 where c: "check_timeouts_loop (serviceTime (host w)) [] (sentReliableCommands p) p = (lost, p1)"
    by (cases "check_timeouts_loop (serviceTime (host w)) [] (sentReliableCommands p) p")
  have w': "w' = put_peer i p1 (w\<lparr>host := host w, packets := packets w\<rparr>)"
    using assms(1,2) p c by (auto simp: enet_protocol_check_timeouts_def split: if_splits bind_splits)
  have p1: "frags_ok p1" "peer_mtu p1 = mtu" "peer_address p1 = a"
    using check_timeouts_frags [OF c] p by (auto simp: frags_ok_def)
  have "filled i mtu a s w'"
    unfolding w' by (rule filled_put) (use assms(3) p p1 in \<open>simp_all add: filling_def\<close>)
  then show ?thesis using assms(3) p1 p(1) by (auto simp: filling_def w' get_peer_def put_peer_def)
qed

lemma queue_outgoing_fields:
  assumes "enet_peer_queue_outgoing_command command packet off len p ps = Some (oc, p', ps')"
  shows "peer_mtu p' = peer_mtu p \<and> peer_address p' = peer_address p \<and>
    sentReliableCommands p' = sentReliableCommands p \<and> oc_fragmentLength oc = len \<and>
    set (outgoingReliableCommands p') \<subseteq> insert oc (set (outgoingReliableCommands p))"
proof -
  obtain sz rsn usn p1 where "next_sequence_numbers
      (p\<lparr>outgoingDataTotal := outgoingDataTotal p + ucast ((sz :: usize) + ucast len)\<rparr>) command = Some (rsn, usn, p1)"
    "enet_protocol_command_size (command_of command) = Some sz"
    using assms by (auto simp: enet_peer_queue_outgoing_command_def split: bind_splits)
  moreover from this have "peer_mtu p1 = peer_mtu p \<and> peer_address p1 = peer_address p \<and>
      sentReliableCommands p1 = sentReliableCommands p \<and> outgoingReliableCommands p1 = outgoingReliableCommands p"
    by (auto simp: next_sequence_numbers_def Let_def put_channel_def split: if_splits bind_splits)
  ultimately show ?thesis using assms
    by (auto simp: enet_peer_queue_outgoing_command_def Let_def split: bind_splits if_splits option.splits)
qed

lemma ping_filling:
  assumes "on_peer i enet_peer_ping w = Some (r, w')" and "filling i mtu a s w"
  shows "filling i mtu a s w'"
proof -
  have f: "peer_mtu p' = peer_mtu p \<and> peer_address p' = peer_address p \<and> (frags_ok p \<longrightarrow> frags_ok p') \<and> ps' = ps"
    if ping: "enet_peer_ping p ps = Some (r, p', ps')" for p ps r p' ps'
  proof (cases "peer_state p = ENET_PEER_STATE_CONNECTED")
    case True
    then obtain oc where q: "enet_peer_queue_outgoing_command (local_command
        (ENET_PROTOCOL_COMMAND_PING OR ENET_PROTOCOL_COMMAND_FLAG_ACKNOWLEDGE) 0xFF Ping) None 0 0 p ps = Some (oc, p', ps')"
      using ping by (auto simp: enet_peer_ping_def split: bind_splits)
    show ?thesis using queue_outgoing_fields [OF q] queue_outgoing_refs [OF q] by (auto simp: frags_ok_def)
  qed (use ping in \<open>simp add: enet_peer_ping_def\<close>)
  have "filled i mtu a s w'"
    by (rule filled_on_peer [OF _ assms(1)]) (use assms(2) f in \<open>auto simp: filling_def\<close>)
  then show ?thesis using assms
    by (elim on_peer_cases) (auto simp: filling_def get_peer_def put_peer_def dest: f split: if_splits)
qed

lemma fill_reliable_filling:
  assumes "fill_reliable i w = Some w'" and "filling i mtu a s w" and "unat mtu \<le> 4096"
  shows "filling i mtu a s w'"
proof -
  have send: "filling i mtu a s w2"
    if go: "enet_protocol_send_reliable_outgoing_commands i w1 = Some w2" and w1: "filling i mtu a s w1" for w1 w2
  proof -
    obtain p where p: "get_peer w1 i = Some p" "peer_mtu p = mtu" "peer_address p = a" "frags_ok p"
        "datagram_ok mtu (host w1)"
      using w1 by (auto simp: filling_def filled_def)
    obtain h1 p1 where l: "send_reliable_loop (outgoingReliableCommands p) (host w1) p = Some (h1, p1)"
        and w2: "w2 = put_peer i p1 (w1\<lparr>host := h1, packets := packets w1\<rparr>)"
      using go p by (auto simp: enet_protocol_send_reliable_outgoing_commands_def split: bind_splits)
    have ok: "datagram_ok mtu h1 \<and> peer_mtu p1 = mtu \<and> peer_address p1 = a \<and> frags_ok p1"
      using send_reliable_ok [OF l] p assms(3) by (auto simp: frags_ok_def)
    have "filled i mtu a s w2"
      unfolding w2
      by (rule filled_put) (use w1 ok send_reliable_same [OF l] in \<open>simp_all add: filling_def\<close>)
    then show ?thesis using w1 ok p(1) send_reliable_same [OF l]
      by (auto simp: filling_def w2 get_peer_def put_peer_def split: if_splits)
  qed
  obtain p where p: "get_peer w i = Some p" using assms(2) by (auto simp: filling_def filled_def)
  show ?thesis
  proof (cases "outgoingReliableCommands p = [] \<and> needs_ping w p")
    case True
    then obtain z w1 where ping: "on_peer i enet_peer_ping w = Some (z, w1)"
        and s: "enet_protocol_send_reliable_outgoing_commands i w1 = Some w'"
      using assms(1) p by (cases "on_peer i enet_peer_ping w") (auto simp: fill_reliable_def)
    show ?thesis by (rule send [OF s ping_filling [OF ping assms(2)]])
  next
    case False
    then show ?thesis using assms p send by (auto simp: fill_reliable_def split: if_splits)
  qed
qed

lemma disconnect_filled:
  assumes "enet_peer_disconnect (\<lambda>_. None) i dat w = Some w'" and "filled i mtu a s w"
  shows "filled i mtu a s w'"
proof -
  obtain p where p: "get_peer w i = Some p" using assms(2) by (auto simp: filled_def)
  have q: "peer_mtu p' = peer_mtu p \<and> peer_address p' = peer_address p"
    if qd: "queue_disconnect f dat p ps = Some (r, p', ps')" for f p ps r p' ps'
  proof -
    obtain p1 ps1 oc where "enet_peer_reset_queues p ps = Some ((), p1, ps1)"
      and o: "enet_peer_queue_outgoing_command (disconnect_command f dat) None 0 0 p1 ps1 = Some (oc, p', ps')"
      using qd by (auto simp: queue_disconnect_def split: bind_splits)
    then have "peer_mtu p1 = peer_mtu p \<and> peer_address p1 = peer_address p"
      by (auto simp: enet_peer_reset_queues_def split: bind_splits)
    then show ?thesis using queue_outgoing_fields [OF o] by simp
  qed
  show ?thesis
  proof (cases "peer_state p = ENET_PEER_STATE_CONNECTED \<or> peer_state p = ENET_PEER_STATE_DISCONNECT_LATER")
    case True
    then obtain w1 z where w1: "on_peer i (queue_disconnect ENET_PROTOCOL_COMMAND_FLAG_ACKNOWLEDGE dat) w = Some ((), w1)"
      and w2: "on_peer i (\<lambda>q ps. Some ((), q\<lparr>peer_state := ENET_PEER_STATE_DISCONNECTING\<rparr>, ps)) w1 = Some (z, w')"
      using assms(1) p by (auto simp: enet_peer_disconnect_def split: bind_splits)
    have "filled i mtu a s w1" by (rule filled_on_peer [OF assms(2) w1]) (rule q)
    then show ?thesis by (rule filled_on_peer [OF _ w2]) auto
  next
    case False
    then show ?thesis using assms p by (auto simp: enet_peer_disconnect_def split: if_splits bind_splits)
  qed
qed

lemma fill_unreliable_filled:
  assumes "fill_unreliable i w = Some w'" and "filling i mtu a s w"
  shows "filled i mtu a s w'"
proof -
  obtain p where p: "get_peer w i = Some p" "peer_mtu p = mtu" "peer_address p = a" "datagram_ok mtu (host w)"
    using assms(2) by (auto simp: filling_def filled_def)
  show ?thesis
  proof (cases "outgoingUnreliableCommands p = []")
    case True
    then show ?thesis using assms p by (auto simp: fill_unreliable_def filling_def)
  next
    case False
    obtain h1 p1 ps1 where l: "send_unreliable_loop (outgoingUnreliableCommands p) (host w) p (packets w) = Some (h1, p1, ps1)"
      using assms(1) p False
      by (auto simp: fill_unreliable_def enet_protocol_send_unreliable_outgoing_commands_def split: bind_splits)
    let ?w = "put_peer i p1 (w\<lparr>host := h1, packets := ps1\<rparr>)"
    have ok: "datagram_ok mtu h1 \<and> peer_mtu p1 = mtu \<and> peer_address p1 = a"
      using send_unreliable_ok [OF l] p assms(2) by (auto simp: filling_def)
    have f: "filled i mtu a s ?w"
      by (rule filled_put) (use assms(2) ok send_unreliable_host [OF l] in \<open>simp_all add: filling_def\<close>)
    have "w' = ?w \<or> enet_peer_disconnect (\<lambda>_. None) i (disconnectData p1) ?w = Some w'"
      using assms(1) p l False
      by (auto simp: fill_unreliable_def enet_protocol_send_unreliable_outgoing_commands_def Let_def split: if_splits)
    then show ?thesis using f disconnect_filled [OF _ f] by blast
  qed
qed

subsection \<open>The datagram\<close>

lemma gather_lengths:
  "gather hdr h ps bs = Some bufs \<Longrightarrow> map length bufs = map (\<lambda>b. unat (buf_dataLength b)) bs"
proof (induction bs arbitrary: bufs)
  case (Cons b bs)
  then obtain x xs where x: "buffer_bytes hdr h ps b = Some x" and xs: "gather hdr h ps bs = Some xs"
      and bufs: "bufs = x # xs"
    by (auto split: bind_splits)
  have "length x = unat (buf_dataLength b)"
    using x by (auto simp: buffer_bytes_def Let_def split: buffer_data.splits if_splits bind_splits)
  then show ?case using Cons.IH [OF xs] by (simp add: bufs)
qed simp

lemma send_datagram_length:
  assumes "send_datagram i w = Some (r, w')" and "filled i mtu a s w"
  shows "\<exists>bs. sent w' = s @ [(a, bs)] \<and> length bs \<le> unat mtu \<and> 10 \<le> length bs"
proof -
  obtain p where p: "get_peer w i = Some p" "peer_mtu p = mtu" "peer_address p = a" and ok: "datagram_ok mtu (host w)"
      and s: "sent w = s"
    using assms(2) by (auto simp: filled_def)
  define p1 where "p1 = update_packet_loss (serviceTime (host w)) p"
  define h where "h = (host w)\<lparr>buffers := (buffers (host w))[0 := header_buffer (host w)]\<rparr>"
  let ?w = "put_peer i (p1\<lparr>lastSendTime := serviceTime h\<rparr>) (w\<lparr>host := h\<rparr>)"
  have p1: "peer_address p1 = a"
    using p(3) by (simp add: p1_def update_packet_loss_def Let_def split: prod.split)
  from assms(1) p obtain hdr bufs len w1 z where
      g: "gather hdr h (packets w) (take (bufferCount h) (buffers h)) = Some bufs"
      and e: "enet_socket_send (peer_address p1) bufs ?w = (len, w1)"
      and o: "on_peer i enet_protocol_remove_sent_unreliable_commands w1 = Some (z, w')"
    by (auto simp: send_datagram_def p1_def h_def Let_def split: bind_splits prod.splits)
  have "sent w' = sent w1" using o by (auto simp: put_peer_def elim: on_peer_cases)
  then have sent: "sent w' = s @ [(a, concat bufs)]"
    using e p1 s by (auto simp: enet_socket_send_def put_peer_def)
  have b: "take (bufferCount h) (buffers h) = header_buffer (host w) # tl (take (bufferCount (host w)) (buffers (host w)))"
    using ok by (cases "buffers (host w)"; cases "bufferCount (host w)") (simp_all add: h_def datagram_ok_def)
  have "length (concat bufs) = sum_list (map length bufs)" by (simp add: length_concat)
  also have "\<dots> = unat (buf_dataLength (header_buffer (host w))) +
      (\<Sum>b \<leftarrow> tl (take (bufferCount (host w)) (buffers (host w))). unat (buf_dataLength b))"
    unfolding gather_lengths [OF g] b by simp
  finally have l: "length (concat bufs) = unat (buf_dataLength (header_buffer (host w))) +
      (\<Sum>b \<leftarrow> tl (take (bufferCount (host w)) (buffers (host w))). unat (buf_dataLength b))" .
  have "unat (packetSize (host w)) = 12 + (\<Sum>b \<leftarrow> tl (take (bufferCount (host w)) (buffers (host w))). unat (buf_dataLength b))"
      "unat (packetSize (host w)) \<le> unat mtu"
    using ok unfolding datagram_ok_def by blast+
  moreover have "unat (buf_dataLength (header_buffer (host w))) \<in> {10, 12}" by (simp add: header_buffer_def)
  ultimately show ?thesis using sent l by auto
qed

lemma notify_disconnect_sent:
  "enet_protocol_notify_disconnect i event w = Some (event', w') \<Longrightarrow> sent w' = sent w"
  by (auto simp: enet_protocol_notify_disconnect_def reset_peer_def Let_def put_peer_def update_host_def
      split: bind_splits if_splits option.splits elim!: on_peer_cases)

text \<open>C4. Whatever is queued for a peer, one round of the sending loop hands at most one datagram for it
  to the socket, addressed to it, and no longer than its MTU. The arrays of commands and buffers of the host
  are never overrun, fragments are assumed no longer than the largest MTU and packets shorter than
  \<open>2 ^ 63\<close> bytes.\<close>

theorem datagram_fits_mtu:
  assumes "service_peer i check event w = Some (r, event', w')" and "get_peer w i = Some p"
    and "12 \<le> peer_mtu p" and "peer_mtu p \<le> 4096" and "buffers (host w) \<noteq> []"
    and "frags_ok p" and "lens_ok (packets w)"
  shows "sent w' = sent w \<or>
    (\<exists>bs. sent w' = sent w @ [(peer_address p, bs)] \<and> 10 \<le> length bs \<and> length bs \<le> unat (peer_mtu p))"
proof (cases "peer_state p = ENET_PEER_STATE_DISCONNECTED \<or> peer_state p = ENET_PEER_STATE_ZOMBIE")
  case True
  then show ?thesis using assms(1,2) by (auto simp: service_peer_def)
next
  case False
  note def = assms(1) [unfolded service_peer_def assms(2), simplified]
  let ?mtu = "peer_mtu p" and ?a = "peer_address p"
  have m: "unat ?mtu \<le> 4096" using assms(4) by (simp add: word_le_nat_alt)
  have f0: "filling i ?mtu ?a (sent w) (start_datagram w)"
    using assms(2,3,5-7) by (cases "buffers (host w)")
      (auto simp: filling_def filled_def start_datagram_def get_peer_def datagram_ok_def update_host_def
        word_le_nat_alt split: if_splits)
  obtain w1 where w1: "fill_acknowledgements i (start_datagram w) = Some w1"
    using def False by (auto split: bind_splits)
  note f1 = fill_acknowledgements_filling [OF w1 f0]
  obtain p1 where p1: "get_peer w1 i = Some p1" using f1 by (auto simp: filling_def filled_def)
  let ?check = "if check \<and> sentReliableCommands p1 \<noteq> [] \<and>
      ENET_TIME_GREATER_EQUAL (serviceTime (host w1)) (nextTimeout p1)
    then enet_protocol_check_timeouts i event w1 else Some (0, event, w1)"
  obtain q event1 w2 where w2: "?check = Some (q, event1, w2)"
    using def False w1 p1 by (cases ?check) auto
  show ?thesis
  proof (cases "q = 1")
    case True
    have "sent w2 = sent w"
      using w2 True f1 by (auto simp: enet_protocol_check_timeouts_def filling_def filled_def put_peer_def
          split: if_splits bind_splits prod.splits dest: notify_disconnect_sent)
    then show ?thesis using def False w1 p1 w2 True by simp
  next
    case q: False
    have f2: "filling i ?mtu ?a (sent w) w2"
      using w2 f1 q by (auto split: if_splits intro: check_timeouts_filling)
    obtain w3 w4 where w3: "fill_reliable i w2 = Some w3" and w4: "fill_unreliable i w3 = Some w4"
      using def False w1 p1 w2 q by (simp split: bind_splits)
    have f4: "filled i ?mtu ?a (sent w) w4"
      by (rule fill_unreliable_filled [OF w4 fill_reliable_filling [OF w3 f2 m]])
    have "w' = w4 \<or> (\<exists>n. send_datagram i w4 = Some (n, w'))"
      using def False w1 p1 w2 q w3 w4 by (auto split: bind_splits if_splits)
    then show ?thesis using f4 send_datagram_length [OF _ f4] by (auto simp: filled_def)
  qed
qed

definition acking_world :: world where
  "acking_world = example_world\<lparr>host := example_host\<lparr>peers := [(created_peer 0)\<lparr>
     peer_state := ENET_PEER_STATE_CONNECTED,
     acknowledgements := [\<lparr>ak_sentTime = 3, ak_command = local_command 5 0 Ping\<rparr>]\<rparr>]\<rparr>\<rparr>"

lemma acking_world_sends:
  "map_option (\<lambda>(r, e, w). (r, e, map (\<lambda>(a, bs). length bs) (sent w))) (service_peer 0 True None acking_world) =
     Some (None, None, [18])"
  by code_simp

theorem datagram_fits_mtu_witness:
  "\<exists>w bs. service_peer 0 True None acking_world = Some (None, None, w) \<and> length (sent w) = 1 \<and>
     sent w = [(peer_address (created_peer 0), bs)] \<and> length bs \<le> 1400"
proof -
  obtain w where w: "service_peer 0 True None acking_world = Some (None, None, w)" "length (sent w) = 1"
    using acking_world_sends by (auto simp: split_beta dest: arg_cong [of _ _ length])
  let ?p = "(created_peer 0)\<lparr>peer_state := ENET_PEER_STATE_CONNECTED,
     acknowledgements := [\<lparr>ak_sentTime = 3, ak_command = local_command 5 0 Ping\<rparr>]\<rparr>"
  have p: "get_peer acking_world 0 = Some ?p" "peer_mtu ?p = 1400" "sent acking_world = []"
    by (simp_all add: acking_world_def get_peer_def example_world_def created_peer_def emptied_def reset_fields_def)
  have b: "buffers (host acking_world) \<noteq> []" "frags_ok ?p" "lens_ok (packets acking_world)"
    by (simp_all add: acking_world_def example_host_def created_host_def example_memory_def frags_ok_def lens_ok_def
        example_world_def empty_store_def created_peer_def emptied_def)
  have "12 \<le> peer_mtu ?p" "peer_mtu ?p \<le> 4096" by (simp_all add: p(2))
  from datagram_fits_mtu [OF w(1) p(1) this b] w(2) p(2,3) have
    "\<exists>bs. sent w = [(peer_address (created_peer 0), bs)] \<and> length bs \<le> 1400" by auto
  then show ?thesis using w by blast
qed

end
