(* ===== verification/OutProps.thy ===== *)
theory OutProps
  imports Datagram
begin

text \<open>
  What sending does to the queues: time-outs, the data in transit against the window, and the
  share of unreliable packets the throttle drops.
\<close>

subsection \<open>Time-outs\<close>

definition retried :: "ENetOutgoingCommand \<Rightarrow> ENetOutgoingCommand" where
  "retried oc = oc\<lparr>oc_roundTripTimeout := oc_roundTripTimeout oc * 2\<rparr>"

text \<open>The bytes of packets that a list of commands has under way, in 32 bits.\<close>

definition in_transit :: "ENetOutgoingCommand list \<Rightarrow> u32" where
  "in_transit q = (\<Sum>oc \<leftarrow> q. if oc_packet oc = None then 0 else ucast (oc_fragmentLength oc))"

lemma in_transit_simps [simp]:
  "in_transit [] = 0" "in_transit (oc # q) = (if oc_packet oc = None then 0 else ucast (oc_fragmentLength oc)) + in_transit q"
  "in_transit (q @ r) = in_transit q + in_transit r"
  by (simp_all add: in_transit_def)

lemma in_transit_split: "in_transit q = in_transit (filter P q) + in_transit (filter (\<lambda>oc. \<not> P oc) q)"
  by (induction q) (simp_all add: ac_simps)

lemma retransmit_fields [simp]:
  "outgoingReliableCommands (retransmit oc p) = retried oc # outgoingReliableCommands p"
  "packetsLost (retransmit oc p) = packetsLost p + 1"
  "reliableDataInTransit (retransmit oc p) = reliableDataInTransit p - in_transit [oc]"
  by (simp_all add: retransmit_def retried_def)

lemma check_timeouts_result:
  "check_timeouts_loop now kept rest p = (lost, p') \<Longrightarrow> \<not> lost \<Longrightarrow>
     sentReliableCommands p' = kept @ filter (\<lambda>oc. \<not> expired now oc) rest \<and>
     outgoingReliableCommands p' = rev (map retried (filter (expired now) rest)) @ outgoingReliableCommands p \<and>
     packetsLost p' = packetsLost p + of_nat (length (filter (expired now) rest)) \<and>
     reliableDataInTransit p' = reliableDataInTransit p - in_transit (filter (expired now) rest)"
proof (induction rule: check_timeouts_induct)
  case (again kept oc rest p t lost p')
  from again.IH [OF again.prems] again.hyps(1) show ?case by (simp add: algebra_simps)
qed simp_all

text \<open>C13. Unless the peer is given up, checking the time-outs parts the commands that wait for an
  acknowledgement: those whose time is not up stay, in order; the others go, with their time-out
  doubled, in front of the commands to send (the last one first); every one of them counts as lost, and
  their data is no longer in transit.\<close>

theorem check_timeouts_parts_commands:
  assumes "enet_protocol_check_timeouts i event w = Some (0, event', w')" and "get_peer w i = Some p"
    and "sent_now = serviceTime (host w)"
  shows "\<exists>p'. get_peer w' i = Some p' \<and>
    sentReliableCommands p' = filter (\<lambda>oc. \<not> expired sent_now oc) (sentReliableCommands p) \<and>
    outgoingReliableCommands p' = rev (map retried (filter (expired sent_now) (sentReliableCommands p))) @
      outgoingReliableCommands p \<and>
    packetsLost p' = packetsLost p + of_nat (length (filter (expired sent_now) (sentReliableCommands p))) \<and>
    reliableDataInTransit p' = reliableDataInTransit p - in_transit (filter (expired sent_now) (sentReliableCommands p))"
proof -
  obtain lost p1 where c: "check_timeouts_loop sent_now [] (sentReliableCommands p) p = (lost, p1)"
    by (cases "check_timeouts_loop sent_now [] (sentReliableCommands p) p")
  have "\<not> lost" and w': "w' = put_peer i p1 w"
    using assms c by (auto simp: enet_protocol_check_timeouts_def split: if_splits bind_splits)
  then have "get_peer w' i = Some p1" using assms(2) by (auto simp: get_peer_def split: if_splits)
  then show ?thesis using check_timeouts_result [OF c \<open>\<not> lost\<close>] by auto
qed

text \<open>Of two commands sent at 100 and 600 and due after 500 the first is late at time 700.\<close>

definition sent_ping :: "u32 \<Rightarrow> ENetOutgoingCommand" where
  "sent_ping t = \<lparr>oc_reliableSequenceNumber = 1, oc_unreliableSequenceNumber = 0, oc_sentTime = t,
     oc_roundTripTimeout = 500, oc_roundTripTimeoutLimit = 16000, oc_fragmentOffset = 0, oc_fragmentLength = 0,
     oc_command = local_command 133 0xFF Ping, oc_packet = None\<rparr>"

definition late_world :: world where
  "late_world = example_world\<lparr>host := example_host\<lparr>serviceTime := 700, peers := [(created_peer 0)\<lparr>
     peer_state := ENET_PEER_STATE_CONNECTED, sentReliableCommands := [sent_ping 100, sent_ping 600]\<rparr>]\<rparr>\<rparr>"

lemma late_world_checked:
  "map_option (\<lambda>(r, e, w). (r, e, map (map oc_sentTime \<circ> sentReliableCommands) (peers (host w))))
     (enet_protocol_check_timeouts 0 None late_world) = Some (0, None, [[600]])"
  by code_simp

theorem check_timeouts_parts_commands_witness:
  "\<exists>w p. enet_protocol_check_timeouts 0 None late_world = Some (0, None, w) \<and> get_peer w 0 = Some p \<and>
     packetsLost p = 1 \<and> map oc_sentTime (sentReliableCommands p) = [600] \<and>
     map oc_roundTripTimeout (outgoingReliableCommands p) = [1000]"
proof -
  obtain w where w: "enet_protocol_check_timeouts 0 None late_world = Some (0, None, w)"
    using late_world_checked by auto
  let ?p = "(created_peer 0)\<lparr>peer_state := ENET_PEER_STATE_CONNECTED,
     sentReliableCommands := [sent_ping 100, sent_ping 600]\<rparr>"
  have p: "get_peer late_world 0 = Some ?p" "serviceTime (host late_world) = 700"
    by (simp_all add: late_world_def get_peer_def)
  have s: "packetsLost ?p = 0" "outgoingReliableCommands ?p = []"
    by (simp_all add: created_peer_def emptied_def reset_fields_def)
  have e: "expired 700 (sent_ping 100)" "\<not> expired 700 (sent_ping 600)" by code_simp+
  from check_timeouts_parts_commands [OF w p(1) p(2) [symmetric]] e s show ?thesis
    using w by (auto simp: retried_def sent_ping_def)
qed

subsection \<open>The throttle\<close>

text \<open>The counter after the next \<open>i\<close> packets.\<close>

definition counter_after :: "ENetPeer \<Rightarrow> nat \<Rightarrow> nat" where
  "counter_after p i = (unat (packetThrottleCounter p) + 7 * i) mod 32"

lemma throttle_counter_unat: "packetThrottleCounter p < 32 \<Longrightarrow> unat (throttle_counter p) = counter_after p 1"
proof -
  assume "packetThrottleCounter p < 32"
  then have "unat (packetThrottleCounter p) < 32" by (simp add: word_less_nat_alt)
  then show ?thesis
    by (simp add: throttle_counter_def counter_after_def unat_mod unat_word_ariths(1))
qed

lemma counter_after_next:
  "packetThrottleCounter p < 32 \<Longrightarrow> packetThrottleCounter q = throttle_counter p \<Longrightarrow>
     counter_after q i = counter_after p (Suc i)"
  using throttle_counter_unat [of p] by (simp add: counter_after_def mod_add_left_eq add.assoc)

definition passes :: "ENetPeer \<Rightarrow> nat \<Rightarrow> nat" where
  "passes p n = length (filter (\<lambda>i. counter_after p (Suc i) \<le> unat (packetThrottle p)) [0..<n])"

lemma passes_Suc:
  assumes "packetThrottleCounter p < 32" and "packetThrottleCounter q = throttle_counter p"
    and "packetThrottle q = packetThrottle p"
  shows "passes p (Suc n) = (if throttled p then 0 else 1) + passes q n"
proof -
  have "passes p (Suc n) = (if counter_after p 1 \<le> unat (packetThrottle p) then 1 else 0) +
      length (filter (\<lambda>i. counter_after p (Suc (Suc i)) \<le> unat (packetThrottle p)) [0..<n])"
    by (simp add: passes_def upt_conv_Cons map_Suc_upt [symmetric] filter_map comp_def del: upt_Suc map_Suc_upt)
  moreover have "counter_after p 1 \<le> unat (packetThrottle p) \<longleftrightarrow> \<not> throttled p"
    using throttle_counter_unat [OF assms(1)] by (simp add: throttled_def not_less word_le_nat_alt)
  ultimately show ?thesis using counter_after_next [OF assms(1,2)] assms(3) by (simp add: passes_def)
qed

lemma send_unreliable_passes:
  "send_unreliable_loop q h p ps = Some (h', p', ps') \<Longrightarrow> outgoingUnreliableCommands p' = [] \<Longrightarrow>
     \<forall>oc \<in> set q. oc_packet oc \<noteq> None \<Longrightarrow> packetThrottleCounter p < 32 \<Longrightarrow>
     length (sentUnreliableCommands p') = length (sentUnreliableCommands p) + passes p (length q)"
proof (induction rule: send_unreliable_induct)
  case (drop oc rest h p ps q k ps1 h' p' ps')
  let ?q = "p\<lparr>packetThrottleCounter := throttle_counter p\<rparr>"
  from drop show ?case by (simp add: passes_Suc [of p ?q] throttle_counter_bound)
next
  case (send oc rest h p ps q k sz h' p' ps')
  let ?q = "p\<lparr>packetThrottleCounter := throttle_counter p, sentUnreliableCommands := sentUnreliableCommands p @ [oc]\<rparr>"
  from send show ?case by (simp add: passes_Suc [of p ?q] throttle_counter_bound)
qed (simp_all add: passes_def)

text \<open>Seven is prime to 32: in 32 steps the counter takes every value once.\<close>

lemma counters_distinct: "inj_on (\<lambda>i. (c + 7 * Suc i) mod 32) {..<32}"
proof (rule inj_onI)
  fix a b assume ab: "a \<in> {..<32}" "b \<in> {..<32}" and e: "(c + 7 * Suc a) mod 32 = (c + 7 * Suc b) mod 32"
  have "int ((c + 7 * Suc a) mod 32) = int ((c + 7 * Suc b) mod 32)" using e by simp
  then have "(32::int) dvd (int c + 7 * (int a + 1)) - (int c + 7 * (int b + 1))"
    by (simp add: zmod_int mod_eq_dvd_iff algebra_simps)
  then have "(32::int) dvd 7 * (int a - int b)" by (simp add: algebra_simps)
  then obtain m where "7 * (int a - int b) = 32 * m" by (rule dvdE)
  then obtain k where k: "int a - int b = 32 * k" by (atomize_elim, intro exI [of _ "23 * m - 5 * (int a - int b)"]) simp
  have "int a < 32" "int b < 32" using ab by simp_all
  then have "-1 < k" "k < 1" using k by linarith+
  then show "a = b" using k by simp
qed

lemma passes_32:
  assumes "packetThrottleCounter p < 32"
  shows "passes p 32 = min 32 (Suc (unat (packetThrottle p)))"
proof -
  let ?t = "unat (packetThrottle p)" and ?f = "\<lambda>i. (unat (packetThrottleCounter p) + 7 * Suc i) mod 32"
  have "?f ` {..<32} \<subseteq> {..<32}" by auto
  then have image: "?f ` {..<32} = {..<32}"
    using counters_distinct by (intro card_subset_eq) (simp_all add: card_image)
  have "passes p 32 = card {i. i < 32 \<and> ?f i \<le> ?t}"
    by (simp add: passes_def counter_after_def length_filter_conv_card del: upt_rec_numeral cong: conj_cong)
  also have "\<dots> = card (?f ` {i. i < 32 \<and> ?f i \<le> ?t})"
    by (rule card_image [symmetric], rule inj_on_subset [OF counters_distinct]) auto
  also have "?f ` {i. i < 32 \<and> ?f i \<le> ?t} = {x \<in> ?f ` {..<32}. x \<le> ?t}" by auto
  also have "\<dots> = {..<min 32 (Suc ?t)}" unfolding image by auto
  finally show ?thesis by simp
qed

text \<open>C30. Of 32 packets that one call of the loop over the unreliable commands takes from the queue, it drops
  31 less the throttle and sends the others, wherever the counter stands and in whatever order sent and
  dropped packets come: with the throttle at 32 or 31 all of them, but with the throttle at 0 still one.\<close>

theorem throttle_share_of_packets:
  assumes "send_unreliable_loop q h p ps = Some (h', p', ps')" and "outgoingUnreliableCommands p' = []"
    and "length q = 32" and "\<forall>oc \<in> set q. oc_packet oc \<noteq> None" and "packetThrottleCounter p < 32"
  shows "length (sentUnreliableCommands p') =
    length (sentUnreliableCommands p) + min 32 (unat (packetThrottle p) + 1)"
  using send_unreliable_passes [OF assms(1,2,4,5)] passes_32 [OF assms(5)] assms(3) by simp

definition silent_peer :: ENetPeer where
  "silent_peer = (created_peer 0)\<lparr>packetThrottle := 0\<rparr>"

definition small_command :: ENetOutgoingCommand where
  "small_command = (sent_ping 0)\<lparr>oc_packet := Some 0, oc_fragmentLength := 1, oc_command := local_command
     ENET_PROTOCOL_COMMAND_SEND_UNRELIABLE 0 (SendUnreliable \<lparr>sul_unreliableSequenceNumber = 0, sul_dataLength = 0\<rparr>)\<rparr>"

definition small_store :: packet_store where
  "small_store = empty_store\<lparr>pheap := [0 \<mapsto> example_packet 33]\<rparr>"

lemma silent_peer_sends:
  "map_option (\<lambda>(h, p, ps). length (outgoingUnreliableCommands p))
     (send_unreliable_loop (replicate 32 small_command) (example_host\<lparr>bufferCount := 1\<rparr>) silent_peer small_store) = Some 0"
  by code_simp

theorem throttle_share_of_packets_witness:
  "\<exists>h p ps. send_unreliable_loop (replicate 32 small_command) (example_host\<lparr>bufferCount := 1\<rparr>) silent_peer small_store =
     Some (h, p, ps) \<and> length (sentUnreliableCommands p) = 1"
proof -
  obtain h p ps where r: "send_unreliable_loop (replicate 32 small_command) (example_host\<lparr>bufferCount := 1\<rparr>)
      silent_peer small_store = Some (h, p, ps)" "outgoingUnreliableCommands p = []"
    using silent_peer_sends by auto
  have c: "packetThrottleCounter silent_peer < 32" "packetThrottle silent_peer = 0"
      "sentUnreliableCommands silent_peer = []"
    by (simp_all add: silent_peer_def created_peer_def emptied_def reset_fields_def)
  have "length (sentUnreliableCommands p) = 1"
    using throttle_share_of_packets [OF r _ _ c(1)] c(2,3) by (simp add: small_command_def)
  then show ?thesis using r by blast
qed

end
