(* ===== verification/Delivery.thy ===== *)
theory Delivery
  imports OutProps
begin

text \<open>
  What becomes of a reliable command: the relation \<open>reliable_run\<close> takes a peer through the operations
  that move reliable commands (queueing, sending, time-outs, acknowledgements) in any order, with the
  lists of the commands queued and acknowledged so far.
\<close>

subsection \<open>Commands and their bytes\<close>

text \<open>What stays the same of a command while its times change.\<close>

type_synonym outgoing_id = "u16 \<times> ENetProtocol \<times> nat option \<times> u32 \<times> u16"

definition oc_id :: "ENetOutgoingCommand \<Rightarrow> outgoing_id" where
  "oc_id oc = (oc_reliableSequenceNumber oc, oc_command oc, oc_packet oc, oc_fragmentOffset oc, oc_fragmentLength oc)"

definition ids :: "ENetOutgoingCommand list \<Rightarrow> outgoing_id multiset" where
  "ids q = image_mset oc_id (mset q)"

lemma ids_simps [simp]: "ids [] = {#}" "ids (oc # q) = add_mset (oc_id oc) (ids q)" "ids (q @ r) = ids q + ids r"
    "ids (rev q) = ids q"
  by (simp_all add: ids_def)

lemma oc_id_times [simp]:
  "oc_id (retried oc) = oc_id oc" "oc_id (first_timeout p oc) = oc_id oc" "oc_id (oc\<lparr>oc_sentTime := t\<rparr>) = oc_id oc"
  by (simp_all add: oc_id_def retried_def first_timeout_def Let_def)

lemma ids_retried [simp]: "ids (map retried q) = ids q"
  by (induction q) simp_all

lemma ids_filter: "ids (filter P q) + ids (filter (\<lambda>oc. \<not> P oc) q) = ids q"
  by (induction q) simp_all

text \<open>The bytes under way as a number without a bound.\<close>

definition transit_bytes :: "ENetOutgoingCommand list \<Rightarrow> nat" where
  "transit_bytes q = (\<Sum>oc \<leftarrow> q. if oc_packet oc = None then 0 else unat (oc_fragmentLength oc))"

lemma transit_bytes_simps [simp]:
  "transit_bytes [] = 0" "transit_bytes (q @ r) = transit_bytes q + transit_bytes r"
  "transit_bytes (oc # q) = (if oc_packet oc = None then 0 else unat (oc_fragmentLength oc)) + transit_bytes q"
  by (simp_all add: transit_bytes_def)

lemma in_transit_bytes: "in_transit q = of_nat (transit_bytes q)"
  by (induction q) simp_all

lemma transit_bytes_filter: "transit_bytes (filter P q) \<le> transit_bytes q"
  by (induction q) simp_all

lemma transit_bytes_split: "transit_bytes q = transit_bytes (filter P q) + transit_bytes (filter (\<lambda>oc. \<not> P oc) q)"
  by (induction q) simp_all

subsection \<open>Runs\<close>

text \<open>The command an acknowledgement removes.\<close>

definition acknowledged :: "u16 \<Rightarrow> u8 \<Rightarrow> ENetPeer \<Rightarrow> ENetOutgoingCommand list" where
  "acknowledged n channel p =
     (case find_sent n channel (sentReliableCommands p) of None \<Rightarrow> [] | Some k \<Rightarrow> [sentReliableCommands p ! k])"

inductive reliable_run ::
  "ENetPeer \<Rightarrow> ENetOutgoingCommand list \<Rightarrow> ENetOutgoingCommand list \<Rightarrow> ENetPeer \<Rightarrow> bool" for p0 where
  start: "reliable_run p0 [] [] p0"
| queue_reliable: "reliable_run p0 qs as p \<Longrightarrow>
    enet_peer_queue_outgoing_command c packet off len p ps = Some (oc, p', ps') \<Longrightarrow>
    command_of c AND ENET_PROTOCOL_COMMAND_FLAG_ACKNOWLEDGE \<noteq> 0 \<Longrightarrow> reliable_run p0 (qs @ [oc]) as p'"
| queue_other: "reliable_run p0 qs as p \<Longrightarrow>
    enet_peer_queue_outgoing_command c packet off len p ps = Some (oc, p', ps') \<Longrightarrow>
    command_of c AND ENET_PROTOCOL_COMMAND_FLAG_ACKNOWLEDGE = 0 \<Longrightarrow> reliable_run p0 qs as p'"
| send: "reliable_run p0 qs as p \<Longrightarrow>
    send_reliable_loop (outgoingReliableCommands p) h p = Some (h', p') \<Longrightarrow> reliable_run p0 qs as p'"
| timeouts: "reliable_run p0 qs as p \<Longrightarrow>
    check_timeouts_loop now [] (sentReliableCommands p) p = (False, p') \<Longrightarrow> reliable_run p0 qs as p'"
| acknowledge: "reliable_run p0 qs as p \<Longrightarrow>
    enet_protocol_remove_sent_reliable_command n channel p ps = Some (r, p', ps') \<Longrightarrow>
    reliable_run p0 qs (as @ acknowledged n channel p) p'"

subsection \<open>The steps\<close>

definition accounted :: "nat \<Rightarrow> ENetPeer \<Rightarrow> bool" where
  "accounted W p \<longleftrightarrow> unat (windowSize p) = W \<and> W \<le> 2 ^ 31 \<and> transit_bytes (sentReliableCommands p) \<le> W \<and>
     reliableDataInTransit p = of_nat (transit_bytes (sentReliableCommands p))"

definition outstanding :: "ENetPeer \<Rightarrow> outgoing_id multiset" where
  "outstanding p = ids (outgoingReliableCommands p) + ids (sentReliableCommands p)"

lemma accounted_unat:
  assumes "accounted W p"
  shows "unat (reliableDataInTransit p) = transit_bytes (sentReliableCommands p)"
  using assms unfolding accounted_def by (simp add: unat_of_nat take_bit_nat_eq_self)

text \<open>A command is sent only when it fits the window, and the test does not wrap.\<close>

lemma sent_reliable_accounted:
  assumes "accounted W p" and "oc_packet oc = None \<or> \<not> window_full oc p"
  shows "accounted W (sent_reliable now (first_timeout p oc) p)"
proof (cases "oc_packet oc")
  case None
  then show ?thesis using assms(1) by (simp add: accounted_def sent_reliable_def)
next
  case (Some q)
  let ?n = "transit_bytes (sentReliableCommands p)" and ?l = "unat (oc_fragmentLength oc)"
  have l: "?l < 2 ^ 16" using unsigned_less [of "oc_fragmentLength oc", where ?'a = nat] by simp
  have b: "?n \<le> W" "W \<le> 2 ^ 31" using assms(1) by (simp_all add: accounted_def)
  have r: "unat (reliableDataInTransit p + ucast (oc_fragmentLength oc)) = ?n + ?l"
    using accounted_unat [OF assms(1)] b l by (subst unat_add_lt) (simp_all add: unat_ucast_up)
  have "?n + ?l \<le> W" using assms Some r by (simp add: window_full_def accounted_def not_less word_le_nat_alt)
  moreover have "reliableDataInTransit p + ucast (oc_fragmentLength oc) = of_nat (?n + ?l)"
    by (simp flip: r)
  ultimately show ?thesis using assms(1) Some by (simp add: accounted_def sent_reliable_def)
qed

lemma send_reliable_accounted:
  "send_reliable_loop q h p = Some (h', p') \<Longrightarrow> accounted W p \<Longrightarrow>
     accounted W p' \<and> outstanding p' = ids q + ids (sentReliableCommands p)"
proof (induction rule: send_reliable_induct)
  case (send oc rest h p sz h' p')
  have "accounted W (sent_reliable (serviceTime h) (first_timeout p oc) p)"
    using send.hyps(2) send.prems by (intro sent_reliable_accounted) (auto simp: reliable_fits_def)
  from send.IH [OF this] show ?case by (simp add: sent_reliable_def)
qed (simp_all add: accounted_def outstanding_def)

lemma check_timeouts_window:
  "check_timeouts_loop now kept rest p = (lost, p') \<Longrightarrow> windowSize p' = windowSize p"
  by (induction rule: check_timeouts_induct) (simp_all add: retransmit_def note_timeout_def)

lemma check_timeouts_accounted:
  assumes "check_timeouts_loop now [] (sentReliableCommands p) p = (False, p')" and "accounted W p"
  shows "accounted W p' \<and> outstanding p' = outstanding p"
proof -
  let ?s = "sentReliableCommands p" and ?e = "expired now"
  have r: "sentReliableCommands p' = filter (\<lambda>oc. \<not> ?e oc) ?s"
    "outgoingReliableCommands p' = rev (map retried (filter ?e ?s)) @ outgoingReliableCommands p"
    "reliableDataInTransit p' = reliableDataInTransit p - in_transit (filter ?e ?s)"
    using check_timeouts_result [OF assms(1)] by simp_all
  have "of_nat (transit_bytes ?s) - in_transit (filter ?e ?s) = in_transit (filter (\<lambda>oc. \<not> ?e oc) ?s)"
    using in_transit_split [of ?s ?e] by (simp add: in_transit_bytes)
  then have "accounted W p'"
    using assms(2) r transit_bytes_filter [of "\<lambda>oc. \<not> ?e oc" ?s] check_timeouts_window [OF assms(1)]
    by (simp add: accounted_def in_transit_bytes)
  then show ?thesis using r ids_filter [of ?e ?s] by (simp add: outstanding_def rev_map ac_simps)
qed

lemma remove_at_split: "k < length xs \<Longrightarrow> mset xs = add_mset (xs ! k) (mset (remove_at k xs))"
  by (metis id_take_nth_drop mset_append mset.simps(2) remove_at_def union_mset_add_mset_right)

lemma transit_bytes_mset: "transit_bytes q = (\<Sum>oc \<in># mset q. if oc_packet oc = None then 0 else unat (oc_fragmentLength oc))"
  by (induction q) simp_all

lemma remove_sent_reliable_accounted:
  assumes "enet_protocol_remove_sent_reliable_command n channel p ps = Some (r, p', ps')" and "accounted W p"
  shows "accounted W p' \<and> outstanding p = ids (acknowledged n channel p) + outstanding p'"
proof (cases "find_sent n channel (sentReliableCommands p)")
  case None
  then show ?thesis using assms by (simp add: enet_protocol_remove_sent_reliable_command_def acknowledged_def)
next
  case (Some k)
  let ?s = "sentReliableCommands p" and ?oc = "sentReliableCommands p ! k"
  have m: "mset ?s = add_mset ?oc (mset (remove_at k ?s))" by (rule remove_at_split [OF find_sent_less [OF Some]])
  have t: "transit_bytes ?s = (if oc_packet ?oc = None then 0 else unat (oc_fragmentLength ?oc)) + transit_bytes (remove_at k ?s)"
    unfolding transit_bytes_mset m by simp
  have p': "sentReliableCommands p' = remove_at k ?s" "windowSize p' = windowSize p"
    "outgoingReliableCommands p' = outgoingReliableCommands p"
    "reliableDataInTransit p' = (if oc_packet ?oc = None then reliableDataInTransit p
       else reliableDataInTransit p - ucast (oc_fragmentLength ?oc))"
    using assms(1) Some by (auto simp: enet_protocol_remove_sent_reliable_command_def Let_def
        split: bind_splits list.splits)
  have "accounted W p'" using assms(2) t by (auto simp: accounted_def p')
  moreover have "ids ?s = add_mset (oc_id ?oc) (ids (remove_at k ?s))" by (simp add: ids_def m)
  ultimately show ?thesis using Some by (simp add: outstanding_def acknowledged_def p')
qed

lemma next_sequence_numbers_queues:
  "next_sequence_numbers p c = Some (rsn, usn, p') \<Longrightarrow>
     outgoingReliableCommands p' = outgoingReliableCommands p \<and> outgoingUnreliableCommands p' = outgoingUnreliableCommands p \<and>
     sentReliableCommands p' = sentReliableCommands p \<and> windowSize p' = windowSize p \<and>
     reliableDataInTransit p' = reliableDataInTransit p"
  by (auto simp: next_sequence_numbers_def Let_def put_channel_def split: if_splits bind_splits)

lemma queue_outgoing_queues:
  assumes "enet_peer_queue_outgoing_command c packet off len p ps = Some (oc, p', ps')"
  shows "sentReliableCommands p' = sentReliableCommands p \<and> windowSize p' = windowSize p \<and>
    reliableDataInTransit p' = reliableDataInTransit p \<and>
    outgoingReliableCommands p' = outgoingReliableCommands p @
      (if command_of c AND ENET_PROTOCOL_COMMAND_FLAG_ACKNOWLEDGE \<noteq> 0 then [oc] else []) \<and>
    outgoingUnreliableCommands p' = outgoingUnreliableCommands p @
      (if command_of c AND ENET_PROTOCOL_COMMAND_FLAG_ACKNOWLEDGE \<noteq> 0 then [] else [oc])"
proof -
  obtain sz rsn usn p1 where sz: "enet_protocol_command_size (command_of c) = Some sz"
    and n: "next_sequence_numbers (p\<lparr>outgoingDataTotal := outgoingDataTotal p + ucast (sz + ucast len)\<rparr>) c
      = Some (rsn, usn, p1)"
    using assms by (auto simp: enet_peer_queue_outgoing_command_def split: bind_splits)
  show ?thesis using assms sz n next_sequence_numbers_queues [OF n]
    by (auto simp: enet_peer_queue_outgoing_command_def Let_def split: bind_splits if_splits)
qed

lemma reliable_run_accounted:
  assumes "reliable_run p0 qs as p" and "accounted W p0" and "outstanding p0 = {#}"
  shows "accounted W p \<and> ids qs = outstanding p + ids as"
  using assms(1)
proof (induction rule: reliable_run.induct)
  case start
  then show ?case using assms(2,3) by simp
next
  case (queue_reliable qs as p c packet off len ps oc p' ps')
  from queue_outgoing_queues [OF queue_reliable.hyps(2)] queue_reliable.hyps(3) queue_reliable.IH
  show ?case by (simp add: accounted_def outstanding_def)
next
  case (queue_other qs as p c packet off len ps oc p' ps')
  from queue_outgoing_queues [OF queue_other.hyps(2)] queue_other.hyps(3) queue_other.IH
  show ?case by (simp add: accounted_def outstanding_def)
next
  case (send qs as p h h' p')
  then show ?case using send_reliable_accounted [OF send.hyps(2), of W] by (simp add: outstanding_def)
next
  case (timeouts qs as p now p')
  then show ?case using check_timeouts_accounted [OF timeouts.hyps(2), of W] by simp
next
  case (acknowledge qs as p n channel ps r p' ps')
  then show ?case using remove_sent_reliable_accounted [OF acknowledge.hyps(2), of W] by (simp add: ac_simps)
qed

text \<open>C1. No reliable command is lost or duplicated by a peer: whatever the order in which it queues
  commands, fills datagrams, goes through the time-outs and takes acknowledgements, every reliable command
  queued so far is either waiting to be sent, or waiting for its acknowledgement, or acknowledged, and just
  one of them. The counter of the data in transit is all along the number of bytes that wait for an
  acknowledgement, and never more than the window.\<close>

theorem reliable_commands_conserved:
  assumes "reliable_run p0 qs as p" and "outgoingReliableCommands p0 = []" and "sentReliableCommands p0 = []"
    and "reliableDataInTransit p0 = 0" and "windowSize p0 \<le> ENET_PROTOCOL_MAXIMUM_WINDOW_SIZE"
  shows "ids qs = ids (outgoingReliableCommands p) + ids (sentReliableCommands p) + ids as \<and>
    unat (reliableDataInTransit p) = transit_bytes (sentReliableCommands p) \<and>
    transit_bytes (sentReliableCommands p) \<le> unat (windowSize p0)"
proof -
  have "unat (windowSize p0) \<le> 2 ^ 31"
    using assms(5) by (simp add: word_le_nat_alt)
  then have "accounted (unat (windowSize p0)) p0" "outstanding p0 = {#}"
    using assms(2-4) by (simp_all add: accounted_def outstanding_def)
  from reliable_run_accounted [OF assms(1) this] accounted_unat show ?thesis
    by (auto simp: accounted_def outstanding_def)
qed

text \<open>A ping is queued, sent and acknowledged; a second one waits.\<close>

definition pinged :: "(ENetOutgoingCommand list \<times> ENetPeer) option" where
  "pinged = do {
     let p0 = (created_peer 0)\<lparr>peer_state := ENET_PEER_STATE_CONNECTED\<rparr>;
     (oc1, p1, ps1) \<leftarrow> enet_peer_queue_outgoing_command (local_command 133 0xFF Ping) None 0 0 p0 empty_store;
     (h, p2) \<leftarrow> send_reliable_loop (outgoingReliableCommands p1) (example_host\<lparr>bufferCount := 1\<rparr>) p1;
     (oc2, p3, ps2) \<leftarrow> enet_peer_queue_outgoing_command (local_command 133 0xFF Ping) None 0 0 p2 ps1;
     (_, p4, ps3) \<leftarrow> enet_protocol_remove_sent_reliable_command 1 0xFF p3 ps2;
     Some (acknowledged 1 0xFF p3, p4) }"

lemma pinged_result:
  "map_option (\<lambda>(as, p). (map oc_reliableSequenceNumber as, map oc_reliableSequenceNumber (outgoingReliableCommands p),
     length (sentReliableCommands p))) pinged = Some ([1], [2], 0)"
  by code_simp

theorem reliable_commands_conserved_witness:
  "\<exists>qs as p. reliable_run ((created_peer 0)\<lparr>peer_state := ENET_PEER_STATE_CONNECTED\<rparr>) qs as p \<and>
     length qs = 2 \<and> ids qs = ids (outgoingReliableCommands p) + ids as \<and>
     map oc_reliableSequenceNumber as = [1] \<and> map oc_reliableSequenceNumber (outgoingReliableCommands p) = [2]"
proof -
  let ?p0 = "(created_peer 0)\<lparr>peer_state := ENET_PEER_STATE_CONNECTED\<rparr>"
  obtain oc1 p1 ps1 h p2 oc2 p3 ps2 r p4 ps3 where
      a: "enet_peer_queue_outgoing_command (local_command 133 0xFF Ping) None 0 0 ?p0 empty_store = Some (oc1, p1, ps1)"
    and b: "send_reliable_loop (outgoingReliableCommands p1) (example_host\<lparr>bufferCount := 1\<rparr>) p1 = Some (h, p2)"
    and c: "enet_peer_queue_outgoing_command (local_command 133 0xFF Ping) None 0 0 p2 ps1 = Some (oc2, p3, ps2)"
    and d: "enet_protocol_remove_sent_reliable_command 1 0xFF p3 ps2 = Some (r, p4, ps3)"
    and e: "map oc_reliableSequenceNumber (acknowledged 1 0xFF p3) = [1]"
      "map oc_reliableSequenceNumber (outgoingReliableCommands p4) = [2]" "sentReliableCommands p4 = []"
    using pinged_result unfolding pinged_def by (auto simp: Let_def split: bind_splits)
  have f: "command_of (local_command 133 0xFF Ping) AND ENET_PROTOCOL_COMMAND_FLAG_ACKNOWLEDGE \<noteq> 0"
    by code_simp
  have "reliable_run ?p0 [oc1, oc2] (acknowledged 1 0xFF p3) p4"
    using reliable_run.acknowledge [OF reliable_run.queue_reliable [OF reliable_run.send [OF
        reliable_run.queue_reliable [OF reliable_run.start a f] b] c f] d] by simp
  from this reliable_commands_conserved [OF this] e show ?thesis
    by (intro exI [of _ "[oc1, oc2]"] exI [of _ "acknowledged 1 0xFF p3"] exI [of _ p4])
      (simp add: created_peer_def emptied_def reset_fields_def)
qed

end
