(* ===== verification/Fragments.thy ===== *)
theory Fragments
  imports Delivery
begin

text \<open>
  \<open>enet_peer_send\<close> of a packet that does not fit one datagram: the loop over the fragments ends, and the
  fragments it queues cover the packet, each byte once, in order.
\<close>

subsection \<open>Queueing one reliable command with a packet\<close>

definition numbered :: "ENetProtocol \<Rightarrow> u16 \<Rightarrow> ENetProtocol" where
  "numbered c n = c\<lparr>prt_header := (prt_header c)\<lparr>hdr_reliableSequenceNumber := ENET_HOST_TO_NET_16 n\<rparr>\<rparr>"

definition reliable_entry :: "ENetProtocol \<Rightarrow> u16 \<Rightarrow> nat \<Rightarrow> u32 \<Rightarrow> u16 \<Rightarrow> ENetOutgoingCommand" where
  "reliable_entry c n packet off len = \<lparr>oc_reliableSequenceNumber = n, oc_unreliableSequenceNumber = 0,
     oc_sentTime = 0, oc_roundTripTimeout = 0, oc_roundTripTimeoutLimit = 0, oc_fragmentOffset = off,
     oc_fragmentLength = len, oc_command = numbered c n, oc_packet = Some packet\<rparr>"

text \<open>The fields of a peer that queueing a command on a channel leaves alone.\<close>

definition same_but_queue :: "ENetPeer \<Rightarrow> ENetPeer \<Rightarrow> bool" where
  "same_but_queue p q \<longleftrightarrow> outgoingUnreliableCommands q = outgoingUnreliableCommands p \<and>
     sentReliableCommands q = sentReliableCommands p \<and> length (channels q) = length (channels p) \<and>
     peer_state q = peer_state p \<and> channelCount q = channelCount p"

lemma queue_reliable_packet:
  assumes "get_channel p (channelID_of c) = Some ch" and "channelID_of c \<noteq> 0xFF"
    and "command_of c AND ENET_PROTOCOL_COMMAND_FLAG_ACKNOWLEDGE \<noteq> 0"
    and "enet_protocol_command_size (command_of c) = Some sz" and "pheap ps packet = Some k"
  defines "n \<equiv> ch_outgoingReliableSequenceNumber ch + 1"
  shows "\<exists>p'. enet_peer_queue_outgoing_command c (Some packet) off len p ps = Some (reliable_entry c n packet off len, p',
      ps\<lparr>pheap := (pheap ps)(packet \<mapsto> k\<lparr>referenceCount := referenceCount k + 1\<rparr>)\<rparr>) \<and>
    outgoingReliableCommands p' = outgoingReliableCommands p @ [reliable_entry c n packet off len] \<and>
    get_channel p' (channelID_of c) = Some (ch\<lparr>ch_outgoingReliableSequenceNumber := n\<rparr>) \<and> same_but_queue p p'"
  using assms(1-5)
  by (auto simp: enet_peer_queue_outgoing_command_def next_sequence_numbers_def packet_retain_def packet_update_def
      get_channel_def put_channel_def n_def reliable_entry_def numbered_def same_but_queue_def Let_def split: if_splits)

subsection \<open>The fragments\<close>

text \<open>The fragment with number \<open>k\<close> of a packet of \<open>len\<close> bytes in pieces of \<open>F\<close>; \<open>s\<close> is the last sequence
  number used before the first fragment.\<close>

definition fragment_count :: "usize \<Rightarrow> nat \<Rightarrow> nat" where
  "fragment_count len F = (unat len + F - 1) div F"

definition piece_length :: "usize \<Rightarrow> nat \<Rightarrow> nat \<Rightarrow> nat" where
  "piece_length len F k = min F (unat len - k * F)"

definition fragment :: "u8 \<Rightarrow> nat \<Rightarrow> usize \<Rightarrow> u16 \<Rightarrow> u32 \<Rightarrow> nat \<Rightarrow> u16 \<Rightarrow> nat \<Rightarrow> ENetOutgoingCommand" where
  "fragment c packet len start n F s k = reliable_entry
     (fragment_command c len start n (of_nat (piece_length len F k)) (of_nat k) (of_nat (k * F)))
     (s + of_nat (Suc k)) packet (of_nat (k * F)) (of_nat (piece_length len F k))"

lemma less_fragment_count: "0 < F \<Longrightarrow> k < fragment_count len F \<longleftrightarrow> k * F < unat len"
proof -
  assume F: "0 < F"
  have "k < fragment_count len F \<longleftrightarrow> Suc k * F \<le> unat len + F - 1"
    unfolding fragment_count_def Suc_le_eq [symmetric] by (simp add: less_eq_div_iff_mult_less_eq F del: mult_Suc)
  also have "\<dots> \<longleftrightarrow> k * F < unat len" using F by auto
  finally show ?thesis .
qed

lemma fragment_command_kind:
  "command_of (fragment_command c len start n l k off) AND ENET_PROTOCOL_COMMAND_FLAG_ACKNOWLEDGE \<noteq> 0"
  "enet_protocol_command_size (command_of (fragment_command c len start n l k off)) = Some 24"
  "channelID_of (fragment_command c len start n l k off) = c"
  by (simp_all add: fragment_command_def local_command_def
      enet_protocol_command_size_def commandSizes_def)

lemma send_fragments_total:
  assumes len: "unat len < 2 ^ 32" and F: "0 < F" and c: "c \<noteq> 0xFF"
    and "get_channel p c = Some ch" and "ch_outgoingReliableSequenceNumber ch = s + of_nat k"
    and "pheap ps packet = Some pk" and "k \<le> fragment_count len F" and "unat off = min (k * F) (unat len)"
    and "k < fragment_count len F \<Longrightarrow> unat fl = F"
  shows "\<exists>p' ps' ch'. send_fragments packet c len start n fl (of_nat k) off p ps = Some ((), p', ps') \<and>
    outgoingReliableCommands p' = outgoingReliableCommands p @
      map (fragment c packet len start n F s) [k..<fragment_count len F] \<and>
    get_channel p' c = Some ch' \<and> ch_outgoingReliableSequenceNumber ch' = s + of_nat (fragment_count len F) \<and>
    same_but_queue p p' \<and>
    pheap ps' = (pheap ps)(packet \<mapsto> pk\<lparr>referenceCount := referenceCount pk + of_nat (fragment_count len F - k)\<rparr>)"
  using assms(4-)
proof (induction "fragment_count len F - k" arbitrary: k off fl p ps ch pk)
  case 0
  let ?m = "fragment_count len F"
  have "k = ?m" using 0 by simp
  then have "\<not> k * F < unat len" using less_fragment_count [OF F, of k len] by simp
  then have "unat len \<le> unat (ucast off :: usize)" using 0 by (simp add: unat_ucast_up)
  then have "\<not> (ucast off :: usize) < len" by (simp add: word_less_nat_alt)
  then have "send_fragments packet c len start n fl (of_nat k) off p ps = Some ((), p, ps)"
    by (simp add: send_fragments.simps)
  then show ?case using 0 \<open>k = ?m\<close> by (auto simp: same_but_queue_def fun_upd_idem)
next
  case (Suc d)
  let ?m = "fragment_count len F"
  have k: "k < ?m" using Suc.hyps(2) by simp
  have kF: "k * F < unat len" using k less_fragment_count [OF F] by blast
  have off: "unat off = k * F" and fl: "unat fl = F" using Suc.prems(5,6) k kF by simp_all
  have lt: "(ucast off :: usize) < len" using off kF by (simp add: word_less_nat_alt unat_ucast_up)
  define l where "l = (if len - ucast off < fl then len - ucast off else fl)"
  note st = fragment_step [OF lt l_def len]
  have l: "unat l = piece_length len F k" unfolding st(1) by (simp add: piece_length_def off fl)
  have w: "l = of_nat (piece_length len F k)" "off = of_nat (k * F)" "(ucast l :: u32) = of_nat (piece_length len F k)"
      "(ucast l :: u16) = of_nat (piece_length len F k)"
    using l off st(4) by (simp_all flip: l off)
  let ?c = "fragment_command c len start n l (of_nat k) off"
  let ?e = "fragment c packet len start n F s k"
  let ?ps = "ps\<lparr>pheap := (pheap ps)(packet \<mapsto> pk\<lparr>referenceCount := referenceCount pk + 1\<rparr>)\<rparr>"
  have e: "reliable_entry ?c (s + of_nat (Suc k)) packet off (ucast l) = ?e"
    unfolding fragment_def w(3,4) unfolding w(1,2) by (simp add: ac_simps)
  have n: "ch_outgoingReliableSequenceNumber ch + 1 = s + of_nat (Suc k)" using Suc.prems(2) by simp
  have g: "get_channel p (channelID_of ?c) = Some ch" "channelID_of ?c \<noteq> 0xFF"
    using Suc.prems(1) c by (simp_all add: fragment_command_kind)
  obtain p1 where q: "enet_peer_queue_outgoing_command ?c (Some packet) off (ucast l) p ps = Some (?e, p1, ?ps)"
      "outgoingReliableCommands p1 = outgoingReliableCommands p @ [?e]"
      "get_channel p1 c = Some (ch\<lparr>ch_outgoingReliableSequenceNumber := s + of_nat (Suc k)\<rparr>)" "same_but_queue p p1"
    using queue_reliable_packet [OF g fragment_command_kind(1,2) Suc.prems(3), of off "ucast l"]
    unfolding n fragment_command_kind(3) unfolding e by blast
  have unfold: "send_fragments packet c len start n fl (of_nat k) off p ps =
      send_fragments packet c len start n l (of_nat (Suc k)) (off + ucast l) p1 ?ps"
    using lt q(1) unfolding send_fragments.simps [of packet c len start n fl] l_def [symmetric]
    by (simp add: Let_def fragment_command_def add.commute)
  have off': "unat (off + ucast l) = min (Suc k * F) (unat len)"
    unfolding st(3) l off piece_length_def using kF by simp
  have fl': "unat l = F" if "Suc k < ?m"
    using that less_fragment_count [OF F, of "Suc k" len] by (simp add: l piece_length_def)
  have d: "d = ?m - Suc k" using Suc.hyps(2) by simp
  have sn: "ch_outgoingReliableSequenceNumber (ch\<lparr>ch_outgoingReliableSequenceNumber := s + of_nat (Suc k)\<rparr>) = s + of_nat (Suc k)"
    and pk: "pheap ?ps packet = Some (pk\<lparr>referenceCount := referenceCount pk + 1\<rparr>)" by simp_all
  obtain p' ps' ch' where r: "send_fragments packet c len start n l (of_nat (Suc k)) (off + ucast l) p1 ?ps = Some ((), p', ps')"
      "outgoingReliableCommands p' = outgoingReliableCommands p1 @ map (fragment c packet len start n F s) [Suc k..<?m]"
      "get_channel p' c = Some ch'" "ch_outgoingReliableSequenceNumber ch' = s + of_nat ?m" "same_but_queue p1 p'"
      "pheap ps' = (pheap ?ps)(packet \<mapsto> (pk\<lparr>referenceCount := referenceCount pk + 1\<rparr>)\<lparr>referenceCount :=
         referenceCount (pk\<lparr>referenceCount := referenceCount pk + 1\<rparr>) + of_nat (?m - Suc k)\<rparr>)"
    using Suc.hyps(1) [of "Suc k" p1 _ ?ps "pk\<lparr>referenceCount := referenceCount pk + 1\<rparr>" "off + ucast l" l,
      OF d q(3) sn pk Suc_leI [OF k] off' fl'] by blast
  have "?m - k = Suc (?m - Suc k)" using k by simp
  then have rc: "of_nat (?m - k) = 1 + (of_nat (?m - Suc k) :: usize)" by (simp only: of_nat_Suc)
  have "outgoingReliableCommands p' = outgoingReliableCommands p @ map (fragment c packet len start n F s) [k..<?m]"
    using r(2) q(2) k by (simp add: upt_conv_Cons)
  moreover have "same_but_queue p p'" using r(5) q(4) by (simp add: same_but_queue_def)
  moreover have "pheap ps' = (pheap ps)(packet \<mapsto> pk\<lparr>referenceCount := referenceCount pk + of_nat (?m - k)\<rparr>)"
    unfolding r(6) rc by (simp add: add.assoc del: of_nat_diff)
  ultimately show ?case using r(1,3,4) unfold by simp
qed

subsection \<open>The packet in pieces\<close>

text \<open>The part of a packet that a queued command sends.\<close>

definition piece :: "bytes \<Rightarrow> ENetOutgoingCommand \<Rightarrow> bytes" where
  "piece d oc = take (unat (oc_fragmentLength oc)) (drop (unat (oc_fragmentOffset oc)) d)"

lemma pieces_prefix:
  assumes "0 < F" and "j \<le> fragment_count len F"
  shows "concat (map (\<lambda>k. take (piece_length len F k) (drop (k * F) d)) [0..<j]) = take (min (j * F) (unat len)) d"
  using assms(2)
proof (induction j)
  case (Suc j)
  have "j * F < unat len" using Suc.prems less_fragment_count [OF assms(1), of j len] by simp
  then have "min (Suc j * F) (unat len) = j * F + piece_length len F j" "min (j * F) (unat len) = j * F"
    by (simp_all add: piece_length_def)
  then show ?case using Suc by (simp add: take_add del: mult_Suc)
qed simp

lemma pieces_concat:
  assumes "0 < F" and "F < 2 ^ 16" and "unat len < 2 ^ 32"
  shows "concat (map (piece d \<circ> fragment c packet len start n F s) [0..<fragment_count len F]) = take (unat len) d"
proof -
  let ?m = "fragment_count len F"
  have "piece d (fragment c packet len start n F s k) = take (piece_length len F k) (drop (k * F) d)"
    if "k < ?m" for k
  proof -
    have "k * F < unat len" using less_fragment_count [OF assms(1)] that by blast
    then have "k * F < 2 ^ 32" "piece_length len F k < 2 ^ 16"
      using assms(2,3) by (auto simp: piece_length_def min_def)
    then show ?thesis
      by (simp add: piece_def fragment_def reliable_entry_def unat_of_nat take_bit_nat_eq_self del: of_nat_mult)
  qed
  then have "concat (map (piece d \<circ> fragment c packet len start n F s) [0..<?m]) =
      concat (map (\<lambda>k. take (piece_length len F k) (drop (k * F) d)) [0..<?m])"
    by (intro arg_cong [where f = concat] map_cong) simp_all
  moreover have "min (?m * F) (unat len) = unat len"
    using less_fragment_count [OF assms(1), of ?m len] by simp
  ultimately show ?thesis using pieces_prefix [OF assms(1), of ?m len d] by simp
qed

text \<open>C5. Sending a packet that is too long for one datagram always returns, with success, when the packet
  is shorter than \<open>2 ^ 32\<close> bytes: it is cut into \<open>(n + F - 1) div F\<close> fragments, for \<open>F\<close> the MTU less 36
  bytes, which are queued in order behind the other reliable commands with consecutive sequence numbers;
  their pieces one after the other are the data of the packet; the packet gets one reference for each
  fragment and becomes reliable and sequenced.\<close>

theorem peer_send_cuts_fragments:
  assumes "peer_state p = ENET_PEER_STATE_CONNECTED" and "channels_wf p" and "ucast c < channelCount p"
    and "pheap ps packet = Some pk" and "unat (pkt_dataLength pk) < 2 ^ 32" and "36 < unat (peer_mtu p)"
    and "unat (peer_mtu p) - 36 < unat (pkt_dataLength pk)"
  shows "\<exists>ch p' ps' fs. get_channel p c = Some ch \<and> enet_peer_send c packet p ps = Some (0, p', ps') \<and>
    outgoingReliableCommands p' = outgoingReliableCommands p @ fs \<and> same_but_queue p p' \<and>
    length fs = (unat (pkt_dataLength pk) + (unat (peer_mtu p) - 36) - 1) div (unat (peer_mtu p) - 36) \<and>
    map oc_reliableSequenceNumber fs =
      map (\<lambda>k. ch_outgoingReliableSequenceNumber ch + of_nat (Suc k)) [0..<length fs] \<and>
    (\<forall>oc \<in> set fs. oc_packet oc = Some packet) \<and>
    concat (map (piece (pkt_data pk)) fs) = take (unat (pkt_dataLength pk)) (pkt_data pk) \<and>
    pheap ps' packet = Some (pk\<lparr>referenceCount := referenceCount pk + of_nat (length fs),
      pkt_flags := (pkt_flags pk OR ENET_PACKET_FLAG_RELIABLE) AND NOT ENET_PACKET_FLAG_UNSEQUENCED\<rparr>)"
proof -
  let ?len = "pkt_dataLength pk" and ?F = "unat (peer_mtu p) - 36"
  let ?m = "fragment_count ?len ?F"
  let ?pk = "pk\<lparr>pkt_flags := (pkt_flags pk OR ENET_PACKET_FLAG_RELIABLE) AND NOT ENET_PACKET_FLAG_UNSEQUENCED\<rparr>"
  let ?ps = "ps\<lparr>pheap := (pheap ps)(packet \<mapsto> ?pk)\<rparr>"
  define fl where "fl = (ucast (peer_mtu p) :: usize) - sizeof_ENetProtocolHeader - 24"
  have mtu: "unat (peer_mtu p) < 2 ^ 16" using unsigned_less [of "peer_mtu p", where ?'a = nat] by simp
  have "fl = ucast (peer_mtu p) - 36" by (simp add: fl_def)
  also have "unat \<dots> = ?F" using assms(6) by (subst unat_sub) (simp_all add: word_le_nat_alt unat_ucast_up)
  finally have F: "unat fl = ?F" .
  have c: "unat c < unat (channelCount p)" using assms(3) by (simp add: word_less_nat_alt unat_ucast_up)
  then have "unat c < 255" "unat c < length (channels p)" using assms(2) by (simp_all add: channels_wf_def)
  then have cne: "c \<noteq> 0xFF" and "\<exists>ch. get_channel p c = Some ch" by (auto simp: get_channel_def)
  then obtain ch where ch: "get_channel p c = Some ch" by blast
  let ?s = "ch_outgoingReliableSequenceNumber ch"
  let ?start = "ENET_HOST_TO_NET_16 (?s + 1)" and ?n = "ENET_HOST_TO_NET_32 (ucast ((?len + fl - 1) div fl))"
  let ?fs = "map (fragment c packet ?len ?start ?n ?F ?s) [0..<?m]"
  have F0: "0 < ?F" using assms(6) by simp
  have seq: "?s = ?s + of_nat 0" and pk: "pheap ?ps packet = Some ?pk" and off: "unat (0 :: u32) = min (0 * ?F) (unat ?len)"
    by simp_all
  obtain p' ps' where r: "send_fragments packet c ?len ?start ?n fl (of_nat 0) 0 p ?ps = Some ((), p', ps')"
      "outgoingReliableCommands p' = outgoingReliableCommands p @ ?fs" "same_but_queue p p'"
      "pheap ps' = (pheap ?ps)(packet \<mapsto> ?pk\<lparr>referenceCount := referenceCount ?pk + of_nat (?m - 0)\<rparr>)"
    using send_fragments_total [OF assms(5) F0 cne ch seq pk le0 off F] by blast
  have big: "?len > fl" using assms(7) F by (simp add: word_less_nat_alt)
  have "fl \<noteq> 0" using F F0 by auto
  then have "enet_peer_send c packet p ps = Some (0, p', ps')"
    using assms(1,3,4) ch big r(1) by (simp add: enet_peer_send_def fl_def [symmetric] Let_def
        set_packet_flags_def packet_update_def not_le)
  moreover have "map oc_reliableSequenceNumber ?fs = map (\<lambda>k. ?s + of_nat (Suc k)) [0..<length ?fs]"
    by (simp add: fragment_def reliable_entry_def)
  moreover have "concat (map (piece (pkt_data pk)) ?fs) = take (unat ?len) (pkt_data pk)"
    using pieces_concat [OF F0 _ assms(5)] mtu by simp
  moreover have "length ?fs = (unat ?len + ?F - 1) div ?F" by (simp add: fragment_count_def)
  moreover have "\<forall>oc \<in> set ?fs. oc_packet oc = Some packet" by (simp add: fragment_def reliable_entry_def)
  moreover have "pheap ps' packet = Some (?pk\<lparr>referenceCount := referenceCount pk + of_nat (length ?fs)\<rparr>)"
    using r(4) by simp
  ultimately show ?thesis using ch r(2,3) by (intro exI [of _ ch] exI [of _ p'] exI [of _ ps'] exI [of _ ?fs]) simp
qed

text \<open>Five bytes over an MTU of 38 make three fragments.\<close>

definition narrow_peer :: ENetPeer where
  "narrow_peer = (created_peer 0)\<lparr>peer_state := ENET_PEER_STATE_CONNECTED, channels := [fresh_channel],
     channelCount := 1, peer_mtu := 38\<rparr>"

theorem peer_send_cuts_fragments_witness:
  "\<exists>p' ps' fs. enet_peer_send 0 0 narrow_peer (empty_store\<lparr>pheap := [0 \<mapsto> (example_packet 0)\<lparr>
       pkt_data := [1, 2, 3, 4, 5], pkt_dataLength := 5\<rparr>]\<rparr>) = Some (0, p', ps') \<and>
     length fs = 3 \<and> outgoingReliableCommands p' = fs \<and> concat (map (piece [1, 2, 3, 4, 5]) fs) = [1, 2, 3, 4, 5]"
proof -
  let ?pk = "(example_packet 0)\<lparr>pkt_data := [1, 2, 3, 4, 5], pkt_dataLength := 5\<rparr>"
  let ?ps = "empty_store\<lparr>pheap := [0 \<mapsto> ?pk]\<rparr>"
  have "peer_state narrow_peer = ENET_PEER_STATE_CONNECTED" "channels_wf narrow_peer"
      "ucast (0 :: u8) < channelCount narrow_peer" "pheap ?ps 0 = Some ?pk" "unat (pkt_dataLength ?pk) < 2 ^ 32"
      "36 < unat (peer_mtu narrow_peer)" "unat (peer_mtu narrow_peer) - 36 < unat (pkt_dataLength ?pk)"
    by (simp_all add: narrow_peer_def channels_wf_def)
  from peer_send_cuts_fragments [OF this] show ?thesis
    by (simp add: narrow_peer_def created_peer_def emptied_def reset_fields_def) blast
qed

end
