(* ===== verification/Ordering.thy ===== *)
theory Ordering
  imports Runs
begin

text \<open>
  The order of incoming reliable commands on a channel: how the queue is kept sorted, that the
  application gets the commands in the order of their sequence numbers, and where the 16-bit sequence
  numbers wrap around the order the queue is kept in breaks.
\<close>

subsection \<open>The queue of a channel\<close>

definition rsns :: "ENetChannel \<Rightarrow> nat list" where
  "rsns ch = map (\<lambda>ic. unat (ic_reliableSequenceNumber ic)) (incomingReliableCommands ch)"

definition ordered :: "ENetChannel \<Rightarrow> bool" where
  "ordered ch \<longleftrightarrow> sorted_wrt (<) (rsns ch) \<and> (\<forall>n \<in> set (rsns ch). unat (ch_incomingReliableSequenceNumber ch) < n)"

text \<open>The backward walk when the number looked for has not wrapped.\<close>

lemma place_reliable_Some:
  "place_reliable n r = Some k \<Longrightarrow> unat n < 0x10000 \<Longrightarrow> k \<le> length r \<and>
     (\<forall>ic \<in> set (take (length r - k) r). unat n < unat (ic_reliableSequenceNumber ic)) \<and>
     (0 < k \<longrightarrow> unat (ic_reliableSequenceNumber (r ! (length r - k))) < unat n)"
proof (induction r)
  case (Cons ic r)
  have "\<not> n \<ge> 0x10000" using Cons.prems(2) by (simp add: word_le_nat_alt)
  then show ?case using Cons
    by (auto simp: Suc_diff_le word_le_nat_alt word_less_nat_alt unat_ucast_up split: if_splits)
qed simp

lemma place_reliable_None:
  "place_reliable n r = None \<Longrightarrow> unat n < 0x10000 \<Longrightarrow> \<exists>ic \<in> set r. unat (ic_reliableSequenceNumber ic) = unat n"
proof (induction r)
  case (Cons ic r)
  have "\<not> n \<ge> 0x10000" using Cons.prems(2) by (simp add: word_le_nat_alt)
  then show ?case using Cons
    by (auto simp: word_le_nat_alt word_less_nat_alt unat_ucast_up split: if_splits)
qed simp

lemma insort_at:
  assumes "\<forall>x \<in> set a. x < (n :: nat)" and "\<forall>x \<in> set b. n < x"
  shows "insort n (a @ b) = a @ n # b"
  using assms
proof (induction a)
  case Nil
  then show ?case by (cases b) auto
qed auto

lemma place_reliable_sorted:
  fixes q :: "ENetIncomingCommand list"
  defines "ns \<equiv> map (\<lambda>ic. unat (ic_reliableSequenceNumber ic)) q"
  assumes "sorted_wrt (<) ns" and "unat n < 0x10000" and "place_reliable n (rev q) = Some k"
  shows "take k ns @ unat n # drop k ns = insort (unat n) ns \<and> unat n \<notin> set ns"
proof -
  have k: "k \<le> length q" and above: "\<forall>ic \<in> set (take (length q - k) (rev q)). unat n < unat (ic_reliableSequenceNumber ic)"
    and below: "0 < k \<Longrightarrow> unat (ic_reliableSequenceNumber (rev q ! (length q - k))) < unat n"
    using place_reliable_Some [OF assms(4,3)] by simp_all
  have b: "\<forall>x \<in> set (drop k ns). unat n < x"
    using above k by (auto simp: ns_def take_rev drop_map)
  have a: "\<forall>x \<in> set (take k ns). x < unat n"
  proof
    fix x assume "x \<in> set (take k ns)"
    then obtain j where j: "j < k" "x = ns ! j" using k by (auto simp: in_set_conv_nth ns_def)
    have "ns ! (k - 1) < unat n" using below j(1) k by (simp add: rev_nth ns_def)
    moreover have "ns ! j \<le> ns ! (k - 1)"
      using assms(2) j(1) k by (cases "j = k - 1") (auto simp: sorted_wrt_iff_nth_less ns_def intro: less_imp_le)
    ultimately show "x < unat n" using j(2) by simp
  qed
  from insort_at [OF a b] have "insort (unat n) ns = take k ns @ unat n # drop k ns" by simp
  moreover have "unat n \<notin> set (take k ns @ drop k ns)" using a b by (auto simp del: append_take_drop_id)
  ultimately show ?thesis by simp
qed

lemma ordered_insort:
  assumes "ordered ch" and "n \<notin> set (rsns ch)" and "unat (ch_incomingReliableSequenceNumber ch) < n"
    and "rsns ch' = insort n (rsns ch)" and "ch_incomingReliableSequenceNumber ch' = ch_incomingReliableSequenceNumber ch"
  shows "ordered ch'"
  using assms by (simp add: ordered_def strict_sorted_iff set_insort_key distinct_insort sorted_insort)

text \<open>What the channel says of a number before the wrap: too old, or to be taken.\<close>

definition is_new :: "u16 \<Rightarrow> u16 \<Rightarrow> bool" where
  "is_new current n \<longleftrightarrow> current < n \<and> \<not> (current < 0x1000 \<and> n \<ge> 0xF000)"

definition is_reliable :: "ENetProtocol \<Rightarrow> bool" where
  "is_reliable c \<longleftrightarrow> command_of c AND ENET_PROTOCOL_COMMAND_MASK = ENET_PROTOCOL_COMMAND_SEND_FRAGMENT \<or>
     command_of c AND ENET_PROTOCOL_COMMAND_MASK = ENET_PROTOCOL_COMMAND_SEND_RELIABLE"

lemma ucast_mask: "(ucast (n :: u16) :: u32) AND 0xFFFF = ucast n"
proof -
  have m: "(0xFFFF :: u32) = mask 16" by (simp add: mask_eq_exp_minus_1)
  show ?thesis unfolding m by (rule bit_word_eqI) (auto simp: bit_simps dest: bit_imp_le_length)
qed

lemma incoming_place_reliable:
  assumes "is_reliable c" and "ch_incomingReliableSequenceNumber ch < 0xF000"
  shows "incoming_place ch c =
    (if is_new (ch_incomingReliableSequenceNumber ch) (sequence_of c)
     then map_option (\<lambda>k. (True, k, 0)) (place_reliable (ucast (sequence_of c)) (rev (incomingReliableCommands ch)))
     else None)"
proof -
  let ?cur = "ch_incomingReliableSequenceNumber ch" and ?n = "sequence_of c"
  have w: "widen_sequence ?cur ?n = ucast ?n" using assms(2) by (auto simp: widen_sequence_def)
  have "?n \<noteq> ?cur \<and> \<not> sequence_is_old ?cur (ucast ?n) \<longleftrightarrow> is_new ?cur ?n"
    by (auto simp: sequence_is_old_def is_new_def ucast_mask word_less_nat_alt word_le_nat_alt unat_ucast_up
        word_unat_eq_iff)
  moreover have "(ucast ?n :: u32) = ucast ?cur \<longleftrightarrow> ?n = ?cur"
    by (simp add: word_unat_eq_iff unat_ucast_up)
  ultimately show ?thesis using assms(1)
    by (auto simp: incoming_place_def w is_reliable_def Let_def)
qed

subsection \<open>Queueing keeps the order\<close>

lemma rsns_insert_at: "rsns (ch\<lparr>incomingReliableCommands := insert_at k ic (incomingReliableCommands ch)\<rparr>) =
    take k (rsns ch) @ unat (ic_reliableSequenceNumber ic) # drop k (rsns ch)"
  by (simp add: rsns_def insert_at_def take_map drop_map)

text \<open>C29. As long as the channel has not come near the end of the 16-bit numbers, an incoming reliable
  command or fragment is taken exactly if its number lies ahead of the channel and is not in the queue
  yet, and then it goes to its place: the queue stays sorted without duplicates. Otherwise the queue is
  left as it is.\<close>

theorem reliable_queue_stays_sorted:
  assumes "enet_peer_queue_incoming_command command packet n p ps = Some (r, p', ps')"
    and "get_channel p (channelID_of command) = Some ch" and "ordered ch"
    and "ch_incomingReliableSequenceNumber ch < 0xF000" and "is_reliable command"
    and "peer_state p \<noteq> ENET_PEER_STATE_DISCONNECT_LATER"
  shows "\<exists>ch'. get_channel p' (channelID_of command) = Some ch' \<and> ordered ch' \<and>
    (if is_new (ch_incomingReliableSequenceNumber ch) (sequence_of command) \<and>
        unat (sequence_of command) \<notin> set (rsns ch)
     then r \<noteq> None \<and> rsns ch' = insort (unat (sequence_of command)) (rsns ch)
     else r = None \<and> ch' = ch)"
proof -
  let ?n = "sequence_of command" and ?cur = "ch_incomingReliableSequenceNumber ch" and ?c = "channelID_of command"
  let ?place = "place_reliable (ucast ?n) (rev (incomingReliableCommands ch))"
  note place = incoming_place_reliable [OF assms(5,4)]
  have n: "unat (ucast ?n :: u32) = unat ?n" "unat (ucast ?n :: u32) < 0x10000"
    using unsigned_less [of ?n, where ?'a = nat] by (simp_all add: unat_ucast_up)
  have sorted: "sorted_wrt (<) (map (\<lambda>ic. unat (ic_reliableSequenceNumber ic)) (incomingReliableCommands ch))"
    using assms(3) by (simp add: ordered_def rsns_def)
  have old: "?thesis" if "incoming_place ch command = None"
      "\<not> (is_new ?cur ?n \<and> unat ?n \<notin> set (rsns ch))"
    using assms that by (auto simp: enet_peer_queue_incoming_command_def)
  show ?thesis
  proof (cases "is_new ?cur ?n")
    case False
    then show ?thesis using old place by simp
  next
    case new: True
    show ?thesis
    proof (cases ?place)
      case None
      then have "unat ?n \<in> set (rsns ch)" using place_reliable_None [OF None] n by (force simp: rsns_def)
      then show ?thesis using old place new None by simp
    next
      case (Some k)
      have s: "take k (rsns ch) @ unat ?n # drop k (rsns ch) = insort (unat ?n) (rsns ch)" "unat ?n \<notin> set (rsns ch)"
        using place_reliable_sorted [OF sorted n(2) Some] n(1) by (simp_all add: rsns_def)
      define ic where "ic = \<lparr>ic_reliableSequenceNumber = ?n, ic_unreliableSequenceNumber = ucast (0 AND 0xFFFF :: u32),
        ic_command = command, ic_fragmentCount = n, ic_fragmentsRemaining = n,
        ic_fragments = (if n > 0 then Some (replicate (unat ((n + 31) div 32)) 0) else None), ic_packet = packet\<rparr>"
      have ic: "ic_reliableSequenceNumber ic = ?n" "r = Some k"
          "p' = put_channel ?c (ch\<lparr>incomingReliableCommands := insert_at k ic (incomingReliableCommands ch)\<rparr>) p"
        using assms(1,2,6) place new Some
        by (auto simp: enet_peer_queue_incoming_command_def Let_def ic_def split: bind_splits)
      let ?ch' = "ch\<lparr>incomingReliableCommands := insert_at k ic (incomingReliableCommands ch)\<rparr>"
      have r: "rsns ?ch' = insort (unat ?n) (rsns ch)" using s(1) ic(1) by (simp add: rsns_insert_at)
      have "ordered ?ch'"
        by (rule ordered_insort [OF assms(3) s(2) _ r]) (use new in \<open>simp_all add: is_new_def word_less_nat_alt\<close>)
      moreover have "get_channel p' ?c = Some ?ch'"
        using assms(2) ic(3) by (auto simp: get_channel_def put_channel_def split: if_splits)
      ultimately show ?thesis using new s(2) r ic(2) by auto
    qed
  qed
qed

definition waiting_command :: "u16 \<Rightarrow> ENetProtocol" where
  "waiting_command n = \<lparr>prt_header = \<lparr>hdr_command = 134, hdr_channelID = 0, hdr_reliableSequenceNumber = n\<rparr>,
     prt_body = SendReliable \<lparr>srl_dataLength = 0\<rparr>\<rparr>"

definition waiting :: "u16 \<Rightarrow> ENetIncomingCommand" where
  "waiting n = \<lparr>ic_reliableSequenceNumber = n, ic_unreliableSequenceNumber = 0, ic_command = waiting_command n,
     ic_fragmentCount = 0, ic_fragmentsRemaining = 0, ic_fragments = None, ic_packet = Some 0\<rparr>"

definition channel_with :: "u16 \<Rightarrow> u16 list \<Rightarrow> ENetChannel" where
  "channel_with current ns = fresh_channel\<lparr>ch_incomingReliableSequenceNumber := current,
     incomingReliableCommands := map waiting ns\<rparr>"

definition peer_with :: "ENetChannel \<Rightarrow> ENetPeer" where
  "peer_with ch = (created_peer 0)\<lparr>peer_state := ENET_PEER_STATE_CONNECTED, channels := [ch], channelCount := 1\<rparr>"

lemma peer_with_fields: "get_channel (peer_with ch) 0 = Some ch"
    "peer_state (peer_with ch) \<noteq> ENET_PEER_STATE_DISCONNECT_LATER"
  by (simp_all add: peer_with_def get_channel_def)

lemma waiting_command_fields: "channelID_of (waiting_command n) = 0" "sequence_of (waiting_command n) = n"
    "is_reliable (waiting_command n)"
  by (simp_all add: waiting_command_def is_reliable_def)

definition one_packet :: packet_store where
  "one_packet = empty_store\<lparr>pheap := [0 \<mapsto> example_packet 9], pnext := 1\<rparr>"

theorem reliable_queue_stays_sorted_witness:
  "\<exists>r p ps ch. enet_peer_queue_incoming_command (waiting_command 7) None 0 (peer_with (channel_with 3 [5, 9])) one_packet
     = Some (r, p, ps) \<and> get_channel p 0 = Some ch \<and> rsns ch = [5, 7, 9]"
proof -
  let ?ch = "channel_with 3 [5, 9]"
  have "incoming_place ?ch (waiting_command 7) = Some (True, 1, 0)" by code_simp
  then obtain r p ps where q: "enet_peer_queue_incoming_command (waiting_command 7) None 0 (peer_with ?ch) one_packet
      = Some (r, p, ps)"
    by (auto simp: enet_peer_queue_incoming_command_def peer_with_fields waiting_command_fields)
  have "get_channel (peer_with ?ch) (channelID_of (waiting_command 7)) = Some ?ch" "ordered ?ch"
      "ch_incomingReliableSequenceNumber ?ch < 0xF000"
    by (simp_all add: peer_with_fields waiting_command_fields channel_with_def ordered_def rsns_def waiting_def)
  from reliable_queue_stays_sorted [OF q this waiting_command_fields(3) peer_with_fields(2)] q show ?thesis
    by (auto simp: waiting_command_fields is_new_def channel_with_def rsns_def waiting_def)
qed

subsection \<open>Delivery\<close>

text \<open>C28. With the queue sorted, the next command does not stay behind: if the command with the number
  after the channel's is in the queue and complete, no unreliable one goes first and the numbers have not
  reached their wrap, then \<open>enet_peer_receive\<close> hands out its packet and advances the channel.\<close>

theorem next_command_is_received:
  assumes "get_channel p c = Some ch" and "ordered ch" and "receive_unreliable ch = None"
    and "ch_incomingReliableSequenceNumber ch < 0xFFFF"
    and "ic \<in> set (incomingReliableCommands ch)"
    and "ic_reliableSequenceNumber ic = ch_incomingReliableSequenceNumber ch + 1"
    and "ic_fragmentsRemaining ic = 0" and "ic_packet ic = Some q" and "pheap ps q \<noteq> None"
  shows "\<exists>p' ps'. enet_peer_receive c p ps = Some (Some q, p', ps') \<and>
    get_channel p' c = Some (ch\<lparr>ch_incomingReliableSequenceNumber := ic_reliableSequenceNumber ic +
        (if ic_fragmentCount ic > 0 then ucast (ic_fragmentCount ic - 1) else 0),
      incomingReliableCommands := tl (incomingReliableCommands ch)\<rparr>)"
proof -
  let ?cur = "ch_incomingReliableSequenceNumber ch"
  have next_number: "unat (ic_reliableSequenceNumber ic) = Suc (unat ?cur)"
    using assms(4,6) by (simp add: word_less_nat_alt unat_word_ariths(1))
  obtain fst_ic rest where q: "incomingReliableCommands ch = fst_ic # rest"
    using assms(5) by (cases "incomingReliableCommands ch") auto
  have "ic = fst_ic"
  proof (rule ccontr)
    assume "ic \<noteq> fst_ic"
    then have "ic \<in> set rest" using assms(5) q by simp
    then have "unat (ic_reliableSequenceNumber fst_ic) < unat (ic_reliableSequenceNumber ic)"
        "unat ?cur < unat (ic_reliableSequenceNumber fst_ic)"
      using assms(2) q by (auto simp: ordered_def rsns_def)
    then show False using next_number by simp
  qed
  then have "receive_reliable ch = Some (ic, ch\<lparr>ch_incomingReliableSequenceNumber := ic_reliableSequenceNumber ic +
        (if ic_fragmentCount ic > 0 then ucast (ic_fragmentCount ic - 1) else 0), incomingReliableCommands := rest\<rparr>)"
    using assms(6,7) q by (simp add: receive_reliable_def Let_def)
  then show ?thesis using assms(1,3,8,9) q
    by (auto simp: enet_peer_receive_def take_packet_def packet_drop_def packet_update_def get_channel_def
        put_channel_def split: if_splits)
qed

theorem next_command_is_received_witness:
  "\<exists>p ps. enet_peer_receive 0 (peer_with (channel_with 4 [5, 9])) one_packet = Some (Some 0, p, ps)"
proof -
  let ?ch = "channel_with 4 [5, 9]"
  have "ordered ?ch" "receive_unreliable ?ch = None" "ch_incomingReliableSequenceNumber ?ch < 0xFFFF"
      "waiting 5 \<in> set (incomingReliableCommands ?ch)"
      "ic_reliableSequenceNumber (waiting 5) = ch_incomingReliableSequenceNumber ?ch + 1"
      "ic_fragmentsRemaining (waiting 5) = 0" "ic_packet (waiting 5) = Some 0" "pheap one_packet 0 \<noteq> None"
    by (simp_all add: channel_with_def ordered_def rsns_def waiting_def receive_unreliable_def fresh_channel_def
        one_packet_def)
  from next_command_is_received [OF peer_with_fields(1) this] show ?thesis by blast
qed

text \<open>
  Runs over one channel: commands of any kind come in, fragments are stored, the application receives;
  \<open>ds\<close> lists the reliable commands handed out.
\<close>

definition delivered :: "u8 \<Rightarrow> ENetPeer \<Rightarrow> ENetIncomingCommand list" where
  "delivered c p = (case get_channel p c of
     None \<Rightarrow> []
   | Some ch \<Rightarrow> (case receive_unreliable ch of
       Some _ \<Rightarrow> []
     | None \<Rightarrow> (case receive_reliable ch of None \<Rightarrow> [] | Some (ic, _) \<Rightarrow> [ic])))"

inductive channel_run :: "u8 \<Rightarrow> ENetPeer \<Rightarrow> ENetIncomingCommand list \<Rightarrow> ENetPeer \<Rightarrow> bool" for c p0 where
  start: "channel_run c p0 [] p0"
| arrive: "channel_run c p0 ds p \<Longrightarrow>
    enet_peer_queue_incoming_command command packet n p ps = Some (r, p', ps') \<Longrightarrow> channel_run c p0 ds p'"
| store: "channel_run c p0 ds p \<Longrightarrow>
    store_fragment channel k number off len dat p ps = Some (r, p', ps') \<Longrightarrow> channel_run c p0 ds p'"
| receive: "channel_run c p0 ds p \<Longrightarrow> enet_peer_receive c p ps = Some (r, p', ps') \<Longrightarrow>
    channel_run c p0 (ds @ delivered c p) p'"

text \<open>How many sequence numbers a command takes.\<close>

definition span :: "ENetIncomingCommand \<Rightarrow> u16" where
  "span ic = (if ic_fragmentCount ic > 0 then ucast (ic_fragmentCount ic) else 1)"

fun in_sequence :: "u16 \<Rightarrow> ENetIncomingCommand list \<Rightarrow> bool" where
  "in_sequence n [] = True"
| "in_sequence n (ic # ics) =
     (ic_reliableSequenceNumber ic = n + 1 \<and> ic_fragmentsRemaining ic = 0 \<and> in_sequence (n + span ic) ics)"

lemma in_sequence_snoc: "in_sequence n (ds @ [ic]) \<longleftrightarrow> in_sequence n ds \<and>
    ic_reliableSequenceNumber ic = n + sum_list (map span ds) + 1 \<and> ic_fragmentsRemaining ic = 0"
  by (induction ds arbitrary: n) (auto simp: add.assoc)

lemma receive_reliable_next:
  assumes "receive_reliable ch = Some (ic, ch')"
  shows "ic_reliableSequenceNumber ic = ch_incomingReliableSequenceNumber ch + 1 \<and> ic_fragmentsRemaining ic = 0 \<and>
    ch_incomingReliableSequenceNumber ch' = ch_incomingReliableSequenceNumber ch + span ic"
proof -
  have "(ucast (n - 1 :: u32) :: u16) = ucast n - 1" for n
    by transfer (simp add: take_bit_eq_mod mod_mod_cancel mod_diff_left_eq [of "_ mod 4294967296" 65536, symmetric]
        del: mod_diff_left_eq, simp add: mod_diff_left_eq)
  then show ?thesis using assms
    by (auto simp: receive_reliable_def span_def word_gt_0 Let_def split: list.splits if_splits)
qed

definition channel_number :: "u8 \<Rightarrow> ENetPeer \<Rightarrow> u16 option" where
  "channel_number c p = map_option ch_incomingReliableSequenceNumber (get_channel p c)"

lemma channel_number_put:
  "get_channel p d = Some ch \<Longrightarrow> ch_incomingReliableSequenceNumber ch' = ch_incomingReliableSequenceNumber ch \<Longrightarrow>
     channel_number c (put_channel d ch' p) = channel_number c p"
  by (auto simp: channel_number_def get_channel_def put_channel_def nth_list_update split: if_splits)

lemma queue_incoming_number:
  assumes "enet_peer_queue_incoming_command command packet n p ps = Some (r, p', ps')"
  shows "channel_number c p' = channel_number c p"
proof -
  show ?thesis
  proof (cases "peer_state p = ENET_PEER_STATE_DISCONNECT_LATER")
    case True
    then show ?thesis using assms by (auto simp: enet_peer_queue_incoming_command_def)
  next
    case later: False
    note def = assms [unfolded enet_peer_queue_incoming_command_def, simplified later, simplified]
    from def obtain ch where ch: "get_channel p (channelID_of command) = Some ch" by (auto split: bind_splits)
    show ?thesis
    proof (cases "incoming_place ch command")
      case None
      then show ?thesis using def ch by auto
    next
      case (Some x)
      then obtain b k usn where "incoming_place ch command = Some (b, k, usn)" by (cases x) auto
      then show ?thesis using def ch
        by (cases b) (auto simp: Let_def channel_number_put split: bind_splits)
    qed
  qed
qed

lemma store_fragment_number:
  assumes "store_fragment channel k number off len dat p ps = Some (r, p', ps')"
  shows "channel_number c p' = channel_number c p"
  using assms
  by (auto simp: store_fragment_def Let_def channel_number_put split: bind_splits if_splits)

lemma receive_number:
  assumes "enet_peer_receive c p ps = Some (r, p', ps')" and "channel_number c p = Some n"
  shows "channel_number c p' = Some (n + sum_list (map span (delivered c p))) \<and>
    (\<forall>ic \<in> set (delivered c p). ic_reliableSequenceNumber ic = n + 1 \<and> ic_fragmentsRemaining ic = 0) \<and>
    length (delivered c p) \<le> 1"
proof -
  obtain ch where ch: "get_channel p c = Some ch" "ch_incomingReliableSequenceNumber ch = n"
    using assms(2) by (auto simp: channel_number_def)
  show ?thesis
  proof (cases "receive_unreliable ch")
    case (Some x)
    obtain ic ch1 where x: "x = (ic, ch1)" by (cases x)
    then have "ch_incomingReliableSequenceNumber ch1 = n"
      using Some ch(2) by (auto simp: receive_unreliable_def split: list.splits if_splits)
    then show ?thesis using assms(1) ch Some x
      by (auto simp: enet_peer_receive_def delivered_def channel_number_def get_channel_def put_channel_def
          split: bind_splits if_splits)
  next
    case None
    show ?thesis
    proof (cases "receive_reliable ch")
      case None
      then show ?thesis using assms \<open>receive_unreliable ch = None\<close> ch
        by (auto simp: enet_peer_receive_def delivered_def split: bind_splits)
    next
      case (Some x)
      obtain ic ch1 where x: "x = (ic, ch1)" by (cases x)
      note nx = receive_reliable_next [OF Some [unfolded x]]
      have "p' = put_channel c ch1 p"
        using assms(1) \<open>receive_unreliable ch = None\<close> ch(1) Some x
        by (auto simp: enet_peer_receive_def split: bind_splits)
      then have "channel_number c p' = Some (n + span ic)"
        using ch nx by (auto simp: channel_number_def get_channel_def put_channel_def split: if_splits)
      moreover have "delivered c p = [ic]"
        using \<open>receive_unreliable ch = None\<close> ch(1) Some x by (simp add: delivered_def)
      ultimately show ?thesis using nx ch(2) by simp
    qed
  qed
qed

text \<open>C2. Whatever arrives on a channel, in whatever order, twice or not at all, and also across the wrap
  of the sequence numbers, the reliable commands that \<open>enet_peer_receive\<close> hands out are complete, start
  with the number after the channel's first one and follow each other without a gap, fragments counting
  one number each; the number of the channel is that of the last one.\<close>

theorem reliable_delivery_in_sequence:
  assumes "channel_run c p0 ds p" and "get_channel p0 c = Some ch0"
  shows "in_sequence (ch_incomingReliableSequenceNumber ch0) ds \<and>
    (\<exists>ch. get_channel p c = Some ch \<and> ch_incomingReliableSequenceNumber ch =
       ch_incomingReliableSequenceNumber ch0 + sum_list (map span ds))"
proof -
  let ?n = "ch_incomingReliableSequenceNumber ch0"
  have "in_sequence ?n ds \<and> channel_number c p = Some (?n + sum_list (map span ds))"
    using assms(1)
  proof (induction rule: channel_run.induct)
    case start
    then show ?case using assms(2) by (simp add: channel_number_def)
  next
    case (arrive ds p command packet n ps r p' ps')
    then show ?case using queue_incoming_number [OF arrive.hyps(2)] by simp
  next
    case (store ds p channel k number off len dat ps r p' ps')
    then show ?case using store_fragment_number [OF store.hyps(2)] by simp
  next
    case (receive ds p ps r p' ps')
    note rn = receive_number [OF receive.hyps(2)]
    from receive.IH have n: "channel_number c p = Some (?n + sum_list (map span ds))" by simp
    show ?case using receive.IH rn [OF n]
      by (cases "delivered c p") (auto simp: in_sequence_snoc add.assoc)
  qed
  then show ?thesis by (auto simp: channel_number_def)
qed

text \<open>Command 6 arrives before 5; they come out as 5 and 6.\<close>

theorem reliable_delivery_in_sequence_witness:
  "\<exists>ds p. channel_run 0 (peer_with (channel_with 4 [])) ds p \<and> map ic_reliableSequenceNumber ds = [5, 6] \<and>
     in_sequence 4 ds"
proof -
  let ?p0 = "peer_with (channel_with 4 [])"
  define run where "run = do {
     (_, p1, ps1) \<leftarrow> enet_peer_queue_incoming_command (waiting_command 6) (Some 0) 0 ?p0 one_packet;
     (_, p2, ps2) \<leftarrow> enet_peer_queue_incoming_command (waiting_command 5) (Some 0) 0 p1 ps1;
     (_, p3, ps3) \<leftarrow> enet_peer_receive 0 p2 ps2;
     (_, p4, ps4) \<leftarrow> enet_peer_receive 0 p3 ps3;
     Some (delivered 0 p2 @ delivered 0 p3, p4) }"
  have run: "map_option (\<lambda>(ds, p). map ic_reliableSequenceNumber ds) run = Some [5, 6]"
    unfolding run_def by code_simp
  then obtain r1 p1 ps1 r2 p2 ps2 r3 p3 ps3 r4 p4 ps4 where
      a: "enet_peer_queue_incoming_command (waiting_command 6) (Some 0) 0 ?p0 one_packet = Some (r1, p1, ps1)"
    and b: "enet_peer_queue_incoming_command (waiting_command 5) (Some 0) 0 p1 ps1 = Some (r2, p2, ps2)"
    and c: "enet_peer_receive 0 p2 ps2 = Some (r3, p3, ps3)" and d: "enet_peer_receive 0 p3 ps3 = Some (r4, p4, ps4)"
    unfolding run_def by (auto split: bind_splits)
  have e: "map ic_reliableSequenceNumber (delivered 0 p2 @ delivered 0 p3) = [5, 6]"
    using run by (simp add: run_def a b c d)
  have "channel_run 0 ?p0 (delivered 0 p2 @ delivered 0 p3) p4"
    using channel_run.receive [OF channel_run.receive [OF channel_run.arrive [OF channel_run.arrive [OF
        channel_run.start a] b] c] d] by simp
  from this reliable_delivery_in_sequence [OF this peer_with_fields(1)] e show ?thesis
    by (intro exI [of _ "delivered 0 p2 @ delivered 0 p3"] exI [of _ p4]) (simp add: channel_with_def)
qed

subsection \<open>Where the numbers wrap\<close>

text \<open>C37. Near the end of the 16-bit sequence numbers a late command blocks a channel: when a command
  behind the wrap is already waiting, the one that the channel needs next is queued behind it instead of in
  front of it, and from then on \<open>enet_peer_receive\<close> finds nothing, although the next command is in the
  queue, complete, with its packet.\<close>

theorem late_command_blocks_channel:
  assumes "get_channel p (channelID_of command) = Some ch" and "incomingReliableCommands ch = [early]"
    and "0xF000 \<le> ch_incomingReliableSequenceNumber ch" and "ch_incomingReliableSequenceNumber ch < 0xFFFF"
    and "ic_reliableSequenceNumber early < 0x1000" and "incomingUnreliableCommands ch = []"
    and "sequence_of command = ch_incomingReliableSequenceNumber ch + 1" and "is_reliable command"
    and "peer_state p \<noteq> ENET_PEER_STATE_DISCONNECT_LATER" and "pheap ps q = Some k"
  shows "\<exists>p' ps' ic ch'. enet_peer_queue_incoming_command command (Some q) 0 p ps = Some (Some 1, p', ps') \<and>
    get_channel p' (channelID_of command) = Some ch' \<and> incomingReliableCommands ch' = [early, ic] \<and>
    ic_reliableSequenceNumber ic = ch_incomingReliableSequenceNumber ch' + 1 \<and> ic_fragmentsRemaining ic = 0 \<and>
    ic_packet ic = Some q \<and> enet_peer_receive (channelID_of command) p' ps' = Some (None, p', ps')"
proof -
  let ?cur = "ch_incomingReliableSequenceNumber ch" and ?n = "sequence_of command" and ?c = "channelID_of command"
  have n: "unat ?n = Suc (unat ?cur)" "0xF000 < ?n" "ic_reliableSequenceNumber early < ?n" "early_n \<noteq> ?n"
    if "early_n = ic_reliableSequenceNumber early" for early_n
    using assms(3-5,7) that by (auto simp: word_less_nat_alt word_le_nat_alt unat_word_ariths(1))
  have w: "widen_sequence ?cur ?n = ucast ?n"
    using n(2) by (auto simp: widen_sequence_def word_less_nat_alt unat_ucast_up)
  have "\<not> sequence_is_old ?cur (ucast ?n)" "(ucast ?n :: u32) \<noteq> ucast ?cur"
    using n(1) assms(3) by (auto simp: sequence_is_old_def word_less_nat_alt word_le_nat_alt unat_ucast_up
        word_unat_eq_iff)
  moreover have "place_reliable (ucast ?n) (rev (incomingReliableCommands ch)) = Some 1"
    using n(3) unsigned_less [of ?n, where ?'a = nat] assms(2)
    by (auto simp: Let_def word_less_nat_alt word_le_nat_alt unat_ucast_up)
  ultimately have place: "incoming_place ch command = Some (True, 1, 0)"
    using assms(8) by (auto simp: incoming_place_def w is_reliable_def Let_def)
  define ic where "ic = \<lparr>ic_reliableSequenceNumber = ?n, ic_unreliableSequenceNumber = ucast (0 AND 0xFFFF :: u32),
    ic_command = command, ic_fragmentCount = 0, ic_fragmentsRemaining = 0, ic_fragments = None, ic_packet = Some q\<rparr>"
  let ?ch' = "ch\<lparr>incomingReliableCommands := [early, ic]\<rparr>"
  let ?p' = "put_channel ?c ?ch' p" and ?ps' = "ps\<lparr>pheap := (pheap ps)(q \<mapsto> k\<lparr>referenceCount := referenceCount k + 1\<rparr>)\<rparr>"
  have queued: "enet_peer_queue_incoming_command command (Some q) 0 p ps = Some (Some 1, ?p', ?ps')"
    using assms(1,2,9,10) place
    by (simp add: enet_peer_queue_incoming_command_def Let_def ic_def packet_retain_def packet_update_def insert_at_def)
  have g: "get_channel ?p' ?c = Some ?ch'"
    using assms(1) by (auto simp: get_channel_def put_channel_def split: if_splits)
  have "receive_reliable ?ch' = None" "receive_unreliable ?ch' = None"
    using n(4) assms(6,7) by (auto simp: receive_reliable_def receive_unreliable_def)
  then have "enet_peer_receive ?c ?p' ?ps' = Some (None, ?p', ?ps')" using g by (simp add: enet_peer_receive_def)
  then show ?thesis using queued g assms(7)
    by (intro exI [of _ ?p'] exI [of _ ?ps'] exI [of _ ic] exI [of _ ?ch']) (simp add: ic_def)
qed

theorem late_command_blocks_channel_witness:
  "\<exists>p ps. enet_peer_queue_incoming_command (waiting_command 0xFFF1) (Some 0) 0
      (peer_with (channel_with 0xFFF0 [5])) one_packet = Some (Some 1, p, ps) \<and>
     enet_peer_receive 0 p ps = Some (None, p, ps)"
proof -
  let ?ch = "channel_with 0xFFF0 [5]"
  have f: "get_channel (peer_with ?ch) (channelID_of (waiting_command 0xFFF1)) = Some ?ch"
      "incomingReliableCommands ?ch = [waiting 5]" "0xF000 \<le> ch_incomingReliableSequenceNumber ?ch"
      "ch_incomingReliableSequenceNumber ?ch < 0xFFFF" "ic_reliableSequenceNumber (waiting 5) < 0x1000"
      "incomingUnreliableCommands ?ch = []"
      "sequence_of (waiting_command 0xFFF1) = ch_incomingReliableSequenceNumber ?ch + 1"
    by (simp_all add: channel_with_def waiting_command_fields peer_with_fields waiting_def fresh_channel_def)
  have k: "pheap one_packet 0 = Some (example_packet 9)" by (simp add: one_packet_def)
  from late_command_blocks_channel [OF f waiting_command_fields(3) peer_with_fields(2) k] show ?thesis
    by (auto simp: waiting_command_fields)
qed

end
