(* ===== verification/Window.thy ===== *)
theory Window
  imports Runs
begin

text \<open>
  The arithmetic of the protocol on machine words: the window of unsequenced groups, the time a command
  was sent as an acknowledgement gives it back, and the round trip time.
\<close>

subsection \<open>Unsequenced groups\<close>

text \<open>
  \<open>incomingUnsequencedGroup\<close> is always a multiple of the window size, so group \<open>g\<close> within the window
  has bit \<open>g mod 128\<close>.
\<close>

definition window_ok :: "ENetPeer \<Rightarrow> bool" where
  "window_ok p \<longleftrightarrow> length (unsequencedWindow p) = 4 \<and> 128 dvd unat (incomingUnsequencedGroup p)"

lemma push_bit_and: "(x AND push_bit n 1 = (0 :: 'a::len word)) \<longleftrightarrow> \<not> bit x n"
  by (simp add: push_bit_of_1 and_exp_eq_0_iff_not_bit)

text \<open>The function on numbers.\<close>

lemma accept_unsequenced_nat:
  fixes g :: u16
  defines "i \<equiv> unat g mod 128"
  shows "accept_unsequenced g p =
    (let cur = unat (incomingUnsequencedGroup p) in
     if unat g \<ge> cur + 128 \<or> cur \<ge> 0xF000 \<and> unat g < 0x1000
     then Some (p\<lparr>incomingUnsequencedGroup := of_nat (unat g - i),
       unsequencedWindow := (replicate 4 0)[i div 32 := push_bit (i mod 32) 1]\<rparr>)
     else if unat g < cur \<or> bit (unsequencedWindow p ! (i div 32)) (i mod 32) then None
     else Some (p\<lparr>unsequencedWindow := (unsequencedWindow p)[i div 32 :=
       unsequencedWindow p ! (i div 32) OR push_bit (i mod 32) 1]\<rparr>))"
proof -
  let ?cur = "incomingUnsequencedGroup p" and ?g = "ucast g :: u32"
  have g: "unat ?g = unat g" "unat (ucast ?cur :: u32) = unat ?cur" by (simp_all add: unat_ucast_up)
  have b: "unat g < 2 ^ 16" "unat ?cur < 2 ^ 16"
    using unsigned_less [of g, where ?'a = nat] unsigned_less [of ?cur, where ?'a = nat] by simp_all
  have i: "unat (?g mod 128) = i" by (simp add: i_def unat_mod g)
  have w: "unat (?g mod 128 div 32) = i div 32" "unat (?g mod 128 mod 32) = i mod 32"
    by (simp_all add: unat_div unat_mod g i_def)
  have cur: "unat (ucast ?cur + 128 :: u32) = unat ?cur + 128"
    using b g by (subst unat_add_lt) simp_all
  have le: "?g \<ge> ucast ?cur + 128 \<longleftrightarrow> unat g \<ge> unat ?cur + 128" by (simp only: word_le_nat_alt cur g)
  have wrap: "(ucast ?cur :: u32) \<ge> 0xF000 \<and> ?g < 0x1000 \<longleftrightarrow> unat ?cur \<ge> 0xF000 \<and> unat g < 0x1000"
    by (simp add: word_le_nat_alt word_less_nat_alt g)
  have lt: "?g < ucast ?cur \<longleftrightarrow> unat g < unat ?cur" by (simp add: word_less_nat_alt g)
  have sub: "(ucast (?g - ?g mod 128) :: u16) = of_nat (unat g - i)"
  proof -
    have "?g mod 128 \<le> ?g" by (simp add: word_le_nat_alt i g i_def)
    then have u: "unat (?g - ?g mod 128) = unat g - i" by (simp add: unat_sub i g)
    have "unat (ucast (?g - ?g mod 128) :: u16) = unat g - i"
      by (subst unat_ucast_down) (use u b in simp_all)
    then show ?thesis by (simp only: flip: \<open>unat (ucast (?g - ?g mod 128) :: u16) = unat g - i\<close>) simp
  qed
  show ?thesis
    unfolding accept_unsequenced_def Let_def le wrap lt sub w push_bit_and not_not by (rule refl)
qed


lemma accept_bits:
  fixes w :: "u32 list"
  assumes "length w = 4" and "i < 128" and "j < 128"
  shows "bit (w[i div 32 := w ! (i div 32) OR push_bit (i mod 32) 1] ! (j div 32)) (j mod 32) \<longleftrightarrow>
    bit (w ! (j div 32)) (j mod 32) \<or> j = i"
proof -
  have "i = j" if "i div 32 = j div 32" "i mod 32 = j mod 32"
    using that by (metis div_mult_mod_eq)
  moreover have "i div 32 < length w" using assms by simp
  ultimately show ?thesis by (auto simp: nth_list_update bit_simps)
qed

lemma fresh_bits:
  assumes "i < 128" and "j < 128"
  shows "bit (((replicate 4 0)[i div 32 := push_bit (i mod 32) 1] :: u32 list) ! (j div 32)) (j mod 32) \<longleftrightarrow> j = i"
proof -
  have "i = j" if "i div 32 = j div 32" "i mod 32 = j mod 32"
    using that by (metis div_mult_mod_eq)
  moreover have "i div 32 < 4" "j div 32 < 4" using assms by simp_all
  ultimately show ?thesis by (auto simp: nth_list_update bit_simps)
qed

text \<open>
  A window that remembers the set of groups accepted so far: the bits of the window are the members of the
  set from the start of the window on, no member lies beyond the window, and the window starts at the block
  of 128 groups with the greatest member.
\<close>

definition window_of :: "u16 set \<Rightarrow> nat" where
  "window_of A = (if A = {} then 0 else Max (unat ` A) div 128 * 128)"

definition remembers :: "ENetPeer \<Rightarrow> u16 set \<Rightarrow> bool" where
  "remembers p A \<longleftrightarrow> window_ok p \<and> unat (incomingUnsequencedGroup p) < 0xF000 \<and>
     unat (incomingUnsequencedGroup p) = window_of A \<and>
     (\<forall>a \<in> A. unat a < unat (incomingUnsequencedGroup p) + 128) \<and>
     (\<forall>h. unat (incomingUnsequencedGroup p) \<le> unat h \<and> unat h < unat (incomingUnsequencedGroup p) + 128 \<longrightarrow>
        (bit (unsequencedWindow p ! (unat h mod 128 div 32)) (unat h mod 128 mod 32) \<longleftrightarrow> h \<in> A))"

lemma remembers_refuses:
  assumes "remembers p A"
  shows "accept_unsequenced g p = None \<longleftrightarrow> g \<in> A \<or> unat g < unat (incomingUnsequencedGroup p)"
proof (cases "unat g < unat (incomingUnsequencedGroup p) + 128")
  case True
  then show ?thesis using assms by (auto simp: accept_unsequenced_nat remembers_def Let_def)
next
  case False
  then have "g \<notin> A" using assms by (auto simp: remembers_def)
  then show ?thesis using False by (simp add: accept_unsequenced_nat Let_def)
qed

lemma same_block:
  assumes "128 dvd c" and "c \<le> a" and "a < c + 128" and "c \<le> b" and "b < c + 128"
  shows "a mod 128 = b mod 128 \<longleftrightarrow> a = (b :: nat)"
proof -
  obtain k where "c = 128 * k" using assms(1) by (rule dvdE)
  then have "a div 128 = k" "b div 128 = k" using assms by auto
  then show ?thesis by (metis div_mult_mod_eq)
qed

lemma window_of_insert:
  assumes "finite A"
  shows "window_of (insert g A) = max (unat g div 128 * 128) (window_of A)"
proof (cases "A = {}")
  case False
  then have "Max (unat ` insert g A) = max (unat g) (Max (unat ` A))" using assms by simp
  moreover have "max (unat g) m div 128 = max (unat g div 128) (m div 128)" for m
    by (rule max_of_mono [symmetric]) (simp add: monoI div_le_mono)
  ultimately show ?thesis using False by (simp add: window_of_def)
qed (simp add: window_of_def)

lemma remembers_accepts:
  assumes "remembers p A" and "accept_unsequenced g p = Some p'" and "unat g < 0xF000"
  shows "remembers p' (insert g A) \<and> unat (incomingUnsequencedGroup p) \<le> unat (incomingUnsequencedGroup p')"
proof -
  let ?cur = "unat (incomingUnsequencedGroup p)" and ?i = "unat g mod 128"
  have i: "?i < 128" by simp
  have len: "length (unsequencedWindow p) = 4" and dvd: "128 dvd ?cur" and cur: "?cur < 0xF000" "?cur = window_of A"
    and below: "\<forall>a \<in> A. unat a < ?cur + 128"
    using assms(1) unfolding remembers_def window_ok_def by blast+
  have kept: "bit (unsequencedWindow p ! (unat h mod 128 div 32)) (unat h mod 128 mod 32) \<longleftrightarrow> h \<in> A"
    if "?cur \<le> unat h" "unat h < ?cur + 128" for h using assms(1) that by (simp add: remembers_def)
  have block: "unat g - ?i = unat g div 128 * 128" by (simp add: minus_mod_eq_div_mult)
  note step = assms(2) [unfolded accept_unsequenced_nat Let_def]
  show ?thesis
  proof (cases "unat g \<ge> ?cur + 128")
    case True
    have p': "p' = p\<lparr>incomingUnsequencedGroup := of_nat (unat g - ?i),
        unsequencedWindow := (replicate 4 0)[?i div 32 := push_bit (?i mod 32) 1]\<rparr>"
      using step True by simp
    have "unat (of_nat (unat g - ?i) :: u16) = unat g - ?i"
      using assms(3) by (simp add: unat_of_nat take_bit_nat_eq_self del: of_nat_diff)
    then have c: "unat (incomingUnsequencedGroup p') = unat g - ?i" by (simp add: p')
    have d: "128 dvd unat g - ?i" by (rule dvd_minus_mod)
    have ok: "window_ok p'" "unat g - ?i < 0xF000" using d c assms(3) by (simp_all add: window_ok_def p')
    have ge: "?cur + 128 \<le> unat g - ?i"
    proof -
      obtain a where "?cur = 128 * a" using dvd by (rule dvdE)
      then have "a + 1 \<le> unat g div 128" using True by simp
      then show ?thesis using \<open>?cur = 128 * a\<close> unfolding block by simp
    qed
    have le: "unat g - ?i \<le> unat g" "unat g < unat g - ?i + 128" by (simp_all add: minus_mod_eq_div_mult)
    have bits: "bit (unsequencedWindow p' ! (unat h mod 128 div 32)) (unat h mod 128 mod 32) \<longleftrightarrow> h \<in> insert g A"
      if "unat g - ?i \<le> unat h" "unat h < unat g - ?i + 128" for h
    proof -
      have "h \<notin> A" using below that(1) ge by fastforce
      moreover have "unat h mod 128 = ?i \<longleftrightarrow> h = g"
        using same_block [OF d that le] by (simp add: word_unat_eq_iff)
      ultimately show ?thesis using fresh_bits [OF i, of "unat h mod 128"] by (simp add: p')
    qed
    have "\<forall>a \<in> insert g A. unat a < unat g - ?i + 128" using below ge le(2) by fastforce
    moreover have "unat g - ?i = window_of (insert g A)"
      using ge cur(2) by (simp add: window_of_insert block)
    ultimately show ?thesis unfolding remembers_def c using ok bits ge c by auto
  next
    case False
    have p': "p' = p\<lparr>unsequencedWindow := (unsequencedWindow p)[?i div 32 :=
          unsequencedWindow p ! (?i div 32) OR push_bit (?i mod 32) 1]\<rparr>" and new: "?cur \<le> unat g"
      using step False cur(1) by (auto split: if_splits)
    have c: "incomingUnsequencedGroup p' = incomingUnsequencedGroup p" by (simp add: p')
    have ok: "window_ok p'" using c len dvd by (simp add: window_ok_def p')
    have in_block: "unat g < ?cur + 128" using False by simp
    have "unat g div 128 * 128 = ?cur"
    proof -
      obtain a where a: "?cur = 128 * a" using dvd by (rule dvdE)
      then have "unat g div 128 = a" using new in_block by auto
      then show ?thesis using a by simp
    qed
    then have "?cur = window_of (insert g A)" using cur(2) by (simp add: window_of_insert)
    moreover have "bit (unsequencedWindow p' ! (unat h mod 128 div 32)) (unat h mod 128 mod 32) \<longleftrightarrow> h \<in> insert g A"
      if "?cur \<le> unat h" "unat h < ?cur + 128" for h
      using accept_bits [OF len i, of "unat h mod 128"] same_block [OF dvd that new in_block] kept [OF that]
      by (auto simp: p' word_unat_eq_iff)
    ultimately show ?thesis unfolding remembers_def c using ok below in_block c cur(1) by auto
  qed
qed

text \<open>Groups arriving one after the other, and those that are accepted.\<close>

fun accept_all :: "u16 list \<Rightarrow> ENetPeer \<Rightarrow> u16 list \<times> ENetPeer" where
  "accept_all [] p = ([], p)"
| "accept_all (g # gs) p = (case accept_unsequenced g p of
     None \<Rightarrow> accept_all gs p
   | Some p1 \<Rightarrow> (let (as, p2) = accept_all gs p1 in (g # as, p2)))"

lemma accept_all_remembers:
  assumes "remembers p A" and "\<forall>g \<in> set gs. unat g < 0xF000" and "accept_all gs p = (as, p')"
  shows "distinct as \<and> set as \<inter> A = {} \<and> set as \<subseteq> set gs \<and> remembers p' (A \<union> set as) \<and>
    (\<forall>g \<in> set gs. g \<in> A \<union> set as \<or> unat g < unat (incomingUnsequencedGroup p')) \<and>
    unat (incomingUnsequencedGroup p) \<le> unat (incomingUnsequencedGroup p')"
  using assms
proof (induction gs arbitrary: p A as)
  case (Cons g gs)
  note refused = remembers_refuses [OF Cons.prems(1), of g]
  show ?case
  proof (cases "accept_unsequenced g p")
    case None
    then have "accept_all gs p = (as, p')" using Cons.prems(3) by simp
    from Cons.IH [OF Cons.prems(1) _ this] show ?thesis using Cons.prems(2) refused None by auto
  next
    case (Some p1)
    obtain as1 where a: "accept_all gs p1 = (as1, p')" "as = g # as1"
      using Cons.prems(3) Some by (auto split: prod.splits)
    have st: "remembers p1 (insert g A)" "unat (incomingUnsequencedGroup p) \<le> unat (incomingUnsequencedGroup p1)"
      using remembers_accepts [OF Cons.prems(1) Some] Cons.prems(2) by simp_all
    from Cons.IH [OF st(1) _ a(1)] show ?thesis using Cons.prems(2) refused Some st(2) a(2) by auto
  qed
qed simp

lemma remembers_empty:
  assumes "incomingUnsequencedGroup p = 0" and "unsequencedWindow p = replicate 4 0"
  shows "remembers p {}"
  using assms by (simp add: remembers_def window_ok_def window_of_def nth_replicate less_mult_imp_div_less)

text \<open>C12. Below 0xF000 each unsequenced group is accepted at most once, whatever the order of arrival and
  however often a datagram is duplicated; and what is turned down afterwards is exactly what has been
  accepted before or lies behind the window, which starts at the block of 128 groups with the greatest
  accepted one. Every group that arrived was accepted or lies behind the window at the end.\<close>

theorem unsequenced_groups_accepted_once:
  assumes "accept_all gs p = (as, p')" and "\<forall>g \<in> set gs. unat g < 0xF000"
    and "incomingUnsequencedGroup p = 0" and "unsequencedWindow p = replicate 4 0"
  shows "distinct as \<and> set as \<subseteq> set gs \<and>
    (\<forall>g. accept_unsequenced g p' = None \<longleftrightarrow> g \<in> set as \<or> unat g < unat (incomingUnsequencedGroup p')) \<and>
    unat (incomingUnsequencedGroup p') = (if as = [] then 0 else Max (unat ` set as) div 128 * 128) \<and>
    (\<forall>g \<in> set gs. g \<in> set as \<or> unat g < unat (incomingUnsequencedGroup p'))"
proof -
  note r = accept_all_remembers [OF remembers_empty [OF assms(3,4)] assms(2,1)]
  then have "remembers p' (set as)" by simp
  then show ?thesis using r remembers_refuses [of p' "set as"] by (simp add: remembers_def window_of_def)
qed

theorem unsequenced_groups_accepted_once_witness:
  "\<exists>p. accept_all [5, 300, 5, 299, 300] (created_peer 0) = ([5, 300, 299], p) \<and>
     accept_unsequenced 300 p = None \<and> accept_unsequenced 255 p = None \<and> accept_unsequenced 301 p \<noteq> None"
proof -
  have "fst (accept_all [5, 300, 5, 299, 300] (created_peer 0)) = [5, 300, 299]" by code_simp
  then obtain p where p: "accept_all [5, 300, 5, 299, 300] (created_peer 0) = ([5, 300, 299], p)"
    by (metis prod.collapse)
  have "\<forall>g \<in> set [5, 300, 5, 299, 300 :: u16]. unat g < 0xF000" "incomingUnsequencedGroup (created_peer 0) = 0"
      "unsequencedWindow (created_peer 0) = replicate 4 0"
    by (simp_all add: created_peer_def emptied_def reset_fields_def)
  note t = unsequenced_groups_accepted_once [OF p this]
  then have "accept_unsequenced g p = None \<longleftrightarrow> g \<in> {5, 300, 299} \<or> unat g < 256" for g by simp
  then show ?thesis using p by (intro exI [of _ p] conjI) (simp_all del: not_None_eq accept_all.simps)
qed

text \<open>C38. Across the wrap of the group numbers the window forgets: a group near the end that has been
  accepted is accepted a second time after any group from behind the wrap, so a duplicated datagram is
  handed to the application twice.\<close>

theorem unsequenced_duplicate_across_wrap:
  assumes "accept_unsequenced g p = Some p1" and "0xF000 \<le> g" and "0xF000 \<le> incomingUnsequencedGroup p"
    and "h < 0x1000"
  shows "\<exists>p2 p3. accept_unsequenced h p1 = Some p2 \<and> accept_unsequenced g p2 = Some p3"
proof -
  let ?i = "unat h mod 128"
  have g: "0xF000 \<le> unat g" "0xF000 \<le> unat (incomingUnsequencedGroup p)" "unat h < 0x1000" "unat g < 2 ^ 16"
    using assms(2-4) unsigned_less [of g, where ?'a = nat] by (simp_all add: word_le_nat_alt word_less_nat_alt)
  have "0xF000 \<le> unat (incomingUnsequencedGroup p1)"
  proof -
    have "61440 = 128 * (480 :: nat)" by simp
    then have "61440 \<le> 128 * (unat g div 128)" using g(1) by (simp add: div_le_mono [of 61440 "unat g" 128, simplified])
    then have "0xF000 \<le> unat g - unat g mod 128" by (simp add: minus_mod_eq_mult_div)
    moreover have "unat (of_nat (unat g - unat g mod 128) :: u16) = unat g - unat g mod 128"
      using g(4) by (simp add: unat_of_nat take_bit_nat_eq_self less_imp_diff_less del: of_nat_diff)
    ultimately show ?thesis using assms(1) g(1,2)
      by (auto simp: accept_unsequenced_nat Let_def simp del: of_nat_diff split: if_splits)
  qed
  then obtain p2 where p2: "accept_unsequenced h p1 = Some p2"
      "incomingUnsequencedGroup p2 = of_nat (unat h - ?i)"
    using g(3) by (auto simp: accept_unsequenced_nat Let_def simp del: of_nat_diff)
  have "unat (incomingUnsequencedGroup p2) < 0x1000"
    unfolding p2(2) using g(3) by (simp add: unat_of_nat take_bit_nat_eq_self less_imp_diff_less del: of_nat_diff)
  then have "accept_unsequenced g p2 \<noteq> None" using g(1) by (simp add: accept_unsequenced_nat Let_def)
  then show ?thesis using p2(1) by blast
qed

theorem unsequenced_duplicate_across_wrap_witness:
  "\<exists>p1 p2 p3. accept_unsequenced 0xFFFF ((created_peer 0)\<lparr>incomingUnsequencedGroup := 0xFF80\<rparr>) = Some p1 \<and>
     accept_unsequenced 1 p1 = Some p2 \<and> accept_unsequenced 0xFFFF p2 = Some p3"
proof -
  let ?p = "(created_peer 0)\<lparr>incomingUnsequencedGroup := 0xFF80\<rparr>"
  have "accept_unsequenced 0xFFFF ?p \<noteq> None" by code_simp
  then obtain p1 where p1: "accept_unsequenced 0xFFFF ?p = Some p1" by blast
  from unsequenced_duplicate_across_wrap [OF p1, of 1] p1 show ?thesis by auto
qed

subsection \<open>The time of an acknowledged command\<close>

lemma halved: "(a :: int) div 32768 = 2 * (a div 65536) + a mod 65536 div 32768"
proof -
  have "a = 32768 * (2 * (a div 65536)) + a mod 65536" by simp
  then have "a div 32768 = (32768 * (2 * (a div 65536)) + a mod 65536) div 32768" by simp
  also have "\<dots> = 2 * (a div 65536) + a mod 65536 div 32768" by (rule div_mult_self4) simp
  finally show ?thesis .
qed

lemma odd_half:
  assumes "0 \<le> r" and "r < 65536"
  shows "odd ((r :: int) div 32768) \<longleftrightarrow> 32768 \<le> r"
proof (cases "32768 \<le> r")
  case True
  then have "r div 32768 = 1" using assms by (intro int_div_pos_eq [of _ _ 1 "r - 32768"]) simp_all
  then show ?thesis using True by simp
qed (use assms in simp)

lemma mod_diff_16:
  assumes "0 \<le> d" and "d < 65536"
  shows "(n - d) mod 65536 = (if d \<le> n mod 65536 then n mod 65536 - d else n mod 65536 - d + (65536 :: int))"
proof (cases "d \<le> n mod 65536")
  case True
  have "n - d = 65536 * (n div 65536) + (n mod 65536 - d)" by simp
  then have "(n - d) mod 65536 = n mod 65536 - d"
    by (rule int_mod_pos_eq) (use True assms pos_mod_bound [of 65536 n] in simp_all)
  then show ?thesis using True by simp
next
  case False
  have "n - d = 65536 * (n div 65536 - 1) + (n mod 65536 - d + 65536)" by (simp add: algebra_simps)
  then have "(n - d) mod 65536 = n mod 65536 - d + 65536"
    by (rule int_mod_pos_eq) (use False assms pos_mod_sign [of 65536 n] in simp_all)
  then show ?thesis using False by simp
qed

lemma bit_15: "bit (y :: u32) 15 \<longleftrightarrow> 32768 \<le> uint y mod 65536"
proof -
  have "bit y 15 \<longleftrightarrow> bit (uint y) 15" by (simp add: bit_uint_iff)
  also have "\<dots> \<longleftrightarrow> odd (uint y div 32768)" by (simp add: bit_iff_odd)
  also have "\<dots> \<longleftrightarrow> odd (uint y mod 65536 div 32768)" by (subst halved) simp
  also have "\<dots> \<longleftrightarrow> 32768 \<le> uint y mod 65536" by (rule odd_half) simp_all
  finally show ?thesis .
qed

text \<open>C14. The 16 bits of the time that an acknowledgement brings back are enough: for a command sent less
  than 0x8000 milliseconds ago, \<open>enet_protocol_handle_acknowledge\<close> recovers the full 32-bit time, also
  across the wrap of either clock, so the round trip time it computes is the true one.\<close>

theorem acknowledged_time_is_recovered:
  assumes "now - t < 0x8000"
  shows "full_sent_time now (ucast t) = t"
proof -
  let ?x = "(ucast (ucast t :: u16) :: u32) OR (now AND 0xFFFF0000)"
  let ?N = "uint now" and ?D = "uint (now - t)"
  have m: "(0xFFFF0000 :: u32) = NOT (mask 16)" "(0x8000 :: u32) = 2 ^ 15" by (simp_all add: mask_eq_exp_minus_1)
  have "take_bit 16 ?x = take_bit 16 t" "drop_bit 16 ?x = drop_bit 16 now"
    unfolding m(1) by (rule bit_word_eqI, auto simp: bit_simps dest: bit_imp_le_length)+
  then have "uint (take_bit 16 ?x) = uint (take_bit 16 t)" "uint (drop_bit 16 ?x) = uint (drop_bit 16 now)"
    by (simp_all only:)
  moreover have "uint y mod 4294967296 = uint y" for y :: u32 using uint_lt2p [of y] by (simp add: mod_pos_pos_trivial)
  ultimately have x: "uint ?x mod 65536 = uint t mod 65536" "uint ?x div 65536 = ?N div 65536"
    by (simp_all only: unsigned_take_bit_eq unsigned_drop_bit_eq) (simp_all add: take_bit_eq_mod drop_bit_eq_div)
  have D: "?D < 0x8000" "0 \<le> ?D" using assms by (simp_all add: word_less_def)
  have "uint (now - (now - t)) = (?N - ?D) mod 2 ^ 32" by (simp only: uint_word_ariths) simp
  then have t: "uint t = (?N - ?D) mod 2 ^ 32" by simp
  note b = bit_15
  have "y AND 2 ^ n = (if bit y n then 2 ^ n else 0)" for y :: u32 and n
    by (rule bit_word_eqI) (auto simp: bit_simps)
  from this [of _ 15] have a: "y AND 0x8000 = (if bit y 15 then 0x8000 else 0)" for y :: u32 by simp
  show ?thesis
  proof (cases "?D \<le> ?N mod 65536")
    case True
    then have "(?N - ?D) mod 65536 = ?N mod 65536 - ?D" using D by (simp add: mod_diff_16)
    then have T: "uint t mod 65536 = ?N mod 65536 - ?D" unfolding t by (simp add: mod_mod_cancel)
    then have "uint ?x = ?N - ?D" using x div_mult_mod_eq [of "uint ?x" 65536] div_mult_mod_eq [of ?N 65536] by linarith
    moreover have "(?N - ?D) mod 2 ^ 32 = ?N - ?D"
      using calculation uint_lt2p [of ?x] uint_ge_0 [of ?x] by (simp add: mod_pos_pos_trivial)
    ultimately have "?x = t" using t by (simp add: word_uint_eq_iff)
    moreover have "\<not> (bit ?x 15 \<and> \<not> bit now 15)" unfolding b x T using D by linarith
    ultimately show ?thesis unfolding full_sent_time_def Let_def a by auto
  next
    case False
    then have "(?N - ?D) mod 65536 = ?N mod 65536 - ?D + 65536" using D by (simp add: mod_diff_16)
    then have T: "uint t mod 65536 = ?N mod 65536 - ?D + 65536" unfolding t by (simp add: mod_mod_cancel)
    then have "uint ?x = ?N - ?D + 65536"
      using x div_mult_mod_eq [of "uint ?x" 65536] div_mult_mod_eq [of ?N 65536] by linarith
    then have "uint (?x - 0x10000) = (?N - ?D) mod 2 ^ 32" by (simp only: uint_word_ariths) simp
    then have "?x - 0x10000 = t" using t by (simp add: word_uint_eq_iff)
    moreover have "bit ?x 15" "\<not> bit now 15" unfolding b x T using D False by linarith+
    ultimately show ?thesis unfolding full_sent_time_def Let_def a by simp
  qed
qed

theorem acknowledged_time_is_recovered_witness:
  "full_sent_time 0x10003 (ucast (0xFFF0 :: u32)) = 0xFFF0 \<and> full_sent_time 2 (ucast (0xFFFFFFF0 :: u32)) = 0xFFFFFFF0"
  using acknowledged_time_is_recovered [of "0x10003" "0xFFF0"]
    acknowledged_time_is_recovered [of "2" "0xFFFFFFF0"] by simp

end
