(* ===== verification/Blowfish.thy ===== *)
theory Blowfish
  imports BfTables
begin

text \<open>
  The password hash of \<open>dll_src/crypt/crypt_blowfish-1.0.2\<close>: crypt_blowfish.c (the build without
  assembler, on a little-endian machine where \<open>char\<close> is signed), the salt generators of crypt_gensalt.c, and
  the entry points of wrapper.c outside glibc.

  A C string is the list of its characters before the NUL. An output buffer is a list of bytes that
  comes back changed. A result is the buffer with \<open>Inl e\<close> for \<open>NULL\<close> and \<open>errno\<close> set to \<open>e\<close>, or \<open>Inr ()\<close> for the
  pointer to the buffer; the whole is \<open>None\<close> where the C code is undefined (a shift by 32 or more,
  reading behind the caller's buffer).
\<close>

datatype errno = EINVAL | ERANGE | ENOMEM

text \<open>The character at a position of a string; only the NUL right behind it may be read.\<close>

definition cchar :: "bytes \<Rightarrow> nat \<Rightarrow> u8" where
  "cchar s i = (if i < length s then s ! i else 0)"

subsection \<open>Radix 64\<close>

text \<open>\<open>tmp\<close> is unsigned: a character below 0x20 becomes a large number.\<close>

definition BF_safe_atoi64 :: "u8 \<Rightarrow> u32 option" where
  "BF_safe_atoi64 src =
    (let tmp = (ucast src :: u32) - 0x20
     in if tmp \<ge> 0x60 then None
        else let v = (ucast (BF_atoi64 ! unat tmp) :: u32) in if v > 63 then None else Some v)"

text \<open>
  \<open>size\<close> bytes from the characters \<open>src\<close>; \<open>None\<close> is the result -1. A NUL is no digit, so a string is not
  read beyond its end.
\<close>

fun BF_decode :: "bytes \<Rightarrow> nat \<Rightarrow> bytes option" where
  "BF_decode src sz = do {
     c1 \<leftarrow> BF_safe_atoi64 (cchar src 0);
     c2 \<leftarrow> BF_safe_atoi64 (cchar src 1);
     let d1 = ucast (push_bit 2 c1 OR drop_bit 4 (c2 AND 0x30));
     if sz \<le> 1 then Some [d1] else do {
       c3 \<leftarrow> BF_safe_atoi64 (cchar src 2);
       let d2 = ucast (push_bit 4 (c2 AND 0x0F) OR drop_bit 2 (c3 AND 0x3C));
       if sz \<le> 2 then Some [d1, d2] else do {
         c4 \<leftarrow> BF_safe_atoi64 (cchar src 3);
         let d3 = ucast (push_bit 6 (c3 AND 0x03) OR c4);
         if sz \<le> 3 then Some [d1, d2, d3]
         else do {
           rest \<leftarrow> BF_decode (drop 4 src) (sz - 3);
           Some (d1 # d2 # d3 # rest) } } } }"

declare BF_decode.simps [simp del]

definition itoa :: "u32 \<Rightarrow> u8" where
  "itoa n = BF_itoa64 ! unat n"

text \<open>The bytes to encode are the \<open>size\<close> bytes at \<open>src\<close>; there is at least one.\<close>

fun BF_encode :: "bytes \<Rightarrow> bytes" where
  "BF_encode [] = []"
| "BF_encode [a] =
    (let c1 = (ucast a :: u32)
     in [itoa (drop_bit 2 c1), itoa (push_bit 4 (c1 AND 0x03))])"
| "BF_encode [a, b] =
    (let c1 = (ucast a :: u32); c2 = (ucast b :: u32)
     in [itoa (drop_bit 2 c1), itoa (push_bit 4 (c1 AND 0x03) OR drop_bit 4 c2), itoa (push_bit 2 (c2 AND 0x0f))])"
| "BF_encode (a # b # c # src) =
    (let c1 = (ucast a :: u32); c2 = (ucast b :: u32); c3 = (ucast c :: u32)
     in itoa (drop_bit 2 c1) # itoa (push_bit 4 (c1 AND 0x03) OR drop_bit 4 c2) #
        itoa (push_bit 2 (c2 AND 0x0f) OR drop_bit 6 c3) # itoa (c3 AND 0x3f) # BF_encode src)"

text \<open>\<open>count\<close> words at \<open>x\<close>, on a little-endian machine.\<close>

definition swap_word :: "u32 \<Rightarrow> u32" where
  "swap_word x =
    (let tmp = push_bit 16 x OR drop_bit 16 x
     in push_bit 8 (tmp AND 0x00FF00FF) OR (drop_bit 8 tmp AND 0x00FF00FF))"

definition BF_swap :: "u32 list \<Rightarrow> u32 list" where
  "BF_swap = map swap_word"

text \<open>The two views of the \<open>union binary\<close>: words, and bytes in the order of memory.\<close>

fun words_of_bytes :: "bytes \<Rightarrow> u32 list" where
  "words_of_bytes (a # b # c # d # bs) =
     (ucast a OR push_bit 8 (ucast b) OR push_bit 16 (ucast c) OR push_bit 24 (ucast d)) # words_of_bytes bs"
| "words_of_bytes _ = []"

definition bytes_of_words :: "u32 list \<Rightarrow> bytes" where
  "bytes_of_words ws =
     concat (map (\<lambda>w. [ucast w, ucast (drop_bit 8 w), ucast (drop_bit 16 w), ucast (drop_bit 24 w)]) ws)"

subsection \<open>The cipher\<close>

record BF_ctx =
  BF_S :: "u32 list"
  BF_P :: "u32 list"

text \<open>What a round adds to \<open>R\<close>: the macro \<open>BF_ROUND (L, R, N)\<close>.\<close>

definition S_box :: "BF_ctx \<Rightarrow> nat \<Rightarrow> u32 \<Rightarrow> u32" where
  "S_box ctx k i = BF_S ctx ! (256 * k + unat i)"

definition BF_ROUND :: "BF_ctx \<Rightarrow> u32 \<Rightarrow> u32 \<Rightarrow> nat \<Rightarrow> u32" where
  "BF_ROUND ctx L R N =
    (let tmp1 = S_box ctx 3 (L AND 0xFF);
         tmp2 = S_box ctx 2 (drop_bit 8 L AND 0xFF);
         tmp3 = (S_box ctx 1 (drop_bit 16 L AND 0xFF) + S_box ctx 0 (drop_bit 24 L)) XOR tmp2
     in R XOR BF_P ctx ! (N + 1) XOR (tmp3 + tmp1))"

text \<open>The sixteen rounds: an even one changes \<open>R\<close>, an odd one \<open>L\<close>.\<close>

definition BF_step :: "BF_ctx \<Rightarrow> nat \<Rightarrow> u32 \<times> u32 \<Rightarrow> u32 \<times> u32" where
  "BF_step ctx N = (\<lambda>(L, R). if even N then (L, BF_ROUND ctx L R N) else (BF_ROUND ctx R L N, R))"

definition BF_ENCRYPT :: "BF_ctx \<Rightarrow> u32 \<times> u32 \<Rightarrow> u32 \<times> u32" where
  "BF_ENCRYPT ctx = (\<lambda>(L, R).
     let (L', R') = fold (BF_step ctx) [0..<16] (L XOR BF_P ctx ! 0, R)
     in (R' XOR BF_P ctx ! 17, L'))"

subsection \<open>The key schedule\<close>

type_synonym running = "(u32 \<times> u32) \<times> BF_ctx"

text \<open>Encrypting and storing the result in two words of \<open>P\<close> or of \<open>S\<close>; the next block uses them.\<close>

definition fill_P :: "nat \<Rightarrow> running \<Rightarrow> running" where
  "fill_P i = (\<lambda>(LR, ctx). let (L, R) = BF_ENCRYPT ctx LR
     in ((L, R), ctx\<lparr>BF_P := (BF_P ctx)[i := L, i + 1 := R]\<rparr>))"

definition fill_S :: "nat \<Rightarrow> running \<Rightarrow> running" where
  "fill_S i = (\<lambda>(LR, ctx). let (L, R) = BF_ENCRYPT ctx LR
     in ((L, R), ctx\<lparr>BF_S := (BF_S ctx)[i := L, i + 1 := R]\<rparr>))"

definition BF_body :: "BF_ctx \<Rightarrow> BF_ctx" where
  "BF_body ctx = snd (fold (\<lambda>j. fill_S (2 * j)) [0..<512] (fold (\<lambda>j. fill_P (2 * j)) [0..<9] ((0, 0), ctx)))"

text \<open>
  One word of the key from the position \<open>ptr\<close> on, which goes back to the start of the key at its NUL.
  A \<open>char\<close> is signed, so \<open>tmp |= *ptr\<close> extends its sign.
\<close>

fun key_word :: "bytes \<Rightarrow> nat \<Rightarrow> nat \<Rightarrow> u32 \<Rightarrow> u32 \<times> nat" where
  "key_word key 0 ptr tmp = (tmp, ptr)"
| "key_word key (Suc j) ptr tmp =
    key_word key j (if cchar key ptr = 0 then 0 else ptr + 1) (push_bit 8 tmp OR scast (cchar key ptr))"

fun expand_key :: "bytes \<Rightarrow> nat \<Rightarrow> nat \<Rightarrow> u32 list" where
  "expand_key key 0 ptr = []"
| "expand_key key (Suc i) ptr = (let (tmp, ptr1) = key_word key 4 ptr 0 in tmp # expand_key key i ptr1)"

definition BF_set_key :: "bytes \<Rightarrow> u32 list \<times> u32 list" where
  "BF_set_key key = (let expanded = expand_key key 18 0 in (expanded, map2 (XOR) BF_init_P expanded))"

definition mix_salt :: "u32 list \<Rightarrow> nat \<Rightarrow> u32 \<times> u32 \<Rightarrow> u32 \<times> u32" where
  "mix_salt salt i = (\<lambda>(L, R). (L XOR salt ! i, R XOR salt ! (i + 1)))"

text \<open>The two loops that fill the state under the salt: \<open>i & 2\<close>, and the two halves of a pass over \<open>S\<close>.\<close>

definition salted_P :: "u32 list \<Rightarrow> nat \<Rightarrow> running \<Rightarrow> running" where
  "salted_P salt j = (\<lambda>(LR, ctx). fill_P (2 * j) (mix_salt salt (if even j then 0 else 2) LR, ctx))"

definition salted_S :: "u32 list \<Rightarrow> nat \<Rightarrow> running \<Rightarrow> running" where
  "salted_S salt j = (\<lambda>(LR, ctx). fill_S (2 * j) (mix_salt salt (if even j then 2 else 0) LR, ctx))"

definition salted_ctx :: "u32 list \<Rightarrow> BF_ctx \<Rightarrow> BF_ctx" where
  "salted_ctx salt ctx = snd (fold (salted_S salt) [0..<512] (fold (salted_P salt) [0..<9] ((0, 0), ctx)))"

definition xor_P :: "(nat \<Rightarrow> u32) \<Rightarrow> BF_ctx \<Rightarrow> BF_ctx" where
  "xor_P w ctx = ctx\<lparr>BF_P := map (\<lambda>i. BF_P ctx ! i XOR w i) [0..<18]\<rparr>"

text \<open>One pass of the expensive loop.\<close>

definition cost_round :: "u32 list \<Rightarrow> u32 list \<Rightarrow> BF_ctx \<Rightarrow> BF_ctx" where
  "cost_round expanded salt ctx =
     BF_body (xor_P (\<lambda>i. salt ! (i mod 4)) (BF_body (xor_P (\<lambda>i. expanded ! i) ctx)))"

definition magic_pair :: "BF_ctx \<Rightarrow> nat \<Rightarrow> u32 list" where
  "magic_pair ctx i = (let (L, R) = (BF_ENCRYPT ctx ^^ 64) (BF_magic_w ! i, BF_magic_w ! (i + 1)) in [L, R])"

subsection \<open>The hash\<close>

text \<open>The shape of the setting up to the salt; the comparisons are of signed characters.\<close>

definition setting_ok :: "bytes \<Rightarrow> bool" where
  "setting_ok s \<longleftrightarrow> cchar s 0 = 0x24 \<and> cchar s 1 = 0x32 \<and> cchar s 2 = 0x61 \<and> cchar s 3 = 0x24 \<and>
     \<not> cchar s 4 <s 0x30 \<and> \<not> 0x33 <s cchar s 4 \<and> \<not> cchar s 5 <s 0x30 \<and> \<not> 0x39 <s cchar s 5 \<and> cchar s 6 = 0x24"

definition setting_shift :: "bytes \<Rightarrow> int" where
  "setting_shift s = (sint (cchar s 4) - 0x30) * 10 + (sint (cchar s 5) - 0x30)"

text \<open>The state after the key schedule, and the 24 bytes of the hash.\<close>

definition final_ctx :: "bytes \<Rightarrow> u32 list \<Rightarrow> nat \<Rightarrow> BF_ctx" where
  "final_ctx key salt count =
    (let (expanded, initial) = BF_set_key key
     in (cost_round expanded salt ^^ count) (salted_ctx salt \<lparr>BF_S = BF_init_S, BF_P = initial\<rparr>))"

definition BF_output :: "BF_ctx \<Rightarrow> bytes" where
  "BF_output ctx = bytes_of_words (BF_swap (concat (map (magic_pair ctx) [0, 2, 4])))"

definition last_salt_char :: "bytes \<Rightarrow> u8" where
  "last_salt_char setting = itoa (ucast (BF_atoi64 ! nat (sint (cchar setting 28) - 0x20)) AND 0x30)"

definition crypt_string :: "bytes \<Rightarrow> bytes \<Rightarrow> u32 list \<Rightarrow> nat \<Rightarrow> bytes" where
  "crypt_string key setting salt count =
     take 28 setting @ [last_salt_char setting] @ BF_encode (take 23 (BF_output (final_ctx key salt count)))"

definition crypt_blowfish_rn :: "bytes \<Rightarrow> bytes \<Rightarrow> bytes \<Rightarrow> int \<Rightarrow> ((errno + unit) \<times> bytes) option" where
  "crypt_blowfish_rn key setting output sz =
    (if sz < 7 + 22 + 31 + 1 then Some (Inl ERANGE, output)
     else if \<not> setting_ok setting then Some (Inl EINVAL, output)
     else if setting_shift setting \<ge> 32 then None
     else
      (let count = push_bit (nat (setting_shift setting)) (1 :: u32)
       in if count < 16 then Some (Inl EINVAL, output)
          else case BF_decode (drop 7 setting) 16 of
            None \<Rightarrow> Some (Inl EINVAL, output)
          | Some bs \<Rightarrow>
             (if length output < 61 then None
              else Some (Inr (), overwrite 0
                (crypt_string key setting (BF_swap (words_of_bytes bs)) (unat count) @ [0]) output))))"

end
