(* ===== verification/Gensalt.thy ===== *)
theory Gensalt
  imports Blowfish
begin

text \<open>
  The salt generators of \<open>dll_src/crypt/crypt_blowfish-1.0.2\<close> (crypt_gensalt.c, and the one for Blowfish in
  crypt_blowfish.c) and the functions of wrapper.c as they are built outside glibc. The arguments and
  results follow the conventions of the theory \<open>Blowfish\<close>: \<open>input\<close> is the caller's block of random bytes.
\<close>

type_synonym salt_result = "((errno + unit) \<times> bytes) option"

subsection \<open>The generators\<close>

text \<open>What the four generators do when they refuse: an empty string if it fits, and the cause.\<close>

definition refuse :: "bytes \<Rightarrow> int \<Rightarrow> int \<Rightarrow> salt_result" where
  "refuse output output_size need =
    (if output_size > 0 \<and> output = [] then None
     else Some (Inl (if output_size < need then ERANGE else EINVAL),
       if output_size > 0 then output[0 := 0] else output))"

text \<open>Writing a string with its NUL at the start of the buffer.\<close>

definition put_string :: "bytes \<Rightarrow> bytes \<Rightarrow> salt_result" where
  "put_string s output =
     (if length output \<le> length s then None else Some (Inr (), overwrite 0 (s @ [0]) output))"

definition itoa64 :: "u64 \<Rightarrow> u8" where
  "itoa64 n = crypt_itoa64 ! unat (n AND 0x3f)"

text \<open>Four characters for 24 bits, the low ones first.\<close>

definition four_chars :: "u64 \<Rightarrow> bytes" where
  "four_chars v = [itoa64 v, itoa64 (drop_bit 6 v), itoa64 (drop_bit 12 v), itoa64 (drop_bit 18 v)]"

definition three_bytes :: "bytes \<Rightarrow> nat \<Rightarrow> u64" where
  "three_bytes input i =
     ucast (input ! i) OR push_bit 8 (ucast (input ! (i + 1))) OR push_bit 16 (ucast (input ! (i + 2)))"

text \<open>Characters are signed where they are cast to \<open>unsigned int\<close> here.\<close>

definition crypt_gensalt_traditional_rn :: "u64 \<Rightarrow> bytes \<Rightarrow> int \<Rightarrow> bytes \<Rightarrow> int \<Rightarrow> salt_result" where
  "crypt_gensalt_traditional_rn count input sz output output_size =
    (if sz < 2 \<or> output_size < 2 + 1 \<or> (count \<noteq> 0 \<and> count \<noteq> 25) then refuse output output_size 3
     else if length input < 2 then None
     else put_string (map (\<lambda>c. crypt_itoa64 ! unat ((scast c :: u32) AND 0x3f)) (take 2 input)) output)"

definition crypt_gensalt_extended_rn :: "u64 \<Rightarrow> bytes \<Rightarrow> int \<Rightarrow> bytes \<Rightarrow> int \<Rightarrow> salt_result" where
  "crypt_gensalt_extended_rn count0 input sz output output_size =
    (if sz < 3 \<or> output_size < 1 + 4 + 4 + 1 \<or> (count0 \<noteq> 0 \<and> (count0 > 0xffffff \<or> count0 AND 1 = 0))
     then refuse output output_size 10
     else if length input < 3 then None
     else
      (let count = (if count0 = 0 then 725 else count0)
       in put_string (0x5f # four_chars count @ four_chars (three_bytes input 0)) output))"

text \<open>With six bytes and room for them there are eight characters; they overwrite the first NUL.\<close>

definition crypt_gensalt_md5_rn :: "u64 \<Rightarrow> bytes \<Rightarrow> int \<Rightarrow> bytes \<Rightarrow> int \<Rightarrow> salt_result" where
  "crypt_gensalt_md5_rn count input sz output output_size =
    (if sz < 3 \<or> output_size < 3 + 4 + 1 \<or> (count \<noteq> 0 \<and> count \<noteq> 1000) then refuse output output_size 8
     else if length input < 3 then None
     else if sz \<ge> 6 \<and> output_size \<ge> 3 + 4 + 4 + 1 then
       (if length input < 6 then None
        else put_string ([0x24, 0x31, 0x24] @ four_chars (three_bytes input 0) @ four_chars (three_bytes input 3)) output)
     else put_string ([0x24, 0x31, 0x24] @ four_chars (three_bytes input 0)) output)"

definition crypt_gensalt_blowfish_rn :: "u64 \<Rightarrow> bytes \<Rightarrow> int \<Rightarrow> bytes \<Rightarrow> int \<Rightarrow> salt_result" where
  "crypt_gensalt_blowfish_rn count0 input sz output output_size =
    (if sz < 16 \<or> output_size < 7 + 22 + 1 \<or> (count0 \<noteq> 0 \<and> (count0 < 4 \<or> count0 > 31))
     then refuse output output_size 30
     else if length input < 16 then None
     else
      (let count = (if count0 = 0 then 5 else count0)
       in put_string ([0x24, 0x32, 0x61, 0x24, 0x30 + ucast (count div 10), 0x30 + ucast (count mod 10), 0x24] @
            BF_encode (take 16 input)) output))"

subsection \<open>Entry points\<close>

text \<open>\<open>input\<close> is \<open>None\<close> for \<open>NULL\<close>; \<open>memchr\<close> looks for a character of the prefix in the alphabet.\<close>

definition crypt_gensalt_rn ::
  "bytes \<Rightarrow> u64 \<Rightarrow> bytes option \<Rightarrow> int \<Rightarrow> bytes \<Rightarrow> int \<Rightarrow> salt_result" where
  "crypt_gensalt_rn prefix count input sz output output_size =
    (case input of
       None \<Rightarrow> Some (Inl EINVAL, output)
     | Some bs \<Rightarrow>
        if take 4 prefix = [0x24, 0x32, 0x61, 0x24] then crypt_gensalt_blowfish_rn count bs sz output output_size
        else if take 3 prefix = [0x24, 0x31, 0x24] then crypt_gensalt_md5_rn count bs sz output output_size
        else if cchar prefix 0 = 0x5f then crypt_gensalt_extended_rn count bs sz output output_size
        else if cchar prefix 0 = 0 \<or>
                (cchar prefix 1 \<noteq> 0 \<and> cchar prefix 0 \<in> set crypt_itoa64 \<and> cchar prefix 1 \<in> set crypt_itoa64)
        then crypt_gensalt_traditional_rn count bs sz output output_size
        else Some (Inl EINVAL, output))"

text \<open>
  \<open>crypt_gensalt_ra\<close> copies the string to memory of its own, unless there is none (\<open>memory\<close>);
  \<open>stack\<close> is what the buffer on the stack held before.
\<close>

definition string_at :: "bytes \<Rightarrow> bytes" where
  "string_at = takeWhile (\<lambda>c. c \<noteq> 0)"

definition crypt_gensalt_ra ::
  "bool \<Rightarrow> bytes \<Rightarrow> bytes \<Rightarrow> u64 \<Rightarrow> bytes option \<Rightarrow> int \<Rightarrow> (errno + bytes) option" where
  "crypt_gensalt_ra memory stack prefix count input sz =
    (case crypt_gensalt_rn prefix count input sz stack 30 of
       None \<Rightarrow> None
     | Some (Inl e, _) \<Rightarrow> Some (Inl e)
     | Some (Inr _, out) \<Rightarrow> Some (if memory then Inr (string_at out) else Inl ENOMEM))"

text \<open>\<open>static\<close> is the buffer of \<open>crypt_gensalt\<close>.\<close>

definition crypt_gensalt :: "bytes \<Rightarrow> u64 \<Rightarrow> bytes option \<Rightarrow> int \<Rightarrow> bytes \<Rightarrow> salt_result" where
  "crypt_gensalt prefix count input sz static = crypt_gensalt_rn prefix count input sz static 30"

text \<open>
  The block of the caller of \<open>crypt_ra\<close>: the data it points at, or \<open>None\<close> for \<open>NULL\<close>, and its size.
  \<open>fresh n\<close> is what \<open>realloc\<close> returns behind the old contents, \<open>None\<close> if it fails.
\<close>

type_synonym crypt_block = "bytes option \<times> int"

definition crypt_data_alloc :: "(nat \<Rightarrow> bytes option) \<Rightarrow> crypt_block \<Rightarrow> int \<Rightarrow> (errno + unit) \<times> crypt_block" where
  "crypt_data_alloc fresh block need =
    (let (buf, sz) = block
     in if buf \<noteq> None \<and> sz \<ge> need then (Inr (), block)
        else (case fresh (nat need) of
            None \<Rightarrow> (Inl ENOMEM, block)
          | Some new \<Rightarrow>
             (let old = (case buf of None \<Rightarrow> [] | Some b \<Rightarrow> take (nat need) b)
              in (Inr (), (Some (old @ drop (length old) (take (nat need) new)), need)))))"

definition crypt_retval_magic :: "errno + unit \<Rightarrow> bytes \<Rightarrow> bytes \<Rightarrow> bytes option" where
  "crypt_retval_magic retval setting output =
    (case retval of
       Inr _ \<Rightarrow> Some output
     | Inl _ \<Rightarrow>
        if length output < 3 then None
        else Some (overwrite 0 [0x2a, if cchar setting 0 = 0x2a \<and> cchar setting 1 = 0x30 then 0x31 else 0x30, 0] output))"

definition crypt_rn :: "bytes \<Rightarrow> bytes \<Rightarrow> bytes \<Rightarrow> int \<Rightarrow> ((errno + unit) \<times> bytes) option" where
  "crypt_rn key setting dat sz = crypt_blowfish_rn key setting dat sz"

definition crypt_ra ::
  "(nat \<Rightarrow> bytes option) \<Rightarrow> bytes \<Rightarrow> bytes \<Rightarrow> crypt_block \<Rightarrow> ((errno + unit) \<times> crypt_block) option" where
  "crypt_ra fresh key setting block =
    (case crypt_data_alloc fresh block 61 of
       (Inl e, block1) \<Rightarrow> Some (Inl e, block1)
     | (Inr _, (None, sz)) \<Rightarrow> None
     | (Inr _, (Some buf, sz)) \<Rightarrow> do {
         (r, buf1) \<leftarrow> crypt_blowfish_rn key setting buf sz;
         Some (r, (Some buf1, sz)) })"

definition crypt_r :: "bytes \<Rightarrow> bytes \<Rightarrow> bytes \<Rightarrow> bytes option" where
  "crypt_r key setting dat = do {
     (r, dat1) \<leftarrow> crypt_rn key setting dat 61;
     crypt_retval_magic r setting dat1 }"

text \<open>\<open>static\<close> is the buffer of \<open>crypt\<close>, of 61 bytes.\<close>

definition crypt :: "bytes \<Rightarrow> bytes \<Rightarrow> bytes \<Rightarrow> bytes option" where
  "crypt key setting static = do {
     (r, static1) \<leftarrow> crypt_rn key setting static 61;
     crypt_retval_magic r setting static1 }"

end
