(* ===== verification/BlowfishProps.thy ===== *)
theory BlowfishProps
  imports Gensalt
begin

text \<open>
  What the Blowfish password hash keeps: the radix-64 code is inverted by its decoder, the cipher is a
  permutation, a generated salt is a valid setting, and a hash is verified by hashing again with the hash
  as the setting; and what goes wrong with characters of 0x80 and above.
\<close>

subsection \<open>Radix 64\<close>

lemma atoi_table: "list_all (\<lambda>n. BF_safe_atoi64 (BF_itoa64 ! n) = Some (of_nat n) \<and> BF_itoa64 ! n \<noteq> 0) [0..<64]"
  by code_simp

lemma atoi_itoa [simp]:
  assumes "n < 64"
  shows "BF_safe_atoi64 (itoa n) = Some n" and "itoa n \<noteq> 0" and "itoa n \<in> set BF_itoa64"
proof -
  have n: "unat n < 64" using assms by (simp add: word_less_nat_alt)
  then have "unat n \<in> set [0..<64]" by simp
  from atoi_table [unfolded list_all_iff, rule_format, OF this]
  have *: "BF_safe_atoi64 (BF_itoa64 ! unat n) = Some (of_nat (unat n)) \<and> BF_itoa64 ! unat n \<noteq> 0" .
  then show "BF_safe_atoi64 (itoa n) = Some n" "itoa n \<noteq> 0" by (simp_all add: itoa_def)
  show "itoa n \<in> set BF_itoa64" unfolding itoa_def using n by (simp add: BF_table_lengths)
qed

text \<open>Equality of bytes, and of small words, bit by bit.\<close>

lemma byte_eqI:
  fixes x y :: u8
  assumes "bit x 0 = bit y 0" "bit x 1 = bit y 1" "bit x 2 = bit y 2" "bit x 3 = bit y 3"
    and "bit x 4 = bit y 4" "bit x 5 = bit y 5" "bit x 6 = bit y 6" "bit x 7 = bit y 7"
  shows "x = y"
proof (rule bit_word_eqI)
  fix n assume "n < LENGTH(8)"
  then have "n = 0 \<or> n = 1 \<or> n = 2 \<or> n = 3 \<or> n = 4 \<or> n = 5 \<or> n = 6 \<or> n = 7" by auto
  then show "bit x n = bit y n" using assms by (elim disjE) simp_all
qed

lemma small_word:
  assumes "\<And>n. n < 32 \<Longrightarrow> 6 \<le> n \<Longrightarrow> \<not> bit (x :: u32) n"
  shows "x < 64"
proof -
  have "n < 6 \<or> \<not> bit x n" if "n < 32" for n using assms that not_le by blast
  then have "take_bit 6 x = x" by (intro bit_word_eqI) (auto simp: bit_simps)
  then have "unat x = take_bit 6 (unat x)" by (metis unsigned_take_bit_eq)
  also have "\<dots> < 2 ^ 6" by (rule take_bit_nat_less_exp)
  finally show ?thesis by (simp add: word_less_nat_alt)
qed

lemma byte_bit [simp]: "8 \<le> n \<Longrightarrow> \<not> bit (x :: u8) n"
  by (auto dest: bit_imp_le_length)

text \<open>The digits of a group of three bytes, and the bytes of four digits.\<close>

definition digit1 :: "u8 \<Rightarrow> u32" where "digit1 a = drop_bit 2 (ucast a)"
definition digit2 :: "u8 \<Rightarrow> u8 \<Rightarrow> u32" where "digit2 a b = push_bit 4 (ucast a AND 0x03) OR drop_bit 4 (ucast b)"
definition digit3 :: "u8 \<Rightarrow> u8 \<Rightarrow> u32" where "digit3 b c = push_bit 2 (ucast b AND 0x0f) OR drop_bit 6 (ucast c)"
definition digit4 :: "u8 \<Rightarrow> u32" where "digit4 c = ucast c AND 0x3f"

definition byte1 :: "u32 \<Rightarrow> u32 \<Rightarrow> u8" where "byte1 x y = ucast (push_bit 2 x OR drop_bit 4 (y AND 0x30))"
definition byte2 :: "u32 \<Rightarrow> u32 \<Rightarrow> u8" where "byte2 x y = ucast (push_bit 4 (x AND 0x0F) OR drop_bit 2 (y AND 0x3C))"
definition byte3 :: "u32 \<Rightarrow> u32 \<Rightarrow> u8" where "byte3 x y = ucast (push_bit 6 (x AND 0x03) OR y)"

lemma BF_encode_digits:
  "BF_encode [a] = [itoa (digit1 a), itoa (digit2 a 0)]"
  "BF_encode [a, b] = [itoa (digit1 a), itoa (digit2 a b), itoa (digit3 b 0)]"
  "BF_encode (a # b # c # src) =
     itoa (digit1 a) # itoa (digit2 a b) # itoa (digit3 b c) # itoa (digit4 c) # BF_encode src"
  by (simp_all add: digit1_def digit2_def digit3_def digit4_def Let_def)

lemma BF_decode_bytes:
  "BF_decode src n = do {
     c1 \<leftarrow> BF_safe_atoi64 (cchar src 0);
     c2 \<leftarrow> BF_safe_atoi64 (cchar src 1);
     if n \<le> 1 then Some [byte1 c1 c2] else do {
       c3 \<leftarrow> BF_safe_atoi64 (cchar src 2);
       if n \<le> 2 then Some [byte1 c1 c2, byte2 c2 c3] else do {
         c4 \<leftarrow> BF_safe_atoi64 (cchar src 3);
         if n \<le> 3 then Some [byte1 c1 c2, byte2 c2 c3, byte3 c3 c4]
         else do {
           rest \<leftarrow> BF_decode (drop 4 src) (n - 3);
           Some (byte1 c1 c2 # byte2 c2 c3 # byte3 c3 c4 # rest) } } } }"
  unfolding byte1_def byte2_def byte3_def by (subst BF_decode.simps) (simp only: Let_def)

lemma digits_bound [simp]: "digit1 a < 64" "digit2 a b < 64" "digit3 a b < 64" "digit4 a < 64"
proof -
  have m: "(0x03 :: u32) = mask 2" "(0x0f :: u32) = mask 4" "(0x3f :: u32) = mask 6" by (simp_all add: mask_eq_exp_minus_1)
  show "digit1 a < 64" "digit2 a b < 64" "digit3 a b < 64" "digit4 a < 64"
    unfolding digit1_def digit2_def digit3_def digit4_def m by (rule small_word, force simp: bit_simps)+
qed

lemma bytes_of_digits [simp]:
  "byte1 (digit1 a) (digit2 a b) = a" "byte2 (digit2 a b) (digit3 b c) = b" "byte3 (digit3 b c) (digit4 c) = c"
  unfolding byte1_def byte2_def byte3_def digit1_def digit2_def digit3_def digit4_def
  by (rule byte_eqI; simp add: bit_simps)+

lemma cchar_simps [simp]:
  "cchar (x # xs) 0 = x" "cchar (x # xs) (Suc n) = cchar xs n" "cchar (x # xs) (numeral k) = cchar xs (pred_numeral k)"
  by (simp_all add: cchar_def numeral_eq_Suc)

lemma BF_decode_encode_facts:
  assumes "bs \<noteq> []"
  shows "BF_decode (BF_encode bs @ rest) (length bs) = Some bs" and "set (BF_encode bs) \<subseteq> set BF_itoa64"
    and "length (BF_encode bs) = (4 * length bs + 2) div 3"
proof -
  have "BF_decode (BF_encode bs @ rest) (length bs) = Some bs \<and> set (BF_encode bs) \<subseteq> set BF_itoa64 \<and>
    length (BF_encode bs) = (4 * length bs + 2) div 3"
    using assms
  proof (induction bs rule: BF_encode.induct)
    case (2 a)
    show ?case unfolding BF_encode_digits by (subst BF_decode_bytes) simp
  next
    case (3 a b)
    show ?case unfolding BF_encode_digits by (subst BF_decode_bytes) simp
  next
    case (4 a b c src)
    show ?case
    proof (cases "src = []")
      case True
      then show ?thesis unfolding BF_encode_digits by (subst BF_decode_bytes) simp
    next
      case False
      moreover have "(4 * (length src + 3) + 2) div 3 = 4 + (4 * length src + 2) div 3" by simp
      ultimately show ?thesis using 4 unfolding BF_encode_digits
        by (subst BF_decode_bytes) (simp add: Suc_le_eq)
    qed
  qed simp
  then show "BF_decode (BF_encode bs @ rest) (length bs) = Some bs" "set (BF_encode bs) \<subseteq> set BF_itoa64"
    "length (BF_encode bs) = (4 * length bs + 2) div 3" by blast+
qed

text \<open>Decoding undoes encoding: for any bytes, \<open>BF_decode\<close> reads back exactly the bytes that
  \<open>BF_encode\<close> wrote, whatever follows them; and \<open>BF_encode\<close> writes only characters of its alphabet, four
  for three bytes.\<close>

theorem BF_decode_encode:
  assumes "bs \<noteq> []"
  shows "BF_decode (BF_encode bs @ rest) (length bs) = Some bs \<and> set (BF_encode bs) \<subseteq> set BF_itoa64 \<and>
    length (BF_encode bs) = (4 * length bs + 2) div 3"
  using BF_decode_encode_facts [OF assms] by blast

theorem BF_decode_encode_witness: "BF_decode (BF_encode [1, 2, 3, 255] @ [46]) (length [1, 2, 3, 255 :: u8]) = Some [1, 2, 3, 255]"
  using BF_decode_encode [of "[1, 2, 3, 255]" "[46]"] by blast

subsection \<open>The cipher\<close>

lemma BF_step_involution: "BF_step ctx N (BF_step ctx N x) = x"
proof -
  have "BF_ROUND ctx L (BF_ROUND ctx L R n) n = R" for L R n
    by (simp add: BF_ROUND_def Let_def ac_simps)
  then show ?thesis by (cases x) (simp add: BF_step_def)
qed

lemma bij_fold: "(\<And>x. x \<in> set xs \<Longrightarrow> bij (f x)) \<Longrightarrow> bij (fold f xs)"
  by (induction xs) (auto simp: fold_Cons intro!: bij_comp)

text \<open>\<open>BF_ENCRYPT\<close> is a permutation of the 64-bit blocks for every state of the P and S boxes, also for
  the states in the middle of the key schedule: no two blocks are encrypted alike.\<close>

theorem BF_ENCRYPT_bij: "bij (BF_ENCRYPT ctx)"
proof -
  have "BF_step ctx N \<circ> BF_step ctx N = id" for N by (rule ext) (simp add: BF_step_involution)
  then have "bij (BF_step ctx N)" for N by (intro o_bij)
  then have rounds: "bij (fold (BF_step ctx) [0..<16])" by (rule bij_fold)
  have "(\<lambda>(L, R). (L XOR k, R)) \<circ> (\<lambda>(L, R). (L XOR k, R)) = id" for k :: u32
    by (rule ext) (auto simp: xor.assoc)
  then have whiten: "bij (\<lambda>(L :: u32, R :: u32). (L XOR k, R))" for k by (intro o_bij)
  have "bij (\<lambda>(L :: u32, R :: u32). (R, L))" by (rule involuntory_imp_bij) auto
  then have "bij ((\<lambda>(L, R). (L XOR BF_P ctx ! 17, R)) \<circ> (\<lambda>(L, R). (R, L)) \<circ> fold (BF_step ctx) [0..<16] \<circ>
      (\<lambda>(L, R). (L XOR BF_P ctx ! 0, R)))"
    using rounds whiten by (intro bij_comp)
  moreover have "BF_ENCRYPT ctx = (\<lambda>(L, R). (L XOR BF_P ctx ! 17, R)) \<circ> (\<lambda>(L, R). (R, L)) \<circ>
      fold (BF_step ctx) [0..<16] \<circ> (\<lambda>(L, R). (L XOR BF_P ctx ! 0, R))"
    by (rule ext) (simp add: BF_ENCRYPT_def split: prod.splits del: upt_rec_numeral)
  ultimately show ?thesis by simp
qed

subsection \<open>Characters from 0x80 on\<close>

lemma signed_or:
  assumes "0x80 \<le> (c :: u8)"
  shows "push_bit 8 x OR scast c = (scast c :: u32)"
proof -
  have "bit c 7"
  proof (rule ccontr)
    assume "\<not> bit c 7"
    have "\<not> bit c n" if "7 \<le> n" for n
      using \<open>\<not> bit c 7\<close> that by (cases "n = 7") simp_all
    then have "take_bit 7 c = c" by (intro bit_word_eqI) (auto simp: bit_simps not_less [symmetric])
    then have "unat c = take_bit 7 (unat c)" by (metis unsigned_take_bit_eq)
    also have "\<dots> < 2 ^ 7" by (rule take_bit_nat_less_exp)
    finally show False using assms by (simp add: word_le_nat_alt)
  qed
  then show ?thesis by (intro bit_word_eqI) (auto simp: bit_simps min_def)
qed

lemma expand_aligned:
  assumes "key_word key 4 0 0 = (w, 0)"
  shows "expand_key key n 0 = replicate n w"
  by (induction n) (simp_all add: assms)

text \<open>C39. Because \<open>BF_set_key\<close> takes the characters of the key as signed, a character of 0x80 or above
  wipes out the ones before it in its word: two passwords of three characters that end in the same such
  character have the same hash, under every setting, whatever their other characters are.\<close>

theorem high_character_hides_others:
  assumes "0x80 \<le> c" and "a \<noteq> 0" and "b \<noteq> 0" and "a' \<noteq> 0" and "b' \<noteq> 0"
  shows "crypt_blowfish_rn [a, b, c] setting output sz = crypt_blowfish_rn [a', b', c] setting output sz"
proof -
  have c: "c \<noteq> 0" using assms(1) by auto
  have w: "key_word [x, y, c] 4 0 0 = (push_bit 8 (scast c), 0)" if "x \<noteq> 0" "y \<noteq> 0" for x y
  proof -
    have "key_word [x, y, c] 4 0 0 =
        (push_bit 8 (push_bit 8 (push_bit 8 (push_bit 8 0 OR scast x) OR scast y) OR scast c) OR scast (0 :: u8), 0)"
      using that c by (simp add: eval_nat_numeral cchar_def)
    then show ?thesis unfolding signed_or [OF assms(1)] by simp
  qed
  have "BF_set_key [a, b, c] = BF_set_key [a', b', c]"
    using assms by (simp add: BF_set_key_def expand_aligned [OF w] Let_def)
  then have "final_ctx [a, b, c] = final_ctx [a', b', c]" by (intro ext) (simp add: final_ctx_def)
  then have "crypt_string [a, b, c] = crypt_string [a', b', c]" by (intro ext) (simp add: crypt_string_def)
  then show ?thesis by (simp only: crypt_blowfish_rn_def)
qed

theorem high_character_hides_others_witness:
  "crypt_blowfish_rn [0x61, 0x62, 0xA3] ([0x24, 0x32, 0x61, 0x24, 0x30, 0x35, 0x24] @ replicate 22 0x2e) (replicate 61 0) 61 =
   crypt_blowfish_rn [0x78, 0x79, 0xA3] ([0x24, 0x32, 0x61, 0x24, 0x30, 0x35, 0x24] @ replicate 22 0x2e) (replicate 61 0) 61"
  by (rule high_character_hides_others) simp_all

subsection \<open>Verifying a hash\<close>

text \<open>What the code knows of a character that is a digit; checked for each of the 256 characters.\<close>

definition digit_facts :: "u8 \<Rightarrow> bool" where
  "digit_facts c \<longleftrightarrow> (case BF_safe_atoi64 c of
     None \<Rightarrow> True
   | Some v \<Rightarrow> c \<noteq> 0 \<and> v < 64 \<and> v = ucast (BF_atoi64 ! nat (sint c - 0x20)))"

lemma digit_facts_table: "list_all (\<lambda>n. digit_facts (of_nat n)) [0..<256]"
  by code_simp

lemma atoi_char:
  assumes "BF_safe_atoi64 c = Some v"
  shows "c \<noteq> 0 \<and> v < 64 \<and> v = ucast (BF_atoi64 ! nat (sint c - 0x20))"
proof -
  have "unat c \<in> set [0..<256]" using unsigned_less [of c, where ?'a = nat] by simp
  from digit_facts_table [unfolded list_all_iff, rule_format, OF this]
  have "digit_facts c" by simp
  then show ?thesis unfolding digit_facts_def assms option.case .
qed

text \<open>The characters that hold \<open>n\<close> bytes, when the last group holds one: the last of them counts with its two
  high bits only.\<close>

lemma decode_char:
  assumes "BF_safe_atoi64 (cchar src i) = Some v"
  shows "i < length src" and "src ! i \<noteq> 0" and "v < 64"
  using atoi_char [OF assms] by (auto simp: cchar_def split: if_splits)

lemma high_bits: "(c :: u32) AND 0x30 < 64"
  by (rule le_less_trans [OF word_and_le1]) simp

lemma byte1_high_bits: "byte1 c1 (c2 AND 0x30) = byte1 c1 c2"
  by (simp add: byte1_def and.assoc)

lemma BF_decode_prefix:
  assumes "BF_decode src (3 * k + 1) = Some bs"
  shows "4 * k + 2 \<le> length src \<and> 0 \<notin> set (take (4 * k + 2) src) \<and> length bs = 3 * k + 1 \<and>
    (\<exists>c. BF_safe_atoi64 (src ! (4 * k + 1)) = Some c \<and>
      (\<forall>rest. BF_decode (take (4 * k + 1) src @ itoa (c AND 0x30) # rest) (3 * k + 1) = Some bs))"
  using assms
proof (induction k arbitrary: src bs)
  case 0
  obtain c1 c2 where d: "BF_safe_atoi64 (cchar src 0) = Some c1" "BF_safe_atoi64 (cchar src 1) = Some c2"
      and bs: "bs = [byte1 c1 c2]"
    using 0 by (subst (asm) BF_decode_bytes) (auto split: bind_splits)
  obtain x y src' where src: "src = x # y # src'"
    using decode_char(1) [OF d(2)] by (cases src; cases "tl src") auto
  have "BF_decode (x # itoa (c2 AND 0x30) # rest) 1 = Some bs" for rest
    using d by (subst BF_decode_bytes) (simp add: src bs high_bits byte1_high_bits)
  then show ?case using d bs decode_char(2) [OF d(1)] decode_char(2) [OF d(2)] by (auto simp: src)
next
  case (Suc k)
  have n: "3 * Suc k + 1 - 3 = 3 * k + 1" "\<not> 3 * Suc k + 1 \<le> 3" by simp_all
  obtain c1 c2 c3 c4 bs' where d: "BF_safe_atoi64 (cchar src 0) = Some c1" "BF_safe_atoi64 (cchar src 1) = Some c2"
      "BF_safe_atoi64 (cchar src 2) = Some c3" "BF_safe_atoi64 (cchar src 3) = Some c4"
    and r: "BF_decode (drop 4 src) (3 * k + 1) = Some bs'"
    and bs: "bs = byte1 c1 c2 # byte2 c2 c3 # byte3 c3 c4 # bs'"
    using Suc.prems by (subst (asm) BF_decode_bytes) (auto simp: n split: bind_splits if_splits)
  have "3 < length src" by (rule decode_char(1) [OF d(4)])
  then obtain x y z u src' where src: "src = x # y # z # u # src'"
    by (cases src; cases "tl src"; cases "tl (tl src)"; cases "tl (tl (tl src))") auto
  from Suc.IH [OF r] obtain c where ih: "4 * k + 2 \<le> length src'" "0 \<notin> set (take (4 * k + 2) src')"
      "length bs' = 3 * k + 1" "BF_safe_atoi64 (src' ! (4 * k + 1)) = Some c"
      "\<forall>rest. BF_decode (take (4 * k + 1) src' @ itoa (c AND 0x30) # rest) (3 * k + 1) = Some bs'"
    by (auto simp: src)
  have "BF_decode (x # y # z # u # take (4 * k + 1) src' @ itoa (c AND 0x30) # rest) (3 * Suc k + 1) = Some bs" for rest
    using d ih(5) by (subst BF_decode_bytes) (simp add: src n bs)
  moreover have "0 \<notin> {x, y, z, u}" using d [THEN decode_char(2)] by (simp add: src numeral_eq_Suc)
  moreover have "take (4 * Suc k + 2) src = x # y # z # u # take (4 * k + 2) src'"
      "take (4 * Suc k + 1) src = x # y # z # u # take (4 * k + 1) src'" "src ! (4 * Suc k + 1) = src' ! (4 * k + 1)"
    by (simp_all add: src numeral_eq_Suc)
  moreover have "length bs = 3 * Suc k + 1" "4 * Suc k + 2 \<le> length src" using ih(1,3) by (simp_all add: src bs)
  ultimately show ?case using ih(2,4) by (auto simp del: take_Suc_Cons mult_Suc_right)
qed

subsection \<open>Hashing with a hash as the setting\<close>

text \<open>What a successful call has computed.\<close>

lemma crypt_success:
  assumes "crypt_blowfish_rn key setting output sz = Some (Inr (), out)"
  obtains bs where "61 \<le> sz" "setting_ok setting" "\<not> 32 \<le> setting_shift setting"
    "\<not> push_bit (nat (setting_shift setting)) (1 :: u32) < 16" "BF_decode (drop 7 setting) 16 = Some bs"
    "61 \<le> length output"
    "out = overwrite 0 (crypt_string key setting (BF_swap (words_of_bytes bs))
       (unat (push_bit (nat (setting_shift setting)) (1 :: u32))) @ [0]) output"
  using assms unfolding crypt_blowfish_rn_def Let_def
  by (auto split: if_splits option.splits simp del: push_bit_of_1)

lemma cchar_drop: "cchar (drop k s) i = cchar s (k + i)"
  by (auto simp: cchar_def)

lemma length_BF_output [simp]: "length (BF_output ctx) = 24"
  by (simp add: BF_output_def bytes_of_words_def BF_swap_def magic_pair_def split_def Let_def)

lemma itoa64_nonzero: "0 \<notin> set BF_itoa64"
  by (simp add: BF_itoa64_def)

lemma encoded_hash:
  "length (BF_encode (take 23 (BF_output ctx))) = 31" "0 \<notin> set (BF_encode (take 23 (BF_output ctx)))"
proof -
  let ?b = "take 23 (BF_output ctx)"
  have l: "length ?b = 23" by simp
  then have "?b \<noteq> []" by force
  from BF_decode_encode_facts [OF this] l itoa64_nonzero
  show "length (BF_encode ?b) = 31" "0 \<notin> set (BF_encode ?b)" by auto
qed

lemma string_at_put: "0 \<notin> set s \<Longrightarrow> string_at (overwrite 0 (s @ [0]) output) = s"
  unfolding string_at_def overwrite_def by (simp, subst takeWhile_append2) auto

text \<open>The first 29 characters of a setting whose salt can be decoded.\<close>

lemma setting_parts:
  assumes "setting_ok s" and "BF_decode (drop 7 s) 16 = Some bs"
  obtains c where "29 \<le> length s" "0 \<notin> set (take 28 s)" "BF_safe_atoi64 (cchar s 28) = Some c"
    "last_salt_char s = itoa (c AND 0x30)"
    "\<And>rest. BF_decode (take 21 (drop 7 s) @ itoa (c AND 0x30) # rest) 16 = Some bs"
proof -
  obtain c where p: "22 \<le> length (drop 7 s)" "0 \<notin> set (take 22 (drop 7 s))"
      "BF_safe_atoi64 (drop 7 s ! 21) = Some c"
      "\<And>rest. BF_decode (take 21 (drop 7 s) @ itoa (c AND 0x30) # rest) 16 = Some bs"
    using BF_decode_prefix [of "drop 7 s" 5 bs] assms(2) by auto
  have l: "29 \<le> length s" using p(1) by simp
  have c: "BF_safe_atoi64 (cchar s 28) = Some c" using p(3) l by (simp add: cchar_def)
  have "s ! i \<noteq> 0" if "i < 28" for i
  proof (cases "i < 7")
    case True
    then have "i = 0 \<or> i = 1 \<or> i = 2 \<or> i = 3 \<or> i = 4 \<or> i = 5 \<or> i = 6" by auto
    moreover have "cchar s i = s ! i" using l True by (simp add: cchar_def)
    ultimately show ?thesis using assms(1) by (auto simp: setting_ok_def word_sless_alt)
  next
    case False
    then have "s ! i = drop 7 s ! (i - 7)" "i - 7 < 22" using that l by simp_all
    then have "s ! i \<in> set (take 22 (drop 7 s))" using p(1) by (auto simp: in_set_conv_nth)
    then show ?thesis using p(2) by metis
  qed
  then have "0 \<notin> set (take 28 s)" using l by (auto simp: in_set_conv_nth)
  moreover have "last_salt_char s = itoa (c AND 0x30)"
    using atoi_char [OF c] unfolding last_salt_char_def by metis
  ultimately show thesis using that l c p(4) by blast
qed

lemma crypt_string_facts:
  fixes key :: bytes and salt :: "u32 list" and n :: nat
  assumes "setting_ok s" and "BF_decode (drop 7 s) 16 = Some bs"
  defines "cs \<equiv> crypt_string key s salt n"
  shows "length cs = 60" and "0 \<notin> set cs" and "setting_ok cs" and "setting_shift cs = setting_shift s"
    and "BF_decode (drop 7 cs) 16 = Some bs" and "crypt_string key cs salt n = cs" and "take 28 cs = take 28 s"
proof -
  obtain c where p: "29 \<le> length s" "0 \<notin> set (take 28 s)" "last_salt_char s = itoa (c AND 0x30)"
      "\<And>rest. BF_decode (take 21 (drop 7 s) @ itoa (c AND 0x30) # rest) 16 = Some bs"
    using setting_parts [OF assms(1,2)] by metis
  let ?e = "BF_encode (take 23 (BF_output (final_ctx key salt n)))"
  have cs: "cs = take 28 s @ itoa (c AND 0x30) # ?e" unfolding cs_def crypt_string_def p(3) by simp
  show "length cs = 60" "take 28 cs = take 28 s" using p(1) by (simp_all add: cs encoded_hash)
  show "0 \<notin> set cs" using p(2) high_bits [of c] atoi_itoa(2) [of "c AND 0x30"] encoded_hash(2) by (auto simp: cs)
  have ch: "cchar cs i = cchar s i" if "i < 28" for i using that p(1) by (simp add: cs cchar_def nth_append)
  show "setting_ok cs" "setting_shift cs = setting_shift s"
    using assms(1) by (simp_all add: setting_ok_def setting_shift_def ch)
  have "drop 7 cs = take 21 (drop 7 s) @ itoa (c AND 0x30) # ?e" using p(1) by (simp add: cs take_drop)
  then show "BF_decode (drop 7 cs) 16 = Some bs" using p(4) by simp
  have "cchar cs 28 = itoa (c AND 0x30)" using p(1) by (simp add: cs cchar_def nth_append)
  then have "BF_safe_atoi64 (cchar cs 28) = Some (c AND 0x30)" using high_bits by simp
  from atoi_char [OF this] have "last_salt_char cs = itoa ((c AND 0x30) AND 0x30)"
    unfolding last_salt_char_def by metis
  then have "last_salt_char cs = itoa (c AND 0x30)" by (simp add: and.assoc)
  moreover have "take 28 cs = take 28 s" using p(1) by (simp add: cs)
  ultimately show "crypt_string key cs salt n = cs" unfolding crypt_string_def by (simp add: cs)
qed

text \<open>C19. A stored hash verifies its password: if hashing a key under a setting succeeds, then hashing
  the same key with the resulting string as the setting succeeds too, in any large enough buffer, and
  gives the same string. It has 60 characters and starts like the setting.\<close>

theorem hash_verifies_itself:
  assumes "crypt_blowfish_rn key setting output sz = Some (Inr (), out)" and "61 \<le> length output2" and "61 \<le> sz2"
  shows "\<exists>out2. crypt_blowfish_rn key (string_at out) output2 sz2 = Some (Inr (), out2) \<and>
    string_at out2 = string_at out \<and> length (string_at out) = 60 \<and> take 28 (string_at out) = take 28 setting"
proof -
  obtain bs where p: "setting_ok setting" "\<not> 32 \<le> setting_shift setting"
      "\<not> push_bit (nat (setting_shift setting)) (1 :: u32) < 16" "BF_decode (drop 7 setting) 16 = Some bs"
      and out: "out = overwrite 0 (crypt_string key setting (BF_swap (words_of_bytes bs))
       (unat (push_bit (nat (setting_shift setting)) (1 :: u32))) @ [0]) output"
    using crypt_success [OF assms(1)] by metis
  let ?cs = "crypt_string key setting (BF_swap (words_of_bytes bs)) (unat (push_bit (nat (setting_shift setting)) (1 :: u32)))"
  note cs = crypt_string_facts [OF p(1,4), of key "BF_swap (words_of_bytes bs)"
      "unat (push_bit (nat (setting_shift setting)) (1 :: u32))"]
  have s: "string_at out = ?cs" unfolding out by (rule string_at_put [OF cs(2)])
  have "crypt_blowfish_rn key ?cs output2 sz2 = Some (Inr (), overwrite 0 (?cs @ [0]) output2)"
    using assms(2,3) p(2,3) unfolding crypt_blowfish_rn_def Let_def cs(4,5)
    by (simp add: cs(3,6) del: push_bit_of_1)
  then show ?thesis using s cs(1,7) string_at_put [OF cs(2)] by simp
qed

definition sample_setting :: bytes where
  "sample_setting = [0x24, 0x32, 0x61, 0x24, 0x30, 0x35, 0x24] @ replicate 22 0x2e"

lemma sample_setting_facts:
  "setting_ok sample_setting" "setting_shift sample_setting = 5" "BF_decode (drop 7 sample_setting) 16 = Some (replicate 16 0)"
  by code_simp+

theorem hash_verifies_itself_witness:
  "\<exists>out out2. crypt_blowfish_rn [0x61] sample_setting (replicate 61 0) 61 = Some (Inr (), out) \<and>
     crypt_blowfish_rn [0x61] (string_at out) (replicate 64 0) 64 = Some (Inr (), out2) \<and> string_at out2 = string_at out"
proof -
  have "\<not> push_bit (nat 5) (1 :: u32) < 16" by simp
  then obtain out where out: "crypt_blowfish_rn [0x61] sample_setting (replicate 61 0) 61 = Some (Inr (), out)"
    unfolding crypt_blowfish_rn_def Let_def by (simp add: sample_setting_facts del: push_bit_of_1)
  from hash_verifies_itself [OF out, of "replicate 64 0" 64] out show ?thesis by auto
qed

subsection \<open>Generated salts\<close>

lemma last_digit: "length bs = 3 * k + 1 \<Longrightarrow> bs \<noteq> [] \<Longrightarrow> last (BF_encode bs) = itoa (digit2 (last bs) 0)"
proof (induction bs arbitrary: k rule: BF_encode.induct)
  case (4 a b c src)
  then obtain j where j: "k = Suc j" by (cases k) auto
  have l: "length src = 3 * j + 1" using "4.prems"(1) by (simp add: j)
  then have "src \<noteq> []" by auto
  moreover have "BF_encode src \<noteq> []" using BF_decode_encode_facts(3) [OF \<open>src \<noteq> []\<close>] \<open>src \<noteq> []\<close> by (cases src) auto
  ultimately show ?case using "4.IH" [OF refl refl refl l \<open>src \<noteq> []\<close>]
    unfolding BF_encode_digits by simp
next
  case (2 a)
  show ?case unfolding BF_encode_digits by simp
next
  case (3 a b)
  then show ?case by simp
qed simp

lemma digit2_high: "digit2 a 0 AND 0x30 = digit2 a 0"
  unfolding digit2_def by (simp add: push_bit_and)

text \<open>The two characters of the cost, for each cost the generator takes.\<close>

definition cost_chars :: "u64 \<Rightarrow> bytes" where
  "cost_chars c = [0x30 + ucast (c div 10), 0x30 + ucast (c mod 10)]"

definition cost_ok :: "u64 \<Rightarrow> bool" where
  "cost_ok c \<longleftrightarrow> (let s = [0x24, 0x32, 0x61, 0x24] @ cost_chars c @ [0x24] in
     setting_ok s \<and> setting_shift s = int (unat c) \<and> \<not> push_bit (unat c) (1 :: u32) < 16 \<and> 0 \<notin> set s)"

lemma cost_table: "list_all (\<lambda>n. cost_ok (of_nat n)) [4..<32]"
  by code_simp

lemma cost_ok: "4 \<le> c \<Longrightarrow> c \<le> 31 \<Longrightarrow> cost_ok c"
proof -
  assume "4 \<le> c" "c \<le> 31"
  then have "4 \<le> unat c" "unat c < 32" by (simp_all add: word_le_nat_alt)
  then have "unat c \<in> set [4..<32]" by (simp only: set_upt atLeastLessThan_iff)
  from cost_table [unfolded list_all_iff, rule_format, OF this] show "cost_ok c" by simp
qed

text \<open>The string that \<open>crypt_gensalt\<close> makes for Blowfish.\<close>

lemma gensalt_string:
  assumes "crypt_gensalt_rn [0x24, 0x32, 0x61, 0x24] count (Some input) sz output osz = Some (Inr (), out)"
  defines "c \<equiv> if count = 0 then 5 else count"
  shows "16 \<le> length input \<and> cost_ok c \<and>
    string_at out = [0x24, 0x32, 0x61, 0x24] @ cost_chars c @ [0x24] @ BF_encode (take 16 input)"
proof -
  have g: "\<not> (count \<noteq> 0 \<and> (count < 4 \<or> count > 31))" "16 \<le> length input"
      "put_string ([0x24, 0x32, 0x61, 0x24, 0x30 + ucast (c div 10), 0x30 + ucast (c mod 10), 0x24] @
         BF_encode (take 16 input)) output = Some (Inr (), out)"
    using assms by (auto simp: crypt_gensalt_rn_def crypt_gensalt_blowfish_rn_def refuse_def Let_def split: if_splits)
  have ok: "cost_ok c" using g(1) by (auto simp: c_def not_less intro: cost_ok)
  have "take 16 input \<noteq> []" using g(2) by auto
  then have "0 \<notin> set (BF_encode (take 16 input))"
    using BF_decode_encode_facts(2) [of "take 16 input"] itoa64_nonzero by auto
  moreover have "0 \<notin> set ([0x24, 0x32, 0x61, 0x24] @ cost_chars c @ [0x24])"
    using ok by (simp add: cost_ok_def Let_def)
  ultimately have "0 \<notin> set ([0x24, 0x32, 0x61, 0x24] @ cost_chars c @ [0x24] @ BF_encode (take 16 input))"
    by simp
  from string_at_put [OF this, of "output"] g ok show ?thesis
    by (auto simp: put_string_def cost_chars_def split: if_splits)
qed

text \<open>C27. The salt generator and the hash agree: whatever 16 random bytes and cost \<open>crypt_gensalt\<close> is given
  (cost 5 for 0), a string it makes for the prefix \<open>$2a$\<close> is accepted as a setting for every key; the hash
  starts with that very string, and its salt and cost are the bytes and the cost that were asked for.\<close>

theorem generated_salt_is_accepted:
  assumes "crypt_gensalt_rn [0x24, 0x32, 0x61, 0x24] count (Some input) sz output osz = Some (Inr (), out)"
    and "61 \<le> length buffer" and "61 \<le> bsz"
  shows "\<exists>res. crypt_rn key (string_at out) buffer bsz = Some (Inr (), res) \<and>
    take 29 (string_at res) = string_at out \<and>
    BF_decode (drop 7 (string_at out)) 16 = Some (take 16 input) \<and>
    setting_shift (string_at out) = (if count = 0 then 5 else int (unat count))"
proof -
  let ?c = "if count = 0 then 5 else count" and ?e = "BF_encode (take 16 input)" and ?s = "string_at out"
  have s: "16 \<le> length input" "cost_ok ?c" "?s = [0x24, 0x32, 0x61, 0x24] @ cost_chars ?c @ [0x24] @ ?e"
    using gensalt_string [OF assms(1)] by simp_all
  have costs: "count = 0 \<or> 4 \<le> count \<and> count \<le> 31"
    using assms(1) by (auto simp: crypt_gensalt_rn_def crypt_gensalt_blowfish_rn_def refuse_def Let_def not_less
        split: if_splits)
  let ?p = "[0x24, 0x32, 0x61, 0x24] @ cost_chars ?c @ [0x24]"
  have ne: "take 16 input \<noteq> []" using s(1) by auto
  have le: "length ?e = 22" using BF_decode_encode_facts(3) [OF ne] s(1) by (simp add: min_def)
  have "?s = ?p @ ?e" "length ?p = 7" unfolding s(3) by (simp_all add: cost_chars_def)
  then have pre: "cchar ?s i = cchar ?p i" if "i < 7" for i
    using that by (simp only: cchar_def nth_append) simp
  have ok: "setting_ok ?s" "setting_shift ?s = int (unat ?c)" "\<not> push_bit (unat ?c) (1 :: u32) < 16"
    using s(2) by (simp_all add: cost_ok_def Let_def setting_ok_def setting_shift_def pre del: push_bit_of_1)
  have d7: "drop 7 ?s = ?e" unfolding s(3) by (simp add: cost_chars_def)
  have "length (take 16 input) = 16" using s(1) by simp
  then have dec: "BF_decode (drop 7 ?s) 16 = Some (take 16 input)"
    using BF_decode_encode_facts(1) [OF ne, of "[]"] unfolding d7 by (simp only: append_Nil2)
  have le29: "length ?s = 29" unfolding s(3) using le by (simp add: cost_chars_def)
  have "?e \<noteq> []" using le by auto
  then have "?s ! 28 = last ?e"
    using le unfolding s(3) by (simp add: cost_chars_def last_conv_nth nth_append)
  also have "\<dots> = itoa (digit2 (last (take 16 input)) 0)"
    by (rule last_digit [of _ 5]) (use s(1) ne in simp_all)
  finally have l: "cchar ?s 28 = itoa (digit2 (last (take 16 input)) 0)" using le29 by (simp add: cchar_def)
  then have "BF_safe_atoi64 (cchar ?s 28) = Some (digit2 (last (take 16 input)) 0)" by simp
  from atoi_char [OF this] have "last_salt_char ?s = itoa (digit2 (last (take 16 input)) 0 AND 0x30)"
    unfolding last_salt_char_def by metis
  then have last: "last_salt_char ?s = ?s ! 28" using l le29 by (simp add: digit2_high cchar_def)
  let ?cs = "crypt_string key ?s (BF_swap (words_of_bytes (take 16 input))) (unat (push_bit (unat ?c) (1 :: u32)))"
  have "unat ?c < 32" using costs by (auto simp: word_le_nat_alt)
  then have "\<not> 32 \<le> int (unat ?c)" by linarith
  moreover define n where "n = unat ?c"
  ultimately have "crypt_rn key ?s buffer bsz = Some (Inr (), overwrite 0 (?cs @ [0]) buffer)"
    using assms(2,3) ok dec unfolding n_def [symmetric]
    by (simp add: crypt_rn_def crypt_blowfish_rn_def Let_def del: push_bit_of_1)
  moreover have "take 29 ?cs = ?s"
  proof -
    have "take 29 ?cs = take 28 ?s @ [?s ! 28]" using le29 last by (simp add: crypt_string_def)
    then show ?thesis using le29 by (metis lessI numeral_plus_one semiring_norm(5) take_Suc_conv_app_nth take_all order_refl Suc_numeral)
  qed
  ultimately show ?thesis
    using crypt_string_facts(2) [OF ok(1) dec, of key] dec ok(2) string_at_put by (auto split: if_splits)
qed

theorem generated_salt_is_accepted_witness:
  "\<exists>out res. crypt_gensalt_rn [0x24, 0x32, 0x61, 0x24] 12 (Some (map of_nat [200..<216])) 16 (replicate 30 0) 30 = Some (Inr (), out) \<and>
     crypt_rn [0x61] (string_at out) (replicate 61 0) 61 = Some (Inr (), res) \<and> take 29 (string_at res) = string_at out"
proof -
  have "map_option fst (crypt_gensalt_rn [0x24, 0x32, 0x61, 0x24] 12 (Some (map of_nat [200..<216])) 16 (replicate 30 0) 30) = Some (Inr ())"
    by code_simp
  then obtain out where out: "crypt_gensalt_rn [0x24, 0x32, 0x61, 0x24] 12 (Some (map of_nat [200..<216])) 16 (replicate 30 0) 30
      = Some (Inr (), out)"
    by auto
  have "61 \<le> length (replicate 61 (0 :: u8))" "61 \<le> (61 :: int)" by simp_all
  from generated_salt_is_accepted [OF out this] out show ?thesis by blast
qed

definition in_buffer :: "bytes \<Rightarrow> salt_result \<Rightarrow> bool" where
  "in_buffer output x \<longleftrightarrow> (\<exists>r out. x = Some (r, out) \<and> length out = length output \<and> (r = Inr () \<longrightarrow> 0 \<in> set out))"

text \<open>C34. The generators never write outside the buffer they are given, whatever the prefix, count and sizes:
  if the sizes are those of the buffers, the call is defined, the output buffer keeps its length, and when
  the call succeeds the buffer holds a string with its NUL.\<close>

theorem gensalt_stays_in_buffer:
  assumes "osz = int (length output)" and "\<forall>bs. input = Some bs \<longrightarrow> sz \<le> int (length bs)"
  shows "\<exists>r out. crypt_gensalt_rn prefix count input sz output osz = Some (r, out) \<and> length out = length output \<and>
    (r = Inr () \<longrightarrow> 0 \<in> set out)"
proof -
  have put: "in_buffer output (put_string s output)" if "int (length s) < osz" for s
    using that assms(1) by (auto simp: in_buffer_def put_string_def overwrite_def)
  have no: "in_buffer output (refuse output osz n)" for n
    using assms(1) by (auto simp: in_buffer_def refuse_def)
  have four: "length (four_chars v) = 4" for v by (simp add: four_chars_def)
  have bf: "length (BF_encode (take 16 bs)) = 22" if "16 \<le> length bs" for bs
    using BF_decode_encode_facts(3) [of "take 16 bs"] that by (cases bs) (auto simp: min_def)
  have "in_buffer output (crypt_gensalt_rn prefix count input sz output osz)"
  proof (cases input)
    case None
    then show ?thesis by (simp add: crypt_gensalt_rn_def in_buffer_def)
  next
    case (Some bs)
    have sz: "sz \<le> int (length bs)" using assms(2) Some by simp
    have "in_buffer output (crypt_gensalt_traditional_rn count bs sz output osz)"
      unfolding crypt_gensalt_traditional_rn_def using sz by (auto intro!: put no)
    moreover have "in_buffer output (crypt_gensalt_extended_rn count bs sz output osz)"
      unfolding crypt_gensalt_extended_rn_def Let_def using sz by (auto simp: four intro!: put no)
    moreover have "in_buffer output (crypt_gensalt_md5_rn count bs sz output osz)"
      unfolding crypt_gensalt_md5_rn_def using sz by (auto simp: four intro!: put no)
    moreover have "in_buffer output (crypt_gensalt_blowfish_rn count bs sz output osz)"
      unfolding crypt_gensalt_blowfish_rn_def Let_def using sz by (auto simp: bf intro!: put no)
    ultimately show ?thesis by (auto simp: Some crypt_gensalt_rn_def in_buffer_def)
  qed
  then show ?thesis by (simp add: in_buffer_def)
qed

theorem gensalt_stays_in_buffer_witness:
  "\<exists>r out. crypt_gensalt_rn [0x5f] 3 (Some [1, 2, 3]) 3 (replicate 10 7) 10 = Some (r, out) \<and> length out = 10"
  using gensalt_stays_in_buffer [of 10 "replicate 10 7" "Some [1, 2, 3]" 3 "[0x5f]" 3] by auto

subsection \<open>Failure\<close>

text \<open>A failed hash is never taken for a match: when \<open>crypt\<close> cannot hash under a setting it returns
  \<open>*0\<close> or \<open>*1\<close>, and whichever of the two differs from the setting, so that comparing the result with
  the stored setting fails.\<close>

theorem failed_crypt_differs_from_setting:
  assumes "crypt_rn key setting static 61 = Some (Inl e, static1)" and "length static = 61"
  shows "\<exists>out. crypt key setting static = Some out \<and> string_at out \<in> {[0x2a, 0x30], [0x2a, 0x31]} \<and>
    string_at out \<noteq> setting"
proof -
  have s: "static1 = static"
    using assms(1) by (auto simp: crypt_rn_def crypt_blowfish_rn_def Let_def split: if_splits option.splits)
  let ?d = "if cchar setting 0 = 0x2a \<and> cchar setting 1 = 0x30 then 0x31 else 0x30 :: u8"
  have c: "crypt key setting static = Some (overwrite 0 ([0x2a, ?d] @ [0]) static)"
    using assms s by (simp add: crypt_def crypt_retval_magic_def)
  have "string_at (overwrite 0 ([0x2a, ?d] @ [0]) static) = [0x2a, ?d]" by (rule string_at_put) simp
  moreover have "[0x2a, ?d] \<noteq> setting" by (auto simp: cchar_def)
  ultimately show ?thesis using c by auto
qed

theorem failed_crypt_differs_from_setting_witness:
  "\<exists>out. crypt [0x61] [0x2a, 0x30] (replicate 61 0) = Some out \<and> string_at out = [0x2a, 0x31]"
proof -
  have "crypt_rn [0x61] [0x2a, 0x30] (replicate 61 0) 61 = Some (Inl EINVAL, replicate 61 0)" by code_simp
  from failed_crypt_differs_from_setting [OF this] show ?thesis by auto
qed

end
