(* ===== verification/Handshake.thy ===== *)
theory Handshake
  imports Runs
begin

text \<open>
  How a peer becomes established: no datagram can do it to a peer this host has not answered. The
  argument follows the receive loop down to the handlers; each keeps the quiet peers quiet.
\<close>

subsection \<open>Peers that have not been answered\<close>

definition quiet :: "ENetPeer \<Rightarrow> bool" where
  "quiet p \<longleftrightarrow> (peer_state p = ENET_PEER_STATE_DISCONNECTED \<or> peer_state p = ENET_PEER_STATE_ACKNOWLEDGING_CONNECT) \<and>
     sentReliableCommands p = []"

definition keeps_quiet :: "world \<Rightarrow> world \<Rightarrow> bool" where
  "keeps_quiet w w' \<longleftrightarrow> list_all2 (\<lambda>p q. quiet p \<longrightarrow> quiet q) (peers (host w)) (peers (host w'))"

text \<open>Only the peer \<open>i\<close> has changed.\<close>

definition only :: "nat \<Rightarrow> world \<Rightarrow> world \<Rightarrow> bool" where
  "only i w w' \<longleftrightarrow> (\<exists>p. peers (host w') = (peers (host w))[i := p])"

lemma keeps_quiet_same [intro, simp]: "peers (host w') = peers (host w) \<Longrightarrow> keeps_quiet w w'"
  by (simp add: keeps_quiet_def list_all2_refl)

lemma keeps_quiet_trans: "keeps_quiet w w1 \<Longrightarrow> keeps_quiet w1 w2 \<Longrightarrow> keeps_quiet w w2"
  unfolding keeps_quiet_def
  by (rule list_all2_trans [of "\<lambda>p q. quiet p \<longrightarrow> quiet q" "\<lambda>p q. quiet p \<longrightarrow> quiet q"]) auto

lemma only_same [intro, simp]: "peers (host w') = peers (host w) \<Longrightarrow> only i w w'"
  by (auto simp: only_def intro: exI [of _ "peers (host w) ! i"])

lemma only_trans: "only i w w1 \<Longrightarrow> only i w1 w2 \<Longrightarrow> only i w w2"
  by (auto simp: only_def)

lemma only_put [intro, simp]: "only i w (put_peer i p w)"
  by (auto simp: only_def)

lemma only_on_peer: "on_peer i f w = Some (r, w') \<Longrightarrow> only i w w'"
  by (erule on_peer_cases) (auto simp: only_def put_peer_def)

lemma only_put_eq [simp]: "only i w (put_peer i p w1) = only i w w1"
proof
  assume "only i w (put_peer i p w1)"
  then obtain q where "(peers (host w1))[i := p] = (peers (host w))[i := q]" by (auto simp: only_def)
  then have "(peers (host w1))[i := p, i := peers (host w1) ! i] = (peers (host w))[i := peers (host w1) ! i]" by simp
  then show "only i w w1" by (auto simp: only_def)
qed (auto simp: only_def)

lemma only_reset: "reset_peer i w = Some w' \<Longrightarrow> only i w w'"
  by (auto simp: reset_peer_def intro: only_on_peer)

lemma only_quiet:
  assumes "only i w w'" and "get_peer w i = Some p" and "\<And>q. quiet p \<Longrightarrow> get_peer w' i = Some q \<Longrightarrow> quiet q"
  shows "keeps_quiet w w'"
proof -
  obtain q where q: "peers (host w') = (peers (host w))[i := q]" using assms(1) by (auto simp: only_def)
  then have "quiet (peers (host w) ! i) \<longrightarrow> quiet q" using assms(2,3) by (auto simp: get_peer_Some)
  then show ?thesis unfolding keeps_quiet_def q list_all2_conv_all_nth by (metis length_list_update nth_list_update_neq nth_list_update_eq)
qed

text \<open>A peer that is not quiet may change in any way.\<close>

lemma only_loud: "only i w w' \<Longrightarrow> get_peer w i = Some p \<Longrightarrow> \<not> quiet p \<Longrightarrow> keeps_quiet w w'"
  by (rule only_quiet) auto

lemma put_quiet: "get_peer w i = Some p \<Longrightarrow> (quiet p \<Longrightarrow> quiet q) \<Longrightarrow> keeps_quiet w (put_peer i q w)"
  by (erule only_quiet [OF only_put]) (auto simp: get_peer_Some)

locale quiet_op =
  fixes f :: "'r peer_op"
  assumes quiet: "f p ps = Some (r, p', ps') \<Longrightarrow> quiet p \<Longrightarrow> quiet p'"
begin

lemma on_peer_quiet:
  assumes "on_peer i f w = Some (r, w')"
  shows "keeps_quiet w w'"
proof -
  obtain p' ps' where i: "i < length (peers (host w))" and f: "f (peers (host w) ! i) (packets w) = Some (r, p', ps')"
      and w': "w' = (put_peer i p' w)\<lparr>packets := ps'\<rparr>"
    using assms by (rule on_peer_cases)
  have "get_peer w i = Some (peers (host w) ! i)" using i by (simp add: get_peer_Some)
  then show ?thesis
    by (rule only_quiet [OF only_on_peer [OF assms]]) (use i quiet [OF f] w' in \<open>auto simp: get_peer_Some put_peer_def\<close>)
qed

end

subsection \<open>Operations on one peer\<close>

lemma put_channel_quiet [simp]: "quiet (put_channel c ch p) = quiet p"
  by (simp add: quiet_def put_channel_def)

interpretation queue_incoming: quiet_op "enet_peer_queue_incoming_command command packet n" for command packet n
  by unfold_locales (auto simp: enet_peer_queue_incoming_command_def Let_def split: if_splits bind_splits option.splits)

interpretation store: quiet_op "store_fragment c k n off len dat" for c k n off len dat
  by unfold_locales (auto simp: store_fragment_def Let_def split: if_splits bind_splits)

interpretation reset_queues: quiet_op enet_peer_reset_queues
  by unfold_locales (auto simp: enet_peer_reset_queues_def quiet_def Let_def split: if_splits bind_splits)

interpretation reset: quiet_op "enet_peer_reset m" for m
  by unfold_locales
    (auto simp: enet_peer_reset_def enet_peer_reset_queues_def reset_fields_def quiet_def Let_def split: if_splits bind_splits)

lemma queue_outgoing_quiet:
  assumes "enet_peer_queue_outgoing_command command packet offset len p ps = Some (r, p', ps')" and "quiet p"
  shows "quiet p'"
proof -
  obtain x rsn usn p1 where n: "next_sequence_numbers (p\<lparr>outgoingDataTotal := x\<rparr>) command = Some (rsn, usn, p1)"
      and p': "peer_state p' = peer_state p1" "sentReliableCommands p' = sentReliableCommands p1"
    using assms(1) by (auto simp: enet_peer_queue_outgoing_command_def Let_def split: bind_splits option.splits if_splits)
  show ?thesis using next_sequence_numbers_refs [OF n] p' assms(2) by (simp add: quiet_def)
qed

interpretation queue_outgoing: quiet_op "enet_peer_queue_outgoing_command command packet offset len"
  for command packet offset len
  by unfold_locales (rule queue_outgoing_quiet)

subsection \<open>The handlers\<close>

lemma keeps_quiet_packets [simp]: "keeps_quiet (w\<lparr>packets := ps\<rparr>) w' = keeps_quiet w w'"
  by (simp add: keeps_quiet_def)

lemma receive_packet_quiet: "receive_packet i command dat len flags w = Some w' \<Longrightarrow> keeps_quiet w w'"
  by (auto simp: receive_packet_def split: bind_splits
      dest!: queue_incoming.on_peer_quiet)

lemma update_received_quiet [intro, simp]: "keeps_quiet w (update_received f w)"
  by (simp add: update_received_def)

lemma connect_crc_quiet: "connect_crc_ok at command session w = (ok, w') \<Longrightarrow> peers (host w') = peers (host w)"
  by (auto simp: connect_crc_ok_def update_received_def Let_def split: if_splits)

definition accept_op :: "ENetHost \<Rightarrow> ENetProtocolConnect \<Rightarrow> ENetOutgoingCommand peer_op" where
  "accept_op h c p ps = (let p1 = accepted_peer h c p
     in enet_peer_queue_outgoing_command (verify_command h c p1) None 0 0 p1 ps)"

interpretation accept: quiet_op "accept_op h c" for h c
proof
  fix p ps r p' ps'
  assume op: "accept_op h c p ps = Some (r, p', ps')" and "quiet p"
  show "quiet p'"
    by (rule queue_outgoing_quiet [OF op [unfolded accept_op_def Let_def]]) (use \<open>quiet p\<close> in \<open>simp add: accepted_peer_def quiet_def\<close>)
qed

lemma handle_connect_quiet:
  assumes "enet_protocol_handle_connect at command c w = Some (r, w')"
  shows "keeps_quiet w w'"
proof -
  obtain ok w1 where ok: "connect_crc_ok at command (con_sessionID c) w = (ok, w1)" by fastforce
  have "keeps_quiet w1 w'"
    using assms ok accept.on_peer_quiet [of _ "host w1" c w1 _ w']
    by (auto simp: enet_protocol_handle_connect_def accept_op_def [abs_def] Let_def
        split: if_splits option.splits bind_splits)
  then show ?thesis using connect_crc_quiet [OF ok] by (auto intro: keeps_quiet_trans [OF keeps_quiet_same])
qed

lemma handle_send_quiet:
  "enet_protocol_handle_send_reliable i command srl n w = Some (r, m, w') \<Longrightarrow> keeps_quiet w w'"
  "enet_protocol_handle_send_unreliable i command sul n w = Some (r, m, w') \<Longrightarrow> keeps_quiet w w'"
  by (auto simp: enet_protocol_handle_send_reliable_def enet_protocol_handle_send_unreliable_def Let_def
      intro: receive_packet_quiet split: if_splits bind_splits)

lemma accept_unsequenced_quiet: "accept_unsequenced g p = Some p1 \<Longrightarrow> quiet p \<Longrightarrow> quiet p1"
  by (auto simp: accept_unsequenced_def quiet_def Let_def split: if_splits)

lemma handle_unsequenced_quiet:
  "enet_protocol_handle_send_unsequenced i command b n w = Some (r, m, w') \<Longrightarrow> keeps_quiet w w'"
  by (auto simp: enet_protocol_handle_send_unsequenced_def Let_def split: if_splits bind_splits option.splits
      intro: keeps_quiet_trans [OF put_quiet receive_packet_quiet] accept_unsequenced_quiet)

lemma handle_fragment_quiet:
  "enet_protocol_handle_send_fragment i command b n w = Some (r, m, w') \<Longrightarrow> keeps_quiet w w'"
  by (auto simp: enet_protocol_handle_send_fragment_def Let_def split: if_splits bind_splits option.splits
      dest!: store.on_peer_quiet queue_incoming.on_peer_quiet) (metis keeps_quiet_trans)

lemma handle_limits_quiet:
  "enet_protocol_handle_bandwidth_limit i bwl w = Some (r, w') \<Longrightarrow> keeps_quiet w w'"
  "enet_protocol_handle_throttle_configure i thr w = Some (r, w') \<Longrightarrow> keeps_quiet w w'"
  by (auto simp: enet_protocol_handle_bandwidth_limit_def enet_protocol_handle_throttle_configure_def Let_def
      split: bind_splits intro!: put_quiet) (simp_all add: quiet_def)

lemma reset_peer_quiet: "reset_peer i w = Some w' \<Longrightarrow> keeps_quiet w w'"
  by (auto simp: reset_peer_def intro: reset.on_peer_quiet)

lemma notify_connect_only: "enet_protocol_notify_connect i event w = Some (event', w') \<Longrightarrow> only i w w'"
  by (auto simp: enet_protocol_notify_connect_def only_def put_peer_def update_host_def Let_def
      split: bind_splits option.splits)

lemma notify_disconnect_only: "enet_protocol_notify_disconnect i event w = Some (event', w') \<Longrightarrow> only i w w'"
  by (auto simp: enet_protocol_notify_disconnect_def Let_def split: bind_splits option.splits if_splits
      dest!: only_reset) (auto simp: only_def)

lemma handle_disconnect_quiet:
  assumes "enet_protocol_handle_disconnect i command b w = Some (r, w')"
  shows "keeps_quiet w w'"
proof -
  obtain u w1 p w2 q where r: "on_peer i enet_peer_reset_queues w = Some (u, w1)" and p: "get_peer w1 i = Some p"
      and s: "keeps_quiet w1 w2" and q: "get_peer w2 i = Some q"
      and w': "w' = put_peer i (q\<lparr>disconnectData := ENET_NET_TO_HOST_32 (dis_data b)\<rparr>) w2"
  proof -
    obtain u w1 p w2 q where r: "on_peer i enet_peer_reset_queues w = Some (u, w1)" and p: "get_peer w1 i = Some p"
        and w2: "(if peer_state p = ENET_PEER_STATE_CONNECTION_SUCCEEDED
              then Some (put_peer i (p\<lparr>peer_state := ENET_PEER_STATE_ZOMBIE\<rparr>) w1)
              else if peer_state p \<noteq> ENET_PEER_STATE_CONNECTED \<and> peer_state p \<noteq> ENET_PEER_STATE_DISCONNECT_LATER
              then reset_peer i (if peer_state p = ENET_PEER_STATE_CONNECTION_PENDING
                     then update_host (\<lambda>h. h\<lparr>recalculateBandwidthLimits := True\<rparr>) w1 else w1)
              else if command_of command AND ENET_PROTOCOL_COMMAND_FLAG_ACKNOWLEDGE \<noteq> 0
              then Some (put_peer i (p\<lparr>peer_state := ENET_PEER_STATE_ACKNOWLEDGING_DISCONNECT\<rparr>) w1)
              else Some (put_peer i (p\<lparr>peer_state := ENET_PEER_STATE_ZOMBIE\<rparr>) w1)) = Some w2"
        and q: "get_peer w2 i = Some q"
        and w': "w' = put_peer i (q\<lparr>disconnectData := ENET_NET_TO_HOST_32 (dis_data b)\<rparr>) w2"
      using assms unfolding enet_protocol_handle_disconnect_def by (auto split: bind_splits)
    have "keeps_quiet w1 w2"
      using w2 by (auto split: if_splits dest!: reset_peer_quiet intro!: put_quiet [OF p]) (auto simp: quiet_def keeps_quiet_def)
    then show thesis using that r p q w' by blast
  qed
  have "keeps_quiet w2 w'" unfolding w' by (rule put_quiet [OF q]) (simp add: quiet_def)
  then show ?thesis using s reset_queues.on_peer_quiet [OF r] by (metis keeps_quiet_trans)
qed

text \<open>
  An acknowledgement finds nothing that has been sent to a quiet peer, so it neither connects nor
  disconnects it.
\<close>

definition acknowledge_op :: "u32 \<Rightarrow> u32 \<Rightarrow> u16 \<Rightarrow> u8 \<Rightarrow> u8 peer_op" where
  "acknowledge_op now rtt n channel = (\<lambda>p ps.
     (let p1 = snd (enet_peer_throttle (p\<lparr>lastReceiveTime := now, earliestTimeout := 0\<rparr>) rtt);
          p2 = update_round_trip now rtt p1
      in enet_protocol_remove_sent_reliable_command n channel p2 ps))"

lemma measured_quiet:
  "quiet (update_round_trip now rtt p) = quiet p" "quiet (snd (enet_peer_throttle p rtt)) = quiet p"
  "quiet (p\<lparr>lastReceiveTime := x, earliestTimeout := y\<rparr>) = quiet p"
  by (simp_all add: quiet_def update_round_trip_def enet_peer_throttle_def Let_def)

lemma remove_sent_quiet:
  assumes "quiet p"
  shows "enet_protocol_remove_sent_reliable_command n channel p ps = Some (ENET_PROTOCOL_COMMAND_NONE, p, ps)"
  using assms by (simp add: enet_protocol_remove_sent_reliable_command_def quiet_def)

lemma acknowledge_op_quiet:
  assumes "quiet p"
  shows "\<exists>p1. acknowledge_op now rtt n channel p ps = Some (ENET_PROTOCOL_COMMAND_NONE, p1, ps) \<and> quiet p1"
  unfolding acknowledge_op_def Let_def using assms by (subst remove_sent_quiet) (simp_all add: measured_quiet)

lemma disconnect_only: "enet_peer_disconnect (\<lambda>_. None) i dat w = Some w' \<Longrightarrow> only i w w'"
  by (auto simp: enet_peer_disconnect_def split: bind_splits if_splits dest!: only_on_peer elim: only_trans)

lemma handle_acknowledge_quiet:
  assumes "enet_protocol_handle_acknowledge event i command a w = Some (r, event', w')"
  shows "keeps_quiet w w'"
proof (cases "ENET_TIME_LESS (serviceTime (host w))
    (full_sent_time (serviceTime (host w)) (ENET_NET_TO_HOST_16 (ack_receivedSentTime a)))")
  case True
  then show ?thesis using assms by (simp add: enet_protocol_handle_acknowledge_def Let_def)
next
  case False
  let ?now = "serviceTime (host w)"
  let ?rtt = "ENET_TIME_DIFFERENCE ?now (full_sent_time ?now (ENET_NET_TO_HOST_16 (ack_receivedSentTime a)))"
  let ?op = "acknowledge_op ?now ?rtt (ENET_NET_TO_HOST_16 (ack_receivedReliableSequenceNumber a)) (channelID_of command)"
  from assms False obtain number w1 p1 where op: "on_peer i ?op w = Some (number, w1)" and p1: "get_peer w1 i = Some p1"
    and rest: "(if peer_state p1 = ENET_PEER_STATE_ACKNOWLEDGING_CONNECT then
         (if number \<noteq> ENET_PROTOCOL_COMMAND_VERIFY_CONNECT then Some (-1, event, w1)
          else do { (event1, w2) \<leftarrow> enet_protocol_notify_connect i event w1; Some (0, event1, w2) })
       else if peer_state p1 = ENET_PEER_STATE_DISCONNECTING then
         (if number \<noteq> ENET_PROTOCOL_COMMAND_DISCONNECT then Some (-1, event, w1)
          else do { (event1, w2) \<leftarrow> enet_protocol_notify_disconnect i event w1; Some (0, event1, w2) })
       else if disconnect_later_done p1 then
         do { w2 \<leftarrow> enet_peer_disconnect (\<lambda>_. None) i (disconnectData p1) w1; Some (0, event, w2) }
       else Some (0, event, w1)) = Some (r, event', w')"
    unfolding enet_protocol_handle_acknowledge_def acknowledge_op_def Let_def by (auto split: bind_splits)
  from op obtain p where p: "get_peer w i = Some p" by (auto simp: on_peer_def split: bind_splits)
  have only: "only i w w1" by (rule only_on_peer [OF op])
  have "only i w1 w'"
    using rest by (auto split: if_splits bind_splits dest: notify_connect_only notify_disconnect_only disconnect_only)
  note only' = only_trans [OF only this]
  show ?thesis
  proof (cases "quiet p")
    case True
    obtain q where q: "?op p (packets w) = Some (ENET_PROTOCOL_COMMAND_NONE, q, packets w)" "quiet q"
      using acknowledge_op_quiet [OF True] by blast
    then have "number = ENET_PROTOCOL_COMMAND_NONE" "p1 = q"
      using op p p1 by (auto simp: on_peer_def get_peer_Some)
    then have "w' = w1" "quiet p1" using rest q(2) by (auto simp: quiet_def disconnect_later_done_def)
    then show ?thesis by (intro only_quiet [OF only' p]) (simp add: p1)
  qed (rule only_loud [OF only' p])
qed

lemma handle_verify_quiet:
  assumes "enet_protocol_handle_verify_connect event i v w = Some (r, event', w')"
  shows "keeps_quiet w w'"
proof -
  obtain p where p: "get_peer w i = Some p" using assms by (auto simp: enet_protocol_handle_verify_connect_def split: bind_splits)
  have only: "only i w w'"
    using assms by (auto simp: enet_protocol_handle_verify_connect_def split: bind_splits if_splits
        dest!: only_on_peer notify_connect_only) (metis only_trans)
  show ?thesis
  proof (cases "peer_state p = ENET_PEER_STATE_CONNECTING")
    case True
    then show ?thesis by (intro only_loud [OF only p]) (simp add: quiet_def)
  next
    case False
    then show ?thesis using assms p by (simp add: enet_protocol_handle_verify_connect_def)
  qed
qed

subsection \<open>Datagrams\<close>

lemma handle_command_quiet:
  assumes "handle_command peer at n command event w = Some (r, k, peer', event', w')"
  shows "keeps_quiet w w'"
  using assms
  by (auto simp: handle_command_def split: protocol_body.splits option.splits bind_splits
      dest: handle_connect_quiet handle_send_quiet handle_unsequenced_quiet handle_fragment_quiet handle_limits_quiet
        handle_disconnect_quiet handle_acknowledge_quiet handle_verify_quiet)

lemma acknowledge_command_quiet: "acknowledge_command flags peer command w = Some (stop, w') \<Longrightarrow> keeps_quiet w w'"
  by (auto simp: acknowledge_command_def Let_def split: option.splits if_splits bind_splits intro!: put_quiet)
    (auto simp: enet_peer_queue_acknowledgement_def quiet_def)

lemma received_command_quiet:
  assumes "handle_command peer cur n command event (update_received f w) = Some (r, extra, peer1, event1, w2)"
  shows "keeps_quiet w w2"
  using handle_command_quiet [OF assms] by (metis keeps_quiet_trans update_received_quiet)

lemma command_loop_quiet: "command_loop len flags peer cur event w = Some (event', w') \<Longrightarrow> keeps_quiet w w'"
proof (induction rule: command_loop_induct)
  case (left peer cur n command event f w r extra peer1 event1 w2 w3)
  from left(2,3) show ?case
    by (rule keeps_quiet_trans [OF received_command_quiet acknowledge_command_quiet])
next
  case (more peer cur n command event f w r extra peer1 event1 w2 w3 w')
  from more(3,4) have "keeps_quiet w w3"
    by (rule keeps_quiet_trans [OF received_command_quiet acknowledge_command_quiet])
  then show ?case using more(5) by (rule keeps_quiet_trans)
qed (auto intro: received_command_quiet)

lemma identify_sender_quiet:
  assumes "identify_sender w = (r, w')"
  shows "keeps_quiet w w'"
proof (cases rule: identify_sender_cases [OF assms])
  case (2 i p ok)
  then show ?thesis using packet_crc_ok_same by blast
next
  case (3 i p w1 a n)
  have w1: "peers (host w1) = peers (host w)" using packet_crc_ok_same [OF 3(3)] by simp
  then have "keeps_quiet w1 w'"
    unfolding 3(4) by (intro put_quiet [of _ _ p]) (use 3(1,2) in \<open>simp_all add: get_peer_Some quiet_def\<close>)
  with w1 show ?thesis by (simp add: keeps_quiet_def)
qed simp

lemma handle_incoming_commands_quiet:
  assumes "enet_protocol_handle_incoming_commands event w = Some (r, event', w')"
  shows "keeps_quiet w w'"
proof -
  obtain s w1 where s: "identify_sender w = (s, w1)" by (cases "identify_sender w")
  consider "w' = w" | "w' = w1"
    | len flags peer cur event1 where "command_loop len flags peer cur event w1 = Some (event1, w')"
    using assms s by (cases s) (auto simp: enet_protocol_handle_incoming_commands_def Let_def split: if_splits bind_splits)
  then show ?thesis using identify_sender_quiet [OF s] command_loop_quiet keeps_quiet_trans by cases auto
qed

lemma receive_loop_quiet: "receive_loop n event w = Some (r, event', w') \<Longrightarrow> keeps_quiet w w'"
proof (induction n arbitrary: event w)
  case (Suc n)
  obtain len w1 where s: "enet_socket_receive w = (len, w1)" by (cases "enet_socket_receive w")
  let ?w = "update_host (\<lambda>h. h\<lparr>receivedDataLength := of_int len\<rparr>) w1"
  have w1: "peers (host w1) = peers (host w)" using socket_receive_load [OF s] by simp
  show ?case
  proof (cases "len \<le> 0")
    case True
    then have "w' = w1" using Suc.prems s by (auto split: if_splits)
    then show ?thesis using w1 by simp
  next
    case False
    obtain q event1 w2 where h: "enet_protocol_handle_incoming_commands event ?w = Some (q, event1, w2)"
      using Suc.prems s False by (auto split: bind_splits)
    have "keeps_quiet w w2" using handle_incoming_commands_quiet [OF h] w1 by (simp add: keeps_quiet_def)
    moreover have "w' = w2 \<or> receive_loop n event1 w2 = Some (r, event', w')"
      using Suc.prems s False h by (auto split: if_splits)
    ultimately show ?thesis using Suc.IH keeps_quiet_trans by blast
  qed
qed simp

text \<open>C8. The handshake cannot be skipped: a slot that is free, or that has asked to connect and has not
  been sent anything yet, is not connected by any sequence of datagrams, whatever bytes they hold, in
  whatever order commands are packed into them and from wherever they claim to come. Only after this host has
  sent its answer, to the address of the request, can an acknowledgement establish the connection.\<close>

theorem handshake_required:
  assumes "enet_protocol_receive_incoming_commands event w = Some (r, event', w')" and "get_peer w i = Some p"
    and "peer_state p = ENET_PEER_STATE_DISCONNECTED \<or> peer_state p = ENET_PEER_STATE_ACKNOWLEDGING_CONNECT"
    and "sentReliableCommands p = []"
  shows "\<exists>p'. get_peer w' i = Some p' \<and>
    (peer_state p' = ENET_PEER_STATE_DISCONNECTED \<or> peer_state p' = ENET_PEER_STATE_ACKNOWLEDGING_CONNECT) \<and>
    sentReliableCommands p' = []"
proof -
  have "keeps_quiet w w'"
    using assms(1) unfolding enet_protocol_receive_incoming_commands_def by (rule receive_loop_quiet)
  moreover have "i < peerCount (host w)" "p = peers (host w) ! i" using assms(2) by (simp_all add: get_peer_Some)
  moreover have "quiet p" using assms(3,4) by (simp add: quiet_def)
  ultimately have "i < peerCount (host w')" "quiet (peers (host w') ! i)"
    unfolding keeps_quiet_def by (auto dest: list_all2_lengthD list_all2_nthD)
  then show ?thesis by (auto simp: quiet_def get_peer_Some)
qed

text \<open>A datagram that requests a connection and goes on with an acknowledgement of the answer it guesses.\<close>

definition eager_datagram :: bytes where
  "eager_datagram = take 10 (image_of_header \<lparr>ph_checksum = 0,
       ph_peerID = ENET_HOST_TO_NET_16 ENET_PROTOCOL_MAXIMUM_PEER_ID, ph_protoMajor = 0,
       ph_protoMinor = 0, ph_flags = 0, ph_padding = 0, ph_sentTime = 0\<rparr>) @
     image_of_command (local_command ENET_PROTOCOL_COMMAND_CONNECT 0xFF
       (Connect \<lparr>con_outgoingPeerID = 0, con_mtu = ENET_HOST_TO_NET_16 1400,
          con_windowSize = ENET_HOST_TO_NET_32 32768, con_channelCount = ENET_HOST_TO_NET_32 1,
          con_incomingBandwidth = 0, con_outgoingBandwidth = 0, con_packetThrottleInterval = 0,
          con_packetThrottleAcceleration = 0, con_packetThrottleDeceleration = 0, con_sessionID = 5\<rparr>)) @
     image_of_command (local_command ENET_PROTOCOL_COMMAND_ACKNOWLEDGE 0xFF
       (Acknowledge \<lparr>ack_receivedReliableSequenceNumber = ENET_HOST_TO_NET_16 1, ack_receivedSentTime = 0\<rparr>))"

definition eager_world :: world where
  "eager_world = example_world\<lparr>inbox := [Datagram example_peer eager_datagram]\<rparr>"

lemma eager_received:
  "map_option (\<lambda>(r, event, w). map peer_state (peers (host w)))
     (enet_protocol_receive_incoming_commands (Some no_event) eager_world) = Some [ENET_PEER_STATE_ACKNOWLEDGING_CONNECT]"
  by code_simp

theorem handshake_required_witness:
  "\<exists>r event w p. enet_protocol_receive_incoming_commands (Some no_event) eager_world = Some (r, event, w) \<and>
     get_peer w 0 = Some p \<and> sentReliableCommands p = [] \<and> map peer_state (peers (host w)) = [ENET_PEER_STATE_ACKNOWLEDGING_CONNECT]"
proof -
  obtain r event w where e: "enet_protocol_receive_incoming_commands (Some no_event) eager_world = Some (r, event, w)"
      "map peer_state (peers (host w)) = [ENET_PEER_STATE_ACKNOWLEDGING_CONNECT]"
    using eager_received by auto
  have "get_peer eager_world 0 = Some (created_peer 0)"
    by (simp add: eager_world_def example_world_def example_host_def created_host_def get_peer_def)
  from handshake_required [OF e(1) this] e show ?thesis
    by (auto simp: created_peer_def emptied_def reset_fields_def)
qed

end
