(* ===== verification/Dispatch.thy ===== *)
theory Dispatch
  imports Runs
begin

text \<open>
  Dispatching events to the application: the \<open>do\<close> loop over the peers ends, and it reports nothing only
  when there is nothing to report.
\<close>

subsection \<open>What there is to report\<close>

text \<open>A channel has news if a call of \<open>enet_peer_receive\<close> would return a packet.\<close>

definition no_news :: "packet_store \<Rightarrow> ENetPeer \<Rightarrow> bool" where
  "no_news ps p \<longleftrightarrow>
     peer_state p \<noteq> ENET_PEER_STATE_CONNECTION_PENDING \<and> peer_state p \<noteq> ENET_PEER_STATE_CONNECTION_SUCCEEDED \<and>
     peer_state p \<noteq> ENET_PEER_STATE_ZOMBIE \<and>
     (peer_state p = ENET_PEER_STATE_CONNECTED \<longrightarrow>
        (\<forall>c < unat (channelCount p). enet_peer_receive (of_nat c) p ps = Some (None, p, ps)))"

lemma receive_returns:
  assumes "refs_inv w" and "get_peer w i = Some p" and "get_channel p c = Some ch"
  shows "\<exists>r p' ps'. enet_peer_receive c p (packets w) = Some (r, p', ps') \<and>
    (r = None \<longrightarrow> p' = p \<and> ps' = packets w)"
proof (cases "case receive_unreliable ch of None \<Rightarrow> receive_reliable ch | Some r \<Rightarrow> Some r")
  case None
  then show ?thesis using assms(3) by (simp add: enet_peer_receive_def)
next
  case (Some s)
  obtain ic ch1 where s: "s = (ic, ch1)" by (cases s)
  have p: "p \<in> set (peers (host w))" and ch: "ch \<in> set (channels p)"
    using assms(2,3) by (auto simp: get_peer_Some get_channel_def split: if_splits)
  have "ic \<in> set (incomingReliableCommands ch @ incomingUnreliableCommands ch)"
    using Some s by (auto simp: receive_unreliable_def receive_reliable_def Let_def split: option.splits list.splits if_splits)
  from incoming_packets [OF assms(1) p ch this] obtain q k where q: "ic_packet ic = Some q" "pheap (packets w) q = Some k"
    by auto
  then obtain ps1 where "take_packet ic (packets w) = Some (q, ps1)"
    by (auto simp: take_packet_def packet_drop_def packet_update_def)
  then show ?thesis using Some s assms(3) by (simp add: enet_peer_receive_def)
qed

lemma put_same: "get_peer w i = Some p \<Longrightarrow> (put_peer i p w)\<lparr>packets := packets w\<rparr> = w"
  by (simp add: put_peer_def get_peer_Some)

lemma dispatch_channels_returns:
  assumes "refs_inv w" and "get_peer w i = Some p" and "set cs \<subseteq> {..<unat (channelCount p)}"
  shows "\<exists>found ev' w'. dispatch_channels i cs ev w = Some (found, ev', w') \<and>
    (\<not> found \<longrightarrow> w' = w \<and> (\<forall>c \<in> set cs. enet_peer_receive (of_nat c) p (packets w) = Some (None, p, packets w)))"
  using assms(3)
proof (induction cs arbitrary: ev)
  case (Cons c cs)
  have wf: "channels_wf p" using assms(1,2) by (auto simp: refs_inv_def peer_wf_def get_peer_Some)
  have "unat (of_nat c :: u8) = c" using Cons.prems wf by (auto simp: channels_wf_def unat_of_nat take_bit_nat_eq_self)
  then obtain ch where ch: "get_channel p (of_nat c) = Some ch"
    using Cons.prems wf by (auto simp: get_channel_def channels_wf_def)
  show ?case
  proof (cases "incomingReliableCommands ch = [] \<and> incomingUnreliableCommands ch = []")
    case True
    then have "enet_peer_receive (of_nat c) p (packets w) = Some (None, p, packets w)"
      using ch by (simp add: enet_peer_receive_def receive_unreliable_def receive_reliable_def)
    then show ?thesis using Cons.IH [of ev] Cons.prems assms(2) ch True by auto
  next
    case False
    obtain r p' ps' where r: "enet_peer_receive (of_nat c) p (packets w) = Some (r, p', ps')"
        "r = None \<longrightarrow> p' = p \<and> ps' = packets w"
      using receive_returns [OF assms(1,2) ch] by blast
    have o: "on_peer i (enet_peer_receive (of_nat c)) w = Some (r, (put_peer i p' w)\<lparr>packets := ps'\<rparr>)"
      using r(1) assms(2) by (simp add: on_peer_def)
    show ?thesis
    proof (cases r)
      case None
      then have "on_peer i (enet_peer_receive (of_nat c)) w = Some (None, w)"
        using o r(2) put_same [OF assms(2)] by simp
      then show ?thesis using Cons.IH [of "ev\<lparr>event_packet := None\<rparr>"] Cons.prems assms(2) ch False r None by auto
    next
      case (Some q)
      have "dispatch_channels i (c # cs) ev w = Some (True, ev\<lparr>event_packet := r, event_type := ENET_EVENT_TYPE_RECEIVE,
          event_peer := Some i, event_channelID := of_nat c\<rparr>, (put_peer i p' w)\<lparr>packets := ps'\<rparr>)"
        using o assms(2) ch False Some by auto
      then show ?thesis by blast
    qed
  qed
qed auto

lemma reset_peer_returns:
  assumes "refs_inv w" and "get_peer w i = Some p"
  shows "\<exists>w'. reset_peer i w = Some w'"
proof -
  let ?m = "host_mtu (host w)" and ?R = "\<Sum>p \<in># mset (peers (host w)) - {#peers (host w) ! i#}. peer_refs p"
  have i: "i < length (peers (host w))" "p = peers (host w) ! i" using assms(2) by (simp_all add: get_peer_Some)
  have "counts_agree (packets w) (peer_refs (reset_fields ?m p) + ?R)"
    using assms(1) world_refs_split [OF i(1)] i(2) by (simp add: refs_inv_def)
  moreover have "channels_wf (reset_fields ?m p)" using assms(1) i by (auto simp: refs_inv_def peer_wf_def)
  ultimately obtain ps' where "enet_peer_reset ?m p (packets w) = Some ((), emptied (reset_fields ?m p), ps')"
    using reset_queues_releases [of "reset_fields ?m p" "packets w" ?R] by (auto simp: enet_peer_reset_def)
  then show ?thesis using assms(2) by (auto simp: reset_peer_def on_peer_def)
qed

subsection \<open>The loop over the peers\<close>

text \<open>\<open>k\<close> is the number of rounds until the loop comes to the peer that was serviced last.\<close>

lemma dispatch_loop_returns:
  assumes "refs_inv w" and "current < peerCount (host w)" and "0 < k" and "k \<le> peerCount (host w)"
    and "(current + k) mod peerCount (host w) = lastServicedPeer (host w)"
  shows "\<exists>r ev' w'. dispatch_loop current ev w = Some (r, ev', w') \<and> (r = 0 \<or> r = 1) \<and>
    (r = 0 \<longrightarrow> w' = w \<and> (\<forall>j < k. no_news (packets w) (peers (host w) ! ((current + Suc j) mod peerCount (host w)))))"
  using assms(2-5)
proof (induction k arbitrary: current ev)
  case (Suc k)
  let ?n = "peerCount (host w)" 
  define c where "c = (if Suc current \<ge> ?n then 0 else Suc current)"
  have c: "c < ?n" "c = Suc current mod ?n"
  proof -
    have "Suc current < ?n \<or> ?n = Suc current" using Suc.prems(1) by linarith
    then show "c < ?n" "c = Suc current mod ?n" by (auto simp: c_def)
  qed
  define p where "p = peers (host w) ! c"
  have p: "get_peer w c = Some p" using c(1) by (simp only: get_peer_Some p_def)
  have c1: "(current + Suc 0) mod ?n = c" using c(2) by simp
  note step = dispatch_loop.simps [of current ev w, unfolded Let_def, folded c_def, unfolded p bind.bind_lunit]
  let ?news = "peer_state p = ENET_PEER_STATE_CONNECTION_PENDING \<or> peer_state p = ENET_PEER_STATE_CONNECTION_SUCCEEDED"
  let ?zombie = "peer_state p = ENET_PEER_STATE_ZOMBIE"
  show ?case
  proof (cases "?news \<or> ?zombie")
    case True
    let ?w = "update_host (\<lambda>h. h\<lparr>recalculateBandwidthLimits := True\<rparr>) w"
    have "refs_inv ?w" "get_peer ?w c = Some p"
      using assms(1) p by (simp_all add: refs_inv_def host_ok_def world_refs_def get_peer_Some)
    then obtain w1 where "reset_peer c ?w = Some w1" using reset_peer_returns by blast
    then show ?thesis using step True by auto
  next
    case False
    obtain found ev1 w1 where d: "(if peer_state p = ENET_PEER_STATE_CONNECTED
          then dispatch_channels c [0..<unat (channelCount p)] ev w else Some (False, ev, w)) = Some (found, ev1, w1)"
        and quiet: "\<not> found \<longrightarrow> w1 = w \<and> no_news (packets w) p"
    proof (cases "peer_state p = ENET_PEER_STATE_CONNECTED")
      case True
      from dispatch_channels_returns [OF assms(1) p, of "[0..<unat (channelCount p)]" ev] obtain found ev' w'
        where "dispatch_channels c [0..<unat (channelCount p)] ev w = Some (found, ev', w')"
          "\<not> found \<longrightarrow> w' = w \<and> (\<forall>c < unat (channelCount p). enet_peer_receive (of_nat c) p (packets w) = Some (None, p, packets w))"
        by (auto simp: atLeast0LessThan)
      then show thesis using True by (intro that [of found ev' w']) (simp_all add: no_news_def)
    next
      case no: False
      then show thesis using False by (intro that [of False ev w]) (simp_all add: no_news_def)
    qed
    show ?thesis
    proof (cases found)
      case True
      then show ?thesis using step False d by auto
    next
      case none: False
      then have w1: "w1 = w" and n1: "no_news (packets w) p" using quiet by simp_all
      from none d have d': "(if peer_state p = ENET_PEER_STATE_CONNECTED
          then dispatch_channels c [0..<unat (channelCount p)] ev w else Some (False, ev, w)) = Some (False, ev1, w)"
        unfolding w1 by simp
      show ?thesis
      proof (cases "c = lastServicedPeer (host w)")
        case True
        then have "dispatch_loop current ev w = Some (0, ev1, w)" using step False d' by simp
        moreover have "k = 0"
        proof -
          have "(c + k) mod ?n = (current + Suc k) mod ?n" unfolding c(2) by (simp add: mod_simps)
          then have "(c + k) mod ?n = c" "k < ?n" using Suc.prems(3,4) True by simp_all
          then show "k = 0" using c(1) by (auto simp: mod_if split: if_splits)
        qed
        ultimately show ?thesis using n1 c1 p_def by simp
      next
        case more: False
        then have rec: "dispatch_loop current ev w = dispatch_loop c ev1 w" using step False d' by simp
        have "k \<noteq> 0"
        proof
          assume "k = 0"
          then show False using more Suc.prems(4) c1 by simp
        qed
        moreover have m: "(c + j) mod ?n = (current + Suc j) mod ?n" for j unfolding c(2) by (simp add: mod_simps)
        ultimately obtain r ev' w' where r: "dispatch_loop c ev1 w = Some (r, ev', w')" "r = 0 \<or> r = 1"
            "r = 0 \<longrightarrow> w' = w \<and> (\<forall>j < k. no_news (packets w) (peers (host w) ! ((c + Suc j) mod ?n)))"
          using Suc.IH [OF c(1), of ev1] Suc.prems(3,4) by auto
        have "\<forall>j < Suc k. no_news (packets w) (peers (host w) ! ((current + Suc j) mod ?n))" if "r = 0"
        proof (intro allI impI)
          fix j assume j: "j < Suc k"
          show "no_news (packets w) (peers (host w) ! ((current + Suc j) mod ?n))"
          proof (cases j)
            case 0
            then show ?thesis using n1 unfolding p_def c1 [symmetric] by simp
          next
            case (Suc i)
            then have "no_news (packets w) (peers (host w) ! ((c + Suc i) mod ?n))" using r(3) that j by auto
            then show ?thesis unfolding m Suc .
          qed
        qed
        then show ?thesis using rec r by auto
      qed
    qed
  qed
qed simp

text \<open>C7. Dispatching ends: in every state a program can reach with at least one peer, the \<open>do\<close> loop over the
  peers returns, with 0 or 1. It returns 0, and has changed nothing, only if no peer has anything
  to report: none has connected or disconnected unreported, and no channel of a connected peer has a packet
  that may be received.\<close>

theorem dispatch_returns:
  assumes "enet_host_create memory True address n inc out (packets w0) = Some (Some (host w0), ps)"
    and "\<forall>q k. pheap (packets w0) q = Some k \<longrightarrow> referenceCount k = 0 \<and> q < pnext (packets w0)"
    and "runs g w0 w" and "pending_bytes (inbox w0) + g < 2 ^ 63" and "peers (host w) \<noteq> []"
  shows "\<exists>r ev' w'. enet_protocol_dispatch_incoming_commands ev w = Some (r, ev', w') \<and> (r = 0 \<or> r = 1) \<and>
    (r = 0 \<longrightarrow> w' = w \<and> (\<forall>p \<in> set (peers (host w)).
       peer_state p \<notin> {ENET_PEER_STATE_CONNECTION_PENDING, ENET_PEER_STATE_CONNECTION_SUCCEEDED, ENET_PEER_STATE_ZOMBIE} \<and>
       (peer_state p = ENET_PEER_STATE_CONNECTED \<longrightarrow>
          (\<forall>c < unat (channelCount p). enet_peer_receive (of_nat c) p (packets w) = Some (None, p, packets w)))))"
proof -
  let ?n = "peerCount (host w)" and ?l = "lastServicedPeer (host w)"
  have inv: "refs_inv w" by (rule reachable_refs_inv [OF assms(1-4)])
  then have l: "?l < ?n" using assms(5) by (simp add: refs_inv_def host_ok_def)
  then have "(?l + ?n) mod ?n = ?l" and n: "0 < ?n" using assms(5) by simp_all
  from dispatch_loop_returns [OF inv l n order_refl this(1), of ev] obtain r ev' w' where
      d: "dispatch_loop ?l ev w = Some (r, ev', w')" "r = 0 \<or> r = 1" and
      no: "r = 0 \<longrightarrow> w' = w \<and> (\<forall>j < ?n. no_news (packets w) (peers (host w) ! ((?l + Suc j) mod ?n)))"
    by blast
  have "\<exists>j < ?n. (?l + Suc j) mod ?n = i" if "i < ?n" for i
  proof (intro exI conjI)
    show "(i + ?n - Suc ?l) mod ?n < ?n" using n by (rule mod_less_divisor)
    have "(?l + Suc ((i + ?n - Suc ?l) mod ?n)) mod ?n = (Suc ?l + (i + ?n - Suc ?l) mod ?n) mod ?n" by simp
    also have "\<dots> = (Suc ?l + (i + ?n - Suc ?l)) mod ?n" by (rule mod_add_right_eq)
    also have "Suc ?l + (i + ?n - Suc ?l) = i + ?n" using l by simp
    finally show "(?l + Suc ((i + ?n - Suc ?l) mod ?n)) mod ?n = i" using that by simp
  qed
  then have "\<forall>p \<in> set (peers (host w)). no_news (packets w) p" if "r = 0"
    using no that by (metis in_set_conv_nth)
  then show ?thesis using d no by (auto simp: enet_protocol_dispatch_incoming_commands_def no_news_def)
qed

theorem dispatch_returns_witness:
  "\<exists>w r ev w'. runs (46 + 2 ^ 32) example_world w \<and>
     enet_protocol_dispatch_incoming_commands no_event w = Some (r, ev, w') \<and> (r = 0 \<or> r = 1)"
proof -
  obtain w where w: "runs (46 + 2 ^ 32) example_world w" "map_option referenceCount (pheap (packets w) 0) = Some 1"
    using example_runs by blast
  then obtain k where "pheap (packets w) 0 = Some k" "referenceCount k = 1" by auto
  with reachable_refs_inv [OF example_world_created example_fresh w(1) example_bound]
  have "peers (host w) \<noteq> []" by (auto simp: refs_inv_def world_refs_def dest: counts_agreeD(2))
  from dispatch_returns [OF example_world_created example_fresh w(1) example_bound this, of no_event] w(1)
  show ?thesis by blast
qed

end
