(* ===== verification/Rijndael.thy ===== *)
theory Rijndael
  imports AesTables
begin

text \<open>
  The AES cipher of \<open>dll_src/crypt/src/rijndael-alg-fst.cpp\<close>: the two key schedules, encryption and
  decryption of a block in the looping and in the unrolled form, and the functions that run only some
  of the rounds. An array that is read is a list, and reading beyond it is \<open>None\<close>; a schedule or a block that is
  written comes back as the list of what has been written. \<open>Nr\<close> and \<open>keyBits\<close> are natural numbers.
\<close>

unbundle bit_operations_syntax

subsection \<open>Words and bytes\<close>

definition GETU32 :: "bytes \<Rightarrow> nat \<Rightarrow> u32" where
  "GETU32 pt i = push_bit 24 (ucast (pt ! i)) XOR push_bit 16 (ucast (pt ! (i + 1))) XOR
     push_bit 8 (ucast (pt ! (i + 2))) XOR ucast (pt ! (i + 3))"

definition PUTU32 :: "u32 \<Rightarrow> bytes" where
  "PUTU32 st = [ucast (drop_bit 24 st), ucast (drop_bit 16 st), ucast (drop_bit 8 st), ucast st]"

text \<open>
  The entry of a table for the byte of a word that begins at bit \<open>k\<close>. For \<open>k = 24\<close> the code leaves the mask
  out, which makes no difference.
\<close>

definition entry :: "u32 list \<Rightarrow> nat \<Rightarrow> u32 \<Rightarrow> u32" where
  "entry t k s = t ! unat (drop_bit k s AND 0xff)"

text \<open>The S-box on four words, one byte of each, and the tables that mix the columns as well.\<close>

definition substitute :: "u32 list \<Rightarrow> u32 \<Rightarrow> u32 \<Rightarrow> u32 \<Rightarrow> u32 \<Rightarrow> u32" where
  "substitute t a b c d = (entry t 24 a AND 0xff000000) XOR (entry t 16 b AND 0x00ff0000) XOR
     (entry t 8 c AND 0x0000ff00) XOR (entry t 0 d AND 0x000000ff)"

definition Te_column :: "u32 \<Rightarrow> u32 \<Rightarrow> u32 \<Rightarrow> u32 \<Rightarrow> u32" where
  "Te_column a b c d = entry Te0 24 a XOR entry Te1 16 b XOR entry Te2 8 c XOR entry Te3 0 d"

definition Td_column :: "u32 \<Rightarrow> u32 \<Rightarrow> u32 \<Rightarrow> u32 \<Rightarrow> u32" where
  "Td_column a b c d = entry Td0 24 a XOR entry Td1 16 b XOR entry Td2 8 c XOR entry Td3 0 d"

subsection \<open>Key schedules\<close>

text \<open>
  One round of the loops: the last words of the schedule so far are those that the moving pointer \<open>rk\<close>
  points at. The long schedules end in the middle of their last round.
\<close>

definition rotated :: "u32 \<Rightarrow> u32" where
  "rotated temp = (entry Te4 16 temp AND 0xff000000) XOR (entry Te4 8 temp AND 0x00ff0000) XOR
     (entry Te4 0 temp AND 0x0000ff00) XOR (entry Te4 24 temp AND 0x000000ff)"

definition expand_128 :: "nat \<Rightarrow> u32 list \<Rightarrow> u32 list" where
  "expand_128 i w =
    (let rk = drop (length w - 4) w;
         rk4 = rk ! 0 XOR rotated (rk ! 3) XOR rcon ! i;
         rk5 = rk ! 1 XOR rk4;
         rk6 = rk ! 2 XOR rk5;
         rk7 = rk ! 3 XOR rk6
     in w @ [rk4, rk5, rk6, rk7])"

definition expand_192 :: "nat \<Rightarrow> u32 list \<Rightarrow> u32 list" where
  "expand_192 i w =
    (let rk = drop (length w - 6) w;
         rk6 = rk ! 0 XOR rotated (rk ! 5) XOR rcon ! i;
         rk7 = rk ! 1 XOR rk6;
         rk8 = rk ! 2 XOR rk7;
         rk9 = rk ! 3 XOR rk8
     in if i + 1 = 8 then w @ [rk6, rk7, rk8, rk9]
        else let rk10 = rk ! 4 XOR rk9; rk11 = rk ! 5 XOR rk10
             in w @ [rk6, rk7, rk8, rk9, rk10, rk11])"

definition expand_256 :: "nat \<Rightarrow> u32 list \<Rightarrow> u32 list" where
  "expand_256 i w =
    (let rk = drop (length w - 8) w;
         rk8 = rk ! 0 XOR rotated (rk ! 7) XOR rcon ! i;
         rk9 = rk ! 1 XOR rk8;
         rk10 = rk ! 2 XOR rk9;
         rk11 = rk ! 3 XOR rk10
     in if i + 1 = 7 then w @ [rk8, rk9, rk10, rk11]
        else let rk12 = rk ! 4 XOR substitute Te4 rk11 rk11 rk11 rk11;
                 rk13 = rk ! 5 XOR rk12;
                 rk14 = rk ! 6 XOR rk13;
                 rk15 = rk ! 7 XOR rk14
             in w @ [rk8, rk9, rk10, rk11, rk12, rk13, rk14, rk15])"

definition key_words :: "bytes \<Rightarrow> nat \<Rightarrow> u32 list" where
  "key_words cipherKey n = map (\<lambda>i. GETU32 cipherKey (4 * i)) [0..<n]"

text \<open>The number of rounds, 0 for a length of the key that does not exist, and the schedule.\<close>

definition rijndaelKeySetupEnc :: "bytes \<Rightarrow> nat \<Rightarrow> (nat \<times> u32 list) option" where
  "rijndaelKeySetupEnc cipherKey keyBits =
    (if length cipherKey < 16 then None
     else if keyBits = 128 then Some (10, fold expand_128 [0..<10] (key_words cipherKey 4))
     else if length cipherKey < 24 then None
     else if keyBits = 192 then Some (12, fold expand_192 [0..<8] (key_words cipherKey 6))
     else if length cipherKey < 32 then None
     else if keyBits = 256 then Some (14, fold expand_256 [0..<7] (key_words cipherKey 8))
     else Some (0, key_words cipherKey 8))"

text \<open>Inverting the order of the round keys by swaps from both ends.\<close>

definition swap_words :: "nat \<Rightarrow> nat \<Rightarrow> u32 list \<Rightarrow> u32 list" where
  "swap_words i j rk = rk[i := rk ! j, j := rk ! i]"

function swap_keys :: "nat \<Rightarrow> nat \<Rightarrow> u32 list \<Rightarrow> u32 list" where
  "swap_keys i j rk =
    (if i < j then swap_keys (i + 4) (j - 4)
       (swap_words (i + 3) (j + 3) (swap_words (i + 2) (j + 2) (swap_words (i + 1) (j + 1) (swap_words i j rk))))
     else rk)"
  by pat_completeness auto
termination by (relation "measure (\<lambda>(i, j, rk). j - i)") auto

declare swap_keys.simps [simp del]

definition unmix_word :: "u32 \<Rightarrow> u32" where
  "unmix_word w = Td0 ! unat (entry Te4 24 w AND 0xff) XOR Td1 ! unat (entry Te4 16 w AND 0xff) XOR
     Td2 ! unat (entry Te4 8 w AND 0xff) XOR Td3 ! unat (entry Te4 0 w AND 0xff)"

definition rijndaelKeySetupDec :: "bytes \<Rightarrow> nat \<Rightarrow> (nat \<times> u32 list) option" where
  "rijndaelKeySetupDec cipherKey keyBits = do {
     (Nr, w) \<leftarrow> rijndaelKeySetupEnc cipherKey keyBits;
     let rk = swap_keys 0 (4 * Nr) w;
     Some (Nr, map (\<lambda>i. if 4 \<le> i \<and> i < 4 * Nr then unmix_word (rk ! i) else rk ! i) [0..<length rk]) }"

subsection \<open>Blocks\<close>

type_synonym state = "u32 \<times> u32 \<times> u32 \<times> u32"

definition load_block :: "bytes \<Rightarrow> u32 list \<Rightarrow> state" where
  "load_block pt rk = (GETU32 pt 0 XOR rk ! 0, GETU32 pt 4 XOR rk ! 1, GETU32 pt 8 XOR rk ! 2, GETU32 pt 12 XOR rk ! 3)"

definition store_block :: "state \<Rightarrow> bytes" where
  "store_block = (\<lambda>(s0, s1, s2, s3). PUTU32 s0 @ PUTU32 s1 @ PUTU32 s2 @ PUTU32 s3)"

text \<open>A round with the key at position \<open>j\<close> of \<open>rk\<close>, and the last one.\<close>

definition enc_round :: "u32 list \<Rightarrow> nat \<Rightarrow> state \<Rightarrow> state" where
  "enc_round rk j = (\<lambda>(s0, s1, s2, s3).
     (Te_column s0 s1 s2 s3 XOR rk ! j, Te_column s1 s2 s3 s0 XOR rk ! (j + 1),
      Te_column s2 s3 s0 s1 XOR rk ! (j + 2), Te_column s3 s0 s1 s2 XOR rk ! (j + 3)))"

definition enc_last :: "u32 list \<Rightarrow> state \<Rightarrow> state" where
  "enc_last rk = (\<lambda>(t0, t1, t2, t3).
     (substitute Te4 t0 t1 t2 t3 XOR rk ! 0, substitute Te4 t1 t2 t3 t0 XOR rk ! 1,
      substitute Te4 t2 t3 t0 t1 XOR rk ! 2, substitute Te4 t3 t0 t1 t2 XOR rk ! 3))"

definition dec_round :: "u32 list \<Rightarrow> nat \<Rightarrow> state \<Rightarrow> state" where
  "dec_round rk j = (\<lambda>(s0, s1, s2, s3).
     (Td_column s0 s3 s2 s1 XOR rk ! j, Td_column s1 s0 s3 s2 XOR rk ! (j + 1),
      Td_column s2 s1 s0 s3 XOR rk ! (j + 2), Td_column s3 s2 s1 s0 XOR rk ! (j + 3)))"

definition dec_last :: "u32 list \<Rightarrow> state \<Rightarrow> state" where
  "dec_last rk = (\<lambda>(t0, t1, t2, t3).
     (substitute Td4 t0 t3 t2 t1 XOR rk ! 0, substitute Td4 t1 t0 t3 t2 XOR rk ! 1,
      substitute Td4 t2 t1 t0 t3 XOR rk ! 2, substitute Td4 t3 t2 t1 t0 XOR rk ! 3))"

text \<open>
  The loop of full rounds, two for each \<open>r\<close> but one for the last; \<open>rk\<close> moves by eight words. From 0 the
  counter would run below zero, and \<open>rk\<close> out of the schedule.
\<close>

fun round_loop :: "(u32 list \<Rightarrow> nat \<Rightarrow> state \<Rightarrow> state) \<Rightarrow> u32 list \<Rightarrow> nat \<Rightarrow> state \<Rightarrow> (u32 list \<times> state) option" where
  "round_loop rnd rk 0 s = None"
| "round_loop rnd rk (Suc r) s =
    (let t = rnd rk 4 s; rk' = drop 8 rk
     in if r = 0 then Some (rk', t) else round_loop rnd rk' r (rnd rk' 0 t))"

definition rijndaelEncrypt :: "u32 list \<Rightarrow> nat \<Rightarrow> bytes \<Rightarrow> bytes option" where
  "rijndaelEncrypt rk Nr pt =
    (if length rk < 4 * (Nr + 1) \<or> length pt < 16 then None
     else do {
       (rk', t) \<leftarrow> round_loop enc_round rk (Nr div 2) (load_block pt rk);
       Some (store_block (enc_last rk' t)) })"

definition rijndaelDecrypt :: "u32 list \<Rightarrow> nat \<Rightarrow> bytes \<Rightarrow> bytes option" where
  "rijndaelDecrypt rk Nr ct =
    (if length rk < 4 * (Nr + 1) \<or> length ct < 16 then None
     else do {
       (rk', t) \<leftarrow> round_loop dec_round rk (Nr div 2) (load_block ct rk);
       Some (store_block (dec_last rk' t)) })"

text \<open>The same with \<open>FULL_UNROLL\<close>: nine rounds, two more for \<open>Nr\<close> above 10, and two more above 12.\<close>

definition unrolled_rounds :: "(u32 list \<Rightarrow> nat \<Rightarrow> state \<Rightarrow> state) \<Rightarrow> u32 list \<Rightarrow> nat \<Rightarrow> state \<Rightarrow> state" where
  "unrolled_rounds rnd rk Nr s0 =
    (let s1 = rnd rk 4 s0; s2 = rnd rk 8 s1; s3 = rnd rk 12 s2; s4 = rnd rk 16 s3; s5 = rnd rk 20 s4;
         s6 = rnd rk 24 s5; s7 = rnd rk 28 s6; s8 = rnd rk 32 s7; s9 = rnd rk 36 s8
     in if Nr > 10
        then (let s10 = rnd rk 40 s9; s11 = rnd rk 44 s10
              in if Nr > 12 then rnd rk 52 (rnd rk 48 s11) else s11)
        else s9)"

definition unrolled_length :: "nat \<Rightarrow> nat" where
  "unrolled_length Nr = max (4 * (Nr + 1)) (if Nr > 12 then 56 else if Nr > 10 then 48 else 40)"

definition rijndaelEncrypt_unrolled :: "u32 list \<Rightarrow> nat \<Rightarrow> bytes \<Rightarrow> bytes option" where
  "rijndaelEncrypt_unrolled rk Nr pt =
    (if length rk < unrolled_length Nr \<or> length pt < 16 then None
     else Some (store_block (enc_last (drop (4 * Nr) rk) (unrolled_rounds enc_round rk Nr (load_block pt rk)))))"

definition rijndaelDecrypt_unrolled :: "u32 list \<Rightarrow> nat \<Rightarrow> bytes \<Rightarrow> bytes option" where
  "rijndaelDecrypt_unrolled rk Nr ct =
    (if length rk < unrolled_length Nr \<or> length ct < 16 then None
     else Some (store_block (dec_last (drop (4 * Nr) rk) (unrolled_rounds dec_round rk Nr (load_block ct rk)))))"

subsection \<open>Some of the rounds\<close>

text \<open>For the known answer test of intermediate values (\<open>INTERMEDIATE_VALUE_KAT\<close>).\<close>

fun some_rounds :: "(u32 list \<Rightarrow> nat \<Rightarrow> state \<Rightarrow> state) \<Rightarrow> u32 list \<Rightarrow> nat \<Rightarrow> state \<Rightarrow> u32 list \<times> state" where
  "some_rounds rnd rk 0 s = (rk, s)"
| "some_rounds rnd rk (Suc r) s = some_rounds rnd (drop 4 rk) r (rnd rk 0 s)"

definition rijndaelEncryptRound :: "u32 list \<Rightarrow> nat \<Rightarrow> bytes \<Rightarrow> nat \<Rightarrow> bytes option" where
  "rijndaelEncryptRound rk Nr block rounds =
    (if length rk < 4 * (Nr + 1) \<or> length block < 16 then None
     else
      (let (rk', s) = some_rounds enc_round (drop 4 rk) (if rounds < Nr then rounds else Nr - 1) (load_block block rk)
       in Some (store_block (if rounds = Nr then enc_last rk' s else s))))"

definition unkeyed :: "u32 list" where
  "unkeyed = [0, 0, 0, 0]"

definition rijndaelDecryptRound :: "u32 list \<Rightarrow> nat \<Rightarrow> bytes \<Rightarrow> nat \<Rightarrow> bytes option" where
  "rijndaelDecryptRound rk Nr block rounds =
    (if length rk < 4 * (Nr + 1) \<or> length block < 16 then None
     else
      (let (rk', s) = some_rounds dec_round (drop 4 rk) ((if rounds < Nr then rounds else Nr) - 1) (load_block block rk)
       in Some (store_block (dec_last (if rounds = Nr then rk' else unkeyed) s))))"

end
