(* ===== verification/AesApi.thy ===== *)
theory AesApi
  imports Rijndael
begin

text \<open>
  The keys and modes of \<open>dll_src/crypt/src/rijndael-api-fst.cpp\<close>: keys from memory and from hexadecimal
  text, and the encryption and decryption of whole blocks (ECB, CBC and CFB with one bit) and of padded
  octets. A pointer that may be \<open>NULL\<close> is an option. A function returns its code, the octets it has
  written to \<open>outBuffer\<close> and the cipher, or \<open>None\<close> where it would read outside of an array, pass a number
  of rounds that no key has, or overflow an \<open>int\<close>. The words that the code XORs are the same four bytes on either
  byte order. The output may be the input buffer itself, except for CFB1: a block is read before it is written.
\<close>

subsection \<open>Constants\<close>

abbreviation (input) DIR_ENCRYPT :: u8 where "DIR_ENCRYPT \<equiv> 0"
abbreviation (input) DIR_DECRYPT :: u8 where "DIR_DECRYPT \<equiv> 1"
abbreviation (input) MODE_ECB :: u8 where "MODE_ECB \<equiv> 1"
abbreviation (input) MODE_CBC :: u8 where "MODE_CBC \<equiv> 2"
abbreviation (input) MODE_CFB1 :: u8 where "MODE_CFB1 \<equiv> 3"
abbreviation (input) BAD_KEY_DIR :: int where "BAD_KEY_DIR \<equiv> - 1"
abbreviation (input) BAD_KEY_MAT :: int where "BAD_KEY_MAT \<equiv> - 2"
abbreviation (input) BAD_KEY_INSTANCE :: int where "BAD_KEY_INSTANCE \<equiv> - 3"
abbreviation (input) BAD_CIPHER_MODE :: int where "BAD_CIPHER_MODE \<equiv> - 4"
abbreviation (input) BAD_CIPHER_STATE :: int where "BAD_CIPHER_STATE \<equiv> - 5"
abbreviation (input) BAD_CIPHER_INSTANCE :: int where "BAD_CIPHER_INSTANCE \<equiv> - 7"
abbreviation (input) BAD_DATA :: int where "BAD_DATA \<equiv> - 8"
abbreviation (input) BAD_PADBYTES :: int where "BAD_PADBYTES \<equiv> - 10"
abbreviation (input) MAXKB :: nat where "MAXKB \<equiv> 32"
abbreviation (input) MAXNR :: nat where "MAXNR \<equiv> 14"
abbreviation (input) MAX_KEY_SIZE :: nat where "MAX_KEY_SIZE \<equiv> 64"
abbreviation (input) MAX_IV_SIZE :: nat where "MAX_IV_SIZE \<equiv> 16"

subsection \<open>Keys\<close>

record keyInstance =
  key_direction :: u8
  key_keyLen :: int
  key_keyMaterial :: bytes
  key_Nr :: nat
  key_rk :: "u32 list"
  key_ek :: "u32 list"

record cipherInstance =
  cipher_mode :: u8
  cipher_IV :: bytes

text \<open>The sizes of the arrays in the structures.\<close>

definition key_wf :: "keyInstance \<Rightarrow> bool" where
  "key_wf k \<longleftrightarrow> length (key_keyMaterial k) = MAX_KEY_SIZE + 1 \<and> length (key_rk k) = 4 * (MAXNR + 1) \<and>
     length (key_ek k) = 4 * (MAXNR + 1)"

definition cipher_wf :: "cipherInstance \<Rightarrow> bool" where
  "cipher_wf c \<longleftrightarrow> length (cipher_IV c) = MAX_IV_SIZE"

text \<open>The end of both functions that make a key: the two schedules, over what the arrays held before.\<close>

definition set_schedules :: "keyInstance \<Rightarrow> u8 \<Rightarrow> int \<Rightarrow> bytes \<Rightarrow> (int \<times> keyInstance option) option" where
  "set_schedules key direction keyLen cipherKey = do {
     (Nr, w) \<leftarrow> (if direction = DIR_ENCRYPT then rijndaelKeySetupEnc cipherKey (nat keyLen)
                 else rijndaelKeySetupDec cipherKey (nat keyLen));
     rk \<leftarrow> memcpy (key_rk key) 0 w (length w);
     (_, e) \<leftarrow> rijndaelKeySetupEnc cipherKey (nat keyLen);
     ek \<leftarrow> memcpy (key_ek key) 0 e (length e);
     Some (1, Some (key\<lparr>key_Nr := Nr, key_rk := rk, key_ek := ek\<rparr>)) }"

definition valid_keyLen :: "int \<Rightarrow> bool" where
  "valid_keyLen keyLen \<longleftrightarrow> keyLen = 128 \<or> keyLen = 192 \<or> keyLen = 256"

definition memToKey :: "keyInstance option \<Rightarrow> u8 \<Rightarrow> int \<Rightarrow> bytes \<Rightarrow> nat \<Rightarrow> (int \<times> keyInstance option) option" where
  "memToKey key direction keyLen mem mem_length =
    (case key of
      None \<Rightarrow> Some (BAD_KEY_INSTANCE, None)
    | Some k \<Rightarrow>
        if direction \<noteq> DIR_ENCRYPT \<and> direction \<noteq> DIR_DECRYPT then Some (BAD_KEY_DIR, Some k)
        else
          (let k = k\<lparr>key_direction := direction\<rparr>
           in if \<not> valid_keyLen keyLen then Some (BAD_KEY_MAT, Some k)
              else do {
                cipherKey \<leftarrow> memcpy (replicate MAXKB 0) 0 mem (if mem_length > MAXKB then MAXKB else mem_length);
                set_schedules (k\<lparr>key_keyLen := keyLen\<rparr>) direction keyLen cipherKey }))"

text \<open>
  Hexadecimal text: the octets up to the first character that is not a digit, and whether there was none. A
  text that ends before is read up to its final 0, which is not a digit.
\<close>

definition hex_digit :: "u8 \<Rightarrow> u8 option" where
  "hex_digit t =
    (if 48 \<le> t \<and> t \<le> 57 then Some (t - 48)
     else if 97 \<le> t \<and> t \<le> 102 then Some (t - 97 + 10)
     else if 65 \<le> t \<and> t \<le> 70 then Some (t - 65 + 10)
     else None)"

fun read_hex :: "nat \<Rightarrow> bytes \<Rightarrow> (bytes \<times> bool) option" where
  "read_hex 0 s = Some ([], True)"
| "read_hex (Suc n) [] = None"
| "read_hex (Suc n) (t # s) =
    (case hex_digit t of
      None \<Rightarrow> Some ([], False)
    | Some h \<Rightarrow>
       (case s of
         [] \<Rightarrow> None
       | u # s' \<Rightarrow>
          (case hex_digit u of
            None \<Rightarrow> Some ([], False)
          | Some l \<Rightarrow> do { (bs, ok) \<leftarrow> read_hex n s'; Some ((push_bit 4 h XOR l) # bs, ok) })))"

text \<open>\<open>strncpy\<close> of \<open>n\<close> characters: what is left after the final 0 is filled with zeros.\<close>

definition strncpy_chars :: "bytes \<Rightarrow> nat \<Rightarrow> bytes option" where
  "strncpy_chars s n =
    (let cs = takeWhile (\<lambda>c. c \<noteq> 0) (take n s)
     in if length cs = length s \<and> length cs < n then None else Some (cs @ replicate (n - length cs) 0))"

definition makeKey :: "keyInstance option \<Rightarrow> u8 \<Rightarrow> int \<Rightarrow> bytes option \<Rightarrow> (int \<times> keyInstance option) option" where
  "makeKey key direction keyLen keyMaterial =
    (case key of
      None \<Rightarrow> Some (BAD_KEY_INSTANCE, None)
    | Some k \<Rightarrow>
        if direction \<noteq> DIR_ENCRYPT \<and> direction \<noteq> DIR_DECRYPT then Some (BAD_KEY_DIR, Some k)
        else
          (let k = k\<lparr>key_direction := direction\<rparr>
           in if \<not> valid_keyLen keyLen then Some (BAD_KEY_MAT, Some k)
              else do {
                let k = k\<lparr>key_keyLen := keyLen\<rparr>;
                material \<leftarrow> (case keyMaterial of
                    None \<Rightarrow> Some (key_keyMaterial k)
                  | Some s \<Rightarrow> do {
                      cs \<leftarrow> strncpy_chars s (nat keyLen div 4);
                      memcpy (key_keyMaterial k) 0 cs (length cs) });
                let k = k\<lparr>key_keyMaterial := material\<rparr>;
                (cipherKey, ok) \<leftarrow> read_hex (nat keyLen div 8) material;
                if \<not> ok then Some (BAD_KEY_MAT, Some k) else set_schedules k direction keyLen cipherKey }))"

definition cipherInit :: "cipherInstance \<Rightarrow> u8 \<Rightarrow> bytes option \<Rightarrow> (int \<times> cipherInstance) option" where
  "cipherInit cipher m IV =
    (if m \<noteq> MODE_ECB \<and> m \<noteq> MODE_CBC \<and> m \<noteq> MODE_CFB1 then Some (BAD_CIPHER_MODE, cipher)
     else
      (let cipher = cipher\<lparr>cipher_mode := m\<rparr>
       in case IV of
            None \<Rightarrow> Some (1, cipher\<lparr>cipher_IV := replicate MAX_IV_SIZE 0\<rparr>)
          | Some s \<Rightarrow> do {
              (bs, ok) \<leftarrow> read_hex MAX_IV_SIZE s;
              iv \<leftarrow> memcpy (cipher_IV cipher) 0 bs (length bs);
              Some (if ok then 1 else BAD_CIPHER_INSTANCE, cipher\<lparr>cipher_IV := iv\<rparr>) }))"

subsection \<open>Blocks in the modes\<close>

text \<open>
  The loop over \<open>n\<close> blocks in ECB, with the function for one block: what is written, and the input that is
  left.
\<close>

fun ecb_blocks :: "(bytes \<Rightarrow> bytes option) \<Rightarrow> nat \<Rightarrow> bytes \<Rightarrow> (bytes \<times> bytes) option" where
  "ecb_blocks f 0 input = Some ([], input)"
| "ecb_blocks f (Suc n) input = do {
     out \<leftarrow> f input;
     (outs, rest) \<leftarrow> ecb_blocks f n (drop 16 input);
     Some (out @ outs, rest) }"

definition xor_block :: "bytes \<Rightarrow> bytes \<Rightarrow> bytes" where
  "xor_block input iv = map2 (XOR) (take 16 input) iv"

text \<open>In CBC, with the vector that the next block is combined with.\<close>

fun cbc_encrypt :: "(bytes \<Rightarrow> bytes option) \<Rightarrow> nat \<Rightarrow> bytes \<Rightarrow> bytes \<Rightarrow> (bytes \<times> bytes \<times> bytes) option" where
  "cbc_encrypt f 0 iv input = Some ([], iv, input)"
| "cbc_encrypt f (Suc n) iv input = do {
     out \<leftarrow> f (xor_block input iv);
     (outs, iv', rest) \<leftarrow> cbc_encrypt f n out (drop 16 input);
     Some (out @ outs, iv', rest) }"

fun cbc_decrypt :: "(bytes \<Rightarrow> bytes option) \<Rightarrow> nat \<Rightarrow> bytes \<Rightarrow> bytes \<Rightarrow> (bytes \<times> bytes \<times> bytes) option" where
  "cbc_decrypt f 0 iv input = Some ([], iv, input)"
| "cbc_decrypt f (Suc n) iv input = do {
     block \<leftarrow> f input;
     (outs, iv', rest) \<leftarrow> cbc_decrypt f n (take 16 input) (drop 16 input);
     Some (xor_block block iv @ outs, iv', rest) }"

text \<open>
  CFB with one bit: the vector is shifted by one bit of the ciphertext, which is \<open>out\<close> when encrypting and
  \<open>input\<close> when decrypting.
\<close>

definition shift_iv :: "bytes \<Rightarrow> u8 \<Rightarrow> bytes" where
  "shift_iv iv b = map (\<lambda>t. push_bit 1 (iv ! t) OR drop_bit 7 (iv ! (t + 1))) [0..<15] @ [push_bit 1 (iv ! 15) OR b]"

definition stream_bit :: "bytes \<Rightarrow> nat \<Rightarrow> u8" where
  "stream_bit xs k = drop_bit (7 - k mod 8) (xs ! (k div 8)) AND 1"

definition mask_bit :: "nat \<Rightarrow> bytes \<Rightarrow> bytes \<Rightarrow> bytes" where
  "mask_bit k block out = out[k div 8 := out ! (k div 8) XOR drop_bit (k mod 8) (block ! 0 AND 0x80)]"

fun cfb1_bits :: "bool \<Rightarrow> (bytes \<Rightarrow> bytes option) \<Rightarrow> bytes \<Rightarrow> nat list \<Rightarrow> bytes \<Rightarrow> bytes \<Rightarrow> (bytes \<times> bytes) option" where
  "cfb1_bits enc f input [] iv out = Some (iv, out)"
| "cfb1_bits enc f input (k # ks) iv out = do {
     block \<leftarrow> f iv;
     let out = mask_bit k block out;
     cfb1_bits enc f input ks (shift_iv iv (stream_bit (if enc then out else input) k)) out }"

fun cfb1_blocks :: "bool \<Rightarrow> (bytes \<Rightarrow> bytes option) \<Rightarrow> nat \<Rightarrow> bytes \<Rightarrow> bytes \<Rightarrow> (bytes \<times> bytes) option" where
  "cfb1_blocks enc f 0 iv input = Some ([], iv)"
| "cfb1_blocks enc f (Suc n) iv input =
    (if length input < 16 then None
     else do {
       (iv', out) \<leftarrow> cfb1_bits enc f (take 16 input) [0..<128] iv (take 16 input);
       (outs, iv'') \<leftarrow> cfb1_blocks enc f n iv' (drop 16 input);
       Some (out @ outs, iv'') })"

subsection \<open>Whole blocks\<close>

type_synonym cipher_result = "(int \<times> bytes \<times> cipherInstance option) option"

definition blockEncrypt :: "cipherInstance option \<Rightarrow> keyInstance option \<Rightarrow> bytes option \<Rightarrow> int \<Rightarrow> cipher_result" where
  "blockEncrypt cipher key input inputLen =
    (case (cipher, key) of
      (Some c, Some k) \<Rightarrow>
        if key_direction k = DIR_DECRYPT then Some (BAD_CIPHER_STATE, [], cipher)
        else if input = None \<or> inputLen \<le> 0 then Some (0, [], cipher)
        else
          (let numBlocks = nat inputLen div 128
           in if cipher_mode c = MODE_ECB
              then do {
                (out, _) \<leftarrow> ecb_blocks (rijndaelEncrypt (key_rk k) (key_Nr k)) numBlocks (the input);
                Some (128 * int numBlocks, out, cipher) }
              else if cipher_mode c = MODE_CBC
              then do {
                (out, _, _) \<leftarrow> cbc_encrypt (rijndaelEncrypt (key_rk k) (key_Nr k)) numBlocks (cipher_IV c) (the input);
                Some (128 * int numBlocks, out, cipher) }
              else if cipher_mode c = MODE_CFB1
              then do {
                (out, iv) \<leftarrow> cfb1_blocks True (rijndaelEncrypt (key_ek k) (key_Nr k)) numBlocks (cipher_IV c) (the input);
                Some (128 * int numBlocks, out, Some (c\<lparr>cipher_IV := iv\<rparr>)) }
              else Some (BAD_CIPHER_STATE, [], cipher))
    | _ \<Rightarrow> Some (BAD_CIPHER_STATE, [], cipher))"

definition blockDecrypt :: "cipherInstance option \<Rightarrow> keyInstance option \<Rightarrow> bytes option \<Rightarrow> int \<Rightarrow> cipher_result" where
  "blockDecrypt cipher key input inputLen =
    (case (cipher, key) of
      (Some c, Some k) \<Rightarrow>
        if cipher_mode c \<noteq> MODE_CFB1 \<and> key_direction k = DIR_ENCRYPT then Some (BAD_CIPHER_STATE, [], cipher)
        else if input = None \<or> inputLen \<le> 0 then Some (0, [], cipher)
        else
          (let numBlocks = nat inputLen div 128
           in if cipher_mode c = MODE_ECB
              then do {
                (out, _) \<leftarrow> ecb_blocks (rijndaelDecrypt (key_rk k) (key_Nr k)) numBlocks (the input);
                Some (128 * int numBlocks, out, cipher) }
              else if cipher_mode c = MODE_CBC
              then do {
                (out, iv, _) \<leftarrow> cbc_decrypt (rijndaelDecrypt (key_rk k) (key_Nr k)) numBlocks (cipher_IV c) (the input);
                Some (128 * int numBlocks, out, Some (c\<lparr>cipher_IV := iv\<rparr>)) }
              else if cipher_mode c = MODE_CFB1
              then do {
                (out, iv) \<leftarrow> cfb1_blocks False (rijndaelEncrypt (key_ek k) (key_Nr k)) numBlocks (cipher_IV c) (the input);
                Some (128 * int numBlocks, out, Some (c\<lparr>cipher_IV := iv\<rparr>)) }
              else Some (BAD_CIPHER_STATE, [], cipher))
    | _ \<Rightarrow> Some (BAD_CIPHER_STATE, [], cipher))"

subsection \<open>Padded octets\<close>

text \<open>The last block: the octets that are left, and as many times the number of those that are missing.\<close>

definition pad_block :: "bytes \<Rightarrow> nat \<Rightarrow> bytes option" where
  "pad_block input padLen =
    (if length input < 16 - padLen then None else Some (take (16 - padLen) input @ replicate padLen (of_nat padLen)))"

definition padEncrypt :: "cipherInstance option \<Rightarrow> keyInstance option \<Rightarrow> bytes option \<Rightarrow> int \<Rightarrow> cipher_result" where
  "padEncrypt cipher key input inputOctets =
    (case (cipher, key) of
      (Some c, Some k) \<Rightarrow>
        if key_direction k = DIR_DECRYPT then Some (BAD_CIPHER_STATE, [], cipher)
        else if input = None \<or> inputOctets \<le> 0 then Some (0, [], cipher)
        else
          (let numBlocks = nat inputOctets div 16;
               padLen = 16 - (nat inputOctets - 16 * numBlocks);
               f = rijndaelEncrypt (key_rk k) (key_Nr k)
           in if cipher_mode c = MODE_ECB
              then do {
                (outs, rest) \<leftarrow> ecb_blocks f numBlocks (the input);
                block \<leftarrow> pad_block rest padLen;
                out \<leftarrow> f block;
                if 16 * (numBlocks + 1) < 2 ^ 31 then Some (16 * (int numBlocks + 1), outs @ out, cipher) else None }
              else if cipher_mode c = MODE_CBC
              then do {
                (outs, iv, rest) \<leftarrow> cbc_encrypt f numBlocks (cipher_IV c) (the input);
                block \<leftarrow> pad_block rest padLen;
                out \<leftarrow> f (xor_block block iv);
                if 16 * (numBlocks + 1) < 2 ^ 31 then Some (16 * (int numBlocks + 1), outs @ out, cipher) else None }
              else Some (BAD_CIPHER_STATE, [], cipher))
    | _ \<Rightarrow> Some (BAD_CIPHER_STATE, [], cipher))"

definition pad_bytes_ok :: "bytes \<Rightarrow> nat \<Rightarrow> bool" where
  "pad_bytes_ok block padLen \<longleftrightarrow> (\<forall>b \<in> set (drop (16 - padLen) block). unat b = padLen)"

definition padDecrypt :: "cipherInstance option \<Rightarrow> keyInstance option \<Rightarrow> bytes option \<Rightarrow> int \<Rightarrow> cipher_result" where
  "padDecrypt cipher key input inputOctets =
    (case (cipher, key) of
      (Some c, Some k) \<Rightarrow>
        if key_direction k = DIR_ENCRYPT then Some (BAD_CIPHER_STATE, [], cipher)
        else if input = None \<or> inputOctets \<le> 0 then Some (0, [], cipher)
        else if inputOctets mod 16 \<noteq> 0 then Some (BAD_DATA, [], cipher)
        else
          (let numBlocks = nat inputOctets div 16;
               f = rijndaelDecrypt (key_rk k) (key_Nr k)
           in if cipher_mode c = MODE_ECB
              then do {
                (outs, rest) \<leftarrow> ecb_blocks f (numBlocks - 1) (the input);
                block \<leftarrow> f rest;
                let padLen = unat (block ! 15);
                Some
                 (if padLen > 16 then (BAD_DATA, outs, cipher)
                  else if \<not> pad_bytes_ok block padLen then (BAD_PADBYTES, outs, cipher)
                  else (16 * int numBlocks - int padLen, outs @ take (16 - padLen) block, cipher)) }
              else if cipher_mode c = MODE_CBC
              then do {
                (outs, iv, rest) \<leftarrow> cbc_decrypt f (numBlocks - 1) (cipher_IV c) (the input);
                block' \<leftarrow> f rest;
                let block = xor_block block' iv;
                let padLen = unat (block ! 15);
                let cipher = Some (c\<lparr>cipher_IV := iv\<rparr>);
                Some
                 (if padLen = 0 \<or> padLen > 16 then (BAD_DATA, outs, cipher)
                  else if \<not> pad_bytes_ok block padLen then (BAD_DATA, outs, cipher)
                  else (16 * int numBlocks - int padLen, outs @ take (16 - padLen) block, cipher)) }
              else Some (BAD_CIPHER_STATE, [], cipher))
    | _ \<Rightarrow> Some (BAD_CIPHER_STATE, [], cipher))"

text \<open>A number of rounds of one block, for the known answer test of intermediate values.\<close>

definition cipherUpdateRounds :: "cipherInstance option \<Rightarrow> keyInstance option \<Rightarrow> bytes \<Rightarrow> nat \<Rightarrow> (int \<times> bytes) option" where
  "cipherUpdateRounds cipher key input rounds =
    (case (cipher, key) of
      (Some c, Some k) \<Rightarrow>
        if length input < 16 then None
        else if key_direction k = DIR_ENCRYPT
        then do { block \<leftarrow> rijndaelEncryptRound (key_rk k) (key_Nr k) (take 16 input) rounds; Some (1, block) }
        else if key_direction k = DIR_DECRYPT
        then do { block \<leftarrow> rijndaelDecryptRound (key_rk k) (key_Nr k) (take 16 input) rounds; Some (1, block) }
        else Some (BAD_KEY_DIR, [])
    | _ \<Rightarrow> Some (BAD_CIPHER_STATE, []))"

end
