(* ===== verification/AesSpec.thy ===== *)
theory AesSpec
  imports Rijndael
begin

text \<open>
  The AES of FIPS 197 on bytes, and the facts that connect the tables and words of the code with it. A
  state is the list of its 16 bytes, column by column.
\<close>

subsection \<open>The field and the S-box\<close>

definition xtime :: "u8 \<Rightarrow> u8" where
  "xtime a = push_bit 1 a XOR (if bit a 7 then 0x1b else 0)"

fun gmul_bits :: "nat \<Rightarrow> u8 \<Rightarrow> u8 \<Rightarrow> u8" where
  "gmul_bits 0 a b = 0"
| "gmul_bits (Suc n) a b = (if bit b 0 then a else 0) XOR gmul_bits n (xtime a) (drop_bit 1 b)"

definition gmul :: "u8 \<Rightarrow> u8 \<Rightarrow> u8" where
  "gmul a b = gmul_bits 8 a b"

definition rotate_byte :: "nat \<Rightarrow> u8 \<Rightarrow> u8" where
  "rotate_byte k y = push_bit k y OR drop_bit (8 - k) y"

definition affine :: "u8 \<Rightarrow> u8" where
  "affine y = y XOR rotate_byte 1 y XOR rotate_byte 2 y XOR rotate_byte 3 y XOR rotate_byte 4 y XOR 0x63"

text \<open>The S-box is the affine map of the inverse in the field, with 0 for the inverse of 0.\<close>

definition is_sbox :: "(u8 \<Rightarrow> u8) \<Rightarrow> bool" where
  "is_sbox f \<longleftrightarrow> (\<forall>x. \<exists>y. f x = affine y \<and> gmul x y = (if x = 0 then 0 else 1) \<and> (x = 0 \<longrightarrow> y = 0))"

subsection \<open>Transformations of the state\<close>

definition shift_rows :: "bytes \<Rightarrow> bytes" where
  "shift_rows s = map (\<lambda>i. s ! ((i + 4 * (i mod 4)) mod 16)) [0..<16]"

definition inv_shift_rows :: "bytes \<Rightarrow> bytes" where
  "inv_shift_rows s = map (\<lambda>i. s ! ((i + 12 * (i mod 4)) mod 16)) [0..<16]"

fun mix_columns :: "bytes \<Rightarrow> bytes" where
  "mix_columns (a # b # c # d # s) =
     (gmul a 2 XOR gmul b 3 XOR c XOR d) # (a XOR gmul b 2 XOR gmul c 3 XOR d) #
     (a XOR b XOR gmul c 2 XOR gmul d 3) # (gmul a 3 XOR b XOR c XOR gmul d 2) # mix_columns s"
| "mix_columns s = []"

fun inv_mix_columns :: "bytes \<Rightarrow> bytes" where
  "inv_mix_columns (a # b # c # d # s) =
     (gmul a 0x0e XOR gmul b 0x0b XOR gmul c 0x0d XOR gmul d 0x09) #
     (gmul a 0x09 XOR gmul b 0x0e XOR gmul c 0x0b XOR gmul d 0x0d) #
     (gmul a 0x0d XOR gmul b 0x09 XOR gmul c 0x0e XOR gmul d 0x0b) #
     (gmul a 0x0b XOR gmul b 0x0d XOR gmul c 0x09 XOR gmul d 0x0e) # inv_mix_columns s"
| "inv_mix_columns s = []"

definition add_key :: "bytes \<Rightarrow> bytes \<Rightarrow> bytes" where
  "add_key k s = map2 (XOR) s k"

text \<open>The bytes of the round key \<open>r\<close> of a schedule.\<close>

definition round_key :: "u32 list \<Rightarrow> nat \<Rightarrow> bytes" where
  "round_key w r = concat (map (\<lambda>i. PUTU32 (w ! (4 * r + i))) [0..<4])"

definition cipher_round :: "(u8 \<Rightarrow> u8) \<Rightarrow> bytes \<Rightarrow> bytes \<Rightarrow> bytes" where
  "cipher_round f k s = add_key k (mix_columns (shift_rows (map f s)))"

definition aes_cipher :: "(u8 \<Rightarrow> u8) \<Rightarrow> u32 list \<Rightarrow> nat \<Rightarrow> bytes \<Rightarrow> bytes" where
  "aes_cipher f w Nr s =
     add_key (round_key w Nr) (shift_rows (map f
       (fold (\<lambda>r. cipher_round f (round_key w r)) [1..<Nr] (add_key (round_key w 0) s))))"

subsection \<open>The key schedule\<close>

text \<open>\<open>Nk\<close> is the number of words of the key; the round constants are the powers of 2 in the field.\<close>

definition sub_word :: "(u8 \<Rightarrow> u8) \<Rightarrow> u32 \<Rightarrow> u32" where
  "sub_word f w = GETU32 (map f (PUTU32 w)) 0"

definition rot_word :: "u32 \<Rightarrow> u32" where
  "rot_word w = GETU32 (rotate1 (PUTU32 w)) 0"

definition round_constant :: "nat \<Rightarrow> u32" where
  "round_constant i = GETU32 [(xtime ^^ (i - 1)) 1, 0, 0, 0] 0"

definition schedule_step :: "(u8 \<Rightarrow> u8) \<Rightarrow> nat \<Rightarrow> nat \<Rightarrow> u32 list \<Rightarrow> u32 list" where
  "schedule_step f Nk i w =
    (let temp = w ! (i - 1)
     in w @ [w ! (i - Nk) XOR
          (if i mod Nk = 0 then sub_word f (rot_word temp) XOR round_constant (i div Nk)
           else if Nk > 6 \<and> i mod Nk = 4 then sub_word f temp
           else temp)])"

definition aes_schedule :: "(u8 \<Rightarrow> u8) \<Rightarrow> nat \<Rightarrow> nat \<Rightarrow> bytes \<Rightarrow> u32 list" where
  "aes_schedule f Nk Nr key = fold (schedule_step f Nk) [Nk..<4 * (Nr + 1)] (map (\<lambda>i. GETU32 key (4 * i)) [0..<Nk])"

subsection \<open>Four bytes in a word\<close>

definition join :: "u8 \<Rightarrow> u8 \<Rightarrow> u8 \<Rightarrow> u8 \<Rightarrow> u32" where
  "join a b c d = push_bit 24 (ucast a) XOR push_bit 16 (ucast b) XOR push_bit 8 (ucast c) XOR ucast d"

lemma high_bit [simp]: "8 \<le> n \<Longrightarrow> \<not> bit (a :: u8) n"
  by (auto dest: bit_imp_le_length)

lemma bit_join: "bit (join a b c d) n \<longleftrightarrow>
    (if n < 8 then bit d n else if n < 16 then bit c (n - 8) else if n < 24 then bit b (n - 16)
     else n < 32 \<and> bit a (n - 24))"
  by (auto simp: join_def bit_simps not_less)

lemma byte_of_join:
  "(ucast (drop_bit 24 (join a b c d)) :: u8) = a" "(ucast (drop_bit 16 (join a b c d)) :: u8) = b"
  "(ucast (drop_bit 8 (join a b c d)) :: u8) = c" "(ucast (join a b c d) :: u8) = d"
  by (rule bit_word_eqI, simp add: bit_simps bit_join)+

lemma PUTU32_join [simp]: "PUTU32 (join a b c d) = [a, b, c, d]"
  by (simp add: PUTU32_def byte_of_join)

lemma join_bytes: "join (ucast (drop_bit 24 w)) (ucast (drop_bit 16 w)) (ucast (drop_bit 8 w)) (ucast w) = w"
  by (rule bit_word_eqI) (auto simp: bit_join bit_simps)

lemma join_cases: obtains a b c d where "w = join a b c d"
  by (metis join_bytes)

lemma join_xor: "join a b c d XOR join a' b' c' d' = join (a XOR a') (b XOR b') (c XOR c') (d XOR d')"
  by (rule bit_word_eqI) (simp add: bit_join bit_simps)

lemma GETU32_join: "GETU32 pt i = join (pt ! i) (pt ! (i + 1)) (pt ! (i + 2)) (pt ! (i + 3))"
  by (simp add: GETU32_def join_def)

lemma entry_join:
  "entry t 24 (join a b c d) = t ! unat a" "entry t 16 (join a b c d) = t ! unat b"
  "entry t 8 (join a b c d) = t ! unat c" "entry t 0 (join a b c d) = t ! unat d"
proof -
  have u: "unat (drop_bit k w AND 0xff) = unat (ucast (drop_bit k w) :: u8)" for k and w :: u32
  proof -
    have m: "(0xff :: u32) = mask 8" by (simp add: mask_eq_exp_minus_1)
    have "drop_bit k w AND 0xff = ucast (ucast (drop_bit k w) :: u8)"
      unfolding m by (rule bit_word_eqI) (auto simp: bit_simps)
    then have "unat (drop_bit k w AND 0xff) = unat (ucast (ucast (drop_bit k w) :: u8) :: u32)" by (rule arg_cong)
    also have "\<dots> = unat (ucast (drop_bit k w) :: u8)" by (rule unat_ucast_up) simp
    finally show ?thesis .
  qed
  show "entry t 24 (join a b c d) = t ! unat a" "entry t 16 (join a b c d) = t ! unat b"
    "entry t 8 (join a b c d) = t ! unat c" "entry t 0 (join a b c d) = t ! unat d"
    using u [of 0 "join a b c d"] by (simp_all only: entry_def u byte_of_join drop_bit_0 id_apply)
qed

subsection \<open>The S-box of the code\<close>

text \<open>Every entry of \<open>Te4\<close> is four copies of the S-box, and \<open>Td4\<close> of its inverse.\<close>

definition S :: "u8 \<Rightarrow> u8" where
  "S x = ucast (Te4 ! unat x)"

definition Si :: "u8 \<Rightarrow> u8" where
  "Si x = ucast (Td4 ! unat x)"

subsection \<open>Multiplication\<close>

lemma xtime_xor: "xtime (a XOR b) = xtime a XOR xtime b"
  by (rule bit_word_eqI) (auto simp: xtime_def bit_simps)

lemma xtime_0 [simp]: "xtime 0 = 0"
  by (simp add: xtime_def)

lemma gmul_bits_xor: "gmul_bits n (a XOR a') b = gmul_bits n a b XOR gmul_bits n a' b"
  by (induction n arbitrary: a a' b) (auto simp: xtime_xor ac_simps)

lemma gmul_xor: "gmul (a XOR a') b = gmul a b XOR gmul a' b"
  by (simp add: gmul_def gmul_bits_xor)

lemma gmul_bits_xtime: "gmul_bits n (xtime a) b = xtime (gmul_bits n a b)"
  by (induction n arbitrary: a b) (auto simp: xtime_xor)

lemma gmul_unfold: "gmul a b =
    (if bit b 0 then a else 0) XOR (if bit b 1 then xtime a else 0) XOR
    (if bit b 2 then (xtime ^^ 2) a else 0) XOR (if bit b 3 then (xtime ^^ 3) a else 0) XOR
    (if bit b 4 then (xtime ^^ 4) a else 0) XOR (if bit b 5 then (xtime ^^ 5) a else 0) XOR
    (if bit b 6 then (xtime ^^ 6) a else 0) XOR (if bit b 7 then (xtime ^^ 7) a else 0)"
  by (simp add: gmul_def eval_nat_numeral bit_drop_bit_eq del: drop_bit_of_1 bit_0)

lemma gmul_by:
  "gmul a 2 = xtime a" "gmul a 3 = a XOR xtime a"
  "gmul a 0x09 = a XOR xtime (xtime (xtime a))"
  "gmul a 0x0b = a XOR xtime a XOR xtime (xtime (xtime a))"
  "gmul a 0x0d = a XOR xtime (xtime a) XOR xtime (xtime (xtime a))"
  "gmul a 0x0e = xtime a XOR xtime (xtime a) XOR xtime (xtime (xtime a))"
  by (simp_all add: gmul_unfold numeral_2_eq_2 numeral_3_eq_3)

subsection \<open>Evaluation\<close>

text \<open>
  The same functions with masks that keep a byte below 256 while it is evaluated, and rules that apply to
  numerals only.
\<close>

definition low :: "u32 \<Rightarrow> u8" where
  "low w = ucast (w AND 0xff)"

lemma low: "low w = ucast w"
proof -
  have m: "(0xff :: u32) = mask 8" by (simp add: mask_eq_exp_minus_1)
  show ?thesis unfolding low_def m by (rule bit_word_eqI) (auto simp: bit_simps)
qed

definition twice :: "u8 \<Rightarrow> u8" where
  "twice s = (push_bit 1 s AND 0xff) XOR (if bit s 7 then 0x1b else 0)"

lemma and_255: "(a :: u8) AND 0xff = a"
proof -
  have "(0xff :: u8) = - 1" by simp
  then show ?thesis by (simp only: and.right_neutral)
qed

lemma twice: "twice s = xtime s"
  by (simp only: twice_def xtime_def and_255)

lemma gmul_bits_numeral: "gmul_bits (numeral k) a b =
    (if bit b 0 then a else 0) XOR gmul_bits (pred_numeral k) (twice a) (drop_bit 1 b)"
  by (simp add: numeral_eq_Suc twice)

lemma gmul_bits_1 [simp]: "gmul_bits (Suc 0) a b = (if bit b 0 then a else 0)"
  by simp

lemma gmul_numeral:
  "gmul (numeral m) (numeral n) = gmul_bits 8 (numeral m) (numeral n)" "gmul 1 (numeral n) = gmul_bits 8 1 (numeral n)"
  "gmul (numeral m) 1 = gmul_bits 8 (numeral m) 1" "gmul 1 1 = gmul_bits 8 1 1"
  by (simp_all only: gmul_def)

end
