(* ===== verification/AesTe.thy ===== *)
theory AesTe
  imports AesSpec
begin

text \<open>
  The encryption tables by their entries: \<open>Te4\<close> has four copies of the S-box, \<open>Te0\<close> the S-box times the
  column 2, 1, 1, 3 of the matrix that mixes the columns, and \<open>Te1\<close>, \<open>Te2\<close> and \<open>Te3\<close> are \<open>Te0\<close>
  rotated by one, two and three bytes.
\<close>

lemma unat_byte: "unat (x :: u8) < 256"
  using unsigned_less [of x, where ?'a = nat] by simp

lemma length_Te [simp]: "length Te0 = 256" "length Te1 = 256" "length Te2 = 256" "length Te3 = 256" "length Te4 = 256"
  by (simp_all add: Te0_def Te1_def Te2_def Te3_def Te4_def)

subsection \<open>Copies of the S-box\<close>

definition copies :: "u8 \<Rightarrow> u32" where
  "copies s = join s s s s"

lemma Te4_table: "map (\<lambda>w. copies (low w)) Te4 = Te4"
  by (simp add: Te4_def copies_def join_def low_def)

lemma Te4_nth: "Te4 ! unat x = join (S x) (S x) (S x) (S x)"
proof -
  have "map (\<lambda>w. copies (low w)) Te4 ! unat x = Te4 ! unat x" by (simp only: Te4_table)
  then show ?thesis by (simp add: S_def copies_def low unat_byte)
qed

subsection \<open>The first table\<close>

definition mixed :: "u8 \<Rightarrow> u32" where
  "mixed s = join (xtime s) s s (s XOR xtime s)"

definition mixed_2 :: "u8 \<Rightarrow> u8 \<Rightarrow> u32" where
  "mixed_2 s x = join x s s (s XOR x)"

lemma mixed_numeral: "mixed (numeral n) = mixed_2 (numeral n) (twice (numeral n))"
    "mixed 0 = 0" "mixed 1 = 0x02010103"
  by (simp_all add: mixed_def mixed_2_def twice join_def xtime_def)

lemma Te0_table: "Te0 = map (\<lambda>w. mixed (low w)) Te4"
  by (simp add: Te0_def Te4_def low_def mixed_numeral mixed_2_def twice_def join_def)

lemma Te0_nth: "Te0 ! unat x = join (xtime (S x)) (S x) (S x) (S x XOR xtime (S x))"
  by (simp add: Te0_table low S_def mixed_def unat_byte)

subsection \<open>The rotated tables\<close>

definition rotated_byte :: "u32 \<Rightarrow> u32" where
  "rotated_byte w = push_bit 24 w OR drop_bit 8 w"

lemma rotated_byte_join: "rotated_byte (join a b c d) = join d a b c"
  by (rule bit_word_eqI) (auto simp: rotated_byte_def bit_join bit_simps)

lemma rotated_nth: "map rotated_byte t = t' \<Longrightarrow> length t = 256 \<Longrightarrow> t' ! unat (x :: u8) = rotated_byte (t ! unat x)"
  by (metis nth_map unat_byte)

lemma Te1_table: "map rotated_byte Te0 = Te1"
  by (simp add: Te0_def Te1_def rotated_byte_def)

lemma Te2_table: "map rotated_byte Te1 = Te2"
  by (simp add: Te1_def Te2_def rotated_byte_def)

lemma Te3_table: "map rotated_byte Te2 = Te3"
  by (simp add: Te2_def Te3_def rotated_byte_def)

lemma Te1_nth: "Te1 ! unat x = join (S x XOR xtime (S x)) (xtime (S x)) (S x) (S x)"
  by (simp add: rotated_nth [OF Te1_table] Te0_nth rotated_byte_join)

lemma Te2_nth: "Te2 ! unat x = join (S x) (S x XOR xtime (S x)) (xtime (S x)) (S x)"
  by (simp add: rotated_nth [OF Te2_table] Te1_nth rotated_byte_join)

lemma Te3_nth: "Te3 ! unat x = join (S x) (S x) (S x XOR xtime (S x)) (xtime (S x))"
  by (simp add: rotated_nth [OF Te3_table] Te2_nth rotated_byte_join)

end
