(* ===== verification/AesFips.thy ===== *)
theory AesFips
  imports AesTe
begin

text \<open>
  The code computes the cipher and the key schedules of FIPS 197: what a lookup in the tables gives on the
  bytes of a word, what one round does to the block, the loop of rounds, and the schedules of the three
  lengths of keys.
\<close>

subsection \<open>Rounds\<close>

lemmas entry_Te = entry_join Te0_nth Te1_nth Te2_nth Te3_nth Te4_nth

lemma join_and:
  "join a b c d AND 0xff000000 = join a 0 0 0" "join a b c d AND 0x00ff0000 = join 0 b 0 0"
  "join a b c d AND 0x0000ff00 = join 0 0 c 0" "join a b c d AND 0x000000ff = join 0 0 0 d"
proof -
  have m: "0xff000000 = join 0xff 0 0 0" "0x00ff0000 = join 0 0xff 0 0" "0x0000ff00 = join 0 0 0xff 0"
      "0x000000ff = join 0 0 0 0xff"
    by (simp_all add: join_def)
  have "join a b c d AND join a' b' c' d' = join (a AND a') (b AND b') (c AND c') (d AND d')" for a' b' c' d'
    by (rule bit_word_eqI) (simp add: bit_join bit_simps)
  then show "join a b c d AND 0xff000000 = join a 0 0 0" "join a b c d AND 0x00ff0000 = join 0 b 0 0"
    "join a b c d AND 0x0000ff00 = join 0 0 c 0" "join a b c d AND 0x000000ff = join 0 0 0 d"
    unfolding m by (simp_all add: and_255)
qed

lemma substitute_join:
  assumes "\<And>x :: u8. t ! unat x = join (f x) (f x) (f x) (f x)"
  shows "substitute t (join a0 a1 a2 a3) (join b0 b1 b2 b3) (join c0 c1 c2 c3) (join d0 d1 d2 d3) =
    join (f a0) (f b1) (f c2) (f d3)"
  by (simp add: substitute_def entry_join assms join_and join_xor)

lemma Te_column_join:
  "Te_column (join a0 a1 a2 a3) (join b0 b1 b2 b3) (join c0 c1 c2 c3) (join d0 d1 d2 d3) =
    join (xtime (S a0) XOR (S b1 XOR xtime (S b1)) XOR S c2 XOR S d3)
      (S a0 XOR xtime (S b1) XOR (S c2 XOR xtime (S c2)) XOR S d3)
      (S a0 XOR S b1 XOR xtime (S c2) XOR (S d3 XOR xtime (S d3)))
      ((S a0 XOR xtime (S a0)) XOR S b1 XOR S c2 XOR xtime (S d3))"
  by (simp add: Te_column_def entry_Te join_xor ac_simps)

text \<open>The bytes of the four words from \<open>j\<close>.\<close>

definition key_bytes :: "u32 list \<Rightarrow> nat \<Rightarrow> bytes" where
  "key_bytes w j = PUTU32 (w ! j) @ PUTU32 (w ! (j + 1)) @ PUTU32 (w ! (j + 2)) @ PUTU32 (w ! (j + 3))"

lemma round_key: "round_key w r = key_bytes w (4 * r)"
  by (simp add: round_key_def key_bytes_def eval_nat_numeral)

lemma key_bytes_0: "key_bytes w 0 = PUTU32 (w ! 0) @ PUTU32 (w ! Suc 0) @ PUTU32 (w ! 2) @ PUTU32 (w ! 3)"
  by (simp add: key_bytes_def eval_nat_numeral)

lemma add_key_word: "add_key (PUTU32 k @ ks) (PUTU32 w @ s) = PUTU32 (w XOR k) @ add_key ks s"
  by (cases w rule: join_cases, cases k rule: join_cases) (simp add: add_key_def join_xor)

lemma add_key_Nil [simp]: "add_key [] [] = []"
  by (simp add: add_key_def)

lemma add_key_last: "add_key (PUTU32 k) (PUTU32 w) = PUTU32 (w XOR k)"
  using add_key_word [of k "[]" w "[]"] by simp

lemma shift_rows_list: "shift_rows [a0, a1, a2, a3, b0, b1, b2, b3, c0, c1, c2, c3, d0, d1, d2, d3] =
    [a0, b1, c2, d3, b0, c1, d2, a3, c0, d1, a2, b3, d0, a1, b2, c3]"
  by (simp add: shift_rows_def upt_rec)

lemma enc_round_bytes: "store_block (enc_round rk j s) = cipher_round S (key_bytes rk j) (store_block s)"
proof -
  obtain s0 s1 s2 s3 where s: "s = (s0, s1, s2, s3)" by (cases s)
  show ?thesis unfolding s
    by (cases s0 rule: join_cases, cases s1 rule: join_cases, cases s2 rule: join_cases, cases s3 rule: join_cases,
        cases "rk ! j" rule: join_cases, cases "rk ! (j + 1)" rule: join_cases,
        cases "rk ! (j + 2)" rule: join_cases, cases "rk ! (j + 3)" rule: join_cases)
      (simp add: enc_round_def store_block_def cipher_round_def key_bytes_def shift_rows_list Te_column_join
        join_xor add_key_def gmul_by ac_simps)
qed

lemma enc_last_bytes: "store_block (enc_last rk s) = add_key (key_bytes rk 0) (shift_rows (map S (store_block s)))"
proof -
  obtain s0 s1 s2 s3 where s: "s = (s0, s1, s2, s3)" by (cases s)
  show ?thesis unfolding s
    by (cases s0 rule: join_cases, cases s1 rule: join_cases, cases s2 rule: join_cases, cases s3 rule: join_cases,
        cases "rk ! 0" rule: join_cases, cases "rk ! Suc 0" rule: join_cases,
        cases "rk ! 2" rule: join_cases, cases "rk ! 3" rule: join_cases)
      (simp add: enc_last_def store_block_def key_bytes_0 shift_rows_list substitute_join [where f = S, OF Te4_nth]
        join_xor add_key_def)
qed

lemma take_16: "16 \<le> length pt \<Longrightarrow> take 16 pt = map ((!) pt) [0..<16]"
  by (rule nth_equalityI) simp_all

lemma load_block_bytes: "16 \<le> length pt \<Longrightarrow> store_block (load_block pt rk) = add_key (key_bytes rk 0) (take 16 pt)"
proof -
  assume l: "16 \<le> length pt"
  have "take 16 pt = PUTU32 (GETU32 pt 0) @ PUTU32 (GETU32 pt 4) @ PUTU32 (GETU32 pt 8) @ PUTU32 (GETU32 pt 12)"
    unfolding take_16 [OF l] by (simp add: GETU32_join upt_rec eval_nat_numeral)
  then show ?thesis by (simp add: load_block_def store_block_def key_bytes_0 add_key_word add_key_last)
qed

subsection \<open>The loop\<close>

lemma key_bytes_drop: "n \<le> length w \<Longrightarrow> key_bytes (drop n w) j = key_bytes w (n + j)"
  by (simp add: key_bytes_def add.assoc)

text \<open>What the two functions for a round have in common: they read the four words from \<open>j\<close>.\<close>

lemma enc_round_drop: "n \<le> length rk \<Longrightarrow> enc_round (drop n rk) j s = enc_round rk (n + j) s"
  by (simp add: enc_round_def add.assoc)

lemma dec_round_drop: "n \<le> length rk \<Longrightarrow> dec_round (drop n rk) j s = dec_round rk (n + j) s"
  by (simp add: dec_round_def add.assoc)

lemma round_loop_fold:
  assumes rnd: "\<And>rk n j s. n \<le> length rk \<Longrightarrow> rnd (drop n rk) j s = rnd rk (n + j) s"
  shows "8 * Suc r \<le> length rk \<Longrightarrow>
    round_loop rnd rk (Suc r) s = Some (drop (8 * Suc r) rk, fold (\<lambda>j. rnd rk (4 * j)) [1..<2 * Suc r] s)"
proof (induction r arbitrary: rk s)
  case 0
  then show ?case by (simp add: upt_rec)
next
  case (Suc r)
  have l: "8 \<le> length rk" "8 * Suc r \<le> length (drop 8 rk)" using Suc.prems by simp_all
  have f: "fold (\<lambda>j. rnd (drop 8 rk) (4 * j)) [1..<2 * Suc r] t = fold (\<lambda>j. rnd rk (4 * j)) [3..<2 * Suc (Suc r)] t" for t
  proof -
    have "[3..<2 * Suc (Suc r)] = map (\<lambda>j. j + 2) [1..<2 * Suc r]" by (rule nth_equalityI) (simp_all del: upt_Suc)
    moreover have "rnd (drop 8 rk) k = rnd rk (8 + k)" for k using l(1) rnd by (intro ext) simp
    ultimately show ?thesis by (simp add: fold_map comp_def add_ac del: upt_Suc)
  qed
  have u: "[1..<2 * Suc (Suc r)] = 1 # 2 # [3..<2 * Suc (Suc r)]" by (simp add: upt_rec eval_nat_numeral)
  have d: "drop (8 * Suc r) (drop 8 rk) = drop (8 * Suc (Suc r)) rk" by simp
  have "round_loop rnd (drop 8 rk) (Suc r) t =
      Some (drop (8 * Suc (Suc r)) rk, fold (\<lambda>j. rnd rk (4 * j)) [3..<2 * Suc (Suc r)] t)" for t
    unfolding Suc.IH [OF l(2)] f d by (rule refl)
  then show ?case unfolding round_loop.simps(2) [of rnd rk "Suc r"] Let_def u
    by (simp add: l(1) rnd del: upt_Suc round_loop.simps mult_Suc_right) simp
qed

lemma rijndaelEncrypt_fold:
  assumes "even Nr" "0 < Nr" "4 * (Nr + 1) \<le> length rk" "16 \<le> length pt"
  shows "rijndaelEncrypt rk Nr pt =
    Some (store_block (enc_last (drop (4 * Nr) rk) (fold (\<lambda>j. enc_round rk (4 * j)) [1..<Nr] (load_block pt rk))))"
proof -
  obtain r where r: "Nr = 2 * Suc r" using assms(1,2) by (metis evenE gr0_conv_Suc mult_pos_pos nat_0_less_mult_iff)
  have "round_loop enc_round rk (Suc r) s = Some (drop (8 * Suc r) rk, fold (\<lambda>j. enc_round rk (4 * j)) [1..<2 * Suc r] s)" for s
    using assms(3) r by (intro round_loop_fold enc_round_drop) simp_all
  then show ?thesis using assms(3,4) r by (simp add: rijndaelEncrypt_def del: round_loop.simps)
qed

lemma rounds_bytes: "store_block (fold (\<lambda>j. enc_round rk (4 * j)) js s) =
    fold (\<lambda>j. cipher_round S (round_key rk j)) js (store_block s)"
  by (induction js arbitrary: s) (simp_all add: enc_round_bytes round_key)

lemma encrypt_is_cipher:
  assumes "even Nr" "0 < Nr" "4 * (Nr + 1) \<le> length rk" "16 \<le> length pt"
  shows "rijndaelEncrypt rk Nr pt = Some (aes_cipher S rk Nr (take 16 pt))"
  using assms
  by (simp add: rijndaelEncrypt_fold enc_last_bytes aes_cipher_def round_key key_bytes_drop rounds_bytes [unfolded round_key]
      load_block_bytes)

subsection \<open>Key schedules\<close>

lemma rotated_join: "rotated (join a b c d) = join (S b) (S c) (S d) (S a)"
  by (simp add: rotated_def entry_join Te4_nth join_and join_xor)

lemma GETU32_PUTU32: "GETU32 [a, b, c, d] 0 = join a b c d"
  by (simp add: GETU32_join)

lemma rotated_word: "rotated w = sub_word S (rot_word w)"
  by (cases w rule: join_cases) (simp add: rotated_join sub_word_def rot_word_def GETU32_PUTU32)

lemma substituted_word: "substitute Te4 w w w w = sub_word S w"
  by (cases w rule: join_cases)
    (simp add: substitute_join [where f = S, OF Te4_nth] sub_word_def GETU32_PUTU32)

lemma xtime_power: "(xtime ^^ numeral k) a = twice ((xtime ^^ pred_numeral k) a)"
  by (simp add: numeral_eq_Suc twice)

lemma rcon_constant:
  assumes "i < 10"
  shows "rcon ! i = round_constant (Suc i)"
proof -
  have "i = 0 \<or> i = 1 \<or> i = 2 \<or> i = 3 \<or> i = 4 \<or> i = 5 \<or> i = 6 \<or> i = 7 \<or> i = 8 \<or> i = 9" using assms by arith
  then show ?thesis
    by (elim disjE) (simp_all add: rcon_def round_constant_def GETU32_def xtime_power twice_def xtime_def)
qed

lemma steps_4: "[m..<m + 4] = [m, m + 1, m + 2, m + 3]"
  by (simp add: upt_rec eval_nat_numeral)

lemma steps_6: "[m..<m + 6] = [m, m + 1, m + 2, m + 3, m + 4, m + 5]"
  by (simp add: upt_rec eval_nat_numeral)

lemma steps_8: "[m..<m + 8] = [m, m + 1, m + 2, m + 3, m + 4, m + 5, m + 6, m + 7]"
  by (simp add: upt_rec eval_nat_numeral)

lemma past_multiple: "(k * Suc i + j) mod k = j mod k" "j < k \<Longrightarrow> (k * Suc i + j) div k = Suc i" for k :: nat
  by (simp_all add: add.commute del: mult_Suc_right)

lemmas schedule_simps = schedule_step_def Let_def nth_append rotated_word substituted_word rcon_constant
  past_multiple [of 4] past_multiple [of 6] past_multiple [of 8]

lemma expand_128_steps:
  assumes "length w = 4 * Suc i" "i < 10"
  shows "expand_128 i w = fold (schedule_step S 4) [4 * Suc i..<4 * Suc i + 4] w"
  unfolding steps_4 using assms
  by (simp add: expand_128_def schedule_simps) (simp add: add.commute)

lemma expand_192_steps:
  assumes "length w = 6 * Suc i" "i < 7"
  shows "expand_192 i w = fold (schedule_step S 6) [6 * Suc i..<6 * Suc i + 6] w"
  unfolding steps_6 using assms
  by (simp add: expand_192_def schedule_simps) (simp add: add.commute)

lemma expand_192_last:
  assumes "length w = 48"
  shows "expand_192 7 w = fold (schedule_step S 6) [48..<52] w"
  using assms steps_4 [of 48] by (simp add: expand_192_def schedule_simps)

lemma expand_256_steps:
  assumes "length w = 8 * Suc i" "i < 6"
  shows "expand_256 i w = fold (schedule_step S 8) [8 * Suc i..<8 * Suc i + 8] w"
  unfolding steps_8 using assms
  by (simp add: expand_256_def schedule_simps) (simp add: add.commute)

lemma expand_256_last:
  assumes "length w = 56"
  shows "expand_256 6 w = fold (schedule_step S 8) [56..<60] w"
  using assms steps_4 [of 56] by (simp add: expand_256_def schedule_simps)

lemma length_steps: "length (fold (schedule_step f Nk) is w) = length w + length is"
  by (induction "is" arbitrary: w) (simp_all add: schedule_step_def Let_def)

text \<open>Rounds of \<open>k\<close> words each, as long as each is \<open>k\<close> steps of the standard.\<close>

lemma fold_rounds:
  assumes step: "\<And>i w. length w = k * Suc i \<Longrightarrow> i < n \<Longrightarrow> ex i w = fold (schedule_step S k) [k * Suc i..<k * Suc i + k] w"
    and w: "length w = k"
  shows "m \<le> n \<Longrightarrow> fold ex [0..<m] w = fold (schedule_step S k) [k..<k * Suc m] w"
proof (induction m)
  case (Suc m)
  let ?w = "fold (schedule_step S k) [k..<k * Suc m] w"
  have l: "length ?w = k * Suc m" using w by (simp add: length_steps)
  have u: "[k..<k * Suc (Suc m)] = [k..<k * Suc m] @ [k * Suc m..<k * Suc m + k]"
    using upt_add_eq_append [of k "k * Suc m" k] by (simp add: ac_simps)
  have "fold ex [0..<Suc m] w = ex m ?w" using Suc by simp
  also have "\<dots> = fold (schedule_step S k) [k * Suc m..<k * Suc m + k] ?w" using step l Suc.prems by simp
  finally show ?case unfolding u fold_append comp_def .
qed simp

lemma schedule_128: "fold expand_128 [0..<10] (key_words key 4) = aes_schedule S 4 10 key"
  using fold_rounds [of 4 10 expand_128 "key_words key 4" 10] expand_128_steps
  by (simp add: aes_schedule_def key_words_def)

lemma schedule_192: "fold expand_192 [0..<8] (key_words key 6) = aes_schedule S 6 12 key"
proof -
  let ?w = "fold (schedule_step S 6) [6..<48] (key_words key 6)"
  have "fold expand_192 [0..<7] (key_words key 6) = ?w"
    using fold_rounds [of 6 7 expand_192 "key_words key 6" 7] expand_192_steps by (simp add: key_words_def)
  moreover have "length ?w = 48" by (simp only: length_steps key_words_def length_map length_upt)
  moreover have "[6..<52] = [6..<48] @ [48..<52]" "[0..<8] = [0..<7] @ [7]"
    using upt_add_eq_append [of 6 48 4] upt_add_eq_append [of 0 7 1] by simp_all
  ultimately show ?thesis
    by (simp only: fold_append fold.simps comp_def id_def expand_192_last aes_schedule_def key_words_def) simp
qed

lemma schedule_256: "fold expand_256 [0..<7] (key_words key 8) = aes_schedule S 8 14 key"
proof -
  let ?w = "fold (schedule_step S 8) [8..<56] (key_words key 8)"
  have "fold expand_256 [0..<6] (key_words key 8) = ?w"
    using fold_rounds [of 8 6 expand_256 "key_words key 8" 6] expand_256_steps by (simp add: key_words_def)
  moreover have "length ?w = 56" by (simp only: length_steps key_words_def length_map length_upt)
  moreover have "[8..<60] = [8..<56] @ [56..<60]" "[0..<7] = [0..<6] @ [6]"
    using upt_add_eq_append [of 8 56 4] upt_add_eq_append [of 0 6 1] by simp_all
  ultimately show ?thesis
    by (simp only: fold_append fold.simps comp_def id_def expand_256_last aes_schedule_def key_words_def) simp
qed

definition key_size :: "nat \<Rightarrow> nat \<Rightarrow> nat \<Rightarrow> bool" where
  "key_size keyBits Nk Nr \<longleftrightarrow> (keyBits, Nk, Nr) \<in> {(128, 4, 10), (192, 6, 12), (256, 8, 14)}"

lemma setup_is_schedule:
  "key_size keyBits Nk Nr \<Longrightarrow> 4 * Nk \<le> length key \<Longrightarrow>
    rijndaelKeySetupEnc key keyBits = Some (Nr, aes_schedule S Nk Nr key)"
  by (auto simp: key_size_def rijndaelKeySetupEnc_def schedule_128 schedule_192 schedule_256)

lemma length_schedule: "Nk \<le> 4 * (Nr + 1) \<Longrightarrow> length (aes_schedule f Nk Nr key) = 4 * (Nr + 1)"
  by (simp add: aes_schedule_def length_steps)

end
