(* ===== verification/AesTd.thy ===== *)
theory AesTd
  imports AesTe
begin

text \<open>
  The decryption tables by their entries: \<open>Td4\<close> has four copies of the inverse S-box, \<open>Td0\<close> the inverse
  S-box times the column 0e, 09, 0d, 0b of the inverse matrix, and \<open>Td1\<close>, \<open>Td2\<close> and \<open>Td3\<close> are
  \<open>Td0\<close> rotated.
\<close>

lemma length_Td [simp]: "length Td0 = 256" "length Td1 = 256" "length Td2 = 256" "length Td3 = 256" "length Td4 = 256"
  by (simp_all add: Td0_def Td1_def Td2_def Td3_def Td4_def)

lemma Td4_table: "map (\<lambda>w. copies (low w)) Td4 = Td4"
  by (simp add: Td4_def copies_def join_def low_def)

lemma Td4_nth: "Td4 ! unat x = join (Si x) (Si x) (Si x) (Si x)"
proof -
  have "map (\<lambda>w. copies (low w)) Td4 ! unat x = Td4 ! unat x" by (simp only: Td4_table)
  then show ?thesis by (simp add: Si_def copies_def low unat_byte)
qed

definition unmixed :: "u8 \<Rightarrow> u32" where
  "unmixed s = join (gmul s 0x0e) (gmul s 0x09) (gmul s 0x0d) (gmul s 0x0b)"

definition spread :: "u8 \<Rightarrow> u8 \<Rightarrow> u8 \<Rightarrow> u32" where
  "spread x9 xd xb = push_bit 16 (ucast x9) OR push_bit 8 (ucast xd) OR ucast xb"

text \<open>The evaluation in steps, each on the values of the step before.\<close>

definition unmixed_4 :: "u8 \<Rightarrow> u8 \<Rightarrow> u8 \<Rightarrow> u8 \<Rightarrow> u32" where
  "unmixed_4 s x2 x4 x9 = push_bit 24 (ucast (x9 XOR s XOR x2 XOR x4)) OR spread x9 (x9 XOR x4) (x9 XOR x2)"

definition unmixed_3 :: "u8 \<Rightarrow> u8 \<Rightarrow> u8 \<Rightarrow> u32" where
  "unmixed_3 s x2 x4 = unmixed_4 s x2 x4 (twice x4 XOR s)"

definition unmixed_2 :: "u8 \<Rightarrow> u8 \<Rightarrow> u32" where
  "unmixed_2 s x2 = unmixed_3 s x2 (twice x2)"

lemma unmixed_steps: "unmixed s = unmixed_2 s (twice s)"
proof -
  have j: "push_bit 24 (ucast a) OR spread b c d = join a b c d" for a b c d
    by (rule bit_word_eqI) (auto simp: spread_def bit_join bit_simps)
  show ?thesis
    by (simp add: unmixed_def unmixed_2_def unmixed_3_def unmixed_4_def j gmul_by twice ac_simps)
qed

lemma unmixed_numeral: "unmixed (numeral n) = unmixed_2 (numeral n) (twice (numeral n))"
    "unmixed 0 = unmixed_2 0 0" "unmixed 1 = unmixed_2 1 2"
  by (simp_all add: unmixed_steps twice_def)

lemma Td0_table: "Td0 = map (\<lambda>w. unmixed (low w)) Td4"
  by (simp add: Td0_def Td4_def low_def unmixed_numeral unmixed_2_def unmixed_3_def unmixed_4_def spread_def twice_def)

lemma Td0_nth: "Td0 ! unat x = join (gmul (Si x) 0x0e) (gmul (Si x) 0x09) (gmul (Si x) 0x0d) (gmul (Si x) 0x0b)"
  by (simp add: Td0_table low Si_def unmixed_def unat_byte)

subsection \<open>The rotated tables\<close>

lemma Td1_table: "map rotated_byte Td0 = Td1"
  by (simp add: Td0_def Td1_def rotated_byte_def)

lemma Td2_table: "map rotated_byte Td1 = Td2"
  by (simp add: Td1_def Td2_def rotated_byte_def)

lemma Td3_table: "map rotated_byte Td2 = Td3"
  by (simp add: Td2_def Td3_def rotated_byte_def)

lemma Td1_nth: "Td1 ! unat x = join (gmul (Si x) 0x0b) (gmul (Si x) 0x0e) (gmul (Si x) 0x09) (gmul (Si x) 0x0d)"
  by (simp add: rotated_nth [OF Td1_table] Td0_nth rotated_byte_join)

lemma Td2_nth: "Td2 ! unat x = join (gmul (Si x) 0x0d) (gmul (Si x) 0x0b) (gmul (Si x) 0x0e) (gmul (Si x) 0x09)"
  by (simp add: rotated_nth [OF Td2_table] Td1_nth rotated_byte_join)

lemma Td3_nth: "Td3 ! unat x = join (gmul (Si x) 0x09) (gmul (Si x) 0x0d) (gmul (Si x) 0x0b) (gmul (Si x) 0x0e)"
  by (simp add: rotated_nth [OF Td3_table] Td2_nth rotated_byte_join)

end
