(* ===== verification/AesSbox.thy ===== *)
theory AesSbox
  imports AesTe
begin

text \<open>
  The S-box in the tables is the one of FIPS 197, and \<open>Td4\<close> holds its inverse. Both are checked entry by
  entry, with a table of the inverses in the field.
\<close>

subsection \<open>Inverses\<close>

definition inverses :: "u8 list" where
  "inverses = [
    0, 1, 141, 246, 203, 82, 123, 209, 232, 79, 41, 192, 176, 225, 229, 199,
    116, 180, 170, 75, 153, 43, 96, 95, 88, 63, 253, 204, 255, 64, 238, 178,
    58, 110, 90, 241, 85, 77, 168, 201, 193, 10, 152, 21, 48, 68, 162, 194,
    44, 69, 146, 108, 243, 57, 102, 66, 242, 53, 32, 111, 119, 187, 89, 25,
    29, 254, 55, 103, 45, 49, 245, 105, 167, 100, 171, 19, 84, 37, 233, 9,
    237, 92, 5, 202, 76, 36, 135, 191, 24, 62, 34, 240, 81, 236, 97, 23,
    22, 94, 175, 211, 73, 166, 54, 67, 244, 71, 145, 223, 51, 147, 33, 59,
    121, 183, 151, 133, 16, 181, 186, 60, 182, 112, 208, 6, 161, 250, 129, 130,
    131, 126, 127, 128, 150, 115, 190, 86, 155, 158, 149, 217, 247, 2, 185, 164,
    222, 106, 50, 109, 216, 138, 132, 114, 42, 20, 159, 136, 249, 220, 137, 154,
    251, 124, 46, 195, 143, 184, 101, 72, 38, 200, 18, 74, 206, 231, 210, 98,
    12, 224, 31, 239, 17, 117, 120, 113, 165, 142, 118, 61, 189, 188, 134, 87,
    11, 40, 47, 163, 218, 212, 228, 15, 169, 39, 83, 4, 27, 252, 172, 230,
    122, 7, 174, 99, 197, 219, 226, 234, 148, 139, 196, 213, 157, 248, 144, 107,
    177, 13, 214, 235, 198, 14, 207, 173, 8, 78, 215, 227, 93, 80, 30, 179,
    91, 35, 56, 52, 104, 70, 3, 140, 221, 156, 125, 160, 205, 26, 65, 28]"

lemma length_inverses [simp]: "length inverses = 256"
  by (simp add: inverses_def)

lemma inverses_table: "\<forall>z \<in> set (map2 gmul (map of_nat [1..<256]) (tl inverses)). z = 1"
  by (simp add: inverses_def upt_rec gmul_numeral gmul_bits_numeral twice_def)

lemma gmul_inverses:
  assumes "x \<noteq> 0"
  shows "gmul x (inverses ! unat x) = 1"
proof -
  obtain m where m: "unat x = Suc m" "m < 255"
    using unat_byte [of x] assms by (cases "unat x") (auto simp: unsigned_eq_0_iff)
  have "map2 gmul (map of_nat [1..<256]) (tl inverses) ! m \<in> set (map2 gmul (map of_nat [1..<256]) (tl inverses))"
    using m by (intro nth_mem) simp
  then have "map2 gmul (map of_nat [1..<256]) (tl inverses) ! m = 1" using inverses_table by blast
  then have "gmul (of_nat (unat x)) (inverses ! unat x) = 1" using m by (simp add: nth_tl)
  then show ?thesis by simp
qed

definition affine_low :: "u8 \<Rightarrow> u8" where
  "affine_low y = y XOR (push_bit 1 y AND 0xff OR drop_bit 7 y) XOR (push_bit 2 y AND 0xff OR drop_bit 6 y) XOR
     (push_bit 3 y AND 0xff OR drop_bit 5 y) XOR (push_bit 4 y AND 0xff OR drop_bit 4 y) XOR 0x63"

lemma affine_low: "affine_low y = affine y"
  by (simp only: affine_low_def affine_def rotate_byte_def and_255) simp

lemma affine_numeral: "affine (numeral n) = affine_low (numeral n)" "affine 0 = affine_low 0" "affine 1 = affine_low 1"
  by (simp_all only: affine_low)

lemma sbox_table: "map low Te4 = map affine inverses"
  by (simp add: Te4_def inverses_def low_def affine_numeral affine_low_def)

lemma S_affine: "S x = affine (inverses ! unat x)"
proof -
  have "map low Te4 ! unat x = map affine inverses ! unat x" by (simp only: sbox_table)
  then show ?thesis by (simp add: S_def low unat_byte)
qed

theorem S_is_sbox: "is_sbox S"
  unfolding is_sbox_def
proof
  fix x
  have z: "inverses ! unat (0 :: u8) = 0" by (simp add: inverses_def)
  have "gmul 0 0 = 0" by (simp add: gmul_unfold)
  then show "\<exists>y. S x = affine y \<and> gmul x y = (if x = 0 then 0 else 1) \<and> (x = 0 \<longrightarrow> y = 0)"
    using z gmul_inverses [of x] by (intro exI [of _ "inverses ! unat x"]) (auto simp: S_affine)
qed

subsection \<open>The inverse\<close>

text \<open>The inverse S-box in rows of sixteen, so that an entry is found in few steps.\<close>

definition Si_rows :: "u8 list list" where
  "Si_rows = [
    [82, 9, 106, 213, 48, 54, 165, 56, 191, 64, 163, 158, 129, 243, 215, 251],
    [124, 227, 57, 130, 155, 47, 255, 135, 52, 142, 67, 68, 196, 222, 233, 203],
    [84, 123, 148, 50, 166, 194, 35, 61, 238, 76, 149, 11, 66, 250, 195, 78],
    [8, 46, 161, 102, 40, 217, 36, 178, 118, 91, 162, 73, 109, 139, 209, 37],
    [114, 248, 246, 100, 134, 104, 152, 22, 212, 164, 92, 204, 93, 101, 182, 146],
    [108, 112, 72, 80, 253, 237, 185, 218, 94, 21, 70, 87, 167, 141, 157, 132],
    [144, 216, 171, 0, 140, 188, 211, 10, 247, 228, 88, 5, 184, 179, 69, 6],
    [208, 44, 30, 143, 202, 63, 15, 2, 193, 175, 189, 3, 1, 19, 138, 107],
    [58, 145, 17, 65, 79, 103, 220, 234, 151, 242, 207, 206, 240, 180, 230, 115],
    [150, 172, 116, 34, 231, 173, 53, 133, 226, 249, 55, 232, 28, 117, 223, 110],
    [71, 241, 26, 113, 29, 41, 197, 137, 111, 183, 98, 14, 170, 24, 190, 27],
    [252, 86, 62, 75, 198, 210, 121, 32, 154, 219, 192, 254, 120, 205, 90, 244],
    [31, 221, 168, 51, 136, 7, 199, 49, 177, 18, 16, 89, 39, 128, 236, 95],
    [96, 81, 127, 169, 25, 181, 74, 13, 45, 229, 122, 159, 147, 201, 156, 239],
    [160, 224, 59, 77, 174, 42, 245, 176, 200, 235, 187, 60, 131, 83, 153, 97],
    [23, 43, 4, 126, 186, 119, 214, 38, 225, 105, 20, 99, 85, 33, 12, 125]]"

lemma Si_rows_table: "concat Si_rows = map low Td4"
  by (simp add: Si_rows_def Td4_def low_def)

lemma nth_rows: "\<forall>r \<in> set rows. length r = 16 \<Longrightarrow> n < 16 * length rows \<Longrightarrow> concat rows ! n = rows ! (n div 16) ! (n mod 16)"
proof (induction rows arbitrary: n)
  case (Cons r rows)
  then show ?case
    by (cases "n < 16") (simp_all add: nth_append le_div_geq le_mod_geq)
qed simp

lemma Si_row: "Si x = Si_rows ! (unat x div 16) ! (unat x mod 16)"
proof -
  have l: "\<forall>r \<in> set Si_rows. length r = 16" "length Si_rows = 16" by (simp_all add: Si_rows_def)
  have "length (map low Td4) = 256" using arg_cong [OF Si_rows_table, of length] l
    by (simp add: length_concat sum_list_triv Si_rows_def)
  then have "Si x = concat Si_rows ! unat x" using unat_byte [of x] by (simp add: Si_def low Si_rows_table)
  then show ?thesis using nth_rows [of Si_rows "unat x"] l unat_byte [of x] by simp
qed

lemma Si_numeral: "Si (numeral n) = Si_rows ! (unat (numeral n :: u8) div 16) ! (unat (numeral n :: u8) mod 16)"
    "Si 0 = 0x52" "Si 1 = 0x09"
  by (simp only: Si_row) (simp_all add: Si_row Si_rows_def)

lemma Si_S_table: "map (\<lambda>w. Si (low w)) Te4 = map of_nat [0..<256]"
  by (simp add: Si_numeral Te4_def Si_rows_def upt_rec low_def)

lemma Si_S [simp]: "Si (S x) = x"
proof -
  have "map (\<lambda>w. Si (low w)) Te4 ! unat x = map of_nat [0..<256] ! unat x" by (simp only: Si_S_table)
  then show ?thesis by (simp add: S_def low unat_byte)
qed

end
