(* ===== verification/AesInverse.thy ===== *)
theory AesInverse
  imports AesFips AesTd AesSbox
begin

text \<open>
  Decryption inverts encryption: a round of the decryption undoes the substitution, the shift of the rows and
  the mixing of the columns, with round keys to which the inverse mixing has been applied.
\<close>

subsection \<open>Rounds of the decryption\<close>

lemma Td_column_join:
  "Td_column (join a0 a1 a2 a3) (join b0 b1 b2 b3) (join c0 c1 c2 c3) (join d0 d1 d2 d3) =
    join (gmul (Si a0) 0x0e XOR gmul (Si b1) 0x0b XOR gmul (Si c2) 0x0d XOR gmul (Si d3) 0x09)
      (gmul (Si a0) 0x09 XOR gmul (Si b1) 0x0e XOR gmul (Si c2) 0x0b XOR gmul (Si d3) 0x0d)
      (gmul (Si a0) 0x0d XOR gmul (Si b1) 0x09 XOR gmul (Si c2) 0x0e XOR gmul (Si d3) 0x0b)
      (gmul (Si a0) 0x0b XOR gmul (Si b1) 0x0d XOR gmul (Si c2) 0x09 XOR gmul (Si d3) 0x0e)"
  by (simp add: Td_column_def entry_join Td0_nth Td1_nth Td2_nth Td3_nth join_xor ac_simps)

lemma inv_shift_rows_list: "inv_shift_rows [a0, a1, a2, a3, b0, b1, b2, b3, c0, c1, c2, c3, d0, d1, d2, d3] =
    [a0, d1, c2, b3, b0, a1, d2, c3, c0, b1, a2, d3, d0, c1, b2, a3]"
  by (simp add: inv_shift_rows_def upt_rec)

lemma dec_round_bytes: "store_block (dec_round rk j s) =
    add_key (key_bytes rk j) (inv_mix_columns (inv_shift_rows (map Si (store_block s))))"
proof -
  obtain s0 s1 s2 s3 where s: "s = (s0, s1, s2, s3)" by (cases s)
  show ?thesis unfolding s
    by (cases s0 rule: join_cases, cases s1 rule: join_cases, cases s2 rule: join_cases, cases s3 rule: join_cases,
        cases "rk ! j" rule: join_cases, cases "rk ! (j + 1)" rule: join_cases,
        cases "rk ! (j + 2)" rule: join_cases, cases "rk ! (j + 3)" rule: join_cases)
      (simp add: dec_round_def store_block_def key_bytes_def inv_shift_rows_list Td_column_join
        join_xor add_key_def ac_simps)
qed

lemma dec_last_bytes: "store_block (dec_last rk s) = add_key (key_bytes rk 0) (inv_shift_rows (map Si (store_block s)))"
proof -
  obtain s0 s1 s2 s3 where s: "s = (s0, s1, s2, s3)" by (cases s)
  show ?thesis unfolding s
    by (cases s0 rule: join_cases, cases s1 rule: join_cases, cases s2 rule: join_cases, cases s3 rule: join_cases,
        cases "rk ! 0" rule: join_cases, cases "rk ! Suc 0" rule: join_cases,
        cases "rk ! 2" rule: join_cases, cases "rk ! 3" rule: join_cases)
      (simp add: dec_last_def store_block_def key_bytes_0 inv_shift_rows_list substitute_join [where f = Si, OF Td4_nth]
        join_xor add_key_def)
qed

subsection \<open>Undoing the steps\<close>

lemma list_16: "length s = 16 \<Longrightarrow> s = [s ! 0, s ! 1, s ! 2, s ! 3, s ! 4, s ! 5, s ! 6, s ! 7,
    s ! 8, s ! 9, s ! 10, s ! 11, s ! 12, s ! 13, s ! 14, s ! 15]"
  by (rule nth_equalityI) (auto simp: less_Suc_eq eval_nat_numeral)

lemma cases_16:
  assumes "length s = 16"
  obtains a0 a1 a2 a3 b0 b1 b2 b3 c0 c1 c2 c3 d0 d1 d2 d3
  where "s = [a0, a1, a2, a3, b0, b1, b2, b3, c0, c1, c2, c3, d0, d1, d2, d3]"
  using list_16 [OF assms] by (rule that)

lemma inv_shift_shift: "length s = 16 \<Longrightarrow> inv_shift_rows (map Si (shift_rows (map S s))) = s"
  by (cases s rule: cases_16) (simp_all add: shift_rows_list inv_shift_rows_list)

lemma xor_cancel: "x XOR (x XOR y) = (y :: u8)"
  by (simp add: xor.assoc [symmetric])

lemma inv_mix_mix: "length s mod 4 = 0 \<Longrightarrow> inv_mix_columns (mix_columns s) = s"
proof (induction s rule: mix_columns.induct)
  case (1 a b c d s)
  then have "inv_mix_columns (mix_columns s) = s" by simp
  then show ?case by (simp add: gmul_by xtime_xor ac_simps xor_cancel)
qed auto

lemma inv_mix_add: "length s = length k \<Longrightarrow> inv_mix_columns (add_key k s) = add_key (inv_mix_columns k) (inv_mix_columns s)"
proof (induction s arbitrary: k rule: inv_mix_columns.induct)
  case (1 a b c d s)
  then obtain a' b' c' d' k' where k: "k = a' # b' # c' # d' # k'" "length s = length k'"
    by (auto simp: Suc_length_conv length_Suc_conv)
  then have "inv_mix_columns (add_key k' s) = add_key (inv_mix_columns k') (inv_mix_columns s)" using 1 by simp
  then show ?case using k by (simp add: add_key_def gmul_xor ac_simps)
qed (auto simp: add_key_def Suc_length_conv length_Suc_conv)

lemma add_key_twice: "length k = length s \<Longrightarrow> add_key k (add_key k s) = s"
  by (induction k s rule: list_induct2) (simp_all add: add_key_def xor.assoc)

subsection \<open>Round keys in reverse\<close>

definition swap_round_keys :: "nat \<Rightarrow> nat \<Rightarrow> u32 list \<Rightarrow> u32 list" where
  "swap_round_keys a b w = swap_words (4 * a + 3) (4 * b + 3) (swap_words (4 * a + 2) (4 * b + 2)
     (swap_words (4 * a + 1) (4 * b + 1) (swap_words (4 * a) (4 * b) w)))"

lemma length_swap [simp]: "length (swap_words i j w) = length w"
  by (simp add: swap_words_def)

lemma length_swap_round_keys [simp]: "length (swap_round_keys a b w) = length w"
  by (simp add: swap_round_keys_def)

lemma nth_swap: "i < length w \<Longrightarrow> j < length w \<Longrightarrow> swap_words i j w ! k = (if k = j then w ! i else if k = i then w ! j else w ! k)"
  by (simp add: swap_words_def nth_list_update)

lemma nth_swap_round_keys:
  assumes "a < b" "4 * b + 3 < length w" "k < 4"
  shows "swap_round_keys a b w ! (4 * r + k) = w ! (4 * (if r = a then b else if r = b then a else r) + k)"
proof -
  have e: "4 * r + k = 4 * c + l \<longleftrightarrow> r = c \<and> k = l" if "l < 4" for c l using assms(3) that by presburger
  have "k = 0 \<or> k = 1 \<or> k = 2 \<or> k = 3" using assms(3) by auto
  then show ?thesis
    using assms(1,2) e [of 0] e [of 1] e [of 2] e [of 3] by (elim disjE) (simp_all add: swap_round_keys_def nth_swap)
qed

lemma swap_keys_step: "a < b \<Longrightarrow> swap_keys (4 * a) (4 * b) w = swap_keys (4 * Suc a) (4 * (b - 1)) (swap_round_keys a b w)"
  by (subst swap_keys.simps) (simp add: swap_round_keys_def add.commute diff_mult_distrib2)

lemma swap_keys_done: "\<not> a < b \<Longrightarrow> swap_keys (4 * a) (4 * b) w = w"
  by (subst swap_keys.simps) simp

lemma nth_swap_keys:
  "4 * b + 3 < length w \<Longrightarrow> k < 4 \<Longrightarrow>
    swap_keys (4 * a) (4 * b) w ! (4 * r + k) = w ! (4 * (if a \<le> r \<and> r \<le> b then a + b - r else r) + k) \<and>
    length (swap_keys (4 * a) (4 * b) w) = length w"
proof (induction "b - a" arbitrary: a b w rule: less_induct)
  case less
  show ?case
  proof (cases "a < b")
    case True
    have "swap_keys (4 * Suc a) (4 * (b - 1)) (swap_round_keys a b w) ! (4 * r + k) =
        swap_round_keys a b w ! (4 * (if Suc a \<le> r \<and> r \<le> b - 1 then Suc a + (b - 1) - r else r) + k) \<and>
        length (swap_keys (4 * Suc a) (4 * (b - 1)) (swap_round_keys a b w)) = length (swap_round_keys a b w)"
      using True less.prems by (intro less.hyps) auto
    moreover have "(if Suc a \<le> r \<and> r \<le> b - 1 then Suc a + (b - 1) - r else r) =
        (if Suc a \<le> r \<and> r \<le> b - 1 then a + b - r else r)" using True by auto
    ultimately show ?thesis using True less.prems
      by (auto simp: swap_keys_step nth_swap_round_keys)
  next
    case False
    have "a + b - r = r" if "a \<le> r \<and> r \<le> b" using False that by arith
    with False show ?thesis by (simp add: swap_keys_done)
  qed
qed

subsection \<open>The inverse schedule\<close>

lemma entry_byte: "t ! unat (w AND 0xff) = entry t 0 w"
  by (simp add: entry_def)

lemma unmix_bytes: "PUTU32 (unmix_word w) = inv_mix_columns (PUTU32 w)"
  by (cases w rule: join_cases)
    (simp add: unmix_word_def entry_byte entry_join Te4_nth Td0_nth Td1_nth Td2_nth Td3_nth join_xor ac_simps)

lemma inv_mix_append: "inv_mix_columns (PUTU32 w @ s) = inv_mix_columns (PUTU32 w) @ inv_mix_columns s"
  by (cases w rule: join_cases) simp

definition inverse_schedule :: "nat \<Rightarrow> u32 list \<Rightarrow> u32 list" where
  "inverse_schedule Nr w =
    (let rk = swap_keys 0 (4 * Nr) w
     in map (\<lambda>i. if 4 \<le> i \<and> i < 4 * Nr then unmix_word (rk ! i) else rk ! i) [0..<length rk])"

lemma setup_dec: "rijndaelKeySetupEnc key keyBits = Some (Nr, w) \<Longrightarrow> rijndaelKeySetupDec key keyBits = Some (Nr, inverse_schedule Nr w)"
  by (simp add: rijndaelKeySetupDec_def inverse_schedule_def Let_def)

lemma length_inverse_schedule: "length w = 4 * (Nr + 1) \<Longrightarrow> length (inverse_schedule Nr w) = 4 * (Nr + 1)"
  using nth_swap_keys [of Nr w 0 0] by (simp add: inverse_schedule_def Let_def)

lemma nth_inverse_schedule:
  assumes l: "length w = 4 * (Nr + 1)" and r: "r \<le> Nr" "k < 4"
  shows "inverse_schedule Nr w ! (4 * r + k) =
    (if 0 < r \<and> r < Nr then unmix_word (w ! (4 * (Nr - r) + k)) else w ! (4 * (Nr - r) + k))"
proof -
  let ?s = "swap_keys 0 (4 * Nr) w"
  have "length ?s = length w" using nth_swap_keys [of Nr w 0 0] l by simp
  then have i: "4 * r + k < length ?s" using r l by simp
  have s: "?s ! (4 * r + k) = w ! (4 * (Nr - r) + k)" using nth_swap_keys [of Nr w k 0 r] l r by simp
  have c: "4 \<le> 4 * r + k \<and> 4 * r + k < 4 * Nr \<longleftrightarrow> 0 < r \<and> r < Nr" using r by arith
  have "inverse_schedule Nr w ! (4 * r + k) =
      (if 4 \<le> 4 * r + k \<and> 4 * r + k < 4 * Nr then unmix_word (?s ! (4 * r + k)) else ?s ! (4 * r + k))"
    using i by (simp add: inverse_schedule_def Let_def)
  then show ?thesis unfolding c s .
qed

lemma key_bytes_inverse_schedule:
  assumes l: "length w = 4 * (Nr + 1)" and r: "r \<le> Nr"
  shows "key_bytes (inverse_schedule Nr w) (4 * r) =
    (if 0 < r \<and> r < Nr then inv_mix_columns (key_bytes w (4 * (Nr - r))) else key_bytes w (4 * (Nr - r)))"
  using nth_inverse_schedule [OF l r, of 0] nth_inverse_schedule [OF l r, of 1]
    nth_inverse_schedule [OF l r, of 2] nth_inverse_schedule [OF l r, of 3]
  by (simp add: key_bytes_def unmix_bytes inv_mix_append)

subsection \<open>Decryption\<close>

lemma rijndaelDecrypt_fold:
  assumes "even Nr" "0 < Nr" "4 * (Nr + 1) \<le> length rk" "16 \<le> length ct"
  shows "rijndaelDecrypt rk Nr ct =
    Some (store_block (dec_last (drop (4 * Nr) rk) (fold (\<lambda>j. dec_round rk (4 * j)) [1..<Nr] (load_block ct rk))))"
proof -
  obtain r where r: "Nr = 2 * Suc r" using assms(1,2) by (metis evenE gr0_conv_Suc mult_pos_pos nat_0_less_mult_iff)
  have "round_loop dec_round rk (Suc r) s = Some (drop (8 * Suc r) rk, fold (\<lambda>j. dec_round rk (4 * j)) [1..<2 * Suc r] s)" for s
    using assms(3) r by (intro round_loop_fold dec_round_drop) simp_all
  then show ?thesis using assms(3,4) r by (simp add: rijndaelDecrypt_def del: round_loop.simps)
qed

text \<open>The block before round \<open>r + 1\<close> of the encryption, and the state of the decryption.\<close>

definition enc_state :: "u32 list \<Rightarrow> bytes \<Rightarrow> nat \<Rightarrow> bytes" where
  "enc_state w s r = fold (\<lambda>j. cipher_round S (key_bytes w (4 * j))) [1..<Suc r] (add_key (key_bytes w 0) s)"

lemma enc_state_Suc: "enc_state w s (Suc r) = cipher_round S (key_bytes w (4 * Suc r)) (enc_state w s r)"
  by (simp add: enc_state_def)

lemma length_key_bytes [simp]: "length (key_bytes w j) = 16"
  by (simp add: key_bytes_def PUTU32_def)

lemma length_add_key [simp]: "length (add_key k s) = min (length s) (length k)"
  by (simp add: add_key_def)

lemma length_mix_columns: "length s mod 4 = 0 \<Longrightarrow> length (mix_columns s) = length s"
  by (induction s rule: mix_columns.induct) auto

lemma length_shift_rows [simp]: "length (shift_rows s) = 16"
  by (simp add: shift_rows_def)

lemma length_enc_state: "length s = 16 \<Longrightarrow> length (enc_state w s r) = 16"
  by (induction r) (simp_all add: enc_state_Suc cipher_round_def length_mix_columns, simp add: enc_state_def)

definition shifted :: "bytes \<Rightarrow> bytes" where
  "shifted s = shift_rows (map S s)"

lemma length_shifted [simp]: "length (shifted s) = 16"
  by (simp add: shifted_def)

lemma undo_round:
  assumes "length s = 16"
  shows "store_block x = shifted (enc_state w s (Suc r)) \<Longrightarrow> key_bytes rk j = inv_mix_columns (key_bytes w (4 * Suc r)) \<Longrightarrow>
    store_block (dec_round rk j x) = shifted (enc_state w s r)"
proof -
  assume x: "store_block x = shifted (enc_state w s (Suc r))" and k: "key_bytes rk j = inv_mix_columns (key_bytes w (4 * Suc r))"
  have l: "length (mix_columns (shifted (enc_state w s r))) = 16" by (simp add: length_mix_columns)
  have i: "length (inv_mix_columns (key_bytes w (4 * Suc r))) = 16" by (metis k length_key_bytes)
  have "inv_shift_rows (map Si (store_block x)) = enc_state w s (Suc r)"
    using inv_shift_shift [OF length_enc_state [OF assms]] by (simp add: x shifted_def)
  then show ?thesis
    using l i by (simp add: dec_round_bytes k enc_state_Suc cipher_round_def inv_mix_add inv_mix_mix add_key_twice flip: shifted_def)
qed

lemma undo_rounds:
  assumes s: "length s = 16" and x: "store_block x = shifted (enc_state w s n)"
    and k: "\<And>r. 0 < r \<Longrightarrow> r \<le> n \<Longrightarrow> key_bytes rk (4 * r) = inv_mix_columns (key_bytes w (4 * (Suc n - r)))"
  shows "m \<le> n \<Longrightarrow> store_block (fold (\<lambda>j. dec_round rk (4 * j)) [1..<Suc m] x) = shifted (enc_state w s (n - m))"
proof (induction m)
  case 0
  then show ?case using x by simp
next
  case (Suc m)
  then have "store_block (fold (\<lambda>j. dec_round rk (4 * j)) [1..<Suc m] x) = shifted (enc_state w s (Suc (n - Suc m)))"
    by (simp add: Suc_diff_Suc)
  moreover have "key_bytes rk (4 * Suc m) = inv_mix_columns (key_bytes w (4 * Suc (n - Suc m)))"
    using k [of "Suc m"] Suc.prems by (simp add: Suc_diff_Suc)
  ultimately show ?case using undo_round [OF s] by (simp del: mult_Suc_right)
qed

lemma decrypt_undoes:
  assumes Nr: "even Nr" "0 < Nr" and w: "4 * (Nr + 1) \<le> length w" and rk: "4 * (Nr + 1) \<le> length rk"
    and k: "\<And>r. r \<le> Nr \<Longrightarrow> key_bytes rk (4 * r) =
       (if 0 < r \<and> r < Nr then inv_mix_columns (key_bytes w (4 * (Nr - r))) else key_bytes w (4 * (Nr - r)))"
    and pt: "length pt = 16"
  obtains ct where "rijndaelEncrypt w Nr pt = Some ct" "length ct = 16" "rijndaelDecrypt rk Nr ct = Some pt"
proof
  define ct where "ct = add_key (key_bytes w (4 * Nr)) (shifted (enc_state w pt (Nr - 1)))"
  show l: "length ct = 16" by (simp add: ct_def shifted_def)
  show "rijndaelEncrypt w Nr pt = Some ct"
    using Nr w pt by (simp add: encrypt_is_cipher aes_cipher_def ct_def shifted_def enc_state_def round_key)
  have "store_block (load_block ct rk) = shifted (enc_state w pt (Nr - 1))"
    using l k [of 0] by (simp add: load_block_bytes ct_def shifted_def add_key_twice)
  then have "store_block (fold (\<lambda>j. dec_round rk (4 * j)) [1..<Suc (Nr - 1)] (load_block ct rk)) =
      shifted (enc_state w pt (Nr - 1 - (Nr - 1)))"
    using Nr(2) k by (intro undo_rounds [OF pt]) (auto simp: Suc_diff_Suc)
  moreover have "inv_shift_rows (map Si (shifted (enc_state w pt 0))) = enc_state w pt 0"
    using inv_shift_shift [OF length_enc_state [OF pt]] by (simp add: shifted_def)
  ultimately show "rijndaelDecrypt rk Nr ct = Some pt"
    using Nr rk l k [of Nr] pt
    by (simp add: rijndaelDecrypt_fold dec_last_bytes key_bytes_drop enc_state_def add_key_twice)
qed

end
