(* ===== verification/AesModes.thy ===== *)
theory AesModes
  imports AesApi AesInverse
begin

text \<open>
  What the modes need of the cipher, as a locale: a function on blocks and its inverse, which look at the first
  sixteen octets only. The three lengths of AES keys are its interpretations.
\<close>

subsection \<open>Single bits of a block\<close>

definition sbit :: "bytes \<Rightarrow> nat \<Rightarrow> bool" where
  "sbit xs k = bit (xs ! (k div 8)) (7 - k mod 8)"

lemma stream_bit_cong: "sbit xs k = sbit ys k \<Longrightarrow> stream_bit xs k = stream_bit ys k"
  by (rule bit_word_eqI) (auto simp: stream_bit_def sbit_def bit_simps)

lemma length_shift_iv [simp]: "length (shift_iv iv b) = 16"
  by (simp add: shift_iv_def)

lemma length_mask_bit [simp]: "length (mask_bit k block out) = length out"
  by (simp add: mask_bit_def)

lemma bit_0x80: "bit (0x80 :: u8) i \<longleftrightarrow> i = 7"
proof (cases "i < 8")
  case True
  then have "i = 0 \<or> i = 1 \<or> i = 2 \<or> i = 3 \<or> i = 4 \<or> i = 5 \<or> i = 6 \<or> i = 7" by arith
  then show ?thesis by (elim disjE) simp_all
qed simp

lemma bit_top: "bit (drop_bit m (b AND 0x80 :: u8)) n \<longleftrightarrow> n + m = 7 \<and> bit b 7"
  by (simp only: bit_drop_bit_eq comp_def bit_and_iff bit_0x80) (metis add.commute)

lemma sbit_mask_bit:
  assumes "length out = 16" "j < 128" "k < 128"
  shows "sbit (mask_bit k block out) j \<longleftrightarrow> (sbit out j \<noteq> (j = k \<and> bit (block ! 0) 7))"
proof (cases "j div 8 = k div 8")
  case True
  have m: "k mod 8 < 8" "j mod 8 < 8" by simp_all
  have "j = k \<longleftrightarrow> j mod 8 = k mod 8" using True by (metis div_mult_mod_eq)
  moreover have "k div 8 < 16" using assms(3) by (simp add: less_mult_imp_div_less)
  ultimately show ?thesis using True m assms(1)
    by (auto simp: sbit_def mask_bit_def bit_xor_iff bit_top simp del: drop_bit_and)
next
  case False
  then show ?thesis by (auto simp: sbit_def mask_bit_def)
qed

lemma bytes_by_bits:
  assumes "length xs = 16" "length ys = 16" "\<And>j. j < 128 \<Longrightarrow> sbit xs j = sbit ys j"
  shows "xs = ys"
proof (rule nth_equalityI)
  fix i assume i: "i < length xs"
  show "xs ! i = ys ! i"
  proof (rule bit_word_eqI)
    fix n assume "n < LENGTH(8)"
    then have n: "n < 8" by simp
    then obtain k where k: "k < 8" "n = 7 - k" by (intro that [of "7 - n"]) simp_all
    then have d: "(i * 8 + k) div 8 = i" "7 - (i * 8 + k) mod 8 = n" by simp_all
    have "i * 8 + k < 128" using i assms(1) k(1) by simp
    then show "bit (xs ! i) n = bit (ys ! i) n" using assms(3) [of "i * 8 + k"] unfolding sbit_def d by blast
  qed
qed (simp add: assms)

subsection \<open>Padding\<close>

text \<open>What the decryption needs to know of a block that has been padded.\<close>

definition padded :: "bytes \<Rightarrow> nat \<Rightarrow> bytes \<Rightarrow> bool" where
  "padded block p rest \<longleftrightarrow> 0 < p \<and> p \<le> 16 \<and> length block = 16 \<and> unat (block ! 15) = p \<and> pad_bytes_ok block p \<and>
     take (16 - p) block = rest"

lemma pad_block_padded:
  assumes "length rest = 16 - p" "0 < p" "p \<le> 16"
  obtains block where "pad_block (rest @ extra) p = Some block" "length block = 16" "padded block p rest"
proof
  let ?b = "rest @ replicate p (of_nat p :: u8)"
  show "pad_block (rest @ extra) p = Some ?b" using assms(1) by (simp add: pad_block_def)
  show l: "length ?b = 16" using assms by simp
  have u: "unat (of_nat p :: u8) = p" using assms(3) by (simp add: unat_of_nat take_bit_nat_eq_self)
  have "\<not> 15 < 16 - p" using assms by arith
  then have "?b ! 15 = of_nat p" using assms by (simp add: nth_append)
  with l u assms show "padded ?b p rest" by (auto simp: padded_def pad_bytes_ok_def)
qed

subsection \<open>The modes over any block cipher\<close>

locale block_cipher =
  fixes enc dec :: "bytes \<Rightarrow> bytes option"
  assumes inverse: "length pt = 16 \<Longrightarrow> \<exists>ct. enc pt = Some ct \<and> length ct = 16 \<and> dec ct = Some pt"
    and first_16: "16 \<le> length xs \<Longrightarrow> enc xs = enc (take 16 xs) \<and> dec xs = dec (take 16 xs)"
begin

lemma block:
  assumes "16 \<le> length xs"
  obtains ct where "enc xs = Some ct" "length ct = 16" "\<And>ys. dec (ct @ ys) = Some (take 16 xs)"
proof -
  obtain ct where ct: "enc (take 16 xs) = Some ct" "length ct = 16" "dec ct = Some (take 16 xs)"
    using inverse [of "take 16 xs"] assms by auto
  have "dec (ct @ ys) = dec ct" for ys using first_16 [of "ct @ ys"] ct(2) by simp
  then show thesis using ct first_16 [OF assms] by (intro that) auto
qed

lemma ecb_roundtrip:
  "16 * n \<le> length input \<Longrightarrow>
    \<exists>out. ecb_blocks enc n input = Some (out, drop (16 * n) input) \<and> length out = 16 * n \<and>
      (\<forall>rest. ecb_blocks dec n (out @ rest) = Some (take (16 * n) input, rest))"
proof (induction n arbitrary: input)
  case (Suc n)
  have l: "16 * n \<le> length (drop 16 input)" using Suc.prems by simp
  obtain ct where ct: "enc input = Some ct" "length ct = 16" "\<And>ys. dec (ct @ ys) = Some (take 16 input)"
    using Suc.prems by (metis block add_leD1 mult_Suc_right)
  obtain out where "ecb_blocks enc n (drop 16 input) = Some (out, drop (16 * n) (drop 16 input))" "length out = 16 * n"
      "\<And>rest. ecb_blocks dec n (out @ rest) = Some (take (16 * n) (drop 16 input), rest)"
    using Suc.IH [OF l] by auto
  then show ?case using ct by (intro exI [of _ "ct @ out"]) (simp add: take_add add.commute)
qed simp

lemma xor_block_twice: "16 \<le> length xs \<Longrightarrow> length iv = 16 \<Longrightarrow> xor_block (xor_block xs iv) iv = take 16 xs"
  by (rule nth_equalityI) (simp_all add: xor_block_def xor.assoc)

lemma length_xor_block: "16 \<le> length xs \<Longrightarrow> length iv = 16 \<Longrightarrow> length (xor_block xs iv) = 16"
  by (simp add: xor_block_def)

lemma cbc_block:
  assumes "16 \<le> length xs" "length iv = 16"
  obtains ct where "enc (xor_block xs iv) = Some ct" "length ct = 16"
    "\<And>ys. \<exists>b. dec (ct @ ys) = Some b \<and> xor_block b iv = take 16 xs"
proof -
  have l: "length (xor_block xs iv) = 16" using assms by (rule length_xor_block)
  obtain ct where "enc (xor_block xs iv) = Some ct" "length ct = 16"
      "\<And>ys. dec (ct @ ys) = Some (take 16 (xor_block xs iv))"
    using block [of "xor_block xs iv"] l by (metis order_refl)
  then show thesis using l xor_block_twice [OF assms] by (intro that) auto
qed

lemma cbc_roundtrip:
  "16 * n \<le> length input \<Longrightarrow> length iv = 16 \<Longrightarrow>
    \<exists>out iv'. cbc_encrypt enc n iv input = Some (out, iv', drop (16 * n) input) \<and> length out = 16 * n \<and> length iv' = 16 \<and>
      (\<forall>rest. cbc_decrypt dec n iv (out @ rest) = Some (take (16 * n) input, iv', rest))"
proof (induction n arbitrary: input iv)
  case (Suc n)
  have l: "16 * n \<le> length (drop 16 input)" using Suc.prems by simp
  obtain ct where ct: "enc (xor_block input iv) = Some ct" "length ct = 16"
      "\<And>ys. \<exists>b. dec (ct @ ys) = Some b \<and> xor_block b iv = take 16 input"
    using Suc.prems by (metis cbc_block add_leD1 mult_Suc_right)
  obtain out iv' where o: "cbc_encrypt enc n ct (drop 16 input) = Some (out, iv', drop (16 * n) (drop 16 input))"
      "length out = 16 * n" "length iv' = 16"
      "\<And>rest. cbc_decrypt dec n ct (out @ rest) = Some (take (16 * n) (drop 16 input), iv', rest)"
    using Suc.IH [OF l ct(2)] by auto
  have "cbc_decrypt dec (Suc n) iv ((ct @ out) @ rest) = Some (take (16 * Suc n) input, iv', rest)" for rest
    using ct(3) [of "out @ rest"] ct(2) o(4) [of rest] by (auto simp: take_add)
  then show ?case using ct(1,2) o(1-3)
    by (intro exI [of _ "ct @ out"] exI [of _ iv']) (simp add: add.commute)
qed auto

lemma cfb1_step:
  assumes "length iv = 16"
  obtains block where "enc iv = Some block"
  using block [of iv] assms by auto

lemma cfb1_bits_roundtrip:
  "distinct ks \<Longrightarrow> \<forall>k \<in> set ks. k < 128 \<Longrightarrow> length iv = 16 \<Longrightarrow> length out = 16 \<Longrightarrow>
    \<exists>iv' ct. cfb1_bits True enc input ks iv out = Some (iv', ct) \<and> length iv' = 16 \<and> length ct = 16 \<and>
      (\<forall>j < 128. j \<notin> set ks \<longrightarrow> sbit ct j = sbit out j) \<and>
      (\<forall>ct' x. length x = 16 \<longrightarrow> (\<forall>j \<in> set ks. sbit ct' j = sbit ct j \<and> sbit x j = sbit ct j) \<longrightarrow>
        (\<exists>y. cfb1_bits False enc ct' ks iv x = Some (iv', y) \<and> length y = 16 \<and>
          (\<forall>j < 128. sbit y j = (if j \<in> set ks then sbit out j else sbit x j))))"
proof (induction ks arbitrary: iv out)
  case (Cons k ks)
  obtain block where b: "enc iv = Some block" using Cons.prems(3) by (rule cfb1_step)
  let ?out = "mask_bit k block out"
  let ?iv = "shift_iv iv (stream_bit ?out k)"
  have k: "k < 128" "k \<notin> set ks" using Cons.prems(1,2) by auto
  obtain iv' ct where r: "cfb1_bits True enc input ks ?iv ?out = Some (iv', ct)" "length iv' = 16" "length ct = 16"
      and old: "\<And>j. j < 128 \<Longrightarrow> j \<notin> set ks \<Longrightarrow> sbit ct j = sbit ?out j"
      and dec: "\<And>ct' x. length x = 16 \<Longrightarrow> (\<forall>j \<in> set ks. sbit ct' j = sbit ct j \<and> sbit x j = sbit ct j) \<Longrightarrow>
        (\<exists>y. cfb1_bits False enc ct' ks ?iv x = Some (iv', y) \<and> length y = 16 \<and>
          (\<forall>j < 128. sbit y j = (if j \<in> set ks then sbit ?out j else sbit x j)))"
    using Cons.IH [of ?iv ?out] Cons.prems by auto
  have m: "sbit (mask_bit k block x) j = (sbit x j \<noteq> (j = k \<and> bit (block ! 0) 7))" if "length x = 16" "j < 128" for x j
    using that k(1) by (rule sbit_mask_bit)
  have "\<exists>y. cfb1_bits False enc ct' (k # ks) iv x = Some (iv', y) \<and> length y = 16 \<and>
      (\<forall>j < 128. sbit y j = (if j \<in> set (k # ks) then sbit out j else sbit x j))"
    if x: "length x = 16" "\<forall>j \<in> set (k # ks). sbit ct' j = sbit ct j \<and> sbit x j = sbit ct j" for ct' x
  proof -
    have "stream_bit ct' k = stream_bit ?out k" using x(2) old [OF k] by (intro stream_bit_cong) simp
    moreover have "\<forall>j \<in> set ks. sbit ct' j = sbit ct j \<and> sbit (mask_bit k block x) j = sbit ct j"
      using x k Cons.prems(2) by (auto simp: m)
    ultimately obtain y where y: "cfb1_bits False enc ct' (k # ks) iv x = Some (iv', y)" "length y = 16"
        "\<And>j. j < 128 \<Longrightarrow> sbit y j = (if j \<in> set ks then sbit ?out j else sbit (mask_bit k block x) j)"
      using dec [of "mask_bit k block x" ct'] x(1) by (auto simp: b Let_def)
    have "sbit y j = (if j \<in> set (k # ks) then sbit out j else sbit x j)" if j: "j < 128" for j
      using y(3) [OF j] x(2) old [OF k] k Cons.prems(4) m [OF x(1) j] m [OF Cons.prems(4) j] by auto
    with y(1,2) show ?thesis by blast
  qed
  moreover have "cfb1_bits True enc input (k # ks) iv out = Some (iv', ct)" using r(1) by (simp add: b Let_def)
  moreover have "sbit ct j = sbit out j" if "j < 128" "j \<notin> set (k # ks)" for j
    using old that m [OF Cons.prems(4)] by simp
  ultimately show ?case using r(2,3) by blast
qed auto

lemma cfb1_block:
  assumes "length iv = 16" "length pt = 16"
  obtains iv' ct where "cfb1_bits True enc pt [0..<128] iv pt = Some (iv', ct)" "length iv' = 16" "length ct = 16"
    "cfb1_bits False enc ct [0..<128] iv ct = Some (iv', pt)"
proof -
  have ks: "distinct [0..<128]" "\<forall>k \<in> set [0..<128]. k < 128" by simp_all
  obtain iv' ct where r: "cfb1_bits True enc pt [0..<128] iv pt = Some (iv', ct)" "length iv' = 16" "length ct = 16"
      and dec: "\<exists>y. cfb1_bits False enc ct [0..<128] iv ct = Some (iv', y) \<and> length y = 16 \<and>
          (\<forall>j < 128. sbit y j = (if j \<in> set [0..<128] then sbit pt j else sbit ct j))"
    using cfb1_bits_roundtrip [OF ks assms, of pt] by blast
  obtain y where y: "cfb1_bits False enc ct [0..<128] iv ct = Some (iv', y)" "length y = 16" "\<And>j. j < 128 \<Longrightarrow> sbit y j = sbit pt j"
    using dec by (auto simp del: upt_rec_numeral)
  have "y = pt" using y(2) assms(2) y(3) by (rule bytes_by_bits)
  with r y(1) show thesis by (intro that) simp_all
qed

lemma cfb1_roundtrip:
  "16 * n \<le> length input \<Longrightarrow> length iv = 16 \<Longrightarrow>
    \<exists>out iv'. cfb1_blocks True enc n iv input = Some (out, iv') \<and> length out = 16 * n \<and> length iv' = 16 \<and>
      (\<forall>rest. cfb1_blocks False enc n iv (out @ rest) = Some (take (16 * n) input, iv'))"
proof (induction n arbitrary: input iv)
  case (Suc n)
  have l: "16 * n \<le> length (drop 16 input)" "length (take 16 input) = 16" using Suc.prems by simp_all
  obtain iv1 ct where ct: "cfb1_bits True enc (take 16 input) [0..<128] iv (take 16 input) = Some (iv1, ct)" "length iv1 = 16"
      "length ct = 16" "cfb1_bits False enc ct [0..<128] iv ct = Some (iv1, take 16 input)"
    using cfb1_block [OF Suc.prems(2) l(2)] .
  obtain out iv' where o: "cfb1_blocks True enc n iv1 (drop 16 input) = Some (out, iv')" "length out = 16 * n" "length iv' = 16"
      "\<And>rest. cfb1_blocks False enc n iv1 (out @ rest) = Some (take (16 * n) (drop 16 input), iv')"
    using Suc.IH [OF l(1) ct(2)] by auto
  have "cfb1_blocks False enc (Suc n) iv ((ct @ out) @ rest) = Some (take (16 * Suc n) input, iv')" for rest
    using ct(3,4) o(4) [of rest] by (simp add: take_add del: upt_rec_numeral)
  moreover have "cfb1_blocks True enc (Suc n) iv input = Some (ct @ out, iv')"
    using ct(1) o(1) Suc.prems(1) by (simp del: upt_rec_numeral)
  ultimately show ?case using ct(3) o(2,3) by (intro exI [of _ "ct @ out"] exI [of _ iv']) simp
qed auto

text \<open>A message with padding: \<open>n\<close> blocks and one more, which ends in its own number of missing octets.\<close>

lemma ecb_pad_roundtrip:
  assumes n: "n = length msg div 16" and p: "p = 16 - length msg mod 16"
  obtains outs block out where "ecb_blocks enc n (msg @ extra) = Some (outs, drop (16 * n) msg @ extra)"
    "pad_block (drop (16 * n) msg @ extra) p = Some block" "enc block = Some out" "length outs = 16 * n" "length out = 16"
    "ecb_blocks dec n (outs @ out) = Some (take (16 * n) msg, out)" "dec out = Some block" "padded block p (drop (16 * n) msg)"
proof -
  have l: "length (drop (16 * n) msg) = 16 - p" "16 * n \<le> length msg" "0 < p" "p \<le> 16"
    using n p by (simp_all add: minus_mult_div_eq_mod)
  obtain block where b: "pad_block (drop (16 * n) msg @ extra) p = Some block" "length block = 16" "padded block p (drop (16 * n) msg)"
    using pad_block_padded [OF l(1,3,4)] .
  obtain out where out: "enc block = Some out" "length out = 16" "dec out = Some block" using inverse [OF b(2)] by blast
  obtain outs where "ecb_blocks enc n (msg @ extra) = Some (outs, drop (16 * n) (msg @ extra))" "length outs = 16 * n"
      "\<And>rest. ecb_blocks dec n (outs @ rest) = Some (take (16 * n) (msg @ extra), rest)"
    using ecb_roundtrip [of n "msg @ extra"] l(2) by auto
  with b out l(2) show thesis by (intro that) simp_all
qed

lemma cbc_pad_roundtrip:
  assumes n: "n = length msg div 16" and p: "p = 16 - length msg mod 16" and iv: "length iv = 16"
  obtains outs iv' block out block' where
    "cbc_encrypt enc n iv (msg @ extra) = Some (outs, iv', drop (16 * n) msg @ extra)"
    "pad_block (drop (16 * n) msg @ extra) p = Some block" "enc (xor_block block iv') = Some out" "length outs = 16 * n" "length out = 16"
    "cbc_decrypt dec n iv (outs @ out) = Some (take (16 * n) msg, iv', out)" "dec out = Some block'" "xor_block block' iv' = block"
    "padded block p (drop (16 * n) msg)"
proof -
  have l: "length (drop (16 * n) msg) = 16 - p" "16 * n \<le> length msg" "0 < p" "p \<le> 16"
    using n p by (simp_all add: minus_mult_div_eq_mod)
  obtain block where b: "pad_block (drop (16 * n) msg @ extra) p = Some block" "length block = 16" "padded block p (drop (16 * n) msg)"
    using pad_block_padded [OF l(1,3,4)] .
  obtain outs iv' where o: "cbc_encrypt enc n iv (msg @ extra) = Some (outs, iv', drop (16 * n) (msg @ extra))" "length outs = 16 * n"
      "length iv' = 16" "\<And>rest. cbc_decrypt dec n iv (outs @ rest) = Some (take (16 * n) (msg @ extra), iv', rest)"
    using cbc_roundtrip [of n "msg @ extra" iv] l(2) iv by auto
  obtain out where out: "enc (xor_block block iv') = Some out" "length out = 16"
      "\<And>ys. \<exists>x. dec (out @ ys) = Some x \<and> xor_block x iv' = take 16 block"
    using cbc_block [of block iv'] b(2) o(3) by (metis order_refl)
  obtain x where "dec out = Some x" "xor_block x iv' = block" using out(3) [of "[]"] b(2) by auto
  with b o out(1,2) l(2) show thesis by (intro that) simp_all
qed

end

subsection \<open>AES\<close>

text \<open>The schedules in arrays that are longer than they need to be.\<close>

lemma key_bytes_append: "j + 3 < length w \<Longrightarrow> key_bytes (w @ tail) j = key_bytes w j"
  by (simp add: key_bytes_def nth_append)

lemma aes_cipher_append:
  assumes "4 * (Nr + 1) \<le> length w"
  shows "aes_cipher f (w @ tail) Nr s = aes_cipher f w Nr s"
proof -
  have r: "round_key (w @ tail) r = round_key w r" if "r \<le> Nr" for r
    using assms that by (simp add: round_key key_bytes_append)
  have "fold (\<lambda>r. cipher_round f (round_key (w @ tail) r)) [1..<Nr] x = fold (\<lambda>r. cipher_round f (round_key w r)) [1..<Nr] x" for x
    by (rule fold_cong) (auto simp: r)
  then show ?thesis by (simp add: aes_cipher_def r)
qed

lemma encrypt_first_16: "16 \<le> length xs \<Longrightarrow> rijndaelEncrypt rk Nr xs = rijndaelEncrypt rk Nr (take 16 xs)"
  by (simp add: rijndaelEncrypt_def load_block_def GETU32_def)

lemma decrypt_first_16: "16 \<le> length xs \<Longrightarrow> rijndaelDecrypt rk Nr xs = rijndaelDecrypt rk Nr (take 16 xs)"
  by (simp add: rijndaelDecrypt_def load_block_def GETU32_def)

lemma aes_block_cipher:
  assumes "key_size keyBits Nk Nr"
  shows "block_cipher (rijndaelEncrypt (aes_schedule S Nk Nr key @ tail) Nr)
    (rijndaelDecrypt (inverse_schedule Nr (aes_schedule S Nk Nr key) @ tail') Nr)"
proof
  let ?w = "aes_schedule S Nk Nr key" and ?rk = "inverse_schedule Nr (aes_schedule S Nk Nr key)"
  have Nr: "even Nr" "0 < Nr" and w: "length ?w = 4 * (Nr + 1)" using assms by (auto simp: key_size_def length_schedule)
  have rk: "length ?rk = 4 * (Nr + 1)" using w by (rule length_inverse_schedule)
  have k: "key_bytes (?rk @ tail') (4 * r) =
      (if 0 < r \<and> r < Nr then inv_mix_columns (key_bytes (?w @ tail) (4 * (Nr - r))) else key_bytes (?w @ tail) (4 * (Nr - r)))"
    if "r \<le> Nr" for r
    using key_bytes_inverse_schedule [OF w that] that w rk by (simp add: key_bytes_append)
  show "\<exists>ct. rijndaelEncrypt (?w @ tail) Nr pt = Some ct \<and> length ct = 16 \<and> rijndaelDecrypt (?rk @ tail') Nr ct = Some pt"
    if l: "length pt = 16" for pt
  proof -
    have le: "4 * (Nr + 1) \<le> length (?w @ tail)" "4 * (Nr + 1) \<le> length (?rk @ tail')" using w rk by simp_all
    obtain ct where "rijndaelEncrypt (?w @ tail) Nr pt = Some ct" "length ct = 16" "rijndaelDecrypt (?rk @ tail') Nr ct = Some pt"
      by (rule decrypt_undoes [OF Nr le k l])
    then show ?thesis by blast
  qed
  show "rijndaelEncrypt (?w @ tail) Nr xs = rijndaelEncrypt (?w @ tail) Nr (take 16 xs) \<and>
      rijndaelDecrypt (?rk @ tail') Nr xs = rijndaelDecrypt (?rk @ tail') Nr (take 16 xs)" if "16 \<le> length xs" for xs
    using encrypt_first_16 [OF that] decrypt_first_16 [OF that] by blast
qed

interpretation aes_128: block_cipher "rijndaelEncrypt (aes_schedule S 4 10 key @ tail) 10"
  "rijndaelDecrypt (inverse_schedule 10 (aes_schedule S 4 10 key) @ tail') 10" for key tail tail'
  by (rule aes_block_cipher) (simp add: key_size_def)

interpretation aes_192: block_cipher "rijndaelEncrypt (aes_schedule S 6 12 key @ tail) 12"
  "rijndaelDecrypt (inverse_schedule 12 (aes_schedule S 6 12 key) @ tail') 12" for key tail tail'
  by (rule aes_block_cipher) (simp add: key_size_def)

interpretation aes_256: block_cipher "rijndaelEncrypt (aes_schedule S 8 14 key @ tail) 14"
  "rijndaelDecrypt (inverse_schedule 14 (aes_schedule S 8 14 key) @ tail') 14" for key tail tail'
  by (rule aes_block_cipher) (simp add: key_size_def)

end
