(* ===== verification/AesGlue.thy ===== *)
theory AesGlue
  imports AesApi
begin

text \<open>
  The functions of \<open>dll_src/crypt/src/aes_lua_neko.cpp\<close> that encrypt and decrypt a string for Neko and for
  Lua. The structures on the stack and from \<open>malloc\<close> begin with any contents, \<open>key0\<close> and \<open>cipher0\<close>; whether
  \<open>malloc\<close> returns memory, and the values of \<open>rand\<close>, are arguments. A value of Neko or Lua comes in with
  the type that the checks of their interfaces ask for. \<open>None\<close> is an access outside of an array or a failed
  assertion.
\<close>

subsection \<open>A whole message\<close>

text \<open>Sizes are passed as \<open>int\<close>.\<close>

definition as_int :: "nat \<Rightarrow> int" where
  "as_int n = sint (of_nat n :: u32)"

definition aes_generic :: "keyInstance \<Rightarrow> cipherInstance \<Rightarrow> bytes \<Rightarrow> nat \<Rightarrow> int \<Rightarrow> bytes \<Rightarrow> u8 \<Rightarrow> u8 \<Rightarrow> bytes option \<Rightarrow> bool \<Rightarrow>
    (int \<times> bytes) option" where
  "aes_generic key0 cipher0 inp in_size key_length passwd m direction iv padded = do {
     (_, key) \<leftarrow> memToKey (Some key0) direction key_length passwd (length passwd);
     (r, cipher) \<leftarrow> cipherInit cipher0 m iv;
     if r \<noteq> 1 then Some (0, [])
     else if direction = DIR_ENCRYPT
     then do {
       (retval, out, _) \<leftarrow> (if padded then padEncrypt (Some cipher) key (Some inp) (as_int in_size)
                           else blockEncrypt (Some cipher) key (Some inp) (as_int (in_size * 8 mod 2 ^ 64)));
       Some (if retval < 0 then 0 else retval, out) }
     else if direction = DIR_DECRYPT
     then do {
       (retval, out, _) \<leftarrow> (if padded then padDecrypt (Some cipher) key (Some inp) (as_int in_size)
                           else blockDecrypt (Some cipher) key (Some inp) (as_int (in_size * 8 mod 2 ^ 64)));
       Some (if retval < 0 then 0 else retval, out) }
     else Some (0, []) }"

text \<open>A buffer of zeros for the message and its padding.\<close>

definition aes_prepare_pad_buffer :: "bool \<Rightarrow> nat \<Rightarrow> bytes option" where
  "aes_prepare_pad_buffer malloc msg_len =
    (if msg_len = 0 then None
     else if \<not> malloc then None
     else Some (replicate (16 * (msg_len div 16 + 2)) 0))"

text \<open>The string that \<open>n\<close> octets of a buffer with the given contents make.\<close>

definition octets :: "bytes \<Rightarrow> nat \<Rightarrow> bytes option" where
  "octets out n = (if n \<le> length out then Some (take n out) else None)"

text \<open>An exception with its message, or a value; the value may be null.\<close>

definition naes_encrypt :: "keyInstance \<Rightarrow> cipherInstance \<Rightarrow> bool \<Rightarrow> bool \<Rightarrow> bytes \<Rightarrow> bytes \<Rightarrow> int option \<Rightarrow> u8 \<Rightarrow>
    (string + bytes option) option" where
  "naes_encrypt key0 cipher0 malloc_buf malloc_out password message key_len m =
    (if password = [] then Some (Inl ''Key is null'')
     else if message = [] then Some (Inl ''Message is null'')
     else if key_len \<noteq> None \<and> \<not> valid_keyLen (the key_len) then Some (Inl ''Invalid key length'')
     else
      (let key_length = (case key_len of None \<Rightarrow> 128 | Some n \<Rightarrow> n)
       in case aes_prepare_pad_buffer malloc_buf (length message) of
            None \<Rightarrow> Some (Inr None)
          | Some zeros \<Rightarrow> do {
              buf \<leftarrow> memcpy zeros 0 message (length message);
              if \<not> malloc_out then Some (Inl ''out of memory'')
              else do {
                (n, out) \<leftarrow> aes_generic key0 cipher0 buf (length message) key_length password m DIR_ENCRYPT None True;
                if length buf < length out \<or> n mod 16 \<noteq> 0 then None
                else if n \<le> 0 then Some (Inl ''encryption failure'')
                else do { rv \<leftarrow> octets out (nat n); Some (Inr (Some rv)) } } }))"

definition naes_decrypt :: "keyInstance \<Rightarrow> cipherInstance \<Rightarrow> bool \<Rightarrow> bytes \<Rightarrow> bytes \<Rightarrow> int option \<Rightarrow> u8 \<Rightarrow>
    (string + bytes option) option" where
  "naes_decrypt key0 cipher0 malloc_out password message key_len m =
    (if password = [] then Some (Inl ''Key is null'')
     else if message = [] then Some (Inl ''Message is null'')
     else if length message mod 16 \<noteq> 0 then Some (Inl ''Buffer is not a multiple of the aes block size'')
     else if key_len \<noteq> None \<and> \<not> valid_keyLen (the key_len) then Some (Inl ''Invalid key length'')
     else
      (let key_length = (case key_len of None \<Rightarrow> 128 | Some n \<Rightarrow> n)
       in if \<not> malloc_out then Some (Inl ''Out of memory'')
          else do {
            (n, out) \<leftarrow> aes_generic key0 cipher0 message (length message) key_length password m DIR_DECRYPT None True;
            out_buf \<leftarrow> memcpy message 0 out (length out);
            if n \<le> 0 then Some (Inl ''Decryption failure'')
            else do { rv \<leftarrow> octets out_buf (nat n); Some (Inr (Some rv)) } }))"

text \<open>
  For Lua the two values that are pushed, the result and the message of an error, \<open>None\<close> for nil. What
  \<open>aes_generic\<close> returns is stored in a \<open>size_t\<close>, so the test for a failure after the decryption
  (\<open>rec_length >= 0\<close>) always succeeds.
\<close>

definition laes_encrypt :: "keyInstance \<Rightarrow> cipherInstance \<Rightarrow> bool \<Rightarrow> bool \<Rightarrow> bytes \<Rightarrow> bytes \<Rightarrow> int option \<Rightarrow> u8 \<Rightarrow>
    (bytes option \<times> string option) option" where
  "laes_encrypt key0 cipher0 malloc_buf malloc_out password message key_len m =
    (if password = [] then Some (None, Some ''Key is null'')
     else if message = [] then Some (None, Some ''Message is null'')
     else if key_len \<noteq> None \<and> \<not> valid_keyLen (the key_len) then Some (None, Some ''Key length invalid'')
     else
      (let key_length = (case key_len of None \<Rightarrow> 128 | Some n \<Rightarrow> n)
       in case aes_prepare_pad_buffer malloc_buf (length message) of
            None \<Rightarrow> Some (None, None)
          | Some zeros \<Rightarrow> do {
              buf \<leftarrow> memcpy zeros 0 message (length message);
              if \<not> malloc_out then Some (None, Some ''Out of memory'')
              else do {
                (n, out) \<leftarrow> aes_generic key0 cipher0 buf (length message) key_length password m DIR_ENCRYPT None True;
                if length buf < length out then None
                else if n \<le> 0 then Some (None, Some ''Encryption failure'')
                else do { rv \<leftarrow> octets out (nat n); Some (Some rv, None) } } }))"

definition laes_decrypt :: "keyInstance \<Rightarrow> cipherInstance \<Rightarrow> bool \<Rightarrow> bytes \<Rightarrow> bytes \<Rightarrow> int option \<Rightarrow> u8 \<Rightarrow>
    (bytes option \<times> string option) option" where
  "laes_decrypt key0 cipher0 malloc_out password message key_len m =
    (if password = [] then Some (None, Some ''Key is null'')
     else if message = [] then Some (None, Some ''Message is null'')
     else if length message mod 16 \<noteq> 0 then Some (None, Some ''Buffer is not a multiple of the aes block size'')
     else if key_len \<noteq> None \<and> \<not> valid_keyLen (the key_len) then Some (None, Some ''Key length invalid'')
     else
      (let key_length = (case key_len of None \<Rightarrow> 128 | Some n \<Rightarrow> n)
       in if \<not> malloc_out then Some (None, Some ''Out of memory'')
          else do {
            (n, out) \<leftarrow> aes_generic key0 cipher0 message (length message) key_length password m DIR_DECRYPT None True;
            out_buf \<leftarrow> memcpy message 0 out (length out);
            let rec_length = (word_of_int n :: usize);
            if rec_length \<ge> 0
            then do { rv \<leftarrow> octets out_buf (unat rec_length); Some (Some rv, None) }
            else Some (None, Some ''Decryption failure'') }))"

definition naes_ecb_encrypt where "naes_ecb_encrypt key0 cipher0 a b pass msg key_len = naes_encrypt key0 cipher0 a b pass msg key_len MODE_ECB"
definition naes_ecb_decrypt where "naes_ecb_decrypt key0 cipher0 a pass msg key_len = naes_decrypt key0 cipher0 a pass msg key_len MODE_ECB"
definition naes_cbc_encrypt where "naes_cbc_encrypt key0 cipher0 a b pass msg key_len = naes_encrypt key0 cipher0 a b pass msg key_len MODE_CBC"
definition naes_cbc_decrypt where "naes_cbc_decrypt key0 cipher0 a pass msg key_len = naes_decrypt key0 cipher0 a pass msg key_len MODE_CBC"
definition laes_ecb_encrypt where "laes_ecb_encrypt key0 cipher0 a b pass msg key_len = laes_encrypt key0 cipher0 a b pass msg key_len MODE_ECB"
definition laes_ecb_decrypt where "laes_ecb_decrypt key0 cipher0 a pass msg key_len = laes_decrypt key0 cipher0 a pass msg key_len MODE_ECB"
definition laes_cbc_encrypt where "laes_cbc_encrypt key0 cipher0 a b pass msg key_len = laes_encrypt key0 cipher0 a b pass msg key_len MODE_CBC"
definition laes_cbc_decrypt where "laes_cbc_decrypt key0 cipher0 a pass msg key_len = laes_decrypt key0 cipher0 a pass msg key_len MODE_CBC"

subsection \<open>Records with a header\<close>

text \<open>
  An older format, still compiled but no longer used: a header with random octets that are repeated and the
  length of the message, and random octets in the last block. The values of \<open>rand\<close> after the division are
  \<open>r1\<close>, \<open>r2\<close>, the eight of \<open>salt\<close> and the sixteen of \<open>tail\<close>.
\<close>

definition record_size :: "nat \<Rightarrow> nat" where
  "record_size msg_len = 16 + 16 * (msg_len div 16) + (if msg_len mod 16 \<noteq> 0 then 16 else 0)"

definition record_header :: "u8 \<Rightarrow> u8 \<Rightarrow> bytes \<Rightarrow> nat \<Rightarrow> bytes" where
  "record_header r1 r2 salt msg_len =
    [r1, r2, of_nat (msg_len div 2 ^ 24), of_nat (msg_len div 2 ^ 16), of_nat (msg_len div 2 ^ 8), of_nat msg_len, r1, r2] @ salt"

definition aes_prepare_encrypt_buffer :: "bool \<Rightarrow> bytes \<Rightarrow> u8 \<Rightarrow> u8 \<Rightarrow> bytes \<Rightarrow> bytes \<Rightarrow> bytes \<Rightarrow> bytes option option" where
  "aes_prepare_encrypt_buffer malloc uninit r1 r2 salt tail message =
    (let msg_len = length message; buflen = record_size msg_len
     in if \<not> malloc then Some None
        else do {
          buf \<leftarrow> memcpy (take buflen uninit) 0 (record_header r1 r2 salt msg_len) 16;
          buf \<leftarrow> memcpy buf (buflen - 16) tail 16;
          buf \<leftarrow> memcpy buf 16 message msg_len;
          Some (Some buf) })"

definition aes_decode_decrypt_buffer :: "bytes option \<Rightarrow> bytes option" where
  "aes_decode_decrypt_buffer buf =
    (case buf of
      None \<Rightarrow> None
    | Some b \<Rightarrow>
        if length b < 16 then None
        else if b ! 0 \<noteq> b ! 6 \<or> b ! 1 \<noteq> b ! 7 then None
        else
          (let rec_len = unat (push_bit 24 (scast (b ! 2)) AND 0xff000000 OR push_bit 16 (scast (b ! 3)) AND 0x00ff0000 OR
                 push_bit 8 (scast (b ! 4)) AND 0x0000ff00 OR scast (b ! 5) AND 0x000000ff :: usize)
           in if rec_len > length b - 16 then None else Some (take rec_len (drop 16 b))))"

subsection \<open>Single blocks with a key that is kept\<close>

definition aes_create_key :: "keyInstance \<Rightarrow> bool \<Rightarrow> bool \<Rightarrow> int \<Rightarrow> bytes \<Rightarrow> (string + keyInstance) option" where
  "aes_create_key key0 malloc forEncrypt keyLen keyMaterial =
    (let direction = (if forEncrypt then DIR_ENCRYPT else DIR_DECRYPT)
     in if \<not> malloc then Some (Inl ''out of memory'')
        else if \<not> valid_keyLen keyLen then Some (Inl ''Invalid key length'')
        else if length keyMaterial < 1 then Some (Inl ''No key material'')
        else do {
          (_, key) \<leftarrow> memToKey (Some key0) direction keyLen keyMaterial (length keyMaterial);
          Some (Inr (the key)) })"

definition aes_encrypt_block :: "keyInstance \<Rightarrow> bytes \<Rightarrow> (string + bytes) option" where
  "aes_encrypt_block key sBlock =
    (if length sBlock \<noteq> 16 then Some (Inl ''block size incorrect'')
     else if key_direction key \<noteq> DIR_ENCRYPT then Some (Inl ''not an encryption key'')
     else do { out \<leftarrow> rijndaelEncrypt (key_rk key) (key_Nr key) sBlock; Some (Inr out) })"

definition aes_decrypt_block :: "keyInstance \<Rightarrow> bytes \<Rightarrow> (string + bytes) option" where
  "aes_decrypt_block key sBlock =
    (if length sBlock \<noteq> 16 then Some (Inl ''block size incorrect'')
     else if key_direction key \<noteq> DIR_DECRYPT then Some (Inl ''not a decryption key'')
     else do { out \<leftarrow> rijndaelDecrypt (key_rk key) (key_Nr key) sBlock; Some (Inr out) })"

text \<open>The key is cleared before its memory is freed; the function returns what is cleared.\<close>

definition destroy_key :: "keyInstance \<Rightarrow> keyInstance" where
  "destroy_key key = \<lparr>key_direction = 0, key_keyLen = 0, key_keyMaterial = replicate (length (key_keyMaterial key)) 0,
     key_Nr = 0, key_rk = replicate (length (key_rk key)) 0, key_ek = replicate (length (key_ek key)) 0\<rparr>"

end
