(* ===== verification/AesProps.thy ===== *)
theory AesProps
  imports AesInverse
begin

text \<open>The properties of the AES cipher.\<close>

text \<open>
  C20. For keys of 128, 192 and 256 bits, \<open>rijndaelKeySetupEnc\<close> computes the key expansion of FIPS 197
  and \<open>rijndaelEncrypt\<close> with that schedule its cipher: the tables of words hold the S-box (the affine
  map of the inverse in the field of 256 elements) multiplied by the column of the mixing matrix, the moving key
  pointer reads the right round keys, and the loop with two rounds in its body runs every round once.
\<close>

theorem encrypt_is_fips:
  assumes "key_size keyBits Nk Nr" "4 * Nk \<le> length key" "16 \<le> length pt"
  shows "rijndaelKeySetupEnc key keyBits = Some (Nr, aes_schedule S Nk Nr key) \<and> is_sbox S \<and>
    rijndaelEncrypt (aes_schedule S Nk Nr key) Nr pt =
      Some (aes_cipher S (aes_schedule S Nk Nr key) Nr (take 16 pt))"
proof -
  have "Nk \<le> 4 * (Nr + 1)" "even Nr" "0 < Nr" using assms(1) by (auto simp: key_size_def)
  then show ?thesis
    using assms setup_is_schedule [of keyBits Nk Nr key] encrypt_is_cipher [of Nr _ pt] S_is_sbox
    by (simp add: length_schedule)
qed

definition test_key :: bytes where
  "test_key = replicate 16 0"

definition test_block :: bytes where
  "test_block = replicate 16 0"

lemma encrypt_is_fips_witness:
  "rijndaelEncrypt (aes_schedule S 4 10 test_key) 10 test_block =
    Some (aes_cipher S (aes_schedule S 4 10 test_key) 10 (take 16 test_block))"
  using encrypt_is_fips [of 128 4 10 test_key test_block] by (simp add: key_size_def test_key_def test_block_def)

text \<open>
  C21. A block that \<open>rijndaelEncrypt\<close> has encrypted with the schedule of \<open>rijndaelKeySetupEnc\<close> is
  decrypted by \<open>rijndaelDecrypt\<close> with the schedule of \<open>rijndaelKeySetupDec\<close>, for each length of
  keys. The order of the round keys is reversed by the swaps in place, the middle ones go through \<open>Te4\<close>
  and the \<open>Td\<close> tables to the inverse mixing, and every round of the decryption undoes one of the encryption.
\<close>

theorem decrypt_inverts_encrypt:
  assumes "key_size keyBits Nk Nr" "4 * Nk \<le> length key" "length pt = 16"
  shows "\<exists>w rk ct. rijndaelKeySetupEnc key keyBits = Some (Nr, w) \<and> rijndaelKeySetupDec key keyBits = Some (Nr, rk) \<and>
    rijndaelEncrypt w Nr pt = Some ct \<and> length ct = 16 \<and> rijndaelDecrypt rk Nr ct = Some pt"
proof -
  define w where "w = aes_schedule S Nk Nr key"
  have e: "rijndaelKeySetupEnc key keyBits = Some (Nr, w)" unfolding w_def using assms(1,2) by (rule setup_is_schedule)
  have w: "length w = 4 * (Nr + 1)" "even Nr" "0 < Nr"
    using assms(1) by (auto simp: key_size_def w_def length_schedule)
  obtain ct where "rijndaelEncrypt w Nr pt = Some ct" "length ct = 16" "rijndaelDecrypt (inverse_schedule Nr w) Nr ct = Some pt"
    using decrypt_undoes [OF w(2,3) _ _ key_bytes_inverse_schedule [OF w(1)] assms(3)] w(1)
    by (metis length_inverse_schedule order_refl)
  with e setup_dec [OF e] show ?thesis by blast
qed

lemma decrypt_inverts_encrypt_witness:
  "\<exists>w rk ct. rijndaelKeySetupEnc test_key 128 = Some (10, w) \<and> rijndaelKeySetupDec test_key 128 = Some (10, rk) \<and>
    rijndaelEncrypt w 10 test_block = Some ct \<and> length ct = 16 \<and> rijndaelDecrypt rk 10 ct = Some test_block"
  by (rule decrypt_inverts_encrypt [of 128 4 10 test_key test_block])
    (simp_all add: key_size_def test_key_def test_block_def)

subsection \<open>The unrolled form\<close>

lemma unrolled_is_fold:
  assumes "Nr \<in> {10, 12, 14}"
  shows "unrolled_rounds rnd rk Nr s = fold (\<lambda>j. rnd rk (4 * j)) [1..<Nr] s"
  using assms by (auto simp: unrolled_rounds_def Let_def upt_conv_Cons [of "Suc 0"] numeral_2_eq_2 [symmetric])

lemma unrolled_encrypt:
  assumes "Nr \<in> {10, 12, 14}"
  shows "rijndaelEncrypt_unrolled rk Nr pt = rijndaelEncrypt rk Nr pt" "rijndaelDecrypt_unrolled rk Nr pt = rijndaelDecrypt rk Nr pt"
proof -
  have u: "unrolled_length Nr = 4 * (Nr + 1)" "even Nr" "0 < Nr" using assms by (auto simp: unrolled_length_def)
  show "rijndaelEncrypt_unrolled rk Nr pt = rijndaelEncrypt rk Nr pt"
    using rijndaelEncrypt_fold [OF u(2,3), of rk pt] unrolled_is_fold [OF assms, of enc_round] u(1)
    by (cases "length rk < 4 * (Nr + 1) \<or> length pt < 16") (auto simp: rijndaelEncrypt_unrolled_def rijndaelEncrypt_def)
  show "rijndaelDecrypt_unrolled rk Nr pt = rijndaelDecrypt rk Nr pt"
    using rijndaelDecrypt_fold [OF u(2,3), of rk pt] unrolled_is_fold [OF assms, of dec_round] u(1)
    by (cases "length rk < 4 * (Nr + 1) \<or> length pt < 16") (auto simp: rijndaelDecrypt_unrolled_def rijndaelDecrypt_def)
qed

end
