(* ===== verification/AesMessages.thy ===== *)
theory AesMessages
  imports AesModes AesGlue AesProps
begin

text \<open>
  What goes in comes out again: keys from the same password for the two directions, whole blocks in the three
  modes, padded messages in ECB and CBC, and the functions of the Neko and Lua libraries.
\<close>

subsection \<open>Keys\<close>

text \<open>The password, cut or filled with zeros to 32 octets.\<close>

definition key_octets :: "bytes \<Rightarrow> bytes" where
  "key_octets mem = take 32 mem @ replicate (32 - length mem) 0"

lemma memcpy_key: "memcpy (replicate 32 0) 0 mem (if length mem > 32 then 32 else length mem) = Some (key_octets mem)"
  by (simp add: memcpy_def overwrite_def key_octets_def min_def)

lemma memcpy_front: "length w \<le> length a \<Longrightarrow> memcpy a 0 w (length w) = Some (w @ drop (length w) a)"
  by (simp add: memcpy_def overwrite_def)

definition direction_schedule :: "u8 \<Rightarrow> nat \<Rightarrow> u32 list \<Rightarrow> u32 list" where
  "direction_schedule d Nr w = (if d = DIR_ENCRYPT then w else inverse_schedule Nr w)"

lemma valid_key_size:
  assumes "valid_keyLen keyLen"
  obtains Nk Nr where "key_size (nat keyLen) Nk Nr"
  using assms by (auto simp: valid_keyLen_def key_size_def)

definition made_key :: "keyInstance \<Rightarrow> u8 \<Rightarrow> int \<Rightarrow> nat \<Rightarrow> u32 list \<Rightarrow> keyInstance" where
  "made_key k0 d keyLen Nr w = k0\<lparr>key_direction := d, key_keyLen := keyLen, key_Nr := Nr,
     key_rk := direction_schedule d Nr w @ drop (length w) (key_rk k0), key_ek := w @ drop (length w) (key_ek k0)\<rparr>"

lemma set_schedules_made:
  assumes k: "key_wf k0" and s: "key_size (nat keyLen) Nk Nr" and d: "d \<in> {DIR_ENCRYPT, DIR_DECRYPT}"
    and c: "4 * Nk \<le> length cipherKey"
  shows "set_schedules (k0\<lparr>key_direction := d, key_keyLen := keyLen\<rparr>) d keyLen cipherKey =
    Some (1, Some (made_key k0 d keyLen Nr (aes_schedule S Nk Nr cipherKey)))"
proof -
  let ?w = "aes_schedule S Nk Nr cipherKey"
  have e: "rijndaelKeySetupEnc cipherKey (nat keyLen) = Some (Nr, ?w)" using s c by (rule setup_is_schedule)
  have l: "length ?w = 4 * (Nr + 1)" "4 * (Nr + 1) \<le> 60" using s by (auto simp: key_size_def length_schedule)
  have i: "length (inverse_schedule Nr ?w) = 4 * (Nr + 1)" using l(1) by (rule length_inverse_schedule)
  show ?thesis
    using d l i k memcpy_front [of ?w "key_rk k0"] memcpy_front [of ?w "key_ek k0"]
      memcpy_front [of "inverse_schedule Nr ?w" "key_rk k0"]
    by (auto simp: set_schedules_def e setup_dec [OF e] made_key_def direction_schedule_def key_wf_def)
qed

lemma memToKey_made:
  assumes "key_wf k0" "valid_keyLen keyLen" "key_size (nat keyLen) Nk Nr" "d \<in> {DIR_ENCRYPT, DIR_DECRYPT}"
  shows "memToKey (Some k0) d keyLen mem (length mem) =
    Some (1, Some (made_key k0 d keyLen Nr (aes_schedule S Nk Nr (key_octets mem))))"
proof -
  have "4 * Nk \<le> length (key_octets mem)" using assms(3) by (auto simp: key_size_def key_octets_def)
  then show ?thesis using assms set_schedules_made [OF assms(1,3,4)] memcpy_key [of mem] by (auto simp: memToKey_def)
qed

lemma made_pair:
  assumes "key_size bits Nk Nr" "w = aes_schedule S Nk Nr key"
  shows "block_cipher (rijndaelEncrypt (key_rk (made_key k0 DIR_ENCRYPT l Nr w)) (key_Nr (made_key k0 DIR_ENCRYPT l Nr w)))
    (rijndaelDecrypt (key_rk (made_key k1 DIR_DECRYPT l Nr w)) (key_Nr (made_key k1 DIR_DECRYPT l Nr w)))"
  unfolding made_key_def using aes_block_cipher [OF assms(1)] by (simp add: direction_schedule_def assms(2))

subsection \<open>Padded octets\<close>

lemma padDecrypt_ecb:
  assumes k: "key_direction k = DIR_DECRYPT" and c: "cipher_mode c = MODE_ECB" and i: "int (length input) = 16 * int n + 16"
    and "ecb_blocks (rijndaelDecrypt (key_rk k) (key_Nr k)) n input = Some (outs, rest)"
    and "rijndaelDecrypt (key_rk k) (key_Nr k) rest = Some block" and p: "padded block p tail"
  shows "padDecrypt (Some c) (Some k) (Some input) (int (length input)) =
    Some (16 * int (Suc n) - int p, outs @ tail, Some c)"
proof -
  have l: "nat (int (length input)) div 16 = Suc n" "int (length input) mod 16 = 0" "\<not> int (length input) \<le> 0" using i by auto
  have u: "unat (block ! 15) = p" "\<not> p > 16" "pad_bytes_ok block p" "take (16 - p) block = tail" using p by (auto simp: padded_def)
  show ?thesis using assms l u by (simp add: padDecrypt_def Let_def)
qed

lemma padDecrypt_cbc:
  assumes k: "key_direction k = DIR_DECRYPT" and c: "cipher_mode c = MODE_CBC" and i: "int (length input) = 16 * int n + 16"
    and "cbc_decrypt (rijndaelDecrypt (key_rk k) (key_Nr k)) n (cipher_IV c) input = Some (outs, iv, rest)"
    and "rijndaelDecrypt (key_rk k) (key_Nr k) rest = Some block'" and x: "xor_block block' iv = block" and p: "padded block p tail"
  shows "padDecrypt (Some c) (Some k) (Some input) (int (length input)) =
    Some (16 * int (Suc n) - int p, outs @ tail, Some (c\<lparr>cipher_IV := iv\<rparr>))"
proof -
  have l: "nat (int (length input)) div 16 = Suc n" "int (length input) mod 16 = 0" "\<not> int (length input) \<le> 0" using i by auto
  have u: "unat (block ! 15) = p" "p \<noteq> 0" "\<not> p > 16" "pad_bytes_ok block p" "take (16 - p) block = tail" using p by (auto simp: padded_def)
  show ?thesis using assms l u by (simp add: padDecrypt_def Let_def)
qed

text \<open>The number of octets of a message with its padding.\<close>

definition padded_size :: "nat \<Rightarrow> nat" where
  "padded_size n = 16 * (n div 16 + 1)"

lemma pad_message:
  assumes pair: "block_cipher (rijndaelEncrypt (key_rk ke) (key_Nr ke)) (rijndaelDecrypt (key_rk kd) (key_Nr kd))"
    and dir: "key_direction ke = DIR_ENCRYPT" "key_direction kd = DIR_DECRYPT"
    and mode: "cipher_mode c \<in> {MODE_ECB, MODE_CBC}" and iv: "cipher_wf c"
    and msg: "msg \<noteq> []" "padded_size (length msg) < 2 ^ 31"
  obtains out c' where "padEncrypt (Some c) (Some ke) (Some (msg @ extra)) (int (length msg)) =
      Some (int (padded_size (length msg)), out, Some c)"
    "length out = padded_size (length msg)"
    "padDecrypt (Some c) (Some kd) (Some out) (int (length out)) = Some (int (length msg), msg, c')"
proof -
  define n where "n = length msg div 16"
  define p where "p = 16 - length msg mod 16"
  have l: "nat (int (length msg)) div 16 = n" "length msg - 16 * n = length msg mod 16" "\<not> int (length msg) \<le> 0"
    using msg(1) by (simp_all add: n_def minus_mult_div_eq_mod)
  have s: "16 * int (Suc n) - int p = int (length msg)"
  proof -
    have "int (length msg) = 16 * int n + int (length msg mod 16)"
      unfolding n_def by (metis mult_div_mod_eq of_nat_add of_nat_mult of_nat_numeral)
    moreover have "length msg mod 16 < 16" by simp
    ultimately show ?thesis by (simp add: p_def of_nat_diff)
  qed
  have b: "16 * (n + 1) < 2 ^ 31" "int (padded_size (length msg)) = 16 * (int n + 1)"
    using msg(2) by (simp_all add: padded_size_def n_def)
  consider (ecb) "cipher_mode c = MODE_ECB" | (cbc) "cipher_mode c = MODE_CBC" using mode by auto
  then show thesis
  proof cases
    case ecb
    obtain outs block out where e: "ecb_blocks (rijndaelEncrypt (key_rk ke) (key_Nr ke)) n (msg @ extra) = Some (outs, drop (16 * n) msg @ extra)"
        "pad_block (drop (16 * n) msg @ extra) p = Some block" "rijndaelEncrypt (key_rk ke) (key_Nr ke) block = Some out"
        "length outs = 16 * n" "length out = 16"
        "ecb_blocks (rijndaelDecrypt (key_rk kd) (key_Nr kd)) n (outs @ out) = Some (take (16 * n) msg, out)"
        "rijndaelDecrypt (key_rk kd) (key_Nr kd) out = Some block" "padded block p (drop (16 * n) msg)"
      using block_cipher.ecb_pad_roundtrip [OF pair n_def p_def] .
    have "padEncrypt (Some c) (Some ke) (Some (msg @ extra)) (int (length msg)) =
        Some (int (padded_size (length msg)), outs @ out, Some c)"
      using e(1-3) l b dir(1) ecb by (simp add: padEncrypt_def Let_def p_def)
    moreover have "padDecrypt (Some c) (Some kd) (Some (outs @ out)) (int (length (outs @ out))) = Some (int (length msg), msg, Some c)"
      using padDecrypt_ecb [OF dir(2) ecb _ e(6,7,8)] e(4,5) s by simp
    ultimately show thesis using e(4,5) by (intro that [of "outs @ out" "Some c"]) (simp_all add: padded_size_def n_def)
  next
    case cbc
    obtain outs iv' block out block' where e:
        "cbc_encrypt (rijndaelEncrypt (key_rk ke) (key_Nr ke)) n (cipher_IV c) (msg @ extra) = Some (outs, iv', drop (16 * n) msg @ extra)"
        "pad_block (drop (16 * n) msg @ extra) p = Some block" "rijndaelEncrypt (key_rk ke) (key_Nr ke) (xor_block block iv') = Some out"
        "length outs = 16 * n" "length out = 16"
        "cbc_decrypt (rijndaelDecrypt (key_rk kd) (key_Nr kd)) n (cipher_IV c) (outs @ out) = Some (take (16 * n) msg, iv', out)"
        "rijndaelDecrypt (key_rk kd) (key_Nr kd) out = Some block'" "xor_block block' iv' = block"
        "padded block p (drop (16 * n) msg)"
      using block_cipher.cbc_pad_roundtrip [OF pair n_def p_def iv [unfolded cipher_wf_def]] .
    have "padEncrypt (Some c) (Some ke) (Some (msg @ extra)) (int (length msg)) =
        Some (int (padded_size (length msg)), outs @ out, Some c)"
      using e(1-3) l b dir(1) cbc by (simp add: padEncrypt_def Let_def p_def)
    moreover have "padDecrypt (Some c) (Some kd) (Some (outs @ out)) (int (length (outs @ out))) =
        Some (int (length msg), msg, Some (c\<lparr>cipher_IV := iv'\<rparr>))"
      using padDecrypt_cbc [OF dir(2) cbc _ e(6,7,8,9)] e(4,5) s by simp
    ultimately show thesis using e(4,5)
      by (intro that [of "outs @ out" "Some (c\<lparr>cipher_IV := iv'\<rparr>)"]) (simp_all add: padded_size_def n_def)
  qed
qed

subsection \<open>Whole blocks\<close>

lemma encrypt_append:
  assumes "even Nr" "0 < Nr" "length w = 4 * (Nr + 1)"
  shows "rijndaelEncrypt (w @ tail) Nr = rijndaelEncrypt (w @ tail') Nr"
proof
  fix xs
  show "rijndaelEncrypt (w @ tail) Nr xs = rijndaelEncrypt (w @ tail') Nr xs"
  proof (cases "16 \<le> length xs")
    case True
    then show ?thesis using assms by (simp add: encrypt_is_cipher aes_cipher_append)
  qed (simp add: rijndaelEncrypt_def assms)
qed

lemma blocks_message:
  assumes ks: "key_size bits Nk Nr" and w: "w = aes_schedule S Nk Nr key" and ke: "ke = made_key k0 DIR_ENCRYPT l Nr w"
    and kd: "kd = made_key k1 DIR_DECRYPT l Nr w"
    and mode: "cipher_mode c \<in> {MODE_ECB, MODE_CBC, MODE_CFB1}" and iv: "cipher_wf c"
    and input: "length input = 16 * n" "0 < n"
  obtains out c' where "blockEncrypt (Some c) (Some ke) (Some input) (128 * int n) = Some (128 * int n, out, Some c')"
    "length out = 16 * n"
    "\<exists>c''. blockDecrypt (Some c) (Some kd) (Some out) (128 * int n) = Some (128 * int n, input, Some c'')"
proof -
  have pair: "block_cipher (rijndaelEncrypt (key_rk ke) (key_Nr ke)) (rijndaelDecrypt (key_rk kd) (key_Nr kd))"
    unfolding ke kd by (rule made_pair [OF ks w])
  have Nr: "even Nr" "0 < Nr" "length w = 4 * (Nr + 1)" using ks by (auto simp: w key_size_def length_schedule)
  have ek: "rijndaelEncrypt (key_ek ke) (key_Nr ke) = rijndaelEncrypt (key_rk ke) (key_Nr ke)"
      "rijndaelEncrypt (key_ek kd) (key_Nr kd) = rijndaelEncrypt (key_rk ke) (key_Nr ke)"
    using encrypt_append [OF Nr] by (simp_all add: ke kd made_key_def direction_schedule_def)
  have dir: "key_direction ke = DIR_ENCRYPT" "key_direction kd = DIR_DECRYPT" by (simp_all add: ke kd made_key_def)
  have l: "nat (128 * int n) div 128 = n" "\<not> 128 * int n \<le> 0" using input(2) by (simp_all add: nat_mult_distrib)
  have le: "16 * n \<le> length input" and ivl: "length (cipher_IV c) = 16" using input iv by (simp_all add: cipher_wf_def)
  have all: "take (16 * n) input = input" using input(1) by simp
  consider (ecb) "cipher_mode c = MODE_ECB" | (cbc) "cipher_mode c = MODE_CBC" | (cfb1) "cipher_mode c = MODE_CFB1" using mode by auto
  then show thesis
  proof cases
    case ecb
    obtain out where o: "ecb_blocks (rijndaelEncrypt (key_rk ke) (key_Nr ke)) n input = Some (out, drop (16 * n) input)" "length out = 16 * n"
        "\<And>rest. ecb_blocks (rijndaelDecrypt (key_rk kd) (key_Nr kd)) n (out @ rest) = Some (take (16 * n) input, rest)"
      using block_cipher.ecb_roundtrip [OF pair le] by blast
    have "blockEncrypt (Some c) (Some ke) (Some input) (128 * int n) = Some (128 * int n, out, Some c)"
      using o(1) l dir ecb by (simp add: blockEncrypt_def Let_def)
    moreover have "blockDecrypt (Some c) (Some kd) (Some out) (128 * int n) = Some (128 * int n, input, Some c)"
      using o(3) [of "[]"] l dir ecb all by (simp add: blockDecrypt_def Let_def)
    ultimately show thesis using o(2) by (intro that [of out c]) blast+
  next
    case cbc
    obtain out iv' where o: "cbc_encrypt (rijndaelEncrypt (key_rk ke) (key_Nr ke)) n (cipher_IV c) input = Some (out, iv', drop (16 * n) input)"
        "length out = 16 * n"
        "\<And>rest. cbc_decrypt (rijndaelDecrypt (key_rk kd) (key_Nr kd)) n (cipher_IV c) (out @ rest) = Some (take (16 * n) input, iv', rest)"
      using block_cipher.cbc_roundtrip [OF pair le ivl] by blast
    have "blockEncrypt (Some c) (Some ke) (Some input) (128 * int n) = Some (128 * int n, out, Some c)"
      using o(1) l dir cbc by (simp add: blockEncrypt_def Let_def)
    moreover have "blockDecrypt (Some c) (Some kd) (Some out) (128 * int n) = Some (128 * int n, input, Some (c\<lparr>cipher_IV := iv'\<rparr>))"
      using o(3) [of "[]"] l dir cbc all by (simp add: blockDecrypt_def Let_def)
    ultimately show thesis using o(2) by (intro that [of out c]) blast+
  next
    case cfb1
    obtain out iv' where o: "cfb1_blocks True (rijndaelEncrypt (key_rk ke) (key_Nr ke)) n (cipher_IV c) input = Some (out, iv')"
        "length out = 16 * n"
        "\<And>rest. cfb1_blocks False (rijndaelEncrypt (key_rk ke) (key_Nr ke)) n (cipher_IV c) (out @ rest) = Some (take (16 * n) input, iv')"
      using block_cipher.cfb1_roundtrip [OF pair le ivl] by blast
    have "blockEncrypt (Some c) (Some ke) (Some input) (128 * int n) = Some (128 * int n, out, Some (c\<lparr>cipher_IV := iv'\<rparr>))"
      using o(1) l dir cfb1 ek by (simp add: blockEncrypt_def Let_def)
    moreover have "blockDecrypt (Some c) (Some kd) (Some out) (128 * int n) = Some (128 * int n, input, Some (c\<lparr>cipher_IV := iv'\<rparr>))"
      using o(3) [of "[]"] l dir cfb1 ek all by (simp add: blockDecrypt_def Let_def)
    ultimately show thesis using o(2) by (intro that [of out "c\<lparr>cipher_IV := iv'\<rparr>"]) blast+
  qed
qed

text \<open>
  C23. Two keys that \<open>memToKey\<close> makes from the same octets for the two directions belong together in every
  mode: what \<open>blockEncrypt\<close> makes of a number of whole blocks, in ECB, CBC or CFB1 from any initialisation
  vector, \<open>blockDecrypt\<close> turns back into the input, with a cipher in the same state. Both report all
  the bits. What the two key structures held before does not matter.
\<close>

theorem blocks_roundtrip:
  assumes "key_wf k0" "key_wf k1" "valid_keyLen keyLen" "cipher_mode c \<in> {MODE_ECB, MODE_CBC, MODE_CFB1}" "cipher_wf c"
    "length input = 16 * n" "0 < n"
  shows "\<exists>ke kd out c' c''.
    memToKey (Some k0) DIR_ENCRYPT keyLen mem (length mem) = Some (1, Some ke) \<and>
    memToKey (Some k1) DIR_DECRYPT keyLen mem (length mem) = Some (1, Some kd) \<and>
    blockEncrypt (Some c) (Some ke) (Some input) (128 * int n) = Some (128 * int n, out, Some c') \<and> length out = 16 * n \<and>
    blockDecrypt (Some c) (Some kd) (Some out) (128 * int n) = Some (128 * int n, input, Some c'')"
proof -
  obtain Nk Nr where ks: "key_size (nat keyLen) Nk Nr" using assms(3) by (rule valid_key_size)
  define w where "w = aes_schedule S Nk Nr (key_octets mem)"
  define ke where "ke = made_key k0 DIR_ENCRYPT keyLen Nr w"
  define kd where "kd = made_key k1 DIR_DECRYPT keyLen Nr w"
  have m: "memToKey (Some k0) DIR_ENCRYPT keyLen mem (length mem) = Some (1, Some ke)"
      "memToKey (Some k1) DIR_DECRYPT keyLen mem (length mem) = Some (1, Some kd)"
    using memToKey_made [OF assms(1,3) ks] memToKey_made [OF assms(2,3) ks] by (simp_all add: ke_def kd_def w_def)
  obtain out c' where "blockEncrypt (Some c) (Some ke) (Some input) (128 * int n) = Some (128 * int n, out, Some c')" "length out = 16 * n"
      "\<exists>c''. blockDecrypt (Some c) (Some kd) (Some out) (128 * int n) = Some (128 * int n, input, Some c'')"
    using blocks_message [OF ks w_def ke_def kd_def assms(4-7)] .
  with m show ?thesis by blast
qed

definition blank_key :: keyInstance where
  "blank_key = \<lparr>key_direction = 0, key_keyLen = 0, key_keyMaterial = replicate 65 0, key_Nr = 0,
     key_rk = replicate 60 0, key_ek = replicate 60 0\<rparr>"

definition blank_cipher :: cipherInstance where
  "blank_cipher = \<lparr>cipher_mode = MODE_CFB1, cipher_IV = replicate 16 0\<rparr>"

definition example_octets :: bytes where
  "example_octets = [1, 2, 3]"

lemma blank_wf: "key_wf blank_key" "cipher_wf blank_cipher"
  by (simp_all add: key_wf_def cipher_wf_def blank_key_def blank_cipher_def)

lemma blocks_roundtrip_witness:
  "\<exists>ke kd out c' c''.
    memToKey (Some blank_key) DIR_ENCRYPT 256 example_octets (length example_octets) = Some (1, Some ke) \<and>
    memToKey (Some blank_key) DIR_DECRYPT 256 example_octets (length example_octets) = Some (1, Some kd) \<and>
    blockEncrypt (Some blank_cipher) (Some ke) (Some (replicate 16 7)) (128 * int 1) = Some (128 * int 1, out, Some c') \<and> length out = 16 * 1 \<and>
    blockDecrypt (Some blank_cipher) (Some kd) (Some out) (128 * int 1) = Some (128 * int 1, replicate 16 7, Some c'')"
  by (rule blocks_roundtrip) (simp_all add: blank_wf valid_keyLen_def, simp_all add: blank_cipher_def)

subsection \<open>Any ciphertext\<close>

text \<open>The loops up to the last block.\<close>

lemma ecb_blocks_last:
  assumes "ecb_blocks f (Suc k) xs = Some (out, rest)" and "\<And>x b. f x = Some b \<Longrightarrow> length b = 16"
  obtains outs r b where "ecb_blocks f k xs = Some (outs, r)" "f r = Some b" "out = outs @ b" "length b = 16"
    "length outs = 16 * k"
proof -
  have "\<exists>outs r b. ecb_blocks f k xs = Some (outs, r) \<and> f r = Some b \<and> out = outs @ b \<and> length b = 16 \<and> length outs = 16 * k"
    using assms(1)
  proof (induction k arbitrary: xs out)
    case 0
    then show ?case using assms(2) by (auto split: bind_splits)
  next
    case (Suc k)
    from Suc.prems obtain b out1 where b: "f xs = Some b" "ecb_blocks f (Suc k) (drop 16 xs) = Some (out1, rest)" "out = b @ out1"
      by (subst (asm) ecb_blocks.simps(2)) (auto split: bind_splits simp del: ecb_blocks.simps)
    from Suc.IH [OF b(2)] show ?case using b(1,3) assms(2) [OF b(1)] by auto
  qed
  then show thesis using that by blast
qed

lemma cbc_decrypt_last:
  assumes "cbc_decrypt f (Suc k) iv xs = Some (out, iv', rest)" and "\<And>x b. f x = Some b \<Longrightarrow> length b = 16"
    and "length iv = 16" and "16 * Suc k \<le> length xs"
  obtains outs iv1 r b where "cbc_decrypt f k iv xs = Some (outs, iv1, r)" "f r = Some b" "out = outs @ xor_block b iv1"
    "length (xor_block b iv1) = 16" "length outs = 16 * k"
proof -
  have "\<exists>outs iv1 r b. cbc_decrypt f k iv xs = Some (outs, iv1, r) \<and> f r = Some b \<and> out = outs @ xor_block b iv1 \<and>
      length (xor_block b iv1) = 16 \<and> length outs = 16 * k"
    using assms(1,3,4)
  proof (induction k arbitrary: iv xs out)
    case 0
    then show ?case using assms(2) by (auto simp: xor_block_def split: bind_splits)
  next
    case (Suc k)
    from Suc.prems(1) obtain b out1 where b: "f xs = Some b" "out = xor_block b iv @ out1"
        "cbc_decrypt f (Suc k) (take 16 xs) (drop 16 xs) = Some (out1, iv', rest)"
      by (subst (asm) cbc_decrypt.simps(2)) (auto split: bind_splits simp del: cbc_decrypt.simps)
    have "length (take 16 xs) = 16" "16 * Suc k \<le> length (drop 16 xs)" using Suc.prems(3) by simp_all
    moreover have "length (xor_block b iv) = 16" using assms(2) [OF b(1)] Suc.prems(2) by (simp add: xor_block_def)
    ultimately show ?case using Suc.IH [OF b(3)] b(1,2) by auto
  qed
  then show thesis using that by blast
qed

lemma length_decrypt: "rijndaelDecrypt rk Nr x = Some b \<Longrightarrow> length b = 16"
  by (auto simp: rijndaelDecrypt_def store_block_def PUTU32_def split: bind_splits if_splits prod.splits)

text \<open>
  Taking the padding off: the last octet is its length, at most 16, and every octet of it has this value. Of
  the two modes only CBC insists on a padding that is not empty.
\<close>

definition unpad :: "u8 \<Rightarrow> bytes \<Rightarrow> bytes option" where
  "unpad m text =
    (let p = unat (last text); n = length text - p
     in if p \<le> 16 \<and> (p = 0 \<longrightarrow> m = MODE_ECB) \<and> (\<forall>b \<in> set (drop n text). unat b = p) then Some (take n text) else None)"

lemma unpad_last_block:
  assumes "length block = 16" and "p = unat (block ! 15)"
  shows "unpad m (outs @ block) =
    (if p \<le> 16 \<and> (p = 0 \<longrightarrow> m = MODE_ECB) \<and> pad_bytes_ok block p then Some (outs @ take (16 - p) block) else None)"
proof -
  have "block \<noteq> []" using assms(1) by auto
  then have "last (outs @ block) = block ! 15" using assms(1) last_conv_nth [of block] by simp
  then have unfold: "unpad m (outs @ block) = (let n = length (outs @ block) - p
      in if p \<le> 16 \<and> (p = 0 \<longrightarrow> m = MODE_ECB) \<and> (\<forall>b \<in> set (drop n (outs @ block)). unat b = p)
         then Some (take n (outs @ block)) else None)"
    unfolding unpad_def assms(2) by (simp only: Let_def)
  show ?thesis
  proof (cases "p \<le> 16")
    case True
    then have n: "length (outs @ block) - p = length outs + (16 - p)" using assms(1) by simp
    have "drop (length outs + k) (outs @ block) = drop k block" "take (length outs + k) (outs @ block) = outs @ take k block" for k
      by simp_all
    then show ?thesis unfolding unfold n pad_bytes_ok_def by (simp only: Let_def)
  qed (simp add: unfold)
qed

lemma padDecrypt_unpads:
  assumes k: "key_direction k = DIR_DECRYPT" and mode: "cipher_mode c \<in> {MODE_ECB, MODE_CBC}" and iv: "cipher_wf c"
    and l: "length ct = 16 * n" "0 < n"
    and d: "blockDecrypt (Some c) (Some k) (Some ct) (128 * int n) = Some (128 * int n, text, c')"
  obtains r out c'' where "padDecrypt (Some c) (Some k) (Some ct) (16 * int n) = Some (r, out, c'')" "length out \<le> length ct"
    "case unpad (cipher_mode c) text of None \<Rightarrow> r < 0 | Some t \<Rightarrow> r = int (length t) \<and> out = t"
proof -
  let ?f = "rijndaelDecrypt (key_rk k) (key_Nr k)"
  obtain j where j: "n = Suc j" using l(2) by (cases n) simp_all
  have n: "nat (128 * int n) div 128 = n" "\<not> 128 * int n \<le> 0" "nat (16 * int n) div 16 = n" "\<not> 16 * int n \<le> 0"
      "16 * int n mod 16 = 0" "n - 1 = j"
    using l(2) by (simp_all add: nat_mult_distrib j)
  consider (ecb) "cipher_mode c = MODE_ECB" | (cbc) "cipher_mode c = MODE_CBC" using mode by auto
  then show thesis
  proof cases
    case ecb
    obtain rest where "ecb_blocks ?f (Suc j) ct = Some (text, rest)"
      using d n k ecb by (auto simp: blockDecrypt_def Let_def j simp del: ecb_blocks.simps split: bind_splits)
    then obtain outs r b where b: "ecb_blocks ?f j ct = Some (outs, r)" "?f r = Some b" "text = outs @ b" "length b = 16"
        "length outs = 16 * j"
      using length_decrypt by (rule ecb_blocks_last)
    let ?p = "unat (b ! 15)"
    note u = unpad_last_block [OF b(4) refl, of MODE_ECB outs]
    have len: "16 * int n - int ?p = int (length (outs @ take (16 - ?p) b))" if "?p \<le> 16"
      using that b(4,5) by (simp add: j)
    show thesis
    proof (rule that)
      show "padDecrypt (Some c) (Some k) (Some ct) (16 * int n) =
        Some (if ?p > 16 then BAD_DATA else if \<not> pad_bytes_ok b ?p then BAD_PADBYTES else 16 * int n - int ?p,
          if ?p > 16 \<or> \<not> pad_bytes_ok b ?p then outs else outs @ take (16 - ?p) b, Some c)"
        using n k ecb b(1,2) by (simp add: padDecrypt_def Let_def)
    qed (use u len b(3,5) l(1) ecb in \<open>auto simp: j\<close>)
  next
    case cbc
    obtain iv' rest where "cbc_decrypt ?f (Suc j) (cipher_IV c) ct = Some (text, iv', rest)"
      using d n k cbc by (auto simp: blockDecrypt_def Let_def j simp del: cbc_decrypt.simps split: bind_splits)
    then obtain outs iv1 r b where b: "cbc_decrypt ?f j (cipher_IV c) ct = Some (outs, iv1, r)" "?f r = Some b"
        "text = outs @ xor_block b iv1" "length (xor_block b iv1) = 16" "length outs = 16 * j"
      by (rule cbc_decrypt_last [OF _ length_decrypt]) (use iv l j in \<open>simp_all add: cipher_wf_def\<close>)
    let ?b = "xor_block b iv1"
    let ?p = "unat (?b ! 15)"
    note u = unpad_last_block [OF b(4) refl, of MODE_CBC outs]
    have len: "16 * int n - int ?p = int (length (outs @ take (16 - ?p) ?b))" if "?p \<le> 16"
      using that b(4,5) by (simp add: j)
    show thesis
    proof (rule that)
      show "padDecrypt (Some c) (Some k) (Some ct) (16 * int n) =
        Some (if ?p = 0 \<or> ?p > 16 \<or> \<not> pad_bytes_ok ?b ?p then BAD_DATA else 16 * int n - int ?p,
          if ?p = 0 \<or> ?p > 16 \<or> \<not> pad_bytes_ok ?b ?p then outs else outs @ take (16 - ?p) ?b, Some (c\<lparr>cipher_IV := iv1\<rparr>))"
        using n k cbc b(1,2) by (simp add: padDecrypt_def Let_def)
    qed (use u len b(3,5) l(1) cbc in \<open>auto simp: j\<close>)
  qed
qed

subsection \<open>The libraries for Neko and Lua\<close>

lemma as_int_small: "n < 2 ^ 31 \<Longrightarrow> as_int n = int n"
  by (simp add: as_int_def signed_of_nat signed_take_bit_int_eq_self)

lemma cipherInit_null: "m \<in> {MODE_ECB, MODE_CBC, MODE_CFB1} \<Longrightarrow>
    cipherInit c0 m None = Some (1, c0\<lparr>cipher_mode := m, cipher_IV := replicate 16 0\<rparr>)"
  by (auto simp: cipherInit_def)

text \<open>Both directions of \<open>aes_generic\<close> on a padded message.\<close>

lemma generic_message:
  assumes "key_wf k0" "key_wf k1" "valid_keyLen keyLen" "m \<in> {MODE_ECB, MODE_CBC}" "msg \<noteq> []" "padded_size (length msg) < 2 ^ 31"
  obtains out where
    "aes_generic k0 c0 (msg @ extra) (length msg) keyLen pass m DIR_ENCRYPT None True = Some (int (padded_size (length msg)), out)"
    "length out = padded_size (length msg)"
    "aes_generic k1 c1 out (length out) keyLen pass m DIR_DECRYPT None True = Some (int (length msg), msg)"
proof -
  obtain Nk Nr where ks: "key_size (nat keyLen) Nk Nr" using assms(3) by (rule valid_key_size)
  define w where "w = aes_schedule S Nk Nr (key_octets pass)"
  define ke where "ke = made_key k0 DIR_ENCRYPT keyLen Nr w"
  define kd where "kd = made_key k1 DIR_DECRYPT keyLen Nr w"
  define c where "c = c0\<lparr>cipher_mode := m, cipher_IV := replicate 16 0\<rparr>"
  have m: "memToKey (Some k0) DIR_ENCRYPT keyLen pass (length pass) = Some (1, Some ke)"
      "memToKey (Some k1) DIR_DECRYPT keyLen pass (length pass) = Some (1, Some kd)"
    using memToKey_made [OF assms(1,3) ks] memToKey_made [OF assms(2,3) ks] by (simp_all add: ke_def kd_def w_def)
  have i: "cipherInit c' m None = Some (1, c)" if "c' = c0 \<or> c' = c1" for c'
    using assms(4) that cipherInit_null [of m c'] by (auto simp: c_def)
  have pair: "block_cipher (rijndaelEncrypt (key_rk ke) (key_Nr ke)) (rijndaelDecrypt (key_rk kd) (key_Nr kd))"
    unfolding ke_def kd_def by (rule made_pair [OF ks w_def])
  have c: "cipher_mode c \<in> {MODE_ECB, MODE_CBC}" "cipher_wf c" using assms(4) by (auto simp: c_def cipher_wf_def)
  have d: "key_direction ke = DIR_ENCRYPT" "key_direction kd = DIR_DECRYPT" by (simp_all add: ke_def kd_def made_key_def)
  obtain out c' where o: "padEncrypt (Some c) (Some ke) (Some (msg @ extra)) (int (length msg)) =
      Some (int (padded_size (length msg)), out, Some c)" "length out = padded_size (length msg)"
      "padDecrypt (Some c) (Some kd) (Some out) (int (length out)) = Some (int (length msg), msg, c')"
    using pad_message [OF pair d c assms(5,6)] .
  have "length msg < padded_size (length msg)" by (simp add: padded_size_def) 
  then have l: "as_int (length msg) = int (length msg)" "as_int (length out) = int (length out)"
    using assms(6) o(2) by (simp_all add: as_int_small)
  show thesis
  proof
    show "aes_generic k0 c0 (msg @ extra) (length msg) keyLen pass m DIR_ENCRYPT None True =
        Some (int (padded_size (length msg)), out)"
      using o(1) m(1) i l(1) by (simp add: aes_generic_def)
    show "aes_generic k1 c1 out (length out) keyLen pass m DIR_DECRYPT None True = Some (int (length msg), msg)"
      using o(3) m(2) i l(2) by (simp add: aes_generic_def)
  qed (rule o(2))
qed

text \<open>
  C22. The Neko functions for AES are inverse to each other: a message that is not empty comes back from
  \<open>naes_decrypt\<close> with the password, mode and key length (or none) that \<open>naes_encrypt\<close> had, whatever the structures
  on the stack held, as long as \<open>malloc\<close> succeeds and the padded message has a size that fits an \<open>int\<close>. The
  ciphertext fits the buffer that \<open>aes_prepare_pad_buffer\<close> allocates.
\<close>

theorem naes_roundtrip:
  assumes "key_wf k0" "key_wf k1" "password \<noteq> []" "message \<noteq> []" "padded_size (length message) < 2 ^ 31"
    "key_len = None \<or> valid_keyLen (the key_len)" "m \<in> {MODE_ECB, MODE_CBC}"
  shows "\<exists>ct. naes_encrypt k0 c0 True True password message key_len m = Some (Inr (Some ct)) \<and>
    length ct = padded_size (length message) \<and>
    naes_decrypt k1 c1 True password ct key_len m = Some (Inr (Some message))"
proof -
  let ?l = "case key_len of None \<Rightarrow> 128 | Some n \<Rightarrow> n"
  have l: "valid_keyLen ?l" using assms(6) by (auto simp: valid_keyLen_def split: option.splits)
  define extra where "extra = replicate (16 * (length message div 16 + 2) - length message) (0 :: u8)"
  obtain ct where ct: "aes_generic k0 c0 (message @ extra) (length message) ?l password m DIR_ENCRYPT None True =
      Some (int (padded_size (length message)), ct)" "length ct = padded_size (length message)"
      "aes_generic k1 c1 ct (length ct) ?l password m DIR_DECRYPT None True = Some (int (length message), message)"
    using generic_message [OF assms(1,2) l assms(7,4,5)] .
  have fits: "length message < padded_size (length message)" "int (padded_size (length message)) mod 16 = 0"
      "padded_size (length message) < 16 * (length message div 16 + 2)" "padded_size (length message) mod 16 = 0"
    by (simp_all add: padded_size_def)
  have k: "\<not> (key_len \<noteq> None \<and> \<not> valid_keyLen (the key_len))" using assms(6) by blast
  have buf: "memcpy (replicate (16 * (length message div 16 + 2)) 0) 0 message (length message) = Some (message @ extra)"
      "length (message @ extra) = 16 * (length message div 16 + 2)"
    using fits(1,3) by (simp_all add: memcpy_def overwrite_def extra_def)
  have "\<not> length (message @ extra) < length ct" using buf(2) ct(2) fits(3) by simp
  then have "naes_encrypt k0 c0 True True password message key_len m = Some (Inr (Some ct))"
    unfolding naes_encrypt_def aes_prepare_pad_buffer_def Let_def
    using assms(3,4) k ct(1,2) fits(1,2) buf(1) by (simp add: octets_def)
  moreover have "naes_decrypt k1 c1 True password ct key_len m = Some (Inr (Some message))"
    unfolding naes_decrypt_def Let_def
    using assms(3,4) k ct(2,3) fits(1,4) by (auto simp: octets_def memcpy_def overwrite_def)
  ultimately show ?thesis using ct(2) by blast
qed

lemma naes_roundtrip_witness:
  "\<exists>ct. naes_encrypt blank_key blank_cipher True True example_octets example_octets None MODE_CBC = Some (Inr (Some ct)) \<and>
    length ct = padded_size (length example_octets) \<and>
    naes_decrypt blank_key blank_cipher True example_octets ct None MODE_CBC = Some (Inr (Some example_octets))"
  by (rule naes_roundtrip) (simp_all add: blank_wf example_octets_def padded_size_def)

text \<open>Decrypting any ciphertext of whole blocks: \<open>plain\<close> is what was encrypted.\<close>

lemma generic_decrypt:
  assumes "key_wf k0" "key_wf k1" "valid_keyLen keyLen" "m \<in> {MODE_ECB, MODE_CBC}" "length plain = 16 * n" "0 < n" "16 * n < 2 ^ 31"
  obtains ke ct r out where "memToKey (Some k0) DIR_ENCRYPT keyLen pass (length pass) = Some (1, Some ke)"
    "\<exists>c'. blockEncrypt (Some (c0\<lparr>cipher_mode := m, cipher_IV := replicate 16 0\<rparr>)) (Some ke) (Some plain) (128 * int n) =
      Some (128 * int n, ct, Some c')" "length ct = 16 * n"
    "aes_generic k1 c1 ct (length ct) keyLen pass m DIR_DECRYPT None True = Some (r, out)" "length out \<le> length ct"
    "case unpad m plain of None \<Rightarrow> r = 0 | Some t \<Rightarrow> r = int (length t) \<and> out = t"
proof -
  obtain Nk Nr where ks: "key_size (nat keyLen) Nk Nr" using assms(3) by (rule valid_key_size)
  define w where "w = aes_schedule S Nk Nr (key_octets pass)"
  define ke where "ke = made_key k0 DIR_ENCRYPT keyLen Nr w"
  define kd where "kd = made_key k1 DIR_DECRYPT keyLen Nr w"
  define c where "c = c0\<lparr>cipher_mode := m, cipher_IV := replicate 16 0\<rparr>"
  have mk: "memToKey (Some k0) DIR_ENCRYPT keyLen pass (length pass) = Some (1, Some ke)"
      "memToKey (Some k1) DIR_DECRYPT keyLen pass (length pass) = Some (1, Some kd)"
    using memToKey_made [OF assms(1,3) ks] memToKey_made [OF assms(2,3) ks] by (simp_all add: ke_def kd_def w_def)
  have c: "cipher_mode c \<in> {MODE_ECB, MODE_CBC, MODE_CFB1}" "cipher_wf c" "cipher_mode c = m"
    using assms(4) by (auto simp: c_def cipher_wf_def)
  have i: "cipherInit c1 m None = Some (1, c)" using assms(4) cipherInit_null [of m c1] by (auto simp: c_def)
  have d: "key_direction kd = DIR_DECRYPT" by (simp add: kd_def made_key_def)
  obtain ct c' where e: "blockEncrypt (Some c) (Some ke) (Some plain) (128 * int n) = Some (128 * int n, ct, Some c')"
      "length ct = 16 * n"
      "\<exists>c''. blockDecrypt (Some c) (Some kd) (Some ct) (128 * int n) = Some (128 * int n, plain, Some c'')"
    using blocks_message [OF ks w_def ke_def kd_def c(1,2) assms(5,6)] .
  from e(3) obtain c'' where "blockDecrypt (Some c) (Some kd) (Some ct) (128 * int n) = Some (128 * int n, plain, Some c'')" ..
  from padDecrypt_unpads [OF d assms(4) [folded c(3)] c(2) e(2) assms(6) this] obtain r out z where
    p: "padDecrypt (Some c) (Some kd) (Some ct) (16 * int n) = Some (r, out, z)" "length out \<le> length ct"
      "case unpad m plain of None \<Rightarrow> r < 0 | Some t \<Rightarrow> r = int (length t) \<and> out = t"
    unfolding c(3) .
  have "as_int (length ct) = 16 * int n" using as_int_small [of "length ct"] e(2) assms(7) by simp
  then have "aes_generic k1 c1 ct (length ct) keyLen pass m DIR_DECRYPT None True = Some (if r < 0 then 0 else r, out)"
    using p(1) mk(2) i by (simp add: aes_generic_def)
  then show thesis
    using that [OF mk(1) _ e(2) _ p(2)] e(1) p(3) by (fastforce simp: c_def split: option.splits)
qed

text \<open>
  C36. The Lua function never tells that a decryption has failed. Whatever whole blocks are encrypted with
  the key of the password, decrypting them takes the padding off when it is right (the Neko function reports
  a failure for an empty text); when it is not, the Neko function reports a failure, but the Lua function returns the empty string and no error message, which is
  also its answer for the ciphertext of an empty string.
\<close>

theorem laes_decrypt_hides_failure:
  assumes "key_wf k0" "key_wf k1" "password \<noteq> []" "key_len = None \<or> valid_keyLen (the key_len)" "m \<in> {MODE_ECB, MODE_CBC}"
    "length plain = 16 * n" "0 < n" "16 * n < 2 ^ 31"
  shows "\<exists>ke ct c'.
    memToKey (Some k0) DIR_ENCRYPT (case key_len of None \<Rightarrow> 128 | Some l \<Rightarrow> l) password (length password) = Some (1, Some ke) \<and>
    blockEncrypt (Some (c0\<lparr>cipher_mode := m, cipher_IV := replicate 16 0\<rparr>)) (Some ke) (Some plain) (128 * int n) =
      Some (128 * int n, ct, c') \<and>
    naes_decrypt k1 c1 True password ct key_len m =
      (case unpad m plain of None \<Rightarrow> Some (Inl ''Decryption failure'')
       | Some text \<Rightarrow> if text = [] then Some (Inl ''Decryption failure'') else Some (Inr (Some text))) \<and>
    laes_decrypt k1 c1 True password ct key_len m =
      (case unpad m plain of None \<Rightarrow> Some (Some [], None) | Some text \<Rightarrow> Some (Some text, None))"
proof -
  let ?l = "case key_len of None \<Rightarrow> 128 | Some l \<Rightarrow> l"
  have l: "valid_keyLen ?l" using assms(4) by (auto simp: valid_keyLen_def split: option.splits)
  have k: "\<not> (key_len \<noteq> None \<and> \<not> valid_keyLen (the key_len))" using assms(4) by blast
  obtain ke ct r out where g: "memToKey (Some k0) DIR_ENCRYPT ?l password (length password) = Some (1, Some ke)"
      "\<exists>c'. blockEncrypt (Some (c0\<lparr>cipher_mode := m, cipher_IV := replicate 16 0\<rparr>)) (Some ke) (Some plain) (128 * int n) =
        Some (128 * int n, ct, Some c')" "length ct = 16 * n"
      "aes_generic k1 c1 ct (length ct) ?l password m DIR_DECRYPT None True = Some (r, out)" "length out \<le> length ct"
      "case unpad m plain of None \<Rightarrow> r = 0 | Some t \<Rightarrow> r = int (length t) \<and> out = t"
    by (rule generic_decrypt [OF assms(1,2) l assms(5-8)])
  have ct: "ct \<noteq> []" "length ct mod 16 = 0" "length ct < 2 ^ 31" using g(3) assms(7,8) by auto
  have m: "memcpy ct 0 out (length out) = Some (out @ drop (length out) ct)"
    using g(5) by (rule memcpy_front)
  have "naes_decrypt k1 c1 True password ct key_len m =
      (case unpad m plain of None \<Rightarrow> Some (Inl ''Decryption failure'')
       | Some text \<Rightarrow> if text = [] then Some (Inl ''Decryption failure'') else Some (Inr (Some text)))"
    unfolding naes_decrypt_def Let_def using assms(3) k ct(1,2) g(4,5,6) m by (auto simp: octets_def split: option.splits)
  moreover have "laes_decrypt k1 c1 True password ct key_len m =
      (case unpad m plain of None \<Rightarrow> Some (Some [], None) | Some text \<Rightarrow> Some (Some text, None))"
    unfolding laes_decrypt_def Let_def using assms(3) k ct(1,2,3) g(4,5,6) m
    by (auto simp: octets_def unat_of_nat take_bit_nat_eq_self split: option.splits)
  ultimately show ?thesis using g(1,2) by blast
qed

lemma laes_decrypt_hides_failure_witness:
  "\<exists>ke ct c'. memToKey (Some blank_key) DIR_ENCRYPT 128 example_octets (length example_octets) = Some (1, Some ke) \<and>
    blockEncrypt (Some (blank_cipher\<lparr>cipher_mode := MODE_CBC, cipher_IV := replicate 16 0\<rparr>)) (Some ke) (Some (replicate 16 17)) 128 =
      Some (128, ct, c') \<and>
    naes_decrypt blank_key blank_cipher True example_octets ct None MODE_CBC = Some (Inl ''Decryption failure'') \<and>
    laes_decrypt blank_key blank_cipher True example_octets ct None MODE_CBC = Some (Some [], None)"
proof -
  have "unpad MODE_CBC (replicate 16 17) = None" by code_simp
  then show ?thesis
    using laes_decrypt_hides_failure [of blank_key blank_key example_octets None MODE_CBC "replicate 16 17" 1 blank_cipher blank_cipher]
    by (simp add: blank_wf example_octets_def)
qed

end
