(* ===== verification/Xxtea.thy ===== *)
theory Xxtea
  imports Prelude
begin

text \<open>
  The block cipher of \<open>dll_src/crypt/src/tea.cpp\<close> (corrected block TEA, on any number of words from two) and
  the functions that Neko calls. Decoding is the inverse of encoding: each step changes one word by a value of the key,
  the sum of the round and the two words beside it, so that the step can be taken back.
\<close>

subsection \<open>The cipher\<close>

definition DELTA :: u32 where
  "DELTA = 0x9e3779b9"

text \<open>The macro \<open>MX\<close>, with the variables that it uses as arguments. \<open>e\<close> is 0 to 3.\<close>

definition MX :: "u32 list \<Rightarrow> u32 \<Rightarrow> u32 \<Rightarrow> u32 \<Rightarrow> nat \<Rightarrow> u32 \<Rightarrow> u32" where
  "MX k acc y z p e =
    ((drop_bit 5 z XOR push_bit 2 y) + (drop_bit 3 y XOR push_bit 4 z)) XOR
    ((acc XOR y) + (k ! unat ((of_nat p AND 3) XOR e) XOR z))"

definition round_e :: "u32 \<Rightarrow> u32" where
  "round_e acc = drop_bit 2 acc AND 3"

text \<open>
  One round of the encoding: the loop over all words but the last with \<open>z\<close> the word before, and then the last word,
  for which \<open>y\<close> is the first.
\<close>

definition encode_word :: "u32 list \<Rightarrow> u32 \<Rightarrow> nat \<Rightarrow> u32 \<Rightarrow> u32 list \<times> u32 \<Rightarrow> u32 list \<times> u32" where
  "encode_word k acc p y = (\<lambda>(v, z).
    (let z' = v ! p + MX k acc y z p (round_e acc) in (v[p := z'], z')))"

definition encode_round :: "u32 list \<Rightarrow> nat \<Rightarrow> u32 \<Rightarrow> u32 list \<times> u32 \<Rightarrow> u32 list \<times> u32" where
  "encode_round k n acc vz =
    (let (v, z) = fold (\<lambda>p (v, z). encode_word k acc p (v ! (p + 1)) (v, z)) [0..<n - 1] vz
     in encode_word k acc (n - 1) (v ! 0) (v, z))"

fun encode_rounds :: "u32 list \<Rightarrow> nat \<Rightarrow> nat \<Rightarrow> u32 \<Rightarrow> u32 list \<times> u32 \<Rightarrow> u32 list \<times> u32" where
  "encode_rounds k n 0 acc vz = vz"
| "encode_rounds k n (Suc q) acc vz = encode_rounds k n q (acc + DELTA) (encode_round k n (acc + DELTA) vz)"

text \<open>One round of the decoding, from the last word down, with \<open>y\<close> the word behind.\<close>

definition decode_word :: "u32 list \<Rightarrow> u32 \<Rightarrow> nat \<Rightarrow> u32 \<Rightarrow> u32 list \<times> u32 \<Rightarrow> u32 list \<times> u32" where
  "decode_word k acc p z = (\<lambda>(v, y).
    (let y' = v ! p - MX k acc y z p (round_e acc) in (v[p := y'], y')))"

definition decode_round :: "u32 list \<Rightarrow> nat \<Rightarrow> u32 \<Rightarrow> u32 list \<times> u32 \<Rightarrow> u32 list \<times> u32" where
  "decode_round k n acc vy =
    (let (v, y) = fold (\<lambda>p (v, y). decode_word k acc p (v ! (p - 1)) (v, y)) (rev [1..<n]) vy
     in decode_word k acc 0 (v ! (n - 1)) (v, y))"

text \<open>The loop of the decoding ends when the sum has come back to 0.\<close>

partial_function (option) decode_loop :: "u32 list \<Rightarrow> nat \<Rightarrow> u32 \<Rightarrow> u32 list \<times> u32 \<Rightarrow> (u32 list \<times> u32) option" where
  "decode_loop k n acc vy =
    (if acc = 0 then Some vy else decode_loop k n (acc - DELTA) (decode_round k n acc vy))"

declare decode_loop.simps [code]

definition number_of_rounds :: "nat \<Rightarrow> nat" where
  "number_of_rounds n = 6 + 52 div n"

text \<open>
  The number of words is negative for decoding. The result and the words; \<open>None\<close> when an array is too short, or
  if the loop did not end.
\<close>

definition xxtea :: "u32 list \<Rightarrow> u32 \<Rightarrow> u32 list \<Rightarrow> (int \<times> u32 list) option" where
  "xxtea v n k =
    (if v = [] then None
     else if 1 < sint n
     then (if length v < unat n \<or> length k < 4 then None
           else
            (let w = take (unat n) v
             in Some (0, fst (encode_rounds k (unat n) (number_of_rounds (unat n)) 0 (w, w ! (unat n - 1))) @ drop (unat n) v)))
     else if sint n < - 1
     then (if length v < unat (- n) \<or> length k < 4 then None
           else do {
             (w, _) \<leftarrow> decode_loop k (unat (- n)) (of_nat (number_of_rounds (unat (- n))) * DELTA) (take (unat (- n)) v, v ! 0);
             Some (0, w @ drop (unat (- n)) v) })
     else Some (1, v))"

text \<open>A function that is left empty.\<close>

definition tea_copy :: "bytes \<Rightarrow> bytes \<Rightarrow> u32 \<Rightarrow> bytes" where
  "tea_copy orig dest len = dest"

subsection \<open>The functions for Neko\<close>

text \<open>
  An array of Neko is the list of its elements, each an integer of 32 bits or something else (\<open>None\<close>); a value
  that is not an array is \<open>None\<close>. An exception is \<open>Inl\<close> with its message.
\<close>

type_synonym neko_array = "u32 option list option"

definition xxtea_create_key :: "bool \<Rightarrow> neko_array \<Rightarrow> (string + u32 list) option" where
  "xxtea_create_key malloc Int32Array =
    (case Int32Array of
      None \<Rightarrow> Some (Inl ''key is not array'')
    | Some xs \<Rightarrow>
        if length xs \<noteq> 4 then Some (Inl ''key must be 16 bytes'')
        else if \<not> malloc then None
        else if None \<in> set xs then Some (Inl ''not int32'')
        else Some (Inr (map the xs)))"

datatype make_error = W_NOT_ARRAY | W_COUNT_MISMATCH | W_NOT_INT32 | W_NO_MEM | W_DATA_LEN

definition xxtea_make_array :: "bool \<Rightarrow> neko_array \<Rightarrow> int \<Rightarrow> make_error + u32 list" where
  "xxtea_make_array malloc Words Count =
    (case Words of
      None \<Rightarrow> Inl W_NOT_ARRAY
    | Some xs \<Rightarrow>
        if (of_nat (length xs) :: u32) \<noteq> of_int Count then Inl W_COUNT_MISMATCH
        else if (of_nat (length xs) :: u32) < 2 then Inl W_DATA_LEN
        else if \<not> malloc then Inl W_NO_MEM
        else if None \<in> set xs then Inl W_NOT_INT32
        else Inr (map the xs))"

definition make_message :: "make_error \<Rightarrow> string" where
  "make_message x =
    (case x of
      W_NOT_ARRAY \<Rightarrow> ''not array''
    | W_COUNT_MISMATCH \<Rightarrow> ''array count mismatch''
    | W_NOT_INT32 \<Rightarrow> ''not int32''
    | W_DATA_LEN \<Rightarrow> ''array count < 2''
    | W_NO_MEM \<Rightarrow> ''out of memory'')"

text \<open>The words as a string, least significant byte first.\<close>

definition word_string :: "u32 list \<Rightarrow> bytes" where
  "word_string v = concat (map (\<lambda>w. [ucast w, ucast (drop_bit 8 w), ucast (drop_bit 16 w), ucast (drop_bit 24 w)]) v)"

text \<open>Both functions ask for the size of the array before they know that it is one.\<close>

definition xxtea_block :: "bool \<Rightarrow> bool \<Rightarrow> neko_array \<Rightarrow> int \<Rightarrow> u32 list \<Rightarrow> (string + bytes) option" where
  "xxtea_block encode malloc Words Count k =
    (case Words of
      None \<Rightarrow> None
    | Some xs \<Rightarrow>
       (let n = of_nat (length xs) :: u32
        in if n = 0 then Some (Inr [])
           else
            (case xxtea_make_array malloc Words Count of
              Inl x \<Rightarrow> Some (Inl (make_message x))
            | Inr v \<Rightarrow> do { (_, w) \<leftarrow> xxtea v (if encode then n else 0 - n) k; Some (Inr (word_string w)) })))"

definition xxtea_encrypt_block :: "bool \<Rightarrow> neko_array \<Rightarrow> int \<Rightarrow> u32 list \<Rightarrow> (string + bytes) option" where
  "xxtea_encrypt_block malloc Words Count Key = xxtea_block True malloc Words Count Key"

definition xxtea_decrypt_block :: "bool \<Rightarrow> neko_array \<Rightarrow> int \<Rightarrow> u32 list \<Rightarrow> (string + bytes) option" where
  "xxtea_decrypt_block malloc Words Count Key = xxtea_block False malloc Words Count Key"

text \<open>The key is cleared before its memory is freed.\<close>

definition destroy_xxteakey :: "u32 list \<Rightarrow> u32 list" where
  "destroy_xxteakey key = replicate 4 0"

subsection \<open>Steps and their inverses\<close>

text \<open>The words beside word \<open>p\<close>, in a circle.\<close>

definition after :: "nat \<Rightarrow> nat \<Rightarrow> nat" where
  "after n p = (if p + 1 = n then 0 else p + 1)"

definition before :: "nat \<Rightarrow> nat \<Rightarrow> nat" where
  "before n p = (if p = 0 then n - 1 else p - 1)"

definition mixing :: "u32 list \<Rightarrow> nat \<Rightarrow> u32 \<Rightarrow> u32 list \<Rightarrow> nat \<Rightarrow> u32" where
  "mixing k n acc v p = MX k acc (v ! after n p) (v ! before n p) p (round_e acc)"

definition step_up :: "u32 list \<Rightarrow> nat \<Rightarrow> u32 \<Rightarrow> nat \<Rightarrow> u32 list \<Rightarrow> u32 list" where
  "step_up k n acc p v = v[p := v ! p + mixing k n acc v p]"

definition step_down :: "u32 list \<Rightarrow> nat \<Rightarrow> u32 \<Rightarrow> nat \<Rightarrow> u32 list \<Rightarrow> u32 list" where
  "step_down k n acc p v = v[p := v ! p - mixing k n acc v p]"

lemma length_step [simp]: "length (step_up k n acc p v) = length v" "length (step_down k n acc p v) = length v"
  by (simp_all add: step_up_def step_down_def)

lemma length_steps_up [simp]: "length (fold (step_up k n acc) ps v) = length v"
  by (induction ps arbitrary: v) simp_all

lemma length_steps_down [simp]: "length (fold (step_down k n acc) ps v) = length v"
  by (induction ps arbitrary: v) simp_all

lemma step_down_up:
  assumes "2 \<le> n" "p < n" "length v = n"
  shows "step_down k n acc p (step_up k n acc p v) = v"
proof -
  have "after n p \<noteq> p" "before n p \<noteq> p" using assms by (auto simp: after_def before_def)
  then have "mixing k n acc (v[p := x]) p = mixing k n acc v p" for x by (simp add: mixing_def)
  then show ?thesis using assms by (simp add: step_up_def step_down_def)
qed

lemma steps_down_up: "2 \<le> n \<Longrightarrow> \<forall>p \<in> set ps. p < n \<Longrightarrow> length v = n \<Longrightarrow>
    fold (step_down k n acc) (rev ps) (fold (step_up k n acc) ps v) = v"
  by (induction ps arbitrary: v) (simp_all add: step_down_up)

subsection \<open>Rounds\<close>

text \<open>The variables \<open>z\<close> and \<open>y\<close> of the code hold the words beside the one that is changed.\<close>

lemma encode_words:
  assumes "length v = n" "m < n"
  shows "fold (\<lambda>p (v, z). encode_word k acc p (v ! (p + 1)) (v, z)) [0..<m] (v, v ! (n - 1)) =
    (fold (step_up k n acc) [0..<m] v, fold (step_up k n acc) [0..<m] v ! before n m)"
  using assms(2)
proof (induction m)
  case (Suc m)
  let ?v = "fold (step_up k n acc) [0..<m] v"
  have "after n m = m + 1" using Suc.prems by (simp add: after_def)
  then have "encode_word k acc m (?v ! (m + 1)) (?v, ?v ! before n m) = (step_up k n acc m ?v, step_up k n acc m ?v ! m)"
    using Suc.prems assms(1) by (simp add: encode_word_def Let_def step_up_def mixing_def)
  then show ?case using Suc by (simp add: before_def)
qed (simp add: before_def)

lemma encode_round_steps:
  assumes "2 \<le> n" "length v = n"
  shows "encode_round k n acc (v, v ! (n - 1)) =
    (fold (step_up k n acc) [0..<n] v, fold (step_up k n acc) [0..<n] v ! (n - 1))"
proof -
  let ?v = "fold (step_up k n acc) [0..<n - 1] v"
  have "after n (n - 1) = 0" "Suc (n - 1) = n" using assms(1) by (simp_all add: after_def)
  then have "encode_word k acc (n - 1) (?v ! 0) (?v, ?v ! before n (n - 1)) =
      (fold (step_up k n acc) [0..<n] v, fold (step_up k n acc) [0..<n] v ! (n - 1))"
    using assms upt_Suc_append [of 0 "n - 1"] by (simp add: encode_word_def Let_def step_up_def mixing_def)
  then show ?thesis using assms encode_words [of v n "n - 1" k acc] by (simp add: encode_round_def)
qed

lemma decode_words:
  assumes "length v = n" "m < n"
  shows "fold (\<lambda>p (v, y). decode_word k acc p (v ! (p - 1)) (v, y)) (rev [n - m..<n]) (v, v ! 0) =
    (fold (step_down k n acc) (rev [n - m..<n]) v, fold (step_down k n acc) (rev [n - m..<n]) v ! after n (n - Suc m))"
  using assms(2)
proof (induction m)
  case 0
  then show ?case by (simp add: after_def)
next
  case (Suc m)
  let ?v = "fold (step_down k n acc) (rev [n - m..<n]) v" and ?p = "n - Suc m"
  have p: "[?p..<n] = ?p # [n - m..<n]" using Suc.prems by (simp add: upt_conv_Cons Suc_diff_Suc)
  have "before n ?p = ?p - 1" "after n (n - Suc (Suc m)) = ?p" "?p < n" using Suc.prems by (auto simp: before_def after_def)
  then have "decode_word k acc ?p (?v ! (?p - 1)) (?v, ?v ! after n ?p) = (step_down k n acc ?p ?v, step_down k n acc ?p ?v ! ?p)"
    using assms(1) by (simp add: decode_word_def Let_def step_down_def mixing_def)
  then show ?case using Suc p \<open>after n (n - Suc (Suc m)) = ?p\<close> by simp
qed

lemma decode_round_steps:
  assumes "2 \<le> n" "length v = n"
  shows "decode_round k n acc (v, v ! 0) =
    (fold (step_down k n acc) (rev [0..<n]) v, fold (step_down k n acc) (rev [0..<n]) v ! 0)"
proof -
  let ?v = "fold (step_down k n acc) (rev [1..<n]) v"
  have "[0..<n] = 0 # [1..<n]" using assms(1) by (simp add: upt_conv_Cons)
  moreover have "before n 0 = n - 1" "n - (n - 1) = 1" "after n (n - Suc (n - 1)) = after n 0"
    using assms(1) by (simp_all add: before_def)
  ultimately show ?thesis
    using assms decode_words [of v n "n - 1" k acc]
    by (simp add: decode_round_def decode_word_def Let_def step_down_def mixing_def)
qed

subsection \<open>All rounds\<close>

lemma encode_rounds_snoc: "encode_rounds k n (Suc q) acc vz =
    encode_round k n (acc + of_nat (Suc q) * DELTA) (encode_rounds k n q acc vz)"
proof (induction q arbitrary: acc vz)
  case (Suc q)
  have "encode_rounds k n (Suc (Suc q)) acc vz = encode_rounds k n (Suc q) (acc + DELTA) (encode_round k n (acc + DELTA) vz)" by simp
  also have "\<dots> = encode_round k n (acc + DELTA + of_nat (Suc q) * DELTA) (encode_rounds k n q (acc + DELTA) (encode_round k n (acc + DELTA) vz))"
    by (rule Suc)
  also have "acc + DELTA + of_nat (Suc q) * DELTA = acc + of_nat (Suc (Suc q)) * DELTA" by (simp add: algebra_simps)
  finally show ?case by simp
qed simp

fun up_rounds :: "u32 list \<Rightarrow> nat \<Rightarrow> nat \<Rightarrow> u32 list \<Rightarrow> u32 list" where
  "up_rounds k n 0 v = v"
| "up_rounds k n (Suc q) v = fold (step_up k n (of_nat (Suc q) * DELTA)) [0..<n] (up_rounds k n q v)"

lemma length_up_rounds [simp]: "length (up_rounds k n q v) = length v"
  by (induction q) simp_all

lemma encode_rounds_up:
  assumes "2 \<le> n" "length v = n"
  shows "encode_rounds k n q 0 (v, v ! (n - 1)) = (up_rounds k n q v, up_rounds k n q v ! (n - 1))"
proof (induction q)
  case (Suc q)
  have "encode_rounds k n (Suc q) 0 (v, v ! (n - 1)) =
      encode_round k n (of_nat (Suc q) * DELTA) (up_rounds k n q v, up_rounds k n q v ! (n - 1))"
    by (simp only: encode_rounds_snoc Suc add_0)
  also have "\<dots> = (up_rounds k n (Suc q) v, up_rounds k n (Suc q) v ! (n - 1))"
    by (subst encode_round_steps) (simp_all add: assms)
  finally show ?case .
qed simp

lemma sum_not_0:
  assumes "0 < q" "q \<le> 32"
  shows "of_nat q * DELTA \<noteq> 0"
proof -
  have "\<forall>i \<in> set [1..<33]. of_nat i * DELTA \<noteq> 0" by (simp add: upt_conv_Cons DELTA_def)
  then show ?thesis using assms by auto
qed

lemma decode_loop_up:
  assumes "2 \<le> n" "length v = n"
  shows "q \<le> 32 \<Longrightarrow> decode_loop k n (of_nat q * DELTA) (up_rounds k n q v, up_rounds k n q v ! 0) = Some (v, v ! 0)"
proof (induction q)
  case 0
  then show ?case by (subst decode_loop.simps) simp
next
  case (Suc q)
  let ?a = "of_nat (Suc q) * DELTA"
  have "decode_round k n ?a (up_rounds k n (Suc q) v, up_rounds k n (Suc q) v ! 0) = (up_rounds k n q v, up_rounds k n q v ! 0)"
    by (subst decode_round_steps) (simp_all add: assms steps_down_up)
  moreover have "?a \<noteq> 0" using Suc.prems by (intro sum_not_0) simp_all
  moreover have "?a - DELTA = of_nat q * DELTA" by (simp add: algebra_simps)
  ultimately show ?case using Suc by (subst decode_loop.simps) simp
qed

lemma number_of_rounds_le: "2 \<le> n \<Longrightarrow> number_of_rounds n \<le> 32"
proof -
  assume "2 \<le> n"
  then have "52 div n \<le> 52 div 2" by (intro div_le_mono2) simp_all
  then show ?thesis by (simp add: number_of_rounds_def)
qed

lemma sint_size:
  assumes "2 \<le> n" "n < 2 ^ 31"
  shows "sint (of_nat n :: u32) = int n" "sint (- of_nat n :: u32) = - int n" "unat (of_nat n :: u32) = n"
proof -
  show "sint (of_nat n :: u32) = int n" using assms by (simp add: signed_of_nat signed_take_bit_int_eq_self)
  have "- of_nat n = (of_int (- int n) :: u32)" by simp
  then show "sint (- of_nat n :: u32) = - int n"
    using assms by (simp only: signed_of_int) (simp add: signed_take_bit_int_eq_self)
  show "unat (of_nat n :: u32) = n" using assms by (intro unat_of_nat_lt) simp
qed

text \<open>
  C24. \<open>xxtea\<close> with the number of words encodes, with its negation it decodes what it has encoded, for every key
  of four words and from two words on; the loop of the decoding, which goes on until the sum is 0, ends. Words
  behind the \<open>n\<close> are left alone.
\<close>

theorem xxtea_roundtrip:
  assumes "2 \<le> n" "n < 2 ^ 31" "n \<le> length v" "length k = 4"
  shows "\<exists>w. xxtea v (of_nat n) k = Some (0, w) \<and> length w = length v \<and> drop n w = drop n v \<and>
    xxtea w (- of_nat n) k = Some (0, v)"
proof -
  let ?q = "number_of_rounds n" and ?v = "take n v"
  let ?w = "up_rounds k n ?q ?v"
  have l: "length ?v = n" "length ?w = n" using assms(3) by simp_all
  have "v \<noteq> []" "?w \<noteq> []" using assms(1,3) l(2) by (metis list.size(3) not_numeral_le_zero le_trans)+
  then have ne: "v \<noteq> []" "?w @ drop n v \<noteq> []" "(?w @ drop n v) ! 0 = ?w ! 0" using assms(1) by (simp_all add: nth_append)
  have e: "encode_rounds k n ?q 0 (?v, ?v ! (n - 1)) = (?w, ?w ! (n - 1))" using assms(1) l(1) by (rule encode_rounds_up)
  have d: "decode_loop k n (of_nat ?q * DELTA) (?w, ?w ! 0) = Some (?v, ?v ! 0)"
    using assms(1) l(1) number_of_rounds_le [OF assms(1)] by (rule decode_loop_up)
  have "xxtea v (of_nat n) k = Some (0, ?w @ drop n v)"
    using assms ne(1) e sint_size [OF assms(1,2)] by (simp add: xxtea_def Let_def)
  moreover have "xxtea (?w @ drop n v) (- of_nat n) k = Some (0, v)"
    using assms ne(2,3) d l sint_size [OF assms(1,2)] by (simp add: xxtea_def Let_def)
  ultimately show ?thesis using l assms(3) by (intro exI [of _ "?w @ drop n v"]) simp
qed

lemma xxtea_roundtrip_witness:
  "\<exists>w. xxtea [1, 2, 3] (of_nat 3) [4, 5, 6, 7] = Some (0, w) \<and> length w = length [1, 2, 3 :: u32] \<and> drop 3 w = drop 3 [1, 2, 3] \<and>
    xxtea w (- of_nat 3) [4, 5, 6, 7] = Some (0, [1, 2, 3])"
  by (rule xxtea_roundtrip) simp_all

end
