(* ===== verification/Http11.thy ===== *)
theory Http11
  imports Prelude
begin

text \<open>
  The HTTP request parser of \<open>dll_src/httpp/src/http11_parser.c\<close>: the structure \<open>http_parser\<close>, the state
  machine of \<open>http_parser_execute\<close> with one definition for each \<open>case\<close> and each transition of the C text, and
  the functions around it.

  Pointers into the buffer are offsets from its start. \<open>size_t\<close> values are natural numbers below \<open>2 ^ 64\<close>,
  with the wrap-around of the subtraction and of the sum written out. The callbacks are functions on the memory, which is
  the buffer and what else they change. \<open>None\<close> is a failed \<open>assert\<close> or an access outside of the buffer.
\<close>

subsection \<open>The structure\<close>

type_synonym 'd element_cb = "nat \<Rightarrow> nat \<Rightarrow> bytes \<times> 'd \<Rightarrow> (bytes \<times> 'd) option"
type_synonym 'd field_cb = "nat \<Rightarrow> nat \<Rightarrow> nat \<Rightarrow> nat \<Rightarrow> bytes \<times> 'd \<Rightarrow> (bytes \<times> 'd) option"

text \<open>A callback is \<open>None\<close> when its pointer is \<open>NULL\<close>.\<close>

record 'd http_parser =
  cs :: nat
  body_start :: nat
  content_len :: int
  nread :: nat
  mark :: nat
  field_start :: nat
  field_len :: nat
  query_start :: nat
  http_field :: "'d field_cb option"
  request_method :: "'d element_cb option"
  request_uri :: "'d element_cb option"
  request_path :: "'d element_cb option"
  query_string :: "'d element_cb option"
  http_version :: "'d element_cb option"
  header_done :: "'d element_cb option"

definition http_parser_start :: nat where "http_parser_start = 0"
definition http_parser_first_final :: nat where "http_parser_first_final = 53"
definition http_parser_error :: nat where "http_parser_error = 1"

definition http_parser_init :: "'d http_parser \<Rightarrow> int \<times> 'd http_parser" where
  "http_parser_init parser =
    (1, parser\<lparr>cs := http_parser_start, body_start := 0, content_len := 0, mark := 0, nread := 0,
                field_len := 0, field_start := 0\<rparr>)"

text \<open>\<open>LEN(AT, FPC)\<close> is a difference of unsigned numbers.\<close>

definition LEN :: "nat \<Rightarrow> nat \<Rightarrow> nat" where
  "LEN at p = (if at \<le> p then p - at else 2 ^ 64 - (at - p))"

subsection \<open>The transitions\<close>

text \<open>The actions of the transitions.\<close>

datatype http_action =
    Mark | Start_field | Write_field | Start_value | Write_value | Request_method | Request_uri | Start_query
  | Query_string | Http_version | Request_path | Done

definition call_element :: "'d element_cb option \<Rightarrow> nat \<Rightarrow> nat \<Rightarrow> bytes \<times> 'd \<Rightarrow> (bytes \<times> 'd) option" where
  "call_element cb at n m = (case cb of None \<Rightarrow> Some m | Some f \<Rightarrow> f at n m)"

text \<open>Each action at offset \<open>p\<close>, with \<open>n\<close> bytes of the buffer behind the current one (\<open>pe - p - 1\<close>).\<close>

definition do_mark where
  "do_mark p s = (case s of (parser, m) \<Rightarrow> Some (parser\<lparr>mark := p\<rparr>, m))"

definition do_start_field where
  "do_start_field p s = (case s of (parser, m) \<Rightarrow> Some (parser\<lparr>field_start := p\<rparr>, m))"

definition do_write_field where
  "do_write_field p s = (case s of (parser, m) \<Rightarrow> Some (parser\<lparr>field_len := LEN (field_start parser) p\<rparr>, m))"

definition do_start_value where
  "do_start_value p s = (case s of (parser, m) \<Rightarrow> Some (parser\<lparr>mark := p\<rparr>, m))"

definition do_write_value where
  "do_write_value p s = (case s of (parser, m) \<Rightarrow>
     map_option (Pair parser) (case http_field parser of
         None \<Rightarrow> Some m
       | Some f \<Rightarrow> f (field_start parser) (field_len parser) (mark parser) (LEN (mark parser) p) m))"

definition do_request_method where
  "do_request_method p s = (case s of (parser, m) \<Rightarrow>
     map_option (Pair parser) (call_element (request_method parser) (mark parser) (LEN (mark parser) p) m))"

definition do_request_uri where
  "do_request_uri p s = (case s of (parser, m) \<Rightarrow>
     map_option (Pair parser) (call_element (request_uri parser) (mark parser) (LEN (mark parser) p) m))"

definition do_start_query where
  "do_start_query p s = (case s of (parser, m) \<Rightarrow> Some (parser\<lparr>query_start := p\<rparr>, m))"

definition do_query_string where
  "do_query_string p s = (case s of (parser, m) \<Rightarrow>
     map_option (Pair parser) (call_element (query_string parser) (query_start parser) (LEN (query_start parser) p) m))"

definition do_http_version where
  "do_http_version p s = (case s of (parser, m) \<Rightarrow>
     map_option (Pair parser) (call_element (http_version parser) (mark parser) (LEN (mark parser) p) m))"

definition do_request_path where
  "do_request_path p s = (case s of (parser, m) \<Rightarrow>
     map_option (Pair parser) (call_element (request_path parser) (mark parser) (LEN (mark parser) p) m))"

definition do_done where
  "do_done p n s = (case s of (parser, m) \<Rightarrow>
     (let parser' = parser\<lparr>body_start := p + 1\<rparr>
      in map_option (Pair parser') (call_element (header_done parser') (p + 1) n m)))"

fun do_action :: "http_action \<Rightarrow> nat \<Rightarrow> nat \<Rightarrow> 'd http_parser \<times> bytes \<times> 'd \<Rightarrow> ('d http_parser \<times> bytes \<times> 'd) option" where
  "do_action Mark p n s = do_mark p s"
| "do_action Start_field p n s = do_start_field p s"
| "do_action Write_field p n s = do_write_field p s"
| "do_action Start_value p n s = do_start_value p s"
| "do_action Write_value p n s = do_write_value p s"
| "do_action Request_method p n s = do_request_method p s"
| "do_action Request_uri p n s = do_request_uri p s"
| "do_action Start_query p n s = do_start_query p s"
| "do_action Query_string p n s = do_query_string p s"
| "do_action Http_version p n s = do_http_version p s"
| "do_action Request_path p n s = do_request_path p s"
| "do_action Done p n s = do_done p n s"

fun do_actions :: "http_action list \<Rightarrow> nat \<Rightarrow> nat \<Rightarrow> 'd http_parser \<times> bytes \<times> 'd \<Rightarrow> ('d http_parser \<times> bytes \<times> 'd) option" where
  "do_actions [] p n s = Some s"
| "do_actions (a # as) p n s = do { s' \<leftarrow> do_action a p n s; do_actions as p n s' }"

text \<open>The transition of each label \<open>tr\<close>: its actions in their order and the state it goes to.\<close>

definition tr_3 :: "http_action list \<times> nat" where "tr_3 = ([Mark], 6)"
definition tr_10 :: "http_action list \<times> nat" where "tr_10 = ([Mark], 4)"
definition tr_11 :: "http_action list \<times> nat" where "tr_11 = ([Mark], 20)"
definition tr_12 :: "http_action list \<times> nat" where "tr_12 = ([Mark], 24)"
definition tr_13 :: "http_action list \<times> nat" where "tr_13 = ([Mark], 21)"
definition tr_14 :: "http_action list \<times> nat" where "tr_14 = ([Mark], 2)"
definition tr_16 :: "http_action list \<times> nat" where "tr_16 = ([Write_field], 18)"
definition tr_17 :: "http_action list \<times> nat" where "tr_17 = ([Request_method], 3)"
definition tr_19 :: "http_action list \<times> nat" where "tr_19 = ([Request_uri], 5)"
definition tr_21 :: "http_action list \<times> nat" where "tr_21 = ([Start_field], 17)"
definition tr_22 :: "http_action list \<times> nat" where "tr_22 = ([Http_version], 14)"
definition tr_25 :: "http_action list \<times> nat" where "tr_25 = ([Done], 53)"
definition tr_28 :: "http_action list \<times> nat" where "tr_28 = ([Query_string, Request_uri], 5)"
definition tr_31 :: "http_action list \<times> nat" where "tr_31 = ([Request_path, Request_uri], 5)"
definition tr_33 :: "http_action list \<times> nat" where "tr_33 = ([Request_path], 27)"
definition tr_34 :: "http_action list \<times> nat" where "tr_34 = ([Request_path], 30)"
definition tr_36 :: "http_action list \<times> nat" where "tr_36 = ([Write_value], 14)"
definition tr_37 :: "http_action list \<times> nat" where "tr_37 = ([Start_value], 19)"
definition tr_38 :: "http_action list \<times> nat" where "tr_38 = ([Start_value], 18)"
definition tr_39 :: "http_action list \<times> nat" where "tr_39 = ([Start_query], 31)"
definition tr_40 :: "http_action list \<times> nat" where "tr_40 = ([Start_query, Query_string, Request_uri], 5)"
definition tr_41 :: "http_action list \<times> nat" where "tr_41 = ([Start_query], 32)"

definition transition :: "nat \<Rightarrow> http_action list \<times> nat" where
  "transition t =
    (if t = 3 then tr_3
     else if t = 10 then tr_10
     else if t = 11 then tr_11
     else if t = 12 then tr_12
     else if t = 13 then tr_13
     else if t = 14 then tr_14
     else if t = 16 then tr_16
     else if t = 17 then tr_17
     else if t = 19 then tr_19
     else if t = 21 then tr_21
     else if t = 22 then tr_22
     else if t = 25 then tr_25
     else if t = 28 then tr_28
     else if t = 31 then tr_31
     else if t = 33 then tr_33
     else if t = 34 then tr_34
     else if t = 36 then tr_36
     else if t = 37 then tr_37
     else if t = 38 then tr_38
     else if t = 39 then tr_39
     else if t = 40 then tr_40
     else if t = 41 then tr_41
     else ([], 1))"

subsection \<open>The cases\<close>

text \<open>Where each case goes for the current character.\<close>

datatype label = St nat | Tr nat

definition case_0 :: "int \<Rightarrow> label" where
  "case_0 c =
   (if c = 36 then Tr 14 else if c = 95 then Tr 14 else
    if c < 48 then (if 45 \<le> c \<and> c \<le> 46 then Tr 14 else St 1)
    else if c > 57 then (if 65 \<le> c \<and> c \<le> 90 then Tr 14 else St 1)
    else Tr 14)"

definition case_2 :: "int \<Rightarrow> label" where
  "case_2 c =
   (if c = 32 then Tr 17 else if c = 36 then St 34 else if c = 95 then St 34 else
    if c < 48 then (if 45 \<le> c \<and> c \<le> 46 then St 34 else St 1)
    else if c > 57 then (if 65 \<le> c \<and> c \<le> 90 then St 34 else St 1)
    else St 34)"

definition case_3 :: "int \<Rightarrow> label" where
  "case_3 c =
   (if c = 42 then Tr 10 else if c = 43 then Tr 11 else if c = 47 then Tr 12 else if c = 58 then Tr 13 else
    if c < 65 then (if 45 \<le> c \<and> c \<le> 57 then Tr 11 else St 1)
    else if c > 90 then (if 97 \<le> c \<and> c \<le> 122 then Tr 11 else St 1)
    else Tr 11)"

definition case_4 :: "int \<Rightarrow> label" where
  "case_4 c =
   (if c = 32 then Tr 19 else St 1)"

definition case_5 :: "int \<Rightarrow> label" where
  "case_5 c =
   (if c = 72 then Tr 3 else St 1)"

definition case_6 :: "int \<Rightarrow> label" where
  "case_6 c =
   (if c = 84 then St 7 else St 1)"

definition case_7 :: "int \<Rightarrow> label" where
  "case_7 c =
   (if c = 84 then St 8 else St 1)"

definition case_8 :: "int \<Rightarrow> label" where
  "case_8 c =
   (if c = 80 then St 9 else St 1)"

definition case_9 :: "int \<Rightarrow> label" where
  "case_9 c =
   (if c = 47 then St 10 else St 1)"

definition case_10 :: "int \<Rightarrow> label" where
  "case_10 c =
   (if 48 \<le> c \<and> c \<le> 57 then St 11 else St 1)"

definition case_11 :: "int \<Rightarrow> label" where
  "case_11 c =
   (if c = 46 then St 12 else if 48 \<le> c \<and> c \<le> 57 then St 11 else St 1)"

definition case_12 :: "int \<Rightarrow> label" where
  "case_12 c =
   (if 48 \<le> c \<and> c \<le> 57 then St 13 else St 1)"

definition case_13 :: "int \<Rightarrow> label" where
  "case_13 c =
   (if c = 13 then Tr 22 else if 48 \<le> c \<and> c \<le> 57 then St 13 else St 1)"

definition case_14 :: "int \<Rightarrow> label" where
  "case_14 c =
   (if c = 10 then St 15 else St 1)"

definition case_15 :: "int \<Rightarrow> label" where
  "case_15 c =
   (if c = 13 then St 16 else if c = 33 then Tr 21 else if c = 124 then Tr 21 else if c = 126 then Tr 21 else
    if c < 45 then (if c > 39 then (if 42 \<le> c \<and> c \<le> 43 then Tr 21 else St 1)
     else if c \<ge> 35 then Tr 21 else St 1)
    else if c > 46 then (if c < 65 then (if 48 \<le> c \<and> c \<le> 57 then Tr 21 else St 1)
     else if c > 90 then (if 94 \<le> c \<and> c \<le> 122 then Tr 21 else St 1)
     else Tr 21)
    else Tr 21)"

definition case_16 :: "int \<Rightarrow> label" where
  "case_16 c =
   (if c = 10 then Tr 25 else St 1)"

definition case_53 :: "int \<Rightarrow> label" where
  "case_53 c =
   (St 1)"

definition case_17 :: "int \<Rightarrow> label" where
  "case_17 c =
   (if c = 33 then St 17 else if c = 58 then Tr 16 else if c = 124 then St 17 else if c = 126 then St 17 else
    if c < 45 then (if c > 39 then (if 42 \<le> c \<and> c \<le> 43 then St 17 else St 1)
     else if c \<ge> 35 then St 17 else St 1)
    else if c > 46 then (if c < 65 then (if 48 \<le> c \<and> c \<le> 57 then St 17 else St 1)
     else if c > 90 then (if 94 \<le> c \<and> c \<le> 122 then St 17 else St 1)
     else St 17)
    else St 17)"

definition case_18 :: "int \<Rightarrow> label" where
  "case_18 c =
   (if c = 13 then Tr 36 else if c = 32 then Tr 38 else
    Tr 37)"

definition case_19 :: "int \<Rightarrow> label" where
  "case_19 c =
   (if c = 13 then Tr 36 else St 19)"

definition case_20 :: "int \<Rightarrow> label" where
  "case_20 c =
   (if c = 43 then St 20 else if c = 58 then St 21 else
    if c < 48 then (if 45 \<le> c \<and> c \<le> 46 then St 20 else St 1)
    else if c > 57 then (if c > 90 then (if 97 \<le> c \<and> c \<le> 122 then St 20 else St 1)
     else if c \<ge> 65 then St 20 else St 1)
    else St 20)"

definition case_21 :: "int \<Rightarrow> label" where
  "case_21 c =
   (if c = 32 then Tr 19 else if c = 37 then St 22 else if c = 60 then St 1 else if c = 62 then St 1 else if c = 127 then St 1 else
    if c > 31 then (if 34 \<le> c \<and> c \<le> 35 then St 1 else St 21)
    else if c \<ge> 0 then St 1 else St 21)"

definition case_22 :: "int \<Rightarrow> label" where
  "case_22 c =
   (if c < 65 then (if 48 \<le> c \<and> c \<le> 57 then St 23 else St 1)
    else if c > 70 then (if 97 \<le> c \<and> c \<le> 102 then St 23 else St 1)
    else St 23)"

definition case_23 :: "int \<Rightarrow> label" where
  "case_23 c =
   (if c < 65 then (if 48 \<le> c \<and> c \<le> 57 then St 21 else St 1)
    else if c > 70 then (if 97 \<le> c \<and> c \<le> 102 then St 21 else St 1)
    else St 21)"

definition case_24 :: "int \<Rightarrow> label" where
  "case_24 c =
   (if c = 32 then Tr 31 else if c = 37 then St 25 else if c = 59 then Tr 33 else if c = 60 then St 1 else if c = 62 then St 1 else if c = 63 then Tr 34 else if c = 127 then St 1 else
    if c > 31 then (if 34 \<le> c \<and> c \<le> 35 then St 1 else St 24)
    else if c \<ge> 0 then St 1 else St 24)"

definition case_25 :: "int \<Rightarrow> label" where
  "case_25 c =
   (if c < 65 then (if 48 \<le> c \<and> c \<le> 57 then St 26 else St 1)
    else if c > 70 then (if 97 \<le> c \<and> c \<le> 102 then St 26 else St 1)
    else St 26)"

definition case_26 :: "int \<Rightarrow> label" where
  "case_26 c =
   (if c < 65 then (if 48 \<le> c \<and> c \<le> 57 then St 24 else St 1)
    else if c > 70 then (if 97 \<le> c \<and> c \<le> 102 then St 24 else St 1)
    else St 24)"

definition case_27 :: "int \<Rightarrow> label" where
  "case_27 c =
   (if c = 32 then Tr 19 else if c = 37 then St 28 else if c = 60 then St 1 else if c = 62 then St 1 else if c = 63 then St 30 else if c = 127 then St 1 else
    if c > 31 then (if 34 \<le> c \<and> c \<le> 35 then St 1 else St 27)
    else if c \<ge> 0 then St 1 else St 27)"

definition case_28 :: "int \<Rightarrow> label" where
  "case_28 c =
   (if c < 65 then (if 48 \<le> c \<and> c \<le> 57 then St 29 else St 1)
    else if c > 70 then (if 97 \<le> c \<and> c \<le> 102 then St 29 else St 1)
    else St 29)"

definition case_29 :: "int \<Rightarrow> label" where
  "case_29 c =
   (if c < 65 then (if 48 \<le> c \<and> c \<le> 57 then St 27 else St 1)
    else if c > 70 then (if 97 \<le> c \<and> c \<le> 102 then St 27 else St 1)
    else St 27)"

definition case_30 :: "int \<Rightarrow> label" where
  "case_30 c =
   (if c = 32 then Tr 40 else if c = 37 then Tr 41 else if c = 60 then St 1 else if c = 62 then St 1 else if c = 127 then St 1 else
    if c > 31 then (if 34 \<le> c \<and> c \<le> 35 then St 1 else Tr 39)
    else if c \<ge> 0 then St 1 else Tr 39)"

definition case_31 :: "int \<Rightarrow> label" where
  "case_31 c =
   (if c = 32 then Tr 28 else if c = 37 then St 32 else if c = 60 then St 1 else if c = 62 then St 1 else if c = 127 then St 1 else
    if c > 31 then (if 34 \<le> c \<and> c \<le> 35 then St 1 else St 31)
    else if c \<ge> 0 then St 1 else St 31)"

definition case_32 :: "int \<Rightarrow> label" where
  "case_32 c =
   (if c < 65 then (if 48 \<le> c \<and> c \<le> 57 then St 33 else St 1)
    else if c > 70 then (if 97 \<le> c \<and> c \<le> 102 then St 33 else St 1)
    else St 33)"

definition case_33 :: "int \<Rightarrow> label" where
  "case_33 c =
   (if c < 65 then (if 48 \<le> c \<and> c \<le> 57 then St 31 else St 1)
    else if c > 70 then (if 97 \<le> c \<and> c \<le> 102 then St 31 else St 1)
    else St 31)"

definition case_34 :: "int \<Rightarrow> label" where
  "case_34 c =
   (if c = 32 then Tr 17 else if c = 36 then St 35 else if c = 95 then St 35 else
    if c < 48 then (if 45 \<le> c \<and> c \<le> 46 then St 35 else St 1)
    else if c > 57 then (if 65 \<le> c \<and> c \<le> 90 then St 35 else St 1)
    else St 35)"

definition case_35 :: "int \<Rightarrow> label" where
  "case_35 c =
   (if c = 32 then Tr 17 else if c = 36 then St 36 else if c = 95 then St 36 else
    if c < 48 then (if 45 \<le> c \<and> c \<le> 46 then St 36 else St 1)
    else if c > 57 then (if 65 \<le> c \<and> c \<le> 90 then St 36 else St 1)
    else St 36)"

definition case_36 :: "int \<Rightarrow> label" where
  "case_36 c =
   (if c = 32 then Tr 17 else if c = 36 then St 37 else if c = 95 then St 37 else
    if c < 48 then (if 45 \<le> c \<and> c \<le> 46 then St 37 else St 1)
    else if c > 57 then (if 65 \<le> c \<and> c \<le> 90 then St 37 else St 1)
    else St 37)"

definition case_37 :: "int \<Rightarrow> label" where
  "case_37 c =
   (if c = 32 then Tr 17 else if c = 36 then St 38 else if c = 95 then St 38 else
    if c < 48 then (if 45 \<le> c \<and> c \<le> 46 then St 38 else St 1)
    else if c > 57 then (if 65 \<le> c \<and> c \<le> 90 then St 38 else St 1)
    else St 38)"

definition case_38 :: "int \<Rightarrow> label" where
  "case_38 c =
   (if c = 32 then Tr 17 else if c = 36 then St 39 else if c = 95 then St 39 else
    if c < 48 then (if 45 \<le> c \<and> c \<le> 46 then St 39 else St 1)
    else if c > 57 then (if 65 \<le> c \<and> c \<le> 90 then St 39 else St 1)
    else St 39)"

definition case_39 :: "int \<Rightarrow> label" where
  "case_39 c =
   (if c = 32 then Tr 17 else if c = 36 then St 40 else if c = 95 then St 40 else
    if c < 48 then (if 45 \<le> c \<and> c \<le> 46 then St 40 else St 1)
    else if c > 57 then (if 65 \<le> c \<and> c \<le> 90 then St 40 else St 1)
    else St 40)"

definition case_40 :: "int \<Rightarrow> label" where
  "case_40 c =
   (if c = 32 then Tr 17 else if c = 36 then St 41 else if c = 95 then St 41 else
    if c < 48 then (if 45 \<le> c \<and> c \<le> 46 then St 41 else St 1)
    else if c > 57 then (if 65 \<le> c \<and> c \<le> 90 then St 41 else St 1)
    else St 41)"

definition case_41 :: "int \<Rightarrow> label" where
  "case_41 c =
   (if c = 32 then Tr 17 else if c = 36 then St 42 else if c = 95 then St 42 else
    if c < 48 then (if 45 \<le> c \<and> c \<le> 46 then St 42 else St 1)
    else if c > 57 then (if 65 \<le> c \<and> c \<le> 90 then St 42 else St 1)
    else St 42)"

definition case_42 :: "int \<Rightarrow> label" where
  "case_42 c =
   (if c = 32 then Tr 17 else if c = 36 then St 43 else if c = 95 then St 43 else
    if c < 48 then (if 45 \<le> c \<and> c \<le> 46 then St 43 else St 1)
    else if c > 57 then (if 65 \<le> c \<and> c \<le> 90 then St 43 else St 1)
    else St 43)"

definition case_43 :: "int \<Rightarrow> label" where
  "case_43 c =
   (if c = 32 then Tr 17 else if c = 36 then St 44 else if c = 95 then St 44 else
    if c < 48 then (if 45 \<le> c \<and> c \<le> 46 then St 44 else St 1)
    else if c > 57 then (if 65 \<le> c \<and> c \<le> 90 then St 44 else St 1)
    else St 44)"

definition case_44 :: "int \<Rightarrow> label" where
  "case_44 c =
   (if c = 32 then Tr 17 else if c = 36 then St 45 else if c = 95 then St 45 else
    if c < 48 then (if 45 \<le> c \<and> c \<le> 46 then St 45 else St 1)
    else if c > 57 then (if 65 \<le> c \<and> c \<le> 90 then St 45 else St 1)
    else St 45)"

definition case_45 :: "int \<Rightarrow> label" where
  "case_45 c =
   (if c = 32 then Tr 17 else if c = 36 then St 46 else if c = 95 then St 46 else
    if c < 48 then (if 45 \<le> c \<and> c \<le> 46 then St 46 else St 1)
    else if c > 57 then (if 65 \<le> c \<and> c \<le> 90 then St 46 else St 1)
    else St 46)"

definition case_46 :: "int \<Rightarrow> label" where
  "case_46 c =
   (if c = 32 then Tr 17 else if c = 36 then St 47 else if c = 95 then St 47 else
    if c < 48 then (if 45 \<le> c \<and> c \<le> 46 then St 47 else St 1)
    else if c > 57 then (if 65 \<le> c \<and> c \<le> 90 then St 47 else St 1)
    else St 47)"

definition case_47 :: "int \<Rightarrow> label" where
  "case_47 c =
   (if c = 32 then Tr 17 else if c = 36 then St 48 else if c = 95 then St 48 else
    if c < 48 then (if 45 \<le> c \<and> c \<le> 46 then St 48 else St 1)
    else if c > 57 then (if 65 \<le> c \<and> c \<le> 90 then St 48 else St 1)
    else St 48)"

definition case_48 :: "int \<Rightarrow> label" where
  "case_48 c =
   (if c = 32 then Tr 17 else if c = 36 then St 49 else if c = 95 then St 49 else
    if c < 48 then (if 45 \<le> c \<and> c \<le> 46 then St 49 else St 1)
    else if c > 57 then (if 65 \<le> c \<and> c \<le> 90 then St 49 else St 1)
    else St 49)"

definition case_49 :: "int \<Rightarrow> label" where
  "case_49 c =
   (if c = 32 then Tr 17 else if c = 36 then St 50 else if c = 95 then St 50 else
    if c < 48 then (if 45 \<le> c \<and> c \<le> 46 then St 50 else St 1)
    else if c > 57 then (if 65 \<le> c \<and> c \<le> 90 then St 50 else St 1)
    else St 50)"

definition case_50 :: "int \<Rightarrow> label" where
  "case_50 c =
   (if c = 32 then Tr 17 else if c = 36 then St 51 else if c = 95 then St 51 else
    if c < 48 then (if 45 \<le> c \<and> c \<le> 46 then St 51 else St 1)
    else if c > 57 then (if 65 \<le> c \<and> c \<le> 90 then St 51 else St 1)
    else St 51)"

definition case_51 :: "int \<Rightarrow> label" where
  "case_51 c =
   (if c = 32 then Tr 17 else if c = 36 then St 52 else if c = 95 then St 52 else
    if c < 48 then (if 45 \<le> c \<and> c \<le> 46 then St 52 else St 1)
    else if c > 57 then (if 65 \<le> c \<and> c \<le> 90 then St 52 else St 1)
    else St 52)"

definition case_52 :: "int \<Rightarrow> label" where
  "case_52 c =
   (if c = 32 then Tr 17 else St 1)"

text \<open>The \<open>switch\<close>; without a case the code falls to \<open>_out1\<close>.\<close>

definition goto_case :: "nat \<Rightarrow> int \<Rightarrow> label" where
  "goto_case k c =
    (if k = 0 then case_0 c
     else if k = 2 then case_2 c
     else if k = 3 then case_3 c
     else if k = 4 then case_4 c
     else if k = 5 then case_5 c
     else if k = 6 then case_6 c
     else if k = 7 then case_7 c
     else if k = 8 then case_8 c
     else if k = 9 then case_9 c
     else if k = 10 then case_10 c
     else if k = 11 then case_11 c
     else if k = 12 then case_12 c
     else if k = 13 then case_13 c
     else if k = 14 then case_14 c
     else if k = 15 then case_15 c
     else if k = 16 then case_16 c
     else if k = 17 then case_17 c
     else if k = 18 then case_18 c
     else if k = 19 then case_19 c
     else if k = 20 then case_20 c
     else if k = 21 then case_21 c
     else if k = 22 then case_22 c
     else if k = 23 then case_23 c
     else if k = 24 then case_24 c
     else if k = 25 then case_25 c
     else if k = 26 then case_26 c
     else if k = 27 then case_27 c
     else if k = 28 then case_28 c
     else if k = 29 then case_29 c
     else if k = 30 then case_30 c
     else if k = 31 then case_31 c
     else if k = 32 then case_32 c
     else if k = 33 then case_33 c
     else if k = 34 then case_34 c
     else if k = 35 then case_35 c
     else if k = 36 then case_36 c
     else if k = 37 then case_37 c
     else if k = 38 then case_38 c
     else if k = 39 then case_39 c
     else if k = 40 then case_40 c
     else if k = 41 then case_41 c
     else if k = 42 then case_42 c
     else if k = 43 then case_43 c
     else if k = 44 then case_44 c
     else if k = 45 then case_45 c
     else if k = 46 then case_46 c
     else if k = 47 then case_47 c
     else if k = 48 then case_48 c
     else if k = 49 then case_49 c
     else if k = 50 then case_50 c
     else if k = 51 then case_51 c
     else if k = 52 then case_52 c
     else if k = 53 then case_53 c
     else St 1)"

subsection \<open>The loop\<close>

text \<open>A \<open>char\<close> is signed.\<close>

definition schar :: "u8 \<Rightarrow> int" where "schar b = sint b"

text \<open>
  The machine at \<open>case k\<close> with the current byte at \<open>p\<close> and \<open>pe - p\<close> bytes left. \<open>++p == pe\<close> holds when none is
  left behind the current one. From state 1 and from the final transition it leaves without moving \<open>p\<close>.
\<close>

fun exec_loop :: "nat \<Rightarrow> nat \<Rightarrow> nat \<Rightarrow> 'd http_parser \<times> bytes \<times> 'd \<Rightarrow> (nat \<times> nat \<times> 'd http_parser \<times> bytes \<times> 'd) option" where
  "exec_loop 0 k p s = Some (k, p, s)"
| "exec_loop (Suc n) k p s =
    (if length (fst (snd s)) \<le> p then None
     else case goto_case k (schar (fst (snd s) ! p)) of
            St j \<Rightarrow> if j = 1 then Some (1, p, s) else exec_loop n j (p + 1) s
          | Tr t \<Rightarrow> do {
              s' \<leftarrow> do_actions (fst (transition t)) p n s;
              if t = 25 then Some (snd (transition t), p, s')
              else exec_loop n (snd (transition t)) (p + 1) s' })"

definition execute_end :: "nat \<Rightarrow> nat \<Rightarrow> nat \<Rightarrow> nat \<Rightarrow> 'd http_parser \<Rightarrow> (nat \<times> 'd http_parser) option" where
  "execute_end k p len off parser =
    (let parser = parser\<lparr>cs := k\<rparr>;
         parser = parser\<lparr>nread := (nread parser + (p - off)) mod 2 ^ 64\<rparr>
     in if \<not> p \<le> len then None
        else if \<not> nread parser \<le> len then None
        else if \<not> body_start parser \<le> len then None
        else if \<not> mark parser < len then None
        else if \<not> field_len parser \<le> len then None
        else if \<not> field_start parser < len then None
        else let parser = (if body_start parser \<noteq> 0 then parser\<lparr>nread := (nread parser + 1) mod 2 ^ 64\<rparr> else parser)
             in Some (nread parser, parser))"

definition http_parser_execute :: "'d http_parser \<Rightarrow> bytes \<times> 'd \<Rightarrow> nat \<Rightarrow> nat \<Rightarrow> (nat \<times> 'd http_parser \<times> bytes \<times> 'd) option" where
  "http_parser_execute parser m len off =
    (if \<not> off \<le> len then None
     else if length (fst m) \<le> len then None
     else if fst m ! len \<noteq> 0 then None
     else do {
       (k, p, parser, m) \<leftarrow> exec_loop (len - off) (cs parser) off (parser, m);
       (r, parser) \<leftarrow> execute_end k p len off parser;
       Some (r, parser, m) })"

definition http_parser_has_error :: "'d http_parser \<Rightarrow> bool" where
  "http_parser_has_error parser \<longleftrightarrow> cs parser = http_parser_error"

definition http_parser_is_finished :: "'d http_parser \<Rightarrow> bool" where
  "http_parser_is_finished parser \<longleftrightarrow> cs parser = http_parser_first_final"

definition http_parser_finish :: "'d http_parser \<Rightarrow> int \<times> 'd http_parser" where
  "http_parser_finish parser =
    (let parser' = parser\<lparr>cs := cs parser\<rparr>
     in (if http_parser_has_error parser' then -1 else if http_parser_is_finished parser' then 1 else 0, parser'))"

end
