(* ===== verification/HttpTrace.thy ===== *)
theory HttpTrace
  imports Http11
begin

text \<open>
  What the state machine does, apart from the callbacks: the trace of a sequence of bytes is the state it
  reaches, the offset where it stops, the marks it keeps and the calls it makes. The locale states what the machine
  relies on in its callbacks; under these laws the machine runs without a failure and has the effect of the calls of the
  trace in their order.
\<close>

subsection \<open>Where a case can go\<close>

lemmas case_defs =
  case_0_def case_2_def case_3_def case_4_def case_5_def case_6_def case_7_def case_8_def case_9_def case_10_def case_11_def case_12_def case_13_def case_14_def case_15_def case_16_def case_17_def case_18_def case_19_def case_20_def case_21_def case_22_def case_23_def case_24_def case_25_def case_26_def case_27_def case_28_def case_29_def case_30_def case_31_def case_32_def case_33_def case_34_def case_35_def case_36_def case_37_def case_38_def case_39_def case_40_def case_41_def case_42_def case_43_def case_44_def case_45_def case_46_def case_47_def case_48_def case_49_def case_50_def case_51_def case_52_def case_53_def

lemma case_labels:
  shows "case_0 c \<in> {Tr 14, St 1}"
  and "case_2 c \<in> {Tr 17, St 34, St 1}"
  and "case_3 c \<in> {Tr 10, Tr 11, Tr 12, Tr 13, St 1}"
  and "case_4 c \<in> {Tr 19, St 1}"
  and "case_5 c \<in> {Tr 3, St 1}"
  and "case_6 c \<in> {St 7, St 1}"
  and "case_7 c \<in> {St 8, St 1}"
  and "case_8 c \<in> {St 9, St 1}"
  and "case_9 c \<in> {St 10, St 1}"
  and "case_10 c \<in> {St 11, St 1}"
  and "case_11 c \<in> {St 12, St 11, St 1}"
  and "case_12 c \<in> {St 13, St 1}"
  and "case_13 c \<in> {Tr 22, St 13, St 1}"
  and "case_14 c \<in> {St 15, St 1}"
  and "case_15 c \<in> {St 16, Tr 21, St 1}"
  and "case_16 c \<in> {Tr 25, St 1}"
  and "case_17 c \<in> {St 17, Tr 16, St 1}"
  and "case_18 c \<in> {Tr 36, Tr 38, Tr 37}"
  and "case_19 c \<in> {Tr 36, St 19}"
  and "case_20 c \<in> {St 20, St 21, St 1}"
  and "case_21 c \<in> {Tr 19, St 22, St 1, St 21}"
  and "case_22 c \<in> {St 23, St 1}"
  and "case_23 c \<in> {St 21, St 1}"
  and "case_24 c \<in> {Tr 31, St 25, Tr 33, St 1, Tr 34, St 24}"
  and "case_25 c \<in> {St 26, St 1}"
  and "case_26 c \<in> {St 24, St 1}"
  and "case_27 c \<in> {Tr 19, St 28, St 1, St 30, St 27}"
  and "case_28 c \<in> {St 29, St 1}"
  and "case_29 c \<in> {St 27, St 1}"
  and "case_30 c \<in> {Tr 40, Tr 41, St 1, Tr 39}"
  and "case_31 c \<in> {Tr 28, St 32, St 1, St 31}"
  and "case_32 c \<in> {St 33, St 1}"
  and "case_33 c \<in> {St 31, St 1}"
  and "case_34 c \<in> {Tr 17, St 35, St 1}"
  and "case_35 c \<in> {Tr 17, St 36, St 1}"
  and "case_36 c \<in> {Tr 17, St 37, St 1}"
  and "case_37 c \<in> {Tr 17, St 38, St 1}"
  and "case_38 c \<in> {Tr 17, St 39, St 1}"
  and "case_39 c \<in> {Tr 17, St 40, St 1}"
  and "case_40 c \<in> {Tr 17, St 41, St 1}"
  and "case_41 c \<in> {Tr 17, St 42, St 1}"
  and "case_42 c \<in> {Tr 17, St 43, St 1}"
  and "case_43 c \<in> {Tr 17, St 44, St 1}"
  and "case_44 c \<in> {Tr 17, St 45, St 1}"
  and "case_45 c \<in> {Tr 17, St 46, St 1}"
  and "case_46 c \<in> {Tr 17, St 47, St 1}"
  and "case_47 c \<in> {Tr 17, St 48, St 1}"
  and "case_48 c \<in> {Tr 17, St 49, St 1}"
  and "case_49 c \<in> {Tr 17, St 50, St 1}"
  and "case_50 c \<in> {Tr 17, St 51, St 1}"
  and "case_51 c \<in> {Tr 17, St 52, St 1}"
  and "case_52 c \<in> {Tr 17, St 1}"
  and "case_53 c \<in> {St 1}"
  by (simp_all add: case_defs)

definition edges :: "nat \<Rightarrow> label list" where
  "edges k =
    (if k = 0 then [Tr 14, St 1]
     else if k = 2 then [Tr 17, St 34, St 1]
     else if k = 3 then [Tr 10, Tr 11, Tr 12, Tr 13, St 1]
     else if k = 4 then [Tr 19, St 1]
     else if k = 5 then [Tr 3, St 1]
     else if k = 6 then [St 7, St 1]
     else if k = 7 then [St 8, St 1]
     else if k = 8 then [St 9, St 1]
     else if k = 9 then [St 10, St 1]
     else if k = 10 then [St 11, St 1]
     else if k = 11 then [St 12, St 11, St 1]
     else if k = 12 then [St 13, St 1]
     else if k = 13 then [Tr 22, St 13, St 1]
     else if k = 14 then [St 15, St 1]
     else if k = 15 then [St 16, Tr 21, St 1]
     else if k = 16 then [Tr 25, St 1]
     else if k = 17 then [St 17, Tr 16, St 1]
     else if k = 18 then [Tr 36, Tr 38, Tr 37]
     else if k = 19 then [Tr 36, St 19]
     else if k = 20 then [St 20, St 21, St 1]
     else if k = 21 then [Tr 19, St 22, St 1, St 21]
     else if k = 22 then [St 23, St 1]
     else if k = 23 then [St 21, St 1]
     else if k = 24 then [Tr 31, St 25, Tr 33, St 1, Tr 34, St 24]
     else if k = 25 then [St 26, St 1]
     else if k = 26 then [St 24, St 1]
     else if k = 27 then [Tr 19, St 28, St 1, St 30, St 27]
     else if k = 28 then [St 29, St 1]
     else if k = 29 then [St 27, St 1]
     else if k = 30 then [Tr 40, Tr 41, St 1, Tr 39]
     else if k = 31 then [Tr 28, St 32, St 1, St 31]
     else if k = 32 then [St 33, St 1]
     else if k = 33 then [St 31, St 1]
     else if k = 34 then [Tr 17, St 35, St 1]
     else if k = 35 then [Tr 17, St 36, St 1]
     else if k = 36 then [Tr 17, St 37, St 1]
     else if k = 37 then [Tr 17, St 38, St 1]
     else if k = 38 then [Tr 17, St 39, St 1]
     else if k = 39 then [Tr 17, St 40, St 1]
     else if k = 40 then [Tr 17, St 41, St 1]
     else if k = 41 then [Tr 17, St 42, St 1]
     else if k = 42 then [Tr 17, St 43, St 1]
     else if k = 43 then [Tr 17, St 44, St 1]
     else if k = 44 then [Tr 17, St 45, St 1]
     else if k = 45 then [Tr 17, St 46, St 1]
     else if k = 46 then [Tr 17, St 47, St 1]
     else if k = 47 then [Tr 17, St 48, St 1]
     else if k = 48 then [Tr 17, St 49, St 1]
     else if k = 49 then [Tr 17, St 50, St 1]
     else if k = 50 then [Tr 17, St 51, St 1]
     else if k = 51 then [Tr 17, St 52, St 1]
     else if k = 52 then [Tr 17, St 1]
     else if k = 53 then [St 1]
     else [St 1])"

lemma goto_case_edges: "goto_case k c \<in> set (edges k)"
  using case_labels [of c] unfolding goto_case_def edges_def by simp

lemma goes_to:
  assumes "goto_case k c = St j"
  shows "(j = 17 \<longrightarrow> k = 17) \<and> (k = 17 \<longrightarrow> j = 17 \<or> j = 1) \<and>
    (j = 31 \<or> j = 32 \<or> j = 33 \<longrightarrow> k = 31 \<or> k = 32 \<or> k = 33) \<and> j \<noteq> 53"
  using goto_case_edges [of k c] unfolding assms edges_def by (auto split: if_splits)

lemma takes_transition:
  assumes "goto_case k c = Tr t"
  shows "t \<in> {3, 10, 11, 12, 13, 14, 16, 17, 19, 21, 22, 25, 28, 31, 33, 34, 36, 37, 38, 39, 40, 41}"
    and "t = 28 \<Longrightarrow> k = 31" and "k = 17 \<longleftrightarrow> t = 16"
  using goto_case_edges [of k c] unfolding assms edges_def by (auto split: if_splits)

subsection \<open>The trace\<close>

text \<open>A call of a callback with its offsets and lengths.\<close>

datatype http_call =
    Method_call nat nat | Uri_call nat nat | Path_call nat nat | Query_call nat nat | Version_call nat nat
  | Field_call nat nat nat nat | Done_call nat nat

fun do_call :: "'d http_parser \<Rightarrow> http_call \<Rightarrow> bytes \<times> 'd \<Rightarrow> (bytes \<times> 'd) option" where
  "do_call P (Method_call at n) m = call_element (request_method P) at n m"
| "do_call P (Uri_call at n) m = call_element (request_uri P) at n m"
| "do_call P (Path_call at n) m = call_element (request_path P) at n m"
| "do_call P (Query_call at n) m = call_element (query_string P) at n m"
| "do_call P (Version_call at n) m = call_element (http_version P) at n m"
| "do_call P (Field_call f fn v vn) m = (case http_field P of None \<Rightarrow> Some m | Some g \<Rightarrow> g f fn v vn m)"
| "do_call P (Done_call at n) m = call_element (header_done P) at n m"

fun do_calls :: "'d http_parser \<Rightarrow> http_call list \<Rightarrow> bytes \<times> 'd \<Rightarrow> (bytes \<times> 'd) option" where
  "do_calls P [] m = Some m"
| "do_calls P (c # calls) m = do { m' \<leftarrow> do_call P c m; do_calls P calls m' }"

text \<open>What an action noted_all in the structure, and the calls it makes.\<close>

fun noted :: "http_action \<Rightarrow> nat \<Rightarrow> 'd http_parser \<Rightarrow> 'd http_parser" where
  "noted Mark p P = P\<lparr>mark := p\<rparr>"
| "noted Start_field p P = P\<lparr>field_start := p\<rparr>"
| "noted Write_field p P = P\<lparr>field_len := LEN (field_start P) p\<rparr>"
| "noted Start_value p P = P\<lparr>mark := p\<rparr>"
| "noted Start_query p P = P\<lparr>query_start := p\<rparr>"
| "noted Done p P = P\<lparr>body_start := p + 1\<rparr>"
| "noted _ p P = P"

fun makes :: "http_action \<Rightarrow> nat \<Rightarrow> nat \<Rightarrow> 'd http_parser \<Rightarrow> http_call list" where
  "makes Write_value p n P = [Field_call (field_start P) (field_len P) (mark P) (LEN (mark P) p)]"
| "makes Request_method p n P = [Method_call (mark P) (LEN (mark P) p)]"
| "makes Request_uri p n P = [Uri_call (mark P) (LEN (mark P) p)]"
| "makes Query_string p n P = [Query_call (query_start P) (LEN (query_start P) p)]"
| "makes Http_version p n P = [Version_call (mark P) (LEN (mark P) p)]"
| "makes Request_path p n P = [Path_call (mark P) (LEN (mark P) p)]"
| "makes Done p n P = [Done_call (p + 1) n]"
| "makes _ p n P = []"

fun noted_all :: "http_action list \<Rightarrow> nat \<Rightarrow> 'd http_parser \<Rightarrow> 'd http_parser" where
  "noted_all [] p P = P"
| "noted_all (a # as) p P = noted_all as p (noted a p P)"

fun makes_all :: "http_action list \<Rightarrow> nat \<Rightarrow> nat \<Rightarrow> 'd http_parser \<Rightarrow> http_call list" where
  "makes_all [] p n P = []"
| "makes_all (a # as) p n P = makes a p n P @ makes_all as p n (noted a p P)"

fun trace :: "nat \<Rightarrow> nat \<Rightarrow> 'd http_parser \<Rightarrow> bytes \<Rightarrow> nat \<times> nat \<times> 'd http_parser \<times> http_call list" where
  "trace k p P [] = (k, p, P, [])"
| "trace k p P (b # bs) =
    (case goto_case k (schar b) of
       St j \<Rightarrow> if j = 1 then (1, p, P, []) else trace j (p + 1) P bs
     | Tr t \<Rightarrow>
        (let acts = fst (transition t); k' = snd (transition t); P' = noted_all acts p P; calls = makes_all acts p (length bs) P
         in if t = 25 then (k', p, P', calls)
            else case trace k' (p + 1) P' bs of (k'', q, P'', calls') \<Rightarrow> (k'', q, P'', calls @ calls')))"

text \<open>The structure keeps its callbacks.\<close>

definition same_callbacks :: "'d http_parser \<Rightarrow> 'd http_parser \<Rightarrow> bool" where
  "same_callbacks P Q \<longleftrightarrow> http_field P = http_field Q \<and> request_method P = request_method Q \<and>
     request_uri P = request_uri Q \<and> request_path P = request_path Q \<and> query_string P = query_string Q \<and>
     http_version P = http_version Q \<and> header_done P = header_done Q"

lemma same_callbacks_noted [simp]: "same_callbacks (noted a p P) Q = same_callbacks P Q"
  by (cases a) (simp_all add: same_callbacks_def)

lemma same_callbacks_notes [simp]: "same_callbacks (noted_all as p P) Q = same_callbacks P Q"
  by (induction as arbitrary: P) simp_all

lemma do_call_same: "same_callbacks P Q \<Longrightarrow> do_call P c m = do_call Q c m"
  by (cases c) (simp_all add: same_callbacks_def)

lemma do_calls_same: "same_callbacks P Q \<Longrightarrow> do_calls P calls m = do_calls Q calls m"
  by (induction calls arbitrary: m) (simp_all add: do_call_same [of P Q] split: Option.bind_split)

lemma do_calls_one: "do_calls P [c] m = do_call P c m"
  by (cases "do_call P c m") simp_all

lemma do_calls_append: "do_calls P (calls @ ds) m = do { m' \<leftarrow> do_calls P calls m; do_calls P ds m' }"
  by (induction calls arbitrary: m) (simp_all split: Option.bind_split)

lemmas do_action_defs = do_mark_def do_start_field_def do_write_field_def do_start_value_def do_write_value_def
  do_request_method_def do_request_uri_def do_start_query_def do_query_string_def do_http_version_def
  do_request_path_def do_done_def

lemma do_action_calls:
  "do_action a p n (P, m) = map_option (Pair (noted a p P)) (do_calls P (makes a p n P) m)"
  by (cases a) (simp_all add: do_action_defs do_calls_one del: do_calls.simps(2))

lemma do_actions_calls:
  "same_callbacks P Q \<Longrightarrow>
   do_actions as p n (P, m) = map_option (Pair (noted_all as p P)) (do_calls Q (makes_all as p n P) m)"
proof (induction as arbitrary: P m)
  case (Cons a as)
  have eq: "do_calls P (makes a p n P) m = do_calls Q (makes a p n P) m" by (rule do_calls_same [OF Cons.prems])
  have "same_callbacks (noted a p P) Q" using Cons.prems by simp
  from Cons.IH [OF this] show ?case
    by (cases "do_calls Q (makes a p n P) m") (simp_all add: do_action_calls do_calls_append eq)
qed simp

subsection \<open>The marks\<close>

text \<open>
  The marks lie before the current byte. In state 17, inside a field name, the length of the field is still that of
  the previous one; in the states 31 to 33 the start of the query is set.
\<close>

definition marks_ok :: "nat \<Rightarrow> nat \<Rightarrow> 'd http_parser \<Rightarrow> bool" where
  "marks_ok k p P \<longleftrightarrow> mark P \<le> p - 1 \<and> field_start P \<le> p - 1 \<and> field_len P \<le> p \<and>
     (k \<noteq> 17 \<longrightarrow> field_start P + field_len P \<le> p) \<and> (k \<in> {31, 32, 33} \<longrightarrow> query_start P < p) \<and> body_start P \<le> p"

fun call_in :: "http_call \<Rightarrow> nat \<Rightarrow> nat \<Rightarrow> bool" where
  "call_in (Method_call at n) q e = (at + n < q)"
| "call_in (Uri_call at n) q e = (at + n < q)"
| "call_in (Path_call at n) q e = (at + n < q)"
| "call_in (Query_call at n) q e = (at + n < q)"
| "call_in (Version_call at n) q e = (at + n < q)"
| "call_in (Field_call f fn v vn) q e = (f + fn < q \<and> v + vn < q)"
| "call_in (Done_call at n) q e = (at + n < e)"

lemma marks_goto:
  assumes "marks_ok k p P" and "goto_case k c = St j" and "j \<noteq> 1"
  shows "marks_ok j (p + 1) P"
proof -
  from goes_to [OF assms(2)] assms(3) have f: "k = 17 \<Longrightarrow> j = 17" "j = 17 \<Longrightarrow> k = 17"
    and q: "j \<in> {31, 32, 33} \<Longrightarrow> k \<in> {31, 32, 33}" by auto
  from assms(1) have m: "mark P \<le> p - 1" "field_start P \<le> p - 1" "field_len P \<le> p" "body_start P \<le> p"
    "k \<noteq> 17 \<Longrightarrow> field_start P + field_len P \<le> p" "k \<in> {31, 32, 33} \<Longrightarrow> query_start P < p"
    by (simp_all add: marks_ok_def)
  have "j \<noteq> 17 \<longrightarrow> field_start P + field_len P \<le> p + 1"
    using f m(5) by (cases "k = 17") auto
  moreover have "j \<in> {31, 32, 33} \<longrightarrow> query_start P < p + 1" using q m(6) by fastforce
  moreover have "mark P \<le> p" "field_start P \<le> p" using m(1,2) by simp_all
  ultimately show ?thesis using m(3,4) by (simp add: marks_ok_def)
qed

lemmas tr_defs = tr_3_def tr_10_def tr_11_def tr_12_def tr_13_def tr_14_def tr_16_def tr_17_def tr_19_def tr_21_def
  tr_22_def tr_25_def tr_28_def tr_31_def tr_33_def tr_34_def tr_36_def tr_37_def tr_38_def tr_39_def tr_40_def tr_41_def

lemma transitions:
  shows "transition 3 = ([Mark], 6)"
  and "transition 10 = ([Mark], 4)"
  and "transition 11 = ([Mark], 20)"
  and "transition 12 = ([Mark], 24)"
  and "transition 13 = ([Mark], 21)"
  and "transition 14 = ([Mark], 2)"
  and "transition 16 = ([Write_field], 18)"
  and "transition 17 = ([Request_method], 3)"
  and "transition 19 = ([Request_uri], 5)"
  and "transition 21 = ([Start_field], 17)"
  and "transition 22 = ([Http_version], 14)"
  and "transition 25 = ([Done], 53)"
  and "transition 28 = ([Query_string, Request_uri], 5)"
  and "transition 31 = ([Request_path, Request_uri], 5)"
  and "transition 33 = ([Request_path], 27)"
  and "transition 34 = ([Request_path], 30)"
  and "transition 36 = ([Write_value], 14)"
  and "transition 37 = ([Start_value], 19)"
  and "transition 38 = ([Start_value], 18)"
  and "transition 39 = ([Start_query], 31)"
  and "transition 40 = ([Start_query, Query_string, Request_uri], 5)"
  and "transition 41 = ([Start_query], 32)"
  by (simp_all add: transition_def tr_defs)

lemma LEN_le: "at \<le> p \<Longrightarrow> at + LEN at p = p"
  by (simp add: LEN_def)

lemma LEN_bound: "at \<le> p \<Longrightarrow> LEN at p \<le> Suc p"
  by (simp add: LEN_def)

lemma marks_transition:
  assumes "marks_ok k p P" and "goto_case k c = Tr t"
  shows "marks_ok (snd (transition t)) (p + 1) (noted_all (fst (transition t)) p P) \<and>
    list_all (\<lambda>c. call_in c (p + 1) (p + n + 2)) (makes_all (fst (transition t)) p n P)"
proof -
  note t = takes_transition(1) [OF assms(2)]
  note q = takes_transition(2) [OF assms(2)] and f = takes_transition(3) [OF assms(2)]
  from assms(1) have m: "mark P \<le> p" "field_start P \<le> p" "field_len P \<le> p" "body_start P \<le> p" "t \<noteq> 16 \<Longrightarrow> field_start P + field_len P \<le> p" "t = 28 \<Longrightarrow> query_start P < p"
    using q f by (auto simp: marks_ok_def)
  from t m show ?thesis
    by (elim insertE emptyE) (simp_all add: transitions marks_ok_def LEN_le LEN_bound)
qed

lemma call_in_mono: "call_in c q e \<Longrightarrow> e \<le> e' \<Longrightarrow> call_in c q e'"
  by (cases c) simp_all

definition marks_in :: "nat \<Rightarrow> 'd http_parser \<Rightarrow> bool" where
  "marks_in q P \<longleftrightarrow> mark P \<le> q - 1 \<and> field_start P \<le> q - 1 \<and> field_len P \<le> q \<and> body_start P \<le> q"

lemma marks_ok_in: "marks_ok k p P \<Longrightarrow> p \<le> q \<Longrightarrow> marks_in q P"
  by (auto simp: marks_ok_def marks_in_def)

subsection \<open>Reaching the final state\<close>

lemma goes_not_final: "goto_case k c = St j \<Longrightarrow> j \<noteq> 53"
  using goes_to by blast

lemma final_transition:
  assumes "goto_case k c = Tr t"
  shows "body_start (noted_all (fst (transition t)) p P) = (if t = 25 then p + 1 else body_start P)"
    and "nread (noted_all (fst (transition t)) p P) = nread P" and "snd (transition t) = 53 \<longleftrightarrow> t = 25"
  using takes_transition(1) [OF assms] by (auto simp: transitions)

lemma trace_final:
  assumes "trace k p P bs = (k', p', P', calls)"
  shows "k \<noteq> 53 \<Longrightarrow> body_start P = 0 \<Longrightarrow>
    (body_start P' \<noteq> 0 \<longleftrightarrow> k' = 53) \<and> nread P' = nread P \<and> (k' = 53 \<longrightarrow> p' < p + length bs \<and> body_start P' = p' + 1)"
  using assms
proof (induction bs arbitrary: k p P calls k' p' P')
  case (Cons b bs)
  show ?case
  proof (cases "goto_case k (schar b)")
    case (St j)
    with Cons.prems(3) goes_not_final [OF St] Cons.IH [of j P "p + 1"] Cons.prems(2) show ?thesis
      by (cases "j = 1") auto
  next
    case (Tr t)
    note fin = final_transition(1,2) [OF Tr, of p P] final_transition(3) [OF Tr]
    show ?thesis
    proof (cases "t = 25")
      case True
      with Tr Cons.prems fin show ?thesis by (auto simp: Let_def)
    next
      case False
      obtain k2 p2 P2 later where
        tr: "trace (snd (transition t)) (p + 1) (noted_all (fst (transition t)) p P) bs = (k2, p2, P2, later)"
        by (metis prod_cases4)
      then have "k' = k2" "p' = p2" "P' = P2" using Cons.prems(3) Tr False by (auto simp: Let_def)
      with Cons.IH [OF _ _ tr] fin False Cons.prems(2) show ?thesis by simp
    qed
  qed
qed simp

subsection \<open>The machine under its callbacks\<close>

text \<open>
  What the machine relies on: a call whose ranges lie inside of the bytes already read returns, keeps the length of the
  buffer and changes none of the bytes still to be read.
\<close>

locale http_callbacks =
  fixes parser :: "'d http_parser" and ready :: "'d \<Rightarrow> bool"
  assumes call_law: "ready d \<Longrightarrow> call_in c (length xs) (length (xs @ ys)) \<Longrightarrow>
    \<exists>xs' d'. do_call parser c (xs @ ys, d) = Some (xs' @ ys, d') \<and> length xs' = length xs \<and> ready d'"
begin

lemma calls_law:
  "ready d \<Longrightarrow> list_all (\<lambda>c. call_in c (length xs) (length (xs @ ys))) calls \<Longrightarrow>
   \<exists>xs' d'. do_calls parser calls (xs @ ys, d) = Some (xs' @ ys, d') \<and> length xs' = length xs \<and> ready d'"
proof (induction calls arbitrary: xs d)
  case (Cons c calls)
  from call_law [of d c xs ys] Cons.prems obtain xs' d' where
    one: "do_call parser c (xs @ ys, d) = Some (xs' @ ys, d')" "length xs' = length xs" "ready d'" by auto
  from Cons.IH [of d' xs'] Cons.prems(2) one obtain xs'' d'' where
    "do_calls parser calls (xs' @ ys, d') = Some (xs'' @ ys, d'')" "length xs'' = length xs" "ready d''" by auto
  with one show ?case by auto
qed auto

theorem exec_loop_trace:
  assumes "same_callbacks P parser" and "ready d" and "marks_ok k (length xs) P" and "zs \<noteq> []"
    and "trace k (length xs) P bs = (k', p', P', calls)"
  shows "\<exists>xs' d'. do_calls parser calls (xs @ bs @ zs, d) = Some (xs', d') \<and>
    exec_loop (length bs) k (length xs) (P, xs @ bs @ zs, d) = Some (k', p', P', xs', d') \<and>
    length xs' = length (xs @ bs @ zs) \<and> drop (length (xs @ bs)) xs' = zs \<and> ready d' \<and>
    same_callbacks P' parser \<and> p' \<le> length (xs @ bs) \<and> length xs \<le> p' \<and> marks_in (length (xs @ bs)) P'"
  using assms
proof (induction bs arbitrary: k P xs d k' p' P' calls)
  case Nil
  then show ?case by (auto intro: marks_ok_in)
next
  case (Cons b bs)
  let ?n = "length bs" and ?p = "length xs" and ?buf = "xs @ (b # bs) @ zs"
  have len: "length xs < length ?buf" and cur: "?buf ! ?p = b" by simp_all
  show ?case
  proof (cases "goto_case k (schar b)")
    case (St j)
    show ?thesis
    proof (cases "j = 1")
      case True
      with Cons.prems St show ?thesis
        using len cur marks_ok_in [OF Cons.prems(3), of "length (xs @ b # bs)"] by auto
    next
      case False
      have ok: "marks_ok j (length (xs @ [b])) P" using marks_goto [OF Cons.prems(3) St False] by simp
      have tr: "trace j (length (xs @ [b])) P bs = (k', p', P', calls)" using Cons.prems(5) St False by simp
      have step: "exec_loop (length (b # bs)) k ?p (P, ?buf, d) =
          exec_loop ?n j (length (xs @ [b])) (P, (xs @ [b]) @ bs @ zs, d)"
        using St False by simp
      from Cons.IH [OF Cons.prems(1,2) ok Cons.prems(4) tr] obtain xs' d' where
        "do_calls parser calls ((xs @ [b]) @ bs @ zs, d) = Some (xs', d')"
        "exec_loop ?n j (length (xs @ [b])) (P, (xs @ [b]) @ bs @ zs, d) = Some (k', p', P', xs', d')"
        "length xs' = length ((xs @ [b]) @ bs @ zs)" "drop (length ((xs @ [b]) @ bs)) xs' = zs" "ready d'"
        "same_callbacks P' parser" "p' \<le> length ((xs @ [b]) @ bs)" "length (xs @ [b]) \<le> p'"
        "marks_in (length ((xs @ [b]) @ bs)) P'" by blast
      then show ?thesis unfolding step by (intro exI [of _ xs'] exI [of _ d']) simp
    qed
  next
    case (Tr t)
    define as where "as = fst (transition t)"
    define j where "j = snd (transition t)"
    define P1 where "P1 = noted_all as ?p P"
    define now where "now = makes_all as ?p ?n P"
    note defs = as_def j_def P1_def now_def
    have ok: "marks_ok j (?p + 1) P1" and within: "list_all (\<lambda>c. call_in c (?p + 1) (?p + ?n + 2)) now"
      using marks_transition [OF Cons.prems(3) Tr, of ?n] by (simp_all add: defs)
    have same: "same_callbacks P1 parser" using Cons.prems(1) by (simp add: P1_def)
    have "?p + ?n + 2 \<le> length ((xs @ [b]) @ (bs @ zs))" using Cons.prems(4) by (cases zs) auto
    then have "list_all (\<lambda>c. call_in c (length (xs @ [b])) (length ((xs @ [b]) @ (bs @ zs)))) now"
      using within call_in_mono by (auto simp: list_all_iff)
    from calls_law [OF Cons.prems(2) this] obtain xs1 d1 where
      one: "do_calls parser now (?buf, d) = Some (xs1 @ bs @ zs, d1)" "length xs1 = ?p + 1" "ready d1" by auto
    have act: "do_actions as ?p ?n (P, ?buf, d) = Some (P1, xs1 @ bs @ zs, d1)"
      using do_actions_calls [OF Cons.prems(1), of as ?p ?n "(?buf, d)"] one(1) by (simp add: defs)
    show ?thesis
    proof (cases "t = 25")
      case True
      then have "k' = j" "p' = ?p" "P' = P1" "calls = now" using Cons.prems(5) Tr by (auto simp: defs Let_def)
      then show ?thesis
        using one act Tr True len cur same marks_ok_in [OF ok, of "length (xs @ b # bs)"]
        by (auto simp: as_def j_def)
    next
      case False
      obtain k2 p2 P2 later where tr: "trace j (length xs1) P1 bs = (k2, p2, P2, later)" by (metis prod_cases4)
      then have res: "k' = k2" "p' = p2" "P' = P2" "calls = now @ later"
        using Cons.prems(5) Tr False one(2) by (auto simp: defs Let_def split: prod.splits)
      from ok one(2) have ok': "marks_ok j (length xs1) P1" by simp
      have step: "exec_loop (length (b # bs)) k ?p (P, ?buf, d) = exec_loop ?n j (length xs1) (P1, xs1 @ bs @ zs, d1)"
        using act Tr False one(2) by (simp add: as_def j_def)
      from Cons.IH [OF same one(3) ok' Cons.prems(4) tr] obtain xs' d' where
        "do_calls parser later (xs1 @ bs @ zs, d1) = Some (xs', d')"
        "exec_loop ?n j (length xs1) (P1, xs1 @ bs @ zs, d1) = Some (k2, p2, P2, xs', d')"
        "length xs' = length (xs1 @ bs @ zs)" "drop (length (xs1 @ bs)) xs' = zs" "ready d'"
        "same_callbacks P2 parser" "p2 \<le> length (xs1 @ bs)" "length xs1 \<le> p2"
        "marks_in (length (xs1 @ bs)) P2" by blast
      then show ?thesis unfolding step res using one(1,2)
        by (intro exI [of _ xs'] exI [of _ d']) (simp add: do_calls_append)
    qed
  qed
qed

text \<open>A run over a whole buffer, from a structure that has just been initialised.\<close>

theorem execute_trace:
  assumes "same_callbacks P parser" and "ready d" and "bs \<noteq> []" and "length bs < 2 ^ 64" and "zs \<noteq> []" and "hd zs = 0"
    and fresh: "snd (http_parser_init P) = P" and tr: "trace 0 0 P bs = (k', p', P', calls)"
  shows "\<exists>xs' d'. do_calls parser calls (bs @ zs, d) = Some (xs', d') \<and>
    http_parser_execute P (bs @ zs, d) (length bs) 0 =
      Some (p' + (if k' = 53 then 1 else 0), P'\<lparr>cs := k', nread := p' + (if k' = 53 then 1 else 0)\<rparr>, xs', d') \<and>
    length xs' = length (bs @ zs) \<and> drop (length bs) xs' = zs \<and> ready d' \<and> p' + (if k' = 53 then 1 else 0) \<le> length bs"
proof -
  have P: "cs P = 0" "mark P = 0" "body_start P = 0" "field_start P = 0" "field_len P = 0" "nread P = 0"
    using arg_cong [OF fresh, of cs] arg_cong [OF fresh, of mark] arg_cong [OF fresh, of body_start]
      arg_cong [OF fresh, of field_start] arg_cong [OF fresh, of field_len] arg_cong [OF fresh, of nread]
    by (simp_all add: http_parser_init_def http_parser_start_def)
  have ok: "marks_ok 0 (length ([] :: bytes)) P" using P by (simp add: marks_ok_def)
  have tr0: "trace 0 (length ([] :: bytes)) P bs = (k', p', P', calls)" using tr by simp
  from exec_loop_trace [OF assms(1,2) ok assms(5) tr0] obtain xs' d' where
    calls: "do_calls parser calls (bs @ zs, d) = Some (xs', d')"
    and loop: "exec_loop (length bs) 0 0 (P, bs @ zs, d) = Some (k', p', P', xs', d')"
    and xs': "length xs' = length (bs @ zs)" "drop (length bs) xs' = zs" "ready d'"
    and p': "p' \<le> length bs" and m: "marks_in (length bs) P'" by auto
  from trace_final [OF tr] P have body: "body_start P' \<noteq> 0 \<longleftrightarrow> k' = 53" and n: "nread P' = 0"
    and fin: "k' = 53 \<Longrightarrow> p' < length bs" by auto
  have "0 < length bs" using assms(3) by simp
  then have pos: "x \<le> length bs - 1 \<Longrightarrow> x < length bs" for x by linarith
  from m have m': "mark P' < length bs" "field_start P' < length bs" "field_len P' \<le> length bs" "body_start P' \<le> length bs"
    by (simp_all add: marks_in_def pos)
  have nul: "(bs @ zs) ! length bs = 0" "length bs < length (bs @ zs)" using assms(5,6) by (simp_all add: nth_append hd_conv_nth)
  have small: "p' mod 2 ^ 64 = p'" using p' assms(4) by simp
  have small': "(p' + 1) mod 2 ^ 64 = p' + 1" if "k' = 53" using fin [OF that] assms(4) by simp
  have r: "execute_end k' p' (length bs) 0 P' =
      Some (p' + (if k' = 53 then 1 else 0), P'\<lparr>cs := k', nread := p' + (if k' = 53 then 1 else 0)\<rparr>)"
  proof (cases "k' = 53")
    case True
    with m' n p' body show ?thesis using small small' [OF True] by (simp add: execute_end_def)
  next
    case False
    with m' n p' body show ?thesis using small by (simp add: execute_end_def)
  qed
  have "http_parser_execute P (bs @ zs, d) (length bs) 0 =
      Some (p' + (if k' = 53 then 1 else 0), P'\<lparr>cs := k', nread := p' + (if k' = 53 then 1 else 0)\<rparr>, xs', d')"
    unfolding http_parser_execute_def fst_conv nul(1) P using loop r nul(2) by (simp del: append_eq_conv_conj length_append)
  moreover have "p' + (if k' = 53 then 1 else 0) \<le> length bs" using fin p' by (auto simp: Suc_le_eq)
  ultimately show ?thesis using calls xs' by blast
qed

end

end
