(* ===== verification/HttpGrammar.thy ===== *)
theory HttpGrammar
  imports HttpTrace
begin

text \<open>
  The language of the requests: a request, what makes it well formed, and how it is written. The machine reaches its
  final state exactly on the texts that begin with a well-formed request, and its trace on such a text is the list of
  calls that \<open>request_calls\<close> computes from the request.
\<close>

subsection \<open>Characters\<close>

text \<open>Over the value of a signed \<open>char\<close>.\<close>

definition digit_char :: "int \<Rightarrow> bool" where
  "digit_char c \<longleftrightarrow> 48 \<le> c \<and> c \<le> 57"

definition upper_char :: "int \<Rightarrow> bool" where
  "upper_char c \<longleftrightarrow> 65 \<le> c \<and> c \<le> 90"

definition lower_char :: "int \<Rightarrow> bool" where
  "lower_char c \<longleftrightarrow> 97 \<le> c \<and> c \<le> 122"

text \<open>A method is made of capital letters, digits and \<open>$ - . _\<close>.\<close>

definition method_char :: "int \<Rightarrow> bool" where
  "method_char c \<longleftrightarrow> upper_char c \<or> digit_char c \<or> c \<in> {36, 45, 46, 95}"

text \<open>A scheme is made of letters, digits and \<open>+ - .\<close>.\<close>

definition scheme_char :: "int \<Rightarrow> bool" where
  "scheme_char c \<longleftrightarrow> upper_char c \<or> lower_char c \<or> digit_char c \<or> c \<in> {43, 45, 46}"

text \<open>
  In a URI stand all characters but the controls, space, \<open>" # < >\<close> and delete; those from \<open>0x80\<close> on, which are
  negative, too. A percent sign only begins an escape.
\<close>

definition uri_char :: "int \<Rightarrow> bool" where
  "uri_char c \<longleftrightarrow> c < 0 \<or> 32 < c \<and> c \<notin> {34, 35, 37, 60, 62, 127}"

definition hex_char :: "int \<Rightarrow> bool" where
  "hex_char c \<longleftrightarrow> digit_char c \<or> 65 \<le> c \<and> c \<le> 70 \<or> 97 \<le> c \<and> c \<le> 102"

text \<open>The name of a header: letters, digits and \<open>! # $ % & ' * + - . ^ _ ` | ~\<close>.\<close>

definition name_char :: "int \<Rightarrow> bool" where
  "name_char c \<longleftrightarrow> upper_char c \<or> lower_char c \<or> digit_char c \<or>
     c \<in> {33, 35, 36, 37, 38, 39, 42, 43, 45, 46, 94, 95, 96, 124, 126}"

lemmas char_defs = digit_char_def upper_char_def lower_char_def method_char_def scheme_char_def uri_char_def
  hex_char_def name_char_def

text \<open>A text over some characters and escapes.\<close>

fun escaped :: "(int \<Rightarrow> bool) \<Rightarrow> bytes \<Rightarrow> bool" where
  "escaped ok [] = True"
| "escaped ok (b # bs) =
    (if schar b = 37
     then (case bs of h # l # bs' \<Rightarrow> hex_char (schar h) \<and> hex_char (schar l) \<and> escaped ok bs' | _ \<Rightarrow> False)
     else ok (schar b) \<and> escaped ok bs)"

subsection \<open>Requests\<close>

text \<open>The target of a request: \<open>*\<close>, a scheme with a text, or a path, perhaps with parameters and a query.\<close>

datatype http_target = Asterisk | Absolute bytes bytes | Origin bytes "bytes option" "bytes option"

text \<open>A header is a name, a number of spaces and a value.\<close>

record http_request =
  rq_method :: bytes
  rq_target :: http_target
  rq_major :: bytes
  rq_minor :: bytes
  rq_headers :: "(bytes \<times> nat \<times> bytes) list"

definition optional_part :: "u8 \<Rightarrow> bytes option \<Rightarrow> bytes" where
  "optional_part b x = (case x of None \<Rightarrow> [] | Some t \<Rightarrow> b # t)"

fun render_target :: "http_target \<Rightarrow> bytes" where
  "render_target Asterisk = [42]"
| "render_target (Absolute s t) = s @ 58 # t"
| "render_target (Origin path params query) = 47 # path @ optional_part 59 params @ optional_part 63 query"

definition render_version :: "http_request \<Rightarrow> bytes" where
  "render_version r = [72, 84, 84, 80, 47] @ rq_major r @ 46 # rq_minor r"

fun render_header :: "bytes \<times> nat \<times> bytes \<Rightarrow> bytes" where
  "render_header (name, n, v) = name @ 58 # replicate n 32 @ v @ [13, 10]"

definition render_request :: "http_request \<Rightarrow> bytes" where
  "render_request r = rq_method r @ 32 # render_target (rq_target r) @ 32 # render_version r @ [13, 10] @
     concat (map render_header (rq_headers r)) @ [13, 10]"

fun wf_target :: "http_target \<Rightarrow> bool" where
  "wf_target Asterisk \<longleftrightarrow> True"
| "wf_target (Absolute s t) \<longleftrightarrow> list_all (\<lambda>b. scheme_char (schar b)) s \<and> escaped uri_char t"
| "wf_target (Origin path params query) \<longleftrightarrow> escaped (\<lambda>c. uri_char c \<and> c \<noteq> 59 \<and> c \<noteq> 63) path \<and>
     pred_option (escaped (\<lambda>c. uri_char c \<and> c \<noteq> 63)) params \<and> pred_option (escaped uri_char) query"

fun wf_header :: "bytes \<times> nat \<times> bytes \<Rightarrow> bool" where
  "wf_header (name, n, v) \<longleftrightarrow> name \<noteq> [] \<and> list_all (\<lambda>b. name_char (schar b)) name \<and> 13 \<notin> set v \<and> (v \<noteq> [] \<longrightarrow> hd v \<noteq> 32)"

definition wf_request :: "http_request \<Rightarrow> bool" where
  "wf_request r \<longleftrightarrow> rq_method r \<noteq> [] \<and> length (rq_method r) \<le> 20 \<and> list_all (\<lambda>b. method_char (schar b)) (rq_method r) \<and>
     wf_target (rq_target r) \<and> rq_major r \<noteq> [] \<and> list_all (\<lambda>b. digit_char (schar b)) (rq_major r) \<and>
     rq_minor r \<noteq> [] \<and> list_all (\<lambda>b. digit_char (schar b)) (rq_minor r) \<and> list_all wf_header (rq_headers r)"

subsection \<open>The cases over the classes of characters\<close>

lemma uri_cases:
  shows "case_21 c = (if c = 32 then Tr 19 else if c = 37 then St 22 else if uri_char c then St 21 else St 1)"
    and "case_24 c = (if c = 32 then Tr 31 else if c = 37 then St 25 else if c = 59 then Tr 33 else if c = 63 then Tr 34
      else if uri_char c then St 24 else St 1)"
    and "case_27 c = (if c = 32 then Tr 19 else if c = 37 then St 28 else if c = 63 then St 30
      else if uri_char c then St 27 else St 1)"
    and "case_30 c = (if c = 32 then Tr 40 else if c = 37 then Tr 41 else if uri_char c then Tr 39 else St 1)"
    and "case_31 c = (if c = 32 then Tr 28 else if c = 37 then St 32 else if uri_char c then St 31 else St 1)"
proof -
  have u: "(if 31 < c then if 34 \<le> c \<and> c \<le> 35 then St 1 else x else if 0 \<le> c then St 1 else x) =
    (if uri_char c then x else St 1)" if "c \<noteq> 32" "c \<noteq> 37" "c \<noteq> 60" "c \<noteq> 62" "c \<noteq> 127" for x
  proof -
    have "uri_char c \<longleftrightarrow> 31 < c \<and> \<not> (34 \<le> c \<and> c \<le> 35) \<or> \<not> 31 < c \<and> \<not> 0 \<le> c"
      using that unfolding uri_char_def by auto
    then show ?thesis by (cases "31 < c") simp_all
  qed
  have n: "\<not> uri_char 60" "\<not> uri_char 62" "\<not> uri_char 127" by (simp_all add: uri_char_def)
  show "case_21 c = (if c = 32 then Tr 19 else if c = 37 then St 22 else if uri_char c then St 21 else St 1)"
    by (cases "c \<in> {32, 37, 60, 62, 127}") (use n in \<open>auto simp: case_21_def u\<close>)
  show "case_24 c = (if c = 32 then Tr 31 else if c = 37 then St 25 else if c = 59 then Tr 33 else if c = 63 then Tr 34
      else if uri_char c then St 24 else St 1)"
    by (cases "c \<in> {32, 37, 59, 60, 62, 63, 127}") (use n in \<open>auto simp: case_24_def u\<close>)
  show "case_27 c = (if c = 32 then Tr 19 else if c = 37 then St 28 else if c = 63 then St 30
      else if uri_char c then St 27 else St 1)"
    by (cases "c \<in> {32, 37, 60, 62, 63, 127}") (use n in \<open>auto simp: case_27_def u\<close>)
  show "case_30 c = (if c = 32 then Tr 40 else if c = 37 then Tr 41 else if uri_char c then Tr 39 else St 1)"
    by (cases "c \<in> {32, 37, 60, 62, 127}") (use n in \<open>auto simp: case_30_def u\<close>)
  show "case_31 c = (if c = 32 then Tr 28 else if c = 37 then St 32 else if uri_char c then St 31 else St 1)"
    by (cases "c \<in> {32, 37, 60, 62, 127}") (use n in \<open>auto simp: case_31_def u\<close>)
qed

lemma hex_cases:
  shows "case_22 c = (if hex_char c then St 23 else St 1)" and "case_23 c = (if hex_char c then St 21 else St 1)"
    and "case_25 c = (if hex_char c then St 26 else St 1)" and "case_26 c = (if hex_char c then St 24 else St 1)"
    and "case_28 c = (if hex_char c then St 29 else St 1)" and "case_29 c = (if hex_char c then St 27 else St 1)"
    and "case_32 c = (if hex_char c then St 33 else St 1)" and "case_33 c = (if hex_char c then St 31 else St 1)"
proof -
  have h: "(if c < 65 then if 48 \<le> c \<and> c \<le> 57 then x else St 1
      else if 70 < c then if 97 \<le> c \<and> c \<le> 102 then x else St 1 else x) = (if hex_char c then x else St 1)" for x
    unfolding char_defs by auto
  show "case_22 c = (if hex_char c then St 23 else St 1)" and "case_23 c = (if hex_char c then St 21 else St 1)"
    and "case_25 c = (if hex_char c then St 26 else St 1)" and "case_26 c = (if hex_char c then St 24 else St 1)"
    and "case_28 c = (if hex_char c then St 29 else St 1)" and "case_29 c = (if hex_char c then St 27 else St 1)"
    and "case_32 c = (if hex_char c then St 33 else St 1)" and "case_33 c = (if hex_char c then St 31 else St 1)"
    unfolding case_defs by (rule h)+
qed

lemma name_cases:
  shows "case_15 c = (if c = 13 then St 16 else if name_char c then Tr 21 else St 1)"
    and "case_17 c = (if c = 58 then Tr 16 else if name_char c then St 17 else St 1)"
proof -
  have n: "(if c < 45 then if 39 < c then if 42 \<le> c \<and> c \<le> 43 then x else St 1 else if 35 \<le> c then x else St 1
      else if 46 < c then if c < 65 then if 48 \<le> c \<and> c \<le> 57 then x else St 1
        else if 90 < c then if 94 \<le> c \<and> c \<le> 122 then x else St 1 else x else x) =
    (if name_char c then x else St 1)" if "c \<notin> {33, 124, 126}" for x
  proof -
    have "name_char c \<longleftrightarrow> 35 \<le> c \<and> c \<le> 39 \<or> 42 \<le> c \<and> c \<le> 43 \<or> 45 \<le> c \<and> c \<le> 46 \<or> 48 \<le> c \<and> c \<le> 57 \<or>
        65 \<le> c \<and> c \<le> 90 \<or> 94 \<le> c \<and> c \<le> 122"
      using that unfolding char_defs insert_iff empty_iff by presburger
    then show ?thesis by (cases "c < 45"; cases "46 < c"; cases "c < 65"; cases "90 < c"; cases "39 < c") simp_all
  qed
  have t: "name_char 33" "name_char 124" "name_char 126" by (simp_all add: char_defs)
  show "case_15 c = (if c = 13 then St 16 else if name_char c then Tr 21 else St 1)"
    by (cases "c \<in> {13, 33, 124, 126}") (use t in \<open>auto simp: case_15_def n\<close>)
  show "case_17 c = (if c = 58 then Tr 16 else if name_char c then St 17 else St 1)"
    by (cases "c \<in> {33, 58, 124, 126}") (use t in \<open>auto simp: case_17_def n\<close>)
qed

lemma scheme_cases:
  shows "case_3 c = (if c = 42 then Tr 10 else if c = 47 then Tr 12 else if c = 58 then Tr 13
      else if scheme_char c then Tr 11 else St 1)"
    and "case_20 c = (if c = 58 then St 21 else if scheme_char c then St 20 else St 1)"
proof -
  have s: "scheme_char c \<longleftrightarrow> c = 43 \<or> 45 \<le> c \<and> c \<le> 46 \<or> 48 \<le> c \<and> c \<le> 57 \<or> 65 \<le> c \<and> c \<le> 90 \<or> 97 \<le> c \<and> c \<le> 122"
    unfolding char_defs by auto
  have p: "scheme_char 43" by (simp add: char_defs)
  show "case_3 c = (if c = 42 then Tr 10 else if c = 47 then Tr 12 else if c = 58 then Tr 13
      else if scheme_char c then Tr 11 else St 1)"
    by (cases "c \<in> {42, 43, 47, 58}"; cases "c < 65"; cases "90 < c") (use p in \<open>auto simp: case_3_def s\<close>)
  show "case_20 c = (if c = 58 then St 21 else if scheme_char c then St 20 else St 1)"
    by (cases "c \<in> {43, 58}"; cases "c < 48"; cases "57 < c"; cases "90 < c") (use p in \<open>auto simp: case_20_def s\<close>)
qed

lemma digit_cases:
  shows "case_10 c = (if digit_char c then St 11 else St 1)"
    and "case_11 c = (if c = 46 then St 12 else if digit_char c then St 11 else St 1)"
    and "case_12 c = (if digit_char c then St 13 else St 1)"
    and "case_13 c = (if c = 13 then Tr 22 else if digit_char c then St 13 else St 1)"
  by (simp_all add: case_defs digit_char_def)

lemma method_first: "case_0 c = (if method_char c then Tr 14 else St 1)"
proof (cases "c \<in> {36, 95}")
  case False
  have "method_char c \<longleftrightarrow> (if c < 48 then 45 \<le> c \<and> c \<le> 46 else if 57 < c then 65 \<le> c \<and> c \<le> 90 else True)"
    using False unfolding char_defs by auto
  with False show ?thesis by (simp add: case_0_def)
qed (auto simp: case_0_def char_defs)

text \<open>The states of the method: 2 after its first character, \<open>32 + i\<close> after \<open>i\<close> of them, 52 after twenty.\<close>

definition method_state :: "nat \<Rightarrow> nat" where
  "method_state i = (if i = 1 then 2 else 32 + i)"

lemma method_cases:
  assumes "1 \<le> i" and "i \<le> 20"
  shows "goto_case (method_state i) c =
    (if c = 32 then Tr 17 else if method_char c \<and> i < 20 then St (method_state (i + 1)) else St 1)"
proof -
  have m: "(if c = 32 then Tr 17 else if c = 36 then x else if c = 95 then x
      else if c < 48 then (if 45 \<le> c \<and> c \<le> 46 then x else St 1)
      else if 57 < c then (if 65 \<le> c \<and> c \<le> 90 then x else St 1) else x) =
    (if c = 32 then Tr 17 else if method_char c then x else St 1)" for x
  proof (cases "c \<in> {32, 36, 95}")
    case False
    have "method_char c \<longleftrightarrow> (if c < 48 then 45 \<le> c \<and> c \<le> 46 else if 57 < c then 65 \<le> c \<and> c \<le> 90 else True)"
      using False unfolding char_defs by auto
    with False show ?thesis by simp
  qed (auto simp: char_defs)
  have i: "i \<in> {1, 2, 3, 4, 5, 6, 7, 8, 9, 10, 11, 12, 13, 14, 15, 16, 17, 18, 19, 20}"
    using assms unfolding insert_iff empty_iff by presburger
  show ?thesis
    using i by (elim insertE emptyE) (simp_all add: goto_case_def case_defs method_state_def m)
qed

lemmas class_cases = uri_cases hex_cases name_cases scheme_cases digit_cases method_first
  case_4_def case_5_def case_6_def case_7_def case_8_def case_9_def case_14_def case_16_def case_18_def case_19_def

lemma class_bounds [simp]:
  "\<not> uri_char 32" "\<not> uri_char 37" "\<not> scheme_char 58" "\<not> scheme_char 42" "\<not> scheme_char 47" "\<not> name_char 58"
  "\<not> name_char 13" "\<not> digit_char 46" "\<not> digit_char 13" "\<not> method_char 32"
  by (simp_all add: char_defs)

lemma goto_method_first: "method_char c \<Longrightarrow> goto_case 0 c = Tr 14"
  by (simp add: goto_case_def class_cases)

lemma goto_method:
  assumes "1 \<le> i" and "i \<le> 20"
  shows "method_char c \<Longrightarrow> i < 20 \<Longrightarrow> goto_case (method_state i) c = St (method_state (i + 1))"
    and "goto_case (method_state i) 32 = Tr 17"
  using method_cases [OF assms] by (cases "c = 32"; simp)+

lemma goto_target_first:
  "goto_case 3 42 = Tr 10" "goto_case 3 47 = Tr 12" "goto_case 3 58 = Tr 13" "scheme_char c \<Longrightarrow> goto_case 3 c = Tr 11"
  by (auto simp: goto_case_def class_cases)

lemma goto_scheme: "scheme_char c \<Longrightarrow> goto_case 20 c = St 20" "goto_case 20 58 = St 21"
  by (auto simp: goto_case_def class_cases)

lemma goto_space: "goto_case 4 32 = Tr 19" "goto_case 21 32 = Tr 19" "goto_case 24 32 = Tr 31" "goto_case 27 32 = Tr 19"
  "goto_case 30 32 = Tr 40" "goto_case 31 32 = Tr 28"
  by (simp_all add: goto_case_def class_cases)

lemma goto_escape: "goto_case 21 37 = St 22" "goto_case 24 37 = St 25" "goto_case 27 37 = St 28"
  "goto_case 30 37 = Tr 41" "goto_case 31 37 = St 32"
  by (simp_all add: goto_case_def class_cases)

lemma goto_hex:
  assumes "hex_char c"
  shows "goto_case 22 c = St 23" and "goto_case 23 c = St 21" and "goto_case 25 c = St 26" and "goto_case 26 c = St 24"
    and "goto_case 28 c = St 29" and "goto_case 29 c = St 27" and "goto_case 32 c = St 33" and "goto_case 33 c = St 31"
  using assms by (simp_all add: goto_case_def class_cases)

lemma goto_uri:
  assumes "uri_char c"
  shows "goto_case 21 c = St 21" and "c \<noteq> 59 \<Longrightarrow> c \<noteq> 63 \<Longrightarrow> goto_case 24 c = St 24" and "c \<noteq> 63 \<Longrightarrow> goto_case 27 c = St 27"
    and "goto_case 30 c = Tr 39" and "goto_case 31 c = St 31"
  using assms by (auto simp: goto_case_def class_cases)

lemma goto_parts: "goto_case 24 59 = Tr 33" "goto_case 24 63 = Tr 34" "goto_case 27 63 = St 30"
  by (simp_all add: goto_case_def class_cases)

lemma goto_version:
  "goto_case 5 72 = Tr 3" "goto_case 6 84 = St 7" "goto_case 7 84 = St 8" "goto_case 8 80 = St 9" "goto_case 9 47 = St 10"
  "digit_char c \<Longrightarrow> goto_case 10 c = St 11" "digit_char c \<Longrightarrow> goto_case 11 c = St 11" "goto_case 11 46 = St 12"
  "digit_char c \<Longrightarrow> goto_case 12 c = St 13" "digit_char c \<Longrightarrow> goto_case 13 c = St 13" "goto_case 13 13 = Tr 22"
  by (auto simp: goto_case_def class_cases)

lemma goto_header:
  "goto_case 14 10 = St 15" "goto_case 15 13 = St 16" "goto_case 16 10 = Tr 25" "name_char c \<Longrightarrow> goto_case 15 c = Tr 21"
  "name_char c \<Longrightarrow> goto_case 17 c = St 17" "goto_case 17 58 = Tr 16" "goto_case 18 32 = Tr 38" "goto_case 18 13 = Tr 36"
  "c \<noteq> 13 \<Longrightarrow> c \<noteq> 32 \<Longrightarrow> goto_case 18 c = Tr 37" "c \<noteq> 13 \<Longrightarrow> goto_case 19 c = St 19" "goto_case 19 13 = Tr 36"
  by (auto simp: goto_case_def class_cases)

subsection \<open>Traces of the parts\<close>

definition prepend :: "http_call list \<Rightarrow> nat \<times> nat \<times> 'd http_parser \<times> http_call list \<Rightarrow> nat \<times> nat \<times> 'd http_parser \<times> http_call list" where
  "prepend calls res = (case res of (k, q, P, later) \<Rightarrow> (k, q, P, calls @ later))"

lemma prepend_simps [simp]:
  "prepend [] res = res" "prepend calls (prepend calls' res) = prepend (calls @ calls') res"
  "prepend calls (k, q, P, later) = (k, q, P, calls @ later)"
  by (simp_all add: prepend_def split: prod.splits)

declare trace.simps(2) [simp del]

lemma trace_St:
  "goto_case k (schar b) = St j \<Longrightarrow> j \<noteq> 1 \<Longrightarrow> trace k p P (b # bs) = trace j (p + 1) P bs"
  by (simp add: trace.simps)

lemma trace_Tr:
  "goto_case k (schar b) = Tr t \<Longrightarrow> t \<noteq> 25 \<Longrightarrow> transition t = (acts, j) \<Longrightarrow>
   trace k p P (b # bs) = prepend (makes_all acts p (length bs) P) (trace j (p + 1) (noted_all acts p P) bs)"
  by (simp add: trace.simps prepend_def Let_def split: prod.splits)

lemma trace_run:
  assumes "list_all (\<lambda>b. ok (schar b)) w" and "\<And>c. ok c \<Longrightarrow> goto_case k c = St k" and "k \<noteq> 1"
  shows "trace k p P (w @ bs) = trace k (p + length w) P bs"
  using assms(1,3) by (induction w arbitrary: p) (simp_all add: trace_St assms(2))

lemma trace_escaped:
  assumes "escaped ok w" and "\<And>c. ok c \<Longrightarrow> goto_case k c = St k" and "goto_case k 37 = St k1"
    and "\<And>c. hex_char c \<Longrightarrow> goto_case k1 c = St k2" and "\<And>c. hex_char c \<Longrightarrow> goto_case k2 c = St k"
    and "k \<noteq> 1" "k1 \<noteq> 1" "k2 \<noteq> 1"
  shows "trace k p P (w @ bs) = trace k (p + length w) P bs"
  using assms(1)
proof (induction w arbitrary: p rule: length_induct)
  case (1 w)
  show ?case
  proof (cases w)
    case (Cons b v)
    show ?thesis
    proof (cases "schar b = 37")
      case True
      with "1.prems" Cons obtain h l u where v: "v = h # l # u" and u: "hex_char (schar h)" "hex_char (schar l)" "escaped ok u"
        by (auto split: list.splits)
      have len: "length u < length w" by (simp add: Cons v)
      have "trace k p P (w @ bs) = trace k (p + 3) P (u @ bs)"
        using True u assms(3-8) by (simp add: Cons v trace_St numeral_3_eq_3)
      also have "\<dots> = trace k (p + 3 + length u) P bs" using "1.IH" len u(3) by simp
      finally show ?thesis by (simp add: Cons v numeral_3_eq_3)
    next
      case False
      with "1.prems" Cons have b: "ok (schar b)" "escaped ok v" by simp_all
      have "trace k p P (w @ bs) = trace k (p + 1) P (v @ bs)"
        using assms(2) [OF b(1)] assms(6) by (simp add: Cons trace_St)
      also have "\<dots> = trace k (p + 1 + length v) P bs" using "1.IH" Cons b(2) by simp
      finally show ?thesis by (simp add: Cons)
    qed
  qed simp
qed

lemma schar_ascii [simp]:
  "schar 32 = 32" "schar 42 = 42" "schar 47 = 47" "schar 58 = 58" "schar 59 = 59" "schar 63 = 63" "schar 72 = 72"
  "schar 84 = 84" "schar 80 = 80" "schar 46 = 46" "schar 13 = 13" "schar 10 = 10" "schar 37 = 37"
  by (simp_all add: schar_def)

lemma schar_inject [simp]: "schar a = schar b \<longleftrightarrow> a = b"
  by (auto simp: schar_def intro: signed_word_eqI)

text \<open>The method: its first character sets the mark, the space behind it makes the call.\<close>

lemma trace_method_chars:
  "list_all (\<lambda>b. method_char (schar b)) w \<Longrightarrow> 1 \<le> i \<Longrightarrow> i + length w \<le> 20 \<Longrightarrow>
   trace (method_state i) p P (w @ bs) = trace (method_state (i + length w)) (p + length w) P bs"
proof (induction w arbitrary: i p)
  case (Cons b w)
  have "method_state (i + 1) \<noteq> 1" by (simp add: method_state_def)
  with Cons.prems have "trace (method_state i) p P ((b # w) @ bs) = trace (method_state (i + 1)) (p + 1) P (w @ bs)"
    using goto_method(1) [of i "schar b"] by (simp add: trace_St)
  also have "\<dots> = trace (method_state (i + 1 + length w)) (p + 1 + length w) P bs"
    using Cons.prems by (intro Cons.IH) simp_all
  finally show ?case by simp
qed simp

lemma trace_method:
  assumes "w \<noteq> []" "length w \<le> 20" "list_all (\<lambda>b. method_char (schar b)) w"
  shows "trace 0 p P (w @ 32 # bs) = prepend [Method_call p (length w)] (trace 3 (p + length w + 1) (P\<lparr>mark := p\<rparr>) bs)"
proof -
  from assms obtain b v where w: "w = b # v" by (cases w) auto
  let ?P = "P\<lparr>mark := p\<rparr>"
  have "trace 0 p P (w @ 32 # bs) = trace (method_state 1) (p + 1) ?P (v @ 32 # bs)"
    using assms(3) unfolding w by (simp add: goto_method_first trace_Tr [OF _ _ transitions(6)] method_state_def)
  also have "\<dots> = trace (method_state (1 + length v)) (p + 1 + length v) ?P (32 # bs)"
    using assms w by (intro trace_method_chars) simp_all
  also have "\<dots> = prepend [Method_call p (length w)] (trace 3 (p + length w + 1) ?P bs)"
  proof -
    have "goto_case (method_state (1 + length v)) (schar 32) = Tr 17"
      using goto_method(2) [of "1 + length v"] assms(2) w by simp
    from trace_Tr [OF this _ transitions(8), of "p + 1 + length v" ?P bs] show ?thesis by (simp add: w LEN_def)
  qed
  finally show ?thesis .
qed

text \<open>The target.\<close>

fun target_calls :: "nat \<Rightarrow> http_target \<Rightarrow> http_call list" where
  "target_calls u (Origin path params query) =
     Path_call u (1 + length path) #
     (case query of None \<Rightarrow> []
      | Some q \<Rightarrow> [Query_call (u + length (render_target (Origin path params query)) - length q) (length q)]) @
     [Uri_call u (length (render_target (Origin path params query)))]"
| "target_calls u tg = [Uri_call u (length (render_target tg))]"

lemma trace_uri_end:
  "k = 4 \<or> k = 21 \<or> k = 27 \<Longrightarrow> mark P \<le> p \<Longrightarrow>
   trace k p P (32 # bs) = prepend [Uri_call (mark P) (p - mark P)] (trace 5 (p + 1) P bs)"
  by (auto simp: trace_Tr [OF _ _ transitions(9)] goto_space LEN_def)

lemma trace_query:
  assumes "escaped uri_char q" and "mark P \<le> p"
  shows "\<exists>P'. mark P' = mark P \<and> trace 30 p P (q @ 32 # bs) =
    prepend [Query_call p (length q), Uri_call (mark P) (p + length q - mark P)] (trace 5 (p + length q + 1) P' bs)"
proof (cases q)
  case Nil
  then show ?thesis using assms(2)
    by (intro exI [of _ "P\<lparr>query_start := p\<rparr>"]) (simp add: trace_Tr [OF _ _ transitions(21)] goto_space LEN_def)
next
  case (Cons b v)
  let ?P = "P\<lparr>query_start := p\<rparr>"
  have run: "trace 31 p' ?P (w @ 32 # bs) =
      prepend [Query_call p (p' + length w - p), Uri_call (mark P) (p' + length w - mark P)] (trace 5 (p' + length w + 1) ?P bs)"
    if "escaped uri_char w" "p \<le> p'" for w p'
    using that assms(2) by (simp add: trace_escaped [OF that(1) goto_uri(5) goto_escape(5) goto_hex(7) goto_hex(8)]
      trace_Tr [OF _ _ transitions(13)] goto_space LEN_def)
  show ?thesis
  proof (cases "schar b = 37")
    case True
    with assms(1) Cons obtain h l w where v: "v = h # l # w" and w: "hex_char (schar h)" "hex_char (schar l)" "escaped uri_char w"
      by (auto split: list.splits)
    show ?thesis using True w run [OF w(3), of "p + 3"]
      by (intro exI [of _ ?P]) (simp add: Cons v trace_Tr [OF _ _ transitions(22)] trace_St goto_escape goto_hex numeral_3_eq_3)
  next
    case False
    with assms(1) Cons have b: "uri_char (schar b)" "escaped uri_char v" by simp_all
    show ?thesis using b run [OF b(2), of "p + 1"]
      by (intro exI [of _ ?P]) (simp add: Cons trace_Tr [OF _ _ transitions(20)] goto_uri)
  qed
qed

end
