(* ===== verification/HttpRequest.thy ===== *)
theory HttpRequest
  imports HttpGrammar
begin

text \<open>The trace of a whole request.\<close>

lemma trace_target:
  assumes "wf_target tg"
  shows "\<exists>P'. trace 3 p P (render_target tg @ 32 # bs) =
    prepend (target_calls p tg) (trace 5 (p + length (render_target tg) + 1) P' bs)"
proof (cases tg)
  case Asterisk
  then show ?thesis
    by (intro exI) (simp add: trace_Tr [OF _ _ transitions(2)] goto_target_first trace_uri_end)
next
  case (Absolute s t)
  let ?P = "P\<lparr>mark := p\<rparr>"
  have esc: "escaped uri_char t" using assms Absolute by simp
  have rest: "trace 21 p' ?P (t @ 32 # bs) = prepend [Uri_call p (p' + length t - p)] (trace 5 (p' + length t + 1) ?P bs)"
    if "p \<le> p'" for p'
    using that by (simp add: trace_escaped [OF esc goto_uri(1) goto_escape(1) goto_hex(1) goto_hex(2)] trace_uri_end)
  show ?thesis
  proof (cases s)
    case Nil
    show ?thesis using rest [of "p + 1"]
      by (intro exI [of _ ?P]) (simp add: Absolute Nil trace_Tr [OF _ _ transitions(5)] goto_target_first)
  next
    case (Cons b v)
    then have b: "scheme_char (schar b)" and v: "list_all (\<lambda>b. scheme_char (schar b)) v" using assms Absolute by simp_all
    have "trace 20 (p + 1) ?P (v @ 58 # t @ 32 # bs) = trace 21 (p + 1 + length v + 1) ?P (t @ 32 # bs)"
      by (simp add: trace_run [OF v goto_scheme(1)] trace_St goto_scheme(2))
    with rest [of "p + 1 + length v + 1"] show ?thesis
      by (intro exI [of _ ?P]) (simp add: Absolute Cons b trace_Tr [OF _ _ transitions(3)] goto_target_first add.assoc)
  qed
next
  case (Origin path params query)
  let ?P = "P\<lparr>mark := p\<rparr>"
  let ?q = "p + 1 + length path"
  have pt: "escaped (\<lambda>c. uri_char c \<and> c \<noteq> 59 \<and> c \<noteq> 63) path" using assms Origin by simp
  have start: "trace 3 p P (47 # path @ w) = trace 24 ?q ?P w" for w
    by (simp add: trace_Tr [OF _ _ transitions(4)] goto_target_first trace_escaped [OF pt _ goto_escape(2) goto_hex(3) goto_hex(4)] goto_uri(2))
  have query_part: "\<exists>P'. trace k q ?P (optional_part 63 query @ 32 # bs) = prepend
      ((case query of None \<Rightarrow> [] | Some x \<Rightarrow> [Query_call (q + 1) (length x)]) @ [Uri_call p (q + length (optional_part 63 query) - p)])
      (trace 5 (q + length (optional_part 63 query) + 1) P' bs)"
    if "k = 27" "p \<le> q" for k q
  proof (cases query)
    case None
    with that show ?thesis by (intro exI [of _ ?P]) (simp add: optional_part_def trace_uri_end)
  next
    case (Some x)
    then have x: "escaped uri_char x" using assms Origin by simp
    from trace_query [OF x, of ?P "q + 1" bs] that obtain P' where
      "trace 30 (q + 1) ?P (x @ 32 # bs) = prepend [Query_call (q + 1) (length x), Uri_call p (q + 1 + length x - p)]
        (trace 5 (q + 1 + length x + 1) P' bs)" by auto
    with that Some show ?thesis by (intro exI [of _ P']) (simp add: optional_part_def trace_St goto_parts)
  qed
  show ?thesis
  proof (cases params)
    case None
    show ?thesis
    proof (cases query)
      case None
      then show ?thesis
        by (intro exI [of _ ?P]) (simp add: Origin \<open>params = None\<close> optional_part_def start
          trace_Tr [OF _ _ transitions(14)] goto_space LEN_def)
    next
      case (Some x)
      then have x: "escaped uri_char x" using assms Origin by simp
      from trace_query [OF x, of ?P "?q + 1" bs] obtain P' where
        "trace 30 (?q + 1) ?P (x @ 32 # bs) = prepend [Query_call (?q + 1) (length x), Uri_call p (?q + 1 + length x - p)]
          (trace 5 (?q + 1 + length x + 1) P' bs)" by auto
      then show ?thesis
        by (intro exI [of _ P']) (simp add: Origin None Some optional_part_def start
          trace_Tr [OF _ _ transitions(16)] goto_parts LEN_def add.assoc)
    qed
  next
    case (Some y)
    then have y: "escaped (\<lambda>c. uri_char c \<and> c \<noteq> 63) y" using assms Origin by simp
    let ?r = "?q + 1 + length y"
    have "trace 24 ?q ?P (59 # y @ w) = prepend [Path_call p (1 + length path)] (trace 27 ?r ?P w)" for w
      by (simp add: trace_Tr [OF _ _ transitions(15)] goto_parts LEN_def
        trace_escaped [OF y _ goto_escape(3) goto_hex(5) goto_hex(6)] goto_uri(3))
    note path_part = this
    have three: "3 + n = Suc (Suc (Suc n))" for n :: nat by simp
    from query_part [of 27 ?r] obtain P' where "trace 27 ?r ?P (optional_part 63 query @ 32 # bs) = prepend
        ((case query of None \<Rightarrow> [] | Some x \<Rightarrow> [Query_call (?r + 1) (length x)]) @ [Uri_call p (?r + length (optional_part 63 query) - p)])
        (trace 5 (?r + length (optional_part 63 query) + 1) P' bs)" by auto
    with path_part [of "optional_part 63 query @ 32 # bs"] show ?thesis
      by (intro exI [of _ P'], cases query) (simp_all add: Origin Some optional_part_def start add.assoc three)
  qed
qed

lemma trace_digits:
  assumes "w \<noteq> []" and "list_all (\<lambda>b. digit_char (schar b)) w" and "k = 11 \<or> k = 13"
  shows "trace (k - 1) p P (w @ bs) = trace k (p + length w) P bs"
proof -
  from assms(1) obtain b v where w: "w = b # v" by (cases w) auto
  have v: "list_all (\<lambda>b. digit_char (schar b)) v" and b: "digit_char (schar b)" using assms(2) w by simp_all
  have "trace (k - 1) p P (w @ bs) = trace k (p + 1) P (v @ bs)"
    using assms(3) b by (auto simp: w trace_St goto_version)
  also have "\<dots> = trace k (p + 1 + length v) P bs"
    using assms(3) goto_version(7,10) by (intro trace_run [OF v]) auto
  finally show ?thesis by (simp add: w)
qed

lemma trace_version:
  assumes "rq_major r \<noteq> []" "list_all (\<lambda>b. digit_char (schar b)) (rq_major r)"
    and "rq_minor r \<noteq> []" "list_all (\<lambda>b. digit_char (schar b)) (rq_minor r)"
  shows "trace 5 p P (render_version r @ 13 # 10 # bs) =
    prepend [Version_call p (length (render_version r))] (trace 15 (p + length (render_version r) + 2) (P\<lparr>mark := p\<rparr>) bs)"
proof -
  let ?P = "P\<lparr>mark := p\<rparr>" and ?m = "length (rq_major r)" and ?n = "length (rq_minor r)"
  have five: "Suc (Suc (Suc (Suc (Suc p)))) = p + 5" by simp
  have "trace 5 p P (render_version r @ 13 # 10 # bs) = trace 10 (p + 5) ?P (rq_major r @ 46 # rq_minor r @ 13 # 10 # bs)"
    by (simp add: render_version_def trace_Tr [OF _ _ transitions(1)] trace_St goto_version five)
  also have "\<dots> = trace 11 (p + 5 + ?m) ?P (46 # rq_minor r @ 13 # 10 # bs)"
    using trace_digits [OF assms(1,2), of 11 "p + 5"] by simp
  also have "\<dots> = trace 12 (p + 5 + ?m + 1) ?P (rq_minor r @ 13 # 10 # bs)"
    by (simp add: trace_St goto_version)
  also have "\<dots> = trace 13 (p + 5 + ?m + 1 + ?n) ?P (13 # 10 # bs)"
    using trace_digits [OF assms(3,4), of 13 "p + 5 + ?m + 1"] by simp
  also have "\<dots> = prepend [Version_call p (5 + ?m + 1 + ?n)] (trace 15 (p + (5 + ?m + 1 + ?n) + 2) ?P bs)"
    by (simp add: trace_Tr [OF _ _ transitions(11)] trace_St goto_version goto_header LEN_def add.assoc)
  also have "5 + ?m + 1 + ?n = length (render_version r)" by (simp add: render_version_def)
  finally show ?thesis .
qed

text \<open>
  The headers from offset \<open>p\<close> on, with the mark \<open>m\<close> of the value before. A value that follows the colon at once
  and is empty sets no mark: its call begins at the mark of the value before.
\<close>

definition value_mark :: "nat \<Rightarrow> nat \<Rightarrow> bytes \<times> nat \<times> bytes \<Rightarrow> nat" where
  "value_mark p m h = (case h of (name, n, v) \<Rightarrow>
     if v \<noteq> [] then p + length name + 1 + n
     else if n \<noteq> 0 then p + length name + n
     else m)"

fun header_calls :: "nat \<Rightarrow> nat \<Rightarrow> (bytes \<times> nat \<times> bytes) list \<Rightarrow> http_call list" where
  "header_calls p m [] = []"
| "header_calls p m (h # hs) =
    Field_call p (length (fst h)) (value_mark p m h) (p + length (render_header h) - 2 - value_mark p m h) #
    header_calls (p + length (render_header h)) (value_mark p m h) hs"

lemma trace_spaces:
  "trace 18 p P (replicate n 32 @ bs) = trace 18 (p + n) (if n = 0 then P else P\<lparr>mark := p + n - 1\<rparr>) bs"
proof (induction n arbitrary: p P)
  case (Suc n)
  then show ?case by (simp add: trace_Tr [OF _ _ transitions(19)] goto_header)
qed simp

lemma trace_header:
  assumes "wf_header h" and "mark P \<le> p"
  shows "\<exists>P'. mark P' = value_mark p (mark P) h \<and> value_mark p (mark P) h \<le> p + length (render_header h) \<and>
    trace 15 p P (render_header h @ bs) =
    prepend [Field_call p (length (fst h)) (value_mark p (mark P) h) (p + length (render_header h) - 2 - value_mark p (mark P) h)]
      (trace 15 (p + length (render_header h)) P' bs)"
proof -
  obtain name n v where h: "h = (name, n, v)" by (cases h)
  from assms(1) obtain b w where name: "name = b # w" and b: "name_char (schar b)"
    and w: "list_all (\<lambda>b. name_char (schar b)) w" and v: "13 \<notin> set v" "v \<noteq> [] \<Longrightarrow> hd v \<noteq> 32"
    by (cases name) (auto simp: h)
  let ?P = "P\<lparr>field_start := p, field_len := length name\<rparr>" and ?q = "p + length name + 1"
  have "trace 15 p P (name @ 58 # bs') = trace 17 (p + 1) (P\<lparr>field_start := p\<rparr>) (w @ 58 # bs')" for bs'
    by (simp add: name b trace_Tr [OF _ _ transitions(10)] goto_header)
  also have "\<dots> bs' = trace 17 (p + 1 + length w) (P\<lparr>field_start := p\<rparr>) (58 # bs')" for bs'
    by (intro trace_run [OF w goto_header(5)]) simp_all
  also have "\<dots> bs' = trace 18 ?q ?P bs'" for bs'
    by (simp add: trace_Tr [OF _ _ transitions(7)] goto_header LEN_def name)
  finally have start: "trace 15 p P (name @ 58 # bs') = trace 18 ?q ?P bs'" for bs' .
  have stop: "trace k p' Q (13 # 10 # bs) =
      prepend [Field_call (field_start Q) (field_len Q) (mark Q) (LEN (mark Q) p')] (trace 15 (p' + 2) Q bs)"
    if "k = 18 \<or> k = 19" for k p' and Q :: "'a http_parser"
    using that by (auto simp: trace_Tr [OF _ _ transitions(17)] trace_St goto_header)
  define Q where "Q = (if n = 0 then ?P else ?P\<lparr>mark := ?q + n - 1\<rparr>)"
  have spaces: "trace 15 p P (render_header h @ bs) = trace 18 (?q + n) Q (v @ 13 # 10 # bs)"
    by (simp add: h start trace_spaces Q_def)
  show ?thesis
  proof (cases v)
    case Nil
    have "mark Q = value_mark p (mark P) h" using assms(2) by (simp add: Q_def value_mark_def h Nil)
    moreover have "field_start Q = p" "field_len Q = length name" by (simp_all add: Q_def)
    moreover have "mark Q \<le> ?q + n" using assms(2) by (simp add: Q_def)
    ultimately show ?thesis unfolding spaces
      by (intro exI [of _ Q]) (simp add: Nil stop h LEN_def add.assoc)
  next
    case (Cons c u)
    let ?Q = "Q\<lparr>mark := ?q + n\<rparr>"
    have c: "c \<noteq> 13" "c \<noteq> 32" and u: "list_all (\<lambda>b. schar b \<noteq> 13) u"
      using v Cons schar_inject [of _ 13] by (auto simp: list_all_iff simp del: schar_inject)
    have "schar c \<noteq> 13" "schar c \<noteq> 32" using c schar_inject [of c 13] schar_inject [of c 32] by auto
    then have "trace 18 (?q + n) Q (v @ 13 # 10 # bs) = trace 19 (?q + n + 1) ?Q (u @ 13 # 10 # bs)"
      by (simp add: Cons trace_Tr [OF _ _ transitions(18)] goto_header)
    also have "\<dots> = trace 19 (?q + n + 1 + length u) ?Q (13 # 10 # bs)"
      by (intro trace_run [OF u goto_header(10)]) simp_all
    finally show ?thesis unfolding spaces
      by (intro exI [of _ ?Q]) (simp add: stop h Cons LEN_def value_mark_def Q_def add.assoc)
  qed
qed

lemma trace_headers:
  assumes "list_all wf_header hs" and "mark P \<le> p"
  shows "\<exists>P'. trace 15 p P (concat (map render_header hs) @ bs) =
    prepend (header_calls p (mark P) hs) (trace 15 (p + length (concat (map render_header hs))) P' bs)"
  using assms
proof (induction hs arbitrary: p P)
  case (Cons h hs)
  let ?q = "p + length (render_header h)" and ?w = "concat (map render_header hs)"
  from trace_header [of h P p "?w @ bs"] Cons.prems obtain P1 where
    one: "mark P1 = value_mark p (mark P) h" "mark P1 \<le> ?q" and
    head: "trace 15 p P (render_header h @ ?w @ bs) =
      prepend [Field_call p (length (fst h)) (mark P1) (?q - 2 - mark P1)] (trace 15 ?q P1 (?w @ bs))" by auto
  from Cons.IH [of P1 ?q] Cons.prems(1) one(2) obtain P2 where
    "trace 15 ?q P1 (?w @ bs) = prepend (header_calls ?q (mark P1) hs) (trace 15 (?q + length ?w) P2 bs)" by auto
  with head one(1) show ?case by (intro exI [of _ P2]) (simp add: add.assoc)
qed (auto intro: exI [of _ P])

subsection \<open>A whole request\<close>

definition request_calls :: "http_request \<Rightarrow> nat \<Rightarrow> http_call list" where
  "request_calls r rest =
    (let m = length (rq_method r); u = m + 1; v = u + length (render_target (rq_target r)) + 1;
         h = v + length (render_version r) + 2
     in Method_call 0 m # target_calls u (rq_target r) @ Version_call v (length (render_version r)) #
        header_calls h v (rq_headers r) @ [Done_call (length (render_request r)) rest])"

theorem trace_request:
  assumes "wf_request r"
  shows "\<exists>P'. trace 0 0 P (render_request r @ rest) = (53, length (render_request r) - 1, P', request_calls r (length rest))"
proof -
  let ?m = "length (rq_method r)" and ?t = "render_target (rq_target r)" and ?h = "concat (map render_header (rq_headers r))"
  let ?v = "?m + 1 + length ?t + 1"
  let ?q = "?v + length (render_version r) + 2"
  let ?stop = "13 # 10 # rest" and ?P0 = "P\<lparr>mark := 0\<rparr>"
  note wf = assms [unfolded wf_request_def]
  have e1: "trace 0 0 P (render_request r @ rest) =
      prepend [Method_call 0 ?m] (trace 3 (?m + 1) ?P0 (?t @ 32 # render_version r @ 13 # 10 # ?h @ ?stop))"
    using trace_method [of "rq_method r" 0 P] wf by (simp add: render_request_def)
  obtain P1 where e2: "trace 3 (?m + 1) ?P0 (?t @ 32 # render_version r @ 13 # 10 # ?h @ ?stop) =
      prepend (target_calls (?m + 1) (rq_target r)) (trace 5 ?v P1 (render_version r @ 13 # 10 # ?h @ ?stop))"
    using trace_target [of "rq_target r" "?m + 1" ?P0 "render_version r @ 13 # 10 # ?h @ ?stop"] wf by blast
  let ?P1 = "P1\<lparr>mark := ?v\<rparr>"
  have e3: "trace 5 ?v P1 (render_version r @ 13 # 10 # ?h @ ?stop) =
      prepend [Version_call ?v (length (render_version r))] (trace 15 ?q ?P1 (?h @ ?stop))"
    using wf by (intro trace_version) simp_all
  have "mark ?P1 \<le> ?q" and v: "mark ?P1 = ?v" by simp_all
  with trace_headers [of "rq_headers r" ?P1 ?q ?stop] wf obtain P2 where
    e4: "trace 15 ?q ?P1 (?h @ ?stop) = prepend (header_calls ?q ?v (rq_headers r)) (trace 15 (?q + length ?h) P2 ?stop)"
    unfolding v by blast
  have e5: "trace 15 k P2 ?stop = (53, k + 1, P2\<lparr>body_start := k + 2\<rparr>, [Done_call (k + 2) (length rest)])" for k
    by (simp add: trace_St goto_header trace.simps transitions)
  have len: "?q + length ?h + 2 = length (render_request r)" "?q + length ?h + 1 = length (render_request r) - 1"
    by (simp_all add: render_request_def)
  show ?thesis unfolding e1 e2 e3 e4 e5 len
    by (simp add: request_calls_def Let_def)
qed

end
