(* ===== verification/HttpLanguage.thy ===== *)
theory HttpLanguage
  imports HttpRequest
begin

text \<open>
  Which texts the machine accepts, whatever its marks and callbacks, and that each of them begins with a well-formed request.
\<close>

subsection \<open>Acceptance\<close>

fun accepts :: "nat \<Rightarrow> bytes \<Rightarrow> bool" where
  "accepts k [] = False"
| "accepts k (b # bs) =
    (case goto_case k (schar b) of
       St j \<Rightarrow> j \<noteq> 1 \<and> accepts j bs
     | Tr t \<Rightarrow> t = 25 \<or> accepts (snd (transition t)) bs)"

lemma trace_accepts:
  "k \<noteq> 53 \<Longrightarrow> fst (trace k p P bs) = 53 \<longleftrightarrow> accepts k bs"
proof (induction bs arbitrary: k p P)
  case (Cons b bs)
  show ?case
  proof (cases "goto_case k (schar b)")
    case (St j)
    with Cons.IH [OF goes_not_final [OF St]] show ?thesis by (simp add: trace.simps)
  next
    case (Tr t)
    with final_transition(3) [OF Tr] Cons.IH [of "snd (transition t)"] show ?thesis
      by (auto simp: trace.simps Let_def split: prod.splits) (metis fst_conv)+
  qed
qed simp

lemma schar_eq [simp]:
  "schar b = 32 \<longleftrightarrow> b = 32" "schar b = 42 \<longleftrightarrow> b = 42" "schar b = 47 \<longleftrightarrow> b = 47" "schar b = 58 \<longleftrightarrow> b = 58"
  "schar b = 59 \<longleftrightarrow> b = 59" "schar b = 63 \<longleftrightarrow> b = 63" "schar b = 72 \<longleftrightarrow> b = 72" "schar b = 84 \<longleftrightarrow> b = 84"
  "schar b = 80 \<longleftrightarrow> b = 80" "schar b = 46 \<longleftrightarrow> b = 46" "schar b = 13 \<longleftrightarrow> b = 13" "schar b = 10 \<longleftrightarrow> b = 10"
  "schar b = 37 \<longleftrightarrow> b = 37"
  by (metis schar_ascii schar_inject)+

subsection \<open>Loops of the machine\<close>

lemma accepts_loop:
  assumes step: "\<And>b bs. accepts k (b # bs) \<Longrightarrow> ok (schar b) \<and> accepts k bs \<or> leave b bs" and "accepts k bs"
  shows "\<exists>w b bs'. list_all (\<lambda>b. ok (schar b)) w \<and> bs = w @ b # bs' \<and> leave b bs'"
  using assms(2)
proof (induction bs)
  case (Cons b bs)
  from step [OF Cons.prems] show ?case
  proof
    assume ok: "ok (schar b) \<and> accepts k bs"
    with Cons.IH obtain w c bs' where w: "list_all (\<lambda>b. ok (schar b)) w" "bs = w @ c # bs'" "leave c bs'" by blast
    from ok w(1) have "list_all (\<lambda>b. ok (schar b)) (b # w)" by simp
    moreover have "b # bs = (b # w) @ c # bs'" using w(2) by simp
    ultimately show ?thesis using w(3) by blast
  next
    assume "leave b bs"
    then have "list_all (\<lambda>b. ok (schar b)) [] \<and> b # bs = [] @ b # bs \<and> leave b bs" by simp
    then show ?thesis by blast
  qed
qed simp

definition hex_step :: "nat \<Rightarrow> nat \<Rightarrow> bool" where
  "hex_step k j \<longleftrightarrow> (\<forall>bs. accepts k bs \<longrightarrow> (\<exists>h bs'. bs = h # bs' \<and> hex_char (schar h) \<and> accepts j bs'))"

lemma accepts_escaped:
  assumes step: "\<And>b bs. accepts k (b # bs) \<Longrightarrow>
      b \<noteq> 37 \<and> ok (schar b) \<and> accepts k bs \<or> b = 37 \<and> accepts k1 bs \<or> leave b bs"
    and hex: "hex_step k1 k2" "hex_step k2 k" and "accepts k bs"
  shows "\<exists>w b bs'. escaped ok w \<and> bs = w @ b # bs' \<and> leave b bs'"
  using assms(4)
proof (induction bs rule: length_induct)
  case (1 bs)
  then obtain b cs where bs: "bs = b # cs" by (cases bs) auto
  from step [of b cs] "1.prems" bs consider
    "b \<noteq> 37" "ok (schar b)" "accepts k cs" | "b = 37" "accepts k1 cs" | "leave b cs" by blast
  then show ?case
  proof cases
    case 1
    with "1.IH" bs obtain w c bs' where w: "escaped ok w" "cs = w @ c # bs'" "leave c bs'" by auto
    have "escaped ok (b # w) \<and> bs = (b # w) @ c # bs' \<and> leave c bs'" using w 1 bs by simp
    then show ?thesis by blast
  next
    case 2
    from hex(1) 2(2) obtain h ds where h: "cs = h # ds" "hex_char (schar h)" "accepts k2 ds"
      unfolding hex_step_def by blast
    from hex(2) h(3) obtain l es where l: "ds = l # es" "hex_char (schar l)" "accepts k es"
      unfolding hex_step_def by blast
    have "length es < length bs" using bs h(1) l(1) by simp
    with "1.IH" l(3) obtain w c bs' where w: "escaped ok w" "es = w @ c # bs'" "leave c bs'" by blast
    have "escaped ok (b # h # l # w) \<and> bs = (b # h # l # w) @ c # bs' \<and> leave c bs'"
      using w h l 2 bs by simp
    then show ?thesis by blast
  next
    case 3
    then have "escaped ok [] \<and> bs = [] @ b # cs \<and> leave b cs" using bs by simp
    then show ?thesis by blast
  qed
qed

subsection \<open>What the states accept\<close>

lemmas accepts_simps = goto_case_def class_cases transitions

lemma hex_steps: "hex_step 22 23" "hex_step 23 21" "hex_step 25 26" "hex_step 26 24" "hex_step 28 29" "hex_step 29 27"
  "hex_step 32 33" "hex_step 33 31"
proof -
  have step: "hex_step k j" if "\<And>c. goto_case k c = (if hex_char c then St j else St 1)" for k j
    unfolding hex_step_def
  proof (intro allI impI)
    fix bs assume "accepts k bs"
    then obtain h ds where "bs = h # ds" by (cases bs) auto
    with \<open>accepts k bs\<close> that [of "schar h"] show "\<exists>h bs'. bs = h # bs' \<and> hex_char (schar h) \<and> accepts j bs'"
      by (auto split: if_splits)
  qed
  show "hex_step 22 23" "hex_step 23 21" "hex_step 25 26" "hex_step 26 24" "hex_step 28 29" "hex_step 29 27"
    "hex_step 32 33" "hex_step 33 31"
    by (rule step, simp add: accepts_simps)+
qed

lemma accepts_3: "accepts 3 (b # bs) \<Longrightarrow> b = 42 \<and> accepts 4 bs \<or> b = 47 \<and> accepts 24 bs \<or> b = 58 \<and> accepts 21 bs \<or>
    scheme_char (schar b) \<and> accepts 20 bs"
  by (auto simp: accepts_simps split: if_splits)

lemma accepts_4: "accepts 4 (b # bs) \<Longrightarrow> b = 32 \<and> accepts 5 bs"
  by (auto simp: accepts_simps split: if_splits)

lemma accepts_20: "accepts 20 (b # bs) \<Longrightarrow> scheme_char (schar b) \<and> accepts 20 bs \<or> b = 58 \<and> accepts 21 bs"
  by (auto simp: accepts_simps split: if_splits)

lemma accepts_21: "accepts 21 (b # bs) \<Longrightarrow>
    b \<noteq> 37 \<and> uri_char (schar b) \<and> accepts 21 bs \<or> b = 37 \<and> accepts 22 bs \<or> b = 32 \<and> accepts 5 bs"
  by (auto simp: accepts_simps split: if_splits)

lemma accepts_24: "accepts 24 (b # bs) \<Longrightarrow>
    b \<noteq> 37 \<and> (uri_char (schar b) \<and> schar b \<noteq> 59 \<and> schar b \<noteq> 63) \<and> accepts 24 bs \<or> b = 37 \<and> accepts 25 bs \<or>
    (b = 32 \<and> accepts 5 bs \<or> b = 59 \<and> accepts 27 bs \<or> b = 63 \<and> accepts 30 bs)"
  by (auto simp: accepts_simps split: if_splits)

lemma accepts_27: "accepts 27 (b # bs) \<Longrightarrow>
    b \<noteq> 37 \<and> (uri_char (schar b) \<and> schar b \<noteq> 63) \<and> accepts 27 bs \<or> b = 37 \<and> accepts 28 bs \<or>
    (b = 32 \<and> accepts 5 bs \<or> b = 63 \<and> accepts 30 bs)"
  by (auto simp: accepts_simps split: if_splits)

lemma accepts_30: "accepts 30 bs \<Longrightarrow> accepts 31 bs"
  by (cases bs) (auto simp: accepts_simps split: if_splits)

lemma accepts_31: "accepts 31 (b # bs) \<Longrightarrow>
    b \<noteq> 37 \<and> uri_char (schar b) \<and> accepts 31 bs \<or> b = 37 \<and> accepts 32 bs \<or> b = 32 \<and> accepts 5 bs"
  by (auto simp: accepts_simps split: if_splits)

lemma accepts_fixed:
  "accepts 5 (b # bs) \<Longrightarrow> b = 72 \<and> accepts 6 bs" "accepts 6 (b # bs) \<Longrightarrow> b = 84 \<and> accepts 7 bs"
  "accepts 7 (b # bs) \<Longrightarrow> b = 84 \<and> accepts 8 bs" "accepts 8 (b # bs) \<Longrightarrow> b = 80 \<and> accepts 9 bs"
  "accepts 9 (b # bs) \<Longrightarrow> b = 47 \<and> accepts 10 bs" "accepts 14 (b # bs) \<Longrightarrow> b = 10 \<and> accepts 15 bs"
  "accepts 16 (b # bs) \<Longrightarrow> b = 10"
  by (auto simp: accepts_simps split: if_splits)

lemma accepts_digits:
  "accepts 10 (b # bs) \<Longrightarrow> digit_char (schar b) \<and> accepts 11 bs" "accepts 12 (b # bs) \<Longrightarrow> digit_char (schar b) \<and> accepts 13 bs"
  "accepts 11 (b # bs) \<Longrightarrow> digit_char (schar b) \<and> accepts 11 bs \<or> b = 46 \<and> accepts 12 bs"
  "accepts 13 (b # bs) \<Longrightarrow> digit_char (schar b) \<and> accepts 13 bs \<or> b = 13 \<and> accepts 14 bs"
  by (auto simp: accepts_simps split: if_splits)

lemma accepts_header:
  "accepts 15 (b # bs) \<Longrightarrow> b = 13 \<and> accepts 16 bs \<or> name_char (schar b) \<and> accepts 17 bs"
  "accepts 17 (b # bs) \<Longrightarrow> name_char (schar b) \<and> accepts 17 bs \<or> b = 58 \<and> accepts 18 bs"
  "accepts 18 (b # bs) \<Longrightarrow> b = 32 \<and> accepts 18 bs \<or> b = 13 \<and> accepts 14 bs \<or> b \<noteq> 32 \<and> b \<noteq> 13 \<and> accepts 19 bs"
  "accepts 19 (b # bs) \<Longrightarrow> schar b \<noteq> 13 \<and> accepts 19 bs \<or> b = 13 \<and> accepts 14 bs"
  by (auto simp: accepts_simps split: if_splits)

lemma accepts_nonempty: "accepts k bs \<Longrightarrow> \<exists>b bs'. bs = b # bs'"
  by (cases bs) simp_all

lemma accepts_method:
  "accepts (method_state i) bs \<Longrightarrow> 1 \<le> i \<Longrightarrow> i \<le> 20 \<Longrightarrow>
   \<exists>w bs'. bs = w @ 32 # bs' \<and> list_all (\<lambda>b. method_char (schar b)) w \<and> i + length w \<le> 20 \<and> accepts 3 bs'"
proof (induction bs arbitrary: i)
  case (Cons b bs)
  show ?case
  proof (cases "b = 32")
    case True
    then have "accepts 3 bs" using Cons.prems method_cases [of i "schar b"] by (simp add: transitions)
    with True Cons.prems(3) show ?thesis by (intro exI [of _ "[]"] exI [of _ bs]) simp
  next
    case False
    then have b: "method_char (schar b)" "i < 20" "accepts (method_state (i + 1)) bs"
      using Cons.prems method_cases [of i "schar b"] by (auto split: if_splits)
    with Cons.IH [of "i + 1"] obtain w bs' where
      "bs = w @ 32 # bs'" "list_all (\<lambda>b. method_char (schar b)) w" "i + 1 + length w \<le> 20" "accepts 3 bs'" by auto
    with b show ?thesis by (intro exI [of _ "b # w"] exI [of _ bs']) simp
  qed
qed simp

text \<open>The parts of a request, in the order in which the machine meets them.\<close>

lemma accepts_query:
  assumes "accepts 30 bs"
  shows "\<exists>q bs'. escaped uri_char q \<and> bs = q @ 32 # bs' \<and> accepts 5 bs'"
  using accepts_escaped [of 31 uri_char 32 "\<lambda>b bs. b = 32 \<and> accepts 5 bs" 33 bs, OF accepts_31 hex_steps(7,8) accepts_30 [OF assms]]
  by blast

lemma accepts_target:
  assumes "accepts 3 bs"
  shows "\<exists>tg bs'. wf_target tg \<and> bs = render_target tg @ 32 # bs' \<and> accepts 5 bs'"
proof -
  from accepts_nonempty [OF assms] obtain b cs where bs: "bs = b # cs" by blast
  have uri: "\<exists>t bs'. escaped uri_char t \<and> ds = t @ 32 # bs' \<and> accepts 5 bs'" if "accepts 21 ds" for ds
    using accepts_escaped [of 21 uri_char 22 "\<lambda>b bs. b = 32 \<and> accepts 5 bs" 23 ds, OF accepts_21 hex_steps(1,2) that] by blast
  from accepts_3 [of b cs] assms bs consider
    "b = 42" "accepts 4 cs" | "b = 47" "accepts 24 cs" | "b = 58" "accepts 21 cs" | "scheme_char (schar b)" "accepts 20 cs" by blast
  then show ?thesis
  proof cases
    case 1
    with accepts_nonempty [OF 1(2)] accepts_4 obtain ds where "cs = 32 # ds" "accepts 5 ds" by blast
    then show ?thesis using 1 bs by (intro exI [of _ Asterisk] exI [of _ ds]) simp
  next
    case 2
    let ?ok = "\<lambda>c. uri_char c \<and> c \<noteq> 59 \<and> c \<noteq> 63" and ?okp = "\<lambda>c. uri_char c \<and> c \<noteq> 63"
    from accepts_escaped [of 24 ?ok 25 "\<lambda>b bs. b = 32 \<and> accepts 5 bs \<or> b = 59 \<and> accepts 27 bs \<or> b = 63 \<and> accepts 30 bs" 26 cs,
        OF accepts_24 hex_steps(3,4) 2(2)]
    obtain path c ds where path: "escaped ?ok path" "cs = path @ c # ds"
      and c: "c = 32 \<and> accepts 5 ds \<or> c = 59 \<and> accepts 27 ds \<or> c = 63 \<and> accepts 30 ds" by blast
    from c consider "c = 32" "accepts 5 ds" | "c = 59" "accepts 27 ds" | "c = 63" "accepts 30 ds" by blast
    then show ?thesis
    proof cases
      case 1
      then show ?thesis using 2 bs path
        by (intro exI [of _ "Origin path None None"] exI [of _ ds]) (simp add: optional_part_def)
    next
      case params: 2
      from accepts_escaped [of 27 ?okp 28 "\<lambda>b bs. b = 32 \<and> accepts 5 bs \<or> b = 63 \<and> accepts 30 bs" 29 ds,
          OF accepts_27 hex_steps(5,6) params(2)]
      obtain y d es where y: "escaped ?okp y" "ds = y @ d # es" and d: "d = 32 \<and> accepts 5 es \<or> d = 63 \<and> accepts 30 es" by blast
      from d show ?thesis
      proof
        assume "d = 32 \<and> accepts 5 es"
        then show ?thesis using 2 bs path y params
          by (intro exI [of _ "Origin path (Some y) None"] exI [of _ es]) (simp add: optional_part_def)
      next
        assume e: "d = 63 \<and> accepts 30 es"
        with accepts_query obtain q fs where "escaped uri_char q" "es = q @ 32 # fs" "accepts 5 fs" by blast
        then show ?thesis using 2 bs path y params e
          by (intro exI [of _ "Origin path (Some y) (Some q)"] exI [of _ fs]) (simp add: optional_part_def)
      qed
    next
      case query: 3
      with accepts_query obtain q fs where "escaped uri_char q" "ds = q @ 32 # fs" "accepts 5 fs" by blast
      then show ?thesis using 2 bs path query
        by (intro exI [of _ "Origin path None (Some q)"] exI [of _ fs]) (simp add: optional_part_def)
    qed
  next
    case 3
    with uri obtain t ds where "escaped uri_char t" "cs = t @ 32 # ds" "accepts 5 ds" by blast
    then show ?thesis using 3 bs by (intro exI [of _ "Absolute [] t"] exI [of _ ds]) simp
  next
    case 4
    from accepts_loop [of 20 scheme_char "\<lambda>b bs. b = 58 \<and> accepts 21 bs" cs, OF accepts_20 4(2)]
    obtain w ds where w: "list_all (\<lambda>b. scheme_char (schar b)) w" "cs = w @ 58 # ds" "accepts 21 ds" by blast
    with uri obtain t es where "escaped uri_char t" "ds = t @ 32 # es" "accepts 5 es" by blast
    then show ?thesis using 4 bs w by (intro exI [of _ "Absolute (b # w) t"] exI [of _ es]) simp
  qed
qed

lemma accepts_version:
  assumes "accepts 5 bs"
  shows "\<exists>mj mn bs'. bs = [72, 84, 84, 80, 47] @ mj @ 46 # mn @ 13 # 10 # bs' \<and> accepts 15 bs' \<and>
    mj \<noteq> [] \<and> list_all (\<lambda>b. digit_char (schar b)) mj \<and> mn \<noteq> [] \<and> list_all (\<lambda>b. digit_char (schar b)) mn"
proof -
  from assms accepts_nonempty accepts_fixed(1) obtain b1 where 1: "bs = 72 # b1" "accepts 6 b1" by metis
  from 1(2) accepts_nonempty accepts_fixed(2) obtain b2 where 2: "b1 = 84 # b2" "accepts 7 b2" by metis
  from 2(2) accepts_nonempty accepts_fixed(3) obtain b3 where 3: "b2 = 84 # b3" "accepts 8 b3" by metis
  from 3(2) accepts_nonempty accepts_fixed(4) obtain b4 where 4: "b3 = 80 # b4" "accepts 9 b4" by metis
  from 4(2) accepts_nonempty accepts_fixed(5) obtain b5 where 5: "b4 = 47 # b5" "accepts 10 b5" by metis
  from 5(2) accepts_nonempty accepts_digits(1) obtain d b6 where 6: "b5 = d # b6" "digit_char (schar d)" "accepts 11 b6" by metis
  from accepts_loop [of 11 digit_char "\<lambda>b bs. b = 46 \<and> accepts 12 bs" b6, OF accepts_digits(3) 6(3)]
  obtain mj b7 where 7: "list_all (\<lambda>b. digit_char (schar b)) mj" "b6 = mj @ 46 # b7" "accepts 12 b7" by blast
  from 7(3) accepts_nonempty accepts_digits(2) obtain e b8 where 8: "b7 = e # b8" "digit_char (schar e)" "accepts 13 b8" by metis
  from accepts_loop [of 13 digit_char "\<lambda>b bs. b = 13 \<and> accepts 14 bs" b8, OF accepts_digits(4) 8(3)]
  obtain mn b9 where 9: "list_all (\<lambda>b. digit_char (schar b)) mn" "b8 = mn @ 13 # b9" "accepts 14 b9" by blast
  from 9(3) accepts_nonempty accepts_fixed(6) obtain b10 where 10: "b9 = 10 # b10" "accepts 15 b10" by metis
  show ?thesis using 1 2 3 4 5 6 7 8 9 10
    by (intro exI [of _ "d # mj"] exI [of _ "e # mn"] exI [of _ b10]) simp
qed

lemma accepts_value:
  "accepts 18 bs \<Longrightarrow> \<exists>n v bs'. bs = replicate n 32 @ v @ 13 # 10 # bs' \<and> 13 \<notin> set v \<and> (v \<noteq> [] \<longrightarrow> hd v \<noteq> 32) \<and> accepts 15 bs'"
proof (induction bs)
  case (Cons b bs)
  have stop: "\<exists>cs. bs = 10 # cs \<and> accepts 15 cs" if "accepts 14 bs" for bs
    using that accepts_nonempty accepts_fixed(6) by metis
  from accepts_header(3) [OF Cons.prems] consider
    "b = 32" "accepts 18 bs" | "b = 13" "accepts 14 bs" | "b \<noteq> 32" "b \<noteq> 13" "accepts 19 bs" by blast
  then show ?case
  proof cases
    case 1
    with Cons.IH obtain n v bs' where
      "bs = replicate n 32 @ v @ 13 # 10 # bs'" "13 \<notin> set v" "v \<noteq> [] \<longrightarrow> hd v \<noteq> 32" "accepts 15 bs'" by blast
    then show ?thesis using 1 by (intro exI [of _ "Suc n"] exI [of _ v] exI [of _ bs']) simp
  next
    case 2
    with stop obtain cs where "bs = 10 # cs" "accepts 15 cs" by blast
    then show ?thesis using 2 by (intro exI [of _ 0] exI [of _ "[]"] exI [of _ cs]) simp
  next
    case 3
    from accepts_loop [of 19 "\<lambda>c. c \<noteq> 13" "\<lambda>b bs. b = 13 \<and> accepts 14 bs" bs, OF accepts_header(4) 3(3)]
    obtain w ds where w: "list_all (\<lambda>b. schar b \<noteq> 13) w" "bs = w @ 13 # ds" "accepts 14 ds" by blast
    with stop obtain cs where "ds = 10 # cs" "accepts 15 cs" by blast
    moreover have "13 \<notin> set w" using w(1) by (auto simp: list_all_iff)
    ultimately show ?thesis using 3 w by (intro exI [of _ 0] exI [of _ "b # w"] exI [of _ cs]) simp
  qed
qed simp

lemma accepts_headers:
  "accepts 15 bs \<Longrightarrow> \<exists>hs rest. list_all wf_header hs \<and> bs = concat (map render_header hs) @ 13 # 10 # rest"
proof (induction bs rule: length_induct)
  case (1 bs)
  then obtain b cs where bs: "bs = b # cs" using accepts_nonempty by blast
  from accepts_header(1) [of b cs] "1.prems" bs consider
    "b = 13" "accepts 16 cs" | "name_char (schar b)" "accepts 17 cs" by blast
  then show ?case
  proof cases
    case 1
    with accepts_nonempty accepts_fixed(7) obtain rest where "cs = 10 # rest" by metis
    then show ?thesis using 1 bs by (intro exI [of _ "[]"] exI [of _ rest]) simp
  next
    case 2
    from accepts_loop [of 17 name_char "\<lambda>b bs. b = 58 \<and> accepts 18 bs" cs, OF accepts_header(2) 2(2)]
    obtain w ds where w: "list_all (\<lambda>b. name_char (schar b)) w" "cs = w @ 58 # ds" "accepts 18 ds" by blast
    with accepts_value obtain n v es where
      v: "ds = replicate n 32 @ v @ 13 # 10 # es" "13 \<notin> set v" "v \<noteq> [] \<longrightarrow> hd v \<noteq> 32" "accepts 15 es" by blast
    have "length es < length bs" using bs w v by simp
    with "1.IH" v(4) obtain hs rest where
      "list_all wf_header hs" "es = concat (map render_header hs) @ 13 # 10 # rest" by blast
    then show ?thesis using 2 bs w v by (intro exI [of _ "(b # w, n, v) # hs"] exI [of _ rest]) simp
  qed
qed

theorem accepts_request:
  assumes "accepts 0 bs"
  shows "\<exists>r rest. wf_request r \<and> bs = render_request r @ rest"
proof -
  from accepts_nonempty [OF assms] obtain b cs where bs: "bs = b # cs" by blast
  have m: "method_state 1 = 2" by (simp add: method_state_def)
  have b: "method_char (schar b)" and "accepts (method_state 1) cs"
    unfolding m using assms bs by (auto simp: accepts_simps split: if_splits)
  with accepts_method [of 1 cs] obtain w ds where
    w: "cs = w @ 32 # ds" "list_all (\<lambda>b. method_char (schar b)) w" "1 + length w \<le> 20" "accepts 3 ds" by auto
  from accepts_target [OF w(4)] obtain tg es where tg: "wf_target tg" "ds = render_target tg @ 32 # es" "accepts 5 es" by blast
  from accepts_version [OF tg(3)] obtain mj mn fs where
    v: "es = [72, 84, 84, 80, 47] @ mj @ 46 # mn @ 13 # 10 # fs" "accepts 15 fs"
    "mj \<noteq> []" "list_all (\<lambda>b. digit_char (schar b)) mj" "mn \<noteq> []" "list_all (\<lambda>b. digit_char (schar b)) mn" by blast
  from accepts_headers [OF v(2)] obtain hs rest where
    hs: "list_all wf_header hs" "fs = concat (map render_header hs) @ 13 # 10 # rest" by blast
  let ?r = "\<lparr>rq_method = b # w, rq_target = tg, rq_major = mj, rq_minor = mn, rq_headers = hs\<rparr>"
  have "wf_request ?r" using b w tg v hs by (simp add: wf_request_def)
  moreover have "bs = render_request ?r @ rest"
    using bs w tg v hs by (simp add: render_request_def render_version_def)
  ultimately show ?thesis by blast
qed

text \<open>The accepted texts are those that begin with a well-formed request.\<close>

theorem accepts_iff_request: "accepts 0 bs \<longleftrightarrow> (\<exists>r rest. wf_request r \<and> bs = render_request r @ rest)"
proof
  assume "\<exists>r rest. wf_request r \<and> bs = render_request r @ rest"
  then obtain r rest where "wf_request r" "bs = render_request r @ rest" by blast
  with trace_request [of r _ rest] trace_accepts [of 0 0 _ bs] show "accepts 0 bs" by (metis fst_conv zero_neq_numeral)
qed (rule accepts_request)

end
