(* ===== verification/HttpNeko.thy ===== *)
theory HttpNeko
  imports HttpLanguage
begin

text \<open>
  The binding of the HTTP parser to Neko, \<open>dll_src/httpp/src/http11neko.c\<close>. The callbacks write a NUL behind
  each part of the request into the string of the caller and store the part in an object.

  An object is a map from the identifiers that \<open>val_id\<close> gives for the names; \<open>val_id\<close> belongs to the runtime
  of Neko and is an argument. The Neko function that is called at the end is a function from the object and the state of
  the world to that state. \<open>None\<close> is an access outside of the buffer, a null object or function, or a failed
  \<open>assert\<close>.
\<close>

subsection \<open>Strings and numbers\<close>

datatype neko_value = Neko_int int | Neko_string bytes

text \<open>\<open>*(buf + i) = '\0'\<close>, and the string at a pointer.\<close>

definition poke_nul :: "bytes \<Rightarrow> nat \<Rightarrow> bytes option" where
  "poke_nul buf i = (if i < length buf then Some (buf[i := 0]) else None)"

definition c_string_at :: "bytes \<Rightarrow> nat \<Rightarrow> bytes option" where
  "c_string_at buf i = (if 0 \<in> set (drop i buf) then Some (takeWhile (\<lambda>b. b \<noteq> 0) (drop i buf)) else None)"

definition ascii :: "string \<Rightarrow> bytes" where
  "ascii s = map of_char s"

text \<open>
  \<open>atoi\<close> is \<open>strtol\<close> in base 10 cut to an \<open>int\<close>; \<open>strtol\<close> stops at the limits of a \<open>long\<close>. What
  \<open>alloc_int\<close> keeps are 31 bits.
\<close>

definition c_space :: "u8 \<Rightarrow> bool" where
  "c_space b \<longleftrightarrow> b = 32 \<or> 9 \<le> b \<and> b \<le> 13"

definition c_digit :: "u8 \<Rightarrow> bool" where
  "c_digit b \<longleftrightarrow> 48 \<le> b \<and> b \<le> 57"

definition strtol :: "bytes \<Rightarrow> int" where
  "strtol s =
    (let t = dropWhile c_space s;
         sign = (t \<noteq> [] \<and> (hd t = 43 \<or> hd t = 45));
         n = foldl (\<lambda>a d. a * 10 + (uint d - 48)) 0 (takeWhile c_digit (if sign then tl t else t));
         v = (if sign \<and> hd t = 45 then - n else n)
     in max (- (2 ^ 63)) (min (2 ^ 63 - 1) v))"

definition atoi :: "bytes \<Rightarrow> int" where
  "atoi s = sint (word_of_int (strtol s) :: u32)"

definition alloc_int :: "int \<Rightarrow> neko_value" where
  "alloc_int v = Neko_int (signed_take_bit 30 v)"

subsection \<open>The callbacks\<close>

text \<open>What the callbacks find in the structure: the function and the object.\<close>

record ('id, 'w) neko_context =
  neko_cb :: "(('id \<Rightarrow> neko_value option) \<Rightarrow> 'w \<Rightarrow> 'w) option"
  neko_val :: "('id \<Rightarrow> neko_value option) option"
  world :: 'w

definition alloc_field :: "'id \<Rightarrow> neko_value \<Rightarrow> ('id, 'w) neko_context \<Rightarrow> ('id, 'w) neko_context option" where
  "alloc_field i v ctx = (case neko_val ctx of None \<Rightarrow> None | Some obj \<Rightarrow> Some (ctx\<lparr>neko_val := Some (obj(i \<mapsto> v))\<rparr>))"

definition http_field_cb :: "(bytes \<Rightarrow> 'id) \<Rightarrow> ('id, 'w) neko_context field_cb" where
  "http_field_cb val_id field flen val vlen m = do {
     buf \<leftarrow> poke_nul (fst m) (field + flen);
     buf \<leftarrow> poke_nul buf (val + vlen);
     name \<leftarrow> c_string_at buf field;
     v \<leftarrow> c_string_at buf val;
     ctx \<leftarrow> (if take 14 name = ascii ''Content-Length''
            then alloc_field (val_id name) (alloc_int (atoi v)) (snd m)
            else alloc_field (val_id name) (Neko_string v) (snd m));
     Some (buf, ctx) }"

definition request_method_cb :: "(bytes \<Rightarrow> 'id) \<Rightarrow> ('id, 'w) neko_context element_cb" where
  "request_method_cb val_id at n m = do {
     buf \<leftarrow> poke_nul (fst m) (at + n);
     s \<leftarrow> c_string_at buf at;
     ctx \<leftarrow> alloc_field (val_id (ascii ''REQUEST_METHOD'')) (Neko_string s) (snd m);
     Some (buf, ctx) }"

definition request_uri_cb :: "(bytes \<Rightarrow> 'id) \<Rightarrow> ('id, 'w) neko_context element_cb" where
  "request_uri_cb val_id at n m = do {
     buf \<leftarrow> poke_nul (fst m) (at + n);
     s \<leftarrow> c_string_at buf at;
     ctx \<leftarrow> alloc_field (val_id (ascii ''REQUEST_URI'')) (Neko_string s) (snd m);
     Some (buf, ctx) }"

definition request_path_cb :: "(bytes \<Rightarrow> 'id) \<Rightarrow> ('id, 'w) neko_context element_cb" where
  "request_path_cb val_id at n m = do {
     buf \<leftarrow> poke_nul (fst m) (at + n);
     s \<leftarrow> c_string_at buf at;
     ctx \<leftarrow> alloc_field (val_id (ascii ''REQUEST_PATH'')) (Neko_string s) (snd m);
     Some (buf, ctx) }"

definition query_string_cb :: "(bytes \<Rightarrow> 'id) \<Rightarrow> ('id, 'w) neko_context element_cb" where
  "query_string_cb val_id at n m = do {
     buf \<leftarrow> poke_nul (fst m) (at + n);
     s \<leftarrow> c_string_at buf at;
     ctx \<leftarrow> alloc_field (val_id (ascii ''QUERY_STRING'')) (Neko_string s) (snd m);
     Some (buf, ctx) }"

definition http_version_cb :: "(bytes \<Rightarrow> 'id) \<Rightarrow> ('id, 'w) neko_context element_cb" where
  "http_version_cb val_id at n m = do {
     buf \<leftarrow> poke_nul (fst m) (at + n);
     s \<leftarrow> c_string_at buf at;
     ctx \<leftarrow> alloc_field (val_id (ascii ''HTTP_VERSION'')) (Neko_string s) (snd m);
     Some (buf, ctx) }"

text \<open>
  The program's function is called with the object. It is a function on the world that returns: one that
  throws, which leaves \<open>httpp_execute\<close> with a jump, is not modelled.
\<close>

definition header_done_cb :: "('id, 'w) neko_context element_cb" where
  "header_done_cb at n m =
    (case (neko_cb (snd m), neko_val (snd m)) of
       (Some f, Some obj) \<Rightarrow> Some (fst m, (snd m)\<lparr>world := f obj (world (snd m))\<rparr>)
     | _ \<Rightarrow> None)"

subsection \<open>The functions for Neko\<close>

text \<open>\<open>calloc\<close> tells whether memory was found; the code does not look.\<close>

definition neko_parser :: "(bytes \<Rightarrow> 'id) \<Rightarrow> ('id, 'w) neko_context http_parser" where
  "neko_parser val_id =
    \<lparr>cs = 0, body_start = 0, content_len = 0, nread = 0, mark = 0, field_start = 0, field_len = 0, query_start = 0,
     http_field = Some (http_field_cb val_id), request_method = Some (request_method_cb val_id),
     request_uri = Some (request_uri_cb val_id), request_path = Some (request_path_cb val_id),
     query_string = Some (query_string_cb val_id), http_version = Some (http_version_cb val_id),
     header_done = Some header_done_cb\<rparr>"

definition httpp_init :: "(bytes \<Rightarrow> 'id) \<Rightarrow> bool \<Rightarrow> ('id, 'w) neko_context http_parser option" where
  "httpp_init val_id calloc = (if calloc then Some (snd (http_parser_init (neko_parser val_id))) else None)"

definition httpp_reset :: "'d http_parser \<Rightarrow> bool \<times> 'd http_parser" where
  "httpp_reset http = (True, snd (http_parser_init http))"

definition httpp_finish :: "'d http_parser \<Rightarrow> bool \<times> 'd http_parser" where
  "httpp_finish http = (let http' = snd (http_parser_finish http) in (http_parser_is_finished http', http'))"

text \<open>
  The string of the caller is its characters and a NUL. Its length is an argument, not taken from the string.
\<close>

definition httpp_execute :: "('id, 'w) neko_context http_parser \<Rightarrow> ('id, 'w) neko_context \<Rightarrow> bytes \<Rightarrow> int \<Rightarrow>
    (('id \<Rightarrow> neko_value option) \<Rightarrow> 'w \<Rightarrow> 'w) \<Rightarrow>
    (bool \<times> ('id, 'w) neko_context http_parser \<times> bytes \<times> ('id, 'w) neko_context) option" where
  "httpp_execute http ctx str len func =
    (let ctx = ctx\<lparr>neko_cb := Some func\<rparr>;
         ctx = ctx\<lparr>neko_val := Some (\<lambda>_. None)\<rparr>;
         http = snd (http_parser_init http)
     in do {
       (_, http, buf, ctx) \<leftarrow> http_parser_execute http (str @ [0], ctx) (nat (len mod 2 ^ 64)) 0;
       Some (True, http, buf, ctx\<lparr>neko_val := None\<rparr>) })"

definition httpp_has_error :: "'d http_parser \<Rightarrow> bool" where
  "httpp_has_error http = http_parser_has_error http"

end
