(* ===== verification/HttpProps.thy ===== *)
theory HttpProps
  imports HttpNeko
begin

text \<open>
  What a program sees of the HTTP parser through the binding: it never fails on a string that is not empty, it
  finishes exactly on requests, and the object that it hands to the callback.
\<close>

subsection \<open>The callbacks keep the law\<close>

lemma poke_nul_in: "i < length xs \<Longrightarrow> poke_nul (xs @ ys) i = Some (xs[i := 0] @ ys)"
  by (simp add: poke_nul_def list_update_append)

lemma c_string_exists:
  assumes "at \<le> i" and "i < length b" and "b ! i = 0"
  shows "\<exists>s. c_string_at (b @ ys) at = Some s"
proof -
  from assms have "drop at (b @ ys) ! (i - at) = (b @ ys) ! i" by (simp del: drop_append)
  with assms have "drop at (b @ ys) ! (i - at) = 0" by (simp add: nth_append)
  moreover have "i - at < length (drop at (b @ ys))" using assms by simp
  ultimately have "0 \<in> set (drop at (b @ ys))" by (metis nth_mem)
  then show ?thesis by (simp add: c_string_at_def)
qed

definition neko_ready :: "('id, 'w) neko_context \<Rightarrow> bool" where
  "neko_ready ctx \<longleftrightarrow> neko_cb ctx \<noteq> None \<and> neko_val ctx \<noteq> None"

lemma alloc_field_ready: "neko_ready ctx \<Longrightarrow> \<exists>ctx'. alloc_field i v ctx = Some ctx' \<and> neko_ready ctx'"
  by (auto simp: alloc_field_def neko_ready_def)

lemmas element_cb_defs = request_method_cb_def request_uri_cb_def request_path_cb_def query_string_cb_def http_version_cb_def

lemma element_law:
  assumes "neko_ready ctx" and "at + n < length xs"
  shows "\<exists>xs' s ctx'. poke_nul (xs @ ys) (at + n) = Some (xs' @ ys) \<and> c_string_at (xs' @ ys) at = Some s \<and>
    alloc_field i (Neko_string s) ctx = Some ctx' \<and> length xs' = length xs \<and> neko_ready ctx'"
proof -
  have poke: "poke_nul (xs @ ys) (at + n) = Some (xs[at + n := 0] @ ys)" using assms(2) by (rule poke_nul_in)
  obtain s where s: "c_string_at (xs[at + n := 0] @ ys) at = Some s"
    using c_string_exists [of at "at + n" "xs[at + n := 0]" ys] assms(2) by auto
  obtain ctx' where "alloc_field i (Neko_string s) ctx = Some ctx'" "neko_ready ctx'"
    using alloc_field_ready [OF assms(1)] by blast
  with poke s show ?thesis by (intro exI [of _ "xs[at + n := 0]"] exI [of _ s] exI [of _ ctx']) simp
qed

lemma field_law:
  assumes "neko_ready ctx" and "f + fn < length xs" and "v + vn < length xs"
  shows "\<exists>xs' ctx'. http_field_cb val_id f fn v vn (xs @ ys, ctx) = Some (xs' @ ys, ctx') \<and> length xs' = length xs \<and> neko_ready ctx'"
proof -
  let ?b = "xs[f + fn := 0, v + vn := 0]"
  have poke: "poke_nul (xs @ ys) (f + fn) = Some (xs[f + fn := 0] @ ys)"
    "poke_nul (xs[f + fn := 0] @ ys) (v + vn) = Some (?b @ ys)"
    using assms(2,3) by (simp_all add: poke_nul_in)
  obtain s where s: "c_string_at (?b @ ys) f = Some s"
    using c_string_exists [of f "f + fn" ?b ys] assms(2,3) by (cases "v + vn = f + fn") auto
  obtain t where t: "c_string_at (?b @ ys) v = Some t"
    using c_string_exists [of v "v + vn" ?b ys] assms(2,3) by auto
  obtain c1 where c1: "alloc_field (val_id s) (alloc_int (atoi t)) ctx = Some c1" "neko_ready c1"
    using alloc_field_ready [OF assms(1)] by blast
  obtain c2 where c2: "alloc_field (val_id s) (Neko_string t) ctx = Some c2" "neko_ready c2"
    using alloc_field_ready [OF assms(1)] by blast
  show ?thesis
    using poke s t c1 c2
    by (intro exI [of _ ?b] exI [of _ "if take 14 s = ascii ''Content-Length'' then c1 else c2"])
      (simp add: http_field_cb_def)
qed

interpretation neko: http_callbacks "neko_parser val_id" neko_ready for val_id :: "bytes \<Rightarrow> 'id"
proof (unfold_locales, goal_cases)
  case (1 d c xs ys)
  note ready = 1(1) and within = 1(2)
  show ?case
  proof (cases c)
    case (Done_call at n)
    then show ?thesis using ready
      by (auto simp: neko_parser_def call_element_def header_done_cb_def neko_ready_def)
  next
    case (Field_call f fn v vn)
    with field_law [OF ready, of f fn xs v vn val_id ys] within show ?thesis
      by (simp add: neko_parser_def)
  next
    case (Method_call at n)
    with element_law [OF ready, of at n xs ys "val_id (ascii ''REQUEST_METHOD'')"] within show ?thesis
      by (auto simp: neko_parser_def call_element_def element_cb_defs)
  next
    case (Uri_call at n)
    with element_law [OF ready, of at n xs ys "val_id (ascii ''REQUEST_URI'')"] within show ?thesis
      by (auto simp: neko_parser_def call_element_def element_cb_defs)
  next
    case (Path_call at n)
    with element_law [OF ready, of at n xs ys "val_id (ascii ''REQUEST_PATH'')"] within show ?thesis
      by (auto simp: neko_parser_def call_element_def element_cb_defs)
  next
    case (Query_call at n)
    with element_law [OF ready, of at n xs ys "val_id (ascii ''QUERY_STRING'')"] within show ?thesis
      by (auto simp: neko_parser_def call_element_def element_cb_defs)
  next
    case (Version_call at n)
    with element_law [OF ready, of at n xs ys "val_id (ascii ''HTTP_VERSION'')"] within show ?thesis
      by (auto simp: neko_parser_def call_element_def element_cb_defs)
  qed
qed

subsection \<open>Calls without the last one leave the world alone\<close>

lemma do_call_world:
  assumes "do_call (neko_parser val_id) c (b, ctx) = Some (b', ctx')" and "\<And>at n. c \<noteq> Done_call at n"
  shows "world ctx' = world ctx"
  using assms by (cases c)
    (auto simp: neko_parser_def call_element_def element_cb_defs http_field_cb_def alloc_field_def
      split: Option.bind_splits option.splits if_splits)

definition is_done :: "http_call \<Rightarrow> bool" where
  "is_done c \<longleftrightarrow> (case c of Done_call at n \<Rightarrow> True | _ \<Rightarrow> False)"

lemma do_calls_world:
  "do_calls (neko_parser val_id) calls (b, ctx) = Some (b', ctx') \<Longrightarrow> list_all (\<lambda>c. \<not> is_done c) calls \<Longrightarrow> world ctx' = world ctx"
proof (induction calls arbitrary: b ctx)
  case (Cons c calls)
  then obtain b1 c1 where one: "do_call (neko_parser val_id) c (b, ctx) = Some (b1, c1)"
    and rest: "do_calls (neko_parser val_id) calls (b1, c1) = Some (b', ctx')"
    by (auto split: Option.bind_splits)
  have "world c1 = world ctx" using do_call_world [OF one] Cons.prems(2) by (cases c) (auto simp: is_done_def)
  with Cons.IH [OF rest] Cons.prems(2) show ?case by simp
qed simp

lemma makes_no_done:
  assumes "goto_case k c = Tr t" and "t \<noteq> 25"
  shows "list_all (\<lambda>c. \<not> is_done c) (makes_all (fst (transition t)) p n P)"
  using takes_transition(1) [OF assms(1)] assms(2) by (elim insertE emptyE) (simp_all add: transitions is_done_def)

lemma trace_no_done:
  "trace k p P bs = (k', p', P', calls) \<Longrightarrow> k' \<noteq> 53 \<Longrightarrow> list_all (\<lambda>c. \<not> is_done c) calls"
proof (induction bs arbitrary: k p P calls)
  case (Cons b bs)
  show ?case
  proof (cases "goto_case k (schar b)")
    case (St j)
    with Cons show ?thesis by (cases "j = 1") (auto simp: trace.simps)
  next
    case (Tr t)
    have t: "t \<noteq> 25" using Cons.prems Tr by (auto simp: trace.simps Let_def transitions)
    obtain later where "trace (snd (transition t)) (p + 1) (noted_all (fst (transition t)) p P) bs = (k', p', P', later)"
      and "calls = makes_all (fst (transition t)) p (length bs) P @ later"
      using Cons.prems(1) Tr t by (auto simp: trace.simps Let_def split: prod.splits)
    with Cons.IH Cons.prems(2) makes_no_done [OF Tr t] show ?thesis by simp
  qed
qed simp

subsection \<open>Executing on a string\<close>

lemma same_callbacks_refl [simp]: "same_callbacks P P"
  by (simp add: same_callbacks_def)

lemma init_fresh: "snd (http_parser_init (snd (http_parser_init P))) = snd (http_parser_init P)"
  by (simp add: http_parser_init_def)

lemma init_same: "same_callbacks (snd (http_parser_init P)) Q = same_callbacks P Q"
  by (simp add: http_parser_init_def same_callbacks_def)

lemma len_word: "length str < 2 ^ 31 \<Longrightarrow> nat (int (length str) mod 2 ^ 64) = length str"
  by simp

text \<open>The effect of \<open>httpp_execute\<close> in terms of the trace of the string.\<close>

lemma httpp_execute_trace:
  assumes "same_callbacks http (neko_parser val_id)" and "str \<noteq> []" and "length str < 2 ^ 31"
    and "trace 0 0 (snd (http_parser_init http)) str = (k', p', P', calls)"
  shows "\<exists>buf ctx'.
    do_calls (neko_parser val_id) calls (str @ [0], ctx\<lparr>neko_cb := Some func, neko_val := Some (\<lambda>_. None)\<rparr>) = Some (buf, ctx') \<and>
    httpp_execute http ctx str (int (length str)) func =
      Some (True, P'\<lparr>cs := k', nread := p' + (if k' = 53 then 1 else 0)\<rparr>, buf, ctx'\<lparr>neko_val := None\<rparr>) \<and>
    length buf = length str + 1 \<and> drop (length str) buf = [0]"
proof -
  let ?ctx = "ctx\<lparr>neko_cb := Some func, neko_val := Some (\<lambda>_. None)\<rparr>" and ?P = "snd (http_parser_init http)"
  have ready: "neko_ready ?ctx" by (simp add: neko_ready_def)
  have same: "same_callbacks ?P (neko_parser val_id)" using assms(1) by (simp add: init_same)
  have "length str < 2 ^ 64" using assms(3) by simp
  from neko.execute_trace [OF same ready assms(2) this _ _ init_fresh assms(4), of "[0]"]
  obtain buf ctx' where e: "do_calls (neko_parser val_id) calls (str @ [0], ?ctx) = Some (buf, ctx')"
    "http_parser_execute ?P (str @ [0], ?ctx) (length str) 0 =
      Some (p' + (if k' = 53 then 1 else 0), P'\<lparr>cs := k', nread := p' + (if k' = 53 then 1 else 0)\<rparr>, buf, ctx')"
    "length buf = length (str @ [0])" "drop (length str) buf = [0]" by auto
  have "httpp_execute http ctx str (int (length str)) func =
      Some (True, P'\<lparr>cs := k', nread := p' + (if k' = 53 then 1 else 0)\<rparr>, buf, ctx'\<lparr>neko_val := None\<rparr>)"
    unfolding httpp_execute_def Let_def len_word [OF assms(3)] using e(2) by simp
  with e show ?thesis by auto
qed

lemma trace_same: "trace k p P bs = (k', p', P', calls) \<Longrightarrow> same_callbacks P' Q = same_callbacks P Q"
proof (induction bs arbitrary: k p P calls)
  case (Cons b bs)
  then show ?case
    by (cases "goto_case k (schar b)")
      (auto simp: trace.simps Let_def split: if_splits prod.splits)
qed simp

subsection \<open>The object of a request\<close>

text \<open>
  What the callbacks store, by name and in their order. The path is cut off with a NUL before the URI is read, so
  the URI of a path with parameters or a query is stored without them. The value of a header ends at its first NUL; an empty
  one behind the colon is read at the mark of the value before.
\<close>

fun target_fields :: "http_target \<Rightarrow> (bytes \<times> neko_value) list" where
  "target_fields (Origin path params query) =
     (ascii ''REQUEST_PATH'', Neko_string (47 # path)) #
     (case query of None \<Rightarrow> [] | Some q \<Rightarrow> [(ascii ''QUERY_STRING'', Neko_string q)]) @
     [(ascii ''REQUEST_URI'', Neko_string (47 # path))]"
| "target_fields tg = [(ascii ''REQUEST_URI'', Neko_string (render_target tg))]"

definition value_string :: "bytes \<Rightarrow> bytes \<times> nat \<times> bytes \<Rightarrow> bytes" where
  "value_string prev h = (case h of (name, n, v) \<Rightarrow>
     if v \<noteq> [] then takeWhile (\<lambda>b. b \<noteq> 0) v else if n \<noteq> 0 then [32] else prev)"

definition header_value :: "bytes \<Rightarrow> bytes \<Rightarrow> neko_value" where
  "header_value name s = (if take 14 name = ascii ''Content-Length'' then alloc_int (atoi s) else Neko_string s)"

fun header_fields :: "bytes \<Rightarrow> (bytes \<times> nat \<times> bytes) list \<Rightarrow> (bytes \<times> neko_value) list" where
  "header_fields prev [] = []"
| "header_fields prev (h # hs) =
     (fst h, header_value (fst h) (value_string prev h)) # header_fields (value_string prev h) hs"

definition request_fields :: "http_request \<Rightarrow> (bytes \<times> neko_value) list" where
  "request_fields r =
     (ascii ''REQUEST_METHOD'', Neko_string (rq_method r)) # target_fields (rq_target r) @
     (ascii ''HTTP_VERSION'', Neko_string (render_version r)) # header_fields (render_version r) (rq_headers r)"

definition store_fields :: "(bytes \<Rightarrow> 'id) \<Rightarrow> (bytes \<times> neko_value) list \<Rightarrow> ('id \<Rightarrow> neko_value option) \<Rightarrow> ('id \<Rightarrow> neko_value option)" where
  "store_fields val_id kvs obj = fold (\<lambda>(name, v) obj. obj(val_id name \<mapsto> v)) kvs obj"

definition request_object :: "(bytes \<Rightarrow> 'id) \<Rightarrow> http_request \<Rightarrow> ('id \<Rightarrow> neko_value option)" where
  "request_object val_id r = store_fields val_id (request_fields r) (\<lambda>_. None)"

definition stores :: "(bytes \<Rightarrow> 'id) \<Rightarrow> (bytes \<times> neko_value) list \<Rightarrow> ('id, 'w) neko_context \<Rightarrow> ('id, 'w) neko_context" where
  "stores val_id kvs ctx = ctx\<lparr>neko_val := map_option (store_fields val_id kvs) (neko_val ctx)\<rparr>"

lemma stores_append [simp]: "stores val_id gs (stores val_id fs ctx) = stores val_id (fs @ gs) ctx"
  by (cases "neko_val ctx") (simp_all add: stores_def store_fields_def)

lemma stores_ready [simp]: "neko_ready (stores val_id fs ctx) = neko_ready ctx"
  by (simp add: stores_def neko_ready_def)

lemma stores_Nil [simp]: "stores val_id [] ctx = ctx"
  by (cases "neko_val ctx") (simp_all add: stores_def store_fields_def)

lemma alloc_field_stores:
  "neko_ready ctx \<Longrightarrow> alloc_field (val_id name) v ctx = Some (stores val_id [(name, v)] ctx)"
  by (auto simp: alloc_field_def neko_ready_def stores_def store_fields_def)

subsection \<open>The calls on the buffer\<close>

lemma poke_at: "poke_nul (xs @ w @ b # ys) (length xs + length w) = Some (xs @ w @ 0 # ys)"
  by (simp add: poke_nul_def list_update_append)

lemma c_string_mid: "c_string_at (xs @ w @ 0 # ys) (length xs) = Some (takeWhile (\<lambda>b. b \<noteq> 0) w)"
  by (induction w) (auto simp: c_string_at_def)

lemma element_calls:
  assumes "neko_ready ctx"
  shows "do_call (neko_parser val_id) (Method_call (length xs) (length w)) (xs @ w @ b # ys, ctx) =
      Some (xs @ w @ 0 # ys, stores val_id [(ascii ''REQUEST_METHOD'', Neko_string (takeWhile (\<lambda>b. b \<noteq> 0) w))] ctx)"
    and "do_call (neko_parser val_id) (Uri_call (length xs) (length w)) (xs @ w @ b # ys, ctx) =
      Some (xs @ w @ 0 # ys, stores val_id [(ascii ''REQUEST_URI'', Neko_string (takeWhile (\<lambda>b. b \<noteq> 0) w))] ctx)"
    and "do_call (neko_parser val_id) (Path_call (length xs) (length w)) (xs @ w @ b # ys, ctx) =
      Some (xs @ w @ 0 # ys, stores val_id [(ascii ''REQUEST_PATH'', Neko_string (takeWhile (\<lambda>b. b \<noteq> 0) w))] ctx)"
    and "do_call (neko_parser val_id) (Query_call (length xs) (length w)) (xs @ w @ b # ys, ctx) =
      Some (xs @ w @ 0 # ys, stores val_id [(ascii ''QUERY_STRING'', Neko_string (takeWhile (\<lambda>b. b \<noteq> 0) w))] ctx)"
    and "do_call (neko_parser val_id) (Version_call (length xs) (length w)) (xs @ w @ b # ys, ctx) =
      Some (xs @ w @ 0 # ys, stores val_id [(ascii ''HTTP_VERSION'', Neko_string (takeWhile (\<lambda>b. b \<noteq> 0) w))] ctx)"
  by (simp_all add: neko_parser_def call_element_def element_cb_defs poke_at c_string_mid alloc_field_stores [OF assms])

lemma no_nul_class: "list_all (\<lambda>b. ok (schar b)) w \<Longrightarrow> \<not> ok 0 \<Longrightarrow> 0 \<notin> set w"
  by (induction w) (auto simp: schar_def)

lemma schar_0: "schar b = 0 \<longleftrightarrow> b = 0"
  using schar_inject [of b 0] by (simp add: schar_def)

lemma no_nul_escaped:
  assumes "escaped ok w" and "\<not> ok 0"
  shows "0 \<notin> set w"
  using assms(1)
proof (induction w rule: length_induct)
  case (1 w)
  have hex: "\<not> hex_char 0" by (simp add: char_defs)
  show ?case
  proof (cases w)
    case (Cons b v)
    show ?thesis
    proof (cases "schar b = 37")
      case True
      with "1.prems" Cons obtain h l u where v: "v = h # l # u" and u: "hex_char (schar h)" "hex_char (schar l)" "escaped ok u"
        by (auto split: list.splits)
      have "h \<noteq> 0" "l \<noteq> 0" using u hex by (auto simp: schar_def)
      moreover have "b \<noteq> 0" using True by (auto simp: schar_def)
      ultimately show ?thesis using "1.IH" u(3) Cons v by simp
    next
      case False
      with "1.prems" Cons have b: "ok (schar b)" "escaped ok v" by simp_all
      then have "b \<noteq> 0" using assms(2) by (auto simp: schar_def)
      then show ?thesis using "1.IH" Cons b(2) by simp
    qed
  qed simp
qed

lemma takeWhile_no_nul [simp]: "(0 :: u8) \<notin> set w \<Longrightarrow> takeWhile (\<lambda>b. b \<noteq> 0) w = w"
  by (induction w) auto

lemma takeWhile_nul [simp]: "(0 :: u8) \<notin> set w \<Longrightarrow> takeWhile (\<lambda>b. b \<noteq> 0) (w @ 0 # z) = w"
  by (induction w) auto

lemma target_calls_memory:
  assumes "neko_ready ctx" and "wf_target tg"
  shows "\<exists>T. length T = length (render_target tg) \<and>
    do_calls (neko_parser val_id) (target_calls (length xs) tg) (xs @ render_target tg @ 32 # ys, ctx) =
      Some (xs @ T @ 0 # ys, stores val_id (target_fields tg) ctx)"
proof (cases tg)
  case Asterisk
  then show ?thesis using element_calls(2) [OF assms(1), of val_id xs "[42]" 32 ys]
    by (intro exI [of _ "[42]"]) (simp add: do_calls_one del: do_calls.simps(2))
next
  case (Absolute s t)
  have "0 \<notin> set s" using assms(2) Absolute by (intro no_nul_class [of scheme_char]) (simp_all add: char_defs)
  moreover have "0 \<notin> set t" using assms(2) Absolute by (intro no_nul_escaped [of uri_char]) (simp_all add: uri_char_def)
  ultimately have "0 \<notin> set (render_target tg)" by (simp add: Absolute)
  then show ?thesis using element_calls(2) [OF assms(1), of val_id xs "render_target tg" 32 ys] Absolute
    by (intro exI [of _ "render_target tg"]) (simp add: do_calls_one del: do_calls.simps(2) render_target.simps)
next
  case (Origin path params query)
  let ?w = "47 # path" and ?rest = "optional_part 59 params @ optional_part 63 query @ 32 # ys"
  let ?n = "length (render_target tg)"
  have w: "0 \<notin> set ?w" using assms(2) Origin
    by (auto dest: no_nul_escaped simp: uri_char_def)
  obtain b rest where rest: "?rest = b # rest" by (cases params; cases query) (auto simp: optional_part_def)
  define c1 where "c1 = stores val_id [(ascii ''REQUEST_PATH'', Neko_string ?w)] ctx"
  have path: "do_call (neko_parser val_id) (Path_call (length xs) (1 + length path)) (xs @ render_target tg @ 32 # ys, ctx) =
      Some (xs @ ?w @ 0 # rest, c1)"
    using element_calls(3) [OF assms(1), of val_id xs ?w b rest] w rest by (simp add: Origin c1_def)
  have c1: "neko_ready c1" using assms(1) by (simp add: c1_def)
  have uri: "do_call (neko_parser val_id) (Uri_call (length xs) (length (?w @ 0 # z))) (xs @ (?w @ 0 # z) @ d # ys, c) =
      Some (xs @ (?w @ 0 # z) @ 0 # ys, stores val_id [(ascii ''REQUEST_URI'', Neko_string ?w)] c)" if "neko_ready c" for z d c
    using element_calls(2) [OF that, of val_id xs "?w @ 0 # z" d ys] takeWhile_nul [OF w, of z] by simp
  show ?thesis
  proof (cases query)
    case None
    show ?thesis
    proof (cases params)
      case None
      with \<open>query = None\<close> rest have "b = 32" "rest = ys" by (simp_all add: optional_part_def)
      with path element_calls(2) [OF c1, of val_id xs ?w 0 ys] w show ?thesis
        by (intro exI [of _ ?w]) (simp add: Origin None \<open>query = None\<close> optional_part_def do_calls_one c1_def del: do_calls.simps(2)
          add: do_calls.simps(2) [of _ "Path_call _ _"])
    next
      case (Some y)
      with \<open>query = None\<close> rest have "b = 59" "rest = y @ 32 # ys" by (simp_all add: optional_part_def)
      with path uri [OF c1, of y 32] show ?thesis
        by (intro exI [of _ "?w @ 0 # y"]) (simp add: Origin Some \<open>query = None\<close> optional_part_def c1_def)
    qed
  next
    case (Some q)
    have q: "0 \<notin> set q" using assms(2) Origin Some by (auto dest: no_nul_escaped simp: uri_char_def)
    define z where "z = (case params of None \<Rightarrow> [] | Some y \<Rightarrow> y @ [63 :: u8])"
    have rest': "rest = z @ q @ 32 # ys"
      using rest Some by (cases params) (auto simp: optional_part_def z_def)
    define c2 where "c2 = stores val_id [(ascii ''QUERY_STRING'', Neko_string q)] c1"
    let ?xs = "xs @ ?w @ 0 # z"
    have n: "length xs + ?n - length q = length ?xs" "?n = length (?w @ 0 # z @ q)"
      using Origin Some by (cases params; simp add: optional_part_def z_def)+
    have query: "do_call (neko_parser val_id) (Query_call (length xs + ?n - length q) (length q)) (xs @ ?w @ 0 # rest, c1) =
        Some (xs @ (?w @ 0 # z @ q) @ 0 # ys, c2)"
      using element_calls(4) [OF c1, of val_id ?xs q 32 ys] q by (simp add: n(1) rest' c2_def)
    have c2: "neko_ready c2" using c1 by (simp add: c2_def)
    from path query uri [OF c2, of "z @ q" 0] show ?thesis
      using n(2) Some
      by (intro exI [of _ "?w @ 0 # z @ q"]) (simp add: Origin c1_def c2_def)
  qed
qed

text \<open>
  The memory while the headers are read: at the mark \<open>m\<close> of the value before stands its string with a NUL.
\<close>

definition string_at_mark :: "bytes \<Rightarrow> nat \<Rightarrow> bytes \<Rightarrow> bool" where
  "string_at_mark xs m s \<longleftrightarrow> (\<exists>pre post. xs = pre @ s @ 0 # post \<and> length pre = m \<and> 0 \<notin> set s)"

lemma string_at_mark_read: "string_at_mark xs m s \<Longrightarrow> c_string_at (xs @ ys) m = Some s"
  using c_string_mid [of _ s] by (auto simp: string_at_mark_def)

lemma string_at_mark_append: "string_at_mark xs m s \<Longrightarrow> string_at_mark (xs @ ys) m s"
  by (auto simp: string_at_mark_def) (metis append.assoc append_Cons)

lemma string_at_mark_here: "string_at_mark (pre @ v @ 0 # post) (length pre) (takeWhile (\<lambda>b. b \<noteq> 0) v)"
proof (cases "0 \<in> set v")
  case True
  then obtain a z where v: "v = a @ 0 # z" and a: "0 \<notin> set a" by (meson split_list_first)
  show ?thesis unfolding v takeWhile_nul [OF a] string_at_mark_def using a
    by (intro exI [of _ pre] exI [of _ "z @ 0 # post"]) simp
next
  case False
  then show ?thesis unfolding string_at_mark_def by (intro exI [of _ pre] exI [of _ post]) simp
qed

lemma name_no_nul: "wf_header h \<Longrightarrow> 0 \<notin> set (fst h)"
  using no_nul_class [of name_char "fst h"] by (cases h) (simp add: name_char_def upper_char_def lower_char_def digit_char_def)

lemma header_call_memory:
  assumes "neko_ready ctx" and "wf_header h" and "string_at_mark xs m prev"
  shows "\<exists>xs'. length xs' = length xs + length (render_header h) \<and>
    string_at_mark xs' (value_mark (length xs) m h) (value_string prev h) \<and>
    do_call (neko_parser val_id) (Field_call (length xs) (length (fst h)) (value_mark (length xs) m h)
        (length xs + length (render_header h) - 2 - value_mark (length xs) m h)) (xs @ render_header h @ ys, ctx) =
      Some (xs' @ ys, stores val_id [(fst h, header_value (fst h) (value_string prev h))] ctx)"
proof -
  obtain name n v where h: "h = (name, n, v)" by (cases h)
  let ?mid = "replicate n 32 @ v" and ?m = "value_mark (length xs) m h" and ?s = "value_string prev h"
  let ?buf = "xs @ name @ 0 # ?mid @ 0 # 10 # ys" and ?xs = "xs @ name @ 0 # ?mid @ [0, 10]"
  from assms(3) have "m \<le> length xs" by (auto simp: string_at_mark_def)
  then have m: "?m + (length xs + length (render_header h) - 2 - ?m) = length (xs @ name @ 0 # ?mid)"
    by (auto simp: h value_mark_def)
  have here: "string_at_mark ?xs ?m ?s"
  proof (cases "v = [] \<and> n = 0")
    case True
    then show ?thesis using string_at_mark_append [OF assms(3)] by (simp add: h value_mark_def value_string_def)
  next
    case False
    show ?thesis
    proof (cases "v = []")
      case True
      with False obtain k where n: "n = Suc k" by (cases n) auto
      show ?thesis
        using string_at_mark_here [of "xs @ name @ 0 # replicate k 32" "[32]" "[10]"] True
        by (simp add: h n value_mark_def value_string_def replicate_append_same [symmetric] add.assoc)
    next
      case False
      then show ?thesis
        using string_at_mark_here [of "xs @ name @ 0 # replicate n 32" v "[10]"]
        by (simp add: h value_mark_def value_string_def add.assoc)
    qed
  qed
  have p1: "poke_nul (xs @ render_header h @ ys) (length xs + length name) = Some (xs @ name @ 0 # ?mid @ 13 # 10 # ys)"
    using poke_at [of xs name 58 "?mid @ 13 # 10 # ys"] by (simp add: h)
  have p2: "poke_nul (xs @ name @ 0 # ?mid @ 13 # 10 # ys) (length (xs @ name @ 0 # ?mid)) = Some ?buf"
    using poke_at [of "xs @ name @ 0 # ?mid" "[]" 13 "10 # ys"] by simp
  have name: "c_string_at ?buf (length xs) = Some name"
    using c_string_mid [of xs name] name_no_nul [OF assms(2)] by (simp add: h)
  have val: "c_string_at ?buf ?m = Some ?s"
    using string_at_mark_read [OF here, of ys] by simp
  show ?thesis
  proof (intro exI [of _ ?xs] conjI)
    show "length ?xs = length xs + length (render_header h)" by (simp add: h)
    show "string_at_mark ?xs ?m ?s" by (rule here)
    show "do_call (neko_parser val_id) (Field_call (length xs) (length (fst h)) ?m
        (length xs + length (render_header h) - 2 - ?m)) (xs @ render_header h @ ys, ctx) =
      Some (?xs @ ys, stores val_id [(fst h, header_value (fst h) ?s)] ctx)"
      using p1 p2 name val m alloc_field_stores [OF assms(1)]
      by (simp add: neko_parser_def http_field_cb_def h header_value_def)
  qed
qed

lemma header_calls_memory:
  assumes "neko_ready ctx" and "list_all wf_header hs" and "string_at_mark xs m prev"
  shows "\<exists>xs'. do_calls (neko_parser val_id) (header_calls (length xs) m hs) (xs @ concat (map render_header hs) @ ys, ctx) =
    Some (xs' @ ys, stores val_id (header_fields prev hs) ctx)"
  using assms
proof (induction hs arbitrary: xs m prev ctx)
  case (Cons h hs)
  let ?w = "concat (map render_header hs)"
  from header_call_memory [OF Cons.prems(1) _ Cons.prems(3), of h val_id "?w @ ys"] Cons.prems(2) obtain xs1 where
    one: "length xs1 = length xs + length (render_header h)"
      "string_at_mark xs1 (value_mark (length xs) m h) (value_string prev h)"
      "do_call (neko_parser val_id) (Field_call (length xs) (length (fst h)) (value_mark (length xs) m h)
        (length xs + length (render_header h) - 2 - value_mark (length xs) m h)) (xs @ render_header h @ ?w @ ys, ctx) =
      Some (xs1 @ ?w @ ys, stores val_id [(fst h, header_value (fst h) (value_string prev h))] ctx)" by auto
  have "neko_ready (stores val_id [(fst h, header_value (fst h) (value_string prev h))] ctx)" using Cons.prems(1) by simp
  from Cons.IH [OF this _ one(2)] Cons.prems(2) one(1,3) show ?case by auto
qed auto

lemma version_no_nul: "wf_request r \<Longrightarrow> 0 \<notin> set (render_version r)"
  using no_nul_class [of digit_char "rq_major r"] no_nul_class [of digit_char "rq_minor r"]
  by (simp add: wf_request_def render_version_def digit_char_def)

theorem request_calls_memory:
  assumes "neko_ready ctx" and "wf_request r" and "neko_cb ctx = Some func" and "neko_val ctx = Some obj"
  shows "\<exists>b ctx'. do_calls (neko_parser val_id) (request_calls r n) (render_request r @ ys, ctx) = Some (b, ctx') \<and>
    world ctx' = func (store_fields val_id (request_fields r) obj) (world ctx)"
proof -
  let ?m = "rq_method r" and ?t = "render_target (rq_target r)" and ?h = "concat (map render_header (rq_headers r))"
  let ?V = "render_version r" and ?N = "neko_parser val_id"
  note wf = assms(2) [unfolded wf_request_def]
  have nm: "0 \<notin> set ?m" using wf by (intro no_nul_class [of method_char]) (simp_all add: char_defs)
  define c1 where "c1 = stores val_id [(ascii ''REQUEST_METHOD'', Neko_string ?m)] ctx"
  have r1: "neko_ready c1" using assms(1) by (simp add: c1_def)
  have e1: "do_call ?N (Method_call 0 (length ?m)) (?m @ 32 # zs, ctx) = Some (?m @ 0 # zs, c1)" for zs
    using element_calls(1) [OF assms(1), of val_id "[]" ?m 32 zs] nm by (simp add: c1_def)
  define c2 where "c2 = stores val_id (target_fields (rq_target r)) c1"
  have r2: "neko_ready c2" using r1 by (simp add: c2_def)
  let ?after = "?V @ 13 # 10 # ?h @ 13 # 10 # ys"
  obtain T where T: "length T = length ?t"
    and e2: "do_calls ?N (target_calls (length ?m + 1) (rq_target r)) (?m @ 0 # ?t @ 32 # ?after, c1) = Some (?m @ 0 # T @ 0 # ?after, c2)"
    using target_calls_memory [OF r1, of "rq_target r" val_id "?m @ [0]" ?after] wf by (auto simp: c2_def)
  define c3 where "c3 = stores val_id [(ascii ''HTTP_VERSION'', Neko_string ?V)] c2"
  have r3: "neko_ready c3" using r2 by (simp add: c3_def)
  let ?v = "length ?m + 1 + length ?t + 1" and ?pre = "?m @ 0 # T @ [0]"
  have e3: "do_call ?N (Version_call ?v (length ?V)) (?m @ 0 # T @ 0 # ?after, c2) = Some (?pre @ ?V @ 0 # 10 # ?h @ 13 # 10 # ys, c3)"
    using element_calls(5) [OF r2, of val_id ?pre ?V 13 "10 # ?h @ 13 # 10 # ys"] version_no_nul [OF assms(2)] T
    by (simp add: c3_def)
  let ?xs = "?pre @ ?V @ [0, 10]" and ?q = "?v + length ?V + 2"
  have "string_at_mark ?xs ?v ?V"
    using string_at_mark_here [of ?pre ?V "[10]"] version_no_nul [OF assms(2)] T by simp
  from header_calls_memory [OF r3 _ this, of "rq_headers r" val_id "13 # 10 # ys"] wf T obtain xs' where
    e4: "do_calls ?N (header_calls ?q ?v (rq_headers r)) (?pre @ ?V @ 0 # 10 # ?h @ 13 # 10 # ys, c3) =
      Some (xs' @ 13 # 10 # ys, stores val_id (header_fields ?V (rq_headers r)) c3)" by (auto simp: add.assoc)
  have fin: "stores val_id (header_fields ?V (rq_headers r)) c3 = stores val_id (request_fields r) ctx"
    by (simp add: c3_def c2_def c1_def request_fields_def)
  have e5: "do_call ?N (Done_call (length (render_request r)) n) (xs' @ 13 # 10 # ys, stores val_id (request_fields r) ctx) =
      Some (xs' @ 13 # 10 # ys, (stores val_id (request_fields r) ctx)\<lparr>world := func (store_fields val_id (request_fields r) obj) (world ctx)\<rparr>)"
    using assms(3,4) by (simp add: neko_parser_def call_element_def header_done_cb_def stores_def)
  have "render_request r @ ys = ?m @ 32 # ?t @ 32 # ?after" by (simp add: render_request_def)
  then show ?thesis using e1 e2 e3 e4 e5
    by (simp add: request_calls_def Let_def do_calls_append fin add.assoc)
qed

subsection \<open>What a program sees\<close>

text \<open>C25. On every string that is not empty \<open>httpp_execute\<close> returns: no assertion fails, nothing outside of the string
  is read or written, its length and its NUL stay. Afterwards the parser is finished exactly if the string begins with a
  well-formed request, and if it is not, the Neko function has not been called. The parser keeps its callbacks, so it can be
  used again.\<close>

theorem httpp_execute_finishes_on_requests:
  assumes "same_callbacks http (neko_parser val_id)" and "str \<noteq> []" and "length str < 2 ^ 31"
  shows "\<exists>http' buf ctx'. httpp_execute http ctx str (int (length str)) func = Some (True, http', buf, ctx') \<and>
    length buf = length str + 1 \<and> last buf = 0 \<and> same_callbacks http' (neko_parser val_id) \<and>
    (http_parser_is_finished http' \<longleftrightarrow> (\<exists>r rest. wf_request r \<and> str = render_request r @ rest)) \<and>
    (http_parser_is_finished http' \<or> world ctx' = world ctx)"
proof -
  let ?P = "snd (http_parser_init http)"
  obtain k' p' P' calls where tr: "trace 0 0 ?P str = (k', p', P', calls)" by (metis prod_cases4)
  from httpp_execute_trace [OF assms tr, where ctx = ctx and func = func] obtain buf c where
    calls: "do_calls (neko_parser val_id) calls (str @ [0], ctx\<lparr>neko_cb := Some func, neko_val := Some (\<lambda>_. None)\<rparr>) = Some (buf, c)"
    and exec: "httpp_execute http ctx str (int (length str)) func =
      Some (True, P'\<lparr>cs := k', nread := p' + (if k' = 53 then 1 else 0)\<rparr>, buf, c\<lparr>neko_val := None\<rparr>)" (is "_ = Some (True, ?Q, _)")
    and buf: "length buf = length str + 1" "drop (length str) buf = [0]" by blast
  have "last buf = 0" using buf by (metis drop_eq_Nil last_drop last_ConsL not_le not_less_eq_eq Suc_eq_plus1 le_refl)
  moreover have "same_callbacks ?Q (neko_parser val_id)"
    using trace_same [OF tr, of "neko_parser val_id"] assms(1) by (simp add: same_callbacks_def http_parser_init_def)
  moreover have "http_parser_is_finished ?Q \<longleftrightarrow> (\<exists>r rest. wf_request r \<and> str = render_request r @ rest)"
    using trace_accepts [of 0 0 ?P str] tr accepts_iff_request [of str]
    by (simp add: http_parser_is_finished_def http_parser_first_final_def)
  moreover have "http_parser_is_finished ?Q \<or> world (c\<lparr>neko_val := None\<rparr>) = world ctx"
  proof (cases "k' = 53")
    case False
    from do_calls_world [OF calls trace_no_done [OF tr False]] show ?thesis by simp
  qed (simp add: http_parser_is_finished_def http_parser_first_final_def)
  ultimately show ?thesis using exec buf(1) by blast
qed

text \<open>The effect of a request at the start of the string.\<close>

lemma httpp_execute_object:
  assumes "same_callbacks http (neko_parser val_id)" and "wf_request r" and "length (render_request r @ rest) < 2 ^ 31"
  shows "\<exists>http' buf ctx'. httpp_execute http ctx (render_request r @ rest) (int (length (render_request r @ rest))) func =
      Some (True, http', buf, ctx') \<and>
    http_parser_is_finished http' \<and> nread http' = length (render_request r) \<and> body_start http' = length (render_request r) \<and>
    world ctx' = func (request_object val_id r) (world ctx)"
proof -
  let ?P = "snd (http_parser_init http)" and ?str = "render_request r @ rest"
  let ?ctx = "ctx\<lparr>neko_cb := Some func, neko_val := Some (\<lambda>_. None)\<rparr>"
  have ne: "?str \<noteq> []" and pos: "0 < length (render_request r)" by (simp_all add: render_request_def)
  obtain P' where tr: "trace 0 0 ?P ?str = (53, length (render_request r) - 1, P', request_calls r (length rest))"
    using trace_request [OF assms(2)] by blast
  from httpp_execute_trace [OF assms(1) ne assms(3) tr, where ctx = ctx and func = func] obtain buf c where
    calls: "do_calls (neko_parser val_id) (request_calls r (length rest)) (?str @ [0], ?ctx) = Some (buf, c)"
    and exec: "httpp_execute http ctx ?str (int (length ?str)) func =
      Some (True, P'\<lparr>cs := 53, nread := length (render_request r) - 1 + 1\<rparr>, buf, c\<lparr>neko_val := None\<rparr>)" by auto
  have ready: "neko_ready ?ctx" by (simp add: neko_ready_def)
  from request_calls_memory [OF ready assms(2), of func "\<lambda>_. None" val_id "length rest" "rest @ [0]"] calls
  have "world c = func (request_object val_id r) (world ctx)" by (auto simp: request_object_def)
  moreover have "body_start P' = length (render_request r)"
    using trace_final [OF tr] pos by (simp add: http_parser_init_def)
  ultimately show ?thesis using exec pos
    by (intro exI [of _ "P'\<lparr>cs := 53, nread := length (render_request r) - 1 + 1\<rparr>"] exI [of _ buf]
          exI [of _ "c\<lparr>neko_val := None\<rparr>"])
      (simp add: http_parser_is_finished_def http_parser_first_final_def)
qed

text \<open>C26. If the string begins with a request, the parser has read exactly the request, the body starts behind it, and
  the Neko function has been called once, with the object that \<open>request_object\<close> computes from the parts of the request.\<close>

theorem httpp_execute_hands_out_object:
  assumes "same_callbacks http (neko_parser val_id)" and "wf_request r" and "length (render_request r @ rest) < 2 ^ 31"
  shows "\<exists>http' buf ctx'. httpp_execute http ctx (render_request r @ rest) (int (length (render_request r @ rest))) func =
      Some (True, http', buf, ctx') \<and>
    http_parser_is_finished http' \<and> nread http' = length (render_request r) \<and> body_start http' = length (render_request r) \<and>
    world ctx' = func (request_object val_id r) (world ctx)"
  by (rule httpp_execute_object [OF assms])

text \<open>A request that the witnesses take: \<open>GET /x?y HTTP/1.1\<close> with the headers \<open>A: 7\<close> and \<open>B:\<close>.\<close>

definition sample_request :: http_request where
  "sample_request = \<lparr>rq_method = ascii ''GET'', rq_target = Origin (ascii ''x'') None (Some (ascii ''y'')),
     rq_major = ascii ''1'', rq_minor = ascii ''1'', rq_headers = [(ascii ''A'', 1, ascii ''7''), (ascii ''B'', 0, [])]\<rparr>"

lemma sample_request_wf: "wf_request sample_request"
  by (simp add: sample_request_def wf_request_def ascii_def schar_def char_defs)

lemma sample_request_text: "render_request sample_request =
    ascii ''GET /x?y HTTP/1.1'' @ [13, 10] @ ascii ''A: 7'' @ [13, 10] @ ascii ''B:'' @ [13, 10, 13, 10]"
  by (simp add: sample_request_def render_request_def render_version_def ascii_def optional_part_def)

abbreviation sample_context :: "(bytes, neko_value option) neko_context" where
  "sample_context \<equiv> \<lparr>neko_cb = None, neko_val = None, world = None\<rparr>"

theorem httpp_execute_finishes_on_requests_witness:
  "\<exists>http' buf ctx'. httpp_execute (neko_parser id) sample_context (ascii ''GE'') 2 (\<lambda>obj _. obj (ascii ''A'')) = Some (True, http', buf, ctx') \<and>
    length buf = 3 \<and> last buf = 0 \<and> same_callbacks http' (neko_parser id) \<and>
    (http_parser_is_finished http' \<longleftrightarrow> (\<exists>r rest. wf_request r \<and> ascii ''GE'' = render_request r @ rest)) \<and>
    (http_parser_is_finished http' \<or> world ctx' = None)"
  using httpp_execute_finishes_on_requests [of "neko_parser id" id "ascii ''GE''" sample_context "\<lambda>obj _. obj (ascii ''A'')"]
  by (simp add: ascii_def numeral_3_eq_3)

theorem httpp_execute_hands_out_object_witness:
  "\<exists>http' buf ctx'. httpp_execute (neko_parser id) sample_context (render_request sample_request) 31 (\<lambda>obj _. obj (ascii ''A'')) =
      Some (True, http', buf, ctx') \<and>
    http_parser_is_finished http' \<and> nread http' = 31 \<and> body_start http' = 31 \<and> world ctx' = Some (Neko_string (ascii ''7''))"
proof -
  have n: "length (render_request sample_request) = 31" by (simp add: sample_request_text ascii_def)
  have "request_object id sample_request (ascii ''A'') = Some (Neko_string (ascii ''7''))"
    by (simp add: request_object_def request_fields_def store_fields_def sample_request_def value_string_def header_value_def
      ascii_def render_version_def)
  with httpp_execute_hands_out_object [of "neko_parser id" id sample_request "[]" sample_context "\<lambda>obj _. obj (ascii ''A'')"]
  show ?thesis using sample_request_wf n by simp
qed

subsection \<open>Where the code goes wrong\<close>

lemma header_fields_append:
  "\<exists>prev'. header_fields prev (hs @ hs') = header_fields prev hs @ header_fields prev' hs'"
  by (induction hs arbitrary: prev) auto

lemma store_fields_append: "store_fields val_id (kvs @ kvs') obj = store_fields val_id kvs' (store_fields val_id kvs obj)"
  by (simp add: store_fields_def)

lemma request_object_last:
  assumes "rq_headers r = hs @ hs'" and "hs' \<noteq> []"
  shows "\<exists>prev obj. request_object val_id r = store_fields val_id (header_fields prev hs') obj"
proof -
  obtain prev where "header_fields (render_version r) (rq_headers r) = header_fields (render_version r) hs @ header_fields prev hs'"
    using header_fields_append assms(1) by metis
  then show ?thesis
    by (auto simp: request_object_def request_fields_def store_fields_append simp flip: append_Cons append_assoc
      intro: exI [of _ prev])
qed

text \<open>C35. A header without a value, with nothing between its colon and the end of the line, is stored with the value of the
  header before it: stated for the last header of a request behind one whose value is not empty and has no NUL, and for
  a name that does not begin with Content-Length.\<close>

theorem empty_header_takes_previous_value:
  assumes "same_callbacks http (neko_parser val_id)" and "wf_request r" and "length (render_request r @ rest) < 2 ^ 31"
    and "rq_headers r = hs @ [(a, k, v), (b, 0, [])]" and "v \<noteq> []" and "0 \<notin> set v" and "take 14 b \<noteq> ascii ''Content-Length''"
  shows "\<exists>http' buf ctx' obj. httpp_execute http ctx (render_request r @ rest) (int (length (render_request r @ rest))) func =
      Some (True, http', buf, ctx') \<and>
    world ctx' = func obj (world ctx) \<and> obj (val_id b) = Some (Neko_string v)"
proof -
  obtain prev obj where "request_object val_id r = store_fields val_id (header_fields prev [(a, k, v), (b, 0, [])]) obj"
    using request_object_last [OF assms(4)] by blast
  then have "request_object val_id r (val_id b) = Some (Neko_string v)"
    using assms(5-7) by (simp add: store_fields_def value_string_def header_value_def)
  moreover obtain http' buf ctx' where
    "httpp_execute http ctx (render_request r @ rest) (int (length (render_request r @ rest))) func = Some (True, http', buf, ctx')"
    "world ctx' = func (request_object val_id r) (world ctx)"
    using httpp_execute_object [OF assms(1-3)] by blast
  ultimately show ?thesis by blast
qed

theorem empty_header_takes_previous_value_witness:
  "\<exists>http' buf ctx' obj. httpp_execute (neko_parser id) sample_context (render_request sample_request) 31 (\<lambda>obj _. obj (ascii ''B'')) =
      Some (True, http', buf, ctx') \<and> world ctx' = obj (ascii ''B'') \<and> obj (ascii ''B'') = Some (Neko_string (ascii ''7''))"
proof -
  have n: "length (render_request sample_request) = 31" by (simp add: sample_request_text ascii_def)
  show ?thesis
    using empty_header_takes_previous_value [of "neko_parser id" id sample_request "[]" "[]" "ascii ''A''" 1 "ascii ''7''"
        "ascii ''B''" sample_context "\<lambda>obj _. obj (ascii ''B'')"] sample_request_wf n
    by (simp add: sample_request_def ascii_def)
qed

text \<open>The URI of a request with parameters or a query is stored without them.\<close>

lemma stored_uri_lacks_query:
  assumes "rq_target r = Origin path params query" and "rq_headers r = []" and "inj val_id"
  shows "request_object val_id r (val_id (ascii ''REQUEST_URI'')) = Some (Neko_string (47 # path))"
proof -
  have "val_id (ascii ''HTTP_VERSION'') \<noteq> val_id (ascii ''REQUEST_URI'')"
    using assms(3) by (simp add: inj_eq ascii_def)
  then show ?thesis using assms(1,2)
    by (simp add: request_object_def request_fields_def store_fields_append) (simp add: store_fields_def)
qed

text \<open>A header may have the name under which a part of the first line is stored, and replaces it.\<close>

lemma header_replaces_method:
  assumes "rq_headers r = hs @ [(ascii ''REQUEST_METHOD'', n, v)]" and "v \<noteq> []" and "0 \<notin> set v"
  shows "request_object val_id r (val_id (ascii ''REQUEST_METHOD'')) = Some (Neko_string v)"
proof -
  obtain prev obj where "request_object val_id r = store_fields val_id (header_fields prev [(ascii ''REQUEST_METHOD'', n, v)]) obj"
    using request_object_last [OF assms(1)] by blast
  then show ?thesis using assms(2,3) by (simp add: store_fields_def value_string_def header_value_def ascii_def)
qed

text \<open>On the empty string an assertion fails, and a length beyond the end of the string reads outside of it.\<close>

lemma httpp_execute_empty: "httpp_execute http ctx [] 0 func = None"
  by (simp add: httpp_execute_def http_parser_execute_def http_parser_init_def execute_end_def Let_def)

lemma httpp_execute_trusts_length:
  assumes "int (length str) < len" and "len < 2 ^ 31"
  shows "httpp_execute http ctx str len func = None"
proof -
  have "nat (len mod 2 ^ 64) = nat len" using assms by simp
  moreover have "Suc (length str) \<le> nat len" using assms(1) by simp
  ultimately show ?thesis by (simp add: httpp_execute_def http_parser_execute_def Let_def)
qed

end
