(* ===== verification/Spec2Isabelle.thy ===== *)
theory Spec2Isabelle
  imports EList Crc32 Packet Sha2Spec Sha1Spec Md5Spec WireProps Arrival Fragments Ordering Window BlowfishProps Handshake Dispatch AesMessages Xxtea HttpProps
begin

text \<open>
  A verification library for the C code of caffeine-hx: the reliable UDP library (ENet, under
  \<open>src/dll_src/reliableudp\<close>), the hash functions of \<open>src/dll_src/hash\<close>, the Blowfish password hash of
  \<open>src/dll_src/crypt/crypt_blowfish-1.0.2\<close>, the AES cipher of \<open>src/dll_src/crypt/src\<close>, and the parser of HTTP
  requests of \<open>src/dll_src/httpp\<close>.

  \<^bold>\<open>Parts of the program.\<close> ENet keeps a host (\<open>ENetHost\<close>), which owns a fixed array of peers
  (\<open>ENetPeer\<close>); a connected peer has channels, and each channel has queues of commands that have arrived.
  A peer has queues of commands to send, of commands sent and not acknowledged yet, and of
  acknowledgements. The queues are intrusive doubly linked lists (list.c). Queued commands share packets
  (packet.c), which carry a reference count. \<open>enet_host_service\<close> (protocol.c) recalculates the bandwidth
  limits (host.c), sends at most one datagram per peer and round, receives datagrams and runs a handler for
  every command in them, and dispatches queued events to the application; peer.c holds what the
  application and the handlers do to one peer. The hash library is one init, update and final function
  per algorithm over a block transform, used through neko and Lua bindings. The password hash takes a
  key and a setting (cost and salt) to a string that starts with the setting. The AES library has the cipher
  on blocks over tables of words (rijndael-alg-fst.cpp), keys, modes and padding over it
  (rijndael-api-fst.cpp), and the functions that Neko and Lua call (aes_lua_neko.cpp); tea.cpp is another cipher, on arrays of words.
  The HTTP parser is a state machine over the characters of a request (http11_parser.c, the output of Ragel
  as it is in the repository); it calls back with the parts of the request, which its binding to Neko
  (http11neko.c) stores in an object for the program.

  \<^bold>\<open>Theories and sources.\<close>
    \<^item> Prelude: machine words, bytes in either order, \<open>memcpy\<close> and \<open>overwrite\<close> on byte lists, and
      the splitting rules for the option monad.
    \<^item> EList: list.c and list.h on a store of nodes; \<open>dlist\<close> is the abstraction to HOL lists. The later
      theories take a queue as such a list: \<open>enet_list_insert\<close> before the end is \<open>@\<close>, \<open>enet_list_remove\<close>
      takes an element out.
    \<^item> Crc32 and Packet: packet.c, \<open>enet_crc32\<close> with its lazily built table, and packets in a store
      (\<open>packet_store\<close>) in which a dangling pointer is \<open>None\<close>.
    \<^item> BlockHash, Sha2, Sha2Stream, Sha2Spec; Sha1, Sha1Spec; Md5, Md5Spec: sha2.c, sha1.c, md5.c, with the
      published definitions beside them and the equivalences. Sha2Constants and Md5Constants: the constants
      of the standards, digits of the roots of primes and of sines, and the proofs that the tables hold them.
    \<^item> Wire: the structures of protocol.h with their images in memory, the table \<open>commandSizes\<close>.
      ETypes: enet.h, one record per structure; \<open>world\<close> is the state of the process as ENet sees it (a host,
      the packets, the clock, random numbers, datagrams that arrive and that have been sent).
    \<^item> Peer: peer.c. Host: host.c. ProtoIn, ProtoOut, Service: protocol.c with \<open>USE_CRC32\<close>, the receiving
      half, the sending half, and the functions the application calls.
    \<^item> PeerRefs, HostRefs, SendRefs, Runs: the invariant of the state and its preservation by every
      operation; runs of the library from a fresh host.
    \<^item> WireProps, Arrival, Datagram, OutProps, Delivery, Fragments, Ordering, Window: the checksum of a
      datagram, a packet from the bytes it is sent in to the application that receives it, the size of a
      datagram, time-outs and the throttle, conservation of reliable commands, fragments, the order of
      delivery, and the arithmetic of windows and clocks.
    \<^item> Handshake, Dispatch: how a peer becomes established, and the end of the dispatching loop.
    \<^item> BfTables, Blowfish, Gensalt, BlowfishProps: crypt_blowfish.c, crypt_gensalt.c and wrapper.c (the
      functions outside glibc); the radix-64 coding, the cipher as a bijection, settings and hashes.
    \<^item> AesTables, Rijndael: rijndael-alg-fst.cpp. AesSpec: FIPS 197 on bytes; AesTe, AesTd, AesSbox: the tables
      by their entries; AesFips, AesInverse, AesProps: the code computes the standard, and decryption inverts
      encryption. AesApi, AesModes: rijndael-api-fst.cpp and its modes over any block cipher (the locale
      \<open>block_cipher\<close>, interpreted for the three lengths of AES keys). AesGlue: aes_lua_neko.cpp. AesMessages: keys,
      blocks, padded messages, the Neko functions there and back, and what the Neko and Lua functions make of
      a wrong padding. Xxtea: tea.cpp.
    \<^item> Http11: http11_parser.c, one definition for each case and each transition. HttpTrace: the machine apart
      from its callbacks, and the locale \<open>http_callbacks\<close> of what it relies on in them. HttpGrammar, HttpRequest,
      HttpLanguage: the grammar of requests, the calls made for a request, and the equivalence of grammar and
      machine. HttpNeko: http11neko.c; HttpProps: the interpretation of the locale for its callbacks, and what a
      program sees.

  \<^bold>\<open>Conventions.\<close> A C function is a definition of the same name; its helpers have names of their own
  and the map of the manifest gives their lines. An integer keeps its width (\<open>u8\<close>, \<open>u16\<close>, \<open>u32\<close>, \<open>usize\<close> of
  64 bits, for a little-endian 64-bit machine). An operation on one peer and the packets is a \<open>peer_op\<close>; it
  is lifted to the world by \<open>on_peer\<close>. \<open>None\<close> is undefined behaviour (a null or dangling pointer, an index
  outside its array, a division by zero) or, for the functions defined by \<open>partial_function\<close>, not
  returning. Memory images of structures are lists of bytes (\<open>image_of_command\<close>, \<open>load_command\<close>); Arrival pins
  those of the commands for packets to the octets in network order. An \<open>int\<close> result that tells of an error stays a number. \<open>enet_malloc\<close> does not return \<open>NULL\<close>
  (it calls \<open>abort\<close>).

  \<^bold>\<open>Loops.\<close> The loop over the commands of a datagram has the measure of the bytes left. The receive loop
  and the service loop take a bound, the number of arrivals and of waits the environment still has; each
  round uses one up, so the bound is never reached. The loops of \<open>enet_peer_send\<close>, of the dispatcher and
  over the rounds of sending are \<open>partial_function (option)\<close>, and returning is a theorem where it is
  stated. The streaming hash functions are total; their bounds on lengths are those of the C types.

  \<^bold>\<open>Groups of lemmas.\<close> \<open>dlist\<close> and \<open>node_queue\<close>: every list operation is its counterpart on HOL lists.
  \<open>stream_hash\<close> and \<open>stream_digest\<close>: a hash that is fed in pieces computes the same as on the whole message;
  interpreted for SHA-1, MD5 and the SHA-2 family. \<open>counted_store\<close>: releasing references that the counts
  account for never touches freed memory. \<open>refs_op\<close>: an operation that keeps the reference counts right for one peer does so for
  the world, with \<open>grows\<close> bounding the number of references so that the 64-bit counters do not wrap; they
  are interpreted for the operations of peer.c. The induction rules \<open>send_reliable_induct\<close>,
  \<open>send_unreliable_induct\<close>, \<open>send_fragments_induct\<close> and \<open>check_timeouts_induct\<close> follow the loops of the C code
  case by case, and the properties of the sending side rest on them.

  \<^bold>\<open>Not modelled.\<close> The system calls below ENet (socket creation, address resolution, the clock) are
  the environment part of \<open>world\<close>; callbacks.c only stores function pointers. The bindings of ENet and of
  SHA-1 to neko and Lua, the test programs, the copies of Lua, zlib and the neko headers, and the code in other languages
  (Haxe, OCaml, the C++ of other directories) are outside this library. The Ragel source of the HTTP parser is not in the repository.
\<close>

end
